(* ===== verification/Momus_Prelude.thy ===== *)
theory Momus_Prelude
  imports Complex_Main "HOL-Library.Word" "HOL-Library.Multiset" "HOL-Library.Sublist"
    "HOL-Library.List_Lexorder" "HOL-Library.Char_ord"
begin

text \<open>
  What every component shares: the error and result types, the number types (\<open>u64\<close>, \<open>i64\<close>
  as words, \<open>f64\<close> with its special values), Rust's string operations on UTF-8 byte strings,
  Rust's \<open>Ordering\<close> and the stable \<open>sort_by\<close>, and the list facts the components use.

  A Rust \<open>str\<close> is its UTF-8 bytes, a \<open>string\<close> of HOL (a list of 8-bit characters).
  \<open>len\<close>, \<open>starts_with\<close>, \<open>split\<close>, comparison and hashing are bytewise in Rust too;
  operations on Rust \<open>char\<close>s go through \<open>chars\<close>, which groups the bytes into scalar values.
\<close>

named_theorems f64_simps "evaluation of the f64 operations on finite values"
named_theorems sort_facts "multiset, set and length of the sorting functions"

subsection \<open>Errors and results\<close>

text \<open>
  \<open>anyhow::Error\<close>: a message, except that the code asks of one error whether it is a
  \<open>BudgetExhausted\<close>.
\<close>

datatype momus_error = Msg string | BudgetExhausted

type_synonym 'a result = "momus_error + 'a"

abbreviation is_ok :: "'e + 'a \<Rightarrow> bool" where
  "is_ok r \<equiv> \<not> isl r"

text \<open>\<open>and_then\<close> on results, and running a fallible step over a list up to the first error.\<close>

definition and_then :: "'e + 'a \<Rightarrow> ('a \<Rightarrow> 'e + 'b) \<Rightarrow> 'e + 'b" where
  "and_then r f = (case r of Inl e \<Rightarrow> Inl e | Inr x \<Rightarrow> f x)"

lemma and_then_simps [simp]:
  "and_then (Inl e) f = Inl e"
  "and_then (Inr x) f = f x"
  by (simp_all add: and_then_def)

lemma and_then_eq_Inr:
  "and_then r f = Inr y \<longleftrightarrow> (\<exists>x. r = Inr x \<and> f x = Inr y)"
  by (cases r) auto

definition ensure :: "bool \<Rightarrow> string \<Rightarrow> unit result" where
  "ensure b msg = (if b then Inr () else Inl (Msg msg))"

lemma ensure_ok [simp]: "ensure b msg = Inr u \<longleftrightarrow> b"
  by (auto simp: ensure_def)

lemma ensure_is_ok [simp]: "isl (ensure b msg) \<longleftrightarrow> \<not> b"
  by (auto simp: ensure_def)

text \<open>The body of a \<open>for\<close> loop that only fails or goes on.\<close>

fun for_each :: "('a \<Rightarrow> unit result) \<Rightarrow> 'a list \<Rightarrow> unit result" where
  "for_each f [] = Inr ()"
| "for_each f (x # xs) = and_then (f x) (\<lambda>_. for_each f xs)"

lemma and_then_ok: "is_ok (and_then r f) \<longleftrightarrow> is_ok r \<and> is_ok (f (projr r))"
  by (cases r) simp_all

lemma for_each_ok: "is_ok (for_each f xs) \<longleftrightarrow> list_all (\<lambda>x. is_ok (f x)) xs"
  by (induction xs) (simp_all add: and_then_ok)

subsection \<open>Integers\<close>

type_synonym u64 = "64 word"

text \<open>
  \<open>usize\<close> counts of objects in memory are \<open>nat\<close>; what is parsed from text is bounded by
  \<open>usize_limit\<close>, as Rust's \<open>parse::<usize>\<close> is.
\<close>

definition usize_limit :: nat where
  "usize_limit = 2 ^ 64"

text \<open>
  Arithmetic on parsed positions wraps as in a release build (a debug build panics instead).
\<close>

definition usize_add :: "nat \<Rightarrow> nat \<Rightarrow> nat" where
  "usize_add a b = (a + b) mod usize_limit"

definition usize_sub :: "nat \<Rightarrow> nat \<Rightarrow> nat" where
  "usize_sub a b = (a + usize_limit - b) mod usize_limit"

lemma usize_limit_pos [simp]: "0 < usize_limit"
  by (simp add: usize_limit_def)

lemma usize_add_less [simp]: "usize_add a b < usize_limit"
  by (simp add: usize_add_def)

lemma usize_sub_less [simp]: "usize_sub a b < usize_limit"
  by (simp add: usize_sub_def)

lemma usize_add_exact: "a + b < usize_limit \<Longrightarrow> usize_add a b = a + b"
  by (simp add: usize_add_def)

lemma usize_sub_exact: "b \<le> a \<Longrightarrow> a < usize_limit \<Longrightarrow> usize_sub a b = a - b"
  by (simp add: usize_sub_def) (metis Nat.add_diff_assoc2 less_imp_diff_less mod_add_self2 mod_less)

text \<open>Rust's \<open>i64\<close>: an \<open>int\<close> in range, with checked and saturating operations written out.\<close>

definition i64_max :: int where "i64_max = 2 ^ 63 - 1"
definition i64_min :: int where "i64_min = - (2 ^ 63)"

definition i64_ok :: "int \<Rightarrow> bool" where
  "i64_ok x \<longleftrightarrow> i64_min \<le> x \<and> x \<le> i64_max"

definition i64_checked_add :: "int \<Rightarrow> int \<Rightarrow> int option" where
  "i64_checked_add x y = (if i64_ok (x + y) then Some (x + y) else None)"

definition i64_saturate :: "int \<Rightarrow> int" where
  "i64_saturate x = max i64_min (min i64_max x)"

definition i64_saturating_add :: "int \<Rightarrow> int \<Rightarrow> int" where
  "i64_saturating_add x y = i64_saturate (x + y)"

definition i64_saturating_sub :: "int \<Rightarrow> int \<Rightarrow> int" where
  "i64_saturating_sub x y = i64_saturate (x - y)"

text \<open>\<open>n as i64\<close> and \<open>x as usize\<close>, and wrapping \<open>i64\<close> arithmetic.\<close>

definition i64_wrap :: "int \<Rightarrow> int" where
  "i64_wrap x = (x + 2 ^ 63) mod 2 ^ 64 - 2 ^ 63"

definition i64_of_usize :: "nat \<Rightarrow> int" where
  "i64_of_usize n = i64_wrap (int n)"

definition usize_of_i64 :: "int \<Rightarrow> nat" where
  "usize_of_i64 x = nat (x mod 2 ^ 64)"

lemma i64_wrap_exact: "- (2 ^ 63) \<le> x \<Longrightarrow> x < 2 ^ 63 \<Longrightarrow> i64_wrap x = x"
  by (simp add: i64_wrap_def)

lemma usize_of_i64_exact: "0 \<le> x \<Longrightarrow> x < 2 ^ 63 \<Longrightarrow> usize_of_i64 x = nat x"
  by (simp add: usize_of_i64_def)

definition abs_diff :: "nat \<Rightarrow> nat \<Rightarrow> nat" where
  "abs_diff a b = (if a \<le> b then b - a else a - b)"

lemma abs_diff_commute: "abs_diff a b = abs_diff b a"
  by (simp add: abs_diff_def)

lemma abs_diff_self [simp]: "abs_diff a a = 0"
  by (simp add: abs_diff_def)

definition div_ceil :: "nat \<Rightarrow> nat \<Rightarrow> nat" where
  "div_ceil a b = (a + b - 1) div b"

lemma div_ceil_upper: "0 < b \<Longrightarrow> a \<le> div_ceil a b * b"
proof -
  assume b: "0 < b"
  let ?q = "(a + b - 1) div b" and ?r = "(a + b - 1) mod b"
  have "?q * b + ?r = a + b - 1" by simp
  moreover have "?r < b" using b by simp
  ultimately have "a + b - 1 < ?q * b + b" by linarith
  then show "a \<le> div_ceil a b * b" using b by (simp add: div_ceil_def)
qed

lemma div_ceil_lower:
  assumes "0 < b" and "i < div_ceil a b"
  shows "i * b < a"
proof -
  let ?q = "(a + b - 1) div b"
  have "Suc i \<le> ?q" using assms(2) by (simp add: div_ceil_def)
  then have "Suc i * b \<le> ?q * b" by (rule mult_le_mono1)
  also have "\<dots> \<le> a + b - 1" by (metis div_times_less_eq_dividend)
  finally show ?thesis using assms(1) by simp
qed

subsection \<open>f64\<close>

text \<open>
  An IEEE double: a finite value (an exact real here: rounding, overflow to infinity and the
  sign of zero are idealised away), an infinity, or NaN. \<open><\<close> and \<open>\<le>\<close> are the IEEE comparisons,
  false whenever a NaN is involved, so the type is an instance of the syntactic class \<open>ord\<close> only.
\<close>

datatype f64 = NaN | NegInf | Fin real | PosInf

fun f64_plus :: "f64 \<Rightarrow> f64 \<Rightarrow> f64" where
  "f64_plus (Fin a) (Fin b) = Fin (a + b)"
| "f64_plus NaN _ = NaN"
| "f64_plus _ NaN = NaN"
| "f64_plus PosInf NegInf = NaN"
| "f64_plus NegInf PosInf = NaN"
| "f64_plus PosInf _ = PosInf"
| "f64_plus _ PosInf = PosInf"
| "f64_plus NegInf _ = NegInf"
| "f64_plus _ NegInf = NegInf"

fun f64_neg :: "f64 \<Rightarrow> f64" where
  "f64_neg NaN = NaN"
| "f64_neg NegInf = PosInf"
| "f64_neg PosInf = NegInf"
| "f64_neg (Fin a) = Fin (- a)"

definition inf_of_sign :: "real \<Rightarrow> f64" where
  "inf_of_sign s = (if s = 0 then NaN else if 0 < s then PosInf else NegInf)"

fun f64_sign :: "f64 \<Rightarrow> real" where
  "f64_sign NaN = 0"
| "f64_sign NegInf = -1"
| "f64_sign PosInf = 1"
| "f64_sign (Fin a) = sgn a"

fun f64_times :: "f64 \<Rightarrow> f64 \<Rightarrow> f64" where
  "f64_times (Fin a) (Fin b) = Fin (a * b)"
| "f64_times NaN _ = NaN"
| "f64_times _ NaN = NaN"
| "f64_times x y = inf_of_sign (f64_sign x * f64_sign y)"

fun f64_inv :: "f64 \<Rightarrow> f64" where
  "f64_inv NaN = NaN"
| "f64_inv NegInf = Fin 0"
| "f64_inv PosInf = Fin 0"
| "f64_inv (Fin a) = (if a = 0 then PosInf else Fin (1 / a))"

fun f64_divide :: "f64 \<Rightarrow> f64 \<Rightarrow> f64" where
  "f64_divide (Fin a) (Fin b) = (if b = 0 then inf_of_sign a else Fin (a / b))"
| "f64_divide x y = f64_times x (f64_inv y)"

fun f64_less :: "f64 \<Rightarrow> f64 \<Rightarrow> bool" where
  "f64_less (Fin a) (Fin b) = (a < b)"
| "f64_less NaN _ = False"
| "f64_less _ NaN = False"
| "f64_less PosInf _ = False"
| "f64_less _ NegInf = False"
| "f64_less _ _ = True"

fun f64_less_eq :: "f64 \<Rightarrow> f64 \<Rightarrow> bool" where
  "f64_less_eq (Fin a) (Fin b) = (a \<le> b)"
| "f64_less_eq NaN _ = False"
| "f64_less_eq _ NaN = False"
| "f64_less_eq NegInf _ = True"
| "f64_less_eq _ PosInf = True"
| "f64_less_eq _ _ = False"

instantiation f64 :: "{zero, one, plus, minus, uminus, times, inverse, ord}"
begin
definition zero_f64 :: f64 where "0 = Fin 0"
definition one_f64 :: f64 where "1 = Fin 1"
definition plus_f64 :: "f64 \<Rightarrow> f64 \<Rightarrow> f64" where "x + y = f64_plus x y"
definition uminus_f64 :: "f64 \<Rightarrow> f64" where "- x = f64_neg x"
definition minus_f64 :: "f64 \<Rightarrow> f64 \<Rightarrow> f64" where "x - y = f64_plus x (f64_neg y)"
definition times_f64 :: "f64 \<Rightarrow> f64 \<Rightarrow> f64" where "x * y = f64_times x y"
definition inverse_f64 :: "f64 \<Rightarrow> f64" where "inverse x = f64_inv x"
definition divide_f64 :: "f64 \<Rightarrow> f64 \<Rightarrow> f64" where "x div y = f64_divide x y"
definition less_f64 :: "f64 \<Rightarrow> f64 \<Rightarrow> bool" where "x < y = f64_less x y"
definition less_eq_f64 :: "f64 \<Rightarrow> f64 \<Rightarrow> bool" where "x \<le> y = f64_less_eq x y"
instance ..
end

lemma f64_fin_arith [simp, f64_simps]:
  "Fin a + Fin b = Fin (a + b)"
  "Fin a - Fin b = Fin (a - b)"
  "- Fin a = Fin (- a)"
  "Fin a * Fin b = Fin (a * b)"
  "Fin a / Fin b = (if b = 0 then inf_of_sign a else Fin (a / b))"
  by (simp_all add: plus_f64_def minus_f64_def uminus_f64_def times_f64_def divide_f64_def)

lemma f64_fin_compare [simp, f64_simps]:
  "Fin a < Fin b \<longleftrightarrow> a < b"
  "Fin a \<le> Fin b \<longleftrightarrow> a \<le> b"
  by (simp_all add: less_f64_def less_eq_f64_def)

lemma f64_nan_compare [simp]:
  "\<not> NaN < x" "\<not> x < NaN" "\<not> NaN \<le> x" "\<not> x \<le> NaN"
  by (cases x; simp add: less_f64_def less_eq_f64_def)+

lemma f64_inf_compare [simp]:
  "NegInf \<le> Fin a" "Fin a \<le> PosInf" "\<not> PosInf \<le> Fin a" "\<not> Fin a \<le> NegInf"
  "NegInf < Fin a" "Fin a < PosInf" "\<not> PosInf < Fin a" "\<not> Fin a < NegInf"
  by (simp_all add: less_f64_def less_eq_f64_def)

text \<open>\<open>is_finite\<close>, \<open>f64::max\<close>, \<open>f64::min\<close> (a NaN operand is ignored), \<open>clamp\<close>, \<open>abs\<close>,
  conversion from and (saturating, truncating) to \<open>usize\<close>, and left-to-right summation.\<close>

definition is_finite :: "f64 \<Rightarrow> bool" where
  "is_finite x = (case x of Fin _ \<Rightarrow> True | _ \<Rightarrow> False)"

definition f64_max :: "f64 \<Rightarrow> f64 \<Rightarrow> f64" where
  "f64_max x y = (if x = NaN then y else if y = NaN then x else if x \<le> y then y else x)"

definition f64_min :: "f64 \<Rightarrow> f64 \<Rightarrow> f64" where
  "f64_min x y = (if x = NaN then y else if y = NaN then x else if x \<le> y then x else y)"

definition f64_clamp :: "f64 \<Rightarrow> f64 \<Rightarrow> f64 \<Rightarrow> f64" where
  "f64_clamp x lo hi = (if x < lo then lo else if hi < x then hi else x)"

fun f64_abs :: "f64 \<Rightarrow> f64" where
  "f64_abs NaN = NaN"
| "f64_abs NegInf = PosInf"
| "f64_abs PosInf = PosInf"
| "f64_abs (Fin a) = Fin \<bar>a\<bar>"

definition f64_of_nat :: "nat \<Rightarrow> f64" where
  "f64_of_nat n = Fin (real n)"

fun f64_to_usize :: "f64 \<Rightarrow> nat" where
  "f64_to_usize NaN = 0"
| "f64_to_usize NegInf = 0"
| "f64_to_usize PosInf = usize_limit - 1"
| "f64_to_usize (Fin a) = min (usize_limit - 1) (nat \<lfloor>a\<rfloor>)"

definition f64_sum :: "f64 list \<Rightarrow> f64" where
  "f64_sum xs = foldl (+) (Fin 0) xs"

definition in_unit :: "f64 \<Rightarrow> bool" where
  "in_unit x \<longleftrightarrow> Fin 0 \<le> x \<and> x \<le> Fin 1"

lemma is_finite_Fin [simp]: "is_finite (Fin a)"
  by (simp add: is_finite_def)

lemma is_finiteE: "is_finite x \<Longrightarrow> (\<And>a. x = Fin a \<Longrightarrow> P) \<Longrightarrow> P"
  by (cases x) (simp_all add: is_finite_def)

lemma in_unit_iff: "in_unit x \<longleftrightarrow> (\<exists>a. x = Fin a \<and> 0 \<le> a \<and> a \<le> 1)"
  by (cases x) (auto simp: in_unit_def less_eq_f64_def)

lemma f64_max_Fin [simp, f64_simps]: "f64_max (Fin a) (Fin b) = Fin (max a b)"
  by (simp add: f64_max_def max_def)

lemma f64_min_Fin [simp, f64_simps]: "f64_min (Fin a) (Fin b) = Fin (min a b)"
  by (simp add: f64_min_def min_def)

lemma foldl_plus_Fin: "foldl (+) (Fin c) (map Fin rs) = Fin (c + sum_list rs)"
  by (induction rs arbitrary: c) (simp_all add: add.assoc)

lemma f64_sum_Fin [simp, f64_simps]: "f64_sum (map Fin rs) = Fin (sum_list rs)"
  by (simp add: f64_sum_def foldl_plus_Fin)

subsection \<open>Lists\<close>

lemma drop_split: "p \<le> s \<Longrightarrow> drop p l = drop p (take s l) @ drop s l"
  by (metis append_take_drop_id drop_drop drop_take le_add_diff_inverse2)

end
