(* ===== verification/Rust_Sort.thy ===== *)
theory Rust_Sort
  imports Momus_Prelude
begin

text \<open>
  Rust's \<open>Ordering\<close>, the comparators built from it and the stable \<open>slice::sort_by\<close>. The
  interface a sort relies on is the locale \<open>comparator\<close> (a total preorder); the comparators of the components are its
  interpretations.
\<close>

datatype ordering = Less | Equal | Greater

text \<open>\<open>Ordering::then\<close>, \<open>Ord::cmp\<close>, \<open>Ordering::reverse\<close>.\<close>

definition then_cmp :: "ordering \<Rightarrow> ordering \<Rightarrow> ordering" where
  "then_cmp a b = (if a = Equal then b else a)"

definition cmp :: "'a::linorder \<Rightarrow> 'a \<Rightarrow> ordering" where
  "cmp x y = (if x < y then Less else if x = y then Equal else Greater)"

text \<open>\<open>f64::total_cmp\<close>: negative infinity, the finite values, positive infinity, NaN.\<close>

fun total_le :: "f64 \<Rightarrow> f64 \<Rightarrow> bool" where
  "total_le _ NaN = True"
| "total_le NaN _ = False"
| "total_le NegInf _ = True"
| "total_le _ PosInf = True"
| "total_le (Fin a) (Fin b) = (a \<le> b)"
| "total_le _ _ = False"

definition total_cmp :: "f64 \<Rightarrow> f64 \<Rightarrow> ordering" where
  "total_cmp x y = (if x = y then Equal else if total_le x y then Less else Greater)"

text \<open>\<open>partial_cmp(..).unwrap_or(Equal)\<close>.\<close>

definition partial_cmp_or_equal :: "f64 \<Rightarrow> f64 \<Rightarrow> ordering" where
  "partial_cmp_or_equal x y = (if x < y then Less else if y < x then Greater else Equal)"

lemma cmp_eq [simp]:
  "cmp x y = Equal \<longleftrightarrow> x = y" "cmp x y = Greater \<longleftrightarrow> y < x" "cmp x y = Less \<longleftrightarrow> x < y"
  by (auto simp: cmp_def)

lemma then_cmp_eq [simp]:
  "then_cmp a b = Equal \<longleftrightarrow> a = Equal \<and> b = Equal"
  "then_cmp a b = Greater \<longleftrightarrow> a = Greater \<or> a = Equal \<and> b = Greater"
  "then_cmp a b = Less \<longleftrightarrow> a = Less \<or> a = Equal \<and> b = Less"
  by (cases a; simp add: then_cmp_def)+

lemma total_le_refl [simp]: "total_le x x"
  by (cases x) simp_all

lemma total_le_trans: "total_le x y \<Longrightarrow> total_le y z \<Longrightarrow> total_le x z"
  by (cases x; cases y; cases z) simp_all

lemma total_le_total: "total_le x y \<or> total_le y x"
  by (cases x; cases y) auto

lemma total_le_antisym: "total_le x y \<Longrightarrow> total_le y x \<Longrightarrow> x = y"
  by (cases x; cases y) simp_all

lemma total_le_Fin [simp]: "total_le (Fin a) (Fin b) \<longleftrightarrow> a \<le> b"
  by simp

lemma total_cmp_eq [simp]:
  "total_cmp x y = Equal \<longleftrightarrow> x = y"
  "total_cmp x y = Greater \<longleftrightarrow> \<not> total_le x y"
  using total_le_total [of x y] total_le_antisym [of x y] by (auto simp: total_cmp_def)

lemma total_cmp_Less: "total_cmp x y = Less \<longleftrightarrow> x \<noteq> y \<and> total_le x y"
  by (auto simp: total_cmp_def)

subsection \<open>The stable sort\<close>

text \<open>
  Rust guarantees that \<open>sort_by\<close> with a total order is stable, which determines its result;
  insertion from the right, before the first element that is not smaller, has that result.
\<close>

fun insert_by :: "('a \<Rightarrow> 'a \<Rightarrow> ordering) \<Rightarrow> 'a \<Rightarrow> 'a list \<Rightarrow> 'a list" where
  "insert_by c x [] = [x]"
| "insert_by c x (y # ys) = (if c x y = Greater then y # insert_by c x ys else x # y # ys)"

definition sort_by :: "('a \<Rightarrow> 'a \<Rightarrow> ordering) \<Rightarrow> 'a list \<Rightarrow> 'a list" where
  "sort_by c xs = foldr (insert_by c) xs []"

abbreviation ordered_by :: "('a \<Rightarrow> 'a \<Rightarrow> ordering) \<Rightarrow> 'a list \<Rightarrow> bool" where
  "ordered_by c \<equiv> sorted_wrt (\<lambda>x y. c x y \<noteq> Greater)"

lemma sort_by_simps [simp]:
  "sort_by c [] = []"
  "sort_by c (x # xs) = insert_by c x (sort_by c xs)"
  by (simp_all add: sort_by_def)

lemma mset_insert_by [simp, sort_facts]: "mset (insert_by c x xs) = add_mset x (mset xs)"
  by (induction xs) auto

lemma mset_sort_by [simp, sort_facts]: "mset (sort_by c xs) = mset xs"
  by (induction xs) auto

lemma set_sort_by [simp, sort_facts]: "set (sort_by c xs) = set xs"
  by (metis mset_sort_by set_mset_mset)

lemma length_sort_by [simp, sort_facts]: "length (sort_by c xs) = length xs"
  by (metis mset_sort_by size_mset)

lemma distinct_sort_by [simp, sort_facts]: "distinct (sort_by c xs) \<longleftrightarrow> distinct xs"
  by (metis mset_sort_by distinct_count_atmost_1 set_mset_mset)

lemma sort_by_eq_Nil [simp]: "sort_by c xs = [] \<longleftrightarrow> xs = []"
  by (metis length_0_conv length_sort_by)

lemma sum_list_sort_by: "sum_list (map f (sort_by c xs)) = sum_list (map f xs)"
  for f :: "'a \<Rightarrow> nat"
  by (metis mset_map mset_sort_by sum_mset_sum_list)

lemma insert_by_filter_neg: "\<not> P x \<Longrightarrow> filter P (insert_by c x xs) = filter P xs"
  by (induction xs) auto

locale comparator =
  fixes c :: "'a \<Rightarrow> 'a \<Rightarrow> ordering"
  assumes total: "c x y = Greater \<Longrightarrow> c y x \<noteq> Greater"
    and trans: "c x y \<noteq> Greater \<Longrightarrow> c y z \<noteq> Greater \<Longrightarrow> c x z \<noteq> Greater"
begin

lemma refl: "c x x \<noteq> Greater"
  using total by blast

lemma ordered_insert_by: "ordered_by c xs \<Longrightarrow> ordered_by c (insert_by c x xs)"
proof (induction xs)
  case Nil
  then show ?case by simp
next
  case (Cons y ys)
  show ?case
  proof (cases "c x y = Greater")
    case True
    have "set (insert_by c x ys) = insert x (set ys)"
      by (metis mset_insert_by set_mset_add_mset_insert set_mset_mset)
    with True Cons show ?thesis using total by auto
  next
    case False
    with Cons.prems show ?thesis using trans by auto
  qed
qed

lemma ordered_sort_by: "ordered_by c (sort_by c xs)"
  by (induction xs) (simp_all add: ordered_insert_by)

lemma insert_by_front: "\<forall>y \<in> set xs. c x y \<noteq> Greater \<Longrightarrow> insert_by c x xs = x # xs"
  by (cases xs) auto

lemma sort_by_id: "ordered_by c xs \<Longrightarrow> sort_by c xs = xs"
  by (induction xs) (simp_all add: insert_by_front)

lemma sort_by_idem: "sort_by c (sort_by c xs) = sort_by c xs"
  by (rule sort_by_id) (rule ordered_sort_by)

lemma filter_insert_by:
  "ordered_by c xs \<Longrightarrow> P x \<Longrightarrow> filter P (insert_by c x xs) = insert_by c x (filter P xs)"
proof (induction xs)
  case Nil
  then show ?case by simp
next
  case (Cons y ys)
  show ?case
  proof (cases "c x y = Greater")
    case True
    with Cons show ?thesis by simp
  next
    case False
    with Cons.prems have "\<forall>z \<in> set (filter P (y # ys)). c x z \<noteq> Greater"
      using trans by auto
    then have "insert_by c x (filter P (y # ys)) = x # filter P (y # ys)"
      by (rule insert_by_front)
    with False Cons.prems show ?thesis by simp
  qed
qed

lemma filter_sort_by: "filter P (sort_by c xs) = sort_by c (filter P xs)"
proof (induction xs)
  case Nil
  then show ?case by simp
next
  case (Cons x xs)
  then show ?case
    by (cases "P x") (simp_all add: filter_insert_by insert_by_filter_neg ordered_sort_by)
qed

text \<open>Stability: elements the comparator does not tell apart keep their order.\<close>

lemma sort_by_stable: "filter (\<lambda>y. c x y = Equal) (sort_by c xs) = filter (\<lambda>y. c x y = Equal) xs"
  if eq: "\<And>y z. c x y = Equal \<Longrightarrow> c x z = Equal \<Longrightarrow> c y z = Equal"
proof -
  have "ordered_by c (filter (\<lambda>y. c x y = Equal) xs)"
    by (induction xs) (auto dest: eq)
  then show ?thesis by (simp add: filter_sort_by sort_by_id)
qed

text \<open>
  Where elements that compare equal are identical, the sorted list depends only on the
  multiset of the input.
\<close>

lemma ordered_unique:
  "mset xs = mset ys \<Longrightarrow> ordered_by c xs \<Longrightarrow> ordered_by c ys \<Longrightarrow>
   (\<And>x y. x \<in> set xs \<Longrightarrow> y \<in> set xs \<Longrightarrow> c x y \<noteq> Greater \<Longrightarrow> c y x \<noteq> Greater \<Longrightarrow> x = y) \<Longrightarrow> xs = ys"
proof (induction xs arbitrary: ys)
  case Nil
  then show ?case by simp
next
  case (Cons x xs)
  then obtain y ys' where ys: "ys = y # ys'" by (cases ys) auto
  have x: "x = y \<or> x \<in> set ys'" and y: "y = x \<or> y \<in> set xs"
    using Cons.prems(1) ys by (metis list.set_intros(1) mset_eq_setD set_ConsD)+
  have "x = y"
  proof (rule ccontr)
    assume "x \<noteq> y"
    with x y Cons.prems(2,3) ys have "c x y \<noteq> Greater" "c y x \<noteq> Greater" "y \<in> set (x # xs)"
      by auto
    with Cons.prems(4) [of x y] \<open>x \<noteq> y\<close> show False by simp
  qed
  moreover have "xs = ys'"
    using Cons.prems ys \<open>x = y\<close> by (intro Cons.IH) auto
  ultimately show ?case using ys by simp
qed

lemma sort_by_perm_on:
  assumes "mset xs = mset ys"
    and "\<And>x y. x \<in> set xs \<Longrightarrow> y \<in> set xs \<Longrightarrow> c x y \<noteq> Greater \<Longrightarrow> c y x \<noteq> Greater \<Longrightarrow> x = y"
  shows "sort_by c xs = sort_by c ys"
  using assms by (intro ordered_unique) (simp_all add: ordered_sort_by)

end

subsection \<open>Combining comparators\<close>

text \<open>Comparing by a key, the other way round, and lexicographically (\<open>cmp(..).then(..)\<close>).\<close>

lemma comparator_cmp_key: "comparator (\<lambda>x y. cmp (f x) (f y))"
  by unfold_locales auto

lemma comparator_total_key: "comparator (\<lambda>x y. total_cmp (f x) (f y))"
proof
  show "total_cmp (f x) (f y) = Greater \<Longrightarrow> total_cmp (f y) (f x) \<noteq> Greater" for x y
    using total_le_total [of "f x" "f y"] by simp
  show "total_cmp (f x) (f y) \<noteq> Greater \<Longrightarrow> total_cmp (f y) (f z) \<noteq> Greater \<Longrightarrow>
      total_cmp (f x) (f z) \<noteq> Greater" for x y z
    using total_le_trans [of "f x" "f y" "f z"] by simp
qed

lemma comparator_flip: "comparator c \<Longrightarrow> comparator (\<lambda>x y. c y x)"
  by (rule comparator.intro) (rule comparator.total, assumption+, rule comparator.trans)

text \<open>\<open>exact\<close> says that \<open>Equal\<close> is exactly comparing "not greater" both ways.\<close>

definition exact :: "('a \<Rightarrow> 'a \<Rightarrow> ordering) \<Rightarrow> bool" where
  "exact c \<longleftrightarrow> (\<forall>x y. c x y = Equal \<longleftrightarrow> c x y \<noteq> Greater \<and> c y x \<noteq> Greater)"

lemma exact_cmp_key: "exact (\<lambda>x y. cmp (f x) (f y))"
  by (auto simp: exact_def)

lemma exact_total_key: "exact (\<lambda>x y. total_cmp (f x) (f y))"
  by (auto simp: exact_def total_le_antisym)

lemma exact_flip: "exact c \<Longrightarrow> exact (\<lambda>x y. c y x)"
  by (auto simp: exact_def)

lemma comparator_then:
  assumes c: "comparator c" "exact c" and d: "comparator d"
  shows "comparator (\<lambda>x y. then_cmp (c x y) (d x y))"
proof
  fix x y
  assume "then_cmp (c x y) (d x y) = Greater"
  then show "then_cmp (c y x) (d y x) \<noteq> Greater"
    using comparator.total [OF c(1), of x y] comparator.total [OF d, of x y] c(2)
    unfolding exact_def then_cmp_eq by metis
next
  fix x y z
  assume "then_cmp (c x y) (d x y) \<noteq> Greater" "then_cmp (c y z) (d y z) \<noteq> Greater"
  then have xy: "c x y \<noteq> Greater" and yz: "c y z \<noteq> Greater"
    and dxy: "c x y = Equal \<Longrightarrow> d x y \<noteq> Greater" and dyz: "c y z = Equal \<Longrightarrow> d y z \<noteq> Greater"
    by auto
  have xz: "c x z \<noteq> Greater" by (rule comparator.trans [OF c(1) xy yz])
  show "then_cmp (c x z) (d x z) \<noteq> Greater"
  proof (cases "c x z = Equal")
    case False
    with xz show ?thesis by simp
  next
    case True
    have zx: "c z x \<noteq> Greater"
      using True c(2) by (auto simp: exact_def)
    have "c x y = Equal" "c y z = Equal"
      using c(2) xy yz comparator.trans [OF c(1) yz zx] comparator.trans [OF c(1) zx xy]
      unfolding exact_def by blast+
    with dxy dyz have "d x z \<noteq> Greater" using comparator.trans [OF d] by blast
    with True show ?thesis by simp
  qed
qed

lemma exact_then:
  "exact c \<Longrightarrow> exact d \<Longrightarrow> exact (\<lambda>x y. then_cmp (c x y) (d x y))"
  unfolding exact_def then_cmp_eq by (metis ordering.distinct(5))

lemmas comparator_intros =
  comparator_then comparator_cmp_key comparator_total_key comparator_flip
  exact_then exact_cmp_key exact_total_key exact_flip

end
