(* ===== verification/Rust_Strings.thy ===== *)
theory Rust_Strings
  imports Rust_Sort
begin

text \<open>
  The operations of Rust's \<open>str\<close> that the components use: \<open>split\<close> and \<open>join\<close>, \<open>lines\<close>,
  \<open>strip_prefix\<close>, \<open>split_once\<close>, \<open>chars\<close>, \<open>trim\<close>, \<open>split_whitespace\<close>, decimal printing and
  \<open>parse::<usize>\<close>; and the lemmas that relate them.
\<close>

abbreviation NL :: char where "NL \<equiv> CHR 0x0A"
abbreviation CR :: char where "CR \<equiv> CHR 0x0D"

subsection \<open>Splitting at a separator and joining\<close>

text \<open>\<open>s.split(c)\<close>: never empty; \<open>lines.join(sep)\<close>.\<close>

fun onto_first :: "'a \<Rightarrow> 'a list list \<Rightarrow> 'a list list" where
  "onto_first x [] = [[x]]"
| "onto_first x (p # ps) = (x # p) # ps"

fun split_on :: "'a \<Rightarrow> 'a list \<Rightarrow> 'a list list" where
  "split_on c [] = [[]]"
| "split_on c (x # xs) =
     (if x = c then [] # split_on c xs else onto_first x (split_on c xs))"

fun join :: "'a list \<Rightarrow> 'a list list \<Rightarrow> 'a list" where
  "join sep [] = []"
| "join sep [x] = x"
| "join sep (x # y # ys) = x @ sep @ join sep (y # ys)"

lemma onto_first_ne [simp]: "onto_first x ps \<noteq> []"
  by (cases ps) auto

lemma onto_first_append: "ps \<noteq> [] \<Longrightarrow> onto_first x (ps @ qs) = onto_first x ps @ qs"
  by (cases ps) auto

lemma split_on_ne [simp]: "split_on c s \<noteq> []"
  by (cases s) auto

lemma join_Cons: "ys \<noteq> [] \<Longrightarrow> join sep (y # ys) = y @ sep @ join sep ys"
  by (cases ys) auto

lemma join_append: "xs \<noteq> [] \<Longrightarrow> ys \<noteq> [] \<Longrightarrow> join sep (xs @ ys) = join sep xs @ sep @ join sep ys"
  by (induction xs rule: induct_list012) (auto simp: join_Cons)

lemma join_split_on [simp]: "join [c] (split_on c s) = s"
proof (induction s)
  case (Cons x xs)
  obtain y ys where eq: "split_on c xs = y # ys" by (cases "split_on c xs") auto
  from Cons have "join [c] (y # ys) = xs" by (simp add: eq)
  then show ?case by (cases ys) (auto simp: eq)
qed simp

lemma split_on_no_sep: "c \<notin> set s \<Longrightarrow> split_on c s = [s]"
  by (induction s) auto

lemma split_on_append:
  "split_on c (s @ c # t) = split_on c s @ split_on c t"
  by (induction s) (auto simp: onto_first_append)

lemma split_on_join:
  "xs \<noteq> [] \<Longrightarrow> \<forall>x \<in> set xs. c \<notin> set x \<Longrightarrow> split_on c (join [c] xs) = xs"
proof (induction xs rule: induct_list012)
  case (3 x y zs)
  then show ?case
    by (simp add: split_on_append split_on_no_sep del: split_on.simps)
qed (auto simp: split_on_no_sep)

lemma split_on_pieces: "x \<in> set (split_on c s) \<Longrightarrow> c \<notin> set x"
proof (induction s arbitrary: x)
  case (Cons a s)
  then show ?case
    by (cases "split_on c s") (auto split: if_splits)
qed simp

lemma length_split_on: "length (split_on c s) = Suc (count_list s c)"
proof (induction s)
  case (Cons x s)
  then show ?case by (cases "split_on c s") auto
qed simp

text \<open>
  \<open>s.lines()\<close>: the pieces ended by a newline without it (and without a carriage return
  before it), then the unterminated rest, if any, as it is.
\<close>

definition strip_cr :: "string \<Rightarrow> string" where
  "strip_cr s = (if s \<noteq> [] \<and> last s = CR then butlast s else s)"

definition str_lines :: "string \<Rightarrow> string list" where
  "str_lines s =
     (let ps = split_on NL s in
      map strip_cr (butlast ps) @ (if last ps = [] then [] else [last ps]))"

subsection \<open>Prefixes, suffixes and substrings\<close>

abbreviation starts_with :: "string \<Rightarrow> string \<Rightarrow> bool" where
  "starts_with s p \<equiv> prefix p s"

abbreviation ends_with :: "string \<Rightarrow> string \<Rightarrow> bool" where
  "ends_with s p \<equiv> suffix p s"

abbreviation str_contains :: "string \<Rightarrow> string \<Rightarrow> bool" where
  "str_contains s p \<equiv> sublist p s"

definition strip_prefix :: "string \<Rightarrow> string \<Rightarrow> string option" where
  "strip_prefix p s = (if prefix p s then Some (drop (length p) s) else None)"

text \<open>\<open>s.split_once(c)\<close> and \<open>s.rsplit_once(c)\<close> for a one-byte separator.\<close>

definition split_once :: "char \<Rightarrow> string \<Rightarrow> (string \<times> string) option" where
  "split_once c s =
     (if c \<in> set s then Some (takeWhile (\<lambda>x. x \<noteq> c) s, tl (dropWhile (\<lambda>x. x \<noteq> c) s)) else None)"

definition rsplit_once :: "char \<Rightarrow> string \<Rightarrow> (string \<times> string) option" where
  "rsplit_once c s =
     map_option (\<lambda>(b, a). (rev a, rev b)) (split_once c (rev s))"

lemma split_once_Some: "split_once c s = Some (a, b) \<Longrightarrow> s = a @ c # b \<and> c \<notin> set a"
proof -
  assume "split_once c s = Some (a, b)"
  then have c: "c \<in> set s" and a: "a = takeWhile (\<lambda>x. x \<noteq> c) s"
    and b: "b = tl (dropWhile (\<lambda>x. x \<noteq> c) s)"
    by (auto simp: split_once_def split: if_splits)
  have ne: "dropWhile (\<lambda>x. x \<noteq> c) s \<noteq> []" using c by (simp add: dropWhile_eq_Nil_conv)
  have "hd (dropWhile (\<lambda>x. x \<noteq> c) s) = c" using hd_dropWhile [OF ne] by simp
  then have "c # b = dropWhile (\<lambda>x. x \<noteq> c) s" using ne b by (cases "dropWhile (\<lambda>x. x \<noteq> c) s") auto
  then show ?thesis using a by (auto dest: set_takeWhileD)
qed

lemma split_once_sep [simp]: "c \<notin> set a \<Longrightarrow> split_once c (a @ c # b) = Some (a, b)"
  by (induction a) (auto simp: split_once_def)

lemma strip_prefix_append [simp]: "strip_prefix p (p @ s) = Some s"
  by (simp add: strip_prefix_def)

lemma strip_prefix_Some: "strip_prefix p s = Some t \<longleftrightarrow> s = p @ t"
  by (auto simp: strip_prefix_def prefix_def)

subsection \<open>Characters\<close>

text \<open>
  The bytes \<open>0x80\<close> to \<open>0xBF\<close> continue a scalar value; \<open>chars\<close> groups each other byte with
  the continuation bytes after it, which for valid UTF-8 is the list of scalar values.
\<close>

definition is_cont :: "char \<Rightarrow> bool" where
  "is_cont c \<longleftrightarrow> (of_char c :: nat) div 64 = 2"

function chars :: "string \<Rightarrow> string list" where
  "chars [] = []"
| "chars (c # cs) = (c # takeWhile is_cont cs) # chars (dropWhile is_cont cs)"
  by pat_completeness auto
termination
  by (relation "measure length") (auto simp: le_imp_less_Suc length_dropWhile_le)

lemma concat_chars [simp]: "concat (chars s) = s"
  by (induction s rule: chars.induct) simp_all

lemma chars_ascii: "\<forall>c \<in> set s. \<not> is_cont c \<Longrightarrow> chars s = map (\<lambda>c. [c]) s"
proof (induction s)
  case (Cons c cs)
  then have "takeWhile is_cont cs = [] \<and> dropWhile is_cont cs = cs" by (cases cs) auto
  with Cons show ?case by simp
qed simp

definition char_count :: "string \<Rightarrow> nat" where
  "char_count s = length (chars s)"

text \<open>\<open>s.chars().take(n).collect::<String>()\<close>\<close>

definition chars_take :: "nat \<Rightarrow> string \<Rightarrow> string" where
  "chars_take n s = concat (take n (chars s))"

lemma chars_take_all: "char_count s \<le> n \<Longrightarrow> chars_take n s = s"
  by (simp add: chars_take_def char_count_def)

text \<open>
  A string that does not begin with a continuation byte, as every Rust \<open>str\<close>; its character
  groups begin with no continuation byte and hold only continuation bytes after it, so they
  are grouped the same way again.
\<close>

definition utf8_start :: "string \<Rightarrow> bool" where
  "utf8_start s \<longleftrightarrow> (s = [] \<or> \<not> is_cont (hd s))"

definition char_group :: "string \<Rightarrow> bool" where
  "char_group g \<longleftrightarrow> g \<noteq> [] \<and> \<not> is_cont (hd g) \<and> (\<forall>c \<in> set (tl g). is_cont c)"

lemma char_group_takeWhile: "\<not> is_cont c \<Longrightarrow> char_group (c # takeWhile is_cont cs)"
  by (simp add: char_group_def) (meson set_takeWhileD)

lemma chars_groups: "utf8_start s \<Longrightarrow> g \<in> set (chars s) \<Longrightarrow> char_group g"
proof (induction s rule: chars.induct)
  case (2 c cs)
  have "utf8_start (dropWhile is_cont cs)"
    using hd_dropWhile [of is_cont cs] by (auto simp: utf8_start_def)
  with 2 char_group_takeWhile [of c cs] show ?case
    by (auto simp: utf8_start_def)
qed simp

lemma takeWhile_app: "\<forall>x \<in> set xs. P x \<Longrightarrow> ys = [] \<or> \<not> P (hd ys) \<Longrightarrow>
    takeWhile P (xs @ ys) = xs \<and> dropWhile P (xs @ ys) = ys"
  by (induction xs) (cases ys, auto)

lemma chars_concat_groups: "\<forall>g \<in> set gs. char_group g \<Longrightarrow> chars (concat gs) = gs"
proof (induction gs)
  case (Cons g gs)
  then obtain c cs where g: "g = c # cs" and cs: "\<forall>x \<in> set cs. is_cont x"
    by (cases g) (auto simp: char_group_def)
  have rest: "concat gs = [] \<or> \<not> is_cont (hd (concat gs))"
    using Cons.prems by (cases gs) (auto simp: char_group_def)
  from Cons have IH: "chars (concat gs) = gs" by simp
  from takeWhile_app [OF cs rest] IH show ?case by (simp add: g del: takeWhile_append dropWhile_append)
qed simp

lemma chars_chars_take: "utf8_start s \<Longrightarrow> chars (chars_take n s) = take n (chars s)"
  unfolding chars_take_def
  by (rule chars_concat_groups) (meson chars_groups in_set_takeD)

lemma char_count_chars_take: "utf8_start s \<Longrightarrow> char_count (chars_take n s) = min n (char_count s)"
  by (simp add: char_count_def chars_chars_take min.commute)

subsection \<open>White space\<close>

text \<open>\<open>char::is_whitespace\<close>: the scalar values with the Unicode property White_Space.\<close>

definition white_space :: "string list" where
  "white_space =
    [[CHR 0x09], [CHR 0x0A], [CHR 0x0B], [CHR 0x0C], [CHR 0x0D], [CHR 0x20],
     [CHR 0xC2, CHR 0x85], [CHR 0xC2, CHR 0xA0], [CHR 0xE1, CHR 0x9A, CHR 0x80]] @
    map (\<lambda>c. [CHR 0xE2, CHR 0x80, c])
      [CHR 0x80, CHR 0x81, CHR 0x82, CHR 0x83, CHR 0x84, CHR 0x85, CHR 0x86, CHR 0x87,
       CHR 0x88, CHR 0x89, CHR 0x8A, CHR 0xA8, CHR 0xA9, CHR 0xAF] @
    [[CHR 0xE2, CHR 0x81, CHR 0x9F], [CHR 0xE3, CHR 0x80, CHR 0x80]]"

definition is_ws :: "string \<Rightarrow> bool" where
  "is_ws g \<longleftrightarrow> g \<in> set white_space"

definition trim_start :: "string \<Rightarrow> string" where
  "trim_start s = concat (dropWhile is_ws (chars s))"

definition trim :: "string \<Rightarrow> string" where
  "trim s = concat (rev (dropWhile is_ws (rev (dropWhile is_ws (chars s)))))"

text \<open>\<open>s.trim().is_empty()\<close>\<close>

definition blank :: "string \<Rightarrow> bool" where
  "blank s \<longleftrightarrow> trim s = []"

lemma concat_chars_drop_Nil: "concat gs = [] \<Longrightarrow> \<forall>g \<in> set gs. g \<noteq> [] \<Longrightarrow> gs = []"
  by (cases gs) auto

lemma chars_nonempty: "g \<in> set (chars s) \<Longrightarrow> g \<noteq> []"
  by (induction s rule: chars.induct) auto

lemma blank_iff: "blank s \<longleftrightarrow> (\<forall>g \<in> set (chars s). is_ws g)"
proof -
  have "blank s \<longleftrightarrow> dropWhile is_ws (rev (dropWhile is_ws (chars s))) = []"
    unfolding blank_def trim_def
    by (metis concat.simps(1) concat_chars_drop_Nil chars_nonempty rev.simps(1) rev_is_Nil_conv
        set_dropWhileD set_rev)
  also have "\<dots> \<longleftrightarrow> (\<forall>g \<in> set (dropWhile is_ws (chars s)). is_ws g)"
    by (simp add: dropWhile_eq_Nil_conv)
  also have "\<dots> \<longleftrightarrow> (\<forall>g \<in> set (chars s). is_ws g)"
    by (metis set_dropWhileD dropWhile_eq_Nil_conv hd_dropWhile hd_in_set)
  finally show ?thesis .
qed

lemma blank_Nil [simp]: "blank []"
  by (simp add: blank_iff)

text \<open>\<open>s.split_whitespace()\<close>\<close>

fun ws_words :: "string list \<Rightarrow> string \<Rightarrow> string list" where
  "ws_words [] w = (if w = [] then [] else [w])"
| "ws_words (g # gs) w =
     (if is_ws g then (if w = [] then [] else [w]) @ ws_words gs [] else ws_words gs (w @ g))"

definition split_whitespace :: "string \<Rightarrow> string list" where
  "split_whitespace s = ws_words (chars s) []"

subsection \<open>Decimal numbers\<close>

definition is_digit :: "char \<Rightarrow> bool" where
  "is_digit c \<longleftrightarrow> (48::nat) \<le> of_char c \<and> (of_char c :: nat) \<le> 57"

definition digit_val :: "char \<Rightarrow> nat" where
  "digit_val c = of_char c - 48"

definition digit_char :: "nat \<Rightarrow> char" where
  "digit_char d = char_of (48 + d :: nat)"

fun show_nat :: "nat \<Rightarrow> string" where
  "show_nat n = (if n < 10 then [digit_char n] else show_nat (n div 10) @ [digit_char (n mod 10)])"

declare show_nat.simps [simp del]

definition digits_val :: "string \<Rightarrow> nat" where
  "digits_val s = foldl (\<lambda>n c. 10 * n + digit_val c) 0 s"

text \<open>\<open>s.parse::<usize>()\<close>: an optional plus sign, at least one digit, and no overflow.\<close>

definition parse_usize :: "string \<Rightarrow> nat option" where
  "parse_usize s =
     (let ds = (if s \<noteq> [] \<and> hd s = CHR ''+'' then tl s else s) in
      if ds \<noteq> [] \<and> list_all is_digit ds \<and> digits_val ds < usize_limit
      then Some (digits_val ds) else None)"

lemma digit_char_props:
  assumes "d < 10"
  shows "is_digit (digit_char d)" "digit_val (digit_char d) = d"
  using assms by (simp_all add: is_digit_def digit_val_def digit_char_def)

lemma digits_val_snoc: "digits_val (s @ [c]) = 10 * digits_val s + digit_val c"
  by (simp add: digits_val_def)

lemma show_nat_ne [simp]: "show_nat n \<noteq> []"
  by (subst show_nat.simps) simp

lemma show_nat_digits: "list_all is_digit (show_nat n)"
proof (induction n rule: show_nat.induct)
  case (1 n)
  then show ?case
    by (subst show_nat.simps) (auto simp: digit_char_props)
qed

lemma digits_val_show_nat [simp]: "digits_val (show_nat n) = n"
proof (induction n rule: show_nat.induct)
  case (1 n)
  show ?case
  proof (cases "n < 10")
    case True
    then show ?thesis by (subst show_nat.simps) (simp add: digits_val_def digit_char_props)
  next
    case False
    with 1 have "digits_val (show_nat (n div 10)) = n div 10" by simp
    with False show ?thesis
      by (subst show_nat.simps) (simp add: digits_val_snoc digit_char_props)
  qed
qed

lemma show_nat_not_sep: "\<not> is_digit c \<Longrightarrow> c \<notin> set (show_nat n)"
  using show_nat_digits [of n] by (auto simp: list_all_iff)

lemma parse_show_nat [simp]: "n < usize_limit \<Longrightarrow> parse_usize (show_nat n) = Some n"
proof -
  assume n: "n < usize_limit"
  have "hd (show_nat n) \<noteq> CHR ''+''"
    using show_nat_digits [of n] show_nat_ne [of n]
    by (cases "show_nat n") (auto simp: is_digit_def)
  with n show ?thesis by (simp add: parse_usize_def show_nat_digits Let_def)
qed

lemma show_nat_inj: "show_nat m = show_nat n \<Longrightarrow> m = n"
  by (metis digits_val_show_nat)

lemma parse_usize_bound: "parse_usize s = Some n \<Longrightarrow> n < usize_limit"
  by (auto simp: parse_usize_def Let_def split: if_splits)

subsection \<open>Evaluation\<close>

lemma digit_char_eval:
  "digit_char 0 = CHR ''0''" "digit_char (Suc 0) = CHR ''1''" "digit_char 1 = CHR ''1''"
  "digit_char 2 = CHR ''2''" "digit_char (Suc (Suc 0)) = CHR ''2''"
  "digit_char 3 = CHR ''3''" "digit_char 4 = CHR ''4''" "digit_char 5 = CHR ''5''"
  "digit_char 6 = CHR ''6''" "digit_char 7 = CHR ''7''" "digit_char 8 = CHR ''8''"
  "digit_char 9 = CHR ''9''"
  by (simp_all add: digit_char_def char_of_def bit_0)

lemmas show_nat_eval = show_nat.simps digit_char_eval

lemmas parse_eval = parse_usize_def digits_val_def digit_val_def is_digit_def usize_limit_def

end
