(* ===== verification/Language.thy ===== *)
theory Language
  imports Rust_Strings
begin

text \<open>
  \<^verbatim>\<open>src/domain/language.rs\<close>: the supported languages, their static descriptions, and
  classification of a path: which language it is (by extension) and whether it is test context.
\<close>

datatype Language =
    Python | JavaScript | TypeScript | Java | CSharp | Cpp | CLang | Go | Rust | Php
  | Ruby | Kotlin | Swift | Shell | Sql | RLang | Scala | Dart | Lua | PowerShell

datatype TestName = Prefix string | Suffix string | Contains string

record LanguageSpec =
  ls_language :: Language
  ls_key :: string
  ls_extensions :: "string list"
  ls_test_dirs :: "string list"
  ls_test_names :: "TestName list"
  ls_test_markers :: "string list"

definition SPECS :: "LanguageSpec list" where
  \<open>SPECS = [
    \<lparr>ls_language = Python, ls_key = ''python'',
      ls_extensions = [''.py'', ''.pyi'', ''.pyw''], ls_test_dirs = [],
      ls_test_names = [Prefix ''test_'', Suffix ''_test''],
      ls_test_markers = [''def test'', ''self.assert'', ''pytest.raises'', ''unittest'']\<rparr>,
    \<lparr>ls_language = JavaScript, ls_key = ''javascript'',
      ls_extensions = [''.js'', ''.jsx'', ''.mjs'', ''.cjs''], ls_test_dirs = [''spec''],
      ls_test_names = [Contains ''.spec.'', Contains ''.test.''],
      ls_test_markers = [''describe('', ''describe.'', ''it('', ''it.'', ''test('', ''test.'', ''expect('']\<rparr>,
    \<lparr>ls_language = TypeScript, ls_key = ''typescript'',
      ls_extensions = [''.ts'', ''.tsx'', ''.mts'', ''.cts''], ls_test_dirs = [''spec''],
      ls_test_names = [Contains ''.spec.'', Contains ''.test.''],
      ls_test_markers = [''describe('', ''describe.'', ''it('', ''it.'', ''test('', ''test.'', ''expect('']\<rparr>,
    \<lparr>ls_language = Java, ls_key = ''java'',
      ls_extensions = [''.java''], ls_test_dirs = [],
      ls_test_names = [Suffix ''Test'', Suffix ''Tests'', Suffix ''IT'', Suffix ''Spec''],
      ls_test_markers = [''@test'', ''assertequals'', ''assertthat('', ''assertthrows('']\<rparr>,
    \<lparr>ls_language = CSharp, ls_key = ''csharp'',
      ls_extensions = [''.cs''], ls_test_dirs = [],
      ls_test_names = [Suffix ''Test'', Suffix ''Tests''],
      ls_test_markers = [''[fact]'', ''[theory]'', ''[test]'', ''assert.'']\<rparr>,
    \<lparr>ls_language = Cpp, ls_key = ''cpp'',
      ls_extensions = [''.cpp'', ''.cc'', ''.cxx'', ''.hpp'', ''.hh'', ''.hxx'', ''.h''], ls_test_dirs = [],
      ls_test_names = [Prefix ''test_'', Suffix ''_test'', Suffix ''Test''],
      ls_test_markers = [''test('', ''test_f('', ''expect_'', ''assert_'', ''check('']\<rparr>,
    \<lparr>ls_language = CLang, ls_key = ''c'',
      ls_extensions = [''.c''], ls_test_dirs = [],
      ls_test_names = [Prefix ''test_'', Suffix ''_test'', Suffix ''Test''],
      ls_test_markers = [''test('', ''test_f('', ''expect_'', ''assert_'', ''check('']\<rparr>,
    \<lparr>ls_language = Go, ls_key = ''go'',
      ls_extensions = [''.go''], ls_test_dirs = [''testdata''],
      ls_test_names = [Suffix ''_test''],
      ls_test_markers = [''func test'', ''t.error'', ''t.fatal'', ''t.run('', ''t.parallel('']\<rparr>,
    \<lparr>ls_language = Rust, ls_key = ''rust'',
      ls_extensions = [''.rs''], ls_test_dirs = [],
      ls_test_names = [Suffix ''_test''],
      ls_test_markers = [''#[test]'', ''#[tokio::test]'', ''#[cfg(test)]'', ''fn '']\<rparr>,
    \<lparr>ls_language = Php, ls_key = ''php'',
      ls_extensions = [''.php''], ls_test_dirs = [],
      ls_test_names = [Suffix ''Test''],
      ls_test_markers = [''function test'', ''assertsame('', ''asserttrue('', ''expectexception('', ''@test'']\<rparr>,
    \<lparr>ls_language = Ruby, ls_key = ''ruby'',
      ls_extensions = [''.rb'', ''.rake''], ls_test_dirs = [''spec''],
      ls_test_names = [Suffix ''_spec'', Suffix ''_test''],
      ls_test_markers = [''describe '', ''context '', ''it '', ''expect('', ''assert_'']\<rparr>,
    \<lparr>ls_language = Kotlin, ls_key = ''kotlin'',
      ls_extensions = [''.kt'', ''.kts''], ls_test_dirs = [],
      ls_test_names = [Suffix ''Test'', Suffix ''Tests'', Suffix ''Spec''],
      ls_test_markers = [''@test'', ''assertequals'', ''assertthat('', ''assertthrows('']\<rparr>,
    \<lparr>ls_language = Swift, ls_key = ''swift'',
      ls_extensions = [''.swift''], ls_test_dirs = [],
      ls_test_names = [Suffix ''Tests'', Suffix ''Test''],
      ls_test_markers = [''xctassert'', ''func test'']\<rparr>,
    \<lparr>ls_language = Shell, ls_key = ''shell'',
      ls_extensions = [''.sh'', ''.bash'', ''.zsh'', ''.bats''], ls_test_dirs = [],
      ls_test_names = [Suffix ''.bats'', Prefix ''test_''],
      ls_test_markers = [''@test'', ''assert_'', ''bats_'']\<rparr>,
    \<lparr>ls_language = Sql, ls_key = ''sql'',
      ls_extensions = [''.sql''], ls_test_dirs = [],
      ls_test_names = [],
      ls_test_markers = []\<rparr>,
    \<lparr>ls_language = RLang, ls_key = ''r'',
      ls_extensions = [''.r''], ls_test_dirs = [],
      ls_test_names = [Prefix ''test-''],
      ls_test_markers = [''test_that('', ''expect_'', ''context('']\<rparr>,
    \<lparr>ls_language = Scala, ls_key = ''scala'',
      ls_extensions = [''.scala'', ''.sc''], ls_test_dirs = [],
      ls_test_names = [Suffix ''Spec'', Suffix ''Test'', Suffix ''Suite''],
      ls_test_markers = [''"should"'', ''should '', ''expect('', ''assert('']\<rparr>,
    \<lparr>ls_language = Dart, ls_key = ''dart'',
      ls_extensions = [''.dart''], ls_test_dirs = [],
      ls_test_names = [Suffix ''_test''],
      ls_test_markers = [''test('', ''expect('', ''group('', ''setup('']\<rparr>,
    \<lparr>ls_language = Lua, ls_key = ''lua'',
      ls_extensions = [''.lua''], ls_test_dirs = [],
      ls_test_names = [Suffix ''_spec''],
      ls_test_markers = [''describe('', ''it('', ''assert_equal'', ''assert('']\<rparr>,
    \<lparr>ls_language = PowerShell, ls_key = ''powershell'',
      ls_extensions = [''.ps1'', ''.psm1'', ''.psd1''], ls_test_dirs = [],
      ls_test_names = [Suffix ''Tests.ps1'', Contains ''.tests.''],
      ls_test_markers = [''describe '', ''should '', ''assert-'']\<rparr>]\<close>

definition TEST_DIRS :: "string list" where
  "TEST_DIRS = [''test'', ''tests'', ''__tests__'']"

text \<open>
  \<open>Language::spec\<close> panics where no row has the language; \<open>spec_exists\<close> below shows that every
  language has one, so the \<open>None\<close> of the model is never reached.
\<close>

definition spec :: "Language \<Rightarrow> LanguageSpec option" where
  "spec l = find (\<lambda>s. ls_language s = l) SPECS"

definition language_key :: "Language \<Rightarrow> string" where
  "language_key l = (case spec l of None \<Rightarrow> [] | Some s \<Rightarrow> ls_key s)"

subsection \<open>ASCII case\<close>

definition is_ascii_uppercase :: "char \<Rightarrow> bool" where
  "is_ascii_uppercase c \<longleftrightarrow> (65::nat) \<le> of_char c \<and> (of_char c :: nat) \<le> 90"

definition to_ascii_lower :: "char \<Rightarrow> char" where
  "to_ascii_lower c = (if is_ascii_uppercase c then char_of (of_char c + 32 :: nat) else c)"

definition eq_ignore_ascii_case :: "string \<Rightarrow> string \<Rightarrow> bool" where
  "eq_ignore_ascii_case a b \<longleftrightarrow> map to_ascii_lower a = map to_ascii_lower b"

lemma eq_ignore_ascii_case_refl [simp]: "eq_ignore_ascii_case a a"
  by (simp add: eq_ignore_ascii_case_def)

subsection \<open>Language of a path\<close>

definition extension_language :: "string \<Rightarrow> Language option" where
  "extension_language extension =
     map_option ls_language
       (find (\<lambda>s. \<exists>candidate \<in> set (ls_extensions s).
          eq_ignore_ascii_case extension (tl candidate)) SPECS)"

definition from_path :: "string \<Rightarrow> Language option" where
  "from_path path =
     (case rsplit_once (CHR ''.'') path of
        None \<Rightarrow> None
      | Some (_, extension) \<Rightarrow>
          if extension = [] \<or> CHR ''/'' \<in> set extension then None
          else extension_language extension)"

definition is_source_path :: "string \<Rightarrow> bool" where
  "is_source_path path \<longleftrightarrow> from_path path \<noteq> None"

subsection \<open>Test context\<close>

text \<open>
  \<open>name.get(..n)\<close> and \<open>name.get(n..)\<close> are \<open>None\<close> out of range and inside a character.
\<close>

definition char_boundary :: "string \<Rightarrow> nat \<Rightarrow> bool" where
  "char_boundary s i \<longleftrightarrow> i \<le> length s \<and> (i = 0 \<or> i = length s \<or> \<not> is_cont (s ! i))"

definition get_to :: "string \<Rightarrow> nat \<Rightarrow> string option" where
  "get_to s n = (if char_boundary s n then Some (take n s) else None)"

definition get_from :: "string \<Rightarrow> nat \<Rightarrow> string option" where
  "get_from s n = (if char_boundary s n then Some (drop n s) else None)"

definition name_eq :: "string \<Rightarrow> string \<Rightarrow> bool" where
  "name_eq name text =
     (if list_ex is_ascii_uppercase text then name = text else eq_ignore_ascii_case name text)"

text \<open>All windows of \<open>n\<close> consecutive bytes.\<close>

definition windows :: "nat \<Rightarrow> string \<Rightarrow> string list" where
  "windows n s = map (\<lambda>i. take n (drop i s)) [0..<length s + 1 - n]"

fun matches_convention :: "string \<Rightarrow> TestName \<Rightarrow> bool" where
  "matches_convention name (Prefix text) =
     (case get_to name (length text) of None \<Rightarrow> False | Some head \<Rightarrow> name_eq head text)"
| "matches_convention name (Suffix text) =
     (if length name < length text then False
      else case get_from name (length name - length text) of
             None \<Rightarrow> False | Some tail \<Rightarrow> name_eq tail text)"
| "matches_convention name (Contains text) =
     (if list_ex is_ascii_uppercase text then str_contains name text
      else list_ex (\<lambda>w. eq_ignore_ascii_case w text) (windows (length text) name))"

definition is_test_name :: "Language \<Rightarrow> string \<Rightarrow> bool" where
  "is_test_name l file_name =
     (let stem = (case rsplit_once (CHR ''.'') file_name of None \<Rightarrow> file_name | Some (s, _) \<Rightarrow> s)
      in case spec l of
           None \<Rightarrow> False
         | Some s \<Rightarrow> list_ex (\<lambda>c. matches_convention file_name c \<or> matches_convention stem c)
                       (ls_test_names s))"

definition test_dirs_of :: "Language option \<Rightarrow> string list" where
  "test_dirs_of l =
     (case l of None \<Rightarrow> []
      | Some l' \<Rightarrow> (case spec l' of None \<Rightarrow> [] | Some s \<Rightarrow> ls_test_dirs s))"

definition is_test_path :: "string \<Rightarrow> bool" where
  "is_test_path path =
     (let language = from_path path;
          extra_dirs = test_dirs_of language;
          components = split_on (CHR ''/'') path
      in if list_ex (\<lambda>component. list_ex (eq_ignore_ascii_case component) TEST_DIRS
              \<or> list_ex (eq_ignore_ascii_case component) extra_dirs) (butlast components)
         then True
         else case language of None \<Rightarrow> False | Some l \<Rightarrow> is_test_name l (last components))"

subsection \<open>Facts\<close>

lemma spec_exists: "\<exists>s. spec l = Some s \<and> ls_language s = l"
  by (cases l) (simp_all add: spec_def SPECS_def)

lemma rsplit_once_last:
  "c \<notin> set b \<Longrightarrow> rsplit_once c (a @ c # b) = Some (a, b)"
  by (simp add: rsplit_once_def)

text \<open>Every extension of the table is a dot and lower-case ASCII letters or digits.\<close>

lemma extension_shape:
  "\<forall>s \<in> set SPECS. \<forall>e \<in> set (ls_extensions s).
     hd e = CHR ''.'' \<and> tl e \<noteq> [] \<and> CHR ''.'' \<notin> set (tl e) \<and> CHR ''/'' \<notin> set (tl e)"
  by (simp add: SPECS_def)

lemma extension_lower:
  "\<forall>s \<in> set SPECS. \<forall>e \<in> set (ls_extensions s). map to_ascii_lower (tl e) = tl e"
  by (simp add: SPECS_def to_ascii_lower_def is_ascii_uppercase_def)

lemma find_cong_set: "(\<And>x. x \<in> set xs \<Longrightarrow> P x = Q x) \<Longrightarrow> find P xs = find Q xs"
  by (induction xs) auto

lemma find_distinct:
  "distinct (concat (map f xs)) \<Longrightarrow> s \<in> set xs \<Longrightarrow> e \<in> set (f s) \<Longrightarrow>
   find (\<lambda>s. e \<in> set (f s)) xs = Some s"
  by (induction xs) auto

lemma extensions_distinct: "distinct (concat (map (\<lambda>s. map tl (ls_extensions s)) SPECS))"
  by (simp add: SPECS_def)

lemma extension_exact:
  assumes "s \<in> set SPECS" "e \<in> set (ls_extensions s)"
  shows "extension_language (tl e) = Some (ls_language s)"
proof -
  have "(\<exists>candidate \<in> set (ls_extensions t). eq_ignore_ascii_case (tl e) (tl candidate)) \<longleftrightarrow>
      tl e \<in> set (map tl (ls_extensions t))" if "t \<in> set SPECS" for t
    using extension_lower assms that by (force simp: eq_ignore_ascii_case_def)
  then have "extension_language (tl e) =
      map_option ls_language (find (\<lambda>t. tl e \<in> set (map tl (ls_extensions t))) SPECS)"
    unfolding extension_language_def
    by (intro arg_cong [where f = "map_option ls_language"] find_cong_set) blast
  also have "\<dots> = Some (ls_language s)"
    using assms by (subst find_distinct [OF extensions_distinct assms(1)]) auto
  finally show ?thesis .
qed

text \<open>
  The extension table is unambiguous: a path that ends in one of a language's extensions,
  in whatever directory and with whatever stem, is classified as that language (so no earlier
  row of the table takes an extension of a later one).
\<close>

theorem from_path_extension:
  assumes "s \<in> set SPECS" and "e \<in> set (ls_extensions s)"
  shows "from_path (p @ e) = Some (ls_language s)"
proof -
  have e: "hd e = CHR ''.''" "tl e \<noteq> []" "CHR ''.'' \<notin> set (tl e)" "CHR ''/'' \<notin> set (tl e)"
    "extension_language (tl e) = Some (ls_language s)"
    using extension_shape extension_exact assms by auto
  have "e \<noteq> []" using e(2) by (cases e) auto
  with e(1) have "p @ e = p @ CHR ''.'' # tl e" by (cases e) auto
  moreover have "rsplit_once (CHR ''.'') (p @ CHR ''.'' # tl e) = Some (p, tl e)"
    by (rule rsplit_once_last) (rule e(3))
  ultimately show ?thesis using e by (simp add: from_path_def)
qed

theorem from_path_extension_witness: "from_path ''src/lib.rs'' = Some Rust"
proof -
  have s: "SPECS ! 8 \<in> set SPECS" "ls_language (SPECS ! 8) = Rust" "''.rs'' \<in> set (ls_extensions (SPECS ! 8))"
    by (simp_all add: SPECS_def)
  from from_path_extension [OF s(1,3), of "''src/lib''"] s(2) show ?thesis by simp
qed
end
