(* ===== verification/Policy.thy ===== *)
theory Policy
  imports Language
begin

text \<open>
  \<^verbatim>\<open>src/domain/policy.rs\<close>: the screening dimensions, the thresholds and caps of the
  review, and the mechanism vocabularies, with the splicing of a language's own mechanisms into
  the generic vocabulary of a dimension. The tables are the source's, entry for entry.
\<close>

subsection \<open>Dimensions\<close>

datatype Dimension = Correctness | Security | Reliability | Compatibility | TestGap

definition DIMENSIONS :: "Dimension list" where
  "DIMENSIONS = [Correctness, Security, Reliability, Compatibility, TestGap]"

fun dimension_key :: "Dimension \<Rightarrow> string" where
  "dimension_key Correctness = ''correctness''"
| "dimension_key Security = ''security''"
| "dimension_key Reliability = ''reliability''"
| "dimension_key Compatibility = ''compatibility''"
| "dimension_key TestGap = ''testGap''"

fun dimension_definition :: "Dimension \<Rightarrow> string" where
  "dimension_definition Correctness = ''The code likely contains incorrect runtime behavior.''"
| "dimension_definition Security = ''The code introduces or weakens a security boundary.''"
| "dimension_definition Reliability =
     ''The code can cause a crash, race, leak, deadlock, or poor failure recovery.''"
| "dimension_definition Compatibility =
     ''The code can break a caller, persisted format, protocol, or public behavior.''"
| "dimension_definition TestGap = ''Important behavior lacks adequate targeted test evidence.''"

record DimensionMeta =
  dm_key :: Dimension
  dm_label :: string
  dm_short :: string

definition dimension_metadata :: "DimensionMeta list" where
  "dimension_metadata =
    [\<lparr>dm_key = Correctness, dm_label = ''Correctness'', dm_short = ''Corr''\<rparr>,
     \<lparr>dm_key = Security, dm_label = ''Security'', dm_short = ''Sec''\<rparr>,
     \<lparr>dm_key = Reliability, dm_label = ''Reliability'', dm_short = ''Rel''\<rparr>,
     \<lparr>dm_key = Compatibility, dm_label = ''Compatibility'', dm_short = ''Compat''\<rparr>,
     \<lparr>dm_key = TestGap, dm_label = ''Test gap'', dm_short = ''Tests''\<rparr>]"

text \<open>A \<open>BTreeMap<Dimension, f64>\<close> is a finite map; its iteration order is \<open>DIMENSIONS\<close>.\<close>

type_synonym Probabilities = "Dimension \<rightharpoonup> f64"

definition prob_values :: "Probabilities \<Rightarrow> f64 list" where
  "prob_values p = List.map_filter p DIMENSIONS"

definition prob_entries :: "Probabilities \<Rightarrow> (Dimension \<times> f64) list" where
  "prob_entries p = List.map_filter (\<lambda>d. map_option (Pair d) (p d)) DIMENSIONS"

subsection \<open>Thresholds and caps\<close>

definition SCREEN_THRESHOLD :: f64 where "SCREEN_THRESHOLD = Fin 0.7"
definition SEVERITY_MAX :: f64 where "SEVERITY_MAX = Fin 3"
definition ROUTE_SEVERITY :: f64 where "ROUTE_SEVERITY = Fin 1.5"
definition BLOCKING_SEVERITY :: f64 where "BLOCKING_SEVERITY = Fin 2"
definition MIN_LOCATION_CONFIDENCE :: f64 where "MIN_LOCATION_CONFIDENCE = Fin 0.55"
definition MIN_META_JUDGE_CONFIDENCE :: f64 where "MIN_META_JUDGE_CONFIDENCE = Fin 0.55"
definition MAX_PROFILES :: nat where "MAX_PROFILES = 5"
definition CONCURRENCY :: nat where "CONCURRENCY = 16"
definition CLUSTER_LINE_WINDOW :: nat where "CLUSTER_LINE_WINDOW = 40"
definition MIN_CLUSTER_CONFIDENCE :: f64 where "MIN_CLUSTER_CONFIDENCE = Fin 0.6"
definition MAX_CLUSTER_CANDIDATES :: nat where "MAX_CLUSTER_CANDIDATES = 6"
definition PAIRWISE_TOP_K :: nat where "PAIRWISE_TOP_K = 6"
definition PAIRWISE_BATCH :: nat where "PAIRWISE_BATCH = 5"
definition MAX_TAINT :: nat where "MAX_TAINT = 12"
definition LOW_EXPLOITABILITY :: f64 where "LOW_EXPLOITABILITY = Fin 0.2"
definition MIN_SINK_PROBABILITY :: f64 where "MIN_SINK_PROBABILITY = Fin 0.3"
definition MAX_COUNTERFACTUAL :: nat where "MAX_COUNTERFACTUAL = 12"
definition EXONERATION_DROP :: f64 where "EXONERATION_DROP = Fin 0.8"
definition MAX_ENSEMBLE :: nat where "MAX_ENSEMBLE = 8"
definition NEEDS_HUMAN_SPREAD :: f64 where "NEEDS_HUMAN_SPREAD = Fin 0.5"
definition NEEDS_HUMAN_MEAN :: f64 where "NEEDS_HUMAN_MEAN = Fin 0.5"
definition MIN_FEEDBACK_VOTES :: nat where "MIN_FEEDBACK_VOTES = 5"
definition TARGET_PRECISION :: f64 where "TARGET_PRECISION = Fin 0.6"
definition HIGH_PRECISION :: f64 where "HIGH_PRECISION = Fin 0.9"
definition THRESHOLD_STEP :: f64 where "THRESHOLD_STEP = Fin 0.05"
definition MIN_TUNED_THRESHOLD :: f64 where "MIN_TUNED_THRESHOLD = Fin 0.6"
definition MAX_TUNED_THRESHOLD :: f64 where "MAX_TUNED_THRESHOLD = Fin 0.95"

lemmas policy_defs =
  SCREEN_THRESHOLD_def SEVERITY_MAX_def ROUTE_SEVERITY_def BLOCKING_SEVERITY_def
  MIN_LOCATION_CONFIDENCE_def MIN_META_JUDGE_CONFIDENCE_def MAX_PROFILES_def CONCURRENCY_def
  CLUSTER_LINE_WINDOW_def MIN_CLUSTER_CONFIDENCE_def MAX_CLUSTER_CANDIDATES_def
  PAIRWISE_TOP_K_def PAIRWISE_BATCH_def MAX_TAINT_def LOW_EXPLOITABILITY_def
  MIN_SINK_PROBABILITY_def MAX_COUNTERFACTUAL_def EXONERATION_DROP_def MAX_ENSEMBLE_def
  NEEDS_HUMAN_SPREAD_def NEEDS_HUMAN_MEAN_def MIN_FEEDBACK_VOTES_def TARGET_PRECISION_def
  HIGH_PRECISION_def THRESHOLD_STEP_def MIN_TUNED_THRESHOLD_def MAX_TUNED_THRESHOLD_def

subsection \<open>Vocabularies\<close>

definition TAINT_MECHANISMS :: "string list" where
  "TAINT_MECHANISMS =
    [''sqlInjection'',
     ''noSqlInjection'',
     ''commandInjection'',
     ''xss'',
     ''xxe'',
     ''ssrf'',
     ''pathTraversal'',
     ''insecureDeserialization'',
     ''dynamicCodeExecution'',
     ''fileInclusion'',
     ''formatString'',
     ''unescapedTemplate'',
     ''unquotedExpansion'',
     ''prototypePollution'',
     ''unsafeReflection'',
     ''massAssignment'']"

definition TAINT_SOURCES :: "(string \<times> string) list" where
  "TAINT_SOURCES =
    [(''requestInput'', ''HTTP request parameters, body, headers, cookies, or path segments''),
     (''userContent'', ''User-supplied content read back from storage (uploads, profiles, reviews, messages)''),
     (''externalService'', ''Responses from an external service or third-party API''),
     (''serverConfig'', ''Server-controlled configuration, environment, or constants''),
     (''internalComputation'', ''Values computed internally from trusted data''),
     (''unknown'', ''The origin of the data is not visible in the evidence'')]"

definition UNTRUSTED_SOURCES :: "string list" where
  "UNTRUSTED_SOURCES = [''requestInput'',
     ''userContent'',
     ''externalService'']"

definition EXONERATING_FACTS :: "(string \<times> string) list" where
  "EXONERATING_FACTS =
    [(''validatedUpstream'', ''The input is validated, constrained, or escaped before it reaches this code''),
     (''unreachable'', ''The flagged path is unreachable or dead in practice''),
     (''invariantGuaranteed'', ''A type, guard, or invariant visible elsewhere rules out the failing case''),
     (''frameworkHandled'', ''The framework, library, or runtime already handles it (parameterization, escaping, cleanup, retries)''),
     (''intendedBehavior'', ''Deliberate, documented product behavior that is not a defect (never applies to a security weakness)''),
     (''testOrToolingOnly'', ''The code only runs in tests, fixtures, examples, or build tooling, not production''),
     (''coveredElsewhere'', ''Tests or checks elsewhere already cover or prevent the concern''),
     (''none'', ''No single fact would exonerate this finding'')]"

definition ENSEMBLE_FOCI :: "(string \<times> string) list" where
  "ENSEMBLE_FOCI =
    [(''adversarial'', ''Assume hostile input or an adversarial caller and look for a concrete failure path''),
     (''maintainer'', ''Judge as the maintainer who knows typical call patterns and the invariants the code relies on''),
     (''literal'', ''Accept the concern only if the visible code demonstrates it without assumptions about unseen code'')]"

definition REVIEW_PRIORITY_RUBRIC :: "string list" where
  "REVIEW_PRIORITY_RUBRIC =
    [''Routine review is sufficient'',
     ''A focused review of the changed behavior is useful'',
     ''Careful review is needed before merge'',
     ''Specialist or immediate review is needed'']"

definition SEVERITY_RUBRIC :: "string list" where
  "SEVERITY_RUBRIC =
    [''No meaningful impact or no supported issue'',
     ''Minor or narrowly limited impact'',
     ''Significant correctness, reliability, compatibility, or security impact'',
     ''Critical security, data-loss, or widespread outage impact'']"

definition OWNERS :: "(string \<times> string) list" where
  "OWNERS =
    [(''security'', ''Security, authentication, authorization, or data exposure''),
     (''api'', ''Public APIs, compatibility, schemas, or protocols''),
     (''runtime'', ''Execution, concurrency, resources, or failure recovery''),
     (''testing'', ''Coverage strategy, fixtures, or regression testing''),
     (''maintainer'', ''The owning domain or feature maintainer'')]"

type_synonym MechanismEntry = "string \<times> string"

text \<open>\<open>mechanisms\<close>: the generic vocabulary of a dimension.\<close>

fun mechanisms :: "Dimension \<Rightarrow> MechanismEntry list" where
  "mechanisms Correctness =
    [(''condition'', ''A condition handles the wrong cases''),
     (''state'', ''State is read, updated, or retained incorrectly''),
     (''dataFlow'', ''Data is transformed or passed incorrectly''),
     (''asyncControl'', ''Asynchronous ordering or error handling is incorrect''),
     (''other'', ''Another concrete correctness mechanism''),
     (''noIssue'', ''The selected evidence does not support a concrete correctness issue'')]"
| "mechanisms Security =
    [(''brokenAccessControl'', ''A user can access or change data or actions they are not authorized for''),
     (''brokenAuthentication'', ''Authentication can be bypassed, or an identity/session is forged''),
     (''sqlInjection'', ''Untrusted input reaches a SQL query or command''),
     (''noSqlInjection'', ''Untrusted input reaches a NoSQL query or command''),
     (''commandInjection'', ''Untrusted input reaches a shell, process, or OS command''),
     (''xss'', ''Untrusted input is output as markup or script''),
     (''xxe'', ''XML parsing resolves external entities from untrusted input''),
     (''ssrf'', ''A server-side request is attacker-influenced (internal or remote)''),
     (''pathTraversal'', ''A file or URL path is attacker-influenced and not contained''),
     (''insecureDeserialization'', ''Serialized data is deserialized without validation''),
     (''cryptographicFailure'', ''Cryptography is missing, weak, or misused''),
     (''sensitiveDataExposure'', ''Sensitive data is disclosed or unnecessarily exposed''),
     (''securityMisconfiguration'', ''A default, header, permission, or deployment setting creates avoidable exposure''),
     (''other'', ''Another concrete security mechanism''),
     (''noIssue'', ''The selected evidence does not support a concrete security issue'')]"
| "mechanisms Reliability =
    [(''cleanup'', ''A resource or side effect is not cleaned up''),
     (''concurrency'', ''Concurrency can race, deadlock, or lose work''),
     (''recovery'', ''Failure or cancellation recovery is incomplete''),
     (''crash'', ''A realistic path can throw or terminate unexpectedly''),
     (''other'', ''Another concrete reliability mechanism''),
     (''noIssue'', ''The selected evidence does not support a concrete reliability issue'')]"
| "mechanisms Compatibility =
    [(''api'', ''A public API or type contract changes incompatibly''),
     (''behavior'', ''Existing callers observe changed behavior''),
     (''dataFormat'', ''A persisted or exchanged format changes incompatibly''),
     (''protocol'', ''An external command or protocol contract changes''),
     (''other'', ''Another concrete compatibility mechanism''),
     (''noIssue'', ''The selected evidence does not support a concrete compatibility issue'')]"
| "mechanisms TestGap =
    [(''branch'', ''An important branch lacks targeted coverage''),
     (''failure'', ''A failure or cancellation path lacks coverage''),
     (''boundary'', ''A boundary or edge case lacks coverage''),
     (''integration'', ''An interaction between components lacks coverage''),
     (''other'', ''Another concrete test gap''),
     (''noIssue'', ''The selected evidence does not support a concrete test gap'')]"

text \<open>
  \<open>LANGUAGE_MECHANISMS\<close>, in four pieces: Rust to Java, C# to Go, PHP to shell, SQL to
  PowerShell.
\<close>

type_synonym LanguageMechanismRow = "Language \<times> Dimension \<times> MechanismEntry list"

definition mechanism_rows_rust_to_java :: "LanguageMechanismRow list" where
  \<open>mechanism_rows_rust_to_java = [
    (Rust, Correctness,
      [(''unsafeBlock'', ''An `unsafe` block relies on an invariant the code does not establish or check''),
       (''unwrapPanic'', ''A fallible call is unwrapped, panicking on an unexpected `None` or `Err`''),
       (''panicPath'', ''`panic!`/`todo!`/`unreachable!` is reachable from a normal path'')]),
    (Rust, Reliability,
      [(''lockPoisoning'', ''A poisoned lock is ignored, so work continues on inconsistent state'')]),
    (TypeScript, Correctness,
      [(''anyEscape'', ''`any` (explicit or inferred) discards the types the rest of the code relies on''),
       (''uncheckedCast'', ''A cast is applied without validating the runtime type''),
       (''nonNullAssertion'', ''A non-null assertion or forced unwrap skips a real null check'')]),
    (TypeScript, Security,
      [(''prototypePollution'', ''Untrusted keys are merged into an object, reaching its prototype''),
       (''dynamicCodeExecution'', ''Untrusted data is executed as code by an eval or shell-out primitive'')]),
    (TypeScript, Reliability,
      [(''unawaitedPromise'', ''A promise or future is created but never awaited or returned, so its failure is unobserved'')]),
    (JavaScript, Correctness,
      [(''looseEquality'', ''A loose `==`/`!=` comparison coerces operands instead of comparing them''),
       (''thisBinding'', ''A callback loses or rebinds `this`, so the wrong object is used''),
       (''implicitGlobal'', ''A missing declaration creates or clobbers a global'')]),
    (JavaScript, Security,
      [(''prototypePollution'', ''Untrusted keys are merged into an object, reaching its prototype''),
       (''dynamicCodeExecution'', ''Untrusted data is executed as code by an eval or shell-out primitive'')]),
    (JavaScript, Reliability,
      [(''unawaitedPromise'', ''A promise or future is created but never awaited or returned, so its failure is unobserved'')]),
    (Python, Correctness,
      [(''mutableDefaultArgument'', ''A mutable default argument is created once and shared across calls''),
       (''lateBindingClosure'', ''A closure captures a loop variable by reference and sees its last value'')]),
    (Python, Security,
      [(''dynamicCodeExecution'', ''Untrusted data is executed as code by an eval or shell-out primitive''),
       (''assertForValidation'', ''An input or authorization check is enforced only by `assert`, which optimized builds remove'')]),
    (Python, Reliability,
      [(''swallowedException'', ''A caught or rescued error is discarded instead of handled''),
       (''resourceLeak'', ''A resource is not released on every path (no scoped cleanup)'')]),
    (Java, Correctness,
      [(''nullDereference'', ''A possibly-null value is dereferenced without a check''),
       (''equalsHashContract'', ''`equals`/`hashCode`/`compareTo` disagree, so hash collections misbehave'')]),
    (Java, Security,
      [(''unsafeReflection'', ''Reflection or a dynamic class load is driven by untrusted input'')]),
    (Java, Reliability,
      [(''swallowedException'', ''A caught or rescued error is discarded instead of handled''),
       (''resourceLeak'', ''A resource is not released on every path (no scoped cleanup)'')]),
    (Java, Compatibility,
      [(''serializedFormChange'', ''A change to a serializable class breaks previously persisted data'')])]\<close>

definition mechanism_rows_csharp_to_go :: "LanguageMechanismRow list" where
  \<open>mechanism_rows_csharp_to_go = [
    (CSharp, Correctness,
      [(''nullDereference'', ''A possibly-null value is dereferenced without a check''),
       (''structCopyMutation'', ''A struct is mutated through a copy, discarding the change'')]),
    (CSharp, Reliability,
      [(''asyncVoid'', ''An `async void` method cannot be awaited, so its failure escapes the caller''),
       (''resourceLeak'', ''A resource is not released on every path (no scoped cleanup)'')]),
    (CLang, Correctness,
      [(''uncheckedReturn'', ''A return value that signals failure or a short read is ignored''),
       (''pointerArithmetic'', ''Pointer or index arithmetic can step outside the object it addresses'')]),
    (CLang, Security,
      [(''bufferOverflow'', ''A fixed-size buffer is written past its bounds''),
       (''formatString'', ''Untrusted text is used as a format string''),
       (''useAfterFree'', ''Memory is used after its lifetime ends'')]),
    (CLang, Reliability,
      [(''uncheckedAllocation'', ''An allocation result is used without checking for failure'')]),
    (CLang, Compatibility,
      [(''abiChange'', ''A struct layout, signature, or calling convention changes incompatibly'')]),
    (Cpp, Correctness,
      [(''uninitializedUse'', ''A value is read before it is initialized''),
       (''uncheckedReturn'', ''A return value that signals failure or a short read is ignored'')]),
    (Cpp, Security,
      [(''useAfterFree'', ''Memory is used after its lifetime ends''),
       (''outOfBoundsAccess'', ''A container or array element is accessed outside its bounds'')]),
    (Cpp, Reliability,
      [(''danglingReference'', ''A reference or iterator outlives the object it addresses''),
       (''exceptionEscapeDestructor'', ''An exception escapes a destructor or another `noexcept` boundary'')]),
    (Cpp, Compatibility,
      [(''abiChange'', ''A struct layout, signature, or calling convention changes incompatibly'')]),
    (Go, Correctness,
      [(''ignoredError'', ''A returned error is discarded instead of handled''),
       (''nilMapOrChannel'', ''A nil map, channel, or interface value is written to or selected on'')]),
    (Go, Security,
      [(''unescapedTemplate'', ''Untrusted data is emitted through a raw or unescaped template value'')]),
    (Go, Reliability,
      [(''goroutineLeak'', ''A goroutine blocks forever because nothing can unblock it''),
       (''deferInLoop'', ''A `defer` inside a loop runs only when the function returns'')])]\<close>

definition mechanism_rows_php_to_shell :: "LanguageMechanismRow list" where
  \<open>mechanism_rows_php_to_shell = [
    (Php, Correctness,
      [(''looseEquality'', ''A loose `==`/`!=` comparison coerces operands instead of comparing them''),
       (''truthinessCoercion'', ''A value's truthiness or string coercion selects the wrong branch'')]),
    (Php, Security,
      [(''fileInclusion'', ''A user-influenced path reaches `include`/`require`''),
       (''massAssignment'', ''Request parameters are assigned to a model without an allowlist'')]),
    (Php, Reliability,
      [(''errorSuppression'', ''The `@` operator hides a failure the caller must see'')]),
    (Ruby, Correctness,
      [(''nilMethodCall'', ''A method is called on a value that may be `nil`''),
       (''mutationOfArgument'', ''An argument or shared object is mutated in place, surprising its owner'')]),
    (Ruby, Security,
      [(''massAssignment'', ''Request parameters are assigned to a model without an allowlist''),
       (''dynamicCodeExecution'', ''Untrusted data is executed as code by an eval or shell-out primitive'')]),
    (Ruby, Reliability,
      [(''swallowedException'', ''A caught or rescued error is discarded instead of handled'')]),
    (Kotlin, Correctness,
      [(''nonNullAssertion'', ''A non-null assertion or forced unwrap skips a real null check''),
       (''platformTypeNullness'', ''A Java platform type is treated as non-null without a check''),
       (''uncheckedCast'', ''A cast is applied without validating the runtime type'')]),
    (Kotlin, Reliability,
      [(''blockingInAsyncContext'', ''A blocking call inside an async execution context stalls the threads it shares'')]),
    (Swift, Correctness,
      [(''nonNullAssertion'', ''A non-null assertion or forced unwrap skips a real null check''),
       (''forcedCast'', ''A forced cast (`as!`) traps instead of handling a mismatch''),
       (''silentOptionalChain'', ''An optional chain short-circuits and the failure is never handled'')]),
    (Swift, Reliability,
      [(''retainCycle'', ''A closure captures `self` strongly, keeping the object alive''),
       (''forcedTry'', ''`try!` traps instead of propagating a thrown error'')]),
    (Shell, Correctness,
      [(''subshellStateLoss'', ''State changed inside a subshell or pipeline does not reach the caller'')]),
    (Shell, Security,
      [(''unquotedExpansion'', ''An unquoted expansion splits or globs, so untrusted text becomes extra arguments''),
       (''dynamicCodeExecution'', ''Untrusted data is executed as code by an eval or shell-out primitive'')]),
    (Shell, Reliability,
      [(''ignoredExitStatus'', ''A failing command's exit status is ignored and the script continues''),
       (''partialPipelineFailure'', ''Only the last command of a pipeline is checked'')])]\<close>

definition mechanism_rows_sql_to_powershell :: "LanguageMechanismRow list" where
  \<open>mechanism_rows_sql_to_powershell = [
    (Sql, Correctness,
      [(''missingWhereClause'', ''An `UPDATE`/`DELETE` affects every row because a predicate is missing or vacuous''),
       (''nullComparison'', ''A comparison against `NULL` never matches as intended'')]),
    (Sql, Security,
      [(''overbroadGrant'', ''A role or grant is broader than the operation needs'')]),
    (Sql, Compatibility,
      [(''destructiveMigration'', ''A migration drops or rewrites data that existing rows or callers cannot survive'')]),
    (RLang, Correctness,
      [(''vectorRecycling'', ''Vectors of unequal length are combined, silently recycling values''),
       (''naPropagation'', ''A missing value propagates through the result unchecked'')]),
    (Scala, Correctness,
      [(''platformTypeNullness'', ''A Java platform type is treated as non-null without a check''),
       (''uncheckedCast'', ''A cast is applied without validating the runtime type'')]),
    (Scala, Reliability,
      [(''blockingInAsyncContext'', ''A blocking call inside an async execution context stalls the threads it shares'')]),
    (Dart, Correctness,
      [(''nonNullAssertion'', ''A non-null assertion or forced unwrap skips a real null check''),
       (''uncheckedCast'', ''A cast is applied without validating the runtime type'')]),
    (Dart, Reliability,
      [(''unawaitedPromise'', ''A promise or future is created but never awaited or returned, so its failure is unobserved'')]),
    (Lua, Correctness,
      [(''implicitGlobal'', ''A missing declaration creates or clobbers a global''),
       (''nilArithmetic'', ''A field or upvalue that may be `nil` is used in arithmetic or indexing'')]),
    (PowerShell, Correctness,
      [(''truthinessCoercion'', ''A value's truthiness or string coercion selects the wrong branch'')]),
    (PowerShell, Security,
      [(''unquotedExpansion'', ''An unquoted expansion splits or globs, so untrusted text becomes extra arguments''),
       (''dynamicCodeExecution'', ''Untrusted data is executed as code by an eval or shell-out primitive'')]),
    (PowerShell, Reliability,
      [(''silentErrorContinuation'', ''`-ErrorAction SilentlyContinue` or a widened preference hides a failed command'')])]\<close>

definition LANGUAGE_MECHANISMS :: "LanguageMechanismRow list" where
  "LANGUAGE_MECHANISMS =
    mechanism_rows_rust_to_java @ mechanism_rows_csharp_to_go @
    mechanism_rows_php_to_shell @ mechanism_rows_sql_to_powershell"

definition language_mechanisms :: "Dimension \<Rightarrow> Language \<Rightarrow> MechanismEntry list" where
  "language_mechanisms d language =
     (case find (\<lambda>(l, dimension, _). l = language \<and> dimension = d) LANGUAGE_MECHANISMS of
        None \<Rightarrow> [] | Some (_, _, entries) \<Rightarrow> entries)"

text \<open>The index of the first entry that satisfies a predicate (\<open>Iterator::position\<close>).\<close>

fun position :: "('a \<Rightarrow> bool) \<Rightarrow> 'a list \<Rightarrow> nat option" where
  "position P [] = None"
| "position P (x # xs) = (if P x then Some 0 else map_option Suc (position P xs))"

definition mechanisms_for :: "Dimension \<Rightarrow> Language option \<Rightarrow> MechanismEntry list" where
  "mechanisms_for d language =
     (let generic = mechanisms d;
          additions = (case language of None \<Rightarrow> [] | Some l \<Rightarrow> language_mechanisms d l)
      in if additions = [] then generic
         else let sentinel = (case position (\<lambda>(key, _). key = ''other'') generic of
                                None \<Rightarrow> length generic | Some i \<Rightarrow> i)
              in take sentinel generic @ additions @ drop sentinel generic)"

definition mechanism_description :: "Dimension \<Rightarrow> Language option \<Rightarrow> string \<Rightarrow> string option" where
  "mechanism_description d language key =
     (case Option.bind language (\<lambda>l. find (\<lambda>(candidate, _). candidate = key) (language_mechanisms d l)) of
        Some (_, description) \<Rightarrow> Some description
      | None \<Rightarrow> map_option snd (find (\<lambda>(candidate, _). candidate = key) (mechanisms d)))"

subsection \<open>Facts\<close>

lemma set_DIMENSIONS [simp]: "set DIMENSIONS = UNIV"
  by (auto simp: DIMENSIONS_def intro: Dimension.exhaust)

lemma distinct_DIMENSIONS [simp]: "distinct DIMENSIONS"
  by (simp add: DIMENSIONS_def)

lemma dimension_key_inj: "dimension_key d = dimension_key e \<Longrightarrow> d = e"
  by (cases d; cases e) simp_all

lemma set_prob_values: "set (prob_values p) = ran p"
  by (force simp: prob_values_def map_filter_def ran_def)

lemma set_prob_entries: "(d, x) \<in> set (prob_entries p) \<longleftrightarrow> p d = Some x"
  by (force simp: prob_entries_def map_filter_def)

lemma position_Some: "position P xs = Some i \<Longrightarrow> i < length xs \<and> P (xs ! i)"
  by (induction xs arbitrary: i) (auto split: if_splits)

lemma find_eq_map_of:
  "map_option snd (find (\<lambda>(candidate, _). candidate = key) xs) = map_of xs key"
  by (induction xs) auto

lemma map_of_append_disjoint:
  "fst ` set xs \<inter> fst ` set ys = {} \<Longrightarrow> map_of (xs @ ys) = map_of (ys @ xs)"
  by (metis map_add_comm map_of_append dom_map_of_conv_image_fst)

text \<open>The keys of the generic vocabularies.\<close>

lemma generic_keys:
  "map fst (mechanisms Correctness) =
     [''condition'', ''state'', ''dataFlow'', ''asyncControl'', ''other'', ''noIssue'']"
  "map fst (mechanisms Security) =
     [''brokenAccessControl'', ''brokenAuthentication'', ''sqlInjection'', ''noSqlInjection'',
      ''commandInjection'', ''xss'', ''xxe'', ''ssrf'', ''pathTraversal'', ''insecureDeserialization'',
      ''cryptographicFailure'', ''sensitiveDataExposure'', ''securityMisconfiguration'', ''other'',
      ''noIssue'']"
  "map fst (mechanisms Reliability) =
     [''cleanup'', ''concurrency'', ''recovery'', ''crash'', ''other'', ''noIssue'']"
  "map fst (mechanisms Compatibility) =
     [''api'', ''behavior'', ''dataFormat'', ''protocol'', ''other'', ''noIssue'']"
  "map fst (mechanisms TestGap) =
     [''branch'', ''failure'', ''boundary'', ''integration'', ''other'', ''noIssue'']"
  by simp_all

text \<open>The two sentinels close every generic vocabulary; \<open>generic_entries\<close> is what is before them.\<close>

definition generic_entries :: "Dimension \<Rightarrow> MechanismEntry list" where
  "generic_entries d = take (length (mechanisms d) - 2) (mechanisms d)"

definition sentinels :: "Dimension \<Rightarrow> MechanismEntry list" where
  "sentinels d = drop (length (mechanisms d) - 2) (mechanisms d)"

lemma generic_sentinels: "mechanisms d = generic_entries d @ sentinels d"
  by (simp add: generic_entries_def sentinels_def)

lemma length_mechanisms: "length (mechanisms d) = length (map fst (mechanisms d))"
  by simp

lemma sentinel_keys: "map fst (sentinels d) = [''other'', ''noIssue'']"
  unfolding sentinels_def drop_map [symmetric] length_mechanisms
  by (cases d) (simp_all only: generic_keys, simp_all)

lemma mechanisms_distinct: "distinct (map fst (mechanisms d))"
  by (cases d) (simp_all only: generic_keys, simp_all)

lemma position_append:
  "\<forall>x \<in> set xs. \<not> P x \<Longrightarrow> P y \<Longrightarrow> position P (xs @ y # ys) = Some (length xs)"
  by (induction xs) auto

lemma sentinel_position:
  "position (\<lambda>(key, _). key = ''other'') (mechanisms d) = Some (length (generic_entries d))"
proof -
  obtain x y where s: "sentinels d = [(''other'', x), (''noIssue'', y)]"
    using sentinel_keys [of d] by (auto simp: map_eq_Cons_conv)
  have "''other'' \<notin> set (map fst (generic_entries d))"
    using mechanisms_distinct [of d] unfolding generic_sentinels [of d] s by auto
  then have "\<forall>e \<in> set (generic_entries d). \<not> (\<lambda>(key, _). key = ''other'') e"
    by force
  then show ?thesis unfolding generic_sentinels [of d] s by (rule position_append) simp
qed

lemma mechanisms_for_eq:
  "mechanisms_for d l =
     generic_entries d @ (case l of None \<Rightarrow> [] | Some l' \<Rightarrow> language_mechanisms d l') @ sentinels d"
  unfolding mechanisms_for_def Let_def sentinel_position
  by (simp add: generic_sentinels [of d] split: option.split)

text \<open>No language row repeats a key or reuses a generic key of its dimension.\<close>

definition row_ok :: "LanguageMechanismRow \<Rightarrow> bool" where
  "row_ok = (\<lambda>(l, d, es). distinct (map fst es) \<and>
     list_all (\<lambda>k. k \<notin> set (map fst (mechanisms d))) (map fst es))"

lemma rows_ok:
  "list_all row_ok mechanism_rows_rust_to_java"
  "list_all row_ok mechanism_rows_csharp_to_go"
  "list_all row_ok mechanism_rows_php_to_shell"
  "list_all row_ok mechanism_rows_sql_to_powershell"
  unfolding mechanism_rows_rust_to_java_def mechanism_rows_csharp_to_go_def
    mechanism_rows_php_to_shell_def mechanism_rows_sql_to_powershell_def
  by (simp_all only: list.pred_inject row_ok_def prod.case generic_keys, simp_all)

lemma rows_well_formed: "r \<in> set LANGUAGE_MECHANISMS \<Longrightarrow> row_ok r"
  using rows_ok by (auto simp: LANGUAGE_MECHANISMS_def list_all_iff)

lemma language_mechanisms_well_formed:
  "distinct (map fst (language_mechanisms d l))"
  "set (map fst (language_mechanisms d l)) \<inter> set (map fst (mechanisms d)) = {}"
proof -
  have "row_ok (l, d, language_mechanisms d l)"
  proof (cases "find (\<lambda>(l', dimension, _). l' = l \<and> dimension = d) LANGUAGE_MECHANISMS")
    case None
    then show ?thesis by (simp add: language_mechanisms_def row_ok_def)
  next
    case (Some r)
    then have r: "r \<in> set LANGUAGE_MECHANISMS" "case r of (l', d', _) \<Rightarrow> l' = l \<and> d' = d"
      unfolding find_Some_iff by (metis nth_mem)+
    with Some rows_well_formed show ?thesis
      by (cases r) (auto simp: language_mechanisms_def)
  qed
  then show "distinct (map fst (language_mechanisms d l))"
    "set (map fst (language_mechanisms d l)) \<inter> set (map fst (mechanisms d)) = {}"
    by (auto simp: row_ok_def list_all_iff)
qed

text \<open>
  The vocabulary sent to the classifier for a file keeps the generic entries in their order,
  puts the language's additions after them and before the sentinels \<open>other\<close> and \<open>noIssue\<close>, which
  stay last, and offers no key twice, for every dimension and every language.
\<close>

theorem mechanisms_for_well_formed:
  "\<exists>pre post. mechanisms d = pre @ post \<and> map fst post = [''other'', ''noIssue''] \<and>
     mechanisms_for d l =
       pre @ (case l of None \<Rightarrow> [] | Some l' \<Rightarrow> language_mechanisms d l') @ post \<and>
     distinct (map fst (mechanisms_for d l))"
proof (intro exI conjI)
  show "mechanisms d = generic_entries d @ sentinels d" by (rule generic_sentinels)
  show "map fst (sentinels d) = [''other'', ''noIssue'']" by (rule sentinel_keys)
  show "mechanisms_for d l = generic_entries d @
      (case l of None \<Rightarrow> [] | Some l' \<Rightarrow> language_mechanisms d l') @ sentinels d"
    by (rule mechanisms_for_eq)
  show "distinct (map fst (mechanisms_for d l))"
    using mechanisms_distinct [of d] language_mechanisms_well_formed [of d]
    unfolding mechanisms_for_eq generic_sentinels [of d]
    by (cases l) (auto simp del: set_map)
qed

lemma mechanism_description_eq:
  "mechanism_description d l key = map_of (mechanisms_for d l) key"
proof (cases l)
  case None
  then show ?thesis
    by (simp add: mechanism_description_def find_eq_map_of mechanisms_for_eq generic_sentinels)
next
  case (Some l')
  let ?a = "language_mechanisms d l'" and ?g = "generic_entries d" and ?s = "sentinels d"
  have dis: "fst ` set ?g \<inter> fst ` set ?a = {}"
    using language_mechanisms_well_formed(2) [of d l'] by (auto simp: generic_sentinels [of d])
  have "mechanism_description d l key =
      (case map_of ?a key of Some x \<Rightarrow> Some x | None \<Rightarrow> map_of (mechanisms d) key)"
    unfolding find_eq_map_of [symmetric] mechanism_description_def Some bind.simps
    by (cases "find (\<lambda>(candidate, _). candidate = key) ?a") auto
  also have "\<dots> = map_of ((?a @ ?g) @ ?s) key"
    unfolding generic_sentinels [of d]
    by (auto simp: map_add_def split: option.split)
  also have "\<dots> = map_of ((?g @ ?a) @ ?s) key"
    using map_of_append_disjoint [OF dis] by (simp only: map_of_append [of _ ?s])
  also have "\<dots> = map_of (mechanisms_for d l) key"
    by (simp add: mechanisms_for_eq Some)
  finally show ?thesis .
qed

text \<open>
  A description is looked up in exactly the vocabulary that was offered: for every dimension,
  language and key, \<open>mechanism_description\<close> (language entries first, then the generic ones) is
  the entry of \<open>mechanisms_for\<close> with that key, and \<open>None\<close> where the vocabulary has none.
\<close>

theorem mechanism_description_offered:
  "mechanism_description d l key = map_of (mechanisms_for d l) key"
  by (rule mechanism_description_eq)

end
