(* ===== verification/Report.thy ===== *)
theory Report
  imports Policy
begin

text \<open>
  \<^verbatim>\<open>src/domain/report.rs\<close> and the data of the modules whose results a report embeds
  (\<^verbatim>\<open>voi.rs\<close>, \<^verbatim>\<open>spec_drift.rs\<close>, \<^verbatim>\<open>upgrades.rs\<close>,
  \<^verbatim>\<open>docs_drift.rs\<close>, \<^verbatim>\<open>test_planner.rs\<close>, \<^verbatim>\<open>merge_confidence.rs\<close>,
  \<^verbatim>\<open>context.rs\<close>). One record per struct, one datatype per enum; a field keeps its
  name behind a prefix for its struct, because field names are shared by many structs.
\<close>

subsection \<open>Inputs\<close>

datatype ReviewMode = Changes | Codebase

record ChangedFile =
  cf_path :: string
  cf_patch :: string
  cf_base :: string

record SourceFile =
  sf_path :: string
  sf_content :: string

record Hunk =
  h_id :: string
  h_start_line :: nat
  h_patch :: string

record FileProfile =
  fp_file :: string
  fp_category :: string
  fp_category_confidence :: f64
  fp_review_priority :: f64
  fp_review_priority_confidence :: f64

subsection \<open>Findings\<close>

datatype Action = Comment | RequestChanges

record RelatedFinding =
  rf_file :: string
  rf_line :: nat
  rf_dimension :: Dimension
  rf_mechanism :: string
  rf_confidence :: f64

record TaintChain =
  tc_source :: string
  tc_source_confidence :: f64
  tc_untrusted :: f64
  tc_reaches_sink :: f64
  tc_sanitized :: "f64 option"
  tc_exploitability :: f64

record Exoneration =
  ex_fact :: string
  ex_fact_confidence :: f64
  ex_holds :: f64

record Ensemble =
  en_votes :: "f64 list"
  en_mean :: f64
  en_spread :: f64
  en_needs_human :: bool

record ContextDrops =
  cd_chars :: nat
  cd_items :: nat

datatype TestStrategy =
    UnitRegression | BranchTable | FailurePath | BoundaryTable | PropertyInvariant
  | ComponentIntegration

record TestPlan =
  tp_strategy :: TestStrategy
  tp_confidence :: f64
  tp_file :: string
  tp_line :: nat
  tp_language :: string
  tp_stub_language :: string
  tp_scenario :: string
  tp_assertion :: string
  tp_stub :: string
  tp_incomplete :: bool
  tp_required_work :: "string list"
  tp_context_drops :: ContextDrops

record Finding =
  f_file :: string
  f_line :: nat
  f_dimension :: Dimension
  f_probability :: f64
  f_location_confidence :: f64
  f_mechanism :: string
  f_mechanism_confidence :: f64
  f_severity :: f64
  f_severity_confidence :: f64
  f_owner :: "string option"
  f_owner_confidence :: "f64 option"
  f_action :: Action
  f_evidence :: string
  f_title :: "string option"
  f_why :: "string option"
  f_fix :: "string option"
  f_test :: "string option"
  f_test_plan :: "TestPlan option"
  f_fingerprint :: string
  f_related :: "RelatedFinding list"
  f_rank :: "nat option"
  f_taint :: "TaintChain option"
  f_exoneration :: "Exoneration option"
  f_ensemble :: "Ensemble option"

text \<open>\<open>Finding::default()\<close>\<close>

definition default_finding :: Finding where
  "default_finding = \<lparr>f_file = [], f_line = 0, f_dimension = Correctness,
     f_probability = Fin 0, f_location_confidence = Fin 0, f_mechanism = [],
     f_mechanism_confidence = Fin 0, f_severity = Fin 0, f_severity_confidence = Fin 0,
     f_owner = None, f_owner_confidence = None, f_action = Comment, f_evidence = [],
     f_title = None, f_why = None, f_fix = None, f_test = None, f_test_plan = None,
     f_fingerprint = [], f_related = [], f_rank = None, f_taint = None, f_exoneration = None,
     f_ensemble = None\<rparr>"

subsection \<open>Advisory artifacts\<close>

datatype SpecCheckStatus = Drift | Matches | NotApplicable | Uncertain | Deferred

record SpecDocument =
  sd_path :: string
  sd_content_hash :: string
  sd_bytes :: nat
  sd_candidates :: nat

record SpecEvidence =
  se_path :: string
  se_start_line :: nat
  se_end_line :: nat
  se_text :: string

record SpecCheck =
  sc_file :: string
  sc_status :: SpecCheckStatus
  sc_confidence :: f64
  sc_spec :: "SpecEvidence option"
  sc_source :: "SpecEvidence option"
  sc_reason :: string

record SpecSummary =
  ss_documents :: "SpecDocument list"
  ss_checks :: "SpecCheck list"

record UpgradeEvidence =
  ue_path :: string
  ue_line :: nat
  ue_snapshot :: string
  ue_text :: string

record DependencyChange =
  dc_ecosystem :: string
  dc_dependency :: string
  dc_scope :: string
  dc_kind :: string
  dc_risk :: string
  dc_old_version :: "string option"
  dc_new_version :: "string option"
  dc_evidence :: "UpgradeEvidence list"
  dc_changelog :: "UpgradeEvidence list"

record UpgradeSummary =
  us_changes :: "DependencyChange list"
  us_findings :: "Finding list"
  us_unknowns :: "string list"

record DocsEvidence =
  de_path :: string
  de_line :: nat
  de_revision :: string
  de_text :: string

record DocsCheck =
  dk_status :: string
  dk_symbol :: string
  dk_documentation :: DocsEvidence
  dk_source :: "DocsEvidence option"
  dk_reason :: string

record DocsDriftSummary =
  dd_findings :: "Finding list"
  dd_unknowns :: "string list"
  dd_checks :: "DocsCheck list"

subsection \<open>Merge outcomes\<close>

datatype OutcomeKind = Revert | Incident | Flake

text \<open>Timestamps are Rust \<open>i64\<close>s, integers in the range \<open>i64_ok\<close>.\<close>

record Evaluation =
  ev_training_samples :: nat
  ev_held_out_samples :: nat
  ev_unknown_labels :: nat
  ev_immature_or_unavailable_labels :: nat
  ev_training_events :: nat
  ev_held_out_events :: nat
  ev_brier_score :: "f64 option"
  ev_baseline_brier_score :: "f64 option"
  ev_expected_calibration_error :: "f64 option"
  ev_matching_bin_held_out_samples :: nat
  ev_matching_bin_held_out_events :: nat
  ev_matching_bin_calibration_error :: "f64 option"
  ev_matching_bin_training_last_observed_at :: "int option"
  ev_matching_bin_held_out_last_observed_at :: "int option"
  ev_matching_bin_held_out_last_merged_at :: "int option"

definition default_evaluation :: Evaluation where
  "default_evaluation = \<lparr>ev_training_samples = 0, ev_held_out_samples = 0, ev_unknown_labels = 0,
     ev_immature_or_unavailable_labels = 0, ev_training_events = 0, ev_held_out_events = 0,
     ev_brier_score = None, ev_baseline_brier_score = None, ev_expected_calibration_error = None,
     ev_matching_bin_held_out_samples = 0, ev_matching_bin_held_out_events = 0,
     ev_matching_bin_calibration_error = None, ev_matching_bin_training_last_observed_at = None,
     ev_matching_bin_held_out_last_observed_at = None,
     ev_matching_bin_held_out_last_merged_at = None\<rparr>"

record OutcomeEstimate =
  oe_outcome :: OutcomeKind
  oe_window_seconds :: "int option"
  oe_status :: string
  oe_probability :: "f64 option"
  oe_upper_bound_95 :: "f64 option"
  oe_held_out_upper_bound_95 :: "f64 option"
  oe_matching_bin_samples :: nat
  oe_evaluation :: Evaluation
  oe_limitations :: "string list"

record ApprovalDecision =
  ad_enabled :: bool
  ad_eligible :: bool
  ad_reasons :: "string list"

record MergeConfidenceSummary =
  ms_version :: nat
  ms_heuristic_version :: nat
  ms_heuristic_score :: f64
  ms_heuristic_label :: string
  ms_repository :: "string option"
  ms_provenance :: "string option"
  ms_synthetic :: "bool option"
  ms_training_cutoff :: "int option"
  ms_as_of :: "int option"
  ms_outcomes :: "OutcomeEstimate list"
  ms_approval :: ApprovalDecision

subsection \<open>Workflow results\<close>

record MatrixRow =
  mr_file :: string
  mr_probabilities :: Probabilities

datatype FollowUpStrategy = Probability | Voi

record VoiCandidate =
  vc_file :: string
  vc_dimension :: Dimension
  vc_probability :: f64
  vc_threshold :: f64
  vc_impact_weight :: f64
  vc_uncertainty :: f64
  vc_estimated_calls :: nat
  vc_score :: f64
  vc_selected :: bool

record VoiSummary =
  vs_candidates :: "VoiCandidate list"
  vs_skipped_optional_profiles :: bool

record ConfigSnapshot =
  cs_screen_threshold :: f64
  cs_screen_thresholds :: Probabilities
  cs_severity_max :: f64
  cs_max_follow_ups :: "nat option"
  cs_max_profiles :: nat
  cs_follow_up_strategy :: FollowUpStrategy

record WorkflowCounts =
  wc_screened_cells :: nat
  wc_threshold_signals :: nat
  wc_profiled_files :: nat
  wc_followed_signals :: nat
  wc_located_findings :: nat
  wc_routed_findings :: nat
  wc_suppressed_findings :: nat
  wc_clustered_findings :: nat
  wc_exonerated_findings :: nat
  wc_needs_human_findings :: nat
  wc_dropped_context_chars :: nat
  wc_dropped_context_items :: nat

datatype ReviewStage = Screen | Profile | Locate | TestPlanStage

fun stage_key :: "ReviewStage \<Rightarrow> string" where
  "stage_key Screen = ''screen''"
| "stage_key Profile = ''profile''"
| "stage_key Locate = ''locate''"
| "stage_key TestPlanStage = ''testplan''"

record SkippedFile =
  sk_file :: string
  sk_stage :: ReviewStage
  sk_reason :: string

record CacheSummary =
  ca_hits :: u64
  ca_misses :: u64

record UsageSummary =
  ug_calls :: u64
  ug_input_tokens :: u64
  ug_output_tokens :: u64
  ug_cache :: CacheSummary

record IndexStats =
  is_computed :: nat
  is_reused :: nat
  is_fallbacks :: nat

record BudgetSummary =
  bs_limit :: "u64 option"
  bs_reserved :: u64
  bs_deferred :: u64

record TierSummary =
  ti_screened :: nat
  ti_dismissed :: "string list"

record ShardMetadata =
  sh_index :: nat
  sh_count :: nat
  sh_inventory_key :: string
  sh_expected_paths :: "string list"
  sh_refine :: bool
  sh_model :: string

text \<open>\<open>redactions\<close>, a \<open>BTreeMap\<close>, is its entries in key order.\<close>

record ReviewReport =
  r_reviewed_head :: "string option"
  r_reviewed_base :: "string option"
  r_reviewed_clean :: bool
  r_reviewed_committed :: bool
  r_upgrades :: "UpgradeSummary option"
  r_docs_drift :: "DocsDriftSummary option"
  r_merge_confidence :: "MergeConfidenceSummary option"
  r_mode :: ReviewMode
  r_scope :: string
  r_dimensions :: "DimensionMeta list"
  r_config :: ConfigSnapshot
  r_wall_time_ms :: u64
  r_screened_files :: nat
  r_context_files :: "string list"
  r_matrix :: "MatrixRow list"
  r_followed_signals :: nat
  r_profiles :: "FileProfile list"
  r_workflow :: WorkflowCounts
  r_usage :: UsageSummary
  r_index :: IndexStats
  r_budget :: BudgetSummary
  r_follow_up_plan :: "VoiSummary option"
  r_spec_drift :: "SpecSummary option"
  r_partial :: bool
  r_tier :: TierSummary
  r_shard :: "ShardMetadata option"
  r_redactions :: "(string \<times> nat) list"
  r_skipped :: "SkippedFile list"
  r_findings :: "Finding list"
  r_p_revert :: f64

text \<open>\<open>Default::default()\<close> of the counters and of the whole report.\<close>

definition default_config :: ConfigSnapshot where
  "default_config = \<lparr>cs_screen_threshold = Fin 0, cs_screen_thresholds = Map.empty,
     cs_severity_max = Fin 0, cs_max_follow_ups = None, cs_max_profiles = 0,
     cs_follow_up_strategy = Probability\<rparr>"

definition default_counts :: WorkflowCounts where
  "default_counts = \<lparr>wc_screened_cells = 0, wc_threshold_signals = 0, wc_profiled_files = 0,
     wc_followed_signals = 0, wc_located_findings = 0, wc_routed_findings = 0,
     wc_suppressed_findings = 0, wc_clustered_findings = 0, wc_exonerated_findings = 0,
     wc_needs_human_findings = 0, wc_dropped_context_chars = 0, wc_dropped_context_items = 0\<rparr>"

definition default_usage :: UsageSummary where
  "default_usage = \<lparr>ug_calls = 0, ug_input_tokens = 0, ug_output_tokens = 0,
     ug_cache = \<lparr>ca_hits = 0, ca_misses = 0\<rparr>\<rparr>"

definition default_report :: ReviewReport where
  "default_report = \<lparr>r_reviewed_head = None, r_reviewed_base = None, r_reviewed_clean = False,
     r_reviewed_committed = False, r_upgrades = None, r_docs_drift = None,
     r_merge_confidence = None, r_mode = Changes, r_scope = [], r_dimensions = [],
     r_config = default_config, r_wall_time_ms = 0, r_screened_files = 0, r_context_files = [],
     r_matrix = [], r_followed_signals = 0, r_profiles = [], r_workflow = default_counts,
     r_usage = default_usage, r_index = \<lparr>is_computed = 0, is_reused = 0, is_fallbacks = 0\<rparr>,
     r_budget = \<lparr>bs_limit = None, bs_reserved = 0, bs_deferred = 0\<rparr>,
     r_follow_up_plan = None, r_spec_drift = None, r_partial = False,
     r_tier = \<lparr>ti_screened = 0, ti_dismissed = []\<rparr>, r_shard = None,
     r_redactions = [], r_skipped = [], r_findings = [], r_p_revert = Fin 0\<rparr>"

lemmas default_defs = default_finding_def default_evaluation_def default_config_def
  default_counts_def default_usage_def default_report_def

end
