(* ===== verification/Patch.thy ===== *)
theory Patch
  imports Report
begin

text \<open>
  \<^verbatim>\<open>src/domain/patch.rs\<close>: parsing a unified diff into hunks, the first added line of a
  hunk, splitting a hunk at new-file lines, mapping a new-file line back to the base file, and
  the synthetic patch of a new file. Parsed positions are \<open>usize\<close>s with the wrap-around of a
  release build; counts of lines held in memory are \<open>nat\<close>.
\<close>

definition UNTRACKED_CHUNK_LINES :: nat where
  "UNTRACKED_CHUNK_LINES = 80"

abbreviation is_header :: "string \<Rightarrow> bool" where
  "is_header l \<equiv> starts_with l ''@@ ''"

text \<open>The first byte of a line, \<open>text.as_bytes().first()\<close>.\<close>

fun first_byte :: "string \<Rightarrow> char option" where
  "first_byte [] = None"
| "first_byte (c # _) = Some c"

subsection \<open>Parsing hunks\<close>

text \<open>\<open>header.split(' ').find(|t| t.starts_with(c))\<close>\<close>

definition header_token :: "char \<Rightarrow> string \<Rightarrow> string option" where
  "header_token c header = find (\<lambda>t. first_byte t = Some c) (split_on (CHR '' '') header)"

definition header_start :: "string \<Rightarrow> nat" where
  "header_start line =
     (case Option.bind (header_token (CHR ''+'') line)
             (\<lambda>t. parse_usize (hd (split_on (CHR '','') (tl t)))) of
        None \<Rightarrow> 1 | Some n \<Rightarrow> n)"

type_synonym parse_state = "Hunk list \<times> string list option \<times> nat"

definition flush :: "Hunk list \<Rightarrow> string list option \<Rightarrow> nat \<Rightarrow> Hunk list" where
  "flush hunks current start_line =
     (case current of
        None \<Rightarrow> hunks
      | Some lines \<Rightarrow> hunks @
          [\<lparr>h_id = ''hunk_'' @ show_nat (length hunks + 1), h_start_line = start_line,
            h_patch = join [NL] lines\<rparr>])"

fun parse_step :: "parse_state \<Rightarrow> string \<Rightarrow> parse_state" where
  "parse_step (hunks, current, start_line) line =
     (if is_header line
      then (flush hunks current start_line, Some [line], header_start line)
      else (hunks, map_option (\<lambda>ls. ls @ [line]) current, start_line))"

definition parse_hunks :: "string \<Rightarrow> Hunk list" where
  "parse_hunks patch =
     (case foldl parse_step ([], None, 1) (split_on NL patch) of
        (hunks, current, start_line) \<Rightarrow> flush hunks current start_line)"

subsection \<open>The first added line\<close>

fun first_added_from :: "nat \<Rightarrow> string list \<Rightarrow> nat option" where
  "first_added_from line [] = None"
| "first_added_from line (t # ts) =
     (if first_byte t = Some (CHR ''+'') then Some line
      else if first_byte t = Some (CHR '' '') then first_added_from (usize_add line 1) ts
      else first_added_from line ts)"

definition first_added_line :: "Hunk \<Rightarrow> nat" where
  "first_added_line hunk =
     (case first_added_from (h_start_line hunk) (drop 1 (split_on NL (h_patch hunk))) of
        None \<Rightarrow> h_start_line hunk | Some line \<Rightarrow> line)"

subsection \<open>Ranges\<close>

text \<open>Parses \<^verbatim>\<open>@@ -a[,b] +c[,d] @@\<close> into \<open>(a, b, c, d)\<close>; an omitted count is 1.\<close>

definition header_range :: "char \<Rightarrow> string \<Rightarrow> (nat \<times> nat) option" where
  "header_range c header =
     Option.bind (header_token c header) (\<lambda>token.
       let parts = split_on (CHR '','') (tl token) in
       Option.bind (parse_usize (hd parts)) (\<lambda>start.
         case tl parts of
           [] \<Rightarrow> Some (start, 1)
         | n # _ \<Rightarrow> map_option (Pair start) (parse_usize n)))"

definition hunk_ranges :: "string \<Rightarrow> (nat \<times> nat \<times> nat \<times> nat) option" where
  "hunk_ranges header =
     Option.bind (header_range (CHR ''-'') header) (\<lambda>(old_start, old_len).
       map_option (\<lambda>(new_start, new_len). (old_start, old_len, new_start, new_len))
         (header_range (CHR ''+'') header))"

subsection \<open>Splitting a hunk\<close>

record Piece =
  p_lines :: "string list"
  p_old_first :: nat
  p_new_first :: nat
  p_old_count :: nat
  p_new_count :: nat

definition new_piece :: "nat \<Rightarrow> nat \<Rightarrow> Piece" where
  "new_piece old_first new_first =
     \<lparr>p_lines = [], p_old_first = old_first, p_new_first = new_first,
      p_old_count = 0, p_new_count = 0\<rparr>"

definition range_header :: "nat \<Rightarrow> nat \<Rightarrow> nat \<Rightarrow> nat \<Rightarrow> string" where
  "range_header old_start old_count new_start new_count =
     ''@@ -'' @ show_nat old_start @ '','' @ show_nat old_count @
     '' +'' @ show_nat new_start @ '','' @ show_nat new_count @ '' @@''"

text \<open>\<open>Piece::hunk\<close>: a zero-length range names the line before it.\<close>

definition piece_hunk :: "Piece \<Rightarrow> Hunk" where
  "piece_hunk p =
     (let old_start = (if p_old_count p = 0 then usize_sub (p_old_first p) 1 else p_old_first p);
          new_start = (if p_new_count p = 0 then usize_sub (p_new_first p) 1 else p_new_first p)
      in \<lparr>h_id = [], h_start_line = new_start,
          h_patch = range_header old_start (p_old_count p) new_start (p_new_count p)
            @ concat (map (\<lambda>line. NL # line) (p_lines p))\<rparr>)"

definition removals :: "string list \<Rightarrow> nat" where
  "removals lines = length (filter (\<lambda>l. first_byte l = Some (CHR ''-'')) lines)"

record SplitState =
  s_pieces :: "Piece list"
  s_current :: Piece
  s_pending :: "string list"
  s_pending_old_first :: nat
  s_last_was_removal :: bool
  s_old_next :: nat
  s_new_next :: nat

text \<open>Where a kept line starts a new piece: at a cut, once the piece has a new-side line.\<close>

definition split_cut :: "nat list \<Rightarrow> SplitState \<Rightarrow> SplitState" where
  "split_cut cuts s =
     (if s_new_next s \<in> set cuts \<and> p_new_count (s_current s) > 0
      then let first_old = (if s_pending s = [] then s_old_next s else s_pending_old_first s)
           in s\<lparr>s_pieces := s_pieces s @ [s_current s],
                s_current := new_piece first_old (s_new_next s)\<rparr>
      else s)"

text \<open>The pending removals join the current piece.\<close>

definition absorb_pending :: "SplitState \<Rightarrow> SplitState" where
  "absorb_pending s =
     s\<lparr>s_current := (s_current s)
         \<lparr>p_old_count := p_old_count (s_current s) + removals (s_pending s),
          p_lines := p_lines (s_current s) @ s_pending s\<rparr>,
       s_pending := []\<rparr>"

definition keep_line :: "string \<Rightarrow> SplitState \<Rightarrow> SplitState" where
  "keep_line line s =
     (let c = s_current s; ctx = starts_with line '' '' in
      s\<lparr>s_current := c\<lparr>p_lines := p_lines c @ [line], p_new_count := p_new_count c + 1,
           p_old_count := (if ctx then p_old_count c + 1 else p_old_count c)\<rparr>,
        s_old_next := (if ctx then usize_add (s_old_next s) 1 else s_old_next s),
        s_new_next := usize_add (s_new_next s) 1,
        s_last_was_removal := False\<rparr>)"

definition split_step :: "nat list \<Rightarrow> SplitState \<Rightarrow> string \<Rightarrow> SplitState" where
  "split_step cuts s line =
     (case first_byte line of
        Some c \<Rightarrow>
          if c = CHR ''-'' then
            s\<lparr>s_pending_old_first :=
                 (if s_pending s = [] then s_old_next s else s_pending_old_first s),
              s_pending := s_pending s @ [line],
              s_old_next := usize_add (s_old_next s) 1,
              s_last_was_removal := True\<rparr>
          else if c = CHR ''+'' \<or> c = CHR '' '' then
            keep_line line (absorb_pending (split_cut cuts s))
          else if c = CHR 0x5C then
            (if s_last_was_removal s then s\<lparr>s_pending := s_pending s @ [line]\<rparr>
             else s\<lparr>s_current := (s_current s)\<lparr>p_lines := p_lines (s_current s) @ [line]\<rparr>\<rparr>)
          else s
      | None \<Rightarrow> s)"

definition split_init :: "nat \<times> nat \<times> nat \<times> nat \<Rightarrow> SplitState" where
  "split_init r =
     (case r of (old_start, old_len, new_start, new_len) \<Rightarrow>
        let old_next = (if old_len = 0 then usize_add old_start 1 else old_start);
            new_next = (if new_len = 0 then usize_add new_start 1 else new_start)
        in \<lparr>s_pieces = [], s_current = new_piece old_next new_next, s_pending = [],
            s_pending_old_first = old_next, s_last_was_removal = False,
            s_old_next = old_next, s_new_next = new_next\<rparr>)"

definition split_pieces :: "nat list \<Rightarrow> nat \<times> nat \<times> nat \<times> nat \<Rightarrow> string list \<Rightarrow> Piece list" where
  "split_pieces cuts r body =
     (let s = absorb_pending (foldl (split_step cuts) (split_init r) body)
      in s_pieces s @ [s_current s])"

definition split_hunk :: "Hunk \<Rightarrow> nat list \<Rightarrow> Hunk list" where
  "split_hunk hunk cuts =
     (let lines = split_on NL (h_patch hunk) in
      case hunk_ranges (hd lines) of
        None \<Rightarrow> [hunk]
      | Some r \<Rightarrow>
          let pieces = split_pieces cuts r (tl lines)
          in if length pieces = 1 then [hunk] else map piece_hunk pieces)"

subsection \<open>The base line of a new-file line\<close>

text \<open>The result of the loop over the headers: a line inside a hunk, or the offset so far.\<close>

fun base_line_loop :: "nat \<Rightarrow> int \<Rightarrow> string list \<Rightarrow> nat + int" where
  "base_line_loop new_line offset [] = Inr offset"
| "base_line_loop new_line offset (header # headers) =
     (case hunk_ranges header of
        None \<Rightarrow> base_line_loop new_line offset headers
      | Some (old_start, old_len, new_start, new_len) \<Rightarrow>
          if (if new_len = 0 then new_line \<le> new_start else new_line < new_start) then Inr offset
          else if new_line < usize_add new_start new_len then
            Inl (if old_len = 0 then max old_start 1
                 else min (usize_add old_start (usize_sub new_line new_start))
                          (usize_sub (usize_add old_start old_len) 1))
          else
            let old_next = (if old_len = 0 then usize_add old_start 1 else usize_add old_start old_len);
                new_next = (if new_len = 0 then usize_add new_start 1 else usize_add new_start new_len)
            in base_line_loop new_line
                 (i64_wrap (i64_of_usize old_next - i64_of_usize new_next)) headers)"

definition base_line :: "string \<Rightarrow> nat \<Rightarrow> nat" where
  "base_line patch new_line =
     (case base_line_loop new_line 0 (filter is_header (str_lines patch)) of
        Inl line \<Rightarrow> line
      | Inr offset \<Rightarrow> usize_of_i64 (max (i64_wrap (i64_of_usize new_line + offset)) 1))"

subsection \<open>The patch of a new file\<close>

definition new_file_chunk :: "string list \<Rightarrow> nat \<Rightarrow> string" where
  "new_file_chunk lines index =
     (let start = index * UNTRACKED_CHUNK_LINES;
          chunk = drop start (take (min (length lines) (start + UNTRACKED_CHUNK_LINES)) lines)
      in ''@@ -0,0 +'' @ show_nat (start + 1) @ '','' @ show_nat (length chunk) @ '' @@''
         @ concat (map (\<lambda>line. NL # CHR ''+'' # line) chunk))"

definition patch_for_new_file :: "string \<Rightarrow> string" where
  "patch_for_new_file source =
     (let lines = split_on NL source;
          chunk_count = div_ceil (length lines) UNTRACKED_CHUNK_LINES
      in join [NL] (map (new_file_chunk lines) [0..<chunk_count]))"

section \<open>Parsing loses nothing\<close>

text \<open>The lines of a list of hunks, and what a hunk of \<open>parse_hunks\<close> looks like.\<close>

definition hunk_lines :: "Hunk list \<Rightarrow> string list" where
  "hunk_lines hs = concat (map (\<lambda>h. split_on NL (h_patch h)) hs)"

definition hunk_ids :: "nat \<Rightarrow> string list" where
  "hunk_ids n = map (\<lambda>i. ''hunk_'' @ show_nat (i + 1)) [0..<n]"

definition parsed_lines :: "nat \<Rightarrow> string list \<Rightarrow> bool" where
  "parsed_lines start ls \<longleftrightarrow> ls \<noteq> [] \<and> is_header (hd ls) \<and> start = header_start (hd ls)
     \<and> list_all (\<lambda>l. \<not> is_header l) (tl ls)"

definition parsed_hunk :: "Hunk \<Rightarrow> bool" where
  "parsed_hunk h \<longleftrightarrow> parsed_lines (h_start_line h) (split_on NL (h_patch h))"

text \<open>The lines seen so far, finished hunks and open one together.\<close>

fun parse_inv :: "string list \<Rightarrow> parse_state \<Rightarrow> bool" where
  "parse_inv seen (hs, cur, start) \<longleftrightarrow>
     hunk_lines hs @ (case cur of None \<Rightarrow> [] | Some ls \<Rightarrow> ls) = dropWhile (\<lambda>l. \<not> is_header l) seen
     \<and> (cur = None \<longrightarrow> hs = [] \<and> list_all (\<lambda>l. \<not> is_header l) seen)
     \<and> map h_id hs = hunk_ids (length hs)
     \<and> list_all parsed_hunk hs
     \<and> (\<forall>ls. cur = Some ls \<longrightarrow> parsed_lines start ls \<and> (\<forall>l \<in> set ls. NL \<notin> set l))"

lemma hunk_lines_simps [simp]:
  "hunk_lines [] = []" "hunk_lines (hs @ hs') = hunk_lines hs @ hunk_lines hs'"
  "hunk_lines [h] = split_on NL (h_patch h)"
  by (simp_all add: hunk_lines_def)

lemma hunk_ids_Suc: "hunk_ids (Suc n) = hunk_ids n @ [''hunk_'' @ show_nat (n + 1)]"
  by (simp add: hunk_ids_def)

lemma flush_inv:
  assumes "parse_inv seen (hs, cur, start)"
  shows "hunk_lines (flush hs cur start) = dropWhile (\<lambda>l. \<not> is_header l) seen"
    and "map h_id (flush hs cur start) = hunk_ids (length (flush hs cur start))"
    and "list_all parsed_hunk (flush hs cur start)"
  using assms
  by (auto simp: flush_def hunk_ids_Suc parsed_hunk_def parsed_lines_def split_on_join
      split: option.splits)

lemma dropWhile_snoc:
  "dropWhile P (xs @ [x]) =
     (if list_all P xs then if P x then [] else [x] else dropWhile P xs @ [x])"
  by (induction xs) auto

lemma parse_step_inv:
  assumes inv: "parse_inv seen st" and nl: "NL \<notin> set line"
  shows "parse_inv (seen @ [line]) (parse_step st line)"
proof -
  obtain hs cur start where st: "st = (hs, cur, start)" by (cases st)
  note fl = flush_inv [OF inv [unfolded st]]
  show ?thesis
  proof (cases "is_header line")
    case True
    then show ?thesis using fl nl inv
      by (auto simp: st parsed_lines_def dropWhile_snoc dropWhile_eq_Nil_conv list_all_iff)
  next
    case False
    have "dropWhile (\<lambda>l. \<not> is_header l) seen \<noteq> []" if "cur \<noteq> None"
    proof -
      from that obtain a where "cur = Some a" by blast
      with inv have "hunk_lines hs @ a = dropWhile (\<lambda>l. \<not> is_header l) seen" "a \<noteq> []"
        by (simp_all add: st parsed_lines_def)
      then show ?thesis by (metis append_is_Nil_conv)
    qed
    then have "\<not> list_all (\<lambda>l. \<not> is_header l) seen" if "cur \<noteq> None"
      using that by (auto simp: dropWhile_eq_Nil_conv list_all_iff)
    with False show ?thesis using inv nl
      by (cases cur) (auto simp: st parsed_lines_def dropWhile_snoc tl_append split: list.splits)
  qed
qed

lemma parse_fold_inv:
  "parse_inv seen st \<Longrightarrow> \<forall>l \<in> set ls. NL \<notin> set l \<Longrightarrow> parse_inv (seen @ ls) (foldl parse_step st ls)"
proof (induction ls arbitrary: seen st)
  case (Cons l ls)
  then show ?case using parse_step_inv [of seen st l] by fastforce
qed simp

lemma parse_hunks_inv:
  obtains hs cur start where "parse_inv (split_on NL p) (hs, cur, start)"
    and "parse_hunks p = flush hs cur start"
proof -
  obtain hs cur start where eq: "foldl parse_step ([], None, 1) (split_on NL p) = (hs, cur, start)"
    by (metis prod_cases3)
  have "parse_inv ([] @ split_on NL p) (foldl parse_step ([], None, 1) (split_on NL p))"
    by (rule parse_fold_inv) (auto simp: hunk_ids_def dest: split_on_pieces)
  with that [of hs cur start] eq show ?thesis by (simp add: parse_hunks_def)
qed

text \<open>
  Parsing a diff loses nothing after its first hunk header: the lines of the hunks, in order,
  are exactly the lines of the patch from that header on; the hunks are numbered
  \<open>hunk_1, hunk_2, \<dots>\<close>; and each begins with a header, holds no other, and starts where its
  header says.
\<close>

theorem parse_hunks_lossless:
  "hunk_lines (parse_hunks p) = dropWhile (\<lambda>l. \<not> is_header l) (split_on NL p)
   \<and> map h_id (parse_hunks p) = hunk_ids (length (parse_hunks p))
   \<and> list_all parsed_hunk (parse_hunks p)"
  by (rule parse_hunks_inv [of p]) (metis flush_inv)

section \<open>Splitting keeps the body and its counts\<close>

text \<open>The lines of a hunk body, and how many of them are in the old and in the new file.\<close>

definition is_body_line :: "string \<Rightarrow> bool" where
  "is_body_line l \<longleftrightarrow>
     first_byte l \<in> {Some (CHR ''-''), Some (CHR ''+''), Some (CHR '' ''), Some (CHR 0x5C)}"

definition old_lines :: "string list \<Rightarrow> nat" where
  "old_lines ls =
     length (filter (\<lambda>l. first_byte l = Some (CHR ''-'') \<or> first_byte l = Some (CHR '' '')) ls)"

definition new_lines :: "string list \<Rightarrow> nat" where
  "new_lines ls =
     length (filter (\<lambda>l. first_byte l = Some (CHR ''+'') \<or> first_byte l = Some (CHR '' '')) ls)"

lemma old_new_lines_simps [simp]:
  "old_lines [] = 0" "new_lines [] = 0"
  "old_lines (xs @ ys) = old_lines xs + old_lines ys"
  "new_lines (xs @ ys) = new_lines xs + new_lines ys"
  by (simp_all add: old_lines_def new_lines_def)

definition counted :: "Piece \<Rightarrow> bool" where
  "counted p \<longleftrightarrow> p_old_count p = old_lines (p_lines p) \<and> p_new_count p = new_lines (p_lines p)
     \<and> p_old_first p < usize_limit \<and> p_new_first p < usize_limit"

text \<open>Consecutive pieces: each starts, in both files, right after the one before it, at a cut.\<close>

definition follows :: "nat list \<Rightarrow> Piece \<Rightarrow> Piece \<Rightarrow> bool" where
  "follows cuts p q \<longleftrightarrow>
     p_new_first q = usize_add (p_new_first p) (p_new_count p)
     \<and> p_old_first q = usize_add (p_old_first p) (p_old_count p)
     \<and> p_new_first q \<in> set cuts \<and> 0 < p_new_count p"

fun tiled :: "nat list \<Rightarrow> Piece list \<Rightarrow> bool" where
  "tiled cuts (p # q # ps) \<longleftrightarrow> follows cuts p q \<and> tiled cuts (q # ps)"
| "tiled cuts _ \<longleftrightarrow> True"

lemma tiled_snoc: "tiled cuts (ps @ [p, q]) \<longleftrightarrow> tiled cuts (ps @ [p]) \<and> follows cuts p q"
  by (induction cuts ps rule: tiled.induct) auto

lemma tiled_snoc_cong:
  "p_new_first q = p_new_first q' \<Longrightarrow> p_old_first q = p_old_first q' \<Longrightarrow>
    tiled cuts (ps @ [q]) \<longleftrightarrow> tiled cuts (ps @ [q'])"
  by (induction cuts ps rule: tiled.induct) (auto simp: follows_def)

definition split_inv :: "nat list \<Rightarrow> string list \<Rightarrow> SplitState \<Rightarrow> bool" where
  "split_inv cuts seen s \<longleftrightarrow>
     concat (map p_lines (s_pieces s)) @ p_lines (s_current s) @ s_pending s
       = filter is_body_line seen
     \<and> (s_last_was_removal s \<longleftrightarrow> s_pending s \<noteq> [])
     \<and> (s_pending s \<noteq> [] \<longrightarrow> s_pending_old_first s = usize_add (p_old_first (s_current s)) (p_old_count (s_current s)))
     \<and> (\<forall>p \<in> set (s_pieces s @ [s_current s]). counted p)
     \<and> (\<forall>l \<in> set (s_pending s). first_byte l \<in> {Some (CHR ''-''), Some (CHR 0x5C)})
     \<and> tiled cuts (s_pieces s @ [s_current s])
     \<and> (s_pieces s \<noteq> [] \<longrightarrow> 0 < p_new_count (s_current s))
     \<and> s_new_next s = usize_add (p_new_first (s_current s)) (p_new_count (s_current s))
     \<and> s_old_next s = usize_add (p_old_first (s_current s))
                        (p_old_count (s_current s) + removals (s_pending s))"

lemma removal_counts:
  "\<forall>l \<in> set ls. first_byte l \<in> {Some (CHR ''-''), Some (CHR 0x5C)} \<Longrightarrow>
    old_lines ls = removals ls \<and> new_lines ls = 0"
  by (induction ls) (auto simp: old_lines_def new_lines_def removals_def)

lemma usize_add_assoc_1: "usize_add (usize_add a b) c = usize_add a (b + c)"
  by (simp add: usize_add_def mod_add_left_eq add.assoc)

lemma removals_simps [simp]:
  "removals [] = 0" "removals (xs @ ys) = removals xs + removals ys"
  by (simp_all add: removals_def)

lemma starts_with_space: "starts_with l '' '' \<longleftrightarrow> first_byte l = Some (CHR '' '')"
  by (cases l) auto

text \<open>A kept line: first the cut, then the removals waiting for it, then the line itself.\<close>

lemma keep_step_inv:
  assumes inv: "split_inv cuts seen s"
    and line: "first_byte line = Some (CHR ''+'') \<or> first_byte line = Some (CHR '' '')"
  shows "split_inv cuts (seen @ [line]) (keep_line line (absorb_pending (split_cut cuts s)))"
proof -
  have body: "is_body_line line" using line by (auto simp: is_body_line_def)
  have pend: "old_lines (s_pending s) = removals (s_pending s)" "new_lines (s_pending s) = 0"
    using inv removal_counts [of "s_pending s"] by (auto simp: split_inv_def)
  have ol: "old_lines [line] = (if first_byte line = Some (CHR '' '') then 1 else 0)"
    and nl: "new_lines [line] = 1"
    using line by (auto simp: old_lines_def new_lines_def)
  show ?thesis
  proof (cases "s_new_next s \<in> set cuts \<and> p_new_count (s_current s) > 0")
    case True
    have "s_pending s = [] \<Longrightarrow> s_old_next s = usize_add (p_old_first (s_current s)) (p_old_count (s_current s))"
      using inv by (simp add: split_inv_def)
    with True inv body pend ol nl show ?thesis
      by (auto simp: split_inv_def split_cut_def absorb_pending_def keep_line_def new_piece_def Let_def
          tiled_snoc follows_def counted_def starts_with_space usize_add_assoc_1 add.commute)
  next
    case False
    let ?q = "s_current (keep_line line (absorb_pending s))"
    have "tiled cuts (s_pieces s @ [?q]) \<longleftrightarrow> tiled cuts (s_pieces s @ [s_current s])"
      by (rule tiled_snoc_cong) (simp_all add: keep_line_def absorb_pending_def Let_def)
    with False inv body pend ol nl show ?thesis
      by (auto simp: split_inv_def split_cut_def absorb_pending_def keep_line_def Let_def
          counted_def starts_with_space usize_add_assoc_1 add.assoc)
  qed
qed

lemma split_step_inv:
  assumes inv: "split_inv cuts seen s"
  shows "split_inv cuts (seen @ [line]) (split_step cuts s line)"
proof -
  consider (minus) "first_byte line = Some (CHR ''-'')"
    | (keep) "first_byte line = Some (CHR ''+'') \<or> first_byte line = Some (CHR '' '')"
    | (mark) "first_byte line = Some (CHR 0x5C)"
    | (other) "\<not> is_body_line line"
    by (auto simp: is_body_line_def)
  then show ?thesis
  proof cases
    case minus
    then have "removals [line] = 1" "is_body_line line"
      by (auto simp: removals_def is_body_line_def)
    with minus inv show ?thesis
      by (auto simp: split_step_def split_inv_def usize_add_assoc_1)
  next
    case keep
    then have "split_step cuts s line = keep_line line (absorb_pending (split_cut cuts s))"
      by (auto simp: split_step_def)
    with keep_step_inv [OF inv keep] show ?thesis by simp
  next
    case mark
    then have *: "removals [line] = 0" "is_body_line line" "old_lines [line] = 0" "new_lines [line] = 0"
      by (auto simp: removals_def is_body_line_def old_lines_def new_lines_def)
    let ?q = "(s_current s)\<lparr>p_lines := p_lines (s_current s) @ [line]\<rparr>"
    have "tiled cuts (s_pieces s @ [?q]) \<longleftrightarrow> tiled cuts (s_pieces s @ [s_current s])"
      by (rule tiled_snoc_cong) simp_all
    with mark * inv show ?thesis
      by (auto simp: split_step_def split_inv_def counted_def)
  next
    case other
    then show ?thesis using inv
      by (auto simp: split_step_def is_body_line_def split_inv_def split: option.splits)
  qed
qed

lemma split_fold_inv:
  "split_inv cuts seen s \<Longrightarrow> split_inv cuts (seen @ ls) (foldl (split_step cuts) s ls)"
proof (induction ls arbitrary: seen s)
  case (Cons l ls)
  then show ?case using split_step_inv [of cuts seen s l] by fastforce
qed simp

lemma split_init_inv:
  assumes "r = (os, ol, ns, nl)" "os < usize_limit" "ns < usize_limit"
  shows "split_inv cuts [] (split_init r)"
  using assms
  by (auto simp: split_inv_def split_init_def new_piece_def counted_def Let_def usize_add_def)

lemma absorb_pending_facts:
  assumes inv: "split_inv cuts seen s"
  defines "t \<equiv> absorb_pending s"
  shows "concat (map p_lines (s_pieces t)) @ p_lines (s_current t) = filter is_body_line seen"
    and "\<forall>p \<in> set (s_pieces t @ [s_current t]). counted p"
    and "tiled cuts (s_pieces t @ [s_current t])"
    and "s_pieces t \<noteq> [] \<Longrightarrow> 0 < p_new_count (s_current t)"
proof -
  have pend: "old_lines (s_pending s) = removals (s_pending s)" "new_lines (s_pending s) = 0"
    using inv removal_counts [of "s_pending s"] by (auto simp: split_inv_def)
  have "tiled cuts (s_pieces s @ [s_current t]) \<longleftrightarrow> tiled cuts (s_pieces s @ [s_current s])"
    unfolding t_def by (rule tiled_snoc_cong) (simp_all add: absorb_pending_def)
  with inv show "tiled cuts (s_pieces t @ [s_current t])"
    by (simp add: split_inv_def t_def absorb_pending_def)
  from pend inv show "concat (map p_lines (s_pieces t)) @ p_lines (s_current t) = filter is_body_line seen"
    and "\<forall>p \<in> set (s_pieces t @ [s_current t]). counted p"
    and "s_pieces t \<noteq> [] \<Longrightarrow> 0 < p_new_count (s_current t)"
    by (auto simp: split_inv_def t_def absorb_pending_def counted_def)
qed

lemma tiled_new_lines:
  "tiled cuts (ps @ [q]) \<Longrightarrow> p \<in> set ps \<Longrightarrow> 0 < p_new_count p"
proof (induction ps)
  case (Cons a ps)
  then show ?case by (cases ps) (auto simp: follows_def)
qed simp

lemma split_pieces_facts:
  assumes "os < usize_limit" "ns < usize_limit"
  assumes ps_def: "ps = split_pieces cuts (os, ol, ns, nl) body"
  shows "concat (map p_lines ps) = filter is_body_line body"
    and "\<forall>p \<in> set ps. counted p"
    and "tiled cuts ps"
    and "length ps \<noteq> 1 \<Longrightarrow> \<forall>p \<in> set ps. 0 < p_new_count p"
proof -
  define s where "s = absorb_pending (foldl (split_step cuts) (split_init (os, ol, ns, nl)) body)"
  have inv: "split_inv cuts body (foldl (split_step cuts) (split_init (os, ol, ns, nl)) body)"
    using split_fold_inv [OF split_init_inv [OF refl assms(1,2)]] by simp
  note facts = absorb_pending_facts [OF inv, folded s_def]
  have ps: "ps = s_pieces s @ [s_current s]" by (simp add: ps_def split_pieces_def s_def Let_def)
  from facts show "concat (map p_lines ps) = filter is_body_line body"
    and "\<forall>p \<in> set ps. counted p" and "tiled cuts ps"
    by (simp_all add: ps)
  show "length ps \<noteq> 1 \<Longrightarrow> \<forall>p \<in> set ps. 0 < p_new_count p"
    using facts(4) tiled_new_lines [OF facts(3)] by (auto simp: ps)
qed

text \<open>The header of a piece is read back as it was written.\<close>

lemma split_on_range_header:
  "split_on (CHR '' '') (range_header a b c d) =
     [''@@'', CHR ''-'' # show_nat a @ '','' @ show_nat b,
      CHR ''+'' # show_nat c @ '','' @ show_nat d, ''@@'']"
proof -
  have "range_header a b c d = join [CHR '' '']
      [''@@'', CHR ''-'' # show_nat a @ '','' @ show_nat b,
       CHR ''+'' # show_nat c @ '','' @ show_nat d, ''@@'']"
    by (simp add: range_header_def)
  moreover have "\<not> is_digit (CHR '' '')" by (simp add: is_digit_def)
  ultimately show ?thesis
    by (simp only:) (rule split_on_join; simp add: show_nat_not_sep)
qed

lemma hunk_ranges_range_header:
  assumes "a < usize_limit" "b < usize_limit" "c < usize_limit" "d < usize_limit"
  shows "hunk_ranges (range_header a b c d) = Some (a, b, c, d)"
proof -
  have [simp]: "CHR '','' \<notin> set (show_nat n)" for n
    by (rule show_nat_not_sep) (simp add: is_digit_def)
  have sp: "split_on (CHR '','') (show_nat m @ '','' @ show_nat n) = [show_nat m, show_nat n]" for m n
    by (simp add: split_on_append split_on_no_sep del: split_on.simps)
  show ?thesis
    using assms sp
    by (simp add: hunk_ranges_def header_range_def header_token_def split_on_range_header Let_def)
qed

lemma range_header_no_NL [simp]: "NL \<notin> set (range_header a b c d)"
  by (auto simp: range_header_def show_nat_not_sep is_digit_def)

lemma join_prefixed: "x @ concat (map (\<lambda>l. NL # l) ls) = join [NL] (x # ls)"
proof (induction ls arbitrary: x)
  case (Cons l ls)
  then show ?case by (cases ls) (simp_all flip: Cons)
qed simp

lemma split_on_piece:
  assumes "\<forall>l \<in> set (p_lines p). NL \<notin> set l"
  shows "split_on NL (h_patch (piece_hunk p)) =
     hd (split_on NL (h_patch (piece_hunk p))) # p_lines p"
    and "hd (split_on NL (h_patch (piece_hunk p))) = range_header
          (if p_old_count p = 0 then usize_sub (p_old_first p) 1 else p_old_first p) (p_old_count p)
          (if p_new_count p = 0 then usize_sub (p_new_first p) 1 else p_new_first p) (p_new_count p)"
  using assms by (auto simp: piece_hunk_def Let_def join_prefixed split_on_join)

lemma parse_ranges_bound:
  assumes "hunk_ranges l = Some (a, b, c, d)"
  shows "a < usize_limit" "c < usize_limit"
  using assms
  by (auto simp: hunk_ranges_def header_range_def Let_def dest!: parse_usize_bound
      split: Option.bind_splits list.splits)

lemma old_lines_le: "old_lines ls \<le> length ls" "new_lines ls \<le> length ls"
  by (simp_all add: old_lines_def new_lines_def)

lemma length_concat_mem: "x \<in> set xs \<Longrightarrow> length x \<le> length (concat xs)"
  by (induction xs) auto

lemma piece_hunk_ranges:
  assumes "counted p" "\<forall>l \<in> set (p_lines p). NL \<notin> set l" "length (p_lines p) < usize_limit"
    and "0 < p_new_count p"
  shows "tl (split_on NL (h_patch (piece_hunk p))) = p_lines p"
    and "h_start_line (piece_hunk p) = p_new_first p"
    and "\<exists>a. hunk_ranges (hd (split_on NL (h_patch (piece_hunk p)))) =
           Some (a, old_lines (p_lines p), p_new_first p, new_lines (p_lines p))"
proof -
  have "old_lines (p_lines p) < usize_limit" "new_lines (p_lines p) < usize_limit"
    using assms(3) old_lines_le [of "p_lines p"] by linarith+
  with assms show "\<exists>a. hunk_ranges (hd (split_on NL (h_patch (piece_hunk p)))) =
           Some (a, old_lines (p_lines p), p_new_first p, new_lines (p_lines p))"
    by (auto simp: split_on_piece(2) hunk_ranges_range_header counted_def)
  show "tl (split_on NL (h_patch (piece_hunk p))) = p_lines p"
    by (subst split_on_piece(1) [OF assms(2)]) simp
  show "h_start_line (piece_hunk p) = p_new_first p"
    using assms(4) by (simp add: piece_hunk_def Let_def)
qed

lemma tiled_cuts: "tiled cuts ps \<Longrightarrow> q \<in> set (tl ps) \<Longrightarrow> p_new_first q \<in> set cuts"
  by (induction cuts ps rule: tiled.induct) (auto simp: follows_def)

lemma split_piece_lines:
  assumes "concat (map p_lines ps) = filter is_body_line (tl (split_on NL s))" and "p \<in> set ps"
  shows "\<forall>l \<in> set (p_lines p). NL \<notin> set l"
    and "length (split_on NL s) \<le> usize_limit \<Longrightarrow> length (p_lines p) < usize_limit"
proof -
  have "set (p_lines p) \<subseteq> set (filter is_body_line (tl (split_on NL s)))"
    using assms(2) by (auto simp flip: assms(1))
  then show "\<forall>l \<in> set (p_lines p). NL \<notin> set l"
    by (auto dest!: subsetD list.set_sel(2) [OF split_on_ne] split_on_pieces)
  have "length (p_lines p) \<le> length (filter is_body_line (tl (split_on NL s)))"
    using length_concat_mem [of "p_lines p" "map p_lines ps"] assms by simp
  also have "\<dots> \<le> length (tl (split_on NL s))" by (rule length_filter_le)
  also have "\<dots> < length (split_on NL s)" by simp
  finally show "length (split_on NL s) \<le> usize_limit \<Longrightarrow> length (p_lines p) < usize_limit" by simp
qed

text \<open>What the pieces of a split hunk with the given body satisfy.\<close>

definition split_of :: "nat list \<Rightarrow> string list \<Rightarrow> Hunk list \<Rightarrow> bool" where
  "split_of cuts body hs \<longleftrightarrow>
     concat (map (\<lambda>h. tl (split_on NL (h_patch h))) hs) = filter is_body_line body
     \<and> (\<forall>h \<in> set hs. h_id h = []
         \<and> (\<exists>a. hunk_ranges (hd (split_on NL (h_patch h))) =
              Some (a, old_lines (tl (split_on NL (h_patch h))), h_start_line h,
                    new_lines (tl (split_on NL (h_patch h)))))
         \<and> 0 < new_lines (tl (split_on NL (h_patch h))))
     \<and> (\<forall>h \<in> set (tl hs). h_start_line h \<in> set cuts)"

lemma split_hunk_split:
  assumes "hunk_ranges (hd (split_on NL (h_patch h))) = Some (os, ol, ns, nl)"
    and "length (split_on NL (h_patch h)) \<le> usize_limit"
  shows "split_hunk h cuts = [h]
    \<or> split_of cuts (tl (split_on NL (h_patch h))) (split_hunk h cuts)"
proof (cases "length (split_pieces cuts (os, ol, ns, nl) (tl (split_on NL (h_patch h)))) = 1")
  case True
  then show ?thesis using assms by (simp add: split_hunk_def)
next
  case False
  define body where "body = tl (split_on NL (h_patch h))"
  define ps where "ps = split_pieces cuts (os, ol, ns, nl) body"
  have eq: "split_hunk h cuts = map piece_hunk ps"
    using assms False by (simp add: split_hunk_def ps_def body_def)
  note facts = split_pieces_facts [OF parse_ranges_bound [OF assms(1)] ps_def]
  have new: "0 < p_new_count p" if "p \<in> set ps" for p
    using facts(4) that False by (simp add: ps_def body_def)
  note lines = split_piece_lines [OF facts(1) [unfolded body_def]]
  have each: "tl (split_on NL (h_patch (piece_hunk p))) = p_lines p"
      "h_start_line (piece_hunk p) = p_new_first p"
      "\<exists>a. hunk_ranges (hd (split_on NL (h_patch (piece_hunk p)))) =
           Some (a, old_lines (p_lines p), p_new_first p, new_lines (p_lines p))"
      "0 < new_lines (p_lines p)"
    if "p \<in> set ps" for p
    using piece_hunk_ranges [of p] facts(2) lines that assms(2) new by (auto simp: counted_def)
  have "map (\<lambda>h. tl (split_on NL (h_patch h))) (map piece_hunk ps) = map p_lines ps"
    using each(1) by simp
  then have "concat (map (\<lambda>h. tl (split_on NL (h_patch h))) (map piece_hunk ps)) = filter is_body_line body"
    by (simp only: facts(1))
  moreover have "h_id (piece_hunk p) = []" for p by (simp add: piece_hunk_def Let_def)
  moreover have "h_start_line h \<in> set cuts" if "h \<in> set (tl (map piece_hunk ps))" for h
  proof -
    from that obtain q where "q \<in> set (tl ps)" "h = piece_hunk q" by (auto simp flip: map_tl)
    then show ?thesis using tiled_cuts [OF facts(3)] each(2) [of q] by (cases ps) auto
  qed
  ultimately have "split_of cuts body (map piece_hunk ps)"
    using each by (auto simp: split_of_def simp del: map_map)
  then show ?thesis by (simp add: eq body_def)
qed


lemmas hunk_ranges_eval = hunk_ranges_def header_range_def header_token_def parse_eval

definition example_hunk :: Hunk where
  "example_hunk = \<lparr>h_id = ''hunk_1'', h_start_line = 10,
     h_patch = ''@@ -10,3 +10,3 @@'' @ NL # '' before'' @ NL # ''-old'' @ NL # ''+new'' @ NL # '' after''\<rparr>"


section \<open>The patch of a new file reads back as the file\<close>

definition is_block :: "string list \<Rightarrow> bool" where
  "is_block b \<longleftrightarrow> b \<noteq> [] \<and> is_header (hd b) \<and> list_all (\<lambda>l. \<not> is_header l) (tl b)"

lemma parse_step_rest:
  "list_all (\<lambda>l. \<not> is_header l) ls \<Longrightarrow>
    foldl parse_step (hs, Some c, s) ls = (hs, Some (c @ ls), s)"
  by (induction ls arbitrary: c) auto

lemma parse_step_block:
  "is_block b \<Longrightarrow> foldl parse_step (hs, c, s) b = (flush hs c s, Some b, header_start (hd b))"
  by (cases b) (auto simp: is_block_def parse_step_rest)

lemma parse_blocks_fold:
  assumes "list_all is_block bs"
  shows "\<exists>hs' c' s'. foldl parse_step (hs, c, s) (concat bs) = (hs', c', s')
    \<and> map h_patch (flush hs' c' s') = map h_patch (flush hs c s) @ map (join [NL]) bs
    \<and> map h_start_line (flush hs' c' s') = map h_start_line (flush hs c s) @ map (header_start \<circ> hd) bs"
  using assms
proof (induction bs arbitrary: hs c s)
  case (Cons b bs)
  from Cons.IH [of "flush hs c s" "Some b" "header_start (hd b)"] Cons.prems
  show ?case by (auto simp: parse_step_block) (auto simp: flush_def)
qed simp

lemma parse_hunks_blocks:
  assumes "list_all is_block bs" "bs \<noteq> []" "\<forall>l \<in> set (concat bs). NL \<notin> set l"
  shows "map h_patch (parse_hunks (join [NL] (concat bs))) = map (join [NL]) bs"
    and "map h_start_line (parse_hunks (join [NL] (concat bs))) = map (header_start \<circ> hd) bs"
proof -
  have "concat bs \<noteq> []" using assms by (cases bs) (auto simp: is_block_def)
  with assms have split: "split_on NL (join [NL] (concat bs)) = concat bs"
    by (simp add: split_on_join)
  show "map h_patch (parse_hunks (join [NL] (concat bs))) = map (join [NL]) bs"
    and "map h_start_line (parse_hunks (join [NL] (concat bs))) = map (header_start \<circ> hd) bs"
    unfolding parse_hunks_def split
    using parse_blocks_fold [OF assms(1), of "[]" None 1] by (auto simp: flush_def)
qed

lemma join_concat:
  "list_all (\<lambda>b. b \<noteq> []) bs \<Longrightarrow> join sep (map (join sep) bs) = join sep (concat bs)"
proof (induction bs)
  case (Cons b bs)
  show ?case
  proof (cases bs)
    case (Cons b' bs')
    with Cons.IH Cons.prems show ?thesis by (simp add: join_append join_Cons)
  qed simp
qed simp

text \<open>The chunks of a list, \<open>n\<close> elements each, as \<open>patch_for_new_file\<close> takes them.\<close>

definition chunk_at :: "nat \<Rightarrow> 'a list \<Rightarrow> nat \<Rightarrow> 'a list" where
  "chunk_at n xs i = drop (i * n) (take (min (length xs) (i * n + n)) xs)"

lemma concat_chunks_take: "concat (map (chunk_at n xs) [0..<k]) = take (k * n) xs"
proof (induction k)
  case (Suc k)
  have "take (k * n) xs @ chunk_at n xs k = take (k * n + n) xs"
    by (metis append_take_drop_id chunk_at_def le_add1 min.commute min_def take_all_iff take_take nat_le_linear)
  with Suc show ?case by (simp add: add.commute)
qed simp

lemma concat_chunks:
  "0 < n \<Longrightarrow> concat (map (chunk_at n xs) [0..<div_ceil (length xs) n]) = xs"
  by (simp add: concat_chunks_take div_ceil_upper)

lemma length_chunk_at: "length (chunk_at n xs i) \<le> n"
  by (simp add: chunk_at_def)

definition file_block :: "string list \<Rightarrow> nat \<Rightarrow> string list" where
  "file_block ls i = range_header 0 0 (i * 80 + 1) (length (chunk_at 80 ls i)) # map (Cons (CHR ''+'')) (chunk_at 80 ls i)"

lemma new_file_chunk_block: "new_file_chunk ls = (\<lambda>i. join [NL] (file_block ls i))"
proof (rule ext)
  fix i
  have "show_nat 0 = ''0''" by (simp add: show_nat_eval)
  then show "new_file_chunk ls i = join [NL] (file_block ls i)"
    by (simp add: new_file_chunk_def file_block_def chunk_at_def UNTRACKED_CHUNK_LINES_def Let_def
      range_header_def o_def flip: join_prefixed)
qed

lemma patch_for_new_file_blocks:
  "patch_for_new_file s = join [NL] (concat (map (file_block (split_on NL s))
     [0..<div_ceil (length (split_on NL s)) 80]))"
proof -
  have "list_all (\<lambda>b. b \<noteq> []) (map (file_block ls) [0..<n])" for ls n
    by (simp add: list_all_iff file_block_def)
  then show ?thesis
    by (simp add: patch_for_new_file_def new_file_chunk_block UNTRACKED_CHUNK_LINES_def Let_def
        o_def flip: join_concat)
qed

lemma file_block_is_block: "is_block (file_block ls i)"
  by (auto simp: is_block_def file_block_def range_header_def list_all_iff)

lemma file_block_no_NL: "l \<in> set (file_block (split_on NL s) i) \<Longrightarrow> NL \<notin> set l"
  by (auto simp: file_block_def chunk_at_def dest!: in_set_dropD in_set_takeD split_on_pieces)

text \<open>The lines a hunk adds.\<close>

definition added_lines :: "Hunk \<Rightarrow> string list" where
  "added_lines h = map tl (filter (\<lambda>l. first_byte l = Some (CHR ''+'')) (tl (split_on NL (h_patch h))))"

lemma header_start_range_header: "c < usize_limit \<Longrightarrow> header_start (range_header a b c d) = c"
  by (simp add: header_start_def header_token_def split_on_range_header split_on_append
      split_on_no_sep show_nat_not_sep is_digit_def del: split_on.simps)

lemma chunk_at_ne: "0 < n \<Longrightarrow> i < div_ceil (length xs) n \<Longrightarrow> 1 \<le> length (chunk_at n xs i)"
  using div_ceil_lower [of n i "length xs"] by (simp add: chunk_at_def)

lemma new_file_hunks:
  defines "hs s \<equiv> parse_hunks (patch_for_new_file s)"
    and "n s \<equiv> div_ceil (length (split_on NL s)) 80"
  shows "map added_lines (hs s) = map (chunk_at 80 (split_on NL s)) [0..<n s]"
    and "map h_start_line (hs s) = map (header_start \<circ> hd \<circ> file_block (split_on NL s)) [0..<n s]"
proof -
  define bs where "bs = map (file_block (split_on NL s)) [0..<n s]"
  have "0 < n s" using div_ceil_upper [of 80 "length (split_on NL s)"]
    by (cases "n s") (simp_all add: n_def)
  then have "bs \<noteq> []" by (simp add: bs_def)
  have "hs s = parse_hunks (join [NL] (concat bs))"
    by (simp add: patch_for_new_file_blocks bs_def n_def hs_def)
  with parse_hunks_blocks [of bs] \<open>bs \<noteq> []\<close>
  have patches: "map h_patch (hs s) = map (join [NL]) bs"
    and starts: "map h_start_line (hs s) = map (header_start \<circ> hd) bs"
    by (auto simp: bs_def list_all_iff file_block_is_block dest: file_block_no_NL)
  from starts show "map h_start_line (hs s) = map (header_start \<circ> hd \<circ> file_block (split_on NL s)) [0..<n s]"
    by (simp add: bs_def)
  have len: "length (hs s) = n s" using patches by (metis bs_def length_map length_upt minus_nat.diff_0)
  have "added_lines (hs s ! i) = chunk_at 80 (split_on NL s) i" if "i < n s" for i
  proof -
    have "h_patch (hs s ! i) = join [NL] (file_block (split_on NL s) i)"
      using patches that len by (metis bs_def add_0 length_map length_upt minus_nat.diff_0 nth_map nth_upt)
    then have "split_on NL (h_patch (hs s ! i)) = file_block (split_on NL s) i"
      using split_on_join [of "file_block (split_on NL s) i" NL] file_block_no_NL [of _ s i]
      by (simp add: file_block_def del: join.simps)
    then show ?thesis
      by (simp add: added_lines_def file_block_def o_def filter_map)
  qed
  then show "map added_lines (hs s) = map (chunk_at 80 (split_on NL s)) [0..<n s]"
    by (simp add: len list_eq_iff_nth_eq)
qed

text \<open>
  The patch of a new file gives the file back: the lines its hunks add, in order, are the
  lines of the source; each of its hunks adds between 1 and 80 lines and starts at the line
  number of the first of them.
\<close>

theorem patch_for_new_file_roundtrip:
  assumes "length (split_on NL s) < usize_limit"
  shows "concat (map added_lines (parse_hunks (patch_for_new_file s))) = split_on NL s
    \<and> map h_start_line (parse_hunks (patch_for_new_file s)) =
        map (\<lambda>i. 80 * i + 1) [0..<length (parse_hunks (patch_for_new_file s))]
    \<and> list_all (\<lambda>h. 1 \<le> length (added_lines h) \<and> length (added_lines h) \<le> 80)
        (parse_hunks (patch_for_new_file s))"
proof (intro conjI)
  let ?hs = "parse_hunks (patch_for_new_file s)" and ?ls = "split_on NL s"
  let ?n = "div_ceil (length ?ls) 80"
  note added = new_file_hunks(1) [of s]
  show "concat (map added_lines ?hs) = ?ls"
    by (simp add: added concat_chunks)
  have len: "length ?hs = ?n" using added by (metis length_map length_upt minus_nat.diff_0)
  have "Suc (i * 80) < usize_limit" if "i < ?n" for i
    using div_ceil_lower [OF _ that] assms by simp
  then show "map h_start_line ?hs = map (\<lambda>i. 80 * i + 1) [0..<length ?hs]"
    by (simp add: new_file_hunks(2) len file_block_def header_start_range_header mult.commute)
  have "list_all (\<lambda>c. 1 \<le> length c \<and> length c \<le> 80) (map added_lines ?hs)"
    using chunk_at_ne [of 80] by (auto simp: added list_all_iff length_chunk_at)
  then show "list_all (\<lambda>h. 1 \<le> length (added_lines h) \<and> length (added_lines h) \<le> 80) ?hs"
    by (simp add: list_all_iff)
qed

theorem patch_for_new_file_roundtrip_witness:
  "concat (map added_lines (parse_hunks (patch_for_new_file (''fn'' @ NL # ''x''))))
     = [''fn'', ''x'']"
  using patch_for_new_file_roundtrip [of "''fn'' @ NL # ''x''"] by (simp add: usize_limit_def)

section \<open>The base line of a new-file line\<close>

text \<open>
  The ranges of a patch as intervals: the first new and old line of a hunk, empty or not, and the
  net shift of a list of hunks. A patch is consistent when, outside its hunks, the two files agree:
  each hunk starts where the net shift of the hunks before it puts it, after the one before it.
\<close>

type_synonym range4 = "nat \<times> nat \<times> nat \<times> nat"

fun new_first :: "range4 \<Rightarrow> nat" where
  "new_first (os, ol, ns, nl) = (if nl = 0 then ns + 1 else ns)"

fun old_first :: "range4 \<Rightarrow> nat" where
  "old_first (os, ol, ns, nl) = (if ol = 0 then os + 1 else os)"

fun new_end :: "range4 \<Rightarrow> nat" where
  "new_end (os, ol, ns, nl) = new_first (os, ol, ns, nl) + nl"

fun old_end :: "range4 \<Rightarrow> nat" where
  "old_end (os, ol, ns, nl) = old_first (os, ol, ns, nl) + ol"

definition in_bounds :: "range4 \<Rightarrow> bool" where
  "in_bounds r \<longleftrightarrow> old_end r < 2 ^ 62 \<and> new_end r < 2 ^ 62"

fun consistent :: "nat \<Rightarrow> int \<Rightarrow> range4 list \<Rightarrow> bool" where
  "consistent lo d [] \<longleftrightarrow> True"
| "consistent lo d (r # rs) \<longleftrightarrow>
     in_bounds r \<and> lo \<le> new_first r \<and> int (old_first r) = int (new_first r) + d
     \<and> consistent (new_end r) (int (old_end r) - int (new_end r)) rs"

definition shift :: "range4 \<Rightarrow> int" where
  "shift r = (int (old_end r) - int (old_first r)) - (int (new_end r) - int (new_first r))"

definition header_ranges :: "string \<Rightarrow> range4 list" where
  "header_ranges patch = List.map_filter hunk_ranges (filter is_header (str_lines patch))"

lemma base_line_loop_ranges:
  "base_line_loop n d hs = base_line_loop n d (filter (\<lambda>h. hunk_ranges h \<noteq> None) hs)"
  by (induction hs arbitrary: d) (auto split: option.splits prod.splits)

lemma consistent_later:
  "consistent lo d rs \<Longrightarrow> n < lo \<Longrightarrow> r \<in> set rs \<Longrightarrow> n < new_first r \<and> n < new_end r"
proof (induction rs arbitrary: lo d)
  case (Cons a rs)
  obtain os ol ns nl where a: "a = (os, ol, ns, nl)" by (cases a)
  from Cons.prems have "new_first a \<le> new_end a" "lo \<le> new_first a" by (auto simp: a)
  with Cons show ?case by (cases "r = a") fastforce+
qed simp

text \<open>The loop on consistent ranges, in exact arithmetic.\<close>

lemma base_line_loop_exact:
  assumes "consistent lo d (List.map_filter hunk_ranges hs)" "n < 2 ^ 62"
    and "rs = List.map_filter hunk_ranges hs"
  shows "base_line_loop n d hs =
    (case find (\<lambda>r. new_first r \<le> n \<and> n < new_end r) rs of
       Some (os, ol, ns, nl) \<Rightarrow>
         Inl (if ol = 0 then max os 1 else min (os + (n - ns)) (os + ol - 1))
     | None \<Rightarrow> Inr (d + sum_list (map shift (filter (\<lambda>r. new_end r \<le> n) rs))))"
  using assms
proof (induction hs arbitrary: lo d rs)
  case (Cons h hs)
  show ?case
  proof (cases "hunk_ranges h")
    case None
    then have "List.map_filter hunk_ranges (h # hs) = List.map_filter hunk_ranges hs"
      by (simp add: List.map_filter_simps)
    with None Cons.IH [OF _ Cons.prems(2) refl] Cons.prems(1) show ?thesis
      unfolding Cons.prems(3) by (simp cong: option.case_cong)
  next
    case (Some r)
    obtain os ol ns nl where r: "r = (os, ol, ns, nl)" by (cases r)
    define rs' where "rs' = List.map_filter hunk_ranges hs"
    have rs: "rs = r # rs'" using Cons.prems Some by (simp add: rs'_def List.map_filter_simps)
    have c: "in_bounds r" "int (old_first r) = int (new_first r) + d"
      "consistent (new_end r) (int (old_end r) - int (new_end r)) rs'"
      using Cons.prems Some by (simp_all add: rs'_def List.map_filter_simps)
    have small: "os < 2 ^ 62" "ol < 2 ^ 62" "os + ol < 2 ^ 62" "ns + nl < 2 ^ 62" "os + 1 < 2 ^ 63" "ns + 1 < 2 ^ 63"
      using c(1) by (auto simp: in_bounds_def r split: if_splits)
    have arith: "usize_add ns nl = ns + nl" "usize_add os ol = os + ol" "usize_add os 1 = os + 1"
        "usize_add ns 1 = ns + 1" "usize_add os (Suc 0) = os + 1" "usize_add ns (Suc 0) = ns + 1"
      using small by (simp_all add: usize_add_def usize_limit_def)
    have off: "i64_wrap (i64_of_usize (old_end r) - i64_of_usize (new_end r)) = int (old_end r) - int (new_end r)"
      using c(1) by (simp add: in_bounds_def i64_of_usize_def i64_wrap_exact)
    consider (before) "n < new_first r" | (inside) "new_first r \<le> n" "n < new_end r"
      | (after) "new_end r \<le> n" by linarith
    then show ?thesis
    proof cases
      case before
      then have "\<not> new_first r \<le> n" "\<not> new_end r \<le> n" by (auto simp: r)
      moreover have later: "\<not> new_first q \<le> n \<and> \<not> new_end q \<le> n" if "q \<in> set rs'" for q
        using consistent_later [OF c(3) _ that, of n] calculation by auto
      ultimately have "find (\<lambda>r. new_first r \<le> n \<and> n < new_end r) rs = None"
        "filter (\<lambda>r. new_end r \<le> n) rs = []"
        by (auto simp: find_None_iff rs filter_empty_conv simp del: new_first.simps new_end.simps dest: later)
      moreover have "base_line_loop n d (h # hs) = Inr d"
        using before Some by (cases "nl = 0") (simp_all add: r)
      ultimately show ?thesis by simp
    next
      case inside
      then have ns: "ns \<le> n" "n < ns + nl" "nl \<noteq> 0" by (auto simp: r split: if_splits)
      have "usize_sub n ns = n - ns" "n - ns < 2 ^ 62"
        using ns Cons.prems(2) by (auto simp: usize_sub_exact usize_limit_def)
      moreover have "usize_add os (n - ns) = os + (n - ns)"
        using small calculation by (intro usize_add_exact) (simp add: usize_limit_def)
      moreover have "ol \<noteq> 0 \<Longrightarrow> usize_sub (os + ol) 1 = os + ol - 1"
        using small by (intro usize_sub_exact) (simp_all add: usize_limit_def)
      moreover have "find (\<lambda>r. new_first r \<le> n \<and> n < new_end r) rs = Some r"
        using inside by (simp add: rs)
      ultimately show ?thesis using ns Some by (simp add: r arith)
    next
      case after
      then have ge: "\<not> n < new_first r" by (cases "nl = 0") (auto simp: r)
      have "base_line_loop n d (h # hs) =
          base_line_loop n (int (old_end r) - int (new_end r)) hs"
        using Some after ge off by (auto simp: r arith)
      moreover have "int (old_end r) - int (new_end r) = d + shift r"
        using c(2) by (simp add: shift_def)
      ultimately show ?thesis
        using Cons.IH [OF c(3) [unfolded rs'_def] Cons.prems(2) refl] after
        by (simp add: rs rs'_def add.assoc split: option.splits)
    qed
  qed
qed (simp add: List.map_filter_simps)

lemma sum_shift_bound:
  assumes "consistent lo d rs" "\<bar>d\<bar> < 2 ^ 62"
  shows "\<bar>d + sum_list (map shift (filter (\<lambda>r. new_end r \<le> n) rs))\<bar> < 2 ^ 62"
  using assms
proof (induction rs arbitrary: lo d)
  case (Cons r rs)
  have eq: "int (old_end r) - int (new_end r) = d + shift r" "in_bounds r"
    "consistent (new_end r) (int (old_end r) - int (new_end r)) rs"
    using Cons.prems by (simp_all add: shift_def)
  then have small: "\<bar>d + shift r\<bar> < 2 ^ 62" by (auto simp: in_bounds_def abs_less_iff)
  show ?case
  proof (cases "new_end r \<le> n")
    case True
    with Cons.IH [OF eq(3)] eq(1) small show ?thesis by (simp add: add.assoc)
  next
    case False
    then have "filter (\<lambda>r. new_end r \<le> n) rs = []"
      using consistent_later [OF eq(3)] by (auto simp: filter_empty_conv not_le)
    with False Cons.prems show ?thesis by simp
  qed
qed simp

text \<open>
  On a consistent patch a new-file line outside every hunk maps to the line it was: shifted
  by the net lines added or removed by the hunks before it; a line inside a hunk maps to a line of
  the hunk's old range, or, when that is empty, to the line before it (at least line 1).
\<close>

theorem base_line_exact:
  assumes "consistent 0 0 (header_ranges patch)" and "0 < n" and "n < 2 ^ 62"
  shows "case find (\<lambda>r. new_first r \<le> n \<and> n < new_end r) (header_ranges patch) of
      None \<Rightarrow> int (base_line patch n) =
        max 1 (int n + sum_list (map shift (filter (\<lambda>r. new_end r \<le> n) (header_ranges patch))))
    | Some (os, ol, ns, nl) \<Rightarrow>
        base_line patch n = (if ol = 0 then max os 1 else min (os + (n - ns)) (os + ol - 1))"
proof -
  let ?sum = "sum_list (map shift (filter (\<lambda>r. new_end r \<le> n) (header_ranges patch)))"
  have bound: "\<bar>?sum\<bar> < 2 ^ 62"
    using sum_shift_bound [OF assms(1), of n] by simp
  have "usize_of_i64 (max (i64_wrap (i64_of_usize n + ?sum)) 1) = nat (max (int n + ?sum) 1)"
    using bound assms(3) by (simp add: i64_of_usize_def i64_wrap_exact usize_of_i64_exact abs_less_iff)
  moreover have "base_line patch n = (case find (\<lambda>r. new_first r \<le> n \<and> n < new_end r) (header_ranges patch) of
      Some (os, ol, ns, nl) \<Rightarrow> if ol = 0 then max os 1 else min (os + (n - ns)) (os + ol - 1)
    | None \<Rightarrow> usize_of_i64 (max (i64_wrap (i64_of_usize n + ?sum)) 1))"
    using base_line_loop_exact [OF _ assms(3) refl, of 0 0 "filter is_header (str_lines patch)",
        folded header_ranges_def, OF assms(1)]
    by (simp add: base_line_def split: option.split prod.split)
  ultimately show ?thesis by (auto simp: max.commute split: option.splits)
qed

theorem base_line_exact_witness:
  "base_line (''@@ -3,2 +2,0 @@'' @ NL # ''-x'' @ NL # ''-y'') 3 = 5"
proof -
  let ?p = "''@@ -3,2 +2,0 @@'' @ NL # ''-x'' @ NL # ''-y''"
  have "header_ranges ?p = [(3, 2, 2, 0)]"
    by (simp add: header_ranges_def str_lines_def strip_cr_def List.map_filter_simps hunk_ranges_eval)
  with base_line_exact [of ?p 3] show ?thesis
    by (simp add: in_bounds_def shift_def)
qed

end
