(* ===== verification/Feedback.thy ===== *)
theory Feedback
  imports Report
begin

unbundle bit_operations_syntax

text \<open>
  \<^verbatim>\<open>src/domain/feedback.rs\<close>: the vote log of a repository, the findings it hides, the screen
  thresholds tuned from its votes, and the fingerprint that identifies a finding across runs.
\<close>

datatype Vote = Up | Down

record FeedbackEntry =
  fe_fingerprint :: string
  fe_file :: string
  fe_line :: nat
  fe_dimension :: Dimension
  fe_mechanism :: string
  fe_probability :: f64
  fe_vote :: Vote
  fe_suppress :: bool
  fe_at :: string

record FeedbackLog =
  fl_entries :: "FeedbackEntry list"

subsection \<open>The latest vote per finding\<close>

fun latest_step ::
  "(string \<rightharpoonup> nat) \<times> FeedbackEntry list \<Rightarrow> FeedbackEntry \<Rightarrow> (string \<rightharpoonup> nat) \<times> FeedbackEntry list" where
  "latest_step (index, out) entry =
     (case index (fe_fingerprint entry) of
        Some i \<Rightarrow> (index, out[i := entry])
      | None \<Rightarrow> (index(fe_fingerprint entry \<mapsto> length out), out @ [entry]))"

definition latest :: "FeedbackLog \<Rightarrow> FeedbackEntry list" where
  "latest vlog = snd (foldl latest_step (Map.empty, []) (fl_entries vlog))"

definition suppressed :: "FeedbackLog \<Rightarrow> string set" where
  "suppressed vlog = fe_fingerprint ` set (filter fe_suppress (latest vlog))"

subsection \<open>Threshold tuning\<close>

text \<open>\<open>f64::round\<close>, half away from zero.\<close>

definition round_half_away :: "real \<Rightarrow> real" where
  "round_half_away x = (if 0 \<le> x then of_int \<lfloor>x + 1/2\<rfloor> else - of_int \<lfloor>1/2 - x\<rfloor>)"

definition round_step :: "real \<Rightarrow> real" where
  "round_step t = round_half_away (t * 100) / 100"

definition TOLERANCE :: real where
  "TOLERANCE = 1 / 1000000000"

definition precision_at :: "(f64 \<times> bool) list \<Rightarrow> real \<Rightarrow> f64 option" where
  "precision_at votes t =
     (let kept = map snd (filter (\<lambda>(p, _). Fin (t - TOLERANCE) \<le> p) votes) in
      if kept = [] then None
      else Some (f64_of_nat (length (filter (\<lambda>u. u) kept)) / f64_of_nat (length kept)))"

definition precise :: "(f64 \<times> bool) list \<Rightarrow> f64 \<Rightarrow> real \<Rightarrow> bool" where
  "precise votes target t = (case precision_at votes t of None \<Rightarrow> False | Some p \<Rightarrow> target \<le> p)"

fun fin_val :: "f64 \<Rightarrow> real" where
  "fin_val (Fin r) = r"
| "fin_val _ = 0"

lemma round_step_lower: "0 \<le> t \<Longrightarrow> t - 1 / 200 \<le> round_step t"
proof -
  assume t: "0 \<le> t"
  have "t * 100 - 1 / 2 \<le> of_int \<lfloor>t * 100 + 1 / 2\<rfloor>" by linarith
  then have "(t * 100 - 1 / 2) / 100 \<le> of_int \<lfloor>t * 100 + 1 / 2\<rfloor> / 100"
    by (rule divide_right_mono) simp
  with t show ?thesis by (simp add: round_step_def round_half_away_def diff_divide_distrib)
qed

text \<open>The loop variable is always a finite number.\<close>

function tune_loop :: "(f64 \<times> bool) list \<Rightarrow> real \<Rightarrow> real" where
  "tune_loop votes t =
     (if 0 \<le> t \<and> t < fin_val MAX_TUNED_THRESHOLD - TOLERANCE
      then let t' = round_step (t + fin_val THRESHOLD_STEP) in
           if precise votes TARGET_PRECISION t' then t' else tune_loop votes t'
      else fin_val MAX_TUNED_THRESHOLD)"
  by pat_completeness auto
termination
proof (relation "measure (\<lambda>(_, t). nat \<lceil>(1 - t) * 100\<rceil>)")
  fix votes :: "(f64 \<times> bool) list" and t t' :: real
  assume t: "0 \<le> t \<and> t < fin_val MAX_TUNED_THRESHOLD - TOLERANCE"
    and t': "t' = round_step (t + fin_val THRESHOLD_STEP)"
  from t have "t + 9 / 200 \<le> t'"
    using round_step_lower [of "t + 1 / 20"] by (simp add: t' policy_defs)
  then have "(1 - t') * 100 \<le> (1 - t) * 100 - 4" by simp
  then have "\<lceil>(1 - t') * 100\<rceil> \<le> \<lceil>(1 - t) * 100\<rceil> - 1" by linarith
  moreover have "0 < \<lceil>(1 - t) * 100\<rceil>" using t by (simp add: policy_defs TOLERANCE_def)
  ultimately show "((votes, t'), votes, t) \<in> measure (\<lambda>(_, t). nat \<lceil>(1 - t) * 100\<rceil>)" by simp
qed simp

declare tune_loop.simps [simp del]

definition tune_threshold :: "(f64 \<times> bool) list \<Rightarrow> real" where
  "tune_threshold votes =
     (if length votes < MIN_FEEDBACK_VOTES then fin_val SCREEN_THRESHOLD
      else if precise votes HIGH_PRECISION (fin_val SCREEN_THRESHOLD) then
        round_step (max (fin_val SCREEN_THRESHOLD - fin_val THRESHOLD_STEP) (fin_val MIN_TUNED_THRESHOLD))
      else if precise votes TARGET_PRECISION (fin_val SCREEN_THRESHOLD) then fin_val SCREEN_THRESHOLD
      else tune_loop votes (fin_val SCREEN_THRESHOLD))"

definition thresholds :: "FeedbackLog \<Rightarrow> Dimension \<rightharpoonup> f64" where
  "thresholds vlog = map_of (map (\<lambda>d. (d, Fin (tune_threshold
     (map (\<lambda>e. (fe_probability e, fe_vote e = Up))
       (filter (\<lambda>e. fe_dimension e = d) (latest vlog)))))) DIMENSIONS)"

subsection \<open>Fingerprints\<close>

definition evidence_words :: "string \<Rightarrow> string list" where
  "evidence_words evidence =
     concat (map split_whitespace (filter (\<lambda>l. \<not> starts_with l ''@@'') (str_lines evidence)))"

definition fnv_step :: "u64 \<Rightarrow> char \<Rightarrow> u64" where
  "fnv_step hash byte = (hash XOR word_of_nat (of_char byte)) * 0x100000001b3"

definition fnv1a :: "string \<Rightarrow> u64" where
  "fnv1a key = foldl fnv_step 0xcbf29ce484222325 key"

definition hex_digit :: "nat \<Rightarrow> char" where
  "hex_digit d = char_of (if d < 10 then 48 + d else 87 + d)"

text \<open>\<^verbatim>\<open>format!("{hash:016x}")\<close>\<close>

definition hex16 :: "u64 \<Rightarrow> string" where
  "hex16 w = map (\<lambda>i. hex_digit (unat (drop_bit (4 * (15 - i)) w) mod 16)) [0..<16]"

definition fingerprint :: "Finding \<Rightarrow> string" where
  "fingerprint finding =
     hex16 (fnv1a (f_file finding @ CHR 0x00 # dimension_key (f_dimension finding)
       @ CHR 0x00 # f_mechanism finding
       @ CHR 0x00 # join '' '' (evidence_words (f_evidence finding))))"

section \<open>The latest vote wins\<close>

definition first_seen :: "'a list \<Rightarrow> 'a list" where
  "first_seen xs = rev (remdups (rev xs))"

definition votes_on :: "string \<Rightarrow> FeedbackEntry list \<Rightarrow> FeedbackEntry list" where
  "votes_on fp entries = filter (\<lambda>e. fe_fingerprint e = fp) entries"

text \<open>The loop state after some entries: each fingerprint's place, and its last entry there.\<close>

fun latest_inv ::
  "FeedbackEntry list \<Rightarrow> (string \<rightharpoonup> nat) \<times> FeedbackEntry list \<Rightarrow> bool" where
  "latest_inv es (index, out) \<longleftrightarrow>
     map fe_fingerprint out = first_seen (map fe_fingerprint es)
     \<and> (\<forall>i < length out. out ! i = last (votes_on (fe_fingerprint (out ! i)) es))
     \<and> (\<forall>fp. case index fp of
          None \<Rightarrow> fp \<notin> set (map fe_fingerprint es)
        | Some i \<Rightarrow> i < length out \<and> fe_fingerprint (out ! i) = fp)"

lemma first_seen_snoc:
  "first_seen (xs @ [x]) = (if x \<in> set xs then first_seen xs else first_seen xs @ [x])"
  by (simp add: first_seen_def)

lemma first_seen_facts [simp]:
  "set (first_seen xs) = set xs" "distinct (first_seen xs)" "first_seen [] = []"
  by (simp_all add: first_seen_def)

lemma votes_on_snoc:
  "votes_on fp (es @ [e]) = votes_on fp es @ (if fe_fingerprint e = fp then [e] else [])"
  by (simp add: votes_on_def)

lemma map_update_same: "i < length xs \<Longrightarrow> f (xs ! i) = f y \<Longrightarrow> map f (xs[i := y]) = map f xs"
  by (metis list_update_id map_update)

lemma latest_step_inv:
  assumes inv: "latest_inv es st"
  shows "latest_inv (es @ [e]) (latest_step st e)"
proof -
  obtain index out where st: "st = (index, out)" by (cases st)
  have fps: "map fe_fingerprint out = first_seen (map fe_fingerprint es)"
    and lasts: "\<And>i. i < length out \<Longrightarrow> out ! i = last (votes_on (fe_fingerprint (out ! i)) es)"
    and idx: "\<And>fp. case index fp of None \<Rightarrow> fp \<notin> set (map fe_fingerprint es)
        | Some i \<Rightarrow> i < length out \<and> fe_fingerprint (out ! i) = fp"
    using inv by (auto simp: st)
  show ?thesis
  proof (cases "index (fe_fingerprint e)")
    case None
    then have new: "fe_fingerprint e \<notin> set (map fe_fingerprint es)"
      using idx [of "fe_fingerprint e"] by simp
    then have none: "votes_on (fe_fingerprint e) es = []" by (auto simp: votes_on_def filter_empty_conv) (metis image_eqI)
    have neq: "fe_fingerprint (out ! i) \<noteq> fe_fingerprint e" if "i < length out" for i
      using that new fps by (metis first_seen_facts(1) length_map nth_map nth_mem)
    have "(out @ [e]) ! i = last (votes_on (fe_fingerprint ((out @ [e]) ! i)) (es @ [e]))"
      if "i < length (out @ [e])" for i
    proof (cases "i < length out")
      case True
      with neq [OF True] show ?thesis
        by (simp add: nth_append votes_on_snoc flip: lasts [OF True])
    next
      case False
      with that none show ?thesis by (simp add: nth_append votes_on_snoc)
    qed
    moreover have "\<forall>fp. case (index(fe_fingerprint e \<mapsto> length out)) fp of
          None \<Rightarrow> fp \<notin> set (map fe_fingerprint (es @ [e]))
        | Some i \<Rightarrow> i < length (out @ [e]) \<and> fe_fingerprint ((out @ [e]) ! i) = fp"
    proof
      fix fp
      show "case (index(fe_fingerprint e \<mapsto> length out)) fp of
          None \<Rightarrow> fp \<notin> set (map fe_fingerprint (es @ [e]))
        | Some i \<Rightarrow> i < length (out @ [e]) \<and> fe_fingerprint ((out @ [e]) ! i) = fp"
        using idx [of fp] by (auto simp: nth_append split: option.splits)
    qed
    ultimately show ?thesis using None new fps by (simp add: st first_seen_snoc)
  next
    case (Some i)
    have i: "i < length out" "fe_fingerprint (out ! i) = fe_fingerprint e"
      using idx [of "fe_fingerprint e"] Some by simp_all
    have "distinct (map fe_fingerprint out)" by (simp add: fps)
    then have other: "fe_fingerprint (out ! j) \<noteq> fe_fingerprint e" if "j < length out" "j \<noteq> i" for j
      using that i by (metis distinct_conv_nth length_map nth_map)
    have old: "fe_fingerprint e \<in> set (map fe_fingerprint es)"
      using i fps by (metis first_seen_facts(1) length_map nth_map nth_mem)
    have "\<forall>fp. case index fp of None \<Rightarrow> fp \<notin> set (map fe_fingerprint (es @ [e]))
        | Some k \<Rightarrow> k < length (out[i := e]) \<and> fe_fingerprint (out[i := e] ! k) = fp"
    proof
      fix fp
      show "case index fp of None \<Rightarrow> fp \<notin> set (map fe_fingerprint (es @ [e]))
        | Some k \<Rightarrow> k < length (out[i := e]) \<and> fe_fingerprint (out[i := e] ! k) = fp"
        using idx [of fp] Some i by (auto simp: nth_list_update split: option.splits)
    qed
    moreover have "out[i := e] ! j = last (votes_on (fe_fingerprint (out[i := e] ! j)) (es @ [e]))"
      if "j < length out" for j
    proof (cases "j = i")
      case True
      then show ?thesis using i by (simp add: votes_on_snoc)
    next
      case False
      with other [OF that False] show ?thesis by (simp add: votes_on_snoc flip: lasts [OF that])
    qed
    ultimately show ?thesis
      using Some i old fps by (auto simp: st first_seen_snoc map_update_same)
  qed
qed

lemma latest_fold_inv: "latest_inv es st \<Longrightarrow> latest_inv (es @ fs) (foldl latest_step st fs)"
proof (induction fs arbitrary: es st)
  case (Cons f fs)
  then show ?case using latest_step_inv [of es st f] by fastforce
qed simp

lemma latest_eq:
  "latest vlog = map (\<lambda>fp. last (votes_on fp (fl_entries vlog)))
     (first_seen (map fe_fingerprint (fl_entries vlog)))"
proof -
  obtain index out where eq: "foldl latest_step (Map.empty, []) (fl_entries vlog) = (index, out)"
    by (cases "foldl latest_step (Map.empty, []) (fl_entries vlog)")
  have "latest_inv ([] @ fl_entries vlog) (foldl latest_step (Map.empty, []) (fl_entries vlog))"
    by (rule latest_fold_inv) simp
  then have inv: "map fe_fingerprint out = first_seen (map fe_fingerprint (fl_entries vlog))"
    "\<And>i. i < length out \<Longrightarrow> out ! i = last (votes_on (fe_fingerprint (out ! i)) (fl_entries vlog))"
    by (simp_all add: eq)
  have "out = map (\<lambda>fp. last (votes_on fp (fl_entries vlog))) (map fe_fingerprint out)"
    using inv(2) by (simp add: list_eq_iff_nth_eq)
  then show ?thesis by (simp add: latest_def eq inv(1))
qed

text \<open>
  The log's current votes are, for each fingerprint in the order first seen, the last entry
  recorded for it: earlier votes on the same finding are superseded.
\<close>

theorem latest_reference:
  "latest vlog = map (\<lambda>fp. last (votes_on fp (fl_entries vlog)))
     (first_seen (map fe_fingerprint (fl_entries vlog)))"
  by (rule latest_eq)

lemma votes_on_ne: "fp \<in> fe_fingerprint ` set es \<Longrightarrow> votes_on fp es \<noteq> []"
  by (auto simp: votes_on_def filter_empty_conv)

lemma fingerprint_last_vote:
  "votes_on fp es \<noteq> [] \<Longrightarrow> fe_fingerprint (last (votes_on fp es)) = fp"
  using last_in_set [of "votes_on fp es"] by (simp add: votes_on_def)

lemma suppressed_iff:
  "fp \<in> suppressed vlog \<longleftrightarrow>
     votes_on fp (fl_entries vlog) \<noteq> [] \<and> fe_suppress (last (votes_on fp (fl_entries vlog)))"
proof
  assume "fp \<in> suppressed vlog"
  then obtain fp' where "fp' \<in> fe_fingerprint ` set (fl_entries vlog)"
      "fe_suppress (last (votes_on fp' (fl_entries vlog)))"
      "fp = fe_fingerprint (last (votes_on fp' (fl_entries vlog)))"
    by (auto simp: suppressed_def latest_eq)
  then show "votes_on fp (fl_entries vlog) \<noteq> [] \<and> fe_suppress (last (votes_on fp (fl_entries vlog)))"
    by (metis fingerprint_last_vote votes_on_ne)
next
  assume r: "votes_on fp (fl_entries vlog) \<noteq> [] \<and> fe_suppress (last (votes_on fp (fl_entries vlog)))"
  then have "fp \<in> fe_fingerprint ` set (fl_entries vlog)"
    by (auto simp: votes_on_def filter_empty_conv)
  with r show "fp \<in> suppressed vlog"
    by (force simp: suppressed_def latest_eq intro!: image_eqI [where x = "last (votes_on fp (fl_entries vlog))"]
        simp: fingerprint_last_vote)
qed

text \<open>
  A vote decides alone whether its finding is hidden, whatever was voted on it before, and
  leaves every other finding as it was.
\<close>

theorem suppressed_after_vote:
  "suppressed \<lparr>fl_entries = es @ [e]\<rparr> =
     (if fe_suppress e then insert (fe_fingerprint e) (suppressed \<lparr>fl_entries = es\<rparr>)
      else suppressed \<lparr>fl_entries = es\<rparr> - {fe_fingerprint e})"
  by (rule set_eqI) (auto simp: suppressed_iff votes_on_snoc)

section \<open>Tuning searches the steps upwards\<close>

definition TUNING_STEPS :: "real list" where
  "TUNING_STEPS = [0.75, 0.8, 0.85, 0.9, 0.95]"

lemma tune_loop_step:
  "0 \<le> t \<Longrightarrow> t < 0.95 - TOLERANCE \<Longrightarrow> round_step (t + 0.05) = t' \<Longrightarrow>
    tune_loop votes t = (if precise votes (Fin 0.6) t' then t' else tune_loop votes t')"
  by (subst tune_loop.simps) (simp add: policy_defs Let_def)

lemma tune_loop_end: "0.95 - TOLERANCE \<le> t \<Longrightarrow> tune_loop votes t = 0.95"
  by (subst tune_loop.simps) (simp add: policy_defs)

lemmas round_eval = round_step_def round_half_away_def TOLERANCE_def

lemma tune_loop_search:
  "tune_loop votes 0.7 =
     (case find (precise votes (Fin 0.6)) TUNING_STEPS of None \<Rightarrow> 0.95 | Some t \<Rightarrow> t)"
proof -
  note step = tune_loop_step [of _ _ votes]
  have 1: "tune_loop votes 0.7 = (if precise votes (Fin 0.6) 0.75 then 0.75 else tune_loop votes 0.75)"
    by (rule step) (simp_all add: round_eval)
  have 2: "tune_loop votes 0.75 = (if precise votes (Fin 0.6) 0.8 then 0.8 else tune_loop votes 0.8)"
    by (rule step) (simp_all add: round_eval)
  have 3: "tune_loop votes 0.8 = (if precise votes (Fin 0.6) 0.85 then 0.85 else tune_loop votes 0.85)"
    by (rule step) (simp_all add: round_eval)
  have 4: "tune_loop votes 0.85 = (if precise votes (Fin 0.6) 0.9 then 0.9 else tune_loop votes 0.9)"
    by (rule step) (simp_all add: round_eval)
  have 5: "tune_loop votes 0.9 = (if precise votes (Fin 0.6) 0.95 then 0.95 else tune_loop votes 0.95)"
    by (rule step) (simp_all add: round_eval)
  have 6: "tune_loop votes 0.95 = 0.95"
    by (rule tune_loop_end) (simp add: TOLERANCE_def)
  show ?thesis
    unfolding TUNING_STEPS_def 1 2 3 4 5 6
    by (auto simp only: find.simps option.simps split: if_splits)
qed

text \<open>
  With at least five votes the tuned threshold is the default lowered one step when nine in
  ten of the votes above it were useful, the default when six in ten were, and otherwise the first
  step above it, in order, whose votes reach that precision, or the ceiling when none does; with
  fewer votes it is the default.
\<close>

theorem tune_threshold_reference:
  "tune_threshold votes =
     (if length votes < 5 then 0.7
      else if precise votes (Fin 0.9) 0.7 then 0.65
      else if precise votes (Fin 0.6) 0.7 then 0.7
      else case find (precise votes (Fin 0.6)) TUNING_STEPS of None \<Rightarrow> 0.95 | Some t \<Rightarrow> t)"
proof -
  have "round_step (max (0.7 - 0.05) 0.6) = 0.65"
    by (simp add: round_eval)
  then show ?thesis
    using tune_loop_search [of votes] by (simp add: tune_threshold_def policy_defs)
qed

section \<open>Fingerprints\<close>

lemma str_lines_join:
  assumes "ls \<noteq> []" "\<forall>l \<in> set ls. NL \<notin> set l"
  shows "str_lines (join [NL] ls) = map strip_cr (butlast ls) @ (if last ls = [] then [] else [last ls])"
  using assms by (simp add: str_lines_def split_on_join)

lemma hunk_header_strip_cr: "starts_with l ''@@'' \<Longrightarrow> starts_with (strip_cr l) ''@@''"
  by (auto simp: strip_cr_def prefix_def butlast_append split: if_splits)

lemma hex_digits: "map hex_digit [0..<16] = ''0123456789abcdef''"
  by (simp add: upt_rec hex_digit_def char_of_def bit_0)

lemma hex_digit_hex: "hex_digit (n mod 16) \<in> set ''0123456789abcdef''"
proof -
  have "hex_digit (n mod 16) \<in> set (map hex_digit [0..<16])" by simp
  then show ?thesis by (simp only: hex_digits)
qed

text \<open>
  A fingerprint is sixteen hexadecimal digits and survives edits elsewhere in the file: the
  finding's line, its probabilities and the diff hunk headers in its evidence do not enter it.
\<close>

theorem fingerprint_line_independent:
  assumes "ys \<noteq> []" and "\<forall>l \<in> set (xs @ h # ys). NL \<notin> set l" and "starts_with h ''@@''"
  shows "fingerprint (f\<lparr>f_line := n, f_probability := p, f_evidence := join [NL] (xs @ h # ys)\<rparr>)
      = fingerprint (f\<lparr>f_evidence := join [NL] (xs @ ys)\<rparr>)
    \<and> length (fingerprint f) = 16 \<and> set (fingerprint f) \<subseteq> set ''0123456789abcdef''"
proof (intro conjI)
  have "evidence_words (join [NL] (xs @ h # ys)) = evidence_words (join [NL] (xs @ ys))"
    using assms by (simp add: evidence_words_def str_lines_join butlast_append hunk_header_strip_cr)
  then show "fingerprint (f\<lparr>f_line := n, f_probability := p, f_evidence := join [NL] (xs @ h # ys)\<rparr>)
      = fingerprint (f\<lparr>f_evidence := join [NL] (xs @ ys)\<rparr>)"
    by (simp add: fingerprint_def)
  show "length (fingerprint f) = 16" by (simp add: fingerprint_def hex16_def)
  show "set (fingerprint f) \<subseteq> set ''0123456789abcdef''"
    using hex_digit_hex by (auto simp: fingerprint_def hex16_def simp del: list.set)
qed

theorem fingerprint_line_independent_witness:
  "fingerprint (default_finding\<lparr>f_line := 4, f_probability := Fin 1,
      f_evidence := ''@@ -1 +1 @@'' @ NL # ''+x''\<rparr>)
    = fingerprint (default_finding\<lparr>f_evidence := ''+x''\<rparr>)"
  using fingerprint_line_independent
    [where xs = "[]" and ys = "[''+x'']" and h = "''@@ -1 +1 @@''" and f = default_finding
      and n = 4 and p = "Fin 1"] by simp

end
