(* ===== verification/Budget.thy ===== *)
theory Budget
  imports Report
begin

text \<open>
  Admission of requests: \<^verbatim>\<open>src/review/budget.rs\<close>, a shared attempt counter with an optional
  ceiling, as the steps of its compare-and-swap loop interleaved between threads; and
  \<^verbatim>\<open>src/review/limiter.rs\<close>, the adaptive concurrency limiter, whose operations hold a mutex
  and so are atomic.
\<close>

section \<open>The call budget\<close>

record CallBudget =
  cb_limit :: "u64 option"
  cb_reserved :: u64
  cb_deferred :: u64

definition budget_new :: "u64 option \<Rightarrow> CallBudget" where
  "budget_new limit = \<lparr>cb_limit = limit, cb_reserved = 0, cb_deferred = 0\<rparr>"

text \<open>The closure given to \<open>fetch_update\<close>.\<close>

definition reserve_next :: "u64 option \<Rightarrow> u64 \<Rightarrow> u64 option" where
  "reserve_next limit n =
     (if (case limit of None \<Rightarrow> False | Some l \<Rightarrow> l \<le> n) then None else Some (n + 1))"

text \<open>\<open>reserve\<close> run alone.\<close>

definition reserve :: "CallBudget \<Rightarrow> unit result \<times> CallBudget" where
  "reserve b =
     (case reserve_next (cb_limit b) (cb_reserved b) of
        None \<Rightarrow> (Inl BudgetExhausted, b\<lparr>cb_deferred := cb_deferred b + 1\<rparr>)
      | Some n \<Rightarrow> (Inr (), b\<lparr>cb_reserved := n\<rparr>))"

definition budget_summary :: "CallBudget \<Rightarrow> BudgetSummary" where
  "budget_summary b =
     \<lparr>bs_limit = cb_limit b, bs_reserved = cb_reserved b, bs_deferred = cb_deferred b\<rparr>"

text \<open>
  Where a thread is in \<open>reserve\<close>: outside it, holding the value it loaded, or past a rejected
  update and about to count it. A system is a budget, its threads, and the calls begun, granted
  and rejected so far.
\<close>

datatype ReservePhase = Outside | Loaded u64 | Rejected

record BudgetSystem =
  y_budget :: CallBudget
  y_phase :: "nat \<Rightarrow> ReservePhase"
  y_calls :: nat
  y_granted :: nat
  y_rejected :: nat

definition budget_start :: "u64 option \<Rightarrow> BudgetSystem" where
  "budget_start limit = \<lparr>y_budget = budget_new limit, y_phase = (\<lambda>_. Outside),
     y_calls = 0, y_granted = 0, y_rejected = 0\<rparr>"

inductive budget_step :: "BudgetSystem \<Rightarrow> BudgetSystem \<Rightarrow> bool" where
  load: "y_phase s t = Outside \<Longrightarrow>
    budget_step s (s\<lparr>y_phase := (y_phase s)(t := Loaded (cb_reserved (y_budget s))),
                     y_calls := y_calls s + 1\<rparr>)"
| swap: "y_phase s t = Loaded n \<Longrightarrow> reserve_next (cb_limit (y_budget s)) n = Some n' \<Longrightarrow>
    cb_reserved (y_budget s) = n \<Longrightarrow>
    budget_step s (s\<lparr>y_budget := (y_budget s)\<lparr>cb_reserved := n'\<rparr>,
                     y_phase := (y_phase s)(t := Outside), y_granted := y_granted s + 1\<rparr>)"
| retry: "y_phase s t = Loaded n \<Longrightarrow> reserve_next (cb_limit (y_budget s)) n = Some n' \<Longrightarrow>
    budget_step s (s\<lparr>y_phase := (y_phase s)(t := Loaded (cb_reserved (y_budget s)))\<rparr>)"
| reject: "y_phase s t = Loaded n \<Longrightarrow> reserve_next (cb_limit (y_budget s)) n = None \<Longrightarrow>
    budget_step s (s\<lparr>y_phase := (y_phase s)(t := Rejected)\<rparr>)"
| defer_call: "y_phase s t = Rejected \<Longrightarrow>
    budget_step s (s\<lparr>y_budget := (y_budget s)\<lparr>cb_deferred := cb_deferred (y_budget s) + 1\<rparr>,
                     y_phase := (y_phase s)(t := Outside), y_rejected := y_rejected s + 1\<rparr>)"

inductive budget_reachable :: "u64 option \<Rightarrow> BudgetSystem \<Rightarrow> bool" for limit where
  start: "budget_reachable limit (budget_start limit)"
| step: "budget_reachable limit s \<Longrightarrow> budget_step s s' \<Longrightarrow> budget_reachable limit s'"

definition pending :: "BudgetSystem \<Rightarrow> nat set" where
  "pending s = {t. y_phase s t \<noteq> Outside}"

text \<open>
  The invariant under a finite ceiling: the counter is the number of grants and stays within the
  ceiling, no thread holds a value above it, a rejection means the ceiling is reached, and every
  call begun is granted, rejected or pending.
\<close>

definition budget_inv :: "u64 \<Rightarrow> BudgetSystem \<Rightarrow> bool" where
  "budget_inv l s \<longleftrightarrow>
     cb_limit (y_budget s) = Some l
     \<and> y_granted s = unat (cb_reserved (y_budget s)) \<and> cb_reserved (y_budget s) \<le> l
     \<and> cb_deferred (y_budget s) = of_nat (y_rejected s)
     \<and> (\<forall>t n. y_phase s t = Loaded n \<longrightarrow> n \<le> cb_reserved (y_budget s))
     \<and> ((\<exists>t. y_phase s t = Rejected) \<or> 0 < y_rejected s \<longrightarrow> cb_reserved (y_budget s) = l)
     \<and> finite (pending s) \<and> y_calls s = y_granted s + y_rejected s + card (pending s)"

lemma reserve_next_Some:
  "reserve_next (Some l) n = Some n' \<longleftrightarrow> n < l \<and> n' = n + 1"
  "reserve_next (Some l) n = None \<longleftrightarrow> l \<le> n"
  by (auto simp: reserve_next_def not_le)

lemma word_less_Suc: "n < (l::u64) \<Longrightarrow> n + 1 \<le> l \<and> unat (n + 1) = Suc (unat n) \<and> n \<le> n + 1"
proof -
  assume "n < l"
  then have "unat n < unat l" by (simp add: word_less_nat_alt)
  moreover have "unat l < 2 ^ 64" using unsigned_less [of l] by simp
  ultimately have "unat (n + 1) = Suc (unat n)" by (simp add: unat_word_ariths)
  with \<open>unat n < unat l\<close> show ?thesis by (simp add: word_le_nat_alt)
qed

lemma budget_inv_start: "budget_inv l (budget_start (Some l))"
  by (simp add: budget_inv_def budget_start_def budget_new_def pending_def)

lemma card_insert_new: "finite A \<Longrightarrow> t \<notin> A \<Longrightarrow> card (insert t A) = card A + 1"
  by simp

lemma card_remove: "finite A \<Longrightarrow> t \<in> A \<Longrightarrow> card A = card (A - {t}) + 1"
  by (metis Suc_eq_plus1 card_Suc_Diff1)

lemma budget_invD:
  assumes "budget_inv l s"
  shows "cb_limit (y_budget s) = Some l" "y_granted s = unat (cb_reserved (y_budget s))"
    "cb_reserved (y_budget s) \<le> l" "cb_deferred (y_budget s) = of_nat (y_rejected s)"
    "y_phase s t = Loaded n \<Longrightarrow> n \<le> cb_reserved (y_budget s)"
    "y_phase s t = Rejected \<Longrightarrow> cb_reserved (y_budget s) = l"
    "0 < y_rejected s \<Longrightarrow> cb_reserved (y_budget s) = l"
    "finite (pending s)" "y_calls s = y_granted s + y_rejected s + card (pending s)"
  using assms unfolding budget_inv_def by blast+

lemma budget_invI:
  assumes "cb_limit (y_budget s) = Some l" "y_granted s = unat (cb_reserved (y_budget s))"
    "cb_reserved (y_budget s) \<le> l" "cb_deferred (y_budget s) = of_nat (y_rejected s)"
    "\<And>t n. y_phase s t = Loaded n \<Longrightarrow> n \<le> cb_reserved (y_budget s)"
    "\<And>t. y_phase s t = Rejected \<Longrightarrow> cb_reserved (y_budget s) = l"
    "0 < y_rejected s \<Longrightarrow> cb_reserved (y_budget s) = l"
    "finite (pending s)" "y_calls s = y_granted s + y_rejected s + card (pending s)"
  shows "budget_inv l s"
  using assms unfolding budget_inv_def by blast

lemma pending_parts:
  "y_phase s' = (y_phase s)(t := p) \<Longrightarrow>
    pending s' = (if p = Outside then pending s - {t} else insert t (pending s))"
  "y_phase s t \<noteq> Outside \<Longrightarrow> t \<in> pending s" "y_phase s t = Outside \<Longrightarrow> t \<notin> pending s"
  by (auto simp: pending_def)

lemma budget_step_inv:
  assumes "budget_step s s'" and inv: "budget_inv l s"
  shows "budget_inv l s'"
  using assms(1)
proof cases
  case (load t)
  have ph: "y_phase s' = (y_phase s)(t := Loaded (cb_reserved (y_budget s)))" by (simp add: load(1))
  show ?thesis
  proof (rule budget_invI)
    show "y_calls s' = y_granted s' + y_rejected s' + card (pending s')" "finite (pending s')"
      using budget_invD(8,9) [OF inv] pending_parts(3) [OF load(2)]
      unfolding pending_parts(1) [OF ph] by (simp_all add: load(1))
    show "m \<le> cb_reserved (y_budget s')" if "y_phase s' u = Loaded m" for u m
      using that budget_invD(5) [OF inv, of u m] by (simp add: load(1) split: if_splits)
    show "cb_reserved (y_budget s') = l" if "y_phase s' u = Rejected" for u
      using that budget_invD(6) [OF inv, of u] by (simp add: load(1) split: if_splits)
  qed (use budget_invD(1,2,3,4,7) [OF inv] in \<open>simp_all add: load(1)\<close>)
next
  case (swap t n n')
  have n: "n < l" "n' = n + 1" using swap(3) budget_invD(1) [OF inv] by (simp_all add: reserve_next_Some)
  note w = word_less_Suc [OF n(1)]
  have ph: "y_phase s' = (y_phase s)(t := Outside)" by (simp add: swap(1))
  have t: "t \<in> pending s" using pending_parts(2) [of s t] swap(2) by simp
  have ne: "cb_reserved (y_budget s) \<noteq> l" using n(1) swap(4) by simp
  show ?thesis
  proof (rule budget_invI)
    show "y_calls s' = y_granted s' + y_rejected s' + card (pending s')" "finite (pending s')"
      using budget_invD(8,9) [OF inv] card_remove [OF budget_invD(8) [OF inv] t]
      unfolding pending_parts(1) [OF ph] by (simp_all add: swap(1))
    show "m \<le> cb_reserved (y_budget s')" if "y_phase s' u = Loaded m" for u m
    proof -
      have "m \<le> n" using that budget_invD(5) [OF inv, of u m] swap(4) by (simp add: swap(1) split: if_splits)
      with w have "m \<le> n + 1" by (meson order_trans)
      then show ?thesis by (simp add: swap(1) n(2))
    qed
    show "cb_reserved (y_budget s') = l" if "y_phase s' u = Rejected" for u
      using that budget_invD(6) [OF inv, of u] ne by (simp add: swap(1) split: if_splits)
    show "cb_reserved (y_budget s') = l" if "0 < y_rejected s'"
      using that budget_invD(7) [OF inv] ne by (simp add: swap(1))
    show "y_granted s' = unat (cb_reserved (y_budget s'))"
      using budget_invD(2) [OF inv] w swap(4) by (simp add: swap(1) n(2))
  qed (use budget_invD(1,4) [OF inv] w in \<open>simp_all add: swap(1) n(2)\<close>)
next
  case (retry t n n')
  have ph: "y_phase s' = (y_phase s)(t := Loaded (cb_reserved (y_budget s)))" by (simp add: retry(1))
  have t: "insert t (pending s) = pending s" using pending_parts(2) [of s t] retry(2) by auto
  show ?thesis
  proof (rule budget_invI)
    show "m \<le> cb_reserved (y_budget s')" if "y_phase s' u = Loaded m" for u m
      using that budget_invD(5) [OF inv, of u m] by (simp add: retry(1) split: if_splits)
    show "cb_reserved (y_budget s') = l" if "y_phase s' u = Rejected" for u
      using that budget_invD(6) [OF inv, of u] by (simp add: retry(1) split: if_splits)
  qed (use budget_invD(1,2,3,4,7,8,9) [OF inv] in
      \<open>simp_all add: pending_parts(1) [OF ph] t, simp_all add: retry(1)\<close>)
next
  case (reject t n)
  have "l \<le> n" using reject(3) budget_invD(1) [OF inv] by (simp add: reserve_next_Some)
  then have full: "cb_reserved (y_budget s) = l"
    using budget_invD(3) [OF inv] budget_invD(5) [OF inv reject(2)] by simp
  have ph: "y_phase s' = (y_phase s)(t := Rejected)" by (simp add: reject(1))
  have t: "insert t (pending s) = pending s" using pending_parts(2) [of s t] reject(2) by auto
  show ?thesis
  proof (rule budget_invI)
    show "m \<le> cb_reserved (y_budget s')" if "y_phase s' u = Loaded m" for u m
      using that budget_invD(5) [OF inv, of u m] by (simp add: reject(1) split: if_splits)
  qed (use budget_invD(1,2,3,4,8,9) [OF inv] full in
      \<open>simp_all add: pending_parts(1) [OF ph] t, simp_all add: reject(1)\<close>)
next
  case (defer_call t)
  have ph: "y_phase s' = (y_phase s)(t := Outside)" by (simp add: defer_call(1))
  have t: "t \<in> pending s" using pending_parts(2) [of s t] defer_call(2) by simp
  show ?thesis
  proof (rule budget_invI)
    show "y_calls s' = y_granted s' + y_rejected s' + card (pending s')" "finite (pending s')"
      using budget_invD(8,9) [OF inv] card_remove [OF budget_invD(8) [OF inv] t]
      unfolding pending_parts(1) [OF ph] by (simp_all add: defer_call(1))
    show "m \<le> cb_reserved (y_budget s')" if "y_phase s' u = Loaded m" for u m
      using that budget_invD(5) [OF inv, of u m] by (simp add: defer_call(1) split: if_splits)
  qed (use budget_invD(1,2,3,4) [OF inv] budget_invD(6) [OF inv defer_call(2)] in
      \<open>simp_all add: defer_call(1)\<close>)
qed

lemma budget_reachable_inv: "budget_reachable (Some l) s \<Longrightarrow> budget_inv l s"
  by (induction rule: budget_reachable.induct) (auto intro: budget_inv_start budget_step_inv)

text \<open>
  C6. However threads interleave their reservations, a finite ceiling is never exceeded, and the
  counters are exact: while calls are pending the reserved attempts are the calls granted so far,
  and once none is pending the granted calls are the first of all calls up to the ceiling and every
  other one was counted as deferred. In particular nothing is refused while capacity remains.
\<close>

theorem budget_exact:
  assumes "budget_reachable (Some l) s"
  shows "y_granted s = unat (cb_reserved (y_budget s)) \<and> cb_reserved (y_budget s) \<le> l
    \<and> (pending s = {} \<longrightarrow>
         y_granted s = min (y_calls s) (unat l)
         \<and> cb_deferred (y_budget s) = of_nat (y_calls s - unat l))"
proof -
  note inv = budget_reachable_inv [OF assms]
  have g: "y_granted s = unat (cb_reserved (y_budget s))" "cb_reserved (y_budget s) \<le> l"
    "y_granted s \<le> unat l"
    and d: "cb_deferred (y_budget s) = of_nat (y_rejected s)"
    and full: "0 < y_rejected s \<longrightarrow> y_granted s = unat l"
    and calls: "y_calls s = y_granted s + y_rejected s + card (pending s)"
    using inv by (simp_all add: budget_inv_def word_le_nat_alt)
  have "y_granted s = min (y_calls s) (unat l) \<and> y_rejected s = y_calls s - unat l"
    if "pending s = {}"
    using that calls full g(3) by (cases "y_rejected s = 0") simp_all
  with g d show ?thesis by simp
qed

text \<open>A run alone is one of the interleavings: load, then swap, or reject and count.\<close>

lemma reserve_run:
  assumes "budget_reachable (Some l) s" "y_phase s t = Outside"
  shows "\<exists>s'. budget_reachable (Some l) s' \<and> y_phase s' = y_phase s
    \<and> y_budget s' = snd (reserve (y_budget s)) \<and> y_calls s' = y_calls s + 1"
proof -
  let ?b = "y_budget s"
  let ?s1 = "s\<lparr>y_phase := (y_phase s)(t := Loaded (cb_reserved ?b)), y_calls := y_calls s + 1\<rparr>"
  have 1: "budget_reachable (Some l) ?s1"
    by (rule budget_reachable.step [OF assms(1) load [OF assms(2)]])
  show ?thesis
  proof (cases "reserve_next (cb_limit ?b) (cb_reserved ?b)")
    case (Some n)
    have "budget_step ?s1 (?s1\<lparr>y_budget := ?b\<lparr>cb_reserved := n\<rparr>,
        y_phase := (y_phase ?s1)(t := Outside), y_granted := y_granted s + 1\<rparr>)"
      using swap [of ?s1 t "cb_reserved ?b" n] Some by simp
    from budget_reachable.step [OF 1 this] show ?thesis using Some assms(2)
      by (intro exI conjI) (assumption, auto simp: reserve_def)
  next
    case None
    let ?s2 = "?s1\<lparr>y_phase := (y_phase ?s1)(t := Rejected)\<rparr>"
    have 2: "budget_reachable (Some l) ?s2"
      using budget_reachable.step [OF 1 reject [of ?s1 t "cb_reserved ?b"]] None by simp
    have "budget_step ?s2 (?s2\<lparr>y_budget := ?b\<lparr>cb_deferred := cb_deferred ?b + 1\<rparr>,
        y_phase := (y_phase ?s2)(t := Outside), y_rejected := y_rejected s + 1\<rparr>)"
      using defer_call [of ?s2 t] by simp
    from budget_reachable.step [OF 2 this] show ?thesis using None assms(2)
      by (intro exI conjI) (assumption, auto simp: reserve_def)
  qed
qed

theorem budget_exact_witness:
  "\<exists>s. budget_reachable (Some 1) s \<and> y_calls s = 2 \<and> y_granted s = 1 \<and> cb_deferred (y_budget s) = 1"
proof -
  have s0: "y_phase (budget_start (Some 1)) 0 = Outside" "y_calls (budget_start (Some 1)) = 0"
      "y_phase (budget_start (Some 1)) = (\<lambda>_. Outside)"
    by (simp_all add: budget_start_def)
  obtain s1 where s1: "budget_reachable (Some 1) s1" "y_phase s1 = (\<lambda>_. Outside)" "y_calls s1 = 1"
    using reserve_run [OF budget_reachable.start s0(1)] unfolding s0 by auto
  then have "y_phase s1 0 = Outside" by simp
  then obtain s2 where s2: "budget_reachable (Some 1) s2" "y_phase s2 = (\<lambda>_. Outside)" "y_calls s2 = 2"
    using reserve_run [OF s1(1), of 0] s1(2,3) by auto
  with budget_exact [OF s2(1)] show ?thesis by (auto simp: pending_def)
qed

section \<open>The adaptive limiter\<close>

text \<open>
  \<open>State\<close>; an \<open>Instant\<close> is a number of nanoseconds, and the permits not yet dropped are counted,
  because a \<open>Permit\<close> can only be dropped once.
\<close>

record Limiter =
  l_cap :: nat
  l_active :: nat
  l_limit :: nat
  l_healthy :: nat
  l_cooldown :: nat

definition limiter_new :: "nat \<Rightarrow> nat \<Rightarrow> Limiter" where
  "limiter_new cap now =
     \<lparr>l_cap = max cap 1, l_active = 0, l_limit = max 1 (min 3 cap), l_healthy = 0, l_cooldown = now\<rparr>"

text \<open>One turn of \<open>acquire\<close>: the permit, or how long to wait for it.\<close>

definition try_acquire :: "nat \<Rightarrow> Limiter \<Rightarrow> nat + Limiter" where
  "try_acquire now s =
     (if l_cooldown s \<le> now \<and> l_active s < l_limit s then Inr (s\<lparr>l_active := l_active s + 1\<rparr>)
      else Inl (l_cooldown s - now))"

definition healthy :: "Limiter \<Rightarrow> Limiter" where
  "healthy s =
     (if l_healthy s + 1 \<ge> 8 then s\<lparr>l_limit := min (l_limit s + 1) (l_cap s), l_healthy := 0\<rparr>
      else s\<lparr>l_healthy := l_healthy s + 1\<rparr>)"

definition MAX_PAUSE :: nat where
  "MAX_PAUSE = 300 * 1000000000"

definition throttled :: "nat \<Rightarrow> nat \<Rightarrow> Limiter \<Rightarrow> Limiter" where
  "throttled now pause s =
     s\<lparr>l_limit := max (l_limit s div 2) 1, l_healthy := 0,
       l_cooldown := max (l_cooldown s) (now + min pause MAX_PAUSE)\<rparr>"

definition drop_permit :: "Limiter \<Rightarrow> Limiter" where
  "drop_permit s = s\<lparr>l_active := l_active s - 1\<rparr>"

text \<open>The limiter, the clock, and the permits held by callers.\<close>

inductive limiter_step :: "Limiter \<times> nat \<times> nat \<Rightarrow> Limiter \<times> nat \<times> nat \<Rightarrow> bool" where
  tick: "limiter_step (s, now, held) (s, now + d, held)"
| acquire: "try_acquire now s = Inr s' \<Longrightarrow> limiter_step (s, now, held) (s', now, held + 1)"
| response: "limiter_step (s, now, held) (healthy s, now, held)"
| throttle: "limiter_step (s, now, held) (throttled now pause s, now, held)"
| release: "0 < held \<Longrightarrow> limiter_step (s, now, held) (drop_permit s, now, held - 1)"

inductive limiter_reachable :: "nat \<Rightarrow> Limiter \<times> nat \<times> nat \<Rightarrow> bool" for cap where
  start: "limiter_reachable cap (limiter_new cap now, now, 0)"
| step: "limiter_reachable cap c \<Longrightarrow> limiter_step c c' \<Longrightarrow> limiter_reachable cap c'"

fun limiter_inv :: "nat \<Rightarrow> Limiter \<times> nat \<times> nat \<Rightarrow> bool" where
  "limiter_inv cap (s, now, held) \<longleftrightarrow>
     l_cap s = max cap 1 \<and> 1 \<le> l_limit s \<and> l_limit s \<le> l_cap s \<and> l_healthy s < 8
     \<and> l_active s = held \<and> held \<le> l_cap s \<and> l_cooldown s \<le> now + MAX_PAUSE"

lemma limiter_step_inv: "limiter_step c c' \<Longrightarrow> limiter_inv cap c \<Longrightarrow> limiter_inv cap c'"
proof (induction rule: limiter_step.induct)
  case (acquire now s s' held)
  then show ?case by (auto simp: try_acquire_def split: if_splits)
next
  case (throttle s now held pause)
  then show ?case by (auto simp: throttled_def max_def min_def)
qed (auto simp: healthy_def drop_permit_def)

lemma limiter_reachable_inv: "limiter_reachable cap c \<Longrightarrow> limiter_inv cap c"
proof (induction rule: limiter_reachable.induct)
  case (start now)
  then show ?case by (auto simp: limiter_new_def)
qed (rule limiter_step_inv)

text \<open>
  C13. At every point of every interleaving of acquisitions, responses, throttling and releases:
  the concurrency limit is between 1 and the configured cap, at most the cap's number of permits is
  held and the counter is exactly that number (releasing never underflows it), and the shared
  cooldown lies at most five minutes ahead, so a waiting caller is never shut out for longer.
\<close>

theorem limiter_invariant:
  assumes "limiter_reachable cap (s, now, held)"
  shows "1 \<le> l_limit s \<and> l_limit s \<le> max cap 1 \<and> l_active s = held \<and> held \<le> max cap 1
    \<and> l_cooldown s \<le> now + MAX_PAUSE
    \<and> (held = 0 \<longrightarrow> (\<exists>s'. try_acquire (now + MAX_PAUSE) s = Inr s'))"
  using limiter_reachable_inv [OF assms] by (auto simp: try_acquire_def)

theorem limiter_invariant_witness:
  "l_limit (throttled 5 7 (limiter_new 4 0)) \<ge> 1"
  using limiter_invariant [of 4 "throttled 5 7 (limiter_new 4 0)" 5 0]
    limiter_reachable.step [OF limiter_reachable.step [OF limiter_reachable.start [of 4 0] tick [of _ _ _ 5]]
      throttle [of _ _ _ 7]]
  by simp

lemma healthy_run:
  "l_healthy s + k < 8 \<Longrightarrow> (healthy ^^ k) s = s\<lparr>l_healthy := l_healthy s + k\<rparr>"
  by (induction k) (auto simp: healthy_def)

lemma healthy_eight:
  "l_healthy s = 0 \<Longrightarrow> (healthy ^^ 8) s = s\<lparr>l_limit := min (l_limit s + 1) (l_cap s), l_healthy := 0\<rparr>"
proof -
  assume h: "l_healthy s = 0"
  have "(healthy ^^ 8) s = healthy ((healthy ^^ 7) s)" by (simp add: numeral_eq_Suc)
  with healthy_run [of s 7] h show ?thesis by (simp add: healthy_def)
qed

lemma healthy_eights:
  "l_healthy s = 0 \<Longrightarrow> l_limit s \<le> l_cap s \<Longrightarrow>
    (healthy ^^ (8 * k)) s = s\<lparr>l_limit := min (l_limit s + k) (l_cap s)\<rparr>"
proof (induction k arbitrary: s)
  case (Suc k)
  let ?s = "s\<lparr>l_limit := min (l_limit s + 1) (l_cap s), l_healthy := 0\<rparr>"
  have "8 * Suc k = 8 * k + 8" by simp
  then have "(healthy ^^ (8 * Suc k)) s = (healthy ^^ (8 * k)) ((healthy ^^ 8) s)"
    by (simp only: funpow_add o_apply)
  also have "\<dots> = (healthy ^^ (8 * k)) ?s" using Suc.prems by (simp add: healthy_eight)
  also have "\<dots> = ?s\<lparr>l_limit := min (l_limit ?s + k) (l_cap ?s)\<rparr>" by (rule Suc.IH) simp_all
  also have "\<dots> = s\<lparr>l_limit := min (l_limit s + Suc k) (l_cap s)\<rparr>"
    using Suc.prems by (cases s) simp
  finally show ?case .
qed (simp add: min_absorb1)

text \<open>
  After throttling, which at least halves the limit and starts the count anew, every eight
  healthy responses raise it by one, up to the cap and no further.
\<close>

theorem limiter_recovers:
  assumes "limiter_reachable cap (s, now, held)"
  shows "l_limit ((healthy ^^ (8 * k)) (throttled now pause s))
    = min (max (l_limit s div 2) 1 + k) (max cap 1)"
proof -
  have "l_limit s div 2 \<le> l_cap s" "1 \<le> l_cap s" "l_cap s = max cap 1"
    using limiter_reachable_inv [OF assms] by auto
  then show ?thesis
    using healthy_eights [of "throttled now pause s" k] by (simp add: throttled_def)
qed

theorem limiter_recovers_witness:
  "l_limit ((healthy ^^ 24) (throttled 0 9 (limiter_new 4 0))) = 4"
  using limiter_recovers [OF limiter_reachable.start [of 4 0], of 3 9]
  by (simp add: limiter_new_def)

end
