(* ===== verification/Planner.thy ===== *)
theory Planner
  imports Report
begin

text \<open>
  \<^verbatim>\<open>src/review/planner.rs\<close>: the order in which files are reviewed under a budget, the budget
  option, and the assignment of files to shards. SHA-256 (the \<open>sha2\<close> crate) is a parameter: the
  digest's bytes. The history and the output of \<open>git log\<close> are inputs.
\<close>

subsection \<open>Priorities\<close>

definition role_weight :: "string \<Rightarrow> f64" where
  "role_weight category =
     (if category = ''boundary'' \<or> category = ''entrypoint'' then Fin 6
      else if category = ''domain'' \<or> category = ''persistence'' then Fin 4 else Fin 1)"

type_synonym scores = "string \<Rightarrow> f64 option"

definition score_of :: "scores \<Rightarrow> string \<Rightarrow> f64" where
  "score_of scores path = (case scores path of None \<Rightarrow> Fin 0 | Some s \<Rightarrow> s)"

definition score_profile :: "scores \<Rightarrow> FileProfile \<Rightarrow> scores" where
  "score_profile scores p =
     scores(fp_file p \<mapsto> f64_max (score_of scores (fp_file p))
       (role_weight (fp_category p) + fp_review_priority p))"

definition score_add :: "f64 \<Rightarrow> scores \<Rightarrow> string \<Rightarrow> scores" where
  "score_add x scores path = scores(path \<mapsto> score_of scores path + x)"

definition score_report :: "scores \<Rightarrow> ReviewReport \<Rightarrow> scores" where
  "score_report scores r =
     foldl (score_add (Fin 2)) (foldl score_profile scores (r_profiles r)) (map f_file (r_findings r))"

text \<open>\<open>None\<close> where the history cannot be read, there is no scope, or \<open>git log\<close> fails.\<close>

definition file_scores :: "ReviewReport list option \<Rightarrow> string option \<Rightarrow> scores" where
  "file_scores history git_log =
     (let scores = foldl score_report Map.empty (case history of None \<Rightarrow> [] | Some rs \<Rightarrow> rs) in
      case git_log of
        None \<Rightarrow> scores
      | Some out \<Rightarrow> foldl (score_add (Fin 0.1)) scores (filter (\<lambda>p. p \<noteq> []) (str_lines out)))"

definition hot_parts :: "string list" where
  "hot_parts = [''auth'', ''security'', ''route'', ''handler'', ''main'', ''lib'']"

definition priority :: "scores \<Rightarrow> string \<Rightarrow> f64" where
  "priority scores path =
     (if list_ex (str_contains path) hot_parts then Fin 2 else Fin 0) + score_of scores path"

definition priority_cmp :: "('f \<Rightarrow> string) \<Rightarrow> scores \<Rightarrow> 'f \<Rightarrow> 'f \<Rightarrow> ordering" where
  "priority_cmp path scores a b =
     then_cmp (total_cmp (priority scores (path b)) (priority scores (path a))) (cmp (path a) (path b))"

definition prioritize ::
  "('f \<Rightarrow> string) \<Rightarrow> ReviewReport list option \<Rightarrow> string option \<Rightarrow> 'f list \<Rightarrow> 'f list" where
  "prioritize path history git_log files =
     sort_by (priority_cmp path (file_scores history git_log)) files"

interpretation priority_order: comparator "priority_cmp path scores" for path scores
  unfolding priority_cmp_def [abs_def]
  by (intro comparator_intros)

lemma priority_cmp_path:
  "priority_cmp path scores x y \<noteq> Greater \<Longrightarrow> priority_cmp path scores y x \<noteq> Greater \<Longrightarrow> path x = path y"
  by (auto simp: priority_cmp_def dest: total_le_antisym)

text \<open>
  Prioritizing reorders the files and nothing else, by descending priority and then by path;
  the resulting order does not depend on the order the files were discovered in.
\<close>

theorem prioritize_deterministic:
  assumes "distinct (map path files)" and "mset files' = mset files"
  shows "prioritize path history git_log files' = prioritize path history git_log files
    \<and> mset (prioritize path history git_log files) = mset files
    \<and> ordered_by (priority_cmp path (file_scores history git_log)) (prioritize path history git_log files)"
proof -
  have "x = y" if "x \<in> set files'" "y \<in> set files'" "path x = path y" for x y
    using that assms by (metis distinct_map inj_onD mset_eq_setD)
  note inj = this
  have "sort_by (priority_cmp path sc) files' = sort_by (priority_cmp path sc) files" for sc
  proof (rule priority_order.sort_by_perm_on [OF assms(2)])
    show "x = y" if "x \<in> set files'" "y \<in> set files'" "priority_cmp path sc x y \<noteq> Greater"
      "priority_cmp path sc y x \<noteq> Greater" for x y
      by (rule inj [OF that(1,2) priority_cmp_path [OF that(3,4)]])
  qed
  then show ?thesis
    by (simp add: prioritize_def priority_order.ordered_sort_by sort_facts)
qed

theorem prioritize_deterministic_witness:
  "prioritize (\<lambda>f. f) None None [''src/b.rs'', ''src/auth.rs'', ''src/a.rs'']
     = prioritize (\<lambda>f. f) None None [''src/a.rs'', ''src/b.rs'', ''src/auth.rs'']"
  using prioritize_deterministic
    [of "\<lambda>f. f" "[''src/a.rs'', ''src/b.rs'', ''src/auth.rs'']"
        "[''src/b.rs'', ''src/auth.rs'', ''src/a.rs'']" None None] by simp

subsection \<open>Budgets and shards\<close>

definition parse_u64 :: "string \<Rightarrow> u64 option" where
  "parse_u64 s = map_option of_nat (parse_usize s)"

definition parse_budget :: "string \<Rightarrow> string + u64" where
  "parse_budget raw =
     (case Option.bind (strip_prefix ''calls='' raw) parse_u64 of
        Some n \<Rightarrow> Inr n | None \<Rightarrow> Inl ''budget must be calls=N (N >= 0)'')"

record Shard =
  sh_number :: nat
  sh_total :: nat

definition parse_shard :: "string \<Rightarrow> string + Shard" where
  "parse_shard raw =
     (case Option.bind (split_once (CHR ''/'') raw) (\<lambda>(i, n).
             Option.bind (parse_usize i) (\<lambda>index.
               map_option (\<lambda>count. \<lparr>sh_number = index, sh_total = count\<rparr>) (parse_usize n))) of
        Some s \<Rightarrow>
          if sh_total s > 0 \<and> sh_total s \<le> 256 \<and> sh_number s > 0 \<and> sh_number s \<le> sh_total s then Inr s
          else Inl ''shard must be i/N with 1 <= i <= N <= 256''
      | None \<Rightarrow> Inl ''shard must be i/N with 1 <= i <= N <= 256'')"

text \<open>\<open>u64::from_be_bytes(digest[..8])\<close>\<close>

definition be_u64 :: "8 word list \<Rightarrow> u64" where
  "be_u64 bytes = foldl (\<lambda>h b. h * 256 + ucast b) 0 (take 8 bytes)"

definition shard_contains :: "(string \<Rightarrow> 8 word list) \<Rightarrow> Shard \<Rightarrow> string \<Rightarrow> bool" where
  "shard_contains sha256 s path \<longleftrightarrow>
     unat (be_u64 (sha256 path) mod of_nat (sh_total s)) + 1 = sh_number s"

lemma usize_limit_word: "n < usize_limit \<Longrightarrow> unat (of_nat n :: u64) = n"
  by (simp add: usize_limit_def unat_of_nat)

text \<open>A shard selector is accepted exactly when it names one of 1 to at most 256 shards.\<close>

theorem parse_shard_exact:
  "parse_shard raw = Inr s \<longleftrightarrow>
     (\<exists>i n. raw = i @ CHR ''/'' # n \<and> CHR ''/'' \<notin> set i
        \<and> parse_usize i = Some (sh_number s) \<and> parse_usize n = Some (sh_total s)
        \<and> 1 \<le> sh_number s \<and> sh_number s \<le> sh_total s \<and> sh_total s \<le> 256)"
proof
  assume "parse_shard raw = Inr s"
  then obtain i n where in_: "split_once (CHR ''/'') raw = Some (i, n)"
      "parse_usize i = Some (sh_number s)" "parse_usize n = Some (sh_total s)"
      "1 \<le> sh_number s" "sh_number s \<le> sh_total s" "sh_total s \<le> 256"
    by (auto simp: parse_shard_def bind_eq_Some_conv split: option.splits if_splits)
  with split_once_Some [OF in_(1)]
  show "\<exists>i n. raw = i @ CHR ''/'' # n \<and> CHR ''/'' \<notin> set i
        \<and> parse_usize i = Some (sh_number s) \<and> parse_usize n = Some (sh_total s)
        \<and> 1 \<le> sh_number s \<and> sh_number s \<le> sh_total s \<and> sh_total s \<le> 256"
    by blast
next
  assume "\<exists>i n. raw = i @ CHR ''/'' # n \<and> CHR ''/'' \<notin> set i
        \<and> parse_usize i = Some (sh_number s) \<and> parse_usize n = Some (sh_total s)
        \<and> 1 \<le> sh_number s \<and> sh_number s \<le> sh_total s \<and> sh_total s \<le> 256"
  then show "parse_shard raw = Inr s"
    by (auto simp: parse_shard_def)
qed

text \<open>
  The shards of a run partition its files: of the shards \<open>1/n\<close> to \<open>n/n\<close> exactly one reviews a
  given path, whatever its digest.
\<close>

theorem shards_partition:
  assumes "1 \<le> n" and "n \<le> 256"
  shows "\<exists>!s. sh_total s = n \<and> 1 \<le> sh_number s \<and> sh_number s \<le> n \<and> shard_contains sha256 s path"
proof -
  let ?k = "unat (be_u64 (sha256 path) mod of_nat n) + 1"
  have "unat (of_nat n :: u64) = n"
    using assms by (intro usize_limit_word) (simp add: usize_limit_def)
  then have "?k \<le> n" using assms by (simp add: unat_mod Suc_le_eq)
  then show ?thesis
    by (intro ex1I [of _ "\<lparr>sh_number = ?k, sh_total = n\<rparr>"]) (auto simp: shard_contains_def)
qed

theorem shards_partition_witness:
  "\<exists>!s. sh_total s = 7 \<and> 1 \<le> sh_number s \<and> sh_number s \<le> 7
     \<and> shard_contains (\<lambda>p. replicate 32 (of_nat (length p))) s ''src/a.rs''"
  by (rule shards_partition) simp_all

end
