(* ===== verification/Selection.thy ===== *)
theory Selection
  imports Planner
begin

text \<open>
  Which threshold signals are followed up: \<open>select_follow_ups\<close> of
  \<^verbatim>\<open>src/review/workflow.rs\<close> and the information-value policy of
  \<^verbatim>\<open>src/review/voi.rs\<close>. Both give every dimension with a signal a slot before they fill a
  finite cap; the interface \<open>follow_up_policy\<close> states what the workflow relies on.
\<close>

record 'f Signal =
  sg_file :: 'f
  sg_dimension :: Dimension
  sg_probability :: f64

text \<open>
  The two loops both policies share, over items with their index: the first gives each dimension
  a slot, the second fills what is left; \<open>full\<close> is the extra exit test of the first.
\<close>

type_synonym 'x picks = "(nat \<times> 'x) list"

fun dim_slots ::
  "(Dimension set \<Rightarrow> bool) \<Rightarrow> ('x \<Rightarrow> Dimension) \<Rightarrow> nat \<Rightarrow> 'x picks \<Rightarrow>
    'x picks \<times> nat set \<times> Dimension set \<Rightarrow> 'x picks \<times> nat set \<times> Dimension set" where
  "dim_slots full dm budget [] st = st"
| "dim_slots full dm budget ((i, x) # rest) (out, chosen, dims) =
     (if budget \<le> length out \<or> full dims then (out, chosen, dims)
      else if dm x \<in> dims then dim_slots full dm budget rest (out, chosen, dims)
      else dim_slots full dm budget rest (out @ [(i, x)], insert i chosen, insert (dm x) dims))"

fun fill_slots :: "nat \<Rightarrow> 'x picks \<Rightarrow> 'x picks \<times> nat set \<Rightarrow> 'x picks \<times> nat set" where
  "fill_slots budget [] st = st"
| "fill_slots budget ((i, x) # rest) (out, chosen) =
     (if budget \<le> length out then (out, chosen)
      else if i \<in> chosen then fill_slots budget rest (out, chosen)
      else fill_slots budget rest (out @ [(i, x)], insert i chosen))"

definition pick :: "(Dimension set \<Rightarrow> bool) \<Rightarrow> ('x \<Rightarrow> Dimension) \<Rightarrow> nat \<Rightarrow> 'x picks \<Rightarrow> 'x picks \<times> nat set" where
  "pick full dm budget items =
     (case dim_slots full dm budget items ([], {}, {}) of
        (out, chosen, _) \<Rightarrow> fill_slots budget items (out, chosen))"

subsection \<open>The probability policy\<close>

definition select_follow_ups :: "'f Signal list \<Rightarrow> nat option \<Rightarrow> 'f Signal list" where
  "select_follow_ups signals budget =
     (case budget of
        None \<Rightarrow> signals
      | Some n \<Rightarrow>
          map snd (fst (pick (\<lambda>dims. card dims = length DIMENSIONS) sg_dimension n
            (enumerate 0 signals))))"

subsection \<open>The information-value policy\<close>

definition impact_weight :: "Dimension \<Rightarrow> f64" where
  "impact_weight d =
     (case d of
        Security \<Rightarrow> Fin 3 | Correctness \<Rightarrow> Fin 2 | Reliability \<Rightarrow> Fin 2
      | Compatibility \<Rightarrow> Fin 1.5 | TestGap \<Rightarrow> Fin 1)"

definition voi_candidate :: "('f \<Rightarrow> string) \<Rightarrow> (Dimension \<rightharpoonup> f64) \<Rightarrow> 'f Signal \<Rightarrow> VoiCandidate" where
  "voi_candidate path thresholds signal =
     (let probability = f64_clamp (sg_probability signal) (Fin 0) (Fin 1);
          uncertainty = Fin 4 * probability * (Fin 1 - probability);
          weight = impact_weight (sg_dimension signal);
          estimated_calls = 5
      in \<lparr>vc_file = path (sg_file signal), vc_dimension = sg_dimension signal,
          vc_probability = probability,
          vc_threshold = (case thresholds (sg_dimension signal) of
             None \<Rightarrow> SCREEN_THRESHOLD | Some t \<Rightarrow> t),
          vc_impact_weight = weight, vc_uncertainty = uncertainty,
          vc_estimated_calls = estimated_calls,
          vc_score = weight * probability * (Fin 1 + uncertainty) / f64_of_nat estimated_calls,
          vc_selected = False\<rparr>)"

definition voi_cmp :: "nat \<times> VoiCandidate \<Rightarrow> nat \<times> VoiCandidate \<Rightarrow> ordering" where
  "voi_cmp a b =
     then_cmp (then_cmp (total_cmp (vc_score (snd b)) (vc_score (snd a)))
       (cmp (vc_file (snd a)) (vc_file (snd b))))
       (cmp (dimension_key (vc_dimension (snd a))) (dimension_key (vc_dimension (snd b))))"

definition voi_ranked :: "('f \<Rightarrow> string) \<Rightarrow> (Dimension \<rightharpoonup> f64) \<Rightarrow> 'f Signal list \<Rightarrow> VoiCandidate picks" where
  "voi_ranked path thresholds signals =
     sort_by voi_cmp (enumerate 0 (map (voi_candidate path thresholds) signals))"

definition voi_select ::
  "('f \<Rightarrow> string) \<Rightarrow> 'f Signal list \<Rightarrow> nat option \<Rightarrow> (Dimension \<rightharpoonup> f64) \<Rightarrow> bool \<Rightarrow>
    'f Signal list \<times> VoiSummary" where
  "voi_select path signals cap thresholds skipped_optional_profiles =
     (let candidates = voi_ranked path thresholds signals;
          limit = (case cap of None \<Rightarrow> length candidates | Some n \<Rightarrow> n);
          (picked, chosen) =
            (case cap of
               None \<Rightarrow> fill_slots limit candidates ([], {})
             | Some _ \<Rightarrow> pick (\<lambda>_. False) vc_dimension limit candidates)
      in (map (\<lambda>(i, _). signals ! i) picked,
          \<lparr>vs_candidates = map (\<lambda>(i, c). c\<lparr>vc_selected := i \<in> chosen\<rparr>) candidates,
           vs_skipped_optional_profiles = skipped_optional_profiles\<rparr>))"

subsection \<open>Threshold overrides\<close>

text \<open>\<open>parse::<f64>\<close>: an optional sign, then a word for infinity or NaN, or decimal digits with an
  optional point and exponent. The value is exact.\<close>

fun signed :: "string \<Rightarrow> bool \<times> string" where
  "signed s = (case s of
     c # r \<Rightarrow> if c = CHR ''-'' then (True, r) else if c = CHR ''+'' then (False, r) else (False, s)
   | [] \<Rightarrow> (False, s))"

definition parse_exponent :: "string \<Rightarrow> int option" where
  "parse_exponent s =
     (case s of
        [] \<Rightarrow> Some 0
      | c # r \<Rightarrow>
          let (neg, ds) = signed r in
          if (c = CHR ''e'' \<or> c = CHR ''E'') \<and> ds \<noteq> [] \<and> list_all is_digit ds
          then Some (if neg then - int (digits_val ds) else int (digits_val ds)) else None)"

definition parse_decimal :: "string \<Rightarrow> real option" where
  "parse_decimal s =
     (let whole = takeWhile is_digit s; rest = dropWhile is_digit s;
          (frac, tail) = (case rest of
             c # r \<Rightarrow> if c = CHR ''.'' then (takeWhile is_digit r, dropWhile is_digit r) else ([], rest)
           | [] \<Rightarrow> ([], []))
      in if whole = [] \<and> frac = [] then None
         else map_option (\<lambda>e. real (digits_val (whole @ frac)) / 10 ^ length frac * 10 powi e)
                (parse_exponent tail))"

definition parse_f64 :: "string \<Rightarrow> f64 option" where
  "parse_f64 s =
     (let (neg, body) = signed s; word = map to_ascii_lower body in
      if word = ''inf'' \<or> word = ''infinity'' then Some (if neg then NegInf else PosInf)
      else if word = ''nan'' then Some NaN
      else map_option (\<lambda>r. Fin (if neg then - r else r)) (parse_decimal body))"

definition parse_threshold :: "string \<Rightarrow> string + Dimension \<times> f64" where
  "parse_threshold raw =
     (case split_once (CHR ''='') raw of
        None \<Rightarrow> Inl ''threshold must be DIMENSION=P (0 <= P <= 1)''
      | Some (key, value) \<Rightarrow>
          case find (\<lambda>d. dimension_key d = key) DIMENSIONS of
            None \<Rightarrow> Inl (''unknown dimension '' @ CHR 0x27 # key @
              CHR 0x27 # ''; use correctness, security, reliability, compatibility or testGap'')
          | Some d \<Rightarrow>
              case parse_f64 value of
                None \<Rightarrow> Inl ''threshold probability must be a number from 0 to 1''
              | Some p \<Rightarrow>
                  if \<not> is_finite p \<or> \<not> in_unit p
                  then Inl ''threshold probability must be finite and from 0 to 1''
                  else Inr (d, p))"

section \<open>What the loops compute\<close>

text \<open>The first item of each dimension, in order.\<close>

fun firsts :: "('x \<Rightarrow> Dimension) \<Rightarrow> Dimension set \<Rightarrow> 'x picks \<Rightarrow> 'x picks" where
  "firsts dm dims [] = []"
| "firsts dm dims ((i, x) # rest) =
     (if dm x \<in> dims then firsts dm dims rest
      else (i, x) # firsts dm (insert (dm x) dims) rest)"

lemma firsts_subset: "set (firsts dm dims items) \<subseteq> set items"
  by (induction dm dims items rule: firsts.induct) auto

lemma firsts_subseq: "subseq (firsts dm dims items) items"
  by (induction dm dims items rule: firsts.induct) auto

lemma firsts_none: "(\<lambda>(_, x). dm x) ` set items \<subseteq> dims \<Longrightarrow> firsts dm dims items = []"
  by (induction dm dims items rule: firsts.induct) auto

lemma firsts_dims:
  "(\<lambda>(_, x). dm x) ` set (firsts dm dims items) = (\<lambda>(_, x). dm x) ` set items - dims"
  by (induction dm dims items rule: firsts.induct) auto

lemma firsts_distinct_dims: "distinct (map (\<lambda>(_, x). dm x) (firsts dm dims items))"
proof (induction dm dims items rule: firsts.induct)
  case (2 dm dims i x rest)
  then show ?case using firsts_dims [of dm "insert (dm x) dims" rest] by (auto simp: image_iff)
qed simp

text \<open>The loops are takes of simple lists, if the extra exit is only taken with nothing left.\<close>

lemma dim_slots_eq:
  assumes "\<And>dims items. full dims \<Longrightarrow> firsts dm dims items = []" and "length out \<le> budget"
  shows "\<exists>dims'. dim_slots full dm budget items (out, chosen, dims) =
    (take budget (out @ firsts dm dims items),
     chosen \<union> fst ` set (take (budget - length out) (firsts dm dims items)), dims')"
  using assms(2)
proof (induction items arbitrary: out chosen dims)
  case (Cons ix rest)
  obtain i x where ix: "ix = (i, x)" by (cases ix)
  consider (stop) "budget \<le> length out \<or> full dims" | (skip) "\<not> (budget \<le> length out \<or> full dims)" "dm x \<in> dims"
    | (take) "\<not> (budget \<le> length out \<or> full dims)" "dm x \<notin> dims" by blast
  then show ?case
  proof cases
    case stop
    with Cons.prems assms(1) [of dims "ix # rest"] show ?thesis
      by (cases "full dims") (auto simp: ix split del: if_split)
  next
    case skip
    with Cons show ?thesis by (simp add: ix)
  next
    case take
    with Cons.prems have len: "length (out @ [(i, x)]) \<le> budget" by simp
    have "budget - length out = Suc (budget - Suc (length out))" using take by (simp add: Suc_diff_Suc)
    with Cons.IH [OF len, of "insert i chosen" "insert (dm x) dims"] take show ?thesis
      by (auto simp: ix)
  qed
qed simp

lemma fill_slots_eq:
  assumes "distinct (map fst items)" and "length out \<le> budget"
  shows "fill_slots budget items (out, chosen) =
    (take budget (out @ filter (\<lambda>(i, _). i \<notin> chosen) items),
     chosen \<union> fst ` set (take (budget - length out) (filter (\<lambda>(i, _). i \<notin> chosen) items)))"
  using assms
proof (induction items arbitrary: out chosen)
  case (Cons ix rest)
  obtain i x where ix: "ix = (i, x)" by (cases ix)
  consider (stop) "budget \<le> length out" | (skip) "\<not> budget \<le> length out" "i \<in> chosen"
    | (take) "\<not> budget \<le> length out" "i \<notin> chosen" by blast
  then show ?case
  proof cases
    case take
    have same: "filter (\<lambda>(j, _). j \<noteq> i \<and> j \<notin> chosen) rest = filter (\<lambda>(j, _). j \<notin> chosen) rest"
      using Cons.prems by (intro filter_cong) (auto simp: ix image_iff)
    have "budget - length out = Suc (budget - Suc (length out))" using take by (simp add: Suc_diff_Suc)
    with Cons.IH [of "out @ [(i, x)]" "insert i chosen"] take Cons.prems show ?thesis
      by (simp add: ix same)
  qed (use Cons in \<open>auto simp: ix\<close>)
qed simp

definition dim_exit :: "(Dimension set \<Rightarrow> bool) \<Rightarrow> ('x \<Rightarrow> Dimension) \<Rightarrow> bool" where
  "dim_exit full dm \<longleftrightarrow> (\<forall>dims items. full dims \<longrightarrow> firsts dm dims items = [])"

definition slot_order :: "('x \<Rightarrow> Dimension) \<Rightarrow> nat \<Rightarrow> 'x picks \<Rightarrow> 'x picks" where
  "slot_order dm budget items =
     (let f = take budget (firsts dm {} items) in f @ filter (\<lambda>(i, _). i \<notin> fst ` set f) items)"

lemma pick_eq:
  assumes "dim_exit full dm" and "distinct (map fst items)"
  shows "pick full dm budget items =
    (take budget (slot_order dm budget items), fst ` set (take budget (slot_order dm budget items)))"
proof -
  let ?f = "take budget (firsts dm {} items)"
  obtain dims' where "dim_slots full dm budget items ([], {}, {}) = (?f, fst ` set ?f, dims')"
    using dim_slots_eq [of full dm "[]" budget items "{}" "{}"] assms(1) by (auto simp: dim_exit_def)
  then show ?thesis
    using fill_slots_eq [OF assms(2), of ?f budget "fst ` set ?f"]
    by (simp add: pick_def slot_order_def Let_def image_Un min_def)
qed

text \<open>Taking \<open>budget\<close> items in slot order keeps as many as it can, each once, and every dimension.\<close>

lemma slot_order_mset:
  assumes "distinct (map fst items)"
  shows "mset (slot_order dm budget items) = mset items"
proof -
  let ?f = "take budget (firsts dm {} items)"
  have dist: "distinct items" using assms by (simp add: distinct_map)
  have "set ?f \<subseteq> set items" using firsts_subset [of dm "{}" items] by (auto dest!: in_set_takeD)
  moreover have "distinct ?f"
    using firsts_distinct_dims [of dm "{}" items] by (simp add: distinct_map)
  ultimately have "mset ?f = mset (filter (\<lambda>x. x \<in> set ?f) items)"
    using dist by (intro set_eq_iff_mset_eq_distinct [THEN iffD1]) auto
  moreover have "filter (\<lambda>(i, _). i \<notin> fst ` set ?f) items = filter (\<lambda>x. x \<notin> set ?f) items"
  proof (rule filter_cong [OF refl])
    fix x assume x: "x \<in> set items"
    have "inj_on fst (set items)" using assms by (simp add: distinct_map)
    then have "fst x \<in> fst ` set ?f \<longleftrightarrow> x \<in> set ?f"
      by (rule inj_on_image_mem_iff) (use x \<open>set ?f \<subseteq> set items\<close> in auto)
    then show "(case x of (i, _) \<Rightarrow> i \<notin> fst ` set ?f) = (x \<notin> set ?f)"
      by (simp only: case_prod_beta')
  qed
  moreover have "mset (filter (\<lambda>x. x \<in> set ?f) items) + mset (filter (\<lambda>x. x \<notin> set ?f) items) = mset items"
    using multiset_partition [of "mset items" "\<lambda>x. x \<in> set ?f"] by simp
  ultimately show ?thesis by (simp only: slot_order_def Let_def mset_append)
qed

lemma slot_order_dims:
  assumes "card ((\<lambda>(_, x). dm x) ` set items) \<le> budget"
  shows "(\<lambda>(_, x). dm x) ` set (take budget (slot_order dm budget items)) = (\<lambda>(_, x). dm x) ` set items"
proof -
  let ?d = "\<lambda>(_, x). dm x"
  have "length (firsts dm {} items) = card (?d ` set (firsts dm {} items))"
    using distinct_card [OF firsts_distinct_dims [of dm "{}" items]] by simp
  also have "\<dots> \<le> budget" using assms firsts_dims [of dm "{}" items] by simp
  finally have le: "length (firsts dm {} items) \<le> budget" .
  then have f: "take budget (firsts dm {} items) = firsts dm {} items" by simp
  with le
  have "set (firsts dm {} items) \<subseteq> set (take budget (slot_order dm budget items))"
    by (simp add: slot_order_def Let_def)
  moreover have "set (take budget (slot_order dm budget items)) \<subseteq> set items"
    using firsts_subset [of dm "{}" items] by (auto simp: slot_order_def Let_def f dest!: in_set_takeD)
  moreover have "?d ` set (firsts dm {} items) = ?d ` set items"
    using firsts_dims [of dm "{}" items] by simp
  ultimately show ?thesis by (intro subset_antisym) (simp add: image_mono, metis image_mono)
qed

section \<open>The interface of a follow-up policy\<close>

locale follow_up_policy =
  fixes sel :: "'s list \<Rightarrow> nat option \<Rightarrow> 's list" and dm :: "'s \<Rightarrow> Dimension"
  assumes unlimited: "mset (sel xs None) = mset xs"
    and part: "mset (sel xs (Some n)) \<subseteq># mset xs"
    and size: "length (sel xs (Some n)) = min n (length xs)"
    and coverage: "card (dm ` set xs) \<le> n \<Longrightarrow> dm ` set (sel xs (Some n)) = dm ` set xs"
begin

lemma subset: "mset (sel xs cap) \<subseteq># mset xs"
  by (cases cap) (simp_all add: unlimited part)

lemma length_le: "length (sel xs cap) \<le> length xs"
  using size_mset_mono [OF subset] by simp

text \<open>The report of the workflow is marked partial exactly when a cap left a signal out.\<close>

lemma fewer_iff: "length (sel xs cap) < length xs \<longleftrightarrow> (\<exists>n. cap = Some n \<and> n < length xs)"
proof (cases cap)
  case None
  then show ?thesis using arg_cong [OF unlimited [of xs], of size] by simp
qed (auto simp: size)

lemma every_dimension:
  "case cap of None \<Rightarrow> True | Some n \<Rightarrow> card (dm ` set xs) \<le> n \<Longrightarrow> dm ` set (sel xs cap) = dm ` set xs"
proof (cases cap)
  case None
  then show ?thesis using mset_eq_setD [OF unlimited [of xs]] by simp
qed (simp add: coverage)

lemma fair:
  "mset (sel xs cap) \<subseteq># mset xs
   \<and> length (sel xs cap) = (case cap of None \<Rightarrow> length xs | Some n \<Rightarrow> min n (length xs))
   \<and> (case cap of
        None \<Rightarrow> dm ` set (sel xs cap) = dm ` set xs
      | Some n \<Rightarrow> n < card (dm ` set xs) \<or> dm ` set (sel xs cap) = dm ` set xs)"
proof (cases cap)
  case None
  have "length (sel xs None) = length xs" using unlimited by (metis size_mset)
  with None show ?thesis
    using mset_eq_setD [OF unlimited [of xs]] by (simp add: unlimited)
next
  case (Some n)
  then show ?thesis
    using coverage [of xs n] by (cases "card (dm ` set xs) \<le> n") (simp_all add: part size)
qed

end

section \<open>Both policies provide it\<close>

lemma firsts_all_dims: "dims = UNIV \<Longrightarrow> firsts dm dims items = []"
  by (rule firsts_none) simp

lemma Dimension_count: "card (UNIV :: Dimension set) = length DIMENSIONS"
proof -
  have "UNIV = set DIMENSIONS" by (auto simp: DIMENSIONS_def intro: Dimension.exhaust)
  moreover have "distinct DIMENSIONS" by (simp add: DIMENSIONS_def)
  ultimately show ?thesis by (metis distinct_card)
qed

lemma dim_exit_card: "dim_exit (\<lambda>dims. card dims = length DIMENSIONS) dm"
proof -
  have "finite (UNIV :: Dimension set)"
    by (metis Dimension_count DIMENSIONS_def card.infinite length_Cons nat.distinct(1))
  then have "dims = UNIV" if "card dims = length DIMENSIONS" for dims :: "Dimension set"
    using that by (simp add: card_eq_UNIV_imp_eq_UNIV Dimension_count)
  then show ?thesis by (simp add: dim_exit_def firsts_all_dims)
qed

lemma dim_exit_False: "dim_exit (\<lambda>_. False) dm"
  by (simp add: dim_exit_def)

text \<open>What one pick from indexed items has, and passing from indices back to the signals.\<close>

lemma pick_facts:
  assumes "dim_exit full dm" "distinct (map fst items)"
    and out_def: "out = fst (pick full dm n items)"
  shows "mset out \<subseteq># mset items" "length out = min n (length items)"
    "snd (pick full dm n items) = fst ` set out"
    "card ((\<lambda>(_, x). dm x) ` set items) \<le> n \<Longrightarrow>
      (\<lambda>(_, x). dm x) ` set out = (\<lambda>(_, x). dm x) ` set items"
proof -
  have out: "out = take n (slot_order dm n items)"
    by (simp add: out_def pick_eq [OF assms(1,2)])
  have "length (slot_order dm n items) = length items"
    using slot_order_mset [OF assms(2), of dm n] by (metis size_mset)
  then show "length out = min n (length items)" by (simp add: out min.commute)
  show "mset out \<subseteq># mset items"
    using slot_order_mset [OF assms(2), of dm n] unfolding out
    by (metis append_take_drop_id mset_append mset_subset_eq_add_left)
  show "snd (pick full dm n items) = fst ` set out"
    by (simp add: out pick_eq [OF assms(1,2)])
  show "card ((\<lambda>(_, x). dm x) ` set items) \<le> n \<Longrightarrow>
      (\<lambda>(_, x). dm x) ` set out = (\<lambda>(_, x). dm x) ` set items"
    unfolding out by (rule slot_order_dims)
qed

lemma enumerate_facts:
  "map snd (enumerate k xs) = xs" "distinct (map fst (enumerate k xs))"
  "(\<lambda>(_, x). f x) ` set (enumerate k xs) = f ` set xs"
proof -
  show "map snd (enumerate k xs) = xs" "distinct (map fst (enumerate k xs))"
    by (simp_all add: enumerate_eq_zip)
  then show "(\<lambda>(_, x). f x) ` set (enumerate k xs) = f ` set xs"
    by (metis (no_types, lifting) case_prod_beta' image_cong image_image list.set_map)
qed

interpretation probability: follow_up_policy select_follow_ups sg_dimension
proof
  fix xs :: "'f Signal list" and n
  let ?items = "enumerate 0 xs"
  let ?out = "fst (pick (\<lambda>dims. card dims = length DIMENSIONS) sg_dimension n ?items)"
  note facts = pick_facts [OF dim_exit_card enumerate_facts(2) refl]
  have sel: "select_follow_ups xs (Some n) = map snd ?out" by (simp add: select_follow_ups_def)
  show "mset (select_follow_ups xs None) = mset xs" by (simp add: select_follow_ups_def)
  show "mset (select_follow_ups xs (Some n)) \<subseteq># mset xs"
    using image_mset_subseteq_mono [OF facts(1), of snd] by (simp add: sel enumerate_facts flip: mset_map)
  show "length (select_follow_ups xs (Some n)) = min n (length xs)"
    using facts(2) by (simp add: sel)
  assume "card (sg_dimension ` set xs) \<le> n"
  then have "(\<lambda>(_, x). sg_dimension x) ` set ?out = sg_dimension ` set xs"
    using facts(4) by (simp add: enumerate_facts)
  then show "sg_dimension ` set (select_follow_ups xs (Some n)) = sg_dimension ` set xs"
    by (simp add: sel image_image case_prod_beta')
qed

interpretation voi_order: comparator voi_cmp
  unfolding voi_cmp_def [abs_def]
  by (intro comparator_intros)

lemma voi_ranked_mset:
  "mset (voi_ranked path thresholds xs) = mset (enumerate 0 (map (voi_candidate path thresholds) xs))"
  by (simp add: voi_ranked_def sort_facts)

lemma voi_ranked_distinct: "distinct (map fst (voi_ranked path thresholds xs))"
  using arg_cong [OF voi_ranked_mset [of path thresholds xs], of "image_mset fst"] enumerate_facts(2)
  by (metis mset_eq_imp_distinct_iff mset_map)

lemma voi_ranked_nth:
  "(i, c) \<in> set (voi_ranked path thresholds xs) \<longleftrightarrow> i < length xs \<and> c = voi_candidate path thresholds (xs ! i)"
  by (auto simp: voi_ranked_def sort_facts in_set_enumerate_eq)

lemma voi_ranked_signals:
  "mset (map (\<lambda>(i, _). xs ! i) (voi_ranked path thresholds xs)) = mset xs"
proof -
  have "map (\<lambda>(i, _). xs ! i) (enumerate 0 (map (voi_candidate path thresholds) xs)) = xs"
    by (rule nth_equalityI) (simp_all add: nth_enumerate_eq)
  then show ?thesis
    using arg_cong [OF voi_ranked_mset [of path thresholds xs], of "image_mset (\<lambda>(i, _). xs ! i)"]
    by (simp flip: mset_map)
qed

text \<open>What \<open>voi_select\<close> picks, in either mode.\<close>

definition voi_picked ::
  "('f \<Rightarrow> string) \<Rightarrow> (Dimension \<rightharpoonup> f64) \<Rightarrow> 'f Signal list \<Rightarrow> nat option \<Rightarrow> VoiCandidate picks" where
  "voi_picked path thresholds xs cap =
     (case cap of
        None \<Rightarrow> voi_ranked path thresholds xs
      | Some n \<Rightarrow> fst (pick (\<lambda>_. False) vc_dimension n (voi_ranked path thresholds xs)))"

lemma voi_select_picked:
  "fst (voi_select path xs cap thresholds skip) =
     map (\<lambda>(i, _). xs ! i) (voi_picked path thresholds xs cap)"
  "vs_candidates (snd (voi_select path xs cap thresholds skip)) =
     map (\<lambda>(i, c). c\<lparr>vc_selected := i \<in> fst ` set (voi_picked path thresholds xs cap)\<rparr>)
       (voi_ranked path thresholds xs)"
proof -
  note facts = pick_facts(3) [OF dim_exit_False voi_ranked_distinct refl, of vc_dimension _ path thresholds xs]
  have all: "fill_slots (length (voi_ranked path thresholds xs)) (voi_ranked path thresholds xs) ([], {}) =
      (voi_ranked path thresholds xs, fst ` set (voi_ranked path thresholds xs))"
    using fill_slots_eq [OF voi_ranked_distinct, of "[]" _ path thresholds xs "{}"] by simp
  show "fst (voi_select path xs cap thresholds skip) =
     map (\<lambda>(i, _). xs ! i) (voi_picked path thresholds xs cap)"
    "vs_candidates (snd (voi_select path xs cap thresholds skip)) =
     map (\<lambda>(i, c). c\<lparr>vc_selected := i \<in> fst ` set (voi_picked path thresholds xs cap)\<rparr>)
       (voi_ranked path thresholds xs)"
    using facts
    by (simp_all add: voi_select_def voi_picked_def all Let_def split: option.splits prod.splits)
      (metis prod.collapse snd_conv fst_conv)+
qed

interpretation voi: follow_up_policy
  "\<lambda>xs cap. fst (voi_select path xs cap thresholds skip)" sg_dimension
  for path :: "'f \<Rightarrow> string" and thresholds skip
proof
  fix xs :: "'f Signal list" and n
  let ?ranked = "voi_ranked path thresholds xs" and ?out = "voi_picked path thresholds xs (Some n)"
  have dims: "(\<lambda>(_, c). vc_dimension c) ` A = (\<lambda>(i, _). sg_dimension (xs ! i)) ` A"
    if "A \<subseteq> set ?ranked" for A
    using that by (intro image_cong) (auto simp: voi_ranked_nth voi_candidate_def Let_def)
  have all: "(\<lambda>(i, _). sg_dimension (xs ! i)) ` set ?ranked = sg_dimension ` set xs"
    using arg_cong [OF mset_eq_setD [OF voi_ranked_signals [of xs path thresholds]], of "image sg_dimension"]
    by (simp add: image_image case_prod_beta')
  show "mset (fst (voi_select path xs None thresholds skip)) = mset xs"
    unfolding voi_select_picked voi_picked_def option.case by (rule voi_ranked_signals)
  show "mset (fst (voi_select path xs (Some n) thresholds skip)) \<subseteq># mset xs"
    using image_mset_subseteq_mono [OF pick_facts(1) [OF dim_exit_False voi_ranked_distinct refl],
        of "\<lambda>(i, _). xs ! i" vc_dimension n path thresholds xs]
    unfolding voi_select_picked voi_picked_def option.case
    by (simp only: mset_map [symmetric] voi_ranked_signals)
  have "length ?ranked = length xs" by (simp add: voi_ranked_def sort_facts)
  then show "length (fst (voi_select path xs (Some n) thresholds skip)) = min n (length xs)"
    using pick_facts(2) [OF dim_exit_False voi_ranked_distinct refl, of vc_dimension n path thresholds xs]
    by (simp add: voi_select_picked voi_picked_def)
  assume "card (sg_dimension ` set xs) \<le> n"
  then have cover: "(\<lambda>(_, c). vc_dimension c) ` set ?out = (\<lambda>(_, c). vc_dimension c) ` set ?ranked"
    using pick_facts(4) [OF dim_exit_False voi_ranked_distinct refl, of vc_dimension path thresholds xs n]
    by (simp add: voi_picked_def dims all)
  have sub: "set ?out \<subseteq> set ?ranked"
    using pick_facts(1) [OF dim_exit_False voi_ranked_distinct refl, of vc_dimension n path thresholds xs]
    by (simp add: voi_picked_def set_mset_mono flip: set_mset_mset)
  have "sg_dimension ` set (fst (voi_select path xs (Some n) thresholds skip)) =
      (\<lambda>(i, _). sg_dimension (xs ! i)) ` set ?out"
    by (simp add: voi_select_picked image_image case_prod_beta')
  also have "\<dots> = sg_dimension ` set xs"
    using cover dims [OF sub] dims [OF subset_refl] all by simp
  finally show "sg_dimension ` set (fst (voi_select path xs (Some n) thresholds skip)) = sg_dimension ` set xs" .
qed


text \<open>
  The information-value policy keeps the same promises as the probability policy, whatever the
  thresholds it records: no signal is invented or repeated, a cap is used up exactly, and every
  dimension with a signal is followed when the cap allows.
\<close>

theorem voi_select_fair:
  "mset (fst (voi_select path xs cap thresholds skip)) \<subseteq># mset xs
   \<and> length (fst (voi_select path xs cap thresholds skip)) =
       (case cap of None \<Rightarrow> length xs | Some n \<Rightarrow> min n (length xs))
   \<and> (case cap of
        None \<Rightarrow> sg_dimension ` set (fst (voi_select path xs cap thresholds skip)) = sg_dimension ` set xs
      | Some n \<Rightarrow> n < card (sg_dimension ` set xs)
          \<or> sg_dimension ` set (fst (voi_select path xs cap thresholds skip)) = sg_dimension ` set xs)"
  by (rule voi.fair)

lemma voi_picked_part:
  "mset (voi_picked path thresholds xs cap) \<subseteq># mset (voi_ranked path thresholds xs)"
  using pick_facts(1) [OF dim_exit_False voi_ranked_distinct refl, of vc_dimension _ path thresholds xs]
  by (simp add: voi_picked_def split: option.splits)

lemma sub_filter_mset:
  assumes "mset xs \<subseteq># mset ys" "distinct (map fst ys)"
  shows "length (filter (\<lambda>(i, _). i \<in> fst ` set xs) ys) = length xs"
proof -
  obtain zs where zs: "mset zs = mset ys - mset xs" using ex_mset by blast
  then have eq: "mset ys = mset (xs @ zs)" using assms(1) by (simp add: subset_mset.add_diff_inverse)
  then have "mset (map fst ys) = mset (map fst (xs @ zs))" by (simp only: mset_map)
  then have dist: "distinct (map fst (xs @ zs))" using assms(2) mset_eq_imp_distinct_iff by blast
  have "length (filter (\<lambda>(i, _). i \<in> fst ` set xs) ys) = length (filter (\<lambda>(i, _). i \<in> fst ` set xs) (xs @ zs))"
    by (metis eq mset_filter size_mset)
  also have "\<dots> = length xs"
  proof -
    have "filter (\<lambda>(i, _). i \<in> fst ` set xs) zs = []"
      using dist by (auto simp: filter_empty_conv) (metis IntI empty_iff fst_conv image_eqI)
    moreover have "filter (\<lambda>(i, _). i \<in> fst ` set xs) xs = xs"
      by (rule filter_True) (auto intro: rev_image_eqI)
    ultimately show ?thesis by simp
  qed
  finally show ?thesis .
qed

text \<open>
  The recorded plan is auditable: it has one candidate for each signal, in descending order of
  score, and marks as selected exactly as many candidates as signals are followed.
\<close>

theorem voi_plan_audit:
  "mset (map (\<lambda>c. (vc_file c, vc_dimension c)) (vs_candidates (snd (voi_select path xs cap thresholds skip))))
     = mset (map (\<lambda>s. (path (sg_file s), sg_dimension s)) xs)
   \<and> sorted_wrt (\<lambda>a b. total_le (vc_score b) (vc_score a))
       (vs_candidates (snd (voi_select path xs cap thresholds skip)))
   \<and> length (filter vc_selected (vs_candidates (snd (voi_select path xs cap thresholds skip))))
       = length (fst (voi_select path xs cap thresholds skip))"
proof (intro conjI)
  let ?ranked = "voi_ranked path thresholds xs" and ?out = "voi_picked path thresholds xs cap"
  let ?key = "\<lambda>c. (vc_file c, vc_dimension c)"
  note cands = voi_select_picked(2) [of path xs cap thresholds skip]
  have "map ?key (vs_candidates (snd (voi_select path xs cap thresholds skip))) = map (?key \<circ> snd) ?ranked"
    by (simp add: cands case_prod_beta')
  moreover have "mset (map snd ?ranked) = mset (map (voi_candidate path thresholds) xs)"
    by (metis enumerate_facts(1) mset_map voi_ranked_mset)
  then have "mset (map (?key \<circ> snd) ?ranked) = mset (map ?key (map (voi_candidate path thresholds) xs))"
    by (metis map_map mset_map)
  ultimately show "mset (map ?key (vs_candidates (snd (voi_select path xs cap thresholds skip))))
     = mset (map (\<lambda>s. (path (sg_file s), sg_dimension s)) xs)"
    by (simp add: o_def voi_candidate_def Let_def)
  have "sorted_wrt (\<lambda>a b. voi_cmp a b \<noteq> Greater) ?ranked"
    unfolding voi_ranked_def by (rule voi_order.ordered_sort_by)
  then have "sorted_wrt (\<lambda>a b. total_le (vc_score (snd b)) (vc_score (snd a))) ?ranked"
    by (rule sorted_wrt_mono_rel [rotated]) (auto simp: voi_cmp_def)
  then show "sorted_wrt (\<lambda>a b. total_le (vc_score b) (vc_score a))
       (vs_candidates (snd (voi_select path xs cap thresholds skip)))"
    by (simp add: cands sorted_wrt_map case_prod_beta')
  have "length (filter vc_selected (vs_candidates (snd (voi_select path xs cap thresholds skip)))) =
      length (filter (\<lambda>(i, _). i \<in> fst ` set ?out) ?ranked)"
    by (simp add: cands filter_map o_def case_prod_beta')
  also have "\<dots> = length ?out" by (rule sub_filter_mset [OF voi_picked_part voi_ranked_distinct])
  finally show "length (filter vc_selected (vs_candidates (snd (voi_select path xs cap thresholds skip))))
       = length (fst (voi_select path xs cap thresholds skip))"
    by (simp add: voi_select_picked)
qed

lemma dimension_key_find: "find (\<lambda>d. dimension_key d = dimension_key e) DIMENSIONS = Some e"
  by (cases e) (simp_all add: DIMENSIONS_def)

lemma dimension_key_no_eq: "CHR ''='' \<notin> set (dimension_key d)"
  by (cases d) simp_all

text \<open>
  A threshold override is accepted exactly when it is a dimension's key, an equals sign and a
  number from 0 to 1; infinities, NaN and everything else are refused.
\<close>

theorem parse_threshold_exact:
  "parse_threshold raw = Inr (d, p) \<longleftrightarrow>
     (\<exists>value. raw = dimension_key d @ CHR ''='' # value \<and> parse_f64 value = Some p \<and> in_unit p)"
proof
  assume "parse_threshold raw = Inr (d, p)"
  then obtain key v where kv: "split_once (CHR ''='') raw = Some (key, v)"
      "find (\<lambda>d. dimension_key d = key) DIMENSIONS = Some d" "parse_f64 v = Some p" "in_unit p"
    by (auto simp: parse_threshold_def split: option.splits if_splits)
  then have "key = dimension_key d" by (auto simp: find_Some_iff)
  with split_once_Some [OF kv(1)] kv
  show "\<exists>value. raw = dimension_key d @ CHR ''='' # value \<and> parse_f64 value = Some p \<and> in_unit p"
    by blast
next
  assume "\<exists>value. raw = dimension_key d @ CHR ''='' # value \<and> parse_f64 value = Some p \<and> in_unit p"
  moreover have "is_finite p" if "in_unit p" using that by (auto simp: in_unit_iff)
  ultimately show "parse_threshold raw = Inr (d, p)"
    by (auto simp: parse_threshold_def dimension_key_no_eq dimension_key_find)
qed

end
