(* ===== verification/Review_Text.thy ===== *)
theory Review_Text
  imports Patch Feedback
begin

text \<open>
  The text half of \<^verbatim>\<open>src/domain/github_review.rs\<close>: the hidden markers that make posted
  comments recognizable, the body of an inline comment, and the bounded, redacted pieces of the
  summary comment. Redaction (\<^verbatim>\<open>src/domain/redact.rs\<close>, regular expressions over secret
  formats) is a parameter \<open>red\<close>, a function from text to text.
\<close>

abbreviation BACKTICK :: char where "BACKTICK \<equiv> CHR 0x60"

definition ELLIPSIS :: string where "ELLIPSIS = [CHR 0xE2, CHR 0x80, CHR 0xA6]"
definition MIDDOT :: string where "MIDDOT = [CHR 0xC2, CHR 0xB7]"
definition ARROW :: string where "ARROW = [CHR 0xE2, CHR 0x86, CHR 0x92]"
definition EN_DASH :: string where "EN_DASH = [CHR 0xE2, CHR 0x80, CHR 0x93]"
definition TIMES_SIGN :: string where "TIMES_SIGN = [CHR 0xC3, CHR 0x97]"

definition SUMMARY_MARKER :: string where "SUMMARY_MARKER = ''<!-- momus:summary -->''"
definition SUMMARY_LIST_MAX :: nat where "SUMMARY_LIST_MAX = 50"
definition SUMMARY_TEXT_MAX :: nat where "SUMMARY_TEXT_MAX = 280"
definition SUMMARY_BODY_MAX :: nat where "SUMMARY_BODY_MAX = 64000"
definition SUMMARY_EXCERPT_MAX :: nat where "SUMMARY_EXCERPT_MAX = 4000"

subsection \<open>Formatting numbers\<close>

text \<open>\<^verbatim>\<open>{:.n}\<close> of a float: the exact value to \<open>n\<close> digits, ties to even.\<close>

definition round_half_even :: "real \<Rightarrow> nat" where
  "round_half_even x =
     (let k = nat \<lfloor>x\<rfloor>; d = x - real k in
      if d < 1/2 then k else if 1/2 < d then k + 1 else if even k then k else k + 1)"

definition pad_zeros :: "nat \<Rightarrow> string \<Rightarrow> string" where
  "pad_zeros n s = replicate (n - length s) (CHR ''0'') @ s"

fun fmt_fixed :: "nat \<Rightarrow> f64 \<Rightarrow> string" where
  "fmt_fixed n (Fin r) =
     (let k = round_half_even (\<bar>r\<bar> * 10 ^ n) in
      (if r < 0 then ''-'' else []) @ show_nat (k div 10 ^ n)
        @ (if n = 0 then [] else CHR ''.'' # pad_zeros n (show_nat (k mod 10 ^ n))))"
| "fmt_fixed n NaN = ''NaN''"
| "fmt_fixed n PosInf = ''inf''"
| "fmt_fixed n NegInf = ''-inf''"

definition show_bool :: "bool \<Rightarrow> string" where
  "show_bool b = (if b then ''true'' else ''false'')"

definition show_u64 :: "u64 \<Rightarrow> string" where
  "show_u64 w = show_nat (unat w)"

definition plural :: "nat \<Rightarrow> string" where
  "plural n = (if n = 1 then [] else ''s'')"

subsection \<open>Markers\<close>

definition FP_OPEN :: string where "FP_OPEN = ''<!-- momus:fp=''"
definition TOPIC_OPEN :: string where "TOPIC_OPEN = ''<!-- momus:topic=''"
definition MARKER_CLOSE :: string where "MARKER_CLOSE = '' -->''"

definition fingerprint_marker :: "string \<Rightarrow> string" where
  "fingerprint_marker fp = FP_OPEN @ fp @ MARKER_CLOSE"

text \<open>
  Matching \<^verbatim>\<open><!-- momus:fp=([0-9a-f]+) -->\<close> and the topic pattern at a position, and the
  captures of all matches, leftmost first and without overlap.
\<close>

definition is_hex :: "char \<Rightarrow> bool" where
  "is_hex c \<longleftrightarrow> is_digit c \<or> (97::nat) \<le> of_char c \<and> (of_char c :: nat) \<le> 102"

definition is_letter :: "char \<Rightarrow> bool" where
  "is_letter c \<longleftrightarrow> (97::nat) \<le> of_char c \<and> (of_char c :: nat) \<le> 122
     \<or> (65::nat) \<le> of_char c \<and> (of_char c :: nat) \<le> 90"

definition is_word_char :: "char \<Rightarrow> bool" where
  "is_word_char c \<longleftrightarrow> is_letter c \<or> is_digit c \<or> c = CHR ''_''"

text \<open>A match: the captured text and what follows the match, which is shorter.\<close>

definition fp_match :: "string \<Rightarrow> (string \<times> string) option" where
  "fp_match s =
     Option.bind (strip_prefix FP_OPEN s) (\<lambda>r.
       let digits = takeWhile is_hex r in
       if digits = [] then None
       else map_option (Pair digits) (strip_prefix MARKER_CLOSE (dropWhile is_hex r)))"

definition topic_match :: "string \<Rightarrow> (string \<times> string) option" where
  "topic_match s =
     Option.bind (strip_prefix TOPIC_OPEN s) (\<lambda>r.
       let dimension = takeWhile is_letter r in
       if dimension = [] then None
       else Option.bind (strip_prefix ''/'' (dropWhile is_letter r)) (\<lambda>r'.
         let mechanism = takeWhile is_word_char r' in
         if mechanism = [] then None
         else map_option (Pair (dimension @ ''/'' @ mechanism))
                (strip_prefix MARKER_CLOSE (dropWhile is_word_char r'))))"

function captures_iter :: "(string \<Rightarrow> (string \<times> string) option) \<Rightarrow> string \<Rightarrow> string list" where
  "captures_iter m [] = []"
| "captures_iter m (c # cs) =
     (case m (c # cs) of
        None \<Rightarrow> captures_iter m cs
      | Some (x, rest) \<Rightarrow> x # (if length rest \<le> length cs then captures_iter m rest else []))"
  by pat_completeness auto
termination by (relation "measure (length \<circ> snd)") auto

definition topic :: "Finding \<Rightarrow> string" where
  "topic f = dimension_key (f_dimension f) @ ''/'' @ f_mechanism f"

definition topic_marker :: "Finding \<Rightarrow> string" where
  "topic_marker f = TOPIC_OPEN @ topic f @ MARKER_CLOSE"

definition posted_fingerprints :: "string list \<Rightarrow> string set" where
  "posted_fingerprints bodies = set (concat (map (captures_iter fp_match) bodies))"

record PostedTopic =
  pt_path :: string
  pt_line :: nat
  pt_topic :: string

definition posted_topics :: "(string \<times> nat option \<times> string) list \<Rightarrow> PostedTopic list" where
  "posted_topics comments = List.map_filter (\<lambda>(path, line, body).
     case captures_iter topic_match body of
       [] \<Rightarrow> None
     | t # _ \<Rightarrow> map_option (\<lambda>l. \<lparr>pt_path = path, pt_line = l, pt_topic = t\<rparr>) line) comments"

subsection \<open>An inline comment\<close>

definition dimension_label :: "Dimension \<Rightarrow> string" where
  "dimension_label d =
     (case find (\<lambda>meta. dm_key meta = d) dimension_metadata of
        None \<Rightarrow> dimension_key d | Some meta \<Rightarrow> dm_label meta)"

definition heading :: "Finding \<Rightarrow> string" where
  "heading f =
     (let dimension = dimension_label (f_dimension f);
          title = (case f_title f of None \<Rightarrow> dimension | Some t \<Rightarrow> t)
      in ''**'' @ title @ ''** ('' @ dimension @ '', severity '' @ fmt_fixed 1 (f_severity f) @ '')'')"

text \<open>The runs of a text between the characters that are no backtick.\<close>

fun backtick_runs :: "string \<Rightarrow> nat list" where
  "backtick_runs [] = [0]"
| "backtick_runs (c # cs) =
     (if c = BACKTICK then (case backtick_runs cs of n # ns \<Rightarrow> (n + 1) # ns | [] \<Rightarrow> [1])
      else 0 # backtick_runs cs)"

definition fence_for :: "string \<Rightarrow> string" where
  "fence_for t = replicate (max (foldr max (backtick_runs t) 0 + 1) 3) BACKTICK"

definition fenced :: "string \<Rightarrow> string" where
  "fenced t = NL # fence_for t @ NL # t @ NL # fence_for t @ [NL]"

definition opt_line :: "string \<Rightarrow> string option \<Rightarrow> string list" where
  "opt_line label v = (case v of None \<Rightarrow> [] | Some t \<Rightarrow> [label @ t])"

definition plan_lines :: "Finding \<Rightarrow> string list" where
  "plan_lines f =
     (case f_test_plan f of
        None \<Rightarrow> []
      | Some plan \<Rightarrow>
         [''- Unfinished test plan: '' @ tp_scenario plan,
          ''- Required assertion: '' @ tp_assertion plan,
          ''Repository-specific setup, calls and assertions are still required; this scaffold provides no coverage yet.'',
          fenced (tp_stub plan)])"

definition comment_markers :: "Finding \<Rightarrow> string list" where
  "comment_markers f =
     (if f_fingerprint f = [] then [] else [fingerprint_marker (f_fingerprint f)])
     @ (if f_mechanism f = [] then [] else [topic_marker f])"

definition comment_body :: "(string \<Rightarrow> string) \<Rightarrow> Finding \<Rightarrow> string" where
  "comment_body red f =
     red (join [NL] ([heading f] @ opt_line ''> '' (f_why f) @ opt_line ''- Fix: '' (f_fix f)
            @ opt_line ''- Test: '' (f_test f) @ plan_lines f))
     @ (if comment_markers f = [] then [] else NL # NL # join [NL] (comment_markers f))"

subsection \<open>Bounded pieces of the summary\<close>

text \<open>\<open>char::is_control\<close>\<close>

definition is_control :: "string \<Rightarrow> bool" where
  "is_control g =
     (case g of
        [c] \<Rightarrow> (of_char c :: nat) < 32 \<or> (of_char c :: nat) = 127
      | [c, d] \<Rightarrow> c = CHR 0xC2 \<and> (of_char d :: nat) < 160
      | _ \<Rightarrow> False)"

definition inert_char :: "string \<Rightarrow> string" where
  "inert_char g = (if g = [BACKTICK] \<or> is_control g then '' '' else g)"

definition summary_inline :: "(string \<Rightarrow> string) \<Rightarrow> string \<Rightarrow> string" where
  "summary_inline red t =
     (let cs = map inert_char (chars (red t)) in
      BACKTICK # concat (take SUMMARY_TEXT_MAX cs)
        @ (if SUMMARY_TEXT_MAX < length cs then '' '' @ ELLIPSIS @ '' [text omitted; see JSON report]'' else [])
        @ [BACKTICK])"

definition is_alnum :: "char \<Rightarrow> bool" where
  "is_alnum c \<longleftrightarrow> is_letter c \<or> is_digit c"

definition summary_version :: "(string \<Rightarrow> string) \<Rightarrow> string option \<Rightarrow> string" where
  "summary_version red v =
     (case v of
        None \<Rightarrow> ''absent''
      | Some t \<Rightarrow>
          if length t \<le> SUMMARY_TEXT_MAX \<and> t \<noteq> [] \<and> is_digit (hd t)
             \<and> list_all (\<lambda>c. is_alnum c \<or> c \<in> set ''.-+'') t
          then t else summary_inline red t)"

definition summary_overflow :: "nat \<Rightarrow> string \<Rightarrow> string list" where
  "summary_overflow n category =
     (if SUMMARY_LIST_MAX < n
      then [''- '' @ ELLIPSIS @ '' '' @ show_nat (n - SUMMARY_LIST_MAX) @ '' '' @ category
              @ '' omitted; see the complete JSON report.'']
      else [])"

definition summary_fenced :: "(string \<Rightarrow> string) \<Rightarrow> string \<Rightarrow> string" where
  "summary_fenced red t =
     (let cs = chars (red t) in
      fenced (concat (take SUMMARY_EXCERPT_MAX cs)
        @ (if SUMMARY_EXCERPT_MAX < length cs
           then NL # ELLIPSIS @ '' [evidence text omitted; see complete JSON report]'' else [])))"

text \<open>The loop over the chunks: the body so far and the chunks left out.\<close>

fun summary_chunks :: "(string \<Rightarrow> string) \<Rightarrow> string list \<Rightarrow> string \<times> nat \<Rightarrow> string \<times> nat" where
  "summary_chunks red [] st = st"
| "summary_chunks red (chunk # chunks) (body, omitted) =
     (let c = red chunk in
      if length body + length c + 1 \<le> SUMMARY_BODY_MAX - 240
      then summary_chunks red chunks (body @ c @ [NL], omitted)
      else summary_chunks red chunks (body, omitted + 1))"

definition bounded_summary :: "(string \<Rightarrow> string) \<Rightarrow> string list \<Rightarrow> string" where
  "bounded_summary red chunks =
     (let (body, omitted) = summary_chunks red chunks (SUMMARY_MARKER @ [NL], 0);
          body = red (body @ (if 0 < omitted
            then NL # ''**Output limit**: '' @ show_nat omitted
              @ '' summary sections or entries omitted to fit the publication size limit. See the complete JSON report for all findings and evidence.'' @ [NL]
            else []))
      in if length body \<le> SUMMARY_BODY_MAX then body
         else SUMMARY_MARKER @ NL # ''**Output limit**: Summary omitted after redaction exceeded the publication size limit. See the complete JSON report for findings, assessment identity and evidence.'')"

section \<open>Markers are found again\<close>

lemma strip_prefix_NL:
  assumes "NL \<notin> set p" "s = a @ NL # b"
  shows "strip_prefix p s = map_option (\<lambda>r. r @ NL # b) (strip_prefix p a)"
  using assms
proof (induction p arbitrary: a s)
  case Nil
  then show ?case by (simp add: strip_prefix_def)
next
  case (Cons c p)
  show ?case
  proof (cases a)
    case Nil
    then show ?thesis using Cons.prems by (auto simp: strip_prefix_def)
  next
    case a: (Cons d a')
    have "strip_prefix (c # p) (x # y) = (if c = x then strip_prefix p y else None)" for x y
      by (simp add: strip_prefix_def)
    then show ?thesis using Cons.IH [of "a' @ NL # b" a'] Cons.prems by (simp add: a)
  qed
qed

lemma takeWhile_stop: "\<not> P x \<Longrightarrow> takeWhile P (r @ x # b) = takeWhile P r"
  by (induction r) auto

lemma dropWhile_stop: "\<not> P x \<Longrightarrow> dropWhile P (r @ x # b) = dropWhile P r @ x # b"
  by (induction r) auto

lemma NL_not_in_markers [simp]:
  "\<not> is_hex NL" "\<not> is_letter NL" "\<not> is_word_char NL"
  "NL \<notin> set FP_OPEN" "NL \<notin> set TOPIC_OPEN" "NL \<notin> set MARKER_CLOSE" "NL \<notin> set ''/''"
  by (simp_all add: is_hex_def is_letter_def is_word_char_def is_digit_def FP_OPEN_def
      TOPIC_OPEN_def MARKER_CLOSE_def)

text \<open>No match contains a line break, and every match is consumed.\<close>

definition line_local :: "(string \<Rightarrow> (string \<times> string) option) \<Rightarrow> bool" where
  "line_local m \<longleftrightarrow>
     (\<forall>a b. m (a @ NL # b) = map_option (\<lambda>(x, r). (x, r @ NL # b)) (m a))
     \<and> (\<forall>s x r. m s = Some (x, r) \<longrightarrow> length r < length s)"

lemma fp_match_line_local: "line_local fp_match"
  unfolding line_local_def
proof (intro conjI allI impI)
  show "fp_match (a @ NL # b) = map_option (\<lambda>(x, r). (x, r @ NL # b)) (fp_match a)" for a b
    by (cases "strip_prefix FP_OPEN a")
      (simp_all add: fp_match_def strip_prefix_NL [OF _ refl] takeWhile_stop dropWhile_stop Let_def
        option.map_comp o_def)
  show "length r < length s" if "fp_match s = Some (x, r)" for s x r
  proof -
    from that obtain t where "s = FP_OPEN @ t" "dropWhile is_hex t = MARKER_CLOSE @ r"
      by (auto simp: fp_match_def bind_eq_Some_conv Let_def strip_prefix_Some split: if_splits)
    moreover have "length (dropWhile is_hex t) \<le> length t" by (rule length_dropWhile_le)
    ultimately show ?thesis by (simp add: FP_OPEN_def)
  qed
qed

lemma topic_match_line_local: "line_local topic_match"
  unfolding line_local_def
proof (intro conjI allI impI)
  fix a b :: string
  note simps = topic_match_def strip_prefix_NL [OF _ refl] takeWhile_stop dropWhile_stop Let_def
    option.map_comp o_def
  show "topic_match (a @ NL # b) = map_option (\<lambda>(x, r). (x, r @ NL # b)) (topic_match a)"
  proof (cases "strip_prefix TOPIC_OPEN a")
    case (Some r)
    then show ?thesis
      by (cases "strip_prefix ''/'' (dropWhile is_letter r)") (simp_all add: simps)
  qed (simp add: simps)
next
  fix s x r :: string
  assume "topic_match s = Some (x, r)"
  then obtain t u where "s = TOPIC_OPEN @ t" "dropWhile is_letter t = ''/'' @ u"
      "dropWhile is_word_char u = MARKER_CLOSE @ r"
    by (auto simp: topic_match_def bind_eq_Some_conv Let_def strip_prefix_Some split: if_splits)
  moreover have "length (dropWhile is_letter t) \<le> length t" "length (dropWhile is_word_char u) \<le> length u"
    by (rule length_dropWhile_le)+
  ultimately show "length r < length s" by (simp add: TOPIC_OPEN_def)
qed

lemma line_local_Nil: "line_local m \<Longrightarrow> m [] = None"
  by (metis line_local_def list.size(3) not_less_zero option.exhaust prod.collapse)

lemma captures_iter_line:
  assumes "line_local m"
  shows "captures_iter m (a @ NL # b) = captures_iter m a @ captures_iter m b"
proof (induction "length a" arbitrary: a rule: less_induct)
  case less
  have app: "m (a @ NL # b) = map_option (\<lambda>(x, r). (x, r @ NL # b)) (m a)"
    and shrink: "m a = Some (x, r) \<Longrightarrow> length r < length a" for x r
    using assms by (auto simp: line_local_def)
  show ?case
  proof (cases a)
    case Nil
    with app line_local_Nil [OF assms] show ?thesis by simp
  next
    case (Cons c cs)
    show ?thesis
    proof (cases "m a")
      case None
      with Cons app less [of cs] show ?thesis by simp
    next
      case (Some xr)
      obtain x r where xr: "xr = (x, r)" by (cases xr)
      with Some shrink have "length r < length a" by blast
      with less [of r] Some app show ?thesis by (simp add: Cons xr)
    qed
  qed
qed

lemma fp_marker_captured: "fp \<noteq> [] \<Longrightarrow> list_all is_hex fp \<Longrightarrow> captures_iter fp_match (fingerprint_marker fp) = [fp]"
proof -
  assume fp: "fp \<noteq> []" "list_all is_hex fp"
  have "takeWhile is_hex (fp @ MARKER_CLOSE) = fp" "dropWhile is_hex (fp @ MARKER_CLOSE) = MARKER_CLOSE"
    using fp(2) by (simp_all add: MARKER_CLOSE_def takeWhile_stop dropWhile_stop is_hex_def is_digit_def
        list_all_iff takeWhile_eq_all_conv [THEN iffD2] dropWhile_eq_Nil_conv [THEN iffD2])
  moreover have "strip_prefix MARKER_CLOSE MARKER_CLOSE = Some []"
    using strip_prefix_append [of MARKER_CLOSE "[]"] by simp
  ultimately have "fp_match (fingerprint_marker fp) = Some (fp, [])"
    using fp(1) by (simp add: fp_match_def fingerprint_marker_def)
  moreover obtain c cs where "fingerprint_marker fp = c # cs"
    by (cases "fingerprint_marker fp") (auto simp: fingerprint_marker_def FP_OPEN_def)
  ultimately show ?thesis by simp
qed

lemma fingerprint_hex: "list_all is_hex (fingerprint f)" "fingerprint f \<noteq> []"
proof -
  have "\<forall>c \<in> set ''0123456789abcdef''. is_hex c" by (simp add: is_hex_def is_digit_def)
  then show "list_all is_hex (fingerprint f)"
    using hex_digit_hex by (auto simp: fingerprint_def hex16_def list_all_iff simp del: list.set)
  show "fingerprint f \<noteq> []" by (simp add: fingerprint_def hex16_def)
qed

lemma comment_fingerprint_found:
  assumes "f_fingerprint f \<noteq> []" "list_all is_hex (f_fingerprint f)"
  shows "f_fingerprint f \<in> posted_fingerprints [comment_body red f]"
proof -
  let ?m = "captures_iter fp_match"
  have join: "?m (join [NL] (x # xs)) = ?m x @ concat (map ?m xs)" for x xs
    by (induction xs arbitrary: x)
      (simp_all add: join_Cons captures_iter_line [OF fp_match_line_local])
  have "f_fingerprint f \<in> set (?m (join [NL] (comment_markers f)))"
    using fp_marker_captured [OF assms] assms(1) by (simp add: comment_markers_def join)
  moreover have "comment_markers f \<noteq> []"
    using assms(1) by (simp add: comment_markers_def)
  ultimately show ?thesis
    using captures_iter_line [OF fp_match_line_local, of "[]"]
    by (simp add: posted_fingerprints_def comment_body_def captures_iter_line [OF fp_match_line_local]
        del: captures_iter.simps join.simps)
qed

text \<open>
  A posted comment is recognized on a re-run: whatever redaction does to its text, the
  fingerprint of the finding is among those read back from its body.
\<close>

theorem comment_fingerprint_roundtrip:
  assumes "f_fingerprint f = fingerprint g"
  shows "f_fingerprint f \<in> posted_fingerprints [comment_body red f]"
  using assms fingerprint_hex [of g] by (intro comment_fingerprint_found) simp_all

theorem comment_fingerprint_roundtrip_witness:
  "fingerprint default_finding \<in> posted_fingerprints
     [comment_body (\<lambda>t. t) (default_finding\<lparr>f_fingerprint := fingerprint default_finding\<rparr>)]"
  using comment_fingerprint_roundtrip
    [of "default_finding\<lparr>f_fingerprint := fingerprint default_finding\<rparr>" default_finding "\<lambda>t. t"]
  by simp

section \<open>Code fences and size bounds\<close>

lemma backtick_runs_ne [simp]: "backtick_runs s \<noteq> []"
  by (cases s) (auto split: list.splits)

lemma foldr_max_ge: "(n::nat) \<in> set ns \<Longrightarrow> n \<le> foldr max ns 0"
  by (induction ns) auto

text \<open>A prefix of \<open>k\<close> backticks makes the first run at least \<open>k\<close> long.\<close>

lemma prefix_run: "prefix (replicate k BACKTICK) s \<Longrightarrow> k \<le> hd (backtick_runs s)"
proof (induction k arbitrary: s)
  case (Suc k)
  then obtain t where "s = BACKTICK # t" "prefix (replicate k BACKTICK) t"
    by (cases s) auto
  with Suc.IH [of t] show ?case by (auto split: list.splits)
qed simp

lemma sublist_run: "sublist (replicate k BACKTICK) s \<Longrightarrow> k \<le> foldr max (backtick_runs s) 0"
proof (induction s)
  case (Cons c s)
  show ?case
  proof (cases "prefix (replicate k BACKTICK) (c # s)")
    case True
    then have "k \<le> hd (backtick_runs (c # s))" by (rule prefix_run)
    also have "\<dots> \<le> foldr max (backtick_runs (c # s)) 0"
      by (intro foldr_max_ge hd_in_set) (rule backtick_runs_ne)
    finally show ?thesis .
  next
    case False
    with Cons have "k \<le> foldr max (backtick_runs s) 0" by (simp add: sublist_Cons_right)
    then show ?thesis by (auto split: list.splits)
  qed
qed simp

text \<open>
  An untrusted excerpt cannot break out of its code block: the fence put around it is at least
  three backticks and longer than any run of backticks inside it, so it occurs nowhere in it.
\<close>

theorem fenced_contained:
  "fenced t = NL # fence_for t @ NL # t @ NL # fence_for t @ [NL]
   \<and> 3 \<le> length (fence_for t) \<and> \<not> str_contains t (fence_for t)"
proof -
  have "\<not> sublist (replicate (max (foldr max (backtick_runs t) 0 + 1) 3) BACKTICK) t"
    using sublist_run [of "max (foldr max (backtick_runs t) 0 + 1) 3" t] by (auto simp: max_def split: if_splits)
  then show ?thesis by (simp add: fenced_def fence_for_def)
qed

text \<open>
  The summary comment never exceeds its size limit, whatever the report holds and whatever
  redaction does to its text.
\<close>

theorem bounded_summary_size:
  "length (bounded_summary red chunks) \<le> SUMMARY_BODY_MAX"
  by (simp add: bounded_summary_def SUMMARY_BODY_MAX_def SUMMARY_MARKER_def Let_def split: prod.split)

end
