(* ===== verification/Github_Review.thy ===== *)
theory Github_Review
  imports Review_Text
begin

text \<open>
  The planning half of \<^verbatim>\<open>src/domain/github_review.rs\<close>: which findings of a report become
  inline comments on a pull request, which are listed in the summary comment, and the text of that
  comment.
\<close>

subsection \<open>What is posted already\<close>

definition REPOST_LINE_WINDOW :: nat where
  "REPOST_LINE_WINDOW = 20"

record Posted =
  po_fingerprints :: "string set"
  po_topics :: "PostedTopic list"

definition posted_has :: "Posted \<Rightarrow> Finding \<Rightarrow> bool" where
  "posted_has posted f \<longleftrightarrow> f_fingerprint f \<noteq> [] \<and> f_fingerprint f \<in> po_fingerprints posted"

definition posted_has_near :: "Posted \<Rightarrow> Finding \<Rightarrow> bool" where
  "posted_has_near posted f \<longleftrightarrow>
     list_ex (\<lambda>t. pt_path t = f_file f \<and> abs_diff (pt_line t) (f_line f) \<le> REPOST_LINE_WINDOW
       \<and> pt_topic t = topic f) (po_topics posted)"

subsection \<open>Lines a comment can target\<close>

record PrFile =
  pr_filename :: string
  pr_patch :: "string option"

fun hunk_commentable :: "string list \<Rightarrow> nat \<Rightarrow> nat set \<Rightarrow> nat set" where
  "hunk_commentable [] line lines = lines"
| "hunk_commentable (t # ts) line lines =
     (if first_byte t = Some (CHR ''+'') \<or> first_byte t = Some (CHR '' '')
      then hunk_commentable ts (usize_add line 1) (insert line lines)
      else hunk_commentable ts line lines)"

definition commentable_lines :: "string \<Rightarrow> nat set" where
  "commentable_lines patch =
     foldl (\<lambda>lines h. hunk_commentable (drop 1 (split_on NL (h_patch h))) (h_start_line h) lines)
       {} (parse_hunks patch)"

subsection \<open>The plan\<close>

record InlineComment =
  ic_path :: string
  ic_line :: nat
  ic_side :: string
  ic_body :: string

datatype SummaryReason = NotADiffReview | OutsideDiff | OverCap | RejectedAnchor | NearPosted

fun describe :: "SummaryReason \<Rightarrow> string" where
  "describe NotADiffReview = ''codebase scan''"
| "describe OutsideDiff = ''outside the diff''"
| "describe OverCap = ''over the inline cap''"
| "describe RejectedAnchor = ''GitHub rejected the anchor''"
| "describe NearPosted = ''same concern already posted nearby''"

record Plan =
  pl_inline :: "(Finding \<times> InlineComment) list"
  pl_summary_only :: "(Finding \<times> SummaryReason) list"
  pl_already_posted :: nat

definition demote_inline :: "Plan \<Rightarrow> Plan" where
  "demote_inline p =
     p\<lparr>pl_inline := [],
       pl_summary_only := pl_summary_only p @ map (\<lambda>(f, _). (f, RejectedAnchor)) (pl_inline p)\<rparr>"

definition fix_first :: "Finding \<Rightarrow> Finding \<Rightarrow> ordering" where
  "fix_first a b =
     (let rank = (\<lambda>f. case f_rank f of None \<Rightarrow> usize_limit - 1 | Some n \<Rightarrow> n)
      in then_cmp (cmp (rank a) (rank b)) (total_cmp (f_severity b) (f_severity a)))"

text \<open>\<open>collect\<close> into a \<open>HashMap\<close>: of two files with one name the later counts.\<close>

definition commentable_map :: "PrFile list \<Rightarrow> string \<rightharpoonup> nat set" where
  "commentable_map files =
     map_of (rev (List.map_filter (\<lambda>f. map_option (\<lambda>p. (pr_filename f, commentable_lines p)) (pr_patch f)) files))"

definition anchored :: "PrFile list \<Rightarrow> Finding \<Rightarrow> bool" where
  "anchored files f \<longleftrightarrow>
     (case commentable_map files (f_file f) of None \<Rightarrow> False | Some lines \<Rightarrow> f_line f \<in> lines)"

definition inline_comment :: "(string \<Rightarrow> string) \<Rightarrow> Finding \<Rightarrow> InlineComment" where
  "inline_comment red f =
     \<lparr>ic_path = f_file f, ic_line = f_line f, ic_side = ''RIGHT'', ic_body = comment_body red f\<rparr>"

definition summary_reason ::
  "ReviewMode \<Rightarrow> PrFile list \<Rightarrow> Posted \<Rightarrow> nat \<Rightarrow> nat \<Rightarrow> Finding \<Rightarrow> SummaryReason option" where
  "summary_reason mode files posted max_inline inlined f =
     (if mode = Codebase then Some NotADiffReview
      else if posted_has_near posted f then Some NearPosted
      else if \<not> anchored files f then Some OutsideDiff
      else if max_inline \<le> inlined then Some OverCap
      else None)"

text \<open>One turn of the loop: the plan so far and the fingerprints seen in this report.\<close>

fun plan_step ::
  "(string \<Rightarrow> string) \<Rightarrow> ReviewMode \<Rightarrow> PrFile list \<Rightarrow> Posted \<Rightarrow> nat \<Rightarrow>
    Plan \<times> string set \<Rightarrow> Finding \<Rightarrow> Plan \<times> string set" where
  "plan_step red mode files posted max_inline (out, seen) f =
     (let fp = f_fingerprint f;
          seen' = (if posted_has posted f \<or> fp = [] then seen else insert fp seen)
      in if posted_has posted f \<or> fp \<noteq> [] \<and> fp \<in> seen
         then (out\<lparr>pl_already_posted := pl_already_posted out + 1\<rparr>, seen')
         else case summary_reason mode files posted max_inline (length (pl_inline out)) f of
                Some reason \<Rightarrow>
                  (out\<lparr>pl_summary_only := pl_summary_only out @ [(f, reason)]\<rparr>, seen')
              | None \<Rightarrow>
                  (out\<lparr>pl_inline := pl_inline out @ [(f, inline_comment red f)]\<rparr>, seen'))"

definition default_plan :: Plan where
  "default_plan = \<lparr>pl_inline = [], pl_summary_only = [], pl_already_posted = 0\<rparr>"

definition plan :: "(string \<Rightarrow> string) \<Rightarrow> ReviewReport \<Rightarrow> PrFile list \<Rightarrow> Posted \<Rightarrow> nat \<Rightarrow> Plan" where
  "plan red report files posted max_inline =
     fst (foldl (plan_step red (r_mode report) files posted max_inline) (default_plan, {})
            (sort_by fix_first (r_findings report)))"

interpretation fix_first_order: comparator fix_first
  unfolding fix_first_def [abs_def] Let_def
  by (intro comparator_intros)

section \<open>The plan is sound\<close>

text \<open>
  The plan after some findings: every one of them is counted once; inline comments are few enough,
  anchored, new and without repetition; the fingerprints of those handled are in \<open>seen\<close>.
\<close>

definition planned :: "Plan \<Rightarrow> Finding list" where
  "planned p = map fst (pl_inline p) @ map fst (pl_summary_only p)"

definition new_fingerprints :: "Finding list \<Rightarrow> string list" where
  "new_fingerprints fs = filter (\<lambda>fp. fp \<noteq> []) (map f_fingerprint fs)"

fun plan_inv ::
  "(string \<Rightarrow> string) \<Rightarrow> ReviewMode \<Rightarrow> PrFile list \<Rightarrow> Posted \<Rightarrow> nat \<Rightarrow> Finding list \<Rightarrow>
    Plan \<times> string set \<Rightarrow> bool" where
  "plan_inv red mode files posted max_inline hs (p, seen) \<longleftrightarrow>
     mset (planned p) \<subseteq># mset hs
     \<and> length (planned p) + pl_already_posted p = length hs
     \<and> length (pl_inline p) \<le> max_inline
     \<and> (\<forall>(f, c) \<in> set (pl_inline p). mode = Changes \<and> anchored files f \<and> c = inline_comment red f
          \<and> \<not> posted_has_near posted f)
     \<and> (\<forall>f \<in> set (planned p). \<not> posted_has posted f)
     \<and> distinct (new_fingerprints (planned p))
     \<and> (\<forall>f \<in> set hs. posted_has posted f \<or> f_fingerprint f = []
          \<or> f_fingerprint f \<in> set (new_fingerprints (planned p)))
     \<and> seen = set (new_fingerprints (planned p))"

lemma new_fingerprints_simps [simp]:
  "new_fingerprints [] = []"
  "new_fingerprints (fs @ gs) = new_fingerprints fs @ new_fingerprints gs"
  "new_fingerprints (f # fs) =
     (if f_fingerprint f = [] then new_fingerprints fs else f_fingerprint f # new_fingerprints fs)"
  by (simp_all add: new_fingerprints_def)

lemma planned_simps [simp]:
  "planned (p\<lparr>pl_already_posted := n\<rparr>) = planned p"
  "planned (p\<lparr>pl_summary_only := pl_summary_only p @ [(f, r)]\<rparr>) = planned p @ [f]"
  "planned (p\<lparr>pl_inline := pl_inline p @ [(f, c)]\<rparr>) =
     map fst (pl_inline p) @ f # map fst (pl_summary_only p)"
  by (simp_all add: planned_def)

lemma subset_add_mset: "A \<subseteq># B \<Longrightarrow> A \<subseteq># add_mset x B"
  by (metis add_mset_add_single mset_subset_eq_add_left subset_mset.order_trans)

lemma plan_step_skip:
  "posted_has posted f \<or> f_fingerprint f \<noteq> [] \<and> f_fingerprint f \<in> seen \<Longrightarrow>
    plan_step red mode files posted max_inline (p, seen) f =
      (p\<lparr>pl_already_posted := pl_already_posted p + 1\<rparr>, seen)"
  by (auto simp: Let_def insert_absorb)

lemma plan_step_new:
  "\<not> posted_has posted f \<Longrightarrow> f_fingerprint f = [] \<or> f_fingerprint f \<notin> seen \<Longrightarrow>
    plan_step red mode files posted max_inline (p, seen) f =
      ((case summary_reason mode files posted max_inline (length (pl_inline p)) f of
          Some reason \<Rightarrow> p\<lparr>pl_summary_only := pl_summary_only p @ [(f, reason)]\<rparr>
        | None \<Rightarrow> p\<lparr>pl_inline := pl_inline p @ [(f, inline_comment red f)]\<rparr>),
       if f_fingerprint f = [] then seen else insert (f_fingerprint f) seen)"
  by (cases "f_fingerprint f = []") (simp_all add: Let_def split: option.split)

declare plan_step.simps [simp del]

lemma plan_step_inv:
  assumes inv: "plan_inv red mode files posted max_inline hs (p, seen)"
  shows "plan_inv red mode files posted max_inline (hs @ [f])
    (plan_step red mode files posted max_inline (p, seen) f)"
proof (cases "posted_has posted f \<or> f_fingerprint f \<noteq> [] \<and> f_fingerprint f \<in> seen")
  case True
  show ?thesis unfolding plan_step_skip [OF True]
    using inv True by (auto simp: subset_add_mset)
next
  case new: False
  then have step: "\<not> posted_has posted f" "f_fingerprint f = [] \<or> f_fingerprint f \<notin> seen" by auto
  show ?thesis
  proof (cases "summary_reason mode files posted max_inline (length (pl_inline p)) f")
    case (Some reason)
    show ?thesis unfolding plan_step_new [OF step] Some option.case
      using inv step by auto
  next
    case None
    then have ok: "mode = Changes" "\<not> posted_has_near posted f" "anchored files f"
        "length (pl_inline p) < max_inline"
      by (cases mode; simp add: summary_reason_def not_le split: if_splits)+
    have seen: "seen = set (new_fingerprints (map fst (pl_inline p))) \<union>
        set (new_fingerprints (map fst (pl_summary_only p)))"
      using inv by (simp add: planned_def)
    show ?thesis unfolding plan_step_new [OF step] None option.case
      using inv step ok by (auto simp: planned_def)
  qed
qed

lemma plan_fold_inv:
  "plan_inv red mode files posted max_inline hs st \<Longrightarrow>
    plan_inv red mode files posted max_inline (hs @ fs)
      (foldl (plan_step red mode files posted max_inline) st fs)"
proof (induction fs arbitrary: hs st)
  case (Cons f fs)
  obtain p seen where st: "st = (p, seen)" by (cases st)
  have "plan_inv red mode files posted max_inline (hs @ [f]) (plan_step red mode files posted max_inline st f)"
    unfolding st by (rule plan_step_inv) (use Cons.prems in \<open>simp only: st\<close>)
  from Cons.IH [OF this] show ?case by (simp del: plan_inv.simps)
qed simp

lemma plan_inv_final:
  obtains seen where "plan_inv red (r_mode report) files posted max_inline
    (sort_by fix_first (r_findings report)) (plan red report files posted max_inline, seen)"
proof -
  have "plan_inv red (r_mode report) files posted max_inline [] (default_plan, {})"
    by (simp add: default_plan_def planned_def)
  from plan_fold_inv [OF this, of "sort_by fix_first (r_findings report)"] that show ?thesis
    unfolding plan_def append_Nil by (metis prod.collapse)
qed

text \<open>
  C7. Publishing never breaks a review: there are at most \<open>max_inline\<close> inline comments, none for a
  codebase scan, and each is on a line of its file that the pull request's diff lets a comment
  target, so the review as a whole is not refused for an unresolvable line.
\<close>

theorem plan_inline_anchored:
  "length (pl_inline (plan red report files posted max_inline)) \<le> max_inline
   \<and> list_all (\<lambda>(f, c). r_mode report = Changes \<and> anchored files f
        \<and> ic_path c = f_file f \<and> ic_line c = f_line f \<and> ic_body c = comment_body red f)
       (pl_inline (plan red report files posted max_inline))"
proof -
  obtain seen where inv: "plan_inv red (r_mode report) files posted max_inline
      (sort_by fix_first (r_findings report)) (plan red report files posted max_inline, seen)"
    by (rule plan_inv_final)
  then show ?thesis by (auto simp: list_all_iff inline_comment_def)
qed

text \<open>
  C40. No finding is lost or invented: each finding of the report is inline, in the summary, or
  counted as posted already, exactly once.
\<close>

theorem plan_conserves_findings:
  "mset (planned (plan red report files posted max_inline)) \<subseteq># mset (r_findings report)
   \<and> length (planned (plan red report files posted max_inline))
       + pl_already_posted (plan red report files posted max_inline) = length (r_findings report)"
proof -
  obtain seen where "plan_inv red (r_mode report) files posted max_inline
      (sort_by fix_first (r_findings report)) (plan red report files posted max_inline, seen)"
    by (rule plan_inv_final)
  then show ?thesis by (simp add: sort_facts)
qed

lemma plan_part: "mset (planned (plan red report files posted max_inline)) \<subseteq># mset (r_findings report)"
proof -
  obtain seen where "plan_inv red (r_mode report) files posted max_inline
      (sort_by fix_first (r_findings report)) (plan red report files posted max_inline, seen)"
    by (rule plan_inv_final)
  then show ?thesis by (simp add: sort_facts)
qed

lemma plan_bodies:
  "(f, c) \<in> set (pl_inline (plan red report files posted max_inline)) \<Longrightarrow> c = inline_comment red f"
proof -
  obtain seen where "plan_inv red (r_mode report) files posted max_inline
      (sort_by fix_first (r_findings report)) (plan red report files posted max_inline, seen)"
    by (rule plan_inv_final)
  then show "(f, c) \<in> set (pl_inline (plan red report files posted max_inline)) \<Longrightarrow> c = inline_comment red f"
    by fastforce
qed

lemma plan_no_repeats:
  "distinct (new_fingerprints (planned (plan red report files posted max_inline)))
   \<and> set (new_fingerprints (planned (plan red report files posted max_inline)))
       \<inter> po_fingerprints posted = {}"
proof -
  obtain seen where inv: "plan_inv red (r_mode report) files posted max_inline
      (sort_by fix_first (r_findings report)) (plan red report files posted max_inline, seen)"
    by (rule plan_inv_final)
  then show ?thesis
    by (auto simp: new_fingerprints_def posted_has_def)
qed

text \<open>
  No finding is posted twice: the findings newly shown have pairwise different fingerprints, and
  none of them has the fingerprint of a comment that is already on the pull request.
\<close>

theorem plan_posts_nothing_twice:
  "distinct (new_fingerprints (planned (plan red report files posted max_inline)))
   \<and> set (new_fingerprints (planned (plan red report files posted max_inline)))
       \<inter> po_fingerprints posted = {}"
  by (rule plan_no_repeats)

lemma hunk_commentable_mono: "lines \<subseteq> hunk_commentable ts line lines"
  by (induction ts line lines rule: hunk_commentable.induct) auto

lemma first_added_commentable:
  "first_added_from line ts = Some l \<Longrightarrow> l \<in> hunk_commentable ts line lines"
proof (induction line ts arbitrary: lines rule: first_added_from.induct)
  case (2 line t ts)
  then show ?case using hunk_commentable_mono [of "insert line lines" ts "usize_add line 1"]
    by (auto split: if_splits)
qed simp

lemma fold_mono: "(\<And>x A. A \<subseteq> f A x) \<Longrightarrow> (A::'a set) \<subseteq> foldl f A xs"
  by (induction xs arbitrary: A) (auto, blast)

lemma commentable_of_hunk:
  assumes "h \<in> set (parse_hunks patch)"
    and "\<And>lines. l \<in> hunk_commentable (drop 1 (split_on NL (h_patch h))) (h_start_line h) lines"
  shows "l \<in> commentable_lines patch"
proof -
  let ?f = "\<lambda>lines h. hunk_commentable (drop 1 (split_on NL (h_patch h))) (h_start_line h) lines"
  obtain xs ys where "parse_hunks patch = xs @ h # ys" using assms(1) by (auto simp: in_set_conv_decomp)
  moreover have "?f (foldl ?f {} xs) h \<subseteq> foldl ?f (?f (foldl ?f {} xs) h) ys"
    by (rule fold_mono) (rule hunk_commentable_mono)
  ultimately show ?thesis using assms(2) [of "foldl ?f {} xs"] by (auto simp: commentable_lines_def)
qed

text \<open>
  The line a located hunk is anchored at can take an inline comment: the first added line of a
  hunk of the diff that adds a line is one of the diff's commentable lines.
\<close>

theorem first_added_line_commentable:
  assumes "h \<in> set (parse_hunks patch)"
    and "first_added_from (h_start_line h) (drop 1 (split_on NL (h_patch h))) \<noteq> None"
  shows "first_added_line h \<in> commentable_lines patch"
proof (rule commentable_of_hunk [OF assms(1)])
  show "first_added_line h \<in> hunk_commentable (drop 1 (split_on NL (h_patch h))) (h_start_line h) lines" for lines
    using assms(2) first_added_commentable by (auto simp: first_added_line_def)
qed

theorem first_added_line_commentable_witness:
  "first_added_line \<lparr>h_id = ''hunk_1'', h_start_line = 4,
      h_patch = ''@@ -4 +4,2 @@'' @ NL # '' a'' @ NL # ''+b''\<rparr> \<in>
    commentable_lines (''@@ -4 +4,2 @@'' @ NL # '' a'' @ NL # ''+b'')"
proof (rule first_added_line_commentable)
  let ?p = "''@@ -4 +4,2 @@'' @ NL # '' a'' @ NL # ''+b''"
  have "header_start ''@@ -4 +4,2 @@'' = 4"
    by (simp add: header_start_def header_token_def parse_eval)
  then show "\<lparr>h_id = ''hunk_1'', h_start_line = 4, h_patch = ?p\<rparr> \<in> set (parse_hunks ?p)"
    by (simp add: parse_hunks_def flush_def show_nat_eval)
  show "first_added_from (h_start_line \<lparr>h_id = ''hunk_1'', h_start_line = 4, h_patch = ?p\<rparr>)
      (drop 1 (split_on NL (h_patch \<lparr>h_id = ''hunk_1'', h_start_line = 4, h_patch = ?p\<rparr>))) \<noteq> None"
    by simp
qed

section \<open>The summary comment\<close>

subsection \<open>Merge outcomes\<close>

definition valid_probability :: "f64 option \<Rightarrow> bool" where
  "valid_probability v = (case v of None \<Rightarrow> False | Some p \<Rightarrow> is_finite p \<and> in_unit p)"

definition outcomes_ready :: "MergeConfidenceSummary \<Rightarrow> bool" where
  "outcomes_ready m \<longleftrightarrow>
     length (ms_outcomes m) = 3
     \<and> list_all (\<lambda>e. oe_status e = ''evaluatedEmpirical'' \<and> valid_probability (oe_probability e)
          \<and> valid_probability (oe_upper_bound_95 e) \<and> valid_probability (oe_held_out_upper_bound_95 e))
         (ms_outcomes m)
     \<and> list_all (\<lambda>kind. list_ex (\<lambda>e. oe_outcome e = kind) (ms_outcomes m)) [Revert, Incident, Flake]"

definition approval_state :: "ReviewReport \<Rightarrow> MergeConfidenceSummary \<Rightarrow> string \<Rightarrow> string" where
  "approval_state r m head_sha =
     (let head_matches = head_sha \<noteq> [] \<and> r_reviewed_head r = Some head_sha;
          immutable = r_reviewed_clean r \<and> r_reviewed_committed r
            \<and> (case r_reviewed_base r of None \<Rightarrow> False | Some base \<Rightarrow> \<not> blank base)
      in if \<not> ad_enabled (ms_approval m) then ''disabled (explicit opt-in policy not enabled)''
         else if \<not> head_matches then ''rejected (assessment head is missing or stale)''
         else if \<not> immutable \<or> \<not> outcomes_ready m \<or> ms_synthetic m \<noteq> Some False \<or> r_partial r
         then ''rejected (immutable or complete observed evidence is not established)''
         else if ad_eligible (ms_approval m)
         then ''eligible under explicit policy for the assessed publishing head''
         else ''rejected under explicit policy'')"

definition unknown_or :: "string option \<Rightarrow> string" where
  "unknown_or v = (case v of None \<Rightarrow> ''unknown'' | Some t \<Rightarrow> t)"

definition show_probability :: "f64 option \<Rightarrow> string" where
  "show_probability v =
     (case v of None \<Rightarrow> ''unknown''
      | Some p \<Rightarrow> if is_finite p \<and> in_unit p then fmt_fixed 3 p else ''unknown'')"

fun outcome_debug :: "OutcomeKind \<Rightarrow> string" where
  "outcome_debug Revert = ''Revert''"
| "outcome_debug Incident = ''Incident''"
| "outcome_debug Flake = ''Flake''"

definition outcome_lines :: "(string \<Rightarrow> string) \<Rightarrow> OutcomeEstimate \<Rightarrow> string list" where
  "outcome_lines red e =
     [''- '' @ outcome_debug (oe_outcome e) @ '': estimate '' @ show_probability (oe_probability e)
        @ '' ('' @ summary_inline red (oe_status e) @ '') '' @ MIDDOT
        @ '' Wilson 95% upper bounds: training '' @ show_probability (oe_upper_bound_95 e)
        @ '', held-out '' @ show_probability (oe_held_out_upper_bound_95 e) @ '' '' @ MIDDOT @ '' ''
        @ show_nat (ev_training_samples (oe_evaluation e)) @ '' training / ''
        @ show_nat (ev_held_out_samples (oe_evaluation e)) @ '' held-out labels.'']
     @ map (\<lambda>l. ''  - Limitation: '' @ summary_inline red l) (take SUMMARY_LIST_MAX (oe_limitations e))
     @ summary_overflow (length (oe_limitations e)) ''outcome limitations''"

definition confidence_summary :: "(string \<Rightarrow> string) \<Rightarrow> ReviewReport \<Rightarrow> string \<Rightarrow> string list" where
  "confidence_summary red r head_sha =
     (case r_merge_confidence r of
        None \<Rightarrow> []
      | Some m \<Rightarrow>
         [''**Merge outcomes**: assessed heuristic score '' @ fmt_fixed 3 (ms_heuristic_score m)
            @ '', producer version '' @ show_nat (ms_heuristic_version m)
            @ '' (uncalibrated; not a probability).'',
          ''Assessment head: '' @ summary_inline red (unknown_or (r_reviewed_head r)) @ '' '' @ MIDDOT
            @ '' assessed merge base: '' @ summary_inline red (unknown_or (r_reviewed_base r)) @ '' '' @ MIDDOT
            @ '' publishing head: '' @ summary_inline red (if head_sha = [] then ''unknown'' else head_sha)
            @ '' '' @ MIDDOT @ '' clean verified: '' @ show_bool (r_reviewed_clean r) @ '' '' @ MIDDOT
            @ '' committed-only evidence: '' @ show_bool (r_reviewed_committed r) @ ''.'',
          ''Outcome evidence: ''
            @ (case ms_synthetic m of
                 Some True \<Rightarrow> ''synthetic demonstration; cannot authorize approval''
               | Some False \<Rightarrow> ''caller-supplied observed history''
               | None \<Rightarrow> ''unknown history'')
            @ ''; provenance: '' @ summary_inline red (unknown_or (ms_provenance m))
            @ ''. Observational estimates do not certify real-world calibration.'',
          ''Automatic approval: '' @ approval_state r m head_sha @ ''.'']
         @ map (\<lambda>reason. ''- Approval reason: '' @ summary_inline red reason)
             (take SUMMARY_LIST_MAX (ad_reasons (ms_approval m)))
         @ summary_overflow (length (ad_reasons (ms_approval m))) ''approval reasons''
         @ concat (map (outcome_lines red) (take SUMMARY_LIST_MAX (ms_outcomes m)))
         @ summary_overflow (length (ms_outcomes m)) ''outcome estimates''
         @ [[]])"


subsection \<open>The sections of the summary\<close>

definition MAX_TEST_PLANS :: nat where
  "MAX_TEST_PLANS = 8"

definition coverage_lines :: "ReviewReport \<Rightarrow> string list" where
  "coverage_lines r =
     (if r_partial r then
        (let left_out = wc_threshold_signals (r_workflow r) - wc_followed_signals (r_workflow r);
             incomplete_specs = (case r_spec_drift r of
                None \<Rightarrow> 0
              | Some s \<Rightarrow> length (filter (\<lambda>c. sc_status c = Uncertain \<or> sc_status c = Deferred) (ss_checks s)))
         in [''**Partial coverage**: '' @ show_u64 (bs_deferred (r_budget r)) @ '' deferred requests, ''
               @ show_nat (length (ti_dismissed (r_tier r))) @ '' Tier-0 dismissals, ''
               @ show_nat (length (r_skipped r)) @ '' skipped requests, ''
               @ show_nat left_out @ '' follow-ups omitted by cap, ''
               @ show_nat incomplete_specs @ '' uncertain/deferred spec checks. Rerun with sufficient budget and follow-up allowance; uncertain spec checks require more context or human review.'',
             []])
      else [])"

definition count_lines :: "ReviewReport \<Rightarrow> Plan \<Rightarrow> string list" where
  "count_lines r p =
     (let total = length (r_findings r);
          blocking = length (filter (\<lambda>f. f_action f = RequestChanges) (r_findings r))
      in if total = 0 \<and> r_screened_files r = 0 \<and> r_skipped r = [] \<and> \<not> r_partial r
         then [''No source files to review in this pull request.'']
         else if total = 0 then [''No findings.'']
         else [''**'' @ show_nat total @ '' finding'' @ plural total @ ''** '' @ MIDDOT @ '' ''
                 @ show_nat blocking @ '' blocking '' @ MIDDOT @ '' heuristic risk score ''
                 @ fmt_fixed 2 (r_p_revert r) @ '' (uncalibrated; not a probability)'',
               [],
               show_nat (length (pl_inline p) + pl_already_posted p) @ '' posted inline '' @ MIDDOT @ '' ''
                 @ show_nat (length (pl_summary_only p)) @ '' in this summary'',
               ''findings on '' @ show_nat (card (set (map f_file (r_findings r)))) @ '' of ''
                 @ show_nat (r_screened_files r) @ '' screened file'' @ plural (r_screened_files r)])"

definition and_more :: "nat \<Rightarrow> string list" where
  "and_more n =
     (if SUMMARY_LIST_MAX < n
      then [''- '' @ ELLIPSIS @ '' and '' @ show_nat (n - SUMMARY_LIST_MAX) @ '' more''] else [])"

definition listed_lines :: "Plan \<Rightarrow> string list" where
  "listed_lines p =
     (if pl_summary_only p = [] then []
      else [[], ''<details><summary>Findings not posted inline</summary>'', []]
        @ map (\<lambda>(f, reason). ''- '' @ heading f @ '' '' @ BACKTICK # f_file f @ '':'' @ show_nat (f_line f)
                @ BACKTICK # '' '' @ MIDDOT @ '' '' @ describe reason)
            (take SUMMARY_LIST_MAX (pl_summary_only p))
        @ and_more (length (pl_summary_only p))
        @ [[], ''</details>''])"

definition skipped_lines :: "ReviewReport \<Rightarrow> string list" where
  "skipped_lines r =
     (let n = length (r_skipped r) in
      if n = 0 then []
      else [[], ''<details><summary>'' @ show_nat n @ '' request'' @ plural n @ '' failed and ''
                  @ (if n = 1 then ''was'' else ''were'') @ '' skipped (not reviewed)</summary>'', []]
        @ map (\<lambda>k. ''- '' @ BACKTICK # sk_file k @ BACKTICK # '' '' @ MIDDOT @ '' '' @ stage_key (sk_stage k)
                @ '': '' @ sk_reason k) (take SUMMARY_LIST_MAX (r_skipped r))
        @ and_more n
        @ [[], ''</details>''])"

definition scaffold_lines :: "(string \<Rightarrow> string) \<Rightarrow> ReviewReport \<Rightarrow> string list" where
  "scaffold_lines red r =
     (let plans = List.map_filter f_test_plan (r_findings r) in
      if plans = [] then []
      else [[], ''<details><summary>Unfinished test scaffolds</summary>'', []]
        @ concat (map (\<lambda>t.
            [''**'' @ BACKTICK # tp_file t @ '':'' @ show_nat (tp_line t) @ BACKTICK # ''**: '' @ tp_scenario t,
             ''Required assertion: '' @ tp_assertion t,
             ''Repository-specific setup, calls and assertions are still required; no coverage is provided yet.'',
             summary_fenced red (tp_stub t)]) (take MAX_TEST_PLANS plans))
        @ [[], ''</details>''])"

definition unknown_lines :: "(string \<Rightarrow> string) \<Rightarrow> string list \<Rightarrow> string list" where
  "unknown_lines red us = map (\<lambda>u. ''- Unknown: '' @ summary_inline red u) (take SUMMARY_LIST_MAX us)"

definition upgrade_lines :: "(string \<Rightarrow> string) \<Rightarrow> ReviewReport \<Rightarrow> string list" where
  "upgrade_lines red r =
     (case r_upgrades r of
        None \<Rightarrow> []
      | Some u \<Rightarrow>
         [[], ''**Dependency triage (advisory)**: '' @ show_nat (length (us_changes u))
                @ '' dependency changes, '' @ show_nat (length (us_unknowns u))
                @ '' unknown evidence requirements.'']
         @ map (\<lambda>c. ''- '' @ summary_inline red (dc_dependency c) @ '': ''
                 @ summary_version red (dc_old_version c) @ '' '' @ ARROW @ '' ''
                 @ summary_version red (dc_new_version c) @ ''; '' @ summary_inline red (dc_kind c)
                 @ '' in '' @ summary_inline red (dc_ecosystem c) @ ''; '' @ summary_inline red (dc_risk c)
                 @ '' signal. Scope: '' @ summary_inline red (dc_scope c) @ ''.'')
             (take SUMMARY_LIST_MAX (us_changes u))
         @ summary_overflow (length (us_changes u)) ''dependency changes''
         @ unknown_lines red (us_unknowns u)
         @ summary_overflow (length (us_unknowns u)) ''dependency evidence unknowns'')"

definition docs_lines :: "(string \<Rightarrow> string) \<Rightarrow> ReviewReport \<Rightarrow> string list" where
  "docs_lines red r =
     (case r_docs_drift r of
        None \<Rightarrow> []
      | Some d \<Rightarrow>
         [[], ''**Docs comparison (advisory)**: '' @ show_nat (length (dd_checks d)) @ '' checks, ''
                @ show_nat (length (dd_unknowns d))
                @ '' unknown evidence requirements. Supported interface checks only.'']
         @ unknown_lines red (dd_unknowns d)
         @ summary_overflow (length (dd_unknowns d)) ''documentation evidence unknowns'')"

fun status_debug :: "SpecCheckStatus \<Rightarrow> string" where
  "status_debug Drift = ''Drift''"
| "status_debug Matches = ''Matches''"
| "status_debug NotApplicable = ''NotApplicable''"
| "status_debug Uncertain = ''Uncertain''"
| "status_debug Deferred = ''Deferred''"

definition evidence_lines :: "(string \<Rightarrow> string) \<Rightarrow> SpecEvidence option \<Rightarrow> string list" where
  "evidence_lines red e =
     (case e of
        None \<Rightarrow> []
      | Some v \<Rightarrow>
         [BACKTICK # se_path v @ '':'' @ show_nat (se_start_line v) @ EN_DASH
            @ show_nat (se_end_line v) @ [BACKTICK],
          summary_fenced red (se_text v)])"

definition spec_lines :: "(string \<Rightarrow> string) \<Rightarrow> ReviewReport \<Rightarrow> string list" where
  "spec_lines red r =
     (case r_spec_drift r of
        None \<Rightarrow> []
      | Some s \<Rightarrow>
         [[], ''**Spec comparison (advisory)**: '' @ show_nat (length (ss_checks s))
                @ '' comparison outcomes, ''
                @ show_nat (length (filter (\<lambda>c. sc_status c = Drift) (ss_checks s)))
                @ '' possible contradictions. Matches concern visible behavior only; full requirement coverage is not established.'']
         @ concat (map (\<lambda>c.
             (''- '' @ BACKTICK # sc_file c @ BACKTICK # '': '' @ status_debug (sc_status c) @ '' '' @ MIDDOT
               @ '' '' @ sc_reason c) # evidence_lines red (sc_spec c) @ evidence_lines red (sc_source c))
             (take SUMMARY_LIST_MAX (filter (\<lambda>c. sc_status c \<noteq> NotApplicable) (ss_checks s))))
         @ (if SUMMARY_LIST_MAX < length (ss_checks s)
            then [''Additional checks are available in the JSON report and dashboard.''] else []))"

definition footer_parts :: "ReviewReport \<Rightarrow> string \<Rightarrow> string list" where
  "footer_parts r head_sha =
     [''Jev calls: '' @ show_u64 (ug_calls (r_usage r))]
     @ (case r_follow_up_plan r of
          None \<Rightarrow> []
        | Some p \<Rightarrow>
            [''VOI heuristic: '' @ show_nat (length (filter vc_selected (vs_candidates p))) @ '' of ''
               @ show_nat (length (vs_candidates p)) @ '' eligible follow-ups selected''])
     @ (if 0 < ug_input_tokens (r_usage r) + ug_output_tokens (r_usage r)
        then [''tokens: '' @ show_u64 (ug_input_tokens (r_usage r)) @ '' in / ''
                @ show_u64 (ug_output_tokens (r_usage r)) @ '' out''] else [])
     @ (if r_redactions r = [] then []
        else [''redacted before sending: ''
                @ join '', '' (map (\<lambda>(rule, n). rule @ '' '' @ TIMES_SIGN @ show_nat n) (r_redactions r))])
     @ (if chars_take 7 head_sha = [] then [] else [''head '' @ chars_take 7 head_sha])"

definition summary_body :: "(string \<Rightarrow> string) \<Rightarrow> ReviewReport \<Rightarrow> Plan \<Rightarrow> string \<Rightarrow> string" where
  "summary_body red r p head_sha =
     bounded_summary red
       ([''### momus review'', []] @ confidence_summary red r head_sha @ coverage_lines r
        @ count_lines r p @ listed_lines p @ skipped_lines r @ scaffold_lines red r
        @ upgrade_lines red r @ docs_lines red r @ spec_lines red r
        @ [[], ''<sub>'' @ join ('' '' @ MIDDOT @ '' '') (footer_parts r head_sha) @ ''</sub>''])"

end
