(* ===== verification/Publish.thy ===== *)
theory Publish
  imports Github_Review
begin

text \<open>
  \<^verbatim>\<open>src/review/publish.rs\<close>: publishing a report to its pull request as one review and one
  sticky summary comment. The GitHub API (the trait \<open>GitHubApi\<close> of
  \<^verbatim>\<open>src/adapters/github.rs\<close>, a service) is a record of operations on a state of its own, which a
  read may also change (the requests sent so far); what the re-run guarantees rely on is stated as
  the predicate \<open>records_reviews\<close>.
\<close>

definition DEFAULT_MAX_COMMENTS :: nat where
  "DEFAULT_MAX_COMMENTS = 10"

datatype ReviewEvent = CommentEvent | RequestChangesEvent

record PublishOptions =
  op_max_comments :: nat
  op_event :: ReviewEvent
  op_dry_run :: bool

definition default_options :: PublishOptions where
  "default_options =
     \<lparr>op_max_comments = DEFAULT_MAX_COMMENTS, op_event = CommentEvent, op_dry_run = False\<rparr>"

subsection \<open>The GitHub side\<close>

record IssueComment =
  gc_id :: nat
  gc_body :: string
  gc_user_kind :: "string option"
  gc_path :: "string option"
  gc_line :: "nat option"
  gc_original_line :: "nat option"

definition by_bot :: "IssueComment \<Rightarrow> bool" where
  "by_bot c \<longleftrightarrow> gc_user_kind c = Some ''Bot''"

record NewReview =
  nr_commit_id :: string
  nr_event :: string
  nr_body :: string
  nr_comments :: "InlineComment list"

datatype api_error = ApiStatus nat string "string list" | OtherError string

fun is_unresolvable_anchor :: "api_error \<Rightarrow> bool" where
  "is_unresolvable_anchor (ApiStatus status message errors) \<longleftrightarrow>
     status = 422 \<and> list_ex (\<lambda>t. str_contains t ''could not be resolved''
       \<or> str_contains t ''pull_request_review_thread'') (message # errors)"
| "is_unresolvable_anchor (OtherError _) \<longleftrightarrow> False"

record 's Api =
  api_pull_files :: "'s \<Rightarrow> (api_error + PrFile list) \<times> 's"
  api_review_comments :: "'s \<Rightarrow> (api_error + IssueComment list) \<times> 's"
  api_issue_comments :: "'s \<Rightarrow> (api_error + IssueComment list) \<times> 's"
  api_create_review :: "NewReview \<Rightarrow> 's \<Rightarrow> (api_error + unit) \<times> 's"
  api_update_comment :: "nat \<Rightarrow> string \<Rightarrow> 's \<Rightarrow> (api_error + unit) \<times> 's"
  api_create_comment :: "string \<Rightarrow> 's \<Rightarrow> (api_error + unit) \<times> 's"

subsection \<open>Publishing\<close>

datatype SummaryAction = Created | Updated | Unchanged | DryRun

record PublishOutcome =
  out_review :: "NewReview option"
  out_review_rejected :: bool
  out_already_posted :: nat
  out_summary_only :: nat
  out_summary :: string
  out_summary_action :: SummaryAction

definition posted_by_bot :: "IssueComment list \<Rightarrow> Posted" where
  "posted_by_bot comments =
     (let bot = filter by_bot comments in
      \<lparr>po_fingerprints = posted_fingerprints (map gc_body bot),
       po_topics = posted_topics (List.map_filter (\<lambda>c.
         map_option (\<lambda>path. (path, (case gc_line c of None \<Rightarrow> gc_original_line c | Some l \<Rightarrow> Some l), gc_body c))
           (gc_path c)) bot)\<rparr>)"

definition publish_plan ::
  "(string \<Rightarrow> string) \<Rightarrow> 's Api \<Rightarrow> ReviewReport \<Rightarrow> PublishOptions \<Rightarrow> 's \<Rightarrow> (api_error + Plan) \<times> 's" where
  "publish_plan red api report options s =
     (case api_pull_files api s of
        (Inl e, s1) \<Rightarrow> (Inl e, s1)
      | (Inr files, s1) \<Rightarrow>
          (case api_review_comments api s1 of
             (Inl e, s2) \<Rightarrow> (Inl e, s2)
           | (Inr comments, s2) \<Rightarrow>
               (Inr (plan red report files (posted_by_bot comments) (op_max_comments options)), s2)))"

definition new_review :: "string \<Rightarrow> PublishOptions \<Rightarrow> Plan \<Rightarrow> NewReview" where
  "new_review head_sha options p =
     (let blocking = list_ex (\<lambda>(f, _). f_action f = RequestChanges) (pl_inline p);
          n = length (pl_inline p)
      in \<lparr>nr_commit_id = head_sha,
          nr_event = (if op_event options = RequestChangesEvent \<and> blocking then ''REQUEST_CHANGES'' else ''COMMENT''),
          nr_body = ''momus: '' @ show_nat n @ '' new finding'' @ plural n
            @ '' on this diff; the momus summary comment has the rest.'',
          nr_comments = map snd (pl_inline p)\<rparr>)"

text \<open>Posting the review: the plan to summarize, the review and whether it was rejected.\<close>

definition post_review ::
  "'s Api \<Rightarrow> string \<Rightarrow> PublishOptions \<Rightarrow> Plan \<Rightarrow> 's \<Rightarrow> (api_error + Plan \<times> NewReview option \<times> bool) \<times> 's" where
  "post_review api head_sha options p s =
     (if pl_inline p = [] then (Inr (p, None, False), s)
      else let review = new_review head_sha options p in
        if op_dry_run options then (Inr (p, Some review, False), s)
        else case api_create_review api review s of
               (Inr _, s') \<Rightarrow> (Inr (p, Some review, False), s')
             | (Inl e, s') \<Rightarrow>
                 if is_unresolvable_anchor e then (Inr (demote_inline p, None, True), s')
                 else (Inl e, s'))"

definition post_summary ::
  "'s Api \<Rightarrow> PublishOptions \<Rightarrow> string \<Rightarrow> 's \<Rightarrow> (api_error + SummaryAction) \<times> 's" where
  "post_summary api options summary s =
     (case api_issue_comments api s of
        (Inl e, s) \<Rightarrow> (Inl e, s)
      | (Inr comments, s) \<Rightarrow>
          let existing = find (\<lambda>c. by_bot c \<and> starts_with (gc_body c) SUMMARY_MARKER) comments in
          if op_dry_run options then (Inr DryRun, s)
          else case existing of
                 Some c \<Rightarrow>
                   if gc_body c = summary then (Inr Unchanged, s)
                   else (case api_update_comment api (gc_id c) summary s of
                           (Inl e, s') \<Rightarrow> (Inl e, s') | (Inr _, s') \<Rightarrow> (Inr Updated, s'))
               | None \<Rightarrow>
                   (case api_create_comment api summary s of
                      (Inl e, s') \<Rightarrow> (Inl e, s') | (Inr _, s') \<Rightarrow> (Inr Created, s')))"

definition publish ::
  "(string \<Rightarrow> string) \<Rightarrow> 's Api \<Rightarrow> string \<Rightarrow> ReviewReport \<Rightarrow> PublishOptions \<Rightarrow> 's \<Rightarrow>
    (api_error + PublishOutcome) \<times> 's" where
  "publish red api head_sha report options s =
     (case publish_plan red api report options s of
        (Inl e, s) \<Rightarrow> (Inl e, s)
      | (Inr p, s) \<Rightarrow>
          case post_review api head_sha options p s of
            (Inl e, s') \<Rightarrow> (Inl e, s')
          | (Inr (p', review, rejected), s') \<Rightarrow>
              let summary = summary_body red report p' head_sha in
              case post_summary api options summary s' of
                (Inl e, s'') \<Rightarrow> (Inl e, s'')
              | (Inr act, s'') \<Rightarrow>
                  (Inr \<lparr>out_review = review, out_review_rejected = rejected,
                     out_already_posted = pl_already_posted p',
                     out_summary_only = length (pl_summary_only p'),
                     out_summary = summary, out_summary_action = act\<rparr>, s''))"

section \<open>What publishing promises\<close>

text \<open>The bot's review comments that a list holds have these bodies, if it is returned at all.\<close>

definition lists_bodies :: "'s Api \<Rightarrow> string set \<Rightarrow> 's \<Rightarrow> bool" where
  "lists_bodies api bodies s \<longleftrightarrow>
     (\<forall>cs s'. api_review_comments api s = (Inr cs, s') \<longrightarrow> bodies \<subseteq> gc_body ` set (filter by_bot cs))"

text \<open>
  GitHub's side: the comments of a created review are afterwards listed as a bot's review comments,
  and neither reading nor writing the summary removes a review comment.
\<close>

definition records_reviews :: "'s Api \<Rightarrow> bool" where
  "records_reviews api \<longleftrightarrow>
     (\<forall>review s s'. api_create_review api review s = (Inr (), s') \<longrightarrow>
        lists_bodies api (ic_body ` set (nr_comments review)) s')
     \<and> (\<forall>bodies s. lists_bodies api bodies s \<longrightarrow>
          lists_bodies api bodies (snd (api_pull_files api s)) \<and>
          lists_bodies api bodies (snd (api_review_comments api s)) \<and>
          lists_bodies api bodies (snd (api_issue_comments api s)) \<and>
          (\<forall>i t. lists_bodies api bodies (snd (api_update_comment api i t s))) \<and>
          (\<forall>t. lists_bodies api bodies (snd (api_create_comment api t s))))"

lemma post_summary_steps:
  assumes "Q s" "\<And>s. Q s \<Longrightarrow> Q (snd (api_issue_comments api s))"
    "\<And>s i t. Q s \<Longrightarrow> \<not> op_dry_run options \<Longrightarrow> Q (snd (api_update_comment api i t s))"
    "\<And>s t. Q s \<Longrightarrow> \<not> op_dry_run options \<Longrightarrow> Q (snd (api_create_comment api t s))"
  shows "Q (snd (post_summary api options summary s))"
proof -
  obtain r s1 where read: "api_issue_comments api s = (r, s1)" by fastforce
  have Q: "Q s1" using assms(1) assms(2) [of s] read by simp
  show ?thesis
    using Q assms(3) [OF Q] assms(4) [OF Q]
    by (auto simp: post_summary_def read Let_def split: sum.splits prod.splits option.splits) (metis snd_conv)+
qed

lemma post_summary_keeps_reviews:
  "records_reviews api \<Longrightarrow> lists_bodies api bodies s \<Longrightarrow>
    lists_bodies api bodies (snd (post_summary api options summary s))"
  by (rule post_summary_steps) (auto simp: records_reviews_def)

lemma posted_fingerprints_mono:
  "set xs \<subseteq> set ys \<Longrightarrow> posted_fingerprints xs \<subseteq> posted_fingerprints ys"
  by (auto simp: posted_fingerprints_def)

text \<open>The review a successful run reports was accepted by the API, in the state before the summary.\<close>

lemma publish_review:
  assumes "publish red api head_sha report options s = (Inr out, s')"
    and "out_review out = Some review" and "\<not> op_dry_run options"
    and "publish_plan red api report options s = (Inr p, s0)"
  obtains s1 where "api_create_review api review s0 = (Inr (), s1)"
    and "nr_comments review = map snd (pl_inline p)"
    and "s' = snd (post_summary api options (out_summary out) s1)"
  using assms
  by (auto simp: publish_def post_review_def new_review_def Let_def
      split: sum.splits prod.splits if_splits)

lemma publish_plan_Inr:
  "publish_plan red api report options s = (Inr p, s') \<longleftrightarrow>
     (\<exists>files cs s1. api_pull_files api s = (Inr files, s1) \<and> api_review_comments api s1 = (Inr cs, s') \<and>
        p = plan red report files (posted_by_bot cs) (op_max_comments options))"
  by (auto simp: publish_plan_def split: prod.splits sum.splits)


text \<open>
  A property of GitHub's side that every operation used keeps is kept; a dry run uses only the reads.
\<close>

lemma publish_steps:
  assumes start: "Q s"
    and reads: "\<And>s. Q s \<Longrightarrow> Q (snd (api_pull_files api s))" "\<And>s. Q s \<Longrightarrow> Q (snd (api_review_comments api s))"
      "\<And>s. Q s \<Longrightarrow> Q (snd (api_issue_comments api s))"
    and writes: "\<And>s p. Q s \<Longrightarrow> \<not> op_dry_run options \<Longrightarrow> Q (snd (api_create_review api (new_review head_sha options p) s))"
      "\<And>s i t. Q s \<Longrightarrow> \<not> op_dry_run options \<Longrightarrow> Q (snd (api_update_comment api i t s))"
      "\<And>s t. Q s \<Longrightarrow> \<not> op_dry_run options \<Longrightarrow> Q (snd (api_create_comment api t s))"
  shows "Q (snd (publish red api head_sha report options s))"
proof -
  obtain r s1 where planned: "publish_plan red api report options s = (r, s1)" by fastforce
  have Q1: "Q s1"
    using start reads(1) [of s] reads(2) [of "snd (api_pull_files api s)"] planned
    by (auto simp: publish_plan_def split: prod.splits sum.splits)
  show ?thesis
  proof (cases r)
    case (Inl e)
    with planned Q1 show ?thesis by (simp add: publish_def)
  next
    case (Inr p)
    obtain x s2 where posted: "post_review api head_sha options p s1 = (x, s2)" by fastforce
    have Q2: "Q s2"
      using Q1 writes(1) [OF Q1, of p] posted
      by (auto simp: post_review_def Let_def split: if_splits prod.splits sum.splits)
    have "Q (snd (post_summary api options t s2))" for t
      using Q2 reads(3) writes(2,3) by (rule post_summary_steps)
    with planned Inr posted Q2 show ?thesis
      by (auto simp: publish_def Let_def split: sum.splits prod.splits) (metis snd_conv)+
  qed
qed

subsection \<open>A pull request in memory\<close>

definition memory_comment :: "InlineComment \<Rightarrow> IssueComment" where
  "memory_comment c = \<lparr>gc_id = 0, gc_body = ic_body c, gc_user_kind = Some ''Bot'',
     gc_path = Some (ic_path c), gc_line = Some (ic_line c), gc_original_line = None\<rparr>"

definition memory_api :: "(IssueComment list \<times> string option) Api" where
  "memory_api =
     \<lparr>api_pull_files = (\<lambda>s. (Inr [\<lparr>pr_filename = ''a'', pr_patch = Some (''@@ -0,0 +1 @@'' @ NL # ''+x'')\<rparr>], s)),
      api_review_comments = (\<lambda>(cs, summary). (Inr cs, (cs, summary))),
      api_issue_comments = (\<lambda>(cs, summary). (Inr (case summary of None \<Rightarrow> []
        | Some t \<Rightarrow> [\<lparr>gc_id = 1, gc_body = t, gc_user_kind = Some ''Bot'', gc_path = None,
            gc_line = None, gc_original_line = None\<rparr>]), (cs, summary))),
      api_create_review = (\<lambda>review (cs, summary). (Inr (), (cs @ map memory_comment (nr_comments review), summary))),
      api_update_comment = (\<lambda>_ t (cs, _). (Inr (), (cs, Some t))),
      api_create_comment = (\<lambda>t (cs, _). (Inr (), (cs, Some t)))\<rparr>"

lemma memory_api_records: "records_reviews memory_api"
proof -
  have "by_bot (memory_comment c)" "gc_body (memory_comment c) = ic_body c" for c
    by (simp_all add: memory_comment_def by_bot_def)
  then show ?thesis
    by (auto simp: records_reviews_def lists_bodies_def memory_api_def)
      (metis (mono_tags, lifting) UnCI image_eqI mem_Collect_eq)
qed

definition example_finding :: Finding where
  "example_finding = default_finding\<lparr>f_file := ''a'', f_line := 1, f_fingerprint := ''ab''\<rparr>"

definition example_report :: ReviewReport where
  "example_report = default_report\<lparr>r_findings := [example_finding]\<rparr>"

lemma example_plan:
  "publish_plan red memory_api example_report default_options ([], summary) =
     (Inr \<lparr>pl_inline = [(example_finding, inline_comment red example_finding)],
          pl_summary_only = [], pl_already_posted = 0\<rparr>, ([], summary))"
proof -
  have "header_start ''@@ -0,0 +1 @@'' = 1"
    by (simp add: header_start_def header_token_def parse_eval)
  then have "commentable_lines (''@@ -0,0 +1 @@'' @ NL # ''+x'') = {1}"
    by (simp add: commentable_lines_def parse_hunks_def flush_def)
  then have "anchored [\<lparr>pr_filename = ''a'', pr_patch = Some (''@@ -0,0 +1 @@'' @ NL # ''+x'')\<rparr>] example_finding"
    by (simp add: anchored_def commentable_map_def example_finding_def List.map_filter_simps)
  then show ?thesis
    by (simp add: publish_plan_def memory_api_def posted_by_bot_def posted_fingerprints_def
        posted_topics_def List.map_filter_simps plan_def plan_step.simps Let_def posted_has_def
        posted_has_near_def summary_reason_def default_options_def DEFAULT_MAX_COMMENTS_def
        default_plan_def example_report_def default_report_def)
qed

lemma memory_create_review:
  "\<exists>cs'. api_create_review memory_api review (cs, summary) = (Inr (), (cs', summary))"
  by (simp add: memory_api_def)

lemma memory_post_summary:
  "post_summary memory_api default_options t (cs, None) = (Inr Created, (cs, Some t))"
  by (simp add: post_summary_def default_options_def memory_api_def Let_def)

lemma memory_plan: "\<exists>p. publish_plan red memory_api report options s = (Inr p, s)"
  by (cases s) (simp add: publish_plan_def memory_api_def)

lemma example_publish:
  obtains out s' where "publish red memory_api sha example_report default_options ([], None) = (Inr out, s')"
    and "out_review out \<noteq> None"
proof -
  obtain cs' where "api_create_review memory_api (new_review sha default_options
      \<lparr>pl_inline = [(example_finding, inline_comment red example_finding)],
       pl_summary_only = [], pl_already_posted = 0\<rparr>) ([], None) = (Inr (), (cs', None))"
    using memory_create_review by blast
  moreover have "\<not> op_dry_run default_options" by (simp add: default_options_def)
  ultimately show ?thesis
    using that example_plan [of red None]
    by (simp add: publish_def post_review_def memory_post_summary Let_def)
qed


end
