(* ===== verification/Json.thy ===== *)
theory Json
  imports Rust_Strings
begin

text \<open>
  \<open>serde_json::Value\<close>. An object is a \<open>BTreeMap\<close>: its entries are kept in the order of their keys,
  so that equality of values does not depend on the order of insertion. A number is the \<open>f64\<close> it is
  read as; a number that is not finite serializes as null.
\<close>

datatype json =
    JNull
  | JBool bool
  | JNum f64
  | JStr string
  | JArr "json list"
  | JObj "(string \<times> json) list"

text \<open>\<open>Map::insert\<close> and an object built by the \<open>json!\<close> macro or by repeated insertion.\<close>

fun map_insert :: "string \<Rightarrow> 'v \<Rightarrow> (string \<times> 'v) list \<Rightarrow> (string \<times> 'v) list" where
  "map_insert k v [] = [(k, v)]"
| "map_insert k v ((k', v') # kvs) =
     (case cmp k k' of
        Less \<Rightarrow> (k, v) # (k', v') # kvs
      | Equal \<Rightarrow> (k, v) # kvs
      | Greater \<Rightarrow> (k', v') # map_insert k v kvs)"

definition map_extend :: "(string \<times> 'v) list \<Rightarrow> (string \<times> 'v) list \<Rightarrow> (string \<times> 'v) list" where
  "map_extend m kvs = foldl (\<lambda>m (k, v). map_insert k v m) m kvs"

definition obj :: "(string \<times> json) list \<Rightarrow> json" where
  "obj kvs = JObj (map_extend [] kvs)"

definition jnum :: "f64 \<Rightarrow> json" where
  "jnum x = (if is_finite x then JNum x else JNull)"

definition jnat :: "nat \<Rightarrow> json" where
  "jnat n = JNum (f64_of_nat n)"

definition strs :: "string list \<Rightarrow> json" where
  "strs ss = JArr (map JStr ss)"

text \<open>\<open>Value::get\<close> with a key, \<open>as_f64\<close>, \<open>as_str\<close>, \<open>as_object\<close>.\<close>

fun json_get :: "string \<Rightarrow> json \<Rightarrow> json option" where
  "json_get k (JObj kvs) = map_of kvs k"
| "json_get k _ = None"

fun as_f64 :: "json \<Rightarrow> f64 option" where
  "as_f64 (JNum x) = Some x"
| "as_f64 _ = None"

fun as_str :: "json \<Rightarrow> string option" where
  "as_str (JStr s) = Some s"
| "as_str _ = None"

fun as_object :: "json \<Rightarrow> (string \<times> json) list option" where
  "as_object (JObj kvs) = Some kvs"
| "as_object _ = None"

section \<open>Objects as maps\<close>

lemma map_of_map_insert [simp]: "map_of (map_insert k v m) = (map_of m)(k \<mapsto> v)"
  by (induction k v m rule: map_insert.induct) (auto simp: cmp_def split: ordering.splits if_splits)

lemma keys_map_insert: "set (map fst (map_insert k v m)) = insert k (set (map fst m))"
  by (induction k v m rule: map_insert.induct) (auto simp: cmp_def split: ordering.splits if_splits)

lemma set_map_insert: "set (map_insert k v m) \<subseteq> insert (k, v) (set m)"
  by (induction k v m rule: map_insert.induct) (auto simp: cmp_def split: ordering.splits if_splits)

lemma length_map_insert: "k \<notin> set (map fst m) \<Longrightarrow> length (map_insert k v m) = Suc (length m)"
  by (induction k v m rule: map_insert.induct) (auto simp: cmp_def split: ordering.splits if_splits)

text \<open>The entries of a \<open>BTreeMap\<close> are in the order of their keys.\<close>

abbreviation ordered_map :: "(string \<times> 'v) list \<Rightarrow> bool" where
  "ordered_map m \<equiv> sorted_wrt (<) (map fst m)"

lemma ordered_distinct: "ordered_map m \<Longrightarrow> distinct (map fst m)"
  by (simp add: strict_sorted_iff)

lemma ordered_map_insert [simp]: "ordered_map m \<Longrightarrow> ordered_map (map_insert k v m)"
proof (induction k v m rule: map_insert.induct)
  case (2 k v k' v' kvs)
  have "\<forall>x \<in> set (map fst (map_insert k v kvs)). x = k \<or> x \<in> set (map fst kvs)"
    by (simp only: keys_map_insert) blast
  with 2 show ?case by (fastforce simp: cmp_def)
qed simp

lemma mset_map_insert: "k \<notin> set (map fst m) \<Longrightarrow> mset (map_insert k v m) = add_mset (k, v) (mset m)"
  by (induction k v m rule: map_insert.induct) (auto simp: cmp_def)

lemma map_of_map_extend:
  "distinct (map fst kvs) \<Longrightarrow> map_of (map_extend m kvs) k = (case map_of kvs k of Some v \<Rightarrow> Some v | None \<Rightarrow> map_of m k)"
proof (induction kvs arbitrary: m)
  case (Cons kv kvs)
  obtain k' v' where kv: "kv = (k', v')" by (cases kv)
  have "map_extend m (kv # kvs) = map_extend (map_insert k' v' m) kvs" by (simp add: map_extend_def kv)
  moreover have "map_of kvs k' = None" using Cons.prems by (simp add: kv map_of_eq_None_iff)
  ultimately show ?case using Cons by (cases "k = k'") (simp_all add: kv split: option.split)
qed (simp add: map_extend_def)

lemma json_get_obj:
  "distinct (map fst kvs) \<Longrightarrow> json_get k (obj kvs) = map_of kvs k"
  by (simp add: obj_def map_of_map_extend split: option.splits)

end
