(* ===== verification/Redact.thy ===== *)
theory Redact
  imports Json
begin

text \<open>
  Credential redaction (\<open>domain/redact.rs\<close>): the rules in order with their guards, the entropy
  fallback, the line-by-line treatment of PEM blocks, the walk over JSON values and the log.

  The patterns are regular expressions of the \<open>regex\<close> crate, parameters here: \<open>dt_rule i\<close> gives the
  successive matches of the \<open>i\<close>-th rule, each with its range and the range of group 1. The hasher of
  the log is a parameter too.
\<close>

record Capture =
  cap_start :: nat
  cap_stop :: nat
  cap_group :: "(nat \<times> nat) option"

record Detectors =
  dt_rule :: "nat \<Rightarrow> string \<Rightarrow> Capture list"
  dt_entropy :: "string \<Rightarrow> Capture list"
  dt_identifier :: "string \<Rightarrow> bool"
  dt_pem_begin :: "string \<Rightarrow> (nat \<times> nat) option"
  dt_pem_end :: "string \<Rightarrow> (nat \<times> nat) option"
  dt_pem_body :: "string \<Rightarrow> bool"

type_synonym Redactions = "(string \<times> string) list"

definition PLACEHOLDER_PREFIX :: string where "PLACEHOLDER_PREFIX = ''<redacted:''"

definition placeholder :: "string \<Rightarrow> string" where
  "placeholder rule = PLACEHOLDER_PREFIX @ rule @ ''>''"

datatype Guard = NoGuard | ReferenceGuard | BenignGuard

definition RULES :: "(string \<times> Guard) list" where
  "RULES =
    [(''aws-access-key'', NoGuard), (''github-token'', NoGuard), (''github-token'', NoGuard),
     (''gitlab-token'', NoGuard), (''slack-token'', NoGuard), (''slack-webhook'', NoGuard),
     (''stripe-key'', NoGuard), (''google-api-key'', NoGuard), (''anthropic-key'', NoGuard),
     (''openai-key'', NoGuard), (''jwt'', NoGuard), (''url-credentials'', ReferenceGuard),
     (''generic-secret'', BenignGuard), (''generic-secret'', BenignGuard)]"

definition is_reference :: "string \<Rightarrow> bool" where
  "is_reference v \<longleftrightarrow>
     starts_with v PLACEHOLDER_PREFIX \<or> starts_with v ''$'' \<or> starts_with v ''{'' \<or> starts_with v ''<''
     \<or> str_contains v ''process.env'' \<or> str_contains v ''${'' \<or> str_contains v ''{{''
     \<or> list_all (\<lambda>c. c \<in> set ''*xX.'') v"

definition is_ascii :: "string \<Rightarrow> bool" where
  "is_ascii v \<longleftrightarrow> list_all (\<lambda>c. (of_char c :: nat) < 128) v"

definition is_benign_value :: "Detectors \<Rightarrow> string \<Rightarrow> bool" where
  "is_benign_value dt v \<longleftrightarrow>
     (let translated = \<not> is_ascii v \<and> \<not> list_ex is_digit v
      in is_reference v \<or> starts_with v ''%'' \<or> translated \<or> dt_identifier dt v)"

definition entropy :: "string \<Rightarrow> f64" where
  "entropy s =
     f64_sum (map (\<lambda>c. let p = real (count_list (chars s) c) / real (char_count s) in Fin (- p * log 2 p))
       (sort (remdups (chars s))))"

definition looks_random :: "string \<Rightarrow> bool" where
  "looks_random v \<longleftrightarrow>
     list_ex (\<lambda>c. c \<in> {CHR ''A''..CHR ''Z''}) v \<and> list_ex (\<lambda>c. c \<in> {CHR ''a''..CHR ''z''}) v
     \<and> list_ex is_digit v \<and> \<not> str_contains v ''//''
     \<and> \<not> list_ex (\<lambda>run. str_contains v run) [''abcdef'', ''ABCDEF'', ''012345'']
     \<and> Fin 4.3 \<le> entropy v"

text \<open>\<open>Regex::replace_all\<close> with a closure that also pushes to the accumulator.\<close>

fun replace_all ::
  "(string \<Rightarrow> Capture \<Rightarrow> Redactions \<Rightarrow> string \<times> Redactions) \<Rightarrow> string \<Rightarrow> nat \<Rightarrow> Capture list \<Rightarrow>
    Redactions \<Rightarrow> string \<times> Redactions" where
  "replace_all g txt pos [] found = (drop pos txt, found)"
| "replace_all g txt pos (c # cs) found =
     (case g txt c found of (r, found') \<Rightarrow>
      case replace_all g txt (cap_stop c) cs found' of (rest, found'') \<Rightarrow>
        (drop pos (take (cap_start c) txt) @ r @ rest, found''))"

abbreviation slice :: "nat \<Rightarrow> nat \<Rightarrow> string \<Rightarrow> string" where
  "slice a b s \<equiv> drop a (take b s)"

definition replace_group ::
  "Detectors \<Rightarrow> string \<times> Guard \<Rightarrow> string \<Rightarrow> Capture \<Rightarrow> Redactions \<Rightarrow> string \<times> Redactions" where
  "replace_group dt rule txt c found =
     (let whole = slice (cap_start c) (cap_stop c) txt in
      case cap_group c of
        None \<Rightarrow> (whole, found)
      | Some (s, e) \<Rightarrow>
          let secret = slice s e txt;
              skip = (case snd rule of NoGuard \<Rightarrow> False | ReferenceGuard \<Rightarrow> is_reference secret
                                     | BenignGuard \<Rightarrow> is_benign_value dt secret)
          in if skip then (whole, found)
             else (slice (cap_start c) s txt @ placeholder (fst rule) @ slice e (cap_stop c) txt,
                   found @ [(fst rule, secret)]))"

text \<open>\<open>whole.replacen(value, with, 1)\<close>\<close>

fun replace_first :: "string \<Rightarrow> string \<Rightarrow> string \<Rightarrow> string" where
  "replace_first pat rep s =
     (if prefix pat s then rep @ drop (length pat) s
      else case s of [] \<Rightarrow> [] | c # cs \<Rightarrow> c # replace_first pat rep cs)"

declare replace_first.simps [simp del]

definition replace_entropy :: "Detectors \<Rightarrow> string \<Rightarrow> Capture \<Rightarrow> Redactions \<Rightarrow> string \<times> Redactions" where
  "replace_entropy dt txt c found =
     (let whole = slice (cap_start c) (cap_stop c) txt;
          v = (case cap_group c of Some (s, e) \<Rightarrow> slice s e txt | None \<Rightarrow> [])
      in if is_benign_value dt v \<or> \<not> looks_random v then (whole, found)
         else (replace_first v (placeholder ''high-entropy'') whole, found @ [(''high-entropy'', v)]))"

subsection \<open>PEM blocks\<close>

record PemState =
  pm_out :: string
  pm_open :: bool
  pm_body :: string
  pm_found :: Redactions

definition split_inclusive :: "string \<Rightarrow> (string \<times> string) list" where
  "split_inclusive txt =
     (let ps = split_on NL txt
      in map (\<lambda>p. (p, [NL])) (butlast ps) @ (if last ps = [] then [] else [(last ps, [])]))"

definition PEM_RULE :: string where "PEM_RULE = ''private-key''"

definition pem_closed :: "Detectors \<Rightarrow> string \<Rightarrow> PemState \<Rightarrow> PemState" where
  "pem_closed dt content s =
     (case dt_pem_begin dt content of
        Some (b, e) \<Rightarrow>
          let rest = drop e content in
          (case dt_pem_end dt rest of
             Some (b', e') \<Rightarrow>
               s\<lparr>pm_found := pm_found s @ [(PEM_RULE, take b' rest)],
                 pm_out := pm_out s @ take b content @ placeholder PEM_RULE @ drop e' rest\<rparr>
           | None \<Rightarrow>
               if dt_pem_body dt rest then
                 s\<lparr>pm_body := rest, pm_out := pm_out s @ take b content @ placeholder PEM_RULE,
                   pm_open := True\<rparr>
               else s\<lparr>pm_out := pm_out s @ content\<rparr>)
      | None \<Rightarrow> s\<lparr>pm_out := pm_out s @ content\<rparr>)"

definition marker_len :: "string \<Rightarrow> nat" where
  "marker_len content = of_bool (content \<noteq> [] \<and> hd content \<in> set ''+- '')"

definition pem_opened :: "Detectors \<Rightarrow> string \<Rightarrow> PemState \<Rightarrow> PemState" where
  "pem_opened dt content s =
     (let m = marker_len content; payload = drop m content in
      case dt_pem_end dt payload of
        Some (b, e) \<Rightarrow>
          s\<lparr>pm_found := pm_found s @ [(PEM_RULE, pm_body s @ take b payload)], pm_body := [],
            pm_out := pm_out s @ take m content @ drop e payload, pm_open := False\<rparr>
      | None \<Rightarrow>
          if dt_pem_body dt payload then
            s\<lparr>pm_body := pm_body s @ payload, pm_out := pm_out s @ take m content\<rparr>
          else
            s\<lparr>pm_found := pm_found s @ [(PEM_RULE, pm_body s)], pm_body := [],
              pm_out := pm_out s @ content, pm_open := False\<rparr>)"

definition pem_line :: "Detectors \<Rightarrow> PemState \<Rightarrow> string \<times> string \<Rightarrow> PemState" where
  "pem_line dt s line =
     (case line of (content, newline) \<Rightarrow>
      let s' = (if pm_open s then pem_opened dt content s else pem_closed dt content s)
      in s'\<lparr>pm_out := pm_out s' @ newline\<rparr>)"

definition redact_pem :: "Detectors \<Rightarrow> string \<Rightarrow> Redactions \<Rightarrow> string \<times> Redactions" where
  "redact_pem dt txt found =
     (if dt_pem_begin dt txt = None then (txt, found)
      else
        let s = foldl (pem_line dt) \<lparr>pm_out = [], pm_open = False, pm_body = [], pm_found = found\<rparr>
                  (split_inclusive txt)
        in (pm_out s, if pm_open s then pm_found s @ [(PEM_RULE, pm_body s)] else pm_found s))"

subsection \<open>Texts, values and the log\<close>

fun redact_rules :: "Detectors \<Rightarrow> nat \<Rightarrow> (string \<times> Guard) list \<Rightarrow> string \<Rightarrow> Redactions \<Rightarrow> string \<times> Redactions" where
  "redact_rules dt i [] out found = (out, found)"
| "redact_rules dt i (rule # rules) out found =
     (case replace_all (replace_group dt rule) out 0 (dt_rule dt i out) found of
        (out', found') \<Rightarrow> redact_rules dt (i + 1) rules out' found')"

definition redact :: "Detectors \<Rightarrow> string \<Rightarrow> Redactions \<Rightarrow> string \<times> Redactions" where
  "redact dt txt found =
     (case redact_pem dt txt found of (out, found1) \<Rightarrow>
      case redact_rules dt 0 RULES out found1 of (out', found2) \<Rightarrow>
        replace_all (replace_entropy dt) out' 0 (dt_entropy dt out') found2)"

fun redact_value :: "Detectors \<Rightarrow> json \<Rightarrow> Redactions \<Rightarrow> json \<times> Redactions"
  and redact_items :: "Detectors \<Rightarrow> json list \<Rightarrow> Redactions \<Rightarrow> json list \<times> Redactions"
  and redact_entries :: "Detectors \<Rightarrow> (string \<times> json) list \<Rightarrow> Redactions \<Rightarrow> (string \<times> json) list \<times> Redactions" where
  "redact_value dt (JStr s) found = (case redact dt s found of (s', found') \<Rightarrow> (JStr s', found'))"
| "redact_value dt (JArr vs) found = (case redact_items dt vs found of (vs', found') \<Rightarrow> (JArr vs', found'))"
| "redact_value dt (JObj kvs) found = (case redact_entries dt kvs found of (kvs', found') \<Rightarrow> (JObj kvs', found'))"
| "redact_value dt JNull found = (JNull, found)"
| "redact_value dt (JBool b) found = (JBool b, found)"
| "redact_value dt (JNum x) found = (JNum x, found)"
| "redact_items dt [] found = ([], found)"
| "redact_items dt (v # vs) found =
     (case redact_value dt v found of (v', found') \<Rightarrow>
      case redact_items dt vs found' of (vs', found'') \<Rightarrow> (v' # vs', found''))"
| "redact_entries dt [] found = ([], found)"
| "redact_entries dt ((k, v) # kvs) found =
     (case redact_value dt v found of (v', found') \<Rightarrow>
      case redact_entries dt kvs found' of (kvs', found'') \<Rightarrow> ((k, v') # kvs', found''))"

type_synonym RedactionLog = "string \<Rightarrow> nat set"

definition log_record :: "(string \<Rightarrow> nat) \<Rightarrow> Redactions \<Rightarrow> RedactionLog \<Rightarrow> RedactionLog" where
  "log_record hasher found seen =
     foldl (\<lambda>seen (rule, secret). seen(rule := insert (hasher secret) (seen rule))) seen found"

definition log_summary :: "RedactionLog \<Rightarrow> string \<rightharpoonup> nat" where
  "log_summary seen = (\<lambda>rule. if seen rule = {} then None else Some (card (seen rule)))"

section \<open>Lines survive redaction\<close>

text \<open>
  What the patterns of the source guarantee: successive matches lie one after the other within the
  text, group 1 lies within its match, and no secret contains a newline; the PEM markers lie within
  the line.
\<close>

fun caps_ok :: "string \<Rightarrow> nat \<Rightarrow> Capture list \<Rightarrow> bool" where
  "caps_ok txt pos [] \<longleftrightarrow> True"
| "caps_ok txt pos (c # cs) \<longleftrightarrow>
     pos \<le> cap_start c \<and> cap_start c \<le> cap_stop c \<and> cap_stop c \<le> length txt \<and>
     (case cap_group c of None \<Rightarrow> True
      | Some (s, e) \<Rightarrow> cap_start c \<le> s \<and> s \<le> e \<and> e \<le> cap_stop c \<and> NL \<notin> set (slice s e txt)) \<and>
     caps_ok txt (cap_stop c) cs"

definition span_ok :: "string \<Rightarrow> (nat \<times> nat) option \<Rightarrow> bool" where
  "span_ok s r = (case r of None \<Rightarrow> True | Some (b, e) \<Rightarrow> b \<le> e \<and> e \<le> length s)"

definition well_behaved :: "Detectors \<Rightarrow> bool" where
  "well_behaved dt \<longleftrightarrow>
     (\<forall>i txt. caps_ok txt 0 (dt_rule dt i txt)) \<and> (\<forall>txt. caps_ok txt 0 (dt_entropy dt txt)) \<and>
     (\<forall>s. span_ok s (dt_pem_begin dt s)) \<and> (\<forall>s. span_ok s (dt_pem_end dt s))"

text \<open>
  \<open>redacted txt found (out, found')\<close>: \<open>out\<close> has the newlines of \<open>txt\<close>, \<open>found'\<close> extends \<open>found\<close>, and
  where it adds nothing \<open>out\<close> is \<open>txt\<close>.
\<close>

definition redacted :: "string \<Rightarrow> Redactions \<Rightarrow> string \<times> Redactions \<Rightarrow> bool" where
  "redacted txt found r \<longleftrightarrow>
     count_list (fst r) NL = count_list txt NL \<and>
     (\<exists>new. snd r = found @ new \<and> (new = [] \<longrightarrow> fst r = txt))"

lemma redacted_refl [simp]: "redacted txt found (txt, found)"
  by (simp add: redacted_def)

lemma redacted_trans:
  "redacted txt found (out, found1) \<Longrightarrow> redacted out found1 r \<Longrightarrow> redacted txt found r"
  by (fastforce simp: redacted_def)

lemma redacted_append:
  "redacted t1 found (o1, found1) \<Longrightarrow> redacted t2 found1 (o2, found2) \<Longrightarrow>
    redacted (t0 @ t1 @ t2) found (t0 @ o1 @ o2, found2)"
  by (fastforce simp: redacted_def)

lemma redacted_logged:
  "count_list out NL = count_list txt NL \<Longrightarrow> new \<noteq> [] \<Longrightarrow> redacted txt found (out, found @ new)"
  by (simp add: redacted_def)

lemma slices:
  assumes "a \<le> b" "b \<le> c"
  shows "slice a c s = slice a b s @ slice b c s"
  using assms drop_split [of a b "take c s"] by (simp add: min.absorb1)

lemma count_NL_0: "NL \<notin> set s \<Longrightarrow> count_list s NL = 0"
  by (simp add: count_list_0_iff)

lemma placeholder_no_NL:
  "NL \<notin> set rule \<Longrightarrow> count_list (placeholder rule) NL = 0"
  by (simp add: placeholder_def PLACEHOLDER_PREFIX_def)

lemma replace_all_redacted:
  assumes "caps_ok txt pos cs" "pos \<le> length txt"
    and g: "\<And>p c found. caps_ok txt p [c] \<Longrightarrow> redacted (slice (cap_start c) (cap_stop c) txt) found (g txt c found)"
  shows "redacted (drop pos txt) found (replace_all g txt pos cs found)"
  using assms(1,2)
proof (induction cs arbitrary: pos found)
  case (Cons c cs)
  obtain r found1 where r: "g txt c found = (r, found1)" by force
  obtain rest found2 where rest: "replace_all g txt (cap_stop c) cs found1 = (rest, found2)" by force
  have c: "caps_ok txt pos [c]" "pos \<le> cap_start c" "cap_start c \<le> cap_stop c" "cap_stop c \<le> length txt"
    "caps_ok txt (cap_stop c) cs" using Cons.prems by simp_all
  have "drop pos txt = slice pos (cap_start c) txt @ slice (cap_start c) (cap_stop c) txt @ drop (cap_stop c) txt"
    using drop_split [OF c(2), of "txt"] drop_split [OF c(3), of "txt"] by simp
  moreover have "redacted (slice (cap_start c) (cap_stop c) txt) found (r, found1)" using g [OF c(1), of found] r by simp
  moreover have "redacted (drop (cap_stop c) txt) found1 (rest, found2)"
    using Cons.IH [OF c(5) c(4), of found1] rest by simp
  ultimately show ?case using redacted_append r rest by simp
qed simp

lemma replace_group_redacted:
  assumes "caps_ok txt p [c]" and "NL \<notin> set (fst rule)"
  shows "redacted (slice (cap_start c) (cap_stop c) txt) found (replace_group dt rule txt c found)"
proof (cases "cap_group c")
  case (Some g)
  obtain s e where g: "g = (s, e)" by (cases g)
  have ok: "cap_start c \<le> s" "s \<le> e" "e \<le> cap_stop c" "NL \<notin> set (slice s e txt)"
    using assms(1) Some g by simp_all
  have "slice (cap_start c) (cap_stop c) txt
      = slice (cap_start c) s txt @ slice s e txt @ slice e (cap_stop c) txt"
    using slices [of "cap_start c" s "cap_stop c" "txt"] slices [of s e "cap_stop c" "txt"] ok by simp
  then have "count_list (slice (cap_start c) s txt @ placeholder (fst rule) @ slice e (cap_stop c) txt) NL
      = count_list (slice (cap_start c) (cap_stop c) txt) NL"
    using count_NL_0 [OF ok(4)] placeholder_no_NL [OF assms(2)] by simp
  then show ?thesis using Some g
    by (simp add: replace_group_def Let_def redacted_logged split: Guard.splits)
qed (simp add: replace_group_def)

lemma count_replace_first:
  assumes "NL \<notin> set pat" and "NL \<notin> set rep"
  shows "count_list (replace_first pat rep s) NL = count_list s NL"
proof (induction s)
  case Nil
  then show ?case using assms by (simp add: replace_first.simps [of _ _ "[]"] count_NL_0)
next
  case (Cons x s)
  show ?case
  proof (cases "prefix pat (x # s)")
    case True
    then obtain t where t: "x # s = pat @ t" by (auto elim: prefixE)
    have "count_list (x # s) NL = count_list t NL" unfolding t using count_NL_0 [OF assms(1)] by simp
    then show ?thesis using count_NL_0 [OF assms(2)] True unfolding replace_first.simps [of _ _ "x # s"]
      by (simp add: t del: count_list.simps)
  next
    case False
    then show ?thesis using Cons by (simp add: replace_first.simps [of _ _ "x # s"])
  qed
qed

lemma replace_entropy_redacted:
  assumes "caps_ok txt p [c]"
  shows "redacted (slice (cap_start c) (cap_stop c) txt) found (replace_entropy dt txt c found)"
proof -
  define v where "v = (case cap_group c of Some (s, e) \<Rightarrow> slice s e txt | None \<Rightarrow> [])"
  have "NL \<notin> set v" using assms by (auto simp: v_def split: option.splits)
  moreover have "NL \<notin> set (placeholder ''high-entropy'')"
    by (simp add: placeholder_def PLACEHOLDER_PREFIX_def)
  ultimately show ?thesis
    by (simp add: replace_entropy_def Let_def redacted_logged count_replace_first flip: v_def)
qed

subsection \<open>PEM blocks\<close>

lemma split_inclusive_concat: "concat (map (\<lambda>(c, n). c @ n) (split_inclusive txt)) = txt"
proof -
  have *: "concat (map (\<lambda>p. p @ [NL]) (butlast ps)) @ last ps = join [NL] ps" if "ps \<noteq> []" for ps
    using that by (induction ps rule: induct_list012) auto
  show ?thesis using * [OF split_on_ne, of NL "txt"]
    by (cases "last (split_on NL txt) = []") (simp_all add: split_inclusive_def Let_def comp_def)
qed

lemma split_inclusive_lines: "(c, n) \<in> set (split_inclusive txt) \<Longrightarrow> NL \<notin> set c"
  using split_on_pieces [of c NL "txt"]
  by (auto simp: split_inclusive_def Let_def dest: in_set_butlastD split: if_splits)

definition pem_inv :: "Redactions \<Rightarrow> string \<Rightarrow> PemState \<Rightarrow> bool" where
  "pem_inv found done_txt s \<longleftrightarrow>
     count_list (pm_out s) NL = count_list done_txt NL \<and>
     (\<exists>new. pm_found s = found @ new \<and> (new = [] \<longrightarrow> \<not> pm_open s \<longrightarrow> pm_out s = done_txt))"

lemma count_no_NL [simp]:
  "NL \<notin> set s \<Longrightarrow> count_list (take k s) NL = 0" "NL \<notin> set s \<Longrightarrow> count_list (drop k s) NL = 0"
  by (meson count_NL_0 in_set_takeD in_set_dropD)+

lemma pem_line_inv:
  assumes "pem_inv found t s" and "NL \<notin> set c"
  shows "pem_inv found (t @ c @ n) (pem_line dt s (c, n))"
proof -
  have p: "count_list (placeholder PEM_RULE) NL = 0" by (simp add: placeholder_no_NL PEM_RULE_def)
  have "count_list (pm_out (if pm_open s then pem_opened dt c s else pem_closed dt c s)) NL = count_list t NL"
    using assms count_NL_0 [OF assms(2)] p
    by (auto simp: pem_inv_def pem_opened_def pem_closed_def Let_def split: option.splits)
  moreover have "\<exists>new. pm_found (if pm_open s then pem_opened dt c s else pem_closed dt c s) = found @ new \<and>
      (new = [] \<longrightarrow> \<not> pm_open (if pm_open s then pem_opened dt c s else pem_closed dt c s) \<longrightarrow>
        pm_out (if pm_open s then pem_opened dt c s else pem_closed dt c s) = t @ c)"
    using assms(1)
    by (auto simp: pem_inv_def pem_opened_def pem_closed_def Let_def split: option.splits)
  ultimately show ?thesis
    using count_NL_0 [OF assms(2)] by (auto simp: pem_inv_def pem_line_def Let_def)
qed

lemma pem_fold_inv:
  "pem_inv found t s \<Longrightarrow> \<forall>(c, n) \<in> set ls. NL \<notin> set c \<Longrightarrow>
    pem_inv found (t @ concat (map (\<lambda>(c, n). c @ n) ls)) (foldl (pem_line dt) s ls)"
proof (induction ls arbitrary: t s)
  case (Cons l ls)
  obtain c n where l: "l = (c, n)" by (cases l)
  show ?case
    using Cons.IH [OF pem_line_inv [OF Cons.prems(1), of c n dt]] Cons.prems(2) by (simp add: l)
qed simp

lemma redact_pem_redacted: "redacted txt found (redact_pem dt txt found)"
proof -
  let ?s = "foldl (pem_line dt) \<lparr>pm_out = [], pm_open = False, pm_body = [], pm_found = found\<rparr> (split_inclusive txt)"
  have "pem_inv found [] \<lparr>pm_out = [], pm_open = False, pm_body = [], pm_found = found\<rparr>" by (simp add: pem_inv_def)
  from pem_fold_inv [OF this, of "split_inclusive txt" dt] have "pem_inv found txt ?s"
    using split_inclusive_lines by (fastforce simp: split_inclusive_concat)
  then show ?thesis by (auto simp: redact_pem_def Let_def redacted_def pem_inv_def)
qed

subsection \<open>The whole text and JSON values\<close>

lemma redact_rules_redacted:
  assumes "well_behaved dt" and "\<forall>rule \<in> set rules. NL \<notin> set (fst rule)"
  shows "redacted txt found (redact_rules dt i rules txt found)"
  using assms(2)
proof (induction rules arbitrary: i "txt" found)
  case (Cons rule rules)
  obtain out found1 where r: "replace_all (replace_group dt rule) txt 0 (dt_rule dt i txt) found = (out, found1)"
    by force
  have caps: "caps_ok txt 0 (dt_rule dt i txt)" using assms(1) by (simp add: well_behaved_def)
  have rule: "NL \<notin> set (fst rule)" using Cons.prems by simp
  have "redacted (drop 0 txt) found (replace_all (replace_group dt rule) txt 0 (dt_rule dt i txt) found)"
    by (rule replace_all_redacted [OF caps le0]) (rule replace_group_redacted [OF _ rule])
  then have "redacted txt found (out, found1)" using r by simp
  moreover have "redacted out found1 (redact_rules dt (i + 1) rules out found1)" using Cons by simp
  ultimately have "redacted txt found (redact_rules dt (i + 1) rules out found1)" by (rule redacted_trans)
  then show ?case using r by simp
qed simp

lemma RULES_no_NL: "\<forall>rule \<in> set RULES. NL \<notin> set (fst rule)"
  by (simp add: RULES_def)

lemma redact_redacted:
  assumes "well_behaved dt"
  shows "redacted txt found (redact dt txt found)"
proof -
  obtain o1 f1 where 1: "redact_pem dt txt found = (o1, f1)" by force
  obtain o2 f2 where 2: "redact_rules dt 0 RULES o1 f1 = (o2, f2)" by force
  have caps: "caps_ok o2 0 (dt_entropy dt o2)" using assms by (simp add: well_behaved_def)
  have "redacted (drop 0 o2) f2 (replace_all (replace_entropy dt) o2 0 (dt_entropy dt o2) f2)"
    by (rule replace_all_redacted [OF caps le0]) (rule replace_entropy_redacted)
  then have "redacted o2 f2 (replace_all (replace_entropy dt) o2 0 (dt_entropy dt o2) f2)" by simp
  with redact_pem_redacted [of "txt" found dt] redact_rules_redacted [OF assms RULES_no_NL, of o1 f1 0]
  show ?thesis unfolding redact_def 1 2 prod.case by (metis 1 2 redacted_trans)
qed

text \<open>
  Redaction keeps positions usable: the redacted text has exactly as many lines as the text, so
  hunk starts and region lines still hold; matches are only ever appended to the accumulator; and
  where nothing was recorded the text is sent unchanged.
\<close>

theorem redact_keeps_lines:
  assumes "well_behaved dt" and "redact dt txt found = (out, found')"
  shows "length (split_on NL out) = length (split_on NL txt) \<and>
    (\<exists>new. found' = found @ new \<and> (new = [] \<longrightarrow> out = txt))"
  using redact_redacted [OF assms(1), of "txt" found] assms(2) by (simp add: redacted_def length_split_on)

text \<open>A detector that knows one kind of secret: a text that begins with \<open>AKIA\<close>.\<close>

definition example_detectors :: Detectors where
  "example_detectors =
     \<lparr>dt_rule = (\<lambda>i t. if i = 0 \<and> prefix ''AKIA'' t \<and> NL \<notin> set t
        then [\<lparr>cap_start = 0, cap_stop = length t, cap_group = Some (0, length t)\<rparr>] else []),
      dt_entropy = (\<lambda>_. []), dt_identifier = (\<lambda>_. False),
      dt_pem_begin = (\<lambda>_. None), dt_pem_end = (\<lambda>_. None), dt_pem_body = (\<lambda>_. False)\<rparr>"

lemma example_well_behaved: "well_behaved example_detectors"
  by (simp add: well_behaved_def example_detectors_def span_ok_def)

lemma example_redact:
  "redact example_detectors ''AKIA7'' [] = (''<redacted:aws-access-key>'', [(''aws-access-key'', ''AKIA7'')])"
  by (simp add: redact_def redact_pem_def RULES_def example_detectors_def replace_group_def
      placeholder_def PLACEHOLDER_PREFIX_def)

theorem redact_keeps_lines_witness:
  "length (split_on NL ''<redacted:aws-access-key>'') = length (split_on NL ''AKIA7'')"
  using redact_keeps_lines [OF example_well_behaved example_redact] by blast

text \<open>
  \<open>same_shape v v'\<close>: the same value up to the texts of its strings, each with the same number of
  lines; in particular the keys, numbers and the order of everything are the same.
\<close>

fun same_shape :: "json \<Rightarrow> json \<Rightarrow> bool"
  and same_items :: "json list \<Rightarrow> json list \<Rightarrow> bool"
  and same_entries :: "(string \<times> json) list \<Rightarrow> (string \<times> json) list \<Rightarrow> bool" where
  "same_shape (JStr s) v \<longleftrightarrow> (case v of JStr s' \<Rightarrow> length (split_on NL s') = length (split_on NL s) | _ \<Rightarrow> False)"
| "same_shape (JArr vs) v \<longleftrightarrow> (case v of JArr vs' \<Rightarrow> same_items vs vs' | _ \<Rightarrow> False)"
| "same_shape (JObj kvs) v \<longleftrightarrow> (case v of JObj kvs' \<Rightarrow> same_entries kvs kvs' | _ \<Rightarrow> False)"
| "same_shape JNull v \<longleftrightarrow> v = JNull"
| "same_shape (JBool b) v \<longleftrightarrow> v = JBool b"
| "same_shape (JNum x) v \<longleftrightarrow> v = JNum x"
| "same_items [] vs' \<longleftrightarrow> vs' = []"
| "same_items (v # vs) vs' \<longleftrightarrow> (case vs' of [] \<Rightarrow> False | v' # vs'' \<Rightarrow> same_shape v v' \<and> same_items vs vs'')"
| "same_entries [] kvs' \<longleftrightarrow> kvs' = []"
| "same_entries ((k, v) # kvs) kvs' \<longleftrightarrow>
     (case kvs' of [] \<Rightarrow> False | (k', v') # kvs'' \<Rightarrow> k = k' \<and> same_shape v v' \<and> same_entries kvs kvs'')"

lemma redact_value_facts:
  shows "well_behaved dt \<Longrightarrow> same_shape v (fst (redact_value dt v found)) \<and>
      (\<exists>new. snd (redact_value dt v found) = found @ new \<and> (new = [] \<longrightarrow> fst (redact_value dt v found) = v))"
    and "well_behaved dt \<Longrightarrow> same_items vs (fst (redact_items dt vs found)) \<and>
      (\<exists>new. snd (redact_items dt vs found) = found @ new \<and> (new = [] \<longrightarrow> fst (redact_items dt vs found) = vs))"
    and "well_behaved dt \<Longrightarrow> same_entries kvs (fst (redact_entries dt kvs found)) \<and>
      (\<exists>new. snd (redact_entries dt kvs found) = found @ new \<and> (new = [] \<longrightarrow> fst (redact_entries dt kvs found) = kvs))"
proof (induction dt v found and dt vs found and dt kvs found rule: redact_value_redact_items_redact_entries.induct)
  case (1 dt s found)
  then show ?case using redact_redacted [of dt s found]
    by (cases "redact dt s found") (auto simp: redacted_def length_split_on)
qed (fastforce split: prod.split)+



end
