(* ===== verification/Regions.thy ===== *)
theory Regions
  imports Report
begin

text \<open>
  Source regions of the codebase mode (\<open>review/regions.rs\<close>): a file is cut at its declarations
  into regions of at most \<open>max_lines\<close> lines, the regions are persisted as spans without their
  text, and spans are turned back into regions only after validation.

  The declaration patterns are regular expressions of the \<open>regex\<close> crate: a parameter
  \<open>decl :: bool \<Rightarrow> string \<Rightarrow> bool\<close> (Rust or TypeScript, the line). A maximum of 0 makes Rust's
  \<open>div_ceil\<close> panic and the chunking loop run forever; both are \<open>None\<close> here.
\<close>

record RegionSpan =
  rs_id :: string
  rs_start_line :: nat
  rs_lines :: nat

record Region =
  rg_id :: string
  rg_start_line :: nat
  rg_content :: string

definition is_rust :: "string \<Rightarrow> bool" where
  "is_rust path \<longleftrightarrow> ends_with path ''.rs''"

definition is_attached_attribute :: "string \<Rightarrow> bool \<Rightarrow> bool" where
  "is_attached_attribute line rust \<longleftrightarrow>
     (let trimmed = trim_start line in
      if rust then starts_with trimmed ''#['' \<or> starts_with trimmed ''///'' \<or> starts_with trimmed ''//!''
      else starts_with trimmed ''@'' \<or> starts_with trimmed ''///'')"

definition build_region :: "string list \<Rightarrow> nat \<Rightarrow> nat \<Rightarrow> nat \<Rightarrow> Region" where
  "build_region lines rid start stop =
     \<lparr>rg_id = CHR ''R'' # show_nat rid, rg_start_line = start + 1,
      rg_content = join [NL] (drop start (take stop lines))\<rparr>"

definition uniform_regions :: "string list \<Rightarrow> nat \<Rightarrow> Region list option" where
  "uniform_regions lines lines_per_region =
     (if lines_per_region = 0 then None
      else Some (map (\<lambda>i.
        let start = i * lines_per_region;
            stop = min (length lines) (start + lines_per_region)
        in build_region lines (i + 1) start stop)
        [0..<div_ceil (length lines) lines_per_region]))"

text \<open>The inner \<open>while\<close>: one declaration's lines in chunks.\<close>

partial_function (option) chunk_loop ::
  "nat \<Rightarrow> string list \<Rightarrow> nat \<Rightarrow> nat \<Rightarrow> Region list \<Rightarrow> Region list option" where
  "chunk_loop max_region_lines lines chunk_start stop regions =
     (if chunk_start < stop
      then chunk_loop max_region_lines lines (min (chunk_start + max_region_lines) stop) stop
             (regions @ [build_region lines (length regions + 1) chunk_start
                           (min (chunk_start + max_region_lines) stop)])
      else Some regions)"

fun decl_loop :: "nat \<Rightarrow> string list \<Rightarrow> nat list \<Rightarrow> Region list \<Rightarrow> Region list option" where
  "decl_loop max_region_lines lines [] regions = Some regions"
| "decl_loop max_region_lines lines (start # starts) regions =
     (case chunk_loop max_region_lines lines start
             (case starts of [] \<Rightarrow> length lines | next # _ \<Rightarrow> next) regions of
        None \<Rightarrow> None
      | Some regions' \<Rightarrow> decl_loop max_region_lines lines starts regions')"

text \<open>A declaration's boundary, pulled back across the attributes directly above it.\<close>

fun pull_back :: "string list \<Rightarrow> bool \<Rightarrow> nat \<Rightarrow> nat" where
  "pull_back lines rust 0 = 0"
| "pull_back lines rust (Suc boundary) =
     (if is_attached_attribute (lines ! boundary) rust then pull_back lines rust boundary
      else Suc boundary)"

definition raw_starts :: "(bool \<Rightarrow> string \<Rightarrow> bool) \<Rightarrow> bool \<Rightarrow> string list \<Rightarrow> nat list" where
  "raw_starts decl rust lines = filter (\<lambda>i. decl rust (lines ! i)) [0..<length lines]"

definition function_regions ::
  "(bool \<Rightarrow> string \<Rightarrow> bool) \<Rightarrow> string \<Rightarrow> string \<Rightarrow> nat \<Rightarrow> Region list option" where
  "function_regions decl content path max_region_lines =
     (let lines = split_on NL content; rust = is_rust path; starts = raw_starts decl rust lines in
      if starts = [] then uniform_regions lines max_region_lines
      else
        let decl_starts = map (pull_back lines rust) starts;
            first_decl = hd decl_starts;
            preamble = (if list_ex (\<lambda>l. \<not> blank l) (take first_decl lines)
                        then uniform_regions (take first_decl lines) max_region_lines else Some [])
        in case preamble of
             None \<Rightarrow> None
           | Some regions \<Rightarrow> decl_loop max_region_lines lines decl_starts regions)"

definition span_of :: "Region \<Rightarrow> RegionSpan" where
  "span_of r =
     \<lparr>rs_id = rg_id r, rs_start_line = rg_start_line r, rs_lines = length (split_on NL (rg_content r))\<rparr>"

definition region_spans ::
  "(bool \<Rightarrow> string \<Rightarrow> bool) \<Rightarrow> string \<Rightarrow> string \<Rightarrow> nat \<Rightarrow> RegionSpan list option" where
  "region_spans decl content path max_lines =
     map_option (map span_of) (function_regions decl content path max_lines)"

text \<open>The loop of \<open>materialize_regions\<close>: the index, the end of the previous region, the result.\<close>

fun materialize_loop ::
  "string list \<Rightarrow> nat \<Rightarrow> nat \<Rightarrow> nat \<Rightarrow> Region list \<Rightarrow> RegionSpan list \<Rightarrow> Region list option" where
  "materialize_loop lines max_lines i previous_end out [] =
     (if previous_end \<noteq> length lines then None else Some out)"
| "materialize_loop lines max_lines i previous_end out (sp # spans) =
     (if rs_start_line sp = 0 then None
      else
        let start = rs_start_line sp - 1; stop = start + rs_lines sp in
        if usize_limit \<le> stop then None
        else if rs_id sp \<noteq> CHR ''R'' # show_nat (i + 1) \<or> rs_lines sp = 0
             \<or> max_lines < rs_lines sp \<or> start < previous_end \<or> length lines < stop then None
        else if list_ex (\<lambda>l. \<not> blank l) (drop previous_end (take start lines)) then None
        else materialize_loop lines max_lines (i + 1) stop
               (out @ [\<lparr>rg_id = rs_id sp, rg_start_line = rs_start_line sp,
                        rg_content = join [NL] (drop start (take stop lines))\<rparr>]) spans)"

definition materialize_regions :: "string \<Rightarrow> RegionSpan list \<Rightarrow> nat \<Rightarrow> Region list option" where
  "materialize_regions content spans max_lines =
     (if spans = [] then None
      else materialize_loop (split_on NL content) max_lines 0 0 [] spans)"

text \<open>\<open>export_signatures\<close>: the first forty exported declarations without their bodies.\<close>

definition signature_of :: "string \<Rightarrow> string" where
  "signature_of line = trim (takeWhile (\<lambda>c. c \<noteq> CHR ''{'' \<and> c \<noteq> CHR ''='') line)"

definition export_signatures :: "(bool \<Rightarrow> string \<Rightarrow> bool) \<Rightarrow> string \<Rightarrow> string \<Rightarrow> string" where
  "export_signatures decl content path =
     chars_take 1800 (join [NL] (map signature_of (take 40 (filter
       (\<lambda>line. decl (is_rust path) line \<and> (starts_with line ''pub'' \<or> starts_with line ''export''))
       (str_lines content)))))"

section \<open>The cuts of a file\<close>

text \<open>
  \<open>chain n a b cs\<close>: the intervals \<open>cs\<close> follow one another from line \<open>a\<close> to line \<open>b\<close>, each with
  1 to \<open>n\<close> lines. \<open>numbered\<close> are their regions.
\<close>

fun chain :: "nat \<Rightarrow> nat \<Rightarrow> nat \<Rightarrow> (nat \<times> nat) list \<Rightarrow> bool" where
  "chain n a b [] \<longleftrightarrow> a = b"
| "chain n a b ((s, e) # cs) \<longleftrightarrow> s = a \<and> s < e \<and> e \<le> s + n \<and> chain n e b cs"

fun numbered :: "string list \<Rightarrow> nat \<Rightarrow> (nat \<times> nat) list \<Rightarrow> Region list" where
  "numbered lines k [] = []"
| "numbered lines k ((s, e) # cs) = build_region lines (k + 1) s e # numbered lines (k + 1) cs"

lemma chain_append: "chain n a b cs \<Longrightarrow> chain n b c ds \<Longrightarrow> chain n a c (cs @ ds)"
  by (induction n a b cs rule: chain.induct) auto

lemma chain_le: "chain n a b cs \<Longrightarrow> a \<le> b"
  by (induction n a b cs rule: chain.induct) auto

lemma length_numbered [simp]: "length (numbered lines k cs) = length cs"
  by (induction lines k cs rule: numbered.induct) auto

lemma numbered_append: "numbered lines k (cs @ ds) = numbered lines k cs @ numbered lines (k + length cs) ds"
  by (induction lines k cs rule: numbered.induct) auto

lemma numbered_take:
  "chain n a b cs \<Longrightarrow> b \<le> m \<Longrightarrow> numbered (take m lines) k cs = numbered lines k cs"
proof (induction n a b cs arbitrary: k rule: chain.induct)
  case (2 n a b s e cs)
  then have "e \<le> m" using chain_le [of n e b cs] by auto
  with 2 show ?case by (simp add: build_region_def min.absorb1)
qed simp

lemma chunk_loop_chain:
  assumes n: "0 < n" and "start \<le> stop"
  shows "\<exists>cs. chain n start stop cs \<and>
    chunk_loop n lines start stop regions = Some (regions @ numbered lines (length regions) cs)"
  using assms(2)
proof (induction "stop - start" arbitrary: start regions rule: less_induct)
  case less
  let ?e = "min (start + n) stop"
  let ?r = "build_region lines (length regions + 1) start ?e"
  show ?case
  proof (cases "start < stop")
    case True
    then have "stop - ?e < stop - start" "?e \<le> stop" using n by auto
    from less.hyps [OF this, of "regions @ [?r]"] obtain cs where cs: "chain n ?e stop cs"
      "chunk_loop n lines ?e stop (regions @ [?r])
        = Some ((regions @ [?r]) @ numbered lines (length (regions @ [?r])) cs)"
      by blast
    have "chain n start stop ((start, ?e) # cs)" using True n cs(1) by simp
    moreover have "chunk_loop n lines start stop regions
        = Some (regions @ numbered lines (length regions) ((start, ?e) # cs))"
      using True cs(2) by (subst chunk_loop.simps) simp
    ultimately show ?thesis by blast
  next
    case False
    with less.prems have "chain n start stop []" by simp
    moreover have "chunk_loop n lines start stop regions = Some (regions @ numbered lines (length regions) [])"
      using False by (subst chunk_loop.simps) simp
    ultimately show ?thesis by blast
  qed
qed

lemma uniform_chain:
  assumes "0 < n"
  shows "\<exists>cs. chain n 0 (length lines) cs \<and> uniform_regions lines n = Some (numbered lines 0 cs)"
proof -
  let ?L = "length lines"
  let ?c = "\<lambda>i. (i * n, min ?L (i * n + n))"
  have "chain n 0 (min ?L (m * n)) (map ?c [0..<m])" if "m \<le> div_ceil ?L n" for m
    using that
  proof (induction m)
    case (Suc m)
    have lt: "m * n < ?L" using div_ceil_lower [OF assms, of m ?L] Suc.prems by simp
    have "chain n (min ?L (m * n)) (min ?L (Suc m * n)) [?c m]" using lt assms by (auto simp: algebra_simps)
    with Suc show ?case using chain_append [of n 0 "min ?L (m * n)" "map ?c [0..<m]"] by simp
  qed simp
  from this [of "div_ceil ?L n"] have "chain n 0 ?L (map ?c [0..<div_ceil ?L n])"
    using div_ceil_upper [OF assms, of ?L] by (simp add: min.absorb1)
  moreover have "numbered lines 0 (map ?c [0..<m])
      = map (\<lambda>i. build_region lines (i + 1) (i * n) (min ?L (i * n + n))) [0..<m]" for m
    by (induction m) (simp_all add: numbered_append)
  ultimately show ?thesis using assms
    by (intro exI [of _ "map ?c [0..<div_ceil ?L n]"]) (simp add: uniform_regions_def Let_def)
qed


lemma decl_loop_chain:
  assumes "0 < n" and "sorted_wrt (<) starts" and "\<forall>s \<in> set starts. s < length lines"
  shows "\<exists>cs. chain n (if starts = [] then length lines else hd starts) (length lines) cs \<and>
    decl_loop n lines starts regions = Some (regions @ numbered lines (length regions) cs)"
  using assms(2,3)
proof (induction starts arbitrary: regions)
  case (Cons s starts)
  let ?e = "case starts of [] \<Rightarrow> length lines | x # _ \<Rightarrow> x"
  have "s \<le> ?e" using Cons.prems by (cases starts) auto
  from chunk_loop_chain [OF assms(1) this, of lines regions] obtain cs where cs: "chain n s ?e cs"
    "chunk_loop n lines s ?e regions = Some (regions @ numbered lines (length regions) cs)" by blast
  let ?r = "regions @ numbered lines (length regions) cs"
  from Cons.IH [of ?r] Cons.prems obtain ds where
    ds: "chain n (if starts = [] then length lines else hd starts) (length lines) ds"
    "decl_loop n lines starts ?r = Some (?r @ numbered lines (length ?r) ds)" by auto
  have "?e = (if starts = [] then length lines else hd starts)" by (cases starts) auto
  with ds(1) have "chain n ?e (length lines) ds" by simp
  from chain_append [OF cs(1) this] have "chain n s (length lines) (cs @ ds)" .
  with cs(2) ds(2) show ?case by (intro exI [of _ "cs @ ds"]) (simp add: numbered_append)
qed (simp add: exI [of _ "[]"])

text \<open>
  The declaration patterns are anchored at the line's first character, and an alternative begins
  with a letter; so a declaration is never an attribute line.
\<close>

definition anchored :: "(bool \<Rightarrow> string \<Rightarrow> bool) \<Rightarrow> bool" where
  "anchored decl \<longleftrightarrow> (\<forall>rust line. decl rust line \<longrightarrow>
     line \<noteq> [] \<and> hd line \<in> {CHR ''a''..CHR ''z''})"

lemma letter_not_attached:
  assumes "hd line \<in> {CHR ''a''..CHR ''z''}" and "line \<noteq> []"
  shows "\<not> is_attached_attribute line rust"
proof -
  obtain c cs where line: "line = c # cs" using assms(2) by (cases line) auto
  have c: "97 \<le> (of_char c :: nat)" "(of_char c :: nat) \<le> 122"
    using assms(1) by (auto simp: line less_eq_char_def)
  have ne: "c \<noteq> CHR ''#''" "c \<noteq> CHR ''/''" "c \<noteq> CHR ''@''" using c by auto
  have "\<not> is_ws (c # takeWhile is_cont cs)"
    using c by (auto simp: is_ws_def white_space_def)
  then have "trim_start line = line" by (simp add: trim_start_def line)
  then show ?thesis using ne by (auto simp: is_attached_attribute_def line)
qed

lemma pull_back_bounds:
  "pull_back lines rust b \<le> b"
  "r < b \<Longrightarrow> \<not> is_attached_attribute (lines ! r) rust \<Longrightarrow> r < pull_back lines rust b"
  by (induction b) (auto simp: le_SucI less_Suc_eq)

lemma decl_starts_sorted:
  assumes "anchored decl"
  shows "sorted_wrt (<) (map (pull_back lines rust) (raw_starts decl rust lines))"
    and "\<forall>s \<in> set (map (pull_back lines rust) (raw_starts decl rust lines)). s < length lines"
proof -
  let ?raw = "raw_starts decl rust lines"
  have plain: "\<not> is_attached_attribute (lines ! i) rust" if "i \<in> set ?raw" for i
    using that assms letter_not_attached unfolding anchored_def raw_starts_def by fastforce
  have "pull_back lines rust i < pull_back lines rust j" if "i \<in> set ?raw" "i < j" for i j
    using pull_back_bounds(1) [of lines rust i] pull_back_bounds(2) [OF that(2) plain [OF that(1)]]
    by simp
  moreover have "sorted_wrt (<) ?raw" by (simp add: raw_starts_def sorted_wrt_filter)
  ultimately show "sorted_wrt (<) (map (pull_back lines rust) ?raw)"
    unfolding sorted_wrt_map by (auto elim!: sorted_wrt_mono_rel [rotated])
  show "\<forall>s \<in> set (map (pull_back lines rust) ?raw). s < length lines"
    using le_less_trans [OF pull_back_bounds(1)] by (auto simp: raw_starts_def)
qed

lemma function_regions_chain:
  assumes n: "0 < n" and decl: "anchored decl"
  shows "\<exists>a cs. chain n a (length (split_on NL content)) cs \<and> cs \<noteq> [] \<and>
    (\<forall>l \<in> set (take a (split_on NL content)). blank l) \<and>
    function_regions decl content path n = Some (numbered (split_on NL content) 0 cs)"
proof -
  let ?l = "split_on NL content" and ?rust = "is_rust path"
  let ?starts = "map (pull_back ?l ?rust) (raw_starts decl ?rust ?l)"
  note srt = decl_starts_sorted [OF decl, where lines = ?l and rust = ?rust]
  have ne: "cs \<noteq> []" if "chain n a (length ?l) cs" "a < length ?l" for a cs
    using that by (cases cs) auto
  show ?thesis
  proof (cases "raw_starts decl ?rust ?l = []")
    case True
    from uniform_chain [OF n, of ?l] obtain cs where
      cs: "chain n 0 (length ?l) cs" "uniform_regions ?l n = Some (numbered ?l 0 cs)" by blast
    with True show ?thesis
      by (intro exI [of _ 0] exI [of _ cs]) (simp add: function_regions_def ne)
  next
    case False
    let ?a = "hd ?starts"
    have a: "?a < length ?l" using False srt(2) by (metis hd_in_set map_is_Nil_conv)
    show ?thesis
    proof (cases "list_ex (\<lambda>l. \<not> blank l) (take ?a ?l)")
      case True
      from uniform_chain [OF n, of "take ?a ?l"] a obtain cs where
        cs: "chain n 0 ?a cs" "uniform_regions (take ?a ?l) n = Some (numbered ?l 0 cs)"
        using numbered_take by (fastforce simp: min.absorb2)
      from decl_loop_chain [OF n srt, of "numbered ?l 0 cs"] False
      obtain ds where ds: "chain n ?a (length ?l) ds"
        "decl_loop n ?l ?starts (numbered ?l 0 cs) = Some (numbered ?l 0 (cs @ ds))"
        by (auto simp: numbered_append)
      with cs True False chain_append [OF cs(1) ds(1)] ne [OF ds(1) a] show ?thesis
        by (intro exI [of _ 0] exI [of _ "cs @ ds"]) (simp add: function_regions_def Let_def)
    next
      case blank: False
      from decl_loop_chain [OF n srt, of "[]"] False
      obtain ds where ds: "chain n ?a (length ?l) ds" "decl_loop n ?l ?starts [] = Some (numbered ?l 0 ds)"
        by auto
      with blank False ne [OF ds(1) a] show ?thesis
        by (intro exI [of _ ?a] exI [of _ ds]) (auto simp: function_regions_def Let_def list_ex_iff)
    qed
  qed
qed

section \<open>Persisting and restoring regions\<close>

lemma split_join_lines:
  assumes "s < e" and "e \<le> length (split_on NL content)"
  shows "split_on NL (join [NL] (drop s (take e (split_on NL content)))) = drop s (take e (split_on NL content))"
proof (rule split_on_join)
  show "drop s (take e (split_on NL content)) \<noteq> []" using assms by simp
  show "\<forall>x \<in> set (drop s (take e (split_on NL content))). NL \<notin> set x"
    using split_on_pieces [of _ NL content] by (meson in_set_dropD in_set_takeD)
qed

lemma span_of_build_region:
  assumes "s < e" and "e \<le> length (split_on NL content)"
  shows "span_of (build_region (split_on NL content) k s e)
    = \<lparr>rs_id = CHR ''R'' # show_nat k, rs_start_line = s + 1, rs_lines = e - s\<rparr>"
  using split_join_lines [OF assms] assms by (simp add: span_of_def build_region_def)

lemma materialize_chain:
  assumes "chain n a (length (split_on NL content)) cs" and "prev \<le> a"
    and "length (split_on NL content) < usize_limit"
    and "\<forall>l \<in> set (drop prev (take a (split_on NL content))). blank l"
    and "cs = [] \<Longrightarrow> prev = a"
  shows "materialize_loop (split_on NL content) n k prev out (map span_of (numbered (split_on NL content) k cs))
    = Some (out @ numbered (split_on NL content) k cs)"
  using assms
proof (induction cs arbitrary: a prev k out)
  case (Cons c cs)
  from Cons.prems obtain e where c: "c = (a, e)" and se: "a < e" "e \<le> a + n"
    and rest: "chain n e (length (split_on NL content)) cs" by (cases c) auto
  have e: "e \<le> length (split_on NL content)" by (rule chain_le [OF rest])
  let ?r = "build_region (split_on NL content) (Suc k) a e"
  have gap: "list_ex (\<lambda>l. \<not> blank l) (drop prev (take a (split_on NL content))) = False"
    using Cons.prems(4) by (auto simp: list_ex_iff)
  have region: "\<lparr>rg_id = CHR ''R'' # show_nat (Suc k), rg_start_line = Suc a,
      rg_content = join [NL] (drop a (take e (split_on NL content)))\<rparr> = ?r"
    by (simp add: build_region_def)
  note sp = span_of_build_region [OF se(1) e, of "Suc k"]
  show ?case
    using Cons.IH [OF rest order_refl Cons.prems(3), where k = "Suc k" and out = "out @ [?r]"]
      se e Cons.prems(2,3) gap by (simp add: c sp region Let_def)
qed simp

lemma regions_restored:
  assumes "0 < n" and "anchored decl" and "length (split_on NL content) < usize_limit"
  shows "\<exists>rs. function_regions decl content path n = Some rs \<and>
    materialize_regions content (map span_of rs) n = Some rs"
proof -
  from function_regions_chain [OF assms(1,2), of content path] obtain a cs where
    cs: "chain n a (length (split_on NL content)) cs" "cs \<noteq> []"
    "\<forall>l \<in> set (take a (split_on NL content)). blank l"
    "function_regions decl content path n = Some (numbered (split_on NL content) 0 cs)" by blast
  have "numbered (split_on NL content) 0 cs \<noteq> []" using cs(2) by (cases cs) auto
  with materialize_chain [OF cs(1) le0 assms(3), of 0 "[]"] cs show ?thesis
    by (simp add: materialize_regions_def)
qed

text \<open>
  Cutting a file always returns and loses nothing when it is persisted: for a positive maximum,
  the spans of the regions are accepted by the validation and give exactly the regions back,
  without their text having been stored.
\<close>

theorem region_spans_roundtrip:
  assumes "0 < n" and "anchored decl" and "length (split_on NL content) < usize_limit"
  shows "\<exists>rs spans. function_regions decl content path n = Some rs \<and>
    region_spans decl content path n = Some spans \<and>
    materialize_regions content spans n = Some rs"
  using regions_restored [OF assms, of path] by (auto simp: region_spans_def)

theorem region_spans_roundtrip_witness:
  "\<exists>rs spans. function_regions (\<lambda>_ l. starts_with l ''fn '') (''use x;'' @ NL # ''fn a() {'' @ NL # ''}'') ''a.rs'' 2 = Some rs \<and>
    region_spans (\<lambda>_ l. starts_with l ''fn '') (''use x;'' @ NL # ''fn a() {'' @ NL # ''}'') ''a.rs'' 2 = Some spans \<and>
    materialize_regions (''use x;'' @ NL # ''fn a() {'' @ NL # ''}'') spans 2 = Some rs"
proof (rule region_spans_roundtrip)
  show "anchored (\<lambda>_ l. starts_with l ''fn '')"
    by (auto simp: anchored_def prefix_def less_eq_char_def)
  show "length (split_on NL (''use x;'' @ NL # ''fn a() {'' @ NL # ''}'')) < usize_limit"
    by (simp add: usize_limit_def)
qed simp

text \<open>What an accepted region is: lines of the file, where it says they are.\<close>

definition region_of :: "string list \<Rightarrow> nat \<Rightarrow> Region \<Rightarrow> bool" where
  "region_of lines n r \<longleftrightarrow>
     (let k = length (split_on NL (rg_content r)) in
      0 < k \<and> k \<le> n \<and> 0 < rg_start_line r \<and>
      split_on NL (rg_content r) = take k (drop (rg_start_line r - 1) lines))"

lemma materialize_loop_sound:
  assumes "materialize_loop (split_on NL content) n i prev out spans = Some rs"
    and "prev \<le> length (split_on NL content)"
  shows "\<exists>rs'. rs = out @ rs' \<and> length rs' = length spans \<and>
    filter (\<lambda>l. \<not> blank l) (drop prev (split_on NL content))
      = filter (\<lambda>l. \<not> blank l) (concat (map (\<lambda>r. split_on NL (rg_content r)) rs')) \<and>
    list_all (region_of (split_on NL content) n) rs'"
  using assms
proof (induction spans arbitrary: i prev out)
  case (Cons sp spans)
  let ?l = "split_on NL content"
  let ?s = "rs_start_line sp - 1" let ?e = "?s + rs_lines sp"
  let ?r = "\<lparr>rg_id = rs_id sp, rg_start_line = rs_start_line sp, rg_content = join [NL] (drop ?s (take ?e ?l))\<rparr>"
  from Cons.prems have g: "0 < rs_start_line sp" "0 < rs_lines sp" "rs_lines sp \<le> n" "prev \<le> ?s" "?e \<le> length ?l"
    and gap: "\<not> list_ex (\<lambda>l. \<not> blank l) (drop prev (take ?s ?l))"
    and rest: "materialize_loop ?l n (i + 1) ?e (out @ [?r]) spans = Some rs"
    by (auto simp: Let_def not_le not_less split: if_splits)
  from Cons.IH [OF rest g(5)] obtain rs' where rs': "rs = (out @ [?r]) @ rs'" "length rs' = length spans"
    "filter (\<lambda>l. \<not> blank l) (drop ?e ?l) = filter (\<lambda>l. \<not> blank l) (concat (map (\<lambda>r. split_on NL (rg_content r)) rs'))"
    "list_all (region_of ?l n) rs'" by auto
  have cont: "split_on NL (rg_content ?r) = drop ?s (take ?e ?l)"
    using split_join_lines [of ?s ?e content] g by simp
  have "drop prev ?l = drop prev (take ?s ?l) @ drop ?s (take ?e ?l) @ drop ?e ?l"
    using drop_split [of prev ?s ?l] drop_split [of ?s ?e ?l] g(4) by simp
  then have "filter (\<lambda>l. \<not> blank l) (drop prev ?l)
      = filter (\<lambda>l. \<not> blank l) (drop ?s (take ?e ?l)) @ filter (\<lambda>l. \<not> blank l) (drop ?e ?l)"
    using gap by (simp add: list_ex_iff filter_empty_conv)
  moreover have "region_of ?l n ?r"
    using g cont by (simp add: region_of_def Let_def drop_take min.absorb2)
  ultimately show ?case using rs' cont by (intro exI [of _ "?r # rs'"]) simp
qed (auto split: if_splits)

text \<open>
  Corrupt span metadata is refused: whatever spans are given, the regions accepted from them
  hold exactly the non-blank lines of the file, in order and each once, in regions of at most
  \<open>max_lines\<close> lines, and each region is the file's text at the line it claims.
\<close>

theorem materialize_regions_sound:
  assumes "materialize_regions content spans n = Some rs"
  shows "filter (\<lambda>l. \<not> blank l) (concat (map (\<lambda>r. split_on NL (rg_content r)) rs))
      = filter (\<lambda>l. \<not> blank l) (split_on NL content) \<and>
    list_all (region_of (split_on NL content) n) rs \<and> length rs = length spans"
  using materialize_loop_sound [of content n 0 0 "[]" spans rs] assms
  by (auto simp: materialize_regions_def split: if_splits)

theorem materialize_regions_sound_witness:
  "list_all (region_of (split_on NL (NL # ''a'')) 3)
     [\<lparr>rg_id = ''R1'', rg_start_line = 2, rg_content = ''a''\<rparr>]"
proof -
  have "materialize_regions (NL # ''a'') [\<lparr>rs_id = ''R1'', rs_start_line = 2, rs_lines = 1\<rparr>] 3
      = Some [\<lparr>rg_id = ''R1'', rg_start_line = 2, rg_content = ''a''\<rparr>]"
    by (simp add: materialize_regions_def usize_limit_def show_nat_eval)
  from materialize_regions_sound [OF this] show ?thesis by blast
qed

end
