(* ===== verification/Context.thy ===== *)
theory Context
  imports Report
begin

text \<open>
  The bounded context of a request (\<open>review/context.rs\<close>, and \<open>window\<close> and \<open>context_around\<close> of
  \<open>review/strategy.rs\<close>): a character budget that its sources use up in turn, and the related tests
  that travel with a file. \<open>str::to_lowercase\<close> follows the Unicode tables and is a parameter
  \<open>lower\<close>.
\<close>

section \<open>The budget\<close>

definition MAX_RELATED_TESTS :: nat where "MAX_RELATED_TESTS = 4"
definition MAX_TEST_SNIPPET_CHARS :: nat where "MAX_TEST_SNIPPET_CHARS = 1800"
definition DEFAULT_CONTEXT_BUDGET_CHARS :: nat where "DEFAULT_CONTEXT_BUDGET_CHARS = 96000"

definition parse_positive :: "string \<Rightarrow> string \<Rightarrow> nat result" where
  "parse_positive name raw =
     (case parse_usize (trim raw) of
        Some n \<Rightarrow> if n > 0 then Inr n
                  else Inl (Msg (name @ '' must be a positive integer, got '' @ CHR 0x27 # raw @ [CHR 0x27]))
      | None \<Rightarrow> Inl (Msg (name @ '' must be a positive integer, got '' @ CHR 0x27 # raw @ [CHR 0x27])))"

record ContextBudget =
  bg_remaining :: nat
  bg_drops :: ContextDrops

definition with_cap :: "nat \<Rightarrow> ContextBudget" where
  "with_cap cap = \<lparr>bg_remaining = cap, bg_drops = \<lparr>cd_chars = 0, cd_items = 0\<rparr>\<rparr>"

text \<open>\<open>from_env\<close>, with the variable's value as argument.\<close>

definition budget_from_env :: "string option \<Rightarrow> ContextBudget result" where
  "budget_from_env var =
     and_then (case var of Some raw \<Rightarrow> parse_positive ''MOMUS_CONTEXT_BUDGET_CHARS'' raw
                         | None \<Rightarrow> Inr DEFAULT_CONTEXT_BUDGET_CHARS)
       (\<lambda>cap. Inr (with_cap cap))"

definition budget_take :: "string \<Rightarrow> ContextBudget \<Rightarrow> string \<times> ContextBudget" where
  "budget_take txt b =
     (let total = char_count txt in
      if total \<le> bg_remaining b then (txt, b\<lparr>bg_remaining := bg_remaining b - total\<rparr>)
      else let kept = chars_take (bg_remaining b) txt in
        (kept, \<lparr>bg_remaining = 0,
                bg_drops = \<lparr>cd_chars = cd_chars (bg_drops b) + (total - char_count kept),
                            cd_items = cd_items (bg_drops b) + 1\<rparr>\<rparr>))"

definition add_drops :: "ContextDrops \<Rightarrow> ContextDrops \<Rightarrow> ContextDrops" where
  "add_drops a b = \<lparr>cd_chars = cd_chars a + cd_chars b, cd_items = cd_items a + cd_items b\<rparr>"

text \<open>The sources of one request in order.\<close>

fun take_all :: "string list \<Rightarrow> ContextBudget \<Rightarrow> string list \<times> ContextBudget" where
  "take_all [] b = ([], b)"
| "take_all (t # ts) b =
     (case budget_take t b of (kept, b') \<Rightarrow>
      case take_all ts b' of (rest, b'') \<Rightarrow> (kept # rest, b''))"

section \<open>Related tests\<close>

definition path_basename :: "string \<Rightarrow> string" where
  "path_basename path = (case rsplit_once (CHR ''/'') path of None \<Rightarrow> path | Some (_, b) \<Rightarrow> b)"

definition dirname :: "string \<Rightarrow> string" where
  "dirname path = (case rsplit_once (CHR ''/'') path of Some (dir, _) \<Rightarrow> dir | None \<Rightarrow> ''.'')"

definition stem :: "string \<Rightarrow> string" where
  "stem path =
     (case rsplit_once (CHR ''.'') (path_basename path) of Some (s, _) \<Rightarrow> s | None \<Rightarrow> path_basename path)"

definition relatedness :: "string \<Rightarrow> string \<Rightarrow> nat" where
  "relatedness source_path test_path =
     of_bool (str_contains test_path (stem source_path)) * 2
     + of_bool (starts_with test_path (dirname source_path))"

definition ranked_cmp :: "('t \<Rightarrow> string) \<Rightarrow> nat \<times> 't \<Rightarrow> nat \<times> 't \<Rightarrow> ordering" where
  "ranked_cmp path a b = then_cmp (cmp (fst b) (fst a)) (cmp (path (snd a)) (path (snd b)))"

definition ranked :: "string \<Rightarrow> 't list \<Rightarrow> ('t \<Rightarrow> string) \<Rightarrow> (nat \<times> 't) list" where
  "ranked source_path tests path =
     take MAX_RELATED_TESTS (sort_by (ranked_cmp path)
       (filter (\<lambda>(score, _). 0 < score) (map (\<lambda>t. (relatedness source_path (path t), t)) tests)))"

definition test_markers :: "string \<Rightarrow> string list" where
  "test_markers test_path =
     (case from_path test_path of
        None \<Rightarrow> []
      | Some l \<Rightarrow> (case spec l of None \<Rightarrow> [] | Some s \<Rightarrow> ls_test_markers s))"

definition marks :: "(string \<Rightarrow> string) \<Rightarrow> string \<Rightarrow> string list \<Rightarrow> string \<Rightarrow> bool" where
  "marks lower low_stem markers line =
     (let low = lower line in
      str_contains low low_stem \<or> str_contains low ''assert'' \<or> list_ex (\<lambda>m. str_contains low m) markers)"

definition selected_lines :: "(string \<Rightarrow> string) \<Rightarrow> string \<Rightarrow> string list \<Rightarrow> string list \<Rightarrow> nat list" where
  "selected_lines lower low_stem markers lines =
     (let hits = filter (\<lambda>i. marks lower low_stem markers (lines ! i)) [0..<length lines];
          near = concat (map (\<lambda>i. [i - 2..<Suc (min (length lines - 1) (i + 2))]) hits)
      in filter (\<lambda>i. i \<in> set near) [0..<length lines])"

definition clip_snippet :: "string \<Rightarrow> string" where
  "clip_snippet snip =
     (if MAX_TEST_SNIPPET_CHARS < char_count snip then
        let side = (MAX_TEST_SNIPPET_CHARS - 7) div 2;
            head_part = chars_take side snip;
            tail_part = concat (drop (char_count snip - side) (chars snip))
        in head_part @ NL # ''...'' @ NL # tail_part
      else snip)"

definition snippet :: "(string \<Rightarrow> string) \<Rightarrow> string \<Rightarrow> string \<Rightarrow> string \<Rightarrow> string" where
  "snippet lower test_path content source_stem =
     (let lines = split_on NL content;
          snip = join [NL] (map (\<lambda>i. lines ! i)
                   (selected_lines lower (lower source_stem) (test_markers test_path) lines))
      in clip_snippet (if snip = [] then content else snip))"

definition compact_test :: "(string \<Rightarrow> string) \<Rightarrow> SourceFile \<Rightarrow> string \<Rightarrow> SourceFile" where
  "compact_test lower test source_stem =
     \<lparr>sf_path = sf_path test,
      sf_content = snippet lower (sf_path test) (sf_content test) source_stem\<rparr>"

definition select_related_tests :: "(string \<Rightarrow> string) \<Rightarrow> SourceFile \<Rightarrow> SourceFile list \<Rightarrow> SourceFile list" where
  "select_related_tests lower file test_files =
     map (\<lambda>(_, test). compact_test lower test (stem (sf_path file))) (ranked (sf_path file) test_files sf_path)"

definition select_related_changed_tests ::
  "(string \<Rightarrow> string) \<Rightarrow> ChangedFile \<Rightarrow> ChangedFile list \<Rightarrow> ChangedFile list" where
  "select_related_changed_tests lower file changed_tests =
     map (\<lambda>(_, test). \<lparr>cf_path = cf_path test,
            cf_patch = snippet lower (cf_path test) (cf_patch test) (stem (cf_path file)), cf_base = []\<rparr>)
       (ranked (cf_path file) changed_tests cf_path)"

section \<open>Windows around a finding\<close>

definition window :: "string \<Rightarrow> nat \<Rightarrow> nat \<Rightarrow> nat \<times> string" where
  "window txt line radius =
     (let total = length (str_lines txt) in
      if total = 0 then (1, [])
      else let center = max 1 (min line total) - 1;
               start = center - radius;
               stop = min (center + radius + 1) total
           in (start + 1, join [NL] (take (stop - start) (drop start (str_lines txt)))))"

section \<open>What the budget guarantees\<close>

lemma budget_take_facts:
  assumes "utf8_start t" and "budget_take t b = (kept, b')"
  shows "char_count kept + bg_remaining b' = bg_remaining b"
    and "char_count kept + cd_chars (bg_drops b') = char_count t + cd_chars (bg_drops b)"
    and "prefix kept t" and "kept \<noteq> t \<Longrightarrow> bg_remaining b' = 0"
    and "cd_items (bg_drops b') = cd_items (bg_drops b) + of_bool (kept \<noteq> t)"
proof -
  have count: "char_count (chars_take n t) = min n (char_count t)" for n
    by (rule char_count_chars_take [OF assms(1)])
  have pre: "prefix (chars_take n t) t" for n
    by (metis append_take_drop_id chars_take_def concat_append concat_chars prefixI)
  have less: "chars_take n t \<noteq> t" if "n < char_count t" for n
    using count [of n] that by auto
  from assms(2) pre count less
  show "char_count kept + bg_remaining b' = bg_remaining b"
    and "char_count kept + cd_chars (bg_drops b') = char_count t + cd_chars (bg_drops b)"
    and "prefix kept t" and "kept \<noteq> t \<Longrightarrow> bg_remaining b' = 0"
    and "cd_items (bg_drops b') = cd_items (bg_drops b) + of_bool (kept \<noteq> t)"
    by (auto simp: budget_take_def Let_def split: if_splits)
qed

lemma take_all_exhausted:
  "bg_remaining b = 0 \<Longrightarrow> \<forall>t \<in> set ts. utf8_start t \<Longrightarrow> take_all ts b = (kept, b') \<Longrightarrow> \<forall>k \<in> set kept. k = []"
proof (induction ts arbitrary: b kept)
  case (Cons t ts)
  obtain k c where take: "budget_take t b = (k, c)" by force
  have "char_count k + bg_remaining c = 0" using budget_take_facts(1) [OF _ take] Cons.prems by simp
  moreover have "char_count k = 0 \<Longrightarrow> k = []" by (cases k) (auto simp: char_count_def)
  ultimately show ?case using Cons take by (auto split: prod.splits)
qed simp

lemma take_all_facts:
  assumes "\<forall>t \<in> set ts. utf8_start t" and "take_all ts b = (kept, b')"
  shows "sum_list (map char_count kept) + bg_remaining b' = bg_remaining b \<and>
    sum_list (map char_count kept) + cd_chars (bg_drops b') = sum_list (map char_count ts) + cd_chars (bg_drops b) \<and>
    cd_items (bg_drops b') = cd_items (bg_drops b) + length (filter (\<lambda>(k, t). k \<noteq> t) (zip kept ts)) \<and>
    list_all2 prefix kept ts \<and>
    (\<forall>i j. i < j \<longrightarrow> j < length ts \<longrightarrow> kept ! i \<noteq> ts ! i \<longrightarrow> kept ! j = [])"
  using assms
proof (induction ts arbitrary: b kept)
  case (Cons t ts)
  obtain k c where take: "budget_take t b = (k, c)" by force
  obtain rest where kept: "kept = k # rest" and rest: "take_all ts c = (rest, b')"
    using Cons.prems(2) take by (auto split: prod.splits)
  have u: "utf8_start t" "\<forall>t \<in> set ts. utf8_start t" using Cons.prems(1) by simp_all
  note f = budget_take_facts [OF u(1) take] and IH = Cons.IH [OF u(2) rest]
  have len: "length rest = length ts" using IH by (auto dest: list_all2_lengthD)
  have "kept ! j = []" if ij: "i < j" "j < length (t # ts)" "kept ! i \<noteq> (t # ts) ! i" for i j
  proof -
    obtain j' where j: "j = Suc j'" using ij(1) by (cases j) auto
    show ?thesis
    proof (cases i)
      case 0
      then have "bg_remaining c = 0" using f(4) ij(3) kept by simp
      then show ?thesis using take_all_exhausted [OF _ u(2) rest] ij(2) len by (simp add: kept j)
    next
      case (Suc i')
      then show ?thesis using IH ij by (auto simp: kept j)
    qed
  qed
  then show ?case using IH f by (auto simp: kept)
qed simp

text \<open>
  A request's context never exceeds its budget and every cut is accounted for: the characters
  sent and those left make up the cap, the characters sent and those counted as dropped make up the
  sources, each source is sent as a prefix of itself, and once one is cut short nothing of a later
  (less important) one is sent.
\<close>

theorem context_budget_exact:
  assumes "\<forall>t \<in> set ts. utf8_start t" and "take_all ts (with_cap cap) = (kept, b)"
  shows "sum_list (map char_count kept) + bg_remaining b = cap \<and>
    sum_list (map char_count kept) + cd_chars (bg_drops b) = sum_list (map char_count ts) \<and>
    cd_items (bg_drops b) = length (filter (\<lambda>(k, t). k \<noteq> t) (zip kept ts)) \<and>
    list_all2 prefix kept ts \<and>
    (\<forall>i j. i < j \<longrightarrow> j < length ts \<longrightarrow> kept ! i \<noteq> ts ! i \<longrightarrow> kept ! j = [])"
  using take_all_facts [OF assms] by (simp add: with_cap_def)

theorem context_budget_exact_witness:
  "take_all [''unit'', ''trimmed'', ''x''] (with_cap 6) = ([''unit'', ''tr'', []],
     \<lparr>bg_remaining = 0, bg_drops = \<lparr>cd_chars = 6, cd_items = 2\<rparr>\<rparr>)
   \<and> sum_list (map char_count [''unit'', ''tr'', []]) + 0 = 6"
proof -
  have take: "take_all [''unit'', ''trimmed'', ''x''] (with_cap 6) = ([''unit'', ''tr'', []],
     \<lparr>bg_remaining = 0, bg_drops = \<lparr>cd_chars = 6, cd_items = 2\<rparr>\<rparr>)"
    by (simp add: with_cap_def budget_take_def char_count_def chars_take_def is_cont_def Let_def)
  have "\<forall>t \<in> set [''unit'', ''trimmed'', ''x'']. utf8_start t" by (simp add: utf8_start_def is_cont_def)
  from context_budget_exact [OF this take] take show ?thesis by simp
qed

section \<open>What travels as a related test\<close>

lemma char_count_Cons: "char_count (c # cs) = Suc (char_count (dropWhile is_cont cs))"
  by (simp add: char_count_def)

lemma char_count_drop: "char_count (dropWhile is_cont s) \<le> char_count s"
  by (cases s) (simp_all add: char_count_Cons)

lemma char_count_append: "char_count (a @ b) \<le> char_count a + char_count b"
proof (induction a rule: chars.induct)
  case (2 c cs)
  show ?case
  proof (cases "\<forall>x \<in> set cs. is_cont x")
    case True
    then show ?thesis using char_count_drop [of b] by (simp add: char_count_Cons dropWhile_append2)
  next
    case False
    then show ?thesis using 2 by (auto simp: char_count_Cons dropWhile_append1)
  qed
qed simp

lemma char_count_groups: "set gs \<subseteq> set (chars s) \<Longrightarrow> char_count (concat gs) \<le> length gs"
proof (induction gs)
  case (Cons g gs)
  have "char_count g \<le> 1" if "g \<in> set (chars s)" for g
    using that
  proof (induction s rule: chars.induct)
    case (2 c cs)
    have stop: "dropWhile is_cont (takeWhile is_cont cs) = []"
      by (metis dropWhile_eq_Nil_conv set_takeWhileD)
    have "char_count (c # takeWhile is_cont cs) = 1"
      unfolding char_count_Cons stop by (simp add: char_count_def)
    with 2 show ?case by auto
  qed simp
  with Cons char_count_append [of g "concat gs"] show ?case by fastforce
qed (simp add: char_count_def)

lemma clip_snippet_bound: "char_count (clip_snippet s) \<le> MAX_TEST_SNIPPET_CHARS"
proof (cases "MAX_TEST_SNIPPET_CHARS < char_count s")
  case True
  let ?side = "896 :: nat"
  have h: "char_count (chars_take ?side s) \<le> ?side"
    using char_count_groups [of "take ?side (chars s)" s] set_take_subset [of ?side "chars s"]
    by (simp add: chars_take_def)
  have t: "char_count (concat (drop (char_count s - ?side) (chars s))) \<le> ?side"
    using char_count_groups [of "drop (char_count s - ?side) (chars s)" s]
      set_drop_subset [of "char_count s - ?side" "chars s"]
    by (simp add: char_count_def)
  have m: "char_count (NL # ''...'' @ NL # x) \<le> 5 + char_count x" for x
    using char_count_append [of "NL # ''...'' @ [NL]" x] by (simp add: char_count_def is_cont_def)
  have "char_count (clip_snippet s)
      \<le> char_count (chars_take ?side s) + (5 + char_count (concat (drop (char_count s - ?side) (chars s))))"
    using True le_trans [OF char_count_append add_left_mono [OF m]]
    by (simp add: clip_snippet_def MAX_TEST_SNIPPET_CHARS_def Let_def)
  then show ?thesis using h t by (simp add: MAX_TEST_SNIPPET_CHARS_def)
next
  case False
  then show ?thesis by (simp add: clip_snippet_def)
qed

lemma ranked_facts:
  "length (ranked p tests path) \<le> MAX_RELATED_TESTS"
  "(n, t) \<in> set (ranked p tests path) \<Longrightarrow> t \<in> set tests \<and> 0 < relatedness p (path t)"
  by (auto simp: ranked_def sort_facts dest!: in_set_takeD)

text \<open>
  The tests sent with a file are bounded and related: at most four, each of at most 1800
  characters, and each the compacted text of a given test whose path shares the file's stem or
  directory, in both review modes.
\<close>

theorem related_tests_bounded:
  "length (select_related_tests lower file tests) \<le> 4 \<and>
   length (select_related_changed_tests lower changed changed_tests) \<le> 4 \<and>
   (\<forall>t \<in> set (select_related_tests lower file tests). char_count (sf_content t) \<le> 1800 \<and>
      (\<exists>u \<in> set tests. sf_path u = sf_path t \<and> 0 < relatedness (sf_path file) (sf_path u))) \<and>
   (\<forall>t \<in> set (select_related_changed_tests lower changed changed_tests). char_count (cf_patch t) \<le> 1800 \<and> cf_base t = [] \<and>
      (\<exists>u \<in> set changed_tests. cf_path u = cf_path t \<and> 0 < relatedness (cf_path changed) (cf_path u)))"
  using ranked_facts(1) [of "sf_path file" tests sf_path] ranked_facts(1) [of "cf_path changed" changed_tests cf_path]
    clip_snippet_bound
  by (auto simp: select_related_tests_def select_related_changed_tests_def compact_test_def snippet_def
      MAX_RELATED_TESTS_def MAX_TEST_SNIPPET_CHARS_def Let_def dest!: ranked_facts(2))

lemma window_arith:
  fixes c n r :: nat
  assumes "c < n"
  shows "min (c + r + 1) n - (c - r) \<le> 2 * r + 1" and "c + 1 < c - r + 1 + (min (c + r + 1) n - (c - r))"
  using assms by (auto simp: min_def)

lemma window_facts:
  assumes "str_lines txt \<noteq> []" and "window txt line radius = (start, content)"
  shows "1 \<le> start \<and> start \<le> max 1 (min line (length (str_lines txt))) \<and>
    (\<exists>ls. content = join [NL] ls \<and> length ls \<le> 2 * radius + 1 \<and>
      ls = take (length ls) (drop (start - 1) (str_lines txt)) \<and>
      max 1 (min line (length (str_lines txt))) < start + length ls)"
proof -
  define n where "n = length (str_lines txt)"
  define c where "c = max 1 (min line n) - 1"
  define k where "k = min (c + radius + 1) n - (c - radius)"
  let ?ls = "take k (drop (c - radius) (str_lines txt))"
  have n: "0 < n" using assms(1) by (simp add: n_def)
  then have c: "c < n" and mx: "max 1 (min line n) = c + 1" unfolding c_def by linarith+
  have w: "start = c - radius + 1" "content = join [NL] ?ls"
    using assms(2) n by (simp_all add: window_def Let_def n_def c_def k_def)
  have "k \<le> n - (c - radius)" unfolding k_def by (intro diff_le_mono) simp
  then have len: "length ?ls = k" by (simp add: n_def)
  have "1 \<le> start \<and> start \<le> max 1 (min line n)" "k \<le> 2 * radius + 1" "max 1 (min line n) < start + k"
    using window_arith [OF c, of radius] unfolding w(1) mx k_def by auto
  moreover have "?ls = take k (drop (start - 1) (str_lines txt))" by (simp add: w(1))
  ultimately show ?thesis using w(2) len unfolding n_def by metis
qed

end
