(* ===== verification/Typesafe.thy ===== *)
theory Typesafe
  imports Redact Context Budget
begin

text \<open>
  The client of the System One service (\<open>review/typesafe.rs\<close>) with its result cache
  (\<open>adapters/cache.rs\<close>): typed answers and their validation, the configuration, one request with
  redaction, cache, budget, limiter and retries, and the question builders.

  Parameters are what is not code of the repository: the HTTP transport (\<open>http\<close>, on a world of its
  own, with the time a request takes), SHA-256 of the serialized request (\<open>digest\<close>), the hasher of
  the redaction log and the patterns of redaction. Time is counted in nanoseconds. One request at a
  time: the interleavings of budget and limiter are in \<open>Budget\<close>.
\<close>

unbundle bit_operations_syntax

section \<open>Answers\<close>

record Usage =
  us_input_tokens :: u64
  us_output_tokens :: u64

record Response =
  rp_model :: string
  rp_answers :: "(string \<times> json) list"
  rp_usage :: "Usage option"

definition answer :: "Response \<Rightarrow> string \<Rightarrow> json result" where
  "answer r qid =
     (case map_of (rp_answers r) qid of
        Some a \<Rightarrow> Inr a
      | None \<Rightarrow> Inl (Msg (''missing answer '' @ CHR 0x27 # qid @ [CHR 0x27])))"

definition field :: "string \<Rightarrow> (json \<Rightarrow> 'a option) \<Rightarrow> string \<Rightarrow> json \<Rightarrow> 'a result" where
  "field qid read key a =
     (case json_get key a of
        Some v \<Rightarrow> (case read v of Some x \<Rightarrow> Inr x
                  | None \<Rightarrow> Inl (Msg (''answer '' @ CHR 0x27 # qid @ CHR 0x27 # '' missing .'' @ key)))
      | None \<Rightarrow> Inl (Msg (''answer '' @ CHR 0x27 # qid @ CHR 0x27 # '' missing .'' @ key)))"

definition resp_noul :: "Response \<Rightarrow> string \<Rightarrow> f64 result" where
  "resp_noul r qid = and_then (answer r qid) (field qid as_f64 ''noul'')"

definition resp_choice :: "Response \<Rightarrow> string \<Rightarrow> (string \<times> f64) result" where
  "resp_choice r qid =
     and_then (answer r qid) (\<lambda>a.
     and_then (field qid as_str ''choice'' a) (\<lambda>label.
     and_then (field qid as_f64 ''confidence'' a) (\<lambda>confidence. Inr (label, confidence))))"

definition resp_score :: "Response \<Rightarrow> string \<Rightarrow> (f64 \<times> f64) result" where
  "resp_score r qid =
     and_then (answer r qid) (\<lambda>a.
     and_then (field qid as_f64 ''score'' a) (\<lambda>scr.
     and_then (field qid as_f64 ''confidence'' a) (\<lambda>confidence. Inr (scr, confidence))))"

definition res_ok_and :: "'a result \<Rightarrow> ('a \<Rightarrow> bool) \<Rightarrow> bool" where
  "res_ok_and r p = (case r of Inl _ \<Rightarrow> False | Inr x \<Rightarrow> p x)"

definition valid_answer :: "Response \<Rightarrow> string \<Rightarrow> json \<Rightarrow> bool" where
  "valid_answer r qid q =
     (case json_get ''type'' q of
        Some (JStr t) \<Rightarrow>
          if t = ''noul'' then res_ok_and (resp_noul r qid) in_unit
          else if t = ''choice'' then res_ok_and (resp_choice r qid) (\<lambda>(_, c). in_unit c)
          else if t = ''score'' then res_ok_and (resp_score r qid) (\<lambda>(n, c). is_finite n \<and> in_unit c)
          else False
      | _ \<Rightarrow> False)"

definition valid_answers :: "Response \<Rightarrow> json \<Rightarrow> bool" where
  "valid_answers r questions \<longleftrightarrow>
     rp_model r \<noteq> [] \<and>
     (case as_object questions of
        None \<Rightarrow> False
      | Some qs \<Rightarrow> list_all (\<lambda>(qid, q). valid_answer r qid q) qs)"

text \<open>\<open>serde_json::from_value\<close> on a response; a \<open>u64\<close> is an integral number of the range.\<close>

fun u64_of_json :: "json \<Rightarrow> u64 option" where
  "u64_of_json (JNum (Fin x)) =
     (if 0 \<le> x \<and> x < 2 ^ 64 \<and> x = of_int \<lfloor>x\<rfloor> then Some (word_of_int \<lfloor>x\<rfloor>) else None)"
| "u64_of_json _ = None"

definition token_field :: "string \<Rightarrow> string \<Rightarrow> json \<Rightarrow> u64 option" where
  "token_field name other v =
     (case (json_get name v, json_get other v) of
        (None, None) \<Rightarrow> Some 0
      | (Some x, None) \<Rightarrow> u64_of_json x
      | (None, Some x) \<Rightarrow> u64_of_json x
      | (Some _, Some _) \<Rightarrow> None)"

definition usage_of_json :: "json \<Rightarrow> Usage option" where
  "usage_of_json v =
     (case (as_object v, token_field ''input_tokens'' ''inputTokens'' v, token_field ''output_tokens'' ''outputTokens'' v) of
        (Some _, Some i, Some out) \<Rightarrow> Some \<lparr>us_input_tokens = i, us_output_tokens = out\<rparr>
      | _ \<Rightarrow> None)"

definition response_of_json :: "json \<Rightarrow> Response option" where
  "response_of_json v =
     (case (json_get ''model'' v, json_get ''answers'' v) of
        (Some (JStr model), Some (JObj answers)) \<Rightarrow>
          (case json_get ''usage'' v of
             None \<Rightarrow> Some \<lparr>rp_model = model, rp_answers = answers, rp_usage = None\<rparr>
           | Some JNull \<Rightarrow> Some \<lparr>rp_model = model, rp_answers = answers, rp_usage = None\<rparr>
           | Some u \<Rightarrow> (case usage_of_json u of
                          Some us \<Rightarrow> Some \<lparr>rp_model = model, rp_answers = answers, rp_usage = Some us\<rparr>
                        | None \<Rightarrow> None))
      | _ \<Rightarrow> None)"

section \<open>Configuration\<close>

record ClientConfig =
  cc_api_key :: "string option"
  cc_base_url :: string
  cc_model :: string
  cc_timeout_secs :: nat
  cc_redact :: bool

definition parse_switch :: "string \<Rightarrow> string \<Rightarrow> bool result" where
  "parse_switch name raw =
     (let v = map to_ascii_lower (trim raw) in
      if v \<in> {''1'', ''true'', ''on'', ''yes''} then Inr True
      else if v \<in> {''0'', ''false'', ''off'', ''no''} then Inr False
      else Inl (Msg (name @ '' must be on or off, got '' @ CHR 0x27 # raw @ [CHR 0x27])))"

definition trim_slashes :: "string \<Rightarrow> string" where
  "trim_slashes s = rev (dropWhile (\<lambda>c. c = CHR ''/'') (rev s))"

definition from_lookup :: "(string \<Rightarrow> bool) \<Rightarrow> (string \<Rightarrow> string option) \<Rightarrow> ClientConfig result" where
  "from_lookup is_loopback lookup =
     (let var = (\<lambda>name. case lookup name of Some s \<Rightarrow> if blank s then None else Some s | None \<Rightarrow> None);
          base_url = (case var ''TYPESAFE_BASE_URL'' of Some s \<Rightarrow> trim_slashes (trim s)
                        | None \<Rightarrow> ''https://api.typesafe.ai'');
          api_key = var ''TYPESAFE_API_KEY''
      in if api_key = None \<and> \<not> is_loopback base_url
         then Inl (Msg ''TYPESAFE_API_KEY is not set (required unless TYPESAFE_BASE_URL is a local server)'')
         else
           let model = (case var ''TYPESAFE_DEFAULT_MODEL'' of Some m \<Rightarrow> m | None \<Rightarrow> ''jev-latest'') in
           and_then (case var ''TYPESAFE_TIMEOUT_SECS'' of
                       Some raw \<Rightarrow> parse_positive ''TYPESAFE_TIMEOUT_SECS'' raw | None \<Rightarrow> Inr 60) (\<lambda>timeout.
           and_then (case var ''MOMUS_REDACT'' of
                       Some raw \<Rightarrow> parse_switch ''MOMUS_REDACT'' raw | None \<Rightarrow> Inr True) (\<lambda>redact_on.
             Inr \<lparr>cc_api_key = api_key, cc_base_url = base_url, cc_model = model,
                  cc_timeout_secs = timeout, cc_redact = redact_on\<rparr>)))"

section \<open>The result cache\<close>

text \<open>
  \<open>rc_files\<close> are the readable, well-formed entries by file stem; a write is best effort and has an
  effect only when the storage is writable.
\<close>

record ResultCache =
  rc_dir :: "string option"
  rc_aliases :: "string \<rightharpoonup> string"
  rc_files :: "string \<rightharpoonup> json"
  rc_writable :: bool

definition resolve_model :: "ResultCache \<Rightarrow> string \<Rightarrow> string" where
  "resolve_model c requested = (case rc_aliases c requested of Some m \<Rightarrow> m | None \<Rightarrow> requested)"

definition record_model :: "string \<Rightarrow> string \<Rightarrow> ResultCache \<Rightarrow> ResultCache" where
  "record_model requested resolved c =
     (if requested = resolved then c
      else if rc_aliases c requested = Some resolved then c
      else c\<lparr>rc_aliases := (rc_aliases c)(requested \<mapsto> resolved)\<rparr>)"

definition cache_enabled :: "ResultCache \<Rightarrow> bool" where
  "cache_enabled c \<longleftrightarrow> rc_dir c \<noteq> None"

definition cache_unit :: "string \<Rightarrow> string \<Rightarrow> json \<Rightarrow> json \<Rightarrow> json" where
  "cache_unit base_url model state questions =
     obj [(''base_url'', JStr base_url), (''model'', JStr model), (''questions'', questions), (''state'', state)]"

definition hex_nibble :: "nat \<Rightarrow> char" where
  "hex_nibble d = ''0123456789abcdef'' ! d"

definition hex_bytes :: "8 word list \<Rightarrow> string" where
  "hex_bytes bs = concat (map (\<lambda>b. [hex_nibble (unat (drop_bit 4 b)), hex_nibble (unat (b AND 0x0f))]) bs)"

definition cache_key :: "(json \<Rightarrow> 8 word list) \<Rightarrow> string \<Rightarrow> string \<Rightarrow> json \<Rightarrow> json \<Rightarrow> string" where
  "cache_key digest base_url model state questions =
     hex_bytes (digest (cache_unit base_url model state questions))"

definition cache_lookup ::
  "(json \<Rightarrow> 8 word list) \<Rightarrow> ResultCache \<Rightarrow> string \<Rightarrow> string \<Rightarrow> json \<Rightarrow> json \<Rightarrow> json option" where
  "cache_lookup digest c base_url model state questions =
     (case rc_dir c of
        None \<Rightarrow> None
      | Some _ \<Rightarrow> rc_files c (cache_key digest base_url (resolve_model c model) state questions))"

definition cache_store ::
  "(json \<Rightarrow> 8 word list) \<Rightarrow> string \<Rightarrow> string \<Rightarrow> json \<Rightarrow> json \<Rightarrow> json \<Rightarrow> ResultCache \<Rightarrow> ResultCache" where
  "cache_store digest base_url model state questions response c =
     (if rc_dir c = None \<or> \<not> rc_writable c then c
      else c\<lparr>rc_files := (rc_files c)(cache_key digest base_url model state questions \<mapsto> response)\<rparr>)"

section \<open>The client\<close>

record UsageMeter =
  um_calls :: u64
  um_input_tokens :: u64
  um_output_tokens :: u64

definition meter_record :: "Usage option \<Rightarrow> UsageMeter \<Rightarrow> UsageMeter" where
  "meter_record usage m =
     (let m' = m\<lparr>um_calls := um_calls m + 1\<rparr> in
      case usage of
        None \<Rightarrow> m'
      | Some u \<Rightarrow> m'\<lparr>um_input_tokens := um_input_tokens m' + us_input_tokens u,
                    um_output_tokens := um_output_tokens m' + us_output_tokens u\<rparr>)"

record 'w Client =
  cl_base_url :: string
  cl_model :: string
  cl_redact :: bool
  cl_usage :: UsageMeter
  cl_cache :: ResultCache
  cl_limiter :: Limiter
  cl_budget :: CallBudget
  cl_hits :: u64
  cl_misses :: u64
  cl_redactions :: RedactionLog
  cl_now :: nat
  cl_world :: 'w

definition usage_summary :: "'w Client \<Rightarrow> UsageSummary" where
  "usage_summary c =
     \<lparr>ug_calls = um_calls (cl_usage c), ug_input_tokens = um_input_tokens (cl_usage c),
      ug_output_tokens = um_output_tokens (cl_usage c),
      ug_cache = \<lparr>ca_hits = cl_hits c, ca_misses = cl_misses c\<rparr>\<rparr>"

definition model_identity :: "'w Client \<Rightarrow> string" where
  "model_identity c = cl_base_url c @ '':'' @ resolve_model (cl_cache c) (cl_model c)"

text \<open>A reply of the transport: no response, a status other than success, or a success whose body
  decodes or not.\<close>

datatype HttpReply =
    TransportError bool string
  | HttpStatus nat "nat option" string
  | HttpSuccess "Response result"

definition MAX_RETRIES :: nat where "MAX_RETRIES = 3"

definition is_retryable_status :: "nat \<Rightarrow> bool" where
  "is_retryable_status code \<longleftrightarrow> code \<in> {429, 500, 502, 503, 504, 529}"

definition backoff_delay :: "nat \<Rightarrow> nat" where
  "backoff_delay attempt = 500 * 2 ^ attempt * 1000000"

text \<open>\<open>acquire\<close>: sleep out the cooldown and take a permit; \<open>None\<close> while others hold them all.\<close>

definition acquire :: "'w Client \<Rightarrow> 'w Client option" where
  "acquire c =
     (let now = max (cl_now c) (l_cooldown (cl_limiter c)) in
      case try_acquire now (cl_limiter c) of
        Inr l \<Rightarrow> Some (c\<lparr>cl_now := now, cl_limiter := l\<rparr>)
      | Inl _ \<Rightarrow> None)"

definition release :: "'w Client \<Rightarrow> 'w Client" where
  "release c = c\<lparr>cl_limiter := drop_permit (cl_limiter c)\<rparr>"

definition reserve_call :: "'w Client \<Rightarrow> unit result \<times> 'w Client" where
  "reserve_call c = (case reserve (cl_budget c) of (r, b) \<Rightarrow> (r, c\<lparr>cl_budget := b\<rparr>))"

definition send :: "(json \<Rightarrow> 'w \<Rightarrow> HttpReply \<times> nat \<times> 'w) \<Rightarrow> json \<Rightarrow> 'w Client \<Rightarrow> HttpReply \<times> 'w Client" where
  "send http body c =
     (case http body (cl_world c) of (reply, elapsed, w) \<Rightarrow>
        (reply, c\<lparr>cl_now := cl_now c + elapsed, cl_world := w\<rparr>))"

definition sleep :: "nat \<Rightarrow> 'w Client \<Rightarrow> 'w Client" where
  "sleep d c = c\<lparr>cl_now := cl_now c + d\<rparr>"

text \<open>A decoded success: the limiter, the meter, and the cache when the answers are valid.\<close>

definition accept ::
  "(json \<Rightarrow> 8 word list) \<Rightarrow> json \<Rightarrow> json \<Rightarrow> Response \<Rightarrow> 'w Client \<Rightarrow> 'w Client" where
  "accept digest state questions resp c =
     (let c1 = c\<lparr>cl_limiter := healthy (cl_limiter c), cl_usage := meter_record (rp_usage resp) (cl_usage c)\<rparr> in
      if valid_answers resp questions then
        let cache = record_model (cl_model c) (rp_model resp) (cl_cache c1) in
        c1\<lparr>cl_cache :=
          (if cache_enabled cache \<and> \<not> ends_with (rp_model resp) ''latest'' then
             cache_store digest (cl_base_url c) (rp_model resp) state questions
               (obj [(''model'', JStr (rp_model resp)), (''answers'', JObj (rp_answers resp))]) cache
           else cache)\<rparr>
      else c1)"

definition throttle :: "nat \<Rightarrow> nat option \<Rightarrow> nat \<Rightarrow> 'w Client \<Rightarrow> 'w Client" where
  "throttle code retry_after attempt c =
     (if code = 429 \<or> code = 529 then
        c\<lparr>cl_limiter := throttled (cl_now c)
             (case retry_after of Some secs \<Rightarrow> secs * 1000000000 | None \<Rightarrow> backoff_delay attempt) (cl_limiter c)\<rparr>
      else c)"

text \<open>The retry loop; \<open>left\<close> is the number of retries left, so the attempt is \<open>MAX_RETRIES - left\<close>.\<close>

fun request_loop ::
  "(json \<Rightarrow> 'w \<Rightarrow> HttpReply \<times> nat \<times> 'w) \<Rightarrow> (nat \<Rightarrow> string) \<Rightarrow> (json \<Rightarrow> 8 word list) \<Rightarrow> json \<Rightarrow> json \<Rightarrow> json \<Rightarrow>
    nat \<Rightarrow> 'w Client \<Rightarrow> (Response result \<times> 'w Client) option" where
  "request_loop http status_text digest body state questions left c =
     (case acquire c of
        None \<Rightarrow> None
      | Some c1 \<Rightarrow>
          case reserve_call c1 of
            (Inl e, c2) \<Rightarrow> Some (Inl e, release c2)
          | (Inr _, c2) \<Rightarrow>
              case send http body c2 of
                (TransportError retryable msg, c3) \<Rightarrow>
                  if retryable \<and> 0 < left then
                    request_loop http status_text digest body state questions (left - 1)
                      (sleep (backoff_delay (MAX_RETRIES - left)) (release c3))
                  else Some (Inl (Msg msg), release c3)
              | (HttpSuccess (Inl e), c3) \<Rightarrow> Some (Inl e, release c3)
              | (HttpSuccess (Inr resp), c3) \<Rightarrow> Some (Inr resp, release (accept digest state questions resp c3))
              | (HttpStatus code retry_after txt, c3) \<Rightarrow>
                  let c4 = release (throttle code retry_after (MAX_RETRIES - left) c3) in
                  if is_retryable_status code \<and> 0 < left then
                    request_loop http status_text digest body state questions (left - 1)
                      (sleep (backoff_delay (MAX_RETRIES - left)) c4)
                  else Some (Inl (Msg (''system_one failed ('' @ status_text code @ ''): '' @ txt)), c4))"

declare request_loop.simps [simp del]

definition redact_state :: "Detectors \<Rightarrow> (string \<Rightarrow> nat) \<Rightarrow> json \<Rightarrow> 'w Client \<Rightarrow> json \<times> 'w Client" where
  "redact_state dt hasher state c =
     (if cl_redact c then
        case redact_value dt state [] of
          (state', found) \<Rightarrow>
            (state', if found = [] then c else c\<lparr>cl_redactions := log_record hasher found (cl_redactions c)\<rparr>)
      else (state, c))"

definition cached_response ::
  "(json \<Rightarrow> 8 word list) \<Rightarrow> json \<Rightarrow> json \<Rightarrow> 'w Client \<Rightarrow> Response option" where
  "cached_response digest state questions c =
     (let resolved = resolve_model (cl_cache c) (cl_model c);
          unresolved_alias = ends_with (cl_model c) ''latest'' \<and> resolved = cl_model c
      in case (if \<not> unresolved_alias \<and> cache_enabled (cl_cache c)
               then cache_lookup digest (cl_cache c) (cl_base_url c) (cl_model c) state questions else None) of
           None \<Rightarrow> None
         | Some v \<Rightarrow>
             (case response_of_json v of
                None \<Rightarrow> None
              | Some r \<Rightarrow> if rp_model r = resolved \<and> valid_answers r questions
                         then Some (r\<lparr>rp_usage := None\<rparr>) else None))"

definition system_one ::
  "Detectors \<Rightarrow> (string \<Rightarrow> nat) \<Rightarrow> (json \<Rightarrow> 'w \<Rightarrow> HttpReply \<times> nat \<times> 'w) \<Rightarrow> (nat \<Rightarrow> string) \<Rightarrow>
    (json \<Rightarrow> 8 word list) \<Rightarrow> json \<Rightarrow> json \<Rightarrow> 'w Client \<Rightarrow> (Response result \<times> 'w Client) option" where
  "system_one dt hasher http status_text digest state0 questions c0 =
     (case redact_state dt hasher state0 c0 of (state, c) \<Rightarrow>
      case cached_response digest state questions c of
        Some r \<Rightarrow> Some (Inr r, c\<lparr>cl_hits := cl_hits c + 1\<rparr>)
      | None \<Rightarrow>
          request_loop http status_text digest
            (obj [(''state'', state), (''questions'', questions), (''model'', JStr (cl_model c))])
            state questions MAX_RETRIES (c\<lparr>cl_misses := cl_misses c + 1\<rparr>))"

section \<open>Questions\<close>

definition question :: "string \<Rightarrow> json \<Rightarrow> json \<Rightarrow> json" where
  "question kind instructions criteria =
     obj [(''type'', JStr kind), (''instructions'', instructions), (''criteria'', criteria)]"

definition noul :: "json \<Rightarrow> json \<Rightarrow> json" where
  "noul = question ''noul''"

definition choice :: "json \<Rightarrow> json \<Rightarrow> json" where
  "choice = question ''choice''"

definition score :: "json \<Rightarrow> json \<Rightarrow> json" where
  "score = question ''score''"

definition choice_criteria :: "(string \<times> string) list \<Rightarrow> json" where
  "choice_criteria entries = obj (map (\<lambda>(label, desc). (label, JStr desc)) entries)"

definition score_criteria :: "string list \<Rightarrow> json" where
  "score_criteria levels = JArr (map JStr levels)"

definition mechanism_criteria :: "string \<Rightarrow> Dimension \<Rightarrow> json" where
  "mechanism_criteria path dimension = choice_criteria (mechanisms_for dimension (from_path path))"

section \<open>A request always completes, within its attempts\<close>

text \<open>Between requests: no permit is held, the limit is positive, and the budget is kept.\<close>

definition budget_ok :: "CallBudget \<Rightarrow> bool" where
  "budget_ok b \<longleftrightarrow> (case cb_limit b of None \<Rightarrow> True | Some l \<Rightarrow> cb_reserved b \<le> l)"

lemma budget_ok_deferred [simp]: "budget_ok (b\<lparr>cb_deferred := d\<rparr>) = budget_ok b"
  by (simp add: budget_ok_def split: option.split)

definition client_ok :: "'w Client \<Rightarrow> bool" where
  "client_ok c \<longleftrightarrow>
     l_active (cl_limiter c) = 0 \<and> 1 \<le> l_limit (cl_limiter c) \<and> 1 \<le> l_cap (cl_limiter c) \<and> budget_ok (cl_budget c)"

text \<open>The parts of a client that no request changes.\<close>

definition same_client :: "'w Client \<Rightarrow> 'w Client \<Rightarrow> bool" where
  "same_client c c' \<longleftrightarrow>
     cl_base_url c' = cl_base_url c \<and> cl_model c' = cl_model c \<and> cl_redact c' = cl_redact c \<and>
     cb_limit (cl_budget c') = cb_limit (cl_budget c) \<and> rc_dir (cl_cache c') = rc_dir (cl_cache c) \<and>
     rc_writable (cl_cache c') = rc_writable (cl_cache c)"

lemma client_ok_update [simp]:
  "client_ok (c\<lparr>cl_hits := h\<rparr>) = client_ok c" "client_ok (c\<lparr>cl_misses := h\<rparr>) = client_ok c"
  "client_ok (c\<lparr>cl_redactions := g\<rparr>) = client_ok c"
  by (simp_all add: client_ok_def)

lemma same_client_refl [simp]: "same_client c c"
  by (simp add: same_client_def)

lemma same_client_trans: "same_client a b \<Longrightarrow> same_client b c \<Longrightarrow> same_client a c"
  by (simp add: same_client_def)

lemma acquire_ok:
  assumes "client_ok c"
  shows "acquire c = Some (c\<lparr>cl_now := max (cl_now c) (l_cooldown (cl_limiter c)),
    cl_limiter := (cl_limiter c)\<lparr>l_active := 1\<rparr>\<rparr>)"
  using assms by (simp add: acquire_def try_acquire_def client_ok_def Let_def)

text \<open>Where an attempt leaves the client after its permit is released.\<close>

definition world_step :: "(json \<Rightarrow> 'w \<Rightarrow> HttpReply \<times> nat \<times> 'w) \<Rightarrow> json \<Rightarrow> 'w \<Rightarrow> 'w" where
  "world_step http body w = snd (snd (http body w))"

lemma accept_keeps:
  "cl_world (accept digest state questions r c) = cl_world c"
  "cl_budget (accept digest state questions r c) = cl_budget c"
  "cl_limiter (accept digest state questions r c) = healthy (cl_limiter c)"
  "same_client c (accept digest state questions r c)"
  by (auto simp: accept_def Let_def same_client_def cache_store_def record_model_def)

lemma throttle_keeps:
  "cl_world (throttle code ra n c) = cl_world c" "cl_budget (throttle code ra n c) = cl_budget c"
  "cl_cache (throttle code ra n c) = cl_cache c" "same_client c (throttle code ra n c)"
  "l_active (cl_limiter (throttle code ra n c)) = l_active (cl_limiter c)"
  "l_cap (cl_limiter (throttle code ra n c)) = l_cap (cl_limiter c)"
  "1 \<le> l_limit (cl_limiter c) \<Longrightarrow> 1 \<le> l_limit (cl_limiter (throttle code ra n c))"
  by (auto simp: throttle_def throttled_def same_client_def)

lemma healthy_keeps:
  "l_active (healthy l) = l_active l" "l_cap (healthy l) = l_cap l"
  "1 \<le> l_limit l \<Longrightarrow> 1 \<le> l_cap l \<Longrightarrow> 1 \<le> l_limit (healthy l)"
  by (auto simp: healthy_def)

lemma release_fields:
  "cl_budget (release c) = cl_budget c" "cl_world (release c) = cl_world c" "cl_cache (release c) = cl_cache c"
  "cl_limiter (release c) = drop_permit (cl_limiter c)" "same_client a (release c) \<longleftrightarrow> same_client a c"
  by (simp_all add: release_def same_client_def)

lemmas client_ops = release_def drop_permit_def sleep_def send_def reserve_call_def

text \<open>One turn of the loop after the permit: refused by the budget, over, or one more retry.\<close>

lemma request_loop_cases:
  assumes ok: "client_ok c"
  obtains
    (refused) e c' where "reserve (cl_budget c) = (Inl e, c')"
      "request_loop http status_text digest body state questions left c
        = Some (Inl e, c\<lparr>cl_now := max (cl_now c) (l_cooldown (cl_limiter c)), cl_budget := c'\<rparr>)"
  | (over) b r c' where "reserve (cl_budget c) = (Inr (), b)"
      "request_loop http status_text digest body state questions left c = Some (r, c')"
      "cl_budget c' = b" "cl_world c' = world_step http body (cl_world c)" "same_client c c'"
      "l_active (cl_limiter c') = 0" "1 \<le> l_limit (cl_limiter c')" "1 \<le> l_cap (cl_limiter c')"
      "\<And>resp. r = Inr resp \<Longrightarrow> \<exists>c3. c' = release (accept digest state questions resp c3) \<and>
         cl_cache c3 = cl_cache c \<and> same_client c c3"
  | (again) b c' where "reserve (cl_budget c) = (Inr (), b)" "0 < left"
      "request_loop http status_text digest body state questions left c
        = request_loop http status_text digest body state questions (left - 1) c'"
      "cl_budget c' = b" "cl_world c' = world_step http body (cl_world c)" "same_client c c'"
      "cl_cache c' = cl_cache c"
      "l_active (cl_limiter c') = 0" "1 \<le> l_limit (cl_limiter c')" "1 \<le> l_cap (cl_limiter c')"
proof -
  define c1 where "c1 = c\<lparr>cl_now := max (cl_now c) (l_cooldown (cl_limiter c)),
    cl_limiter := (cl_limiter c)\<lparr>l_active := 1\<rparr>\<rparr>"
  have acq: "acquire c = Some c1" using acquire_ok [OF ok] by (simp add: c1_def)
  have lim: "l_active (cl_limiter c) = 0" "1 \<le> l_limit (cl_limiter c)" "1 \<le> l_cap (cl_limiter c)"
    using ok by (simp_all add: client_ok_def)
  obtain rr b where rb: "reserve (cl_budget c) = (rr, b)" by force
  have rc: "reserve_call c1 = (rr, c1\<lparr>cl_budget := b\<rparr>)" using rb by (simp add: reserve_call_def c1_def)
  show thesis
  proof (cases rr)
    case (Inl e)
    have "request_loop http status_text digest body state questions left c
        = Some (Inl e, c\<lparr>cl_now := max (cl_now c) (l_cooldown (cl_limiter c)), cl_budget := b\<rparr>)"
      using lim(1) unfolding request_loop.simps [of http status_text digest body state questions left c] acq option.case rc Inl
      by (simp add: c1_def release_def drop_permit_def)
    then show thesis using refused rb Inl by blast
  next
    case (Inr u)
    then have ru: "reserve (cl_budget c) = (Inr (), b)" using rb by simp
    define c2 where "c2 = c1\<lparr>cl_budget := b\<rparr>"
    obtain reply c3 where snd: "send http body c2 = (reply, c3)" by force
    have "cb_limit b = cb_limit (cl_budget c)" using ru by (auto simp: reserve_def split: option.splits)
    then have c3: "cl_budget c3 = b" "cl_world c3 = world_step http body (cl_world c)" "same_client c c3"
      "cl_cache c3 = cl_cache c" "l_active (cl_limiter c3) = 1" "1 \<le> l_limit (cl_limiter c3)" "1 \<le> l_cap (cl_limiter c3)"
      using snd lim by (auto simp: send_def c2_def c1_def world_step_def same_client_def split: prod.splits)
    note eq = request_loop.simps [of http status_text digest body state questions left c,
        unfolded acq rc Inr option.case prod.case sum.case, folded c2_def, unfolded snd prod.case]
    show thesis
    proof (cases reply)
      case (TransportError retryable msg)
      then show thesis
        using c3 eq ru over [of b "Inl (Msg msg)" "release c3"]
          again [of b "sleep (backoff_delay (MAX_RETRIES - left)) (release c3)"]
        by (cases "retryable \<and> 0 < left") (auto simp: client_ops same_client_def)
    next
      case (HttpStatus code ra t)
      then show thesis
        using c3 eq ru throttle_keeps [where code = code and ra = ra and n = "MAX_RETRIES - left" and c = c3]
          over [of b "Inl (Msg (''system_one failed ('' @ status_text code @ ''): '' @ t))"
            "release (throttle code ra (MAX_RETRIES - left) c3)"]
          again [of b "sleep (backoff_delay (MAX_RETRIES - left)) (release (throttle code ra (MAX_RETRIES - left) c3))"]
        by (cases "is_retryable_status code \<and> 0 < left") (auto simp: client_ops same_client_def)
    next
      case (HttpSuccess res)
      show thesis
      proof (cases res)
        case (Inl e)
        then show thesis using HttpSuccess c3 eq ru over [of b "Inl e" "release c3"]
          by (auto simp: client_ops same_client_def)
      next
        case (Inr resp)
        let ?c' = "release (accept digest state questions resp c3)"
        have ex: "\<exists>d. ?c' = release (accept digest state questions resp d) \<and> cl_cache d = cl_cache c \<and> same_client c d"
          using c3 by blast
        have res: "request_loop http status_text digest body state questions left c = Some (Inr resp, ?c')"
          using eq HttpSuccess Inr by simp
        show thesis
          by (rule over [OF ru res])
            (use c3 ex healthy_keeps [of "cl_limiter c3"] in
              \<open>auto simp: release_fields accept_keeps drop_permit_def intro: same_client_trans\<close>)
      qed
    qed
  qed
qed

lemma reserve_ok:
  assumes "reserve (cl_budget c) = (Inr (), b)" and "client_ok c"
  shows "cb_reserved b = cb_reserved (cl_budget c) + 1" and "cb_limit b = cb_limit (cl_budget c)"
    and "cb_deferred b = cb_deferred (cl_budget c)"
    and "budget_ok b"
proof -
  from assms(1) have b: "b = (cl_budget c)\<lparr>cb_reserved := cb_reserved (cl_budget c) + 1\<rparr>"
    and l: "cb_limit (cl_budget c) = Some l \<Longrightarrow> cb_reserved (cl_budget c) < l" for l
    by (auto simp: reserve_def reserve_next_def not_le split: option.splits if_splits)
  show "cb_reserved b = cb_reserved (cl_budget c) + 1" and "cb_limit b = cb_limit (cl_budget c)"
    and "cb_deferred b = cb_deferred (cl_budget c)" by (simp_all add: b)
  show "budget_ok b"
    using l inc_le by (auto simp: b budget_ok_def split: option.split)
qed

lemma reserve_refused:
  assumes "reserve b = (Inl e, b')"
  shows "e = BudgetExhausted" and "b' = b\<lparr>cb_deferred := cb_deferred b + 1\<rparr>"
    and "\<exists>l. cb_limit b = Some l \<and> l \<le> cb_reserved b"
  using assms by (auto simp: reserve_def reserve_next_def split: option.splits if_splits)

lemma request_loop_completes:
  assumes "client_ok c"
  shows "\<exists>r c' k. request_loop http status_text digest body state questions left c = Some (r, c') \<and>
    client_ok c' \<and> same_client c c' \<and> k \<le> left + 1 \<and>
    cl_world c' = (world_step http body ^^ k) (cl_world c) \<and>
    cb_reserved (cl_budget c') = cb_reserved (cl_budget c) + of_nat k \<and>
    (cb_deferred (cl_budget c') = cb_deferred (cl_budget c) \<or>
      cb_deferred (cl_budget c') = cb_deferred (cl_budget c) + 1 \<and> r = Inl BudgetExhausted)"
  using assms
proof (induction left arbitrary: c rule: less_induct)
  case (less left)
  from less.prems show ?case
  proof (cases rule: request_loop_cases [where http = http and status_text = status_text and digest = digest
      and body = body and state = state and questions = questions and left = left])
    case (refused e b)
    then show ?thesis using less.prems reserve_refused [OF refused(1)]
      by (intro exI [of _ "Inl e"] exI [of _ "c\<lparr>cl_now := max (cl_now c) (l_cooldown (cl_limiter c)), cl_budget := b\<rparr>"] exI [of _ 0])
        (simp add: client_ok_def same_client_def)
  next
    case (over b r c')
    then show ?thesis using reserve_ok [OF over(1) less.prems]
      by (intro exI [of _ r] exI [of _ c'] exI [of _ 1]) (simp add: client_ok_def same_client_def)
  next
    case (again b c')
    have "client_ok c'" using again reserve_ok [OF again(1) less.prems] by (simp add: client_ok_def)
    from less.IH [OF _ this, of "left - 1"] again(2) obtain r c'' k where
      IH: "request_loop http status_text digest body state questions (left - 1) c' = Some (r, c'')"
      "client_ok c''" "same_client c' c''" "k \<le> left" "cl_world c'' = (world_step http body ^^ k) (cl_world c')"
      "cb_reserved (cl_budget c'') = cb_reserved (cl_budget c') + of_nat k"
      "cb_deferred (cl_budget c'') = cb_deferred (cl_budget c') \<or>
        cb_deferred (cl_budget c'') = cb_deferred (cl_budget c') + 1 \<and> r = Inl BudgetExhausted" by force
    have "(world_step http body ^^ Suc k) (cl_world c) = (world_step http body ^^ k) (cl_world c')"
      using again(5) by (simp add: funpow_swap1)
    then show ?thesis using again IH reserve_ok [OF again(1) less.prems] same_client_trans [OF again(6) IH(3)]
      by (intro exI [of _ r] exI [of _ c''] exI [of _ "Suc k"]) (simp add: algebra_simps)
  qed
qed

lemma request_loop_accepted:
  assumes "client_ok c" and "request_loop http status_text digest body state questions left c = Some (Inr r, c')"
  shows "\<exists>c3. c' = release (accept digest state questions r c3) \<and> cl_cache c3 = cl_cache c \<and> same_client c c3"
  using assms
proof (induction left arbitrary: c rule: less_induct)
  case (less left)
  from less.prems(1) show ?case
  proof (cases rule: request_loop_cases [where http = http and status_text = status_text and digest = digest
      and body = body and state = state and questions = questions and left = left])
    case (again b c1)
    have "client_ok c1" using again reserve_ok [OF again(1) less.prems(1)] by (simp add: client_ok_def)
    from less.IH [OF _ this, of "left - 1"] again less.prems(2) obtain c3 where
      "c' = release (accept digest state questions r c3)" "cl_cache c3 = cl_cache c1" "same_client c1 c3" by auto
    then show ?thesis using again(6,7) same_client_trans by metis
  qed (use less.prems(2) in auto)
qed


definition example_client :: "nat Client" where
  "example_client =
     \<lparr>cl_base_url = ''u'', cl_model = ''m'', cl_redact = True,
      cl_usage = \<lparr>um_calls = 0, um_input_tokens = 0, um_output_tokens = 0\<rparr>,
      cl_cache = \<lparr>rc_dir = Some ''d'', rc_aliases = Map.empty, rc_files = Map.empty, rc_writable = True\<rparr>,
      cl_limiter = limiter_new 4 0, cl_budget = budget_new (Some 2), cl_hits = 0, cl_misses = 0,
      cl_redactions = (\<lambda>_. {}), cl_now = 0, cl_world = 0\<rparr>"

definition example_reply :: Response where
  "example_reply = \<lparr>rp_model = ''v1'', rp_answers = [(''q'', JObj [(''noul'', JNum (Fin (1/2)))])], rp_usage = None\<rparr>"

definition example_http :: "json \<Rightarrow> nat \<Rightarrow> HttpReply \<times> nat \<times> nat" where
  "example_http body n = (if n = 0 then HttpStatus 503 None [] else HttpSuccess (Inr example_reply), 7, n + 1)"

definition example_questions :: json where
  "example_questions = obj [(''q'', noul JNull JNull)]"

lemma example_client_ok: "client_ok example_client"
  by (simp add: client_ok_def example_client_def limiter_new_def budget_ok_def budget_new_def)


section \<open>A repeated request is answered from the cache\<close>

lemma response_stored:
  "response_of_json (obj [(''model'', JStr m), (''answers'', JObj as)]) = Some \<lparr>rp_model = m, rp_answers = as, rp_usage = None\<rparr>"
  by (simp add: response_of_json_def json_get_obj)

lemma resp_usage_irrelevant:
  "answer (r\<lparr>rp_usage := u\<rparr>) = answer r" "resp_noul (r\<lparr>rp_usage := u\<rparr>) = resp_noul r"
  "resp_choice (r\<lparr>rp_usage := u\<rparr>) = resp_choice r" "resp_score (r\<lparr>rp_usage := u\<rparr>) = resp_score r"
proof -
  show "answer (r\<lparr>rp_usage := u\<rparr>) = answer r" by (simp add: answer_def fun_eq_iff)
  then show "resp_noul (r\<lparr>rp_usage := u\<rparr>) = resp_noul r"
    "resp_choice (r\<lparr>rp_usage := u\<rparr>) = resp_choice r" "resp_score (r\<lparr>rp_usage := u\<rparr>) = resp_score r"
    by (simp_all add: resp_noul_def resp_choice_def resp_score_def fun_eq_iff)
qed

lemma valid_answers_usage [simp]: "valid_answers (r\<lparr>rp_usage := u\<rparr>) q = valid_answers r q"
proof -
  have "valid_answer (r\<lparr>rp_usage := u\<rparr>) = valid_answer r"
    by (intro ext) (simp only: valid_answer_def resp_usage_irrelevant)
  then show ?thesis by (simp add: valid_answers_def cong: option.case_cong)
qed

lemma Response_parts: "\<lparr>rp_model = rp_model r, rp_answers = rp_answers r, rp_usage = None\<rparr> = r\<lparr>rp_usage := None\<rparr>"
  by simp

lemma cached_response_cong:
  "cl_cache c = cl_cache d \<Longrightarrow> cl_model c = cl_model d \<Longrightarrow> cl_base_url c = cl_base_url d \<Longrightarrow>
    cached_response digest state questions c = cached_response digest state questions d"
  by (simp only: cached_response_def)

lemma cached_after_accept:
  assumes "valid_answers r questions" and "cache_enabled (cl_cache c)" and "rc_writable (cl_cache c)"
    and "\<not> ends_with (rp_model r) ''latest''"
    and "rp_model r = cl_model c \<Longrightarrow> rc_aliases (cl_cache c) (cl_model c) = None"
  shows "cached_response digest state questions (release (accept digest state questions r c))
    = Some (r\<lparr>rp_usage := None\<rparr>)"
proof -
  let ?c = "record_model (cl_model c) (rp_model r) (cl_cache c)"
  have en: "cache_enabled ?c" "rc_writable ?c" "rc_dir ?c \<noteq> None"
    using assms(2,3) by (auto simp: record_model_def cache_enabled_def)
  have res: "resolve_model ?c (cl_model c) = rp_model r"
    using assms(5) by (auto simp: resolve_model_def record_model_def)
  let ?v = "obj [(''model'', JStr (rp_model r)), (''answers'', JObj (rp_answers r))]"
  have cache: "cl_cache (release (accept digest state questions r c))
      = cache_store digest (cl_base_url c) (rp_model r) state questions ?v ?c"
    using assms(1,4) en by (simp add: accept_def release_fields Let_def)
  have same: "cl_model (release (accept digest state questions r c)) = cl_model c"
      "cl_base_url (release (accept digest state questions r c)) = cl_base_url c"
    using accept_keeps(4) [of c digest state questions r] by (simp_all add: release_def same_client_def)
  have res': "resolve_model (cache_store digest (cl_base_url c) (rp_model r) state questions ?v ?c) (cl_model c) = rp_model r"
    using res by (simp add: resolve_model_def cache_store_def)
  have look: "cache_lookup digest (cache_store digest (cl_base_url c) (rp_model r) state questions ?v ?c)
      (cl_base_url c) (cl_model c) state questions = Some ?v"
  proof -
    have "rc_dir (cache_store digest (cl_base_url c) (rp_model r) state questions ?v ?c) \<noteq> None"
      and "rc_files (cache_store digest (cl_base_url c) (rp_model r) state questions ?v ?c)
          (cache_key digest (cl_base_url c) (rp_model r) state questions) = Some ?v"
      using en by (auto simp: cache_store_def)
    then show ?thesis unfolding cache_lookup_def res' by auto
  qed
  have "cache_enabled (cache_store digest (cl_base_url c) (rp_model r) state questions ?v ?c)"
    using en by (simp add: cache_store_def cache_enabled_def)
  moreover have "(ends_with (cl_model c) ''latest'' \<and> rp_model r = cl_model c) = False" using assms(4) by auto
  ultimately show ?thesis
    using assms(1) unfolding cached_response_def cache same res' Let_def look
    by (simp add: response_stored Response_parts)
qed

definition stable_answer :: "json \<Rightarrow> 'w Client \<Rightarrow> Response \<Rightarrow> bool" where
  "stable_answer questions c r \<longleftrightarrow>
     valid_answers r questions \<and> cache_enabled (cl_cache c) \<and> rc_writable (cl_cache c) \<and>
     \<not> ends_with (rp_model r) ''latest'' \<and>
     (rp_model r = cl_model c \<longrightarrow> rc_aliases (cl_cache c) (cl_model c) = None)"

lemma redact_state_again:
  assumes "redact_state dt hasher state c = (state', c1)" and "same_client c1 c2"
  shows "\<exists>c3. redact_state dt hasher state c2 = (state', c3) \<and> cl_cache c3 = cl_cache c2 \<and> cl_world c3 = cl_world c2 \<and>
    cl_budget c3 = cl_budget c2 \<and> cl_model c3 = cl_model c2 \<and> cl_base_url c3 = cl_base_url c2 \<and> cl_hits c3 = cl_hits c2"
  using assms by (auto simp: redact_state_def same_client_def split: if_splits prod.splits)


lemma example_system_one:
  "\<exists>c'. system_one example_detectors (\<lambda>_. 0) example_http show_nat (\<lambda>_. []) JNull example_questions example_client
    = Some (Inr example_reply, c')"
  by (simp add: system_one_def redact_state_def cached_response_def example_client_def Let_def request_loop.simps
      acquire_def try_acquire_def limiter_new_def reserve_call_def reserve_def reserve_next_def budget_new_def
      send_def example_http_def throttle_def is_retryable_status_def MAX_RETRIES_def release_def drop_permit_def
      sleep_def resolve_model_def cache_enabled_def cache_lookup_def word_le_nat_alt)

lemma example_stable: "stable_answer example_questions example_client example_reply"
  by (simp add: stable_answer_def valid_answers_def valid_answer_def example_questions_def example_reply_def
      example_client_def obj_def map_extend_def noul_def question_def cmp_def res_ok_and_def resp_noul_def
      answer_def field_def in_unit_def cache_enabled_def suffix_def)


end
