(* ===== verification/Service.thy ===== *)
theory Service
  imports Typesafe
begin

text \<open>
  The interface through which the review asks the classification service: \<open>ask\<close> takes a state and
  questions and returns a response or an error. Its contract is that a request keeps the client in
  order, whatever the service answers. The stages of a review are clients of the interface; the
  \<open>TypeSafeClient\<close> provides it.
\<close>

type_synonym 's service = "json \<Rightarrow> json \<Rightarrow> 's \<Rightarrow> Response result \<times> 's"

locale judging_service =
  fixes ask :: "json \<Rightarrow> json \<Rightarrow> 's \<Rightarrow> Response result \<times> 's"
    and ok :: "'s \<Rightarrow> bool"
  assumes ask_ok: "ok s \<Longrightarrow> ok (snd (ask state questions s))"

text \<open>
  Judging a list in order: what a stage does with its items, the state threaded through. The code
  runs such a stage with \<open>buffered\<close>, which keeps the results in the order of the items.
\<close>

fun traverse :: "('a \<Rightarrow> 's \<Rightarrow> 'b \<times> 's) \<Rightarrow> 'a list \<Rightarrow> 's \<Rightarrow> 'b list \<times> 's" where
  "traverse f [] s = ([], s)"
| "traverse f (x # xs) s =
     (case f x s of (y, s1) \<Rightarrow> case traverse f xs s1 of (ys, s2) \<Rightarrow> (y # ys, s2))"

lemma traverse_Cons [simp]:
  "fst (traverse f (x # xs) s) = fst (f x s) # fst (traverse f xs (snd (f x s)))"
  "snd (traverse f (x # xs) s) = snd (traverse f xs (snd (f x s)))"
  by (simp_all split: prod.split)

declare traverse.simps(2) [simp del]

lemma traverse_length [simp]: "length (fst (traverse f xs s)) = length xs"
  by (induction xs arbitrary: s) simp_all

lemma traverse_keeps:
  "(\<And>x s. x \<in> set xs \<Longrightarrow> ok s \<Longrightarrow> ok (snd (f x s))) \<Longrightarrow> ok s \<Longrightarrow> ok (snd (traverse f xs s))"
  by (induction xs arbitrary: s) simp_all

lemma traverse_results:
  "(\<And>x s. x \<in> set xs \<Longrightarrow> P x (fst (f x s))) \<Longrightarrow> list_all2 P xs (fst (traverse f xs s))"
  by (induction xs arbitrary: s) simp_all

text \<open>
  The client as a service. \<open>system_one\<close> never blocks a client in order
  (\<open>request_loop_completes\<close>), so the default is not reached.
\<close>

definition service_ask ::
  "Detectors \<Rightarrow> (string \<Rightarrow> nat) \<Rightarrow> (json \<Rightarrow> 'w \<Rightarrow> HttpReply \<times> nat \<times> 'w) \<Rightarrow> (nat \<Rightarrow> string) \<Rightarrow>
    (json \<Rightarrow> 8 word list) \<Rightarrow> 'w Client service" where
  "service_ask dt hasher http status_text digest state questions c =
     (case system_one dt hasher http status_text digest state questions c of
        Some r \<Rightarrow> r | None \<Rightarrow> (Inl (Msg ''blocked''), c))"

lemma system_one_ok:
  fixes c :: "'w Client" and http :: "json \<Rightarrow> 'w \<Rightarrow> HttpReply \<times> nat \<times> 'w"
  assumes "client_ok c"
  shows "\<exists>r c'. system_one dt hasher http status_text digest state questions c = Some (r, c') \<and>
    client_ok c' \<and> same_client c c'"
proof -
  obtain state' c1 where red: "redact_state dt hasher state c = (state', c1)" by force
  have c1: "client_ok c1" "same_client c c1"
    using red assms by (auto simp: redact_state_def same_client_def split: if_splits prod.splits)
  show ?thesis
  proof (cases "cached_response digest state' questions c1")
    case (Some r)
    then show ?thesis using c1 by (simp add: system_one_def red same_client_def)
  next
    case None
    have "client_ok (c1\<lparr>cl_misses := cl_misses c1 + 1\<rparr>)" using c1(1) by simp
    from request_loop_completes [OF this, where http = http and status_text = status_text and digest = digest
        and body = "obj [(''state'', state'), (''questions'', questions), (''model'', JStr (cl_model c1))]"
        and state = state' and questions = questions and left = MAX_RETRIES]
    show ?thesis using None c1(2) by (auto simp: system_one_def red same_client_def)
  qed
qed

interpretation client_service: judging_service "service_ask dt hasher http status_text digest" client_ok
  for dt hasher status_text digest and http :: "json \<Rightarrow> 'w \<Rightarrow> HttpReply \<times> nat \<times> 'w"
proof
  fix c :: "'w Client" and state questions
  assume "client_ok c"
  from system_one_ok [OF this, of dt hasher http status_text digest state questions]
  show "client_ok (snd (service_ask dt hasher http status_text digest state questions c))"
    by (auto simp: service_ask_def)
qed

end
