(* ===== verification/Explain.thy ===== *)
theory Explain
  imports Service
begin

text \<open>
  Explanation and enrichment of findings (\<open>review/explain.rs\<close>): the title of every mechanism, the
  deterministic title and reason of a finding, and the fix and test strategies that the service
  chooses from closed vocabularies.
\<close>

definition MAX_ENRICH :: nat where "MAX_ENRICH = 8"

text \<open>The arms of \<open>mechanism_title\<close>, by dimension; \<open>noIssue\<close> has none.\<close>

definition correctness_titles :: "(string \<times> string) list" where
  \<open>correctness_titles =
    [(''condition'', ''Incorrect condition branch''),
     (''state'', ''Incorrect state handling''),
     (''dataFlow'', ''Incorrect data flow''),
     (''asyncControl'', ''Incorrect async/error handling''),
     (''other'', ''Correctness issue''),
     (''unsafeBlock'', ''Unsound `unsafe` block''),
     (''unwrapPanic'', ''Panic on unwrapped failure''),
     (''panicPath'', ''Reachable panic''),
     (''anyEscape'', ''`any` escapes the type system''),
     (''uncheckedCast'', ''Unchecked cast''),
     (''nonNullAssertion'', ''Non-null assertion skips a check''),
     (''forcedCast'', ''Forced cast traps''),
     (''silentOptionalChain'', ''Optional chain hides the failure''),
     (''platformTypeNullness'', ''Platform-type nullness ignored''),
     (''looseEquality'', ''Loose equality comparison''),
     (''truthinessCoercion'', ''Coercion picks the wrong branch''),
     (''thisBinding'', ''Wrong `this` binding''),
     (''mutableDefaultArgument'', ''Shared mutable default argument''),
     (''lateBindingClosure'', ''Closure captures the loop variable''),
     (''implicitGlobal'', ''Accidental global''),
     (''nilArithmetic'', ''Nil used in arithmetic or indexing''),
     (''nullDereference'', ''Null dereference''),
     (''equalsHashContract'', ''Broken equality/hash contract''),
     (''structCopyMutation'', ''Mutation lost on a struct copy''),
     (''nilMethodCall'', ''Call on a possibly-nil value''),
     (''mutationOfArgument'', ''In-place mutation of shared state''),
     (''uncheckedReturn'', ''Ignored return value''),
     (''pointerArithmetic'', ''Unsafe pointer arithmetic''),
     (''uninitializedUse'', ''Use of an uninitialized value''),
     (''ignoredError'', ''Ignored error return''),
     (''nilMapOrChannel'', ''Nil map/channel misuse''),
     (''subshellStateLoss'', ''Subshell state is discarded''),
     (''missingWhereClause'', ''Missing or vacuous WHERE clause''),
     (''nullComparison'', ''Comparison against NULL''),
     (''vectorRecycling'', ''Silent vector recycling''),
     (''naPropagation'', ''Unchecked NA propagation'')]\<close>

definition security_titles :: "(string \<times> string) list" where
  \<open>security_titles =
    [(''brokenAccessControl'', ''Broken access control''),
     (''brokenAuthentication'', ''Broken authentication''),
     (''sqlInjection'', ''SQL injection''),
     (''noSqlInjection'', ''NoSQL injection''),
     (''commandInjection'', ''Command injection''),
     (''xss'', ''Cross-site scripting (XSS)''),
     (''xxe'', ''XML external entity (XXE)''),
     (''ssrf'', ''Server-side request forgery (SSRF)''),
     (''pathTraversal'', ''Path traversal''),
     (''insecureDeserialization'', ''Insecure deserialization''),
     (''cryptographicFailure'', ''Cryptographic failure''),
     (''sensitiveDataExposure'', ''Sensitive data exposure''),
     (''securityMisconfiguration'', ''Security misconfiguration''),
     (''other'', ''Security issue''),
     (''dynamicCodeExecution'', ''Dynamic code execution''),
     (''prototypePollution'', ''Prototype pollution''),
     (''massAssignment'', ''Mass assignment''),
     (''unquotedExpansion'', ''Unquoted expansion (argument injection)''),
     (''assertForValidation'', ''Validation enforced by `assert`''),
     (''unsafeReflection'', ''Untrusted reflection''),
     (''bufferOverflow'', ''Buffer overflow''),
     (''formatString'', ''Format-string vulnerability''),
     (''useAfterFree'', ''Use after free''),
     (''outOfBoundsAccess'', ''Out-of-bounds access''),
     (''unescapedTemplate'', ''Unescaped template output''),
     (''fileInclusion'', ''Local/remote file inclusion''),
     (''overbroadGrant'', ''Overbroad grant'')]\<close>

definition reliability_titles :: "(string \<times> string) list" where
  \<open>reliability_titles =
    [(''cleanup'', ''Missing cleanup''),
     (''concurrency'', ''Concurrency / race risk''),
     (''recovery'', ''Incomplete failure recovery''),
     (''crash'', ''Crash / unexpected termination''),
     (''other'', ''Reliability issue''),
     (''lockPoisoning'', ''Poisoned lock ignored''),
     (''unawaitedPromise'', ''Unawaited promise''),
     (''swallowedException'', ''Swallowed exception''),
     (''resourceLeak'', ''Resource not closed on all paths''),
     (''asyncVoid'', ''`async void` hides failures''),
     (''uncheckedAllocation'', ''Unchecked allocation''),
     (''danglingReference'', ''Dangling reference or iterator''),
     (''exceptionEscapeDestructor'', ''Exception escapes a noexcept boundary''),
     (''goroutineLeak'', ''Goroutine leak''),
     (''deferInLoop'', ''Deferred cleanup runs too late''),
     (''errorSuppression'', ''Suppressed error''),
     (''blockingInAsyncContext'', ''Blocking call in async context''),
     (''retainCycle'', ''Retain cycle''),
     (''forcedTry'', ''Forced `try!`''),
     (''ignoredExitStatus'', ''Ignored exit status''),
     (''partialPipelineFailure'', ''Pipeline failure masked''),
     (''silentErrorContinuation'', ''Suppressed non-terminating error'')]\<close>

definition compatibility_titles :: "(string \<times> string) list" where
  \<open>compatibility_titles =
    [(''api'', ''Incompatible public API change''),
     (''behavior'', ''Changed caller-visible behavior''),
     (''dataFormat'', ''Incompatible format change''),
     (''protocol'', ''Incompatible protocol change''),
     (''other'', ''Compatibility issue''),
     (''abiChange'', ''ABI-breaking change''),
     (''serializedFormChange'', ''Serialized form changed''),
     (''destructiveMigration'', ''Destructive migration'')]\<close>

definition testgap_titles :: "(string \<times> string) list" where
  \<open>testgap_titles =
    [(''branch'', ''Untested branch''),
     (''failure'', ''Untested failure path''),
     (''boundary'', ''Untested boundary case''),
     (''integration'', ''Untested component interaction''),
     (''other'', ''Test gap'')]\<close>

fun mechanism_titles :: "Dimension \<Rightarrow> (string \<times> string) list" where
  "mechanism_titles Correctness = correctness_titles"
| "mechanism_titles Security = security_titles"
| "mechanism_titles Reliability = reliability_titles"
| "mechanism_titles Compatibility = compatibility_titles"
| "mechanism_titles TestGap = testgap_titles"

definition mechanism_title :: "Dimension \<Rightarrow> string \<Rightarrow> string option" where
  "mechanism_title d key = map_of (mechanism_titles d) key"

definition apply_context :: "Finding \<Rightarrow> Finding" where
  "apply_context f =
     f\<lparr>f_title := mechanism_title (f_dimension f) (f_mechanism f),
       f_why := (if f_mechanism f = ''other'' then Some (dimension_definition (f_dimension f))
                 else mechanism_description (f_dimension f) (from_path (f_file f)) (f_mechanism f))\<rparr>"

definition FIX_STRATEGIES :: "(string \<times> string) list" where
  \<open>FIX_STRATEGIES =
    [(''validateInput'', ''Validate and constrain the input at the boundary before it reaches the risky sink''),
     (''authorize'', ''Add or restore an authorization check before the privileged action''),
     (''parameterize'', ''Use parameterized/prepared statements instead of assembling the query or command from strings''),
     (''encodeOutput'', ''Escape or encode the value before it is emitted as markup, script, or a URL''),
     (''confinePath'', ''Normalize the path and confine it to a safe root; reject separators and absolute escapes''),
     (''restrictTarget'', ''Allowlist the server-side request target (scheme, host, port) and block internal addresses''),
     (''secureSecrets'', ''Move the secret into configuration or a secret store; never hardcode it in source''),
     (''strengthenCrypto'', ''Use a strong cipher, a proper KDF/IV/nonce, and a CSPRNG instead of the weak primitive''),
     (''disableEntities'', ''Disable external entity and DTD resolution in the XML parser''),
     (''validateDeserialization'', ''Validate or allowlist the type before deserializing untrusted data''),
     (''handleErrorPath'', ''Handle the error and failure path explicitly: cleanup, rollback, or a closed state''),
     (''synchronizeAccess'', ''Serialize or lock access to the shared state across concurrent tasks''),
     (''restoreContract'', ''Reinstate or safely migrate the contract so existing callers keep working''),
     (''addCoverage'', ''The concrete change is missing test coverage; add a targeted test for this behavior''),
     (''noSuggestion'', ''No specific fix is suggested'')]\<close>

definition TEST_STRATEGIES :: "(string \<times> string) list" where
  \<open>TEST_STRATEGIES =
    [(''denialTest'', ''Assert the unauthorized or blocked case is rejected''),
     (''boundaryValue'', ''Exercise the boundary value: empty, overflow, or worst-case input''),
     (''failurePath'', ''Cover the error or recovery branch that currently has no assertion''),
     (''regression'', ''Pin the exact previously-broken behavior with a regression test''),
     (''concurrency'', ''Assert safe shared-state or ordering behavior under concurrency''),
     (''contract'', ''Assert the persisted format, protocol, or public API shape''),
     (''injectionVector'', ''Feed the known injection or taint vector and assert it is neutralized''),
     (''noSuggestion'', ''No specific test is suggested'')]\<close>

fun fix_labels :: "Dimension \<Rightarrow> string list" where
  "fix_labels Security =
     [''validateInput'', ''authorize'', ''parameterize'', ''encodeOutput'', ''confinePath'', ''restrictTarget'',
      ''secureSecrets'', ''strengthenCrypto'', ''disableEntities'', ''validateDeserialization'']"
| "fix_labels Correctness = [''validateInput'', ''handleErrorPath'', ''synchronizeAccess'', ''restoreContract'']"
| "fix_labels Reliability = [''handleErrorPath'', ''synchronizeAccess'']"
| "fix_labels Compatibility = [''restoreContract'']"
| "fix_labels TestGap = [''addCoverage'']"

definition fix_strategies :: "Dimension \<Rightarrow> (string \<times> string) list" where
  "fix_strategies d =
     filter (\<lambda>(label, _). label = ''noSuggestion'' \<or> label \<in> set (fix_labels d)) FIX_STRATEGIES"

text \<open>The description of a chosen label, unless it is the sentinel or unknown.\<close>

definition chosen_strategy :: "(string \<times> string) list \<Rightarrow> string \<Rightarrow> string option" where
  "chosen_strategy strategies chosen =
     (case find (\<lambda>(l, _). l = chosen) strategies of
        None \<Rightarrow> None
      | Some (l, desc) \<Rightarrow> if l \<noteq> ''noSuggestion'' then Some desc else None)"

definition suggestion_state :: "Finding \<Rightarrow> json" where
  "suggestion_state f =
     obj [(''dimension'', JStr (dimension_key (f_dimension f))), (''mechanism'', JStr (f_mechanism f)),
          (''severity'', jnum (f_severity f)), (''evidence'', JStr (f_evidence f))]"

definition suggestion_questions :: "Dimension \<Rightarrow> json" where
  "suggestion_questions d =
     obj [(''suggestedFix'', choice
             (JStr ''Given this located concern and its evidence, which fix strategy best addresses its root cause?'')
             (choice_criteria (fix_strategies d))),
          (''suggestedTest'', choice
             (JStr ''Which test would most directly guard against this concern?'')
             (choice_criteria TEST_STRATEGIES))]"

definition enrich_suggestions ::
  "'s service \<Rightarrow> Finding \<Rightarrow> 's \<Rightarrow> (string option \<times> string option) result \<times> 's" where
  "enrich_suggestions ask f s =
     (if f_mechanism f = ''other'' \<or> f_mechanism_confidence f < Fin 0.7 then (Inr (None, None), s)
      else
        case ask (suggestion_state f) (suggestion_questions (f_dimension f)) s of
          (res, s') \<Rightarrow>
            (and_then res (\<lambda>response.
             and_then (resp_choice response ''suggestedFix'') (\<lambda>(fix_label, _).
             and_then (resp_choice response ''suggestedTest'') (\<lambda>(test_label, _).
               Inr (chosen_strategy (fix_strategies (f_dimension f)) fix_label,
                    chosen_strategy TEST_STRATEGIES test_label)))), s'))"

section \<open>Every emitted finding is explained\<close>

definition row_titled :: "LanguageMechanismRow \<Rightarrow> bool" where
  "row_titled = (\<lambda>(l, d, es). list_all (\<lambda>k. k \<in> set (map fst (mechanism_titles d))) (map fst es))"

lemma title_keys:
  "map fst (mechanism_titles Correctness) =
     [''condition'',
      ''state'',
      ''dataFlow'',
      ''asyncControl'',
      ''other'',
      ''unsafeBlock'',
      ''unwrapPanic'',
      ''panicPath'',
      ''anyEscape'',
      ''uncheckedCast'',
      ''nonNullAssertion'',
      ''forcedCast'',
      ''silentOptionalChain'',
      ''platformTypeNullness'',
      ''looseEquality'',
      ''truthinessCoercion'',
      ''thisBinding'',
      ''mutableDefaultArgument'',
      ''lateBindingClosure'',
      ''implicitGlobal'',
      ''nilArithmetic'',
      ''nullDereference'',
      ''equalsHashContract'',
      ''structCopyMutation'',
      ''nilMethodCall'',
      ''mutationOfArgument'',
      ''uncheckedReturn'',
      ''pointerArithmetic'',
      ''uninitializedUse'',
      ''ignoredError'',
      ''nilMapOrChannel'',
      ''subshellStateLoss'',
      ''missingWhereClause'',
      ''nullComparison'',
      ''vectorRecycling'',
      ''naPropagation'']"
  "map fst (mechanism_titles Security) =
     [''brokenAccessControl'',
      ''brokenAuthentication'',
      ''sqlInjection'',
      ''noSqlInjection'',
      ''commandInjection'',
      ''xss'',
      ''xxe'',
      ''ssrf'',
      ''pathTraversal'',
      ''insecureDeserialization'',
      ''cryptographicFailure'',
      ''sensitiveDataExposure'',
      ''securityMisconfiguration'',
      ''other'',
      ''dynamicCodeExecution'',
      ''prototypePollution'',
      ''massAssignment'',
      ''unquotedExpansion'',
      ''assertForValidation'',
      ''unsafeReflection'',
      ''bufferOverflow'',
      ''formatString'',
      ''useAfterFree'',
      ''outOfBoundsAccess'',
      ''unescapedTemplate'',
      ''fileInclusion'',
      ''overbroadGrant'']"
  "map fst (mechanism_titles Reliability) =
     [''cleanup'',
      ''concurrency'',
      ''recovery'',
      ''crash'',
      ''other'',
      ''lockPoisoning'',
      ''unawaitedPromise'',
      ''swallowedException'',
      ''resourceLeak'',
      ''asyncVoid'',
      ''uncheckedAllocation'',
      ''danglingReference'',
      ''exceptionEscapeDestructor'',
      ''goroutineLeak'',
      ''deferInLoop'',
      ''errorSuppression'',
      ''blockingInAsyncContext'',
      ''retainCycle'',
      ''forcedTry'',
      ''ignoredExitStatus'',
      ''partialPipelineFailure'',
      ''silentErrorContinuation'']"
  "map fst (mechanism_titles Compatibility) =
     [''api'',
      ''behavior'',
      ''dataFormat'',
      ''protocol'',
      ''other'',
      ''abiChange'',
      ''serializedFormChange'',
      ''destructiveMigration'']"
  "map fst (mechanism_titles TestGap) =
     [''branch'',
      ''failure'',
      ''boundary'',
      ''integration'',
      ''other'']"
  by (simp_all add: correctness_titles_def security_titles_def reliability_titles_def compatibility_titles_def
      testgap_titles_def)

lemma rows_titled:
  "list_all row_titled mechanism_rows_rust_to_java"
  "list_all row_titled mechanism_rows_csharp_to_go"
  "list_all row_titled mechanism_rows_php_to_shell"
  "list_all row_titled mechanism_rows_sql_to_powershell"
  unfolding mechanism_rows_rust_to_java_def mechanism_rows_csharp_to_go_def
    mechanism_rows_php_to_shell_def mechanism_rows_sql_to_powershell_def
  by (simp_all only: list.pred_inject row_titled_def prod.case title_keys, simp_all)

lemma language_mechanisms_titled:
  "k \<in> set (map fst (language_mechanisms d l)) \<Longrightarrow> k \<in> set (map fst (mechanism_titles d))"
proof -
  have titled: "r \<in> set LANGUAGE_MECHANISMS \<Longrightarrow> row_titled r" for r
    using rows_titled by (auto simp: LANGUAGE_MECHANISMS_def list_all_iff)
  assume k: "k \<in> set (map fst (language_mechanisms d l))"
  show ?thesis
  proof (cases "find (\<lambda>(l', dimension, _). l' = l \<and> dimension = d) LANGUAGE_MECHANISMS")
    case None
    with k show ?thesis by (simp add: language_mechanisms_def)
  next
    case (Some r)
    then have r: "r \<in> set LANGUAGE_MECHANISMS" "case r of (l', d', _) \<Rightarrow> l' = l \<and> d' = d"
      unfolding find_Some_iff by (metis nth_mem)+
    with Some titled k show ?thesis
      by (cases r) (force simp: language_mechanisms_def row_titled_def list_all_iff)
  qed
qed

lemma generic_titled:
  "k \<in> set (map fst (mechanisms d)) \<Longrightarrow> k \<noteq> ''noIssue'' \<Longrightarrow> k \<in> set (map fst (mechanism_titles d))"
  by (cases d) (simp_all only: generic_keys title_keys, auto)

lemma vocabulary_titled:
  "k \<in> set (map fst (mechanisms_for d l)) \<Longrightarrow> k \<noteq> ''noIssue'' \<Longrightarrow> k \<in> set (map fst (mechanism_titles d))"
  using generic_titled language_mechanisms_titled
  by (cases l) (force simp: mechanisms_for_eq generic_sentinels [of d] simp del: set_map)+

lemma map_of_title: "k \<in> set (map fst xs) \<Longrightarrow> map_of xs k \<noteq> None"
  by (simp add: map_of_eq_None_iff)

text \<open>
  Every concern the classifier can name is explained: for any key of the vocabulary offered for
  the finding's dimension and file (\<open>mechanisms_for\<close>), other than the sentinel \<open>noIssue\<close>,
  \<open>apply_context\<close> sets a title and a reason. Both depend on dimension, mechanism and path only,
  and every other field of the finding is kept.
\<close>

theorem offered_finding_explained:
  assumes "f_mechanism f \<in> set (map fst (mechanisms_for (f_dimension f) (from_path (f_file f))))"
    and "f_mechanism f \<noteq> ''noIssue''"
  shows "\<exists>t w. apply_context f = f\<lparr>f_title := Some t, f_why := Some w\<rparr>"
proof -
  obtain t where "mechanism_title (f_dimension f) (f_mechanism f) = Some t"
    using map_of_title [OF vocabulary_titled [OF assms]] unfolding mechanism_title_def by blast
  moreover obtain w where "mechanism_description (f_dimension f) (from_path (f_file f)) (f_mechanism f) = Some w"
    using map_of_title [OF assms(1)] unfolding mechanism_description_eq by blast
  ultimately have "apply_context f = f\<lparr>f_title := Some t,
      f_why := Some (if f_mechanism f = ''other'' then dimension_definition (f_dimension f) else w)\<rparr>"
    by (simp add: apply_context_def)
  then show ?thesis by blast
qed

lemma offered_finding_explained_witness:
  "\<exists>t w. apply_context (default_finding\<lparr>f_file := ''a.rs'', f_mechanism := ''state''\<rparr>) =
     default_finding\<lparr>f_file := ''a.rs'', f_mechanism := ''state'', f_title := Some t, f_why := Some w\<rparr>"
proof -
  have "''state'' \<in> set (map fst (mechanisms_for Correctness l))" for l
  proof -
    have "''state'' \<in> set (map fst (mechanisms Correctness))" by (simp only: generic_keys, simp)
    then show ?thesis unfolding mechanisms_for_eq by (auto simp: generic_sentinels)
  qed
  then show ?thesis
    using offered_finding_explained [of "default_finding\<lparr>f_file := ''a.rs'', f_mechanism := ''state''\<rparr>"]
    by (simp add: default_finding_def)
qed

end
