(* ===== verification/Refine.thy ===== *)
theory Refine
  imports Explain
begin

text \<open>
  Refinement of located findings (\<open>review/refine/\<close>): adjacent findings with one root cause are folded
  (\<open>dedupe.rs\<close>), injection-class findings are traced from source to sink (\<open>taint.rs\<close>), findings whose
  exonerating fact is shown are dropped (\<open>counterfactual.rs\<close>), blocking findings are re-screened
  (\<open>ensemble.rs\<close>) and the top of the list is ordered by pairwise comparison (\<open>pairwise.rs\<close>).

  A \<open>Refiner\<close> is its service \<open>ask\<close> and its \<open>context\<close>; \<open>log\<close> only writes to the terminal and
  \<open>concurrency\<close> only bounds how many requests are in flight. The numbers of Bradley-Terry are
  exact reals.
\<close>

section \<open>States and selections\<close>

definition MAX_SUMMARY_EVIDENCE_CHARS :: nat where "MAX_SUMMARY_EVIDENCE_CHARS = 1500"

record RefineCounts =
  rc_clustered :: nat
  rc_exonerated :: nat
  rc_needs_human :: nat

definition sort_by_severity :: "Finding list \<Rightarrow> Finding list" where
  "sort_by_severity = sort_by (\<lambda>a b. partial_cmp_or_equal (f_severity b) (f_severity a))"

definition finding_mechanism_description :: "Finding \<Rightarrow> string" where
  "finding_mechanism_description f =
     (case mechanism_description (f_dimension f) (from_path (f_file f)) (f_mechanism f) of
        Some desc \<Rightarrow> desc | None \<Rightarrow> [])"

definition concern :: "Finding \<Rightarrow> json" where
  "concern f =
     obj [(''dimension'', JStr (dimension_key (f_dimension f))),
          (''definition'', JStr (dimension_definition (f_dimension f))),
          (''mechanism'', JStr (f_mechanism f)),
          (''mechanismDescription'', JStr (finding_mechanism_description f)),
          (''severity'', jnum (f_severity f))]"

definition finding_state :: "(Finding \<Rightarrow> json) \<Rightarrow> Finding \<Rightarrow> json" where
  "finding_state context f =
     (let state = obj [(''file'', JStr (f_file f)), (''line'', jnat (f_line f)), (''concern'', concern f),
                       (''selectedEvidence'', JStr (f_evidence f))]
      in case (state, context f) of (JObj st, JObj c) \<Rightarrow> JObj (map_extend st c) | _ \<Rightarrow> state)"

definition summary :: "Finding \<Rightarrow> json" where
  "summary f =
     obj [(''file'', JStr (f_file f)), (''line'', jnat (f_line f)),
          (''dimension'', JStr (dimension_key (f_dimension f))), (''mechanism'', JStr (f_mechanism f)),
          (''title'', case mechanism_title (f_dimension f) (f_mechanism f) of Some t \<Rightarrow> JStr t | None \<Rightarrow> JNull),
          (''severity'', jnum (f_severity f)),
          (''evidence'', JStr (chars_take MAX_SUMMARY_EVIDENCE_CHARS (f_evidence f)))]"

definition top_indices :: "'a list \<Rightarrow> nat \<Rightarrow> ('a \<Rightarrow> bool) \<Rightarrow> nat list" where
  "top_indices findings mx keep =
     take mx (map fst (filter (\<lambda>(_, f). keep f) (enumerate 0 findings)))"

text \<open>
  The shape that the three in-place stages share: each target is judged, then the results are
  applied to the findings; a failed judgment leaves its finding as it is.
\<close>

definition judge_targets ::
  "('a \<Rightarrow> 's \<Rightarrow> 'b result \<times> 's) \<Rightarrow> nat list \<Rightarrow> 'a list \<Rightarrow> 's \<Rightarrow> (nat \<times> 'b result) list \<times> 's" where
  "judge_targets judge targets findings =
     traverse (\<lambda>i s. case judge (findings ! i) s of (r, s') \<Rightarrow> ((i, r), s')) targets"

definition apply_results :: "('b \<Rightarrow> 'a \<Rightarrow> 'a) \<Rightarrow> (nat \<times> 'b result) list \<Rightarrow> 'a list \<Rightarrow> 'a list" where
  "apply_results upd results findings =
     foldl (\<lambda>fs (i, r). case r of Inl _ \<Rightarrow> fs | Inr v \<Rightarrow> fs[i := upd v (fs ! i)]) findings results"

section \<open>Dedupe\<close>

definition DISTINCT :: string where "DISTINCT = ''distinct''"

definition group_step ::
  "Finding list list \<times> (string \<rightharpoonup> nat) \<Rightarrow> Finding \<Rightarrow> Finding list list \<times> (string \<rightharpoonup> nat)" where
  "group_step = (\<lambda>(groups, by_file) finding.
     case by_file (f_file finding) of
       Some i \<Rightarrow> (groups[i := groups ! i @ [finding]], by_file)
     | None \<Rightarrow> (groups @ [[finding]], by_file(f_file finding \<mapsto> length groups)))"

definition groups_by_file :: "Finding list \<Rightarrow> Finding list list" where
  "groups_by_file findings = fst (foldl group_step ([], Map.empty) findings)"

definition candidates :: "Finding list \<Rightarrow> Finding \<Rightarrow> nat list" where
  "candidates reps finding =
     (let near = filter (\<lambda>(distance, _). distance \<le> CLUSTER_LINE_WINDOW)
            (map (\<lambda>(i, rep). (abs_diff (f_line rep) (f_line finding), i))
              (filter (\<lambda>(_, rep). f_file rep = f_file finding) (enumerate 0 reps)))
      in map snd (take MAX_CLUSTER_CANDIDATES
           (sort_by (\<lambda>a b. then_cmp (cmp (fst a) (fst b)) (cmp (snd a) (snd b))) near)))"

definition resolve :: "string \<Rightarrow> f64 \<Rightarrow> nat list \<Rightarrow> (nat \<times> f64) option" where
  "resolve label confidence cands =
     (if confidence < MIN_CLUSTER_CONFIDENCE then None
      else case strip_prefix ''c'' label of
          None \<Rightarrow> None
        | Some rest \<Rightarrow> (case parse_usize rest of
            None \<Rightarrow> None
          | Some n \<Rightarrow> if n < length cands then Some (cands ! n, confidence) else None))"

definition candidate_id :: "nat \<Rightarrow> string" where
  "candidate_id n = CHR ''c'' # show_nat n"

definition dedupe_state :: "Finding \<Rightarrow> Finding list \<Rightarrow> nat list \<Rightarrow> json" where
  "dedupe_state finding reps cands =
     obj [(''newFinding'', summary finding),
          (''candidates'', obj (map (\<lambda>(n, index). (candidate_id n, summary (reps ! index))) (enumerate 0 cands)))]"

definition dedupe_questions :: "nat list \<Rightarrow> json" where
  "dedupe_questions cands =
     obj [(''sameRootCause'', choice
       (obj [(''question'', JStr ''Does newFinding share a root cause with one of the candidates?''),
             (''compare'', strs [''newFinding'', ''candidates'']),
             (''caution'', JStr ''Findings in the same file or dimension can still have different root causes; require the same underlying defect'')])
       (obj (map (\<lambda>(n, _). (candidate_id n,
               JStr (''Same root cause as candidates.'' @ candidate_id n @ '': fixing it would also fix newFinding'')))
             (enumerate 0 cands)
           @ [(DISTINCT, JStr ''newFinding has a different root cause from every candidate'')])))]"

definition same_root_cause ::
  "'s service \<Rightarrow> Finding \<Rightarrow> Finding list \<Rightarrow> nat list \<Rightarrow> 's \<Rightarrow> (nat \<times> f64) option result \<times> 's" where
  "same_root_cause ask finding reps cands s =
     (case ask (dedupe_state finding reps cands) (dedupe_questions cands) s of
        (res, s') \<Rightarrow>
          (and_then res (\<lambda>response.
           and_then (resp_choice response ''sameRootCause'') (\<lambda>(label, confidence).
             Inr (resolve label confidence cands))), s'))"

definition fold_into :: "Finding \<Rightarrow> f64 \<Rightarrow> Finding \<Rightarrow> Finding" where
  "fold_into finding confidence rep =
     rep\<lparr>f_related := f_related rep @
        [\<lparr>rf_file = f_file finding, rf_line = f_line finding, rf_dimension = f_dimension finding,
          rf_mechanism = f_mechanism finding, rf_confidence = confidence\<rparr>] @ f_related finding\<rparr>"

fun dedupe_loop :: "'s service \<Rightarrow> Finding list \<Rightarrow> nat \<Rightarrow> Finding list \<Rightarrow> 's \<Rightarrow> (Finding list \<times> nat) \<times> 's" where
  "dedupe_loop ask reps folded [] s = ((reps, folded), s)"
| "dedupe_loop ask reps folded (finding # rest) s =
     (let cands = candidates reps finding in
      if cands = [] then dedupe_loop ask (reps @ [finding]) folded rest s
      else case same_root_cause ask finding reps cands s of
          (Inr (Some (index, confidence)), s') \<Rightarrow>
            dedupe_loop ask (reps[index := fold_into finding confidence (reps ! index)]) (folded + 1) rest s'
        | (Inr None, s') \<Rightarrow> dedupe_loop ask (reps @ [finding]) folded rest s'
        | (Inl _, s') \<Rightarrow> dedupe_loop ask (reps @ [finding]) folded rest s')"

definition dedupe_file :: "'s service \<Rightarrow> Finding list \<Rightarrow> 's \<Rightarrow> (Finding list \<times> nat) \<times> 's" where
  "dedupe_file ask = dedupe_loop ask [] 0"

definition dedupe :: "'s service \<Rightarrow> Finding list \<Rightarrow> 's \<Rightarrow> (Finding list \<times> nat) \<times> 's" where
  "dedupe ask findings s =
     (case traverse (dedupe_file ask) (groups_by_file findings) s of
        (results, s') \<Rightarrow> ((concat (map fst results), sum_list (map snd results)), s'))"

section \<open>Taint\<close>

definition untrusted :: "string \<Rightarrow> f64 \<Rightarrow> f64" where
  "untrusted src confidence =
     (if src \<in> set UNTRUSTED_SOURCES then confidence
      else if src = ''unknown'' then Fin 0.5
      else Fin 1 - confidence)"

definition what :: "string \<Rightarrow> string \<Rightarrow> json" where
  "what yes no = obj [(''true'', obj [(''what'', JStr yes)]), (''false'', obj [(''what'', JStr no)])]"

definition source_questions :: json where
  "source_questions =
     obj [(''source'', choice
            (obj [(''question'', JStr ''Where does the data that reaches the sink in selectedEvidence originate?''),
                  (''inspect'', strs [''selectedEvidence'', ''fileContext'', ''neighbors'']),
                  (''focus'', JStr ''Follow the value backwards through assignments, parameters, and callers'')])
            (choice_criteria TAINT_SOURCES)),
          (''reachesSink'', noul
            (obj [(''question'', JStr ''Does data in selectedEvidence actually reach the dangerous sink that concern.mechanismDescription names?''),
                  (''inspect'', strs [''selectedEvidence'', ''fileContext''])])
            (what ''A concrete data path reaches the dangerous sink''
                  ''The data does not reach that sink, or no such sink is present''))]"

definition sanitized_questions :: "string \<Rightarrow> json" where
  "sanitized_questions src =
     obj [(''sanitized'', noul
            (obj [(''question'', JStr (''Before it reaches the sink, is the data from source '' @ CHR 0x27 # src @ CHR 0x27 #
                     '' validated, escaped, allow-listed, or parameterized adequately for that sink?'')),
                  (''inspect'', strs [''selectedEvidence'', ''fileContext'', ''neighbors'']),
                  (''caution'', JStr ''A defense for a different sink (e.g. HTML escaping before SQL) does not count'')])
            (what ''An adequate, sink-appropriate defense applies on every path''
                  ''No defense, or one that is incomplete or wrong for this sink''))]"

definition taint_chain :: "string \<Rightarrow> f64 \<Rightarrow> f64 \<Rightarrow> f64 option \<Rightarrow> TaintChain" where
  "taint_chain src confidence reaches sanitized =
     \<lparr>tc_source = src, tc_source_confidence = confidence, tc_untrusted = untrusted src confidence,
      tc_reaches_sink = reaches, tc_sanitized = sanitized,
      tc_exploitability = untrusted src confidence * reaches *
        (Fin 1 - (case sanitized of Some x \<Rightarrow> x | None \<Rightarrow> Fin 0))\<rparr>"

definition chain :: "'s service \<Rightarrow> (Finding \<Rightarrow> json) \<Rightarrow> Finding \<Rightarrow> 's \<Rightarrow> TaintChain result \<times> 's" where
  "chain ask context f s =
     (let state = finding_state context f in
      case ask state source_questions s of
        (first, s1) \<Rightarrow>
          case and_then first (\<lambda>response.
               and_then (resp_choice response ''source'') (\<lambda>(src, confidence).
               and_then (resp_noul response ''reachesSink'') (\<lambda>reaches. Inr (src, confidence, reaches)))) of
            Inl e \<Rightarrow> (Inl e, s1)
          | Inr (src, confidence, reaches) \<Rightarrow>
              if reaches < MIN_SINK_PROBABILITY then (Inr (taint_chain src confidence reaches None), s1)
              else case ask state (sanitized_questions src) s1 of
                  (second, s2) \<Rightarrow>
                    (and_then second (\<lambda>response.
                     and_then (resp_noul response ''sanitized'') (\<lambda>x.
                       Inr (taint_chain src confidence reaches (Some x)))), s2))"

definition apply_chain :: "TaintChain \<Rightarrow> Finding \<Rightarrow> Finding" where
  "apply_chain c f =
     f\<lparr>f_action := (if tc_exploitability c < LOW_EXPLOITABILITY \<and> f_action f = RequestChanges
                    then Comment else f_action f),
       f_taint := Some c\<rparr>"

definition trace :: "'s service \<Rightarrow> (Finding \<Rightarrow> json) \<Rightarrow> Finding list \<Rightarrow> 's \<Rightarrow> Finding list \<times> 's" where
  "trace ask context findings s =
     (let targets = top_indices findings MAX_TAINT
            (\<lambda>f. f_dimension f = Security \<and> f_mechanism f \<in> set TAINT_MECHANISMS)
      in case judge_targets (chain ask context) targets findings s of
           (traced, s') \<Rightarrow> (apply_results apply_chain traced findings, s'))"

section \<open>Counterfactuals\<close>

definition NONE :: string where "NONE = ''none''"

definition exonerated :: "Finding \<Rightarrow> bool" where
  "exonerated f =
     (case f_exoneration f of None \<Rightarrow> False | Some e \<Rightarrow> ex_fact e \<noteq> NONE \<and> EXONERATION_DROP \<le> ex_holds e)"

definition fact_questions :: json where
  "fact_questions =
     obj [(''fact'', choice
            (obj [(''question'', JStr ''Which single fact, if it were true, would make this finding a false positive?''),
                  (''inspect'', JStr ''selectedEvidence''),
                  (''focus'', JStr ''The most plausible exonerating fact for this specific concern'')])
            (choice_criteria EXONERATING_FACTS))]"

definition holds_questions :: "string \<Rightarrow> json" where
  "holds_questions desc =
     obj [(''holds'', noul
            (obj [(''question'', JStr (''Does fileContext or neighbors concretely establish this fact for the concern: '' @ desc @ ''?'')),
                  (''inspect'', strs [''fileContext'', ''neighbors'', ''selectedEvidence'']),
                  (''caution'', JStr ''Absence of evidence is not proof; answer true only when the visible code shows the fact'')])
            (what ''The visible code concretely establishes the fact''
                  ''The fact is not shown, or the code contradicts it''))]"

definition fact_description :: "string \<Rightarrow> string" where
  "fact_description chosen =
     (case find (\<lambda>(key, _). key = chosen) EXONERATING_FACTS of Some (_, d) \<Rightarrow> d | None \<Rightarrow> [])"

definition check :: "'s service \<Rightarrow> (Finding \<Rightarrow> json) \<Rightarrow> Finding \<Rightarrow> 's \<Rightarrow> Exoneration result \<times> 's" where
  "check ask context f s =
     (let state = finding_state context f in
      case ask state fact_questions s of
        (pick, s1) \<Rightarrow>
          case and_then pick (\<lambda>response. resp_choice response ''fact'') of
            Inl e \<Rightarrow> (Inl e, s1)
          | Inr (chosen, confidence) \<Rightarrow>
              if chosen = NONE
              then (Inr \<lparr>ex_fact = chosen, ex_fact_confidence = confidence, ex_holds = Fin 0\<rparr>, s1)
              else case ask state (holds_questions (fact_description chosen)) s1 of
                  (verdict, s2) \<Rightarrow>
                    (and_then verdict (\<lambda>response.
                     and_then (resp_noul response ''holds'') (\<lambda>holds.
                       Inr \<lparr>ex_fact = chosen, ex_fact_confidence = confidence, ex_holds = holds\<rparr>)), s2))"

definition calibrate ::
  "'s service \<Rightarrow> (Finding \<Rightarrow> json) \<Rightarrow> Finding list \<Rightarrow> 's \<Rightarrow> (Finding list \<times> nat) \<times> 's" where
  "calibrate ask context findings s =
     (let targets = top_indices findings MAX_COUNTERFACTUAL (\<lambda>_. True) in
      case judge_targets (check ask context) targets findings s of
        (results, s') \<Rightarrow>
          let checked = apply_results (\<lambda>e f. f\<lparr>f_exoneration := Some e\<rparr>) results findings;
              kept = filter (\<lambda>f. \<not> exonerated f) checked
          in ((kept, length checked - length kept), s'))"

section \<open>Ensemble\<close>

definition ensemble_questions :: "Finding \<Rightarrow> json" where
  "ensemble_questions f =
     obj (map (\<lambda>(key, focus). (key, noul
            (obj [(''question'', JStr (''Does selectedEvidence directly support a concrete '' @
                     dimension_key (f_dimension f) @ '' problem: '' @ dimension_definition (f_dimension f))),
                  (''inspect'', strs [''selectedEvidence'', ''fileContext'']),
                  (''focus'', JStr focus)])
            (what ''The code concretely exhibits the problem'' ''The problem is not concretely supported'')))
          ENSEMBLE_FOCI)"

fun collect_results :: "'a result list \<Rightarrow> 'a list result" where
  "collect_results [] = Inr []"
| "collect_results (r # rs) = and_then r (\<lambda>x. and_then (collect_results rs) (\<lambda>xs. Inr (x # xs)))"

definition ask_votes :: "'s service \<Rightarrow> (Finding \<Rightarrow> json) \<Rightarrow> Finding \<Rightarrow> 's \<Rightarrow> f64 list result \<times> 's" where
  "ask_votes ask context f s =
     (case ask (finding_state context f) (ensemble_questions f) s of
        (res, s') \<Rightarrow>
          (and_then res (\<lambda>response. collect_results (map (\<lambda>(key, _). resp_noul response key) ENSEMBLE_FOCI)), s'))"

definition tally :: "f64 list \<Rightarrow> Ensemble" where
  "tally votes =
     (let mean = f64_sum votes / f64_of_nat (max (length votes) 1);
          hi = foldl f64_max NegInf votes;
          lo = foldl f64_min PosInf votes;
          spread = (if votes = [] then Fin 0 else hi - lo)
      in \<lparr>en_votes = votes, en_mean = mean, en_spread = spread,
          en_needs_human = (NEEDS_HUMAN_SPREAD \<le> spread \<or> mean < NEEDS_HUMAN_MEAN)\<rparr>)"

definition vote :: "'s service \<Rightarrow> (Finding \<Rightarrow> json) \<Rightarrow> Finding list \<Rightarrow> 's \<Rightarrow> Finding list \<times> 's" where
  "vote ask context findings s =
     (let targets = top_indices findings MAX_ENSEMBLE (\<lambda>f. f_action f = RequestChanges) in
      case judge_targets (ask_votes ask context) targets findings s of
        (results, s') \<Rightarrow> (apply_results (\<lambda>votes f. f\<lparr>f_ensemble := Some (tally votes)\<rparr>) results findings, s'))"

section \<open>Pairwise ranking\<close>

definition finding_id :: "nat \<Rightarrow> string" where
  "finding_id n = CHR ''f'' # show_nat n"

definition pair_id :: "nat \<Rightarrow> nat \<Rightarrow> string" where
  "pair_id i j = CHR ''p'' # show_nat i @ CHR ''_'' # show_nat j"

definition pair_question :: "nat \<times> nat \<Rightarrow> string \<times> json" where
  "pair_question = (\<lambda>(i, j).
     let (first, second) = (if (i + j) mod 2 = 0 then (i, j) else (j, i)) in
     (pair_id i j, choice
        (obj [(''question'', JStr (''Which should be fixed first: findings.'' @ finding_id first @
                 '' or findings.'' @ finding_id second @ ''?'')),
              (''focus'', JStr ''Likely production impact, exploitability or blast radius, and how directly the evidence shows the problem'')])
        (obj (map (\<lambda>n. (finding_id n, JStr (''Fix findings.'' @ finding_id n @ '' first''))) [first, second]))))"

definition pair_answer :: "Response \<Rightarrow> nat \<times> nat \<Rightarrow> (nat \<times> nat \<times> f64) result" where
  "pair_answer response = (\<lambda>(i, j).
     and_then (resp_choice response (pair_id i j)) (\<lambda>(label, confidence).
       Inr (i, j, if label = finding_id i then confidence else Fin 1 - confidence)))"

definition compare_pairs ::
  "'s service \<Rightarrow> json \<Rightarrow> (nat \<times> nat) list \<Rightarrow> 's \<Rightarrow> (nat \<times> nat \<times> f64) list result \<times> 's" where
  "compare_pairs ask state batch s =
     (case ask state (obj (map pair_question batch)) s of
        (res, s') \<Rightarrow> (and_then res (\<lambda>response. collect_results (map (pair_answer response) batch)), s'))"

definition PRIOR :: f64 where "PRIOR = Fin 0.1"

definition add_win :: "nat \<Rightarrow> nat \<Rightarrow> f64 \<Rightarrow> f64 list list \<Rightarrow> f64 list list" where
  "add_win i j p wins = wins[i := (wins ! i)[j := wins ! i ! j + p]]"

definition win_table :: "nat \<Rightarrow> (nat \<times> nat \<times> f64) list \<Rightarrow> f64 list list" where
  "win_table k outcomes =
     (let wins = foldl (\<lambda>w (i, j, p). add_win j i (Fin 1 - p) (add_win i j p w))
           (replicate k (replicate k (Fin 0))) outcomes
      in map (\<lambda>(i, row). map (\<lambda>(j, w). if i \<noteq> j then w + PRIOR else w) (enumerate 0 row)) (enumerate 0 wins))"

definition strength_step :: "nat \<Rightarrow> f64 list list \<Rightarrow> f64 list \<Rightarrow> f64 list" where
  "strength_step k wins strength =
     (let next = map (\<lambda>i.
            let others = filter (\<lambda>j. j \<noteq> i) [0..<k];
                total_wins = f64_sum (map (\<lambda>j. wins ! i ! j) others);
                denom = f64_sum (map (\<lambda>j. (wins ! i ! j + wins ! j ! i) / (strength ! i + strength ! j)) others)
            in total_wins / denom) [0..<k];
          mean = f64_sum next / f64_of_nat k
      in map (\<lambda>x. x / mean) next)"

definition bradley_terry :: "nat \<Rightarrow> (nat \<times> nat \<times> f64) list \<Rightarrow> f64 list" where
  "bradley_terry k outcomes = (strength_step k (win_table k outcomes) ^^ 200) (replicate k (Fin 1))"

definition pairs_of :: "nat \<Rightarrow> (nat \<times> nat) list" where
  "pairs_of k = concat (map (\<lambda>i. map (\<lambda>j. (i, j)) [i + 1..<k]) [0..<k])"

function chunks_of :: "nat \<Rightarrow> 'a list \<Rightarrow> 'a list list" where
  "chunks_of n xs = (if xs = [] \<or> n = 0 then [] else take n xs # chunks_of n (drop n xs))"
  by auto
termination by (relation "measure (length \<circ> snd)") auto

declare chunks_of.simps [simp del]

definition strength_order :: "nat \<Rightarrow> f64 list \<Rightarrow> nat list" where
  "strength_order k strength =
     sort_by (\<lambda>a b. then_cmp (total_cmp (strength ! b) (strength ! a)) (cmp a b)) [0..<k]"

definition place_ranked :: "nat list \<Rightarrow> Finding list \<Rightarrow> Finding list" where
  "place_ranked order findings =
     map (\<lambda>(position, i). (findings ! i)\<lparr>f_rank := Some (position + 1)\<rparr>) (enumerate 0 order)
       @ drop (length order) findings"

definition rank :: "'s service \<Rightarrow> Finding list \<Rightarrow> 's \<Rightarrow> Finding list \<times> 's" where
  "rank ask findings s =
     (let k = min PAIRWISE_TOP_K (length findings) in
      if k < 2 then (findings, s)
      else
        let state = obj [(''findings'',
              obj (map (\<lambda>(i, f). (finding_id i, summary f)) (enumerate 0 (take k findings))))]
        in case traverse (compare_pairs ask state) (chunks_of PAIRWISE_BATCH (pairs_of k)) s of
             (answers, s') \<Rightarrow>
               (case collect_results answers of
                  Inl _ \<Rightarrow> (findings, s')
                | Inr outcomes \<Rightarrow>
                    (place_ranked (strength_order k (bradley_terry k (concat outcomes))) findings, s')))"

section \<open>All stages\<close>

definition refine ::
  "'s service \<Rightarrow> (Finding \<Rightarrow> json) \<Rightarrow> Finding list \<Rightarrow> 's \<Rightarrow> (Finding list \<times> RefineCounts) \<times> 's" where
  "refine ask context findings s =
     (case dedupe ask (sort_by_severity findings) s of
        ((deduped, clustered), s1) \<Rightarrow>
      case trace ask context (sort_by_severity deduped) s1 of
        (traced, s2) \<Rightarrow>
      case calibrate ask context traced s2 of
        ((kept, dropped), s3) \<Rightarrow>
      case vote ask context kept s3 of
        (voted, s4) \<Rightarrow>
      case rank ask (sort_by_severity voted) s4 of
        (final, s5) \<Rightarrow>
          ((final,
            \<lparr>rc_clustered = clustered, rc_exonerated = dropped,
             rc_needs_human = length (filter (\<lambda>f. case f_ensemble f of Some e \<Rightarrow> en_needs_human e | None \<Rightarrow> False) voted)\<rparr>),
           s5))"

section \<open>Folding loses no place\<close>

text \<open>Where findings are: of a finding itself, and of what was folded into it.\<close>

type_synonym Place = "string \<times> nat \<times> Dimension \<times> string"

definition place :: "Finding \<Rightarrow> Place" where
  "place f = (f_file f, f_line f, f_dimension f, f_mechanism f)"

definition related_place :: "RelatedFinding \<Rightarrow> Place" where
  "related_place r = (rf_file r, rf_line r, rf_dimension r, rf_mechanism r)"

definition places :: "Finding \<Rightarrow> Place multiset" where
  "places f = add_mset (place f) (mset (map related_place (f_related f)))"

definition all_places :: "Finding list \<Rightarrow> Place multiset" where
  "all_places fs = sum_list (map places fs)"

lemma all_places_simps [simp]:
  "all_places [] = {#}" "all_places (f # fs) = places f + all_places fs"
  "all_places (fs @ gs) = all_places fs + all_places gs"
  by (simp_all add: all_places_def)

lemma all_places_mset: "mset fs = mset gs \<Longrightarrow> all_places fs = all_places gs"
  unfolding all_places_def by (metis mset_map sum_mset_sum_list)

lemma places_fold_into [simp]: "places (fold_into f c rep) = places rep + places f"
  by (simp add: places_def fold_into_def place_def related_place_def)

lemma sum_list_map_update:
  fixes g :: "'a \<Rightarrow> 'b::cancel_comm_monoid_add"
  shows "i < length xs \<Longrightarrow> sum_list (map g (xs[i := x])) + g (xs ! i) = sum_list (map g xs) + g x"
proof (induction xs arbitrary: i)
  case (Cons y ys)
  show ?case
  proof (cases i)
    case 0
    then show ?thesis by (simp add: ac_simps)
  next
    case (Suc k)
    with Cons.IH [of k] Cons.prems show ?thesis by (simp add: add.assoc)
  qed
qed simp

lemma all_places_fold:
  assumes "i < length reps"
  shows "all_places (reps[i := fold_into f c (reps ! i)]) = all_places reps + places f"
  using sum_list_map_update [OF assms, of places "fold_into f c (reps ! i)"]
  by (simp add: all_places_def ac_simps)

lemma candidates_bound: "i \<in> set (candidates reps f) \<Longrightarrow> i < length reps"
  by (auto simp: candidates_def Let_def dest!: in_set_takeD)
    (auto simp: in_set_enumerate_eq)

lemma resolve_bound: "resolve label c cands = Some (i, c') \<Longrightarrow> i \<in> set cands"
  by (auto simp: resolve_def split: if_splits option.splits)

lemma same_root_cause_bound:
  "same_root_cause ask f reps cands s = (Inr (Some (i, c)), s') \<Longrightarrow> i \<in> set cands"
  by (auto simp: same_root_cause_def and_then_eq_Inr split: prod.splits dest: resolve_bound)

lemma dedupe_loop_conserves:
  "dedupe_loop ask reps folded fs s = ((kept, n), s') \<Longrightarrow>
     all_places kept = all_places reps + all_places fs \<and>
     length kept + n = length reps + folded + length fs"
proof (induction ask reps folded fs s rule: dedupe_loop.induct)
  case (2 ask reps folded f fs s)
  show ?case
  proof (cases "candidates reps f = []")
    case True
    then show ?thesis using 2 by (simp add: Let_def ac_simps)
  next
    case False
    obtain r s1 where srcv: "same_root_cause ask f reps (candidates reps f) s = (r, s1)" by force
    show ?thesis
    proof (cases "\<exists>i c. r = Inr (Some (i, c))")
      case True
      then obtain i c where r: "r = Inr (Some (i, c))" by blast
      have "i < length reps" using same_root_cause_bound [OF srcv [unfolded r]] by (rule candidates_bound)
      then show ?thesis using 2 False srcv r by (simp add: Let_def all_places_fold ac_simps)
    next
      case False
      then have "r = Inr None \<or> (\<exists>e. r = Inl e)" by (metis option.exhaust sum.exhaust surj_pair)
      then show ?thesis using 2 \<open>candidates reps f \<noteq> []\<close> srcv by (auto simp: Let_def ac_simps)
    qed
  qed
qed simp

definition group_ok :: "Finding list list \<times> (string \<rightharpoonup> nat) \<Rightarrow> bool" where
  "group_ok = (\<lambda>(groups, by_file). \<forall>i \<in> ran by_file. i < length groups)"

lemma group_step_ok:
  "group_ok st \<Longrightarrow> group_ok (group_step st f) \<and>
     mset (concat (fst (group_step st f))) = add_mset f (mset (concat (fst st)))"
proof -
  assume ok: "group_ok st"
  obtain groups by_file where st: "st = (groups, by_file)" by (cases st)
  show ?thesis
  proof (cases "by_file (f_file f)")
    case None
    with ok show ?thesis by (auto simp: st group_step_def group_ok_def ran_def less_Suc_eq)
  next
    case (Some i)
    then have i: "i < length groups" using ok by (auto simp: st group_ok_def ran_def)
    have "mset (concat (groups[i := groups ! i @ [f]])) = add_mset f (mset (concat groups))"
      using sum_list_map_update [OF i, of mset "groups ! i @ [f]"]
      by (simp add: mset_concat)
    with ok Some i show ?thesis by (simp add: st group_step_def group_ok_def)
  qed
qed

lemma groups_fold:
  "group_ok st \<Longrightarrow> mset (concat (fst (foldl group_step st fs))) = mset fs + mset (concat (fst st))"
  by (induction fs arbitrary: st) (simp_all add: group_step_ok)

lemma mset_groups_by_file: "mset (concat (groups_by_file fs)) = mset fs"
  unfolding groups_by_file_def by (subst groups_fold) (simp_all add: group_ok_def)

lemma dedupe_conserves:
  assumes "dedupe ask fs s = ((kept, n), s')"
  shows "all_places kept = all_places fs" "length kept + n = length fs"
proof -
  have each: "list_all2 (\<lambda>g r. all_places (fst r) = all_places g \<and> length (fst r) + snd r = length g) gs
      (fst (traverse (dedupe_file ask) gs s))" for gs s
    by (rule traverse_results) (metis dedupe_file_def dedupe_loop_conserves add.left_neutral all_places_simps(1)
        list.size(3) prod.collapse add_0)
  have total: "list_all2 (\<lambda>g r. all_places (fst r) = all_places g \<and> length (fst r) + snd r = length g) gs rs \<Longrightarrow>
      all_places (concat (map fst rs)) = all_places (concat gs) \<and>
      length (concat (map fst rs)) + sum_list (map snd rs) = length (concat gs)" for gs rs
    by (induction gs rs rule: list_all2_induct) auto
  from total [OF each [of "groups_by_file fs" s]] assms
    all_places_mset [OF mset_groups_by_file] mset_eq_length [OF mset_groups_by_file]
  show "all_places kept = all_places fs" "length kept + n = length fs"
    by (auto simp: dedupe_def split: prod.splits)
qed

section \<open>What a stage keeps of the findings\<close>

text \<open>
  \<open>survives R n fs out\<close>: all but \<open>n\<close> of the findings \<open>fs\<close> come out, each related by \<open>R\<close> to what it
  was, and nothing else does.
\<close>

definition survives :: "('a \<Rightarrow> 'b \<Rightarrow> bool) \<Rightarrow> nat \<Rightarrow> 'a list \<Rightarrow> 'b list \<Rightarrow> bool" where
  "survives R n fs out \<longleftrightarrow>
     (\<exists>kept gone. mset fs = kept + gone \<and> size gone = n \<and> rel_mset R kept (mset out))"

lemma rel_mset_split:
  "rel_mset R M (A + B) \<Longrightarrow> \<exists>MA MB. M = MA + MB \<and> rel_mset R MA A \<and> rel_mset R MB B"
proof (induction A arbitrary: M)
  case empty
  then show ?case by (intro exI [of _ "{#}"] exI [of _ M]) (simp add: rel_mset_Zero)
next
  case (add a A)
  then obtain M1 m where M: "M = add_mset m M1" "R m a" "rel_mset R M1 (A + B)"
    by (metis union_mset_add_mset_left msed_rel_invR)
  from add.IH [OF M(3)] obtain MA MB where "M1 = MA + MB" "rel_mset R MA A" "rel_mset R MB B" by blast
  then show ?case using M by (intro exI [of _ "add_mset m MA"] exI [of _ MB]) (simp add: rel_mset_Plus)
qed

lemma rel_mset_union: "rel_mset R A B \<Longrightarrow> rel_mset R C D \<Longrightarrow> rel_mset R (A + C) (B + D)"
proof (induction A arbitrary: B)
  case empty
  then show ?case by simp
next
  case (add a A)
  then obtain b B1 where "B = add_mset b B1" "R a b" "rel_mset R A B1" by (metis msed_rel_invL)
  then show ?case using add by (simp add: rel_mset_Plus)
qed

lemma rel_mset_lists: "list_all2 R xs ys \<Longrightarrow> rel_mset R (mset xs) (mset ys)"
  by (auto simp: rel_mset_def)

lemma survives_all: "list_all2 R fs out \<Longrightarrow> survives R 0 fs out"
  unfolding survives_def by (intro exI [of _ "mset fs"] exI [of _ "{#}"]) (simp add: rel_mset_lists)

lemma survives_trans:
  assumes "survives R m fs gs" and "survives S n gs hs"
  shows "survives (R OO S) (m + n) fs hs"
proof -
  obtain A B where 1: "mset fs = A + B" "size B = m" "rel_mset R A (mset gs)"
    using assms(1) by (auto simp: survives_def)
  obtain C D where 2: "mset gs = C + D" "size D = n" "rel_mset S C (mset hs)"
    using assms(2) by (auto simp: survives_def)
  obtain AC AD where A: "A = AC + AD" "rel_mset R AC C" "rel_mset R AD D"
    using rel_mset_split 1(3) unfolding 2(1) by blast
  have "rel_mset (R OO S) AC (mset hs)" using A(2) 2(3) by (auto simp: multiset.rel_compp)
  moreover have "size AD = n" using A(3) 2(2) by (auto simp: rel_mset_size)
  ultimately show ?thesis unfolding survives_def using 1 A
    by (intro exI [of _ AC] exI [of _ "AD + B"]) (simp add: ac_simps)
qed

lemma survives_mono: "survives R n fs out \<Longrightarrow> R \<le> S \<Longrightarrow> survives S n fs out"
  unfolding survives_def using multiset.rel_mono by blast

lemma survives_append:
  "survives R m xs ys \<Longrightarrow> survives R n us vs \<Longrightarrow> survives R (m + n) (xs @ us) (ys @ vs)"
proof -
  assume "survives R m xs ys" "survives R n us vs"
  then obtain A B C D where 1: "mset xs = A + B" "size B = m" "rel_mset R A (mset ys)"
    "mset us = C + D" "size D = n" "rel_mset R C (mset vs)"
    unfolding survives_def by blast
  have "mset (xs @ us) = (A + C) + (B + D)" using 1 by simp
  moreover have "rel_mset R (A + C) (mset (ys @ vs))" using 1 by (simp add: rel_mset_union)
  moreover have "size (B + D) = m + n" using 1 by simp
  ultimately show ?thesis unfolding survives_def by blast
qed

lemma survives_mset:
  "survives R n fs out \<Longrightarrow> mset fs' = mset fs \<Longrightarrow> mset out' = mset out \<Longrightarrow> survives R n fs' out'"
  by (simp add: survives_def)

lemma survives_length: "survives R n fs out \<Longrightarrow> length out + n = length fs"
  unfolding survives_def by (metis rel_mset_size size_mset size_union)

lemma survives_filter:
  "(\<And>f. R f f) \<Longrightarrow> survives R (length fs - length (filter P fs)) fs (filter P fs)"
proof -
  assume "\<And>f. R f f"
  then have "rel_mset R (mset (filter P fs)) (mset (filter P fs))" by (intro rel_mset_lists list_all2_refl)
  moreover have "mset fs = mset (filter P fs) + mset (filter (\<lambda>f. \<not> P f) fs)" by simp
  moreover have "size (mset (filter (\<lambda>f. \<not> P f) fs)) = length fs - length (filter P fs)"
    using sum_length_filter_compl [of P fs] unfolding size_mset by linarith
  ultimately show ?thesis unfolding survives_def by blast
qed

text \<open>The part of a finding that no refinement touches, and the two relations of the stages.\<close>

definition core :: "Finding \<Rightarrow> Finding" where
  "core f = f\<lparr>f_action := Comment, f_related := [], f_rank := None, f_taint := None,
     f_exoneration := None, f_ensemble := None\<rparr>"

definition same_verdict :: "Finding \<Rightarrow> Finding \<Rightarrow> bool" where
  "same_verdict f g \<longleftrightarrow> core g = core f \<and> f_action g = f_action f \<and> f_taint g = f_taint f"

definition unexploitable :: "Finding \<Rightarrow> bool" where
  "unexploitable f \<longleftrightarrow>
     (case f_taint f of None \<Rightarrow> False | Some c \<Rightarrow> tc_exploitability c < LOW_EXPLOITABILITY)"

definition refined :: "Finding \<Rightarrow> Finding \<Rightarrow> bool" where
  "refined f g \<longleftrightarrow>
     core g = core f \<and>
     (f_action g = f_action f \<or> f_action f = RequestChanges \<and> f_action g = Comment \<and> unexploitable g)"

lemma same_verdict_refl [simp]: "same_verdict f f"
  by (simp add: same_verdict_def)

lemma verdict_trans: "same_verdict OO same_verdict \<le> same_verdict"
  by (auto simp: same_verdict_def)

lemma refined_trans: "same_verdict OO refined \<le> refined" "refined OO same_verdict \<le> refined"
  by (auto simp: same_verdict_def refined_def unexploitable_def)

text \<open>Each target is updated once, with its own result.\<close>

lemma length_apply_results [simp]: "length (apply_results upd results fs) = length fs"
proof -
  have "length (foldl (\<lambda>fs (i, r). case r of Inl _ \<Rightarrow> fs | Inr v \<Rightarrow> fs[i := upd v (fs ! i)]) fs results) = length fs"
    by (induction results arbitrary: fs) (auto split: sum.split)
  then show ?thesis by (simp add: apply_results_def)
qed

lemma apply_results_nth:
  "distinct (map fst results) \<Longrightarrow> j < length fs \<Longrightarrow>
     apply_results upd results fs ! j =
       (case map_of results j of Some (Inr v) \<Rightarrow> upd v (fs ! j) | _ \<Rightarrow> fs ! j)"
proof (induction results arbitrary: fs)
  case (Cons ir rest)
  obtain i r where ir: "ir = (i, r)" by (cases ir)
  define fs' where "fs' = (case r of Inl _ \<Rightarrow> fs | Inr v \<Rightarrow> fs[i := upd v (fs ! i)])"
  have "apply_results upd (ir # rest) fs = apply_results upd rest fs'"
    by (simp add: apply_results_def ir fs'_def)
  moreover have "length fs' = length fs" by (simp add: fs'_def split: sum.split)
  moreover have "map_of rest i = None" using Cons.prems(1) by (simp add: ir map_of_eq_None_iff)
  ultimately show ?case using Cons by (cases "i = j") (auto simp: ir fs'_def split: sum.split option.split)
qed (simp add: apply_results_def)

lemma judged_targets [simp]: "map fst (fst (judge_targets judge targets fs s)) = targets"
  unfolding judge_targets_def by (induction targets arbitrary: s) (simp_all split: prod.split)

lemma distinct_top_indices [simp]: "distinct (top_indices fs mx keep)"
  unfolding top_indices_def by (intro distinct_take distinct_map_filter) simp

lemma apply_judged_rel:
  assumes "judge_targets judge (top_indices fs mx keep) fs s = (results, s')"
    and "\<And>f. R f f" "\<And>f v. R f (upd v f)"
  shows "list_all2 R fs (apply_results upd results fs)"
proof -
  have "distinct (map fst results)"
    by (metis assms(1) distinct_top_indices fst_conv judged_targets)
  then show ?thesis
    by (auto simp: list_all2_conv_all_nth apply_results_nth assms(2,3) split: option.split sum.split)
qed

lemma survives_refl: "(\<And>f. R f f) \<Longrightarrow> survives R 0 fs fs"
  by (rule survives_all) (rule list_all2_refl)

lemma verdict_survives_trans:
  "survives same_verdict m fs gs \<Longrightarrow> survives same_verdict n gs hs \<Longrightarrow> survives same_verdict (m + n) fs hs"
  by (rule survives_mono [OF survives_trans verdict_trans])

lemma fold_survives:
  assumes "i < length reps"
  shows "survives same_verdict 1 (reps @ [f]) (reps[i := fold_into f c (reps ! i)])"
proof -
  have "survives same_verdict 0 reps (reps[i := fold_into f c (reps ! i)])"
    by (rule survives_all)
      (auto simp: list_all2_conv_all_nth nth_list_update same_verdict_def core_def fold_into_def assms)
  moreover have "survives same_verdict 1 [f] []"
    unfolding survives_def by (rule exI [of _ "{#}"], rule exI [of _ "{#f#}"]) simp
  ultimately show ?thesis using survives_append [of same_verdict 0 _ _ 1 "[f]" "[]"] by fastforce
qed

lemma dedupe_loop_survives:
  "dedupe_loop ask reps folded fs s = ((kept, n), s') \<Longrightarrow>
     \<exists>m. n = folded + m \<and> survives same_verdict m (reps @ fs) kept"
proof (induction ask reps folded fs s rule: dedupe_loop.induct)
  case (1 ask reps folded s)
  then show ?case by (simp add: survives_refl)
next
  case (2 ask reps folded f fs s)
  show ?case
  proof (cases "candidates reps f = []")
    case True
    then show ?thesis using 2 by (simp add: Let_def)
  next
    case False
    obtain r s1 where srcv: "same_root_cause ask f reps (candidates reps f) s = (r, s1)" by force
    show ?thesis
    proof (cases "\<exists>i c. r = Inr (Some (i, c))")
      case True
      then obtain i c where r: "r = Inr (Some (i, c))" by blast
      let ?reps = "reps[i := fold_into f c (reps ! i)]"
      have "i < length reps" using same_root_cause_bound [OF srcv [unfolded r]] by (rule candidates_bound)
      from survives_append [OF fold_survives [OF this, of f c] survives_refl [of same_verdict fs]]
      have "survives same_verdict 1 (reps @ f # fs) (?reps @ fs)" by simp
      moreover have "\<exists>m. n = folded + 1 + m \<and> survives same_verdict m (?reps @ fs) kept"
        using 2 False srcv r by (simp add: Let_def)
      ultimately show ?thesis using verdict_survives_trans by (metis add.assoc)
    next
      case False
      then have "r = Inr None \<or> (\<exists>e. r = Inl e)" by (metis option.exhaust sum.exhaust surj_pair)
      then show ?thesis using 2 \<open>candidates reps f \<noteq> []\<close> srcv by (auto simp: Let_def)
    qed
  qed
qed

lemma dedupe_survives:
  assumes "dedupe ask fs s = ((kept, n), s')"
  shows "survives same_verdict n fs kept"
proof -
  have each: "list_all2 (\<lambda>g r. survives same_verdict (snd r) g (fst r)) gs
      (fst (traverse (dedupe_file ask) gs s))" for gs s
    by (rule traverse_results) (metis dedupe_file_def dedupe_loop_survives add_0 append_Nil prod.collapse)
  have total: "list_all2 (\<lambda>g r. survives same_verdict (snd r) g (fst r)) gs rs \<Longrightarrow>
      survives same_verdict (sum_list (map snd rs)) (concat gs) (concat (map fst rs))" for gs rs
    by (induction gs rs rule: list_all2_induct) (simp_all add: survives_refl survives_append)
  have "survives same_verdict n (concat (groups_by_file fs)) kept"
    using total [OF each [of "groups_by_file fs" s]] assms by (auto simp: dedupe_def split: prod.splits)
  then show ?thesis by (rule survives_mset) (simp_all only: mset_groups_by_file)
qed

lemma trace_survives:
  assumes "trace ask context fs s = (gs, s')"
  shows "survives refined 0 fs gs"
proof -
  obtain results where "judge_targets (chain ask context) (top_indices fs MAX_TAINT
      (\<lambda>f. f_dimension f = Security \<and> f_mechanism f \<in> set TAINT_MECHANISMS)) fs s = (results, s')"
    "gs = apply_results apply_chain results fs"
    using assms by (auto simp: trace_def Let_def split: prod.splits)
  moreover have "refined f f" "refined f (apply_chain c f)" for f c
    by (auto simp: refined_def apply_chain_def core_def unexploitable_def)
  ultimately show ?thesis using survives_all [OF apply_judged_rel] by metis
qed

lemma calibrate_survives:
  assumes "calibrate ask context fs s = ((kept, n), s')"
  shows "survives same_verdict n fs kept"
proof -
  let ?upd = "\<lambda>e f. f\<lparr>f_exoneration := Some e\<rparr>"
  obtain results where r: "judge_targets (check ask context) (top_indices fs MAX_COUNTERFACTUAL (\<lambda>_. True)) fs s = (results, s')"
      "kept = filter (\<lambda>f. \<not> exonerated f) (apply_results ?upd results fs)"
      "n = length (apply_results ?upd results fs) - length kept"
    using assms unfolding calibrate_def Let_def by (auto split: prod.splits)
  have "survives same_verdict 0 fs (apply_results ?upd results fs)"
    by (rule survives_all, rule apply_judged_rel [OF r(1)]) (simp_all add: same_verdict_def core_def)
  from verdict_survives_trans [OF this survives_filter [of same_verdict _ "\<lambda>f. \<not> exonerated f"]]
  show ?thesis using r(2,3) by simp
qed

lemma vote_survives:
  assumes "vote ask context fs s = (gs, s')"
  shows "survives same_verdict 0 fs gs"
proof -
  let ?upd = "\<lambda>votes f. f\<lparr>f_ensemble := Some (tally votes)\<rparr>"
  obtain results where r: "judge_targets (ask_votes ask context)
      (top_indices fs MAX_ENSEMBLE (\<lambda>f. f_action f = RequestChanges)) fs s = (results, s')"
    "gs = apply_results ?upd results fs"
    using assms unfolding vote_def Let_def by (auto split: prod.splits)
  show ?thesis unfolding r(2)
    by (rule survives_all, rule apply_judged_rel [OF r(1)]) (simp_all add: same_verdict_def core_def)
qed

lemma place_ranked_survives:
  assumes "mset order = mset [0..<k]" and "k \<le> length fs"
  shows "survives same_verdict 0 fs (place_ranked order fs)"
proof -
  have len: "length order = k" using mset_eq_length [OF assms(1)] by simp
  let ?gs = "map ((!) fs) order @ drop k fs"
  have "mset (map ((!) fs) order) = mset (map ((!) fs) [0..<k])" using assms(1) by (simp only: mset_map)
  also have "map ((!) fs) [0..<k] = take k fs" using assms(2) by (simp add: list_eq_iff_nth_eq)
  finally have "mset ?gs = mset fs" by (metis append_take_drop_id mset_append)
  moreover have "list_all2 same_verdict ?gs (place_ranked order fs)"
    unfolding place_ranked_def len
    by (rule list_all2_appendI)
      (auto simp: list_all2_conv_all_nth nth_enumerate_eq same_verdict_def core_def)
  ultimately show ?thesis using survives_all survives_mset by metis
qed

lemma rank_survives:
  assumes "rank ask fs s = (gs, s')"
  shows "survives same_verdict 0 fs gs"
proof (cases "gs = fs")
  case False
  define k where "k = min PAIRWISE_TOP_K (length fs)"
  obtain outcomes where "gs = place_ranked (strength_order k (bradley_terry k outcomes)) fs"
    using assms False by (auto simp: rank_def Let_def k_def split: prod.splits sum.splits if_splits)
  moreover have "mset (strength_order k st) = mset [0..<k]" for st
    by (simp add: strength_order_def)
  ultimately show ?thesis using place_ranked_survives [of "strength_order k (bradley_terry k outcomes)" k fs] by (simp add: k_def)
qed (simp add: survives_refl)

lemma severity_survives: "survives same_verdict 0 fs (sort_by_severity fs)"
  by (rule survives_mset [OF survives_refl [of same_verdict fs]]) (simp_all add: sort_by_severity_def)

lemma verdict_then_refined:
  "survives same_verdict m fs gs \<Longrightarrow> survives refined n gs hs \<Longrightarrow> survives refined (m + n) fs hs"
  by (rule survives_mono [OF survives_trans refined_trans(1)])

lemma refined_then_verdict:
  "survives refined m fs gs \<Longrightarrow> survives same_verdict n gs hs \<Longrightarrow> survives refined (m + n) fs hs"
  by (rule survives_mono [OF survives_trans refined_trans(2)])

lemma refine_survives:
  assumes "refine ask context fs s = ((out, counts), s')"
  shows "survives refined (rc_clustered counts + rc_exonerated counts) fs out"
proof -
  obtain deduped traced kept voted s1 s2 s3 s4 n where
    st: "dedupe ask (sort_by_severity fs) s = ((deduped, rc_clustered counts), s1)"
      "trace ask context (sort_by_severity deduped) s1 = (traced, s2)"
      "calibrate ask context traced s2 = ((kept, rc_exonerated counts), s3)"
      "vote ask context kept s3 = (voted, s4)" "rank ask (sort_by_severity voted) s4 = (out, s')"
    using assms by (auto simp: refine_def split: prod.splits)
  have "survives refined (rc_clustered counts) fs traced"
    using verdict_then_refined [OF verdict_survives_trans [OF verdict_survives_trans [OF severity_survives
        dedupe_survives [OF st(1)]] severity_survives] trace_survives [OF st(2)]] by simp
  from refined_then_verdict [OF refined_then_verdict [OF refined_then_verdict [OF refined_then_verdict
      [OF this calibrate_survives [OF st(3)]] vote_survives [OF st(4)]] severity_survives] rank_survives [OF st(5)]]
  show ?thesis by simp
qed

section \<open>The service is kept in order\<close>

context judging_service
begin

lemma ask_kept: "ask state questions s = (r, s') \<Longrightarrow> ok s \<Longrightarrow> ok s'"
  using ask_ok by (metis snd_conv)

lemma same_root_cause_kept: "same_root_cause ask f reps cands s = (r, s') \<Longrightarrow> ok s \<Longrightarrow> ok s'"
  by (auto simp: same_root_cause_def split: prod.splits dest: ask_kept)

lemma dedupe_loop_kept: "ok s \<Longrightarrow> ok (snd (dedupe_loop ask reps folded fs s))"
proof (induction fs arbitrary: reps folded s)
  case (Cons f fs)
  show ?case
  proof (cases "candidates reps f = []")
    case True
    then show ?thesis using Cons by (simp add: Let_def)
  next
    case False
    obtain r s1 where r: "same_root_cause ask f reps (candidates reps f) s = (r, s1)" by force
    have "ok s1" using same_root_cause_kept [OF r Cons.prems] .
    then show ?thesis using False by (simp add: Let_def r Cons.IH split: sum.split option.split)
  qed
qed simp

lemma dedupe_kept: "ok s \<Longrightarrow> ok (snd (dedupe ask fs s))"
proof -
  assume "ok s"
  then have "ok (snd (traverse (dedupe_file ask) (groups_by_file fs) s))"
    by (rule traverse_keeps [rotated]) (simp add: dedupe_file_def dedupe_loop_kept)
  then show ?thesis by (simp add: dedupe_def case_prod_beta)
qed

lemma judged_kept:
  "(\<And>f s. ok s \<Longrightarrow> ok (snd (judge f s))) \<Longrightarrow> ok s \<Longrightarrow> ok (snd (judge_targets judge targets fs s))"
  unfolding judge_targets_def by (rule traverse_keeps) (simp_all add: case_prod_beta)

lemma chain_kept: "ok s \<Longrightarrow> ok (snd (chain ask context f s))"
  by (auto simp: chain_def Let_def split: prod.split sum.split dest: ask_kept)

lemma check_kept: "ok s \<Longrightarrow> ok (snd (check ask context f s))"
  by (auto simp: check_def Let_def split: prod.split sum.split dest: ask_kept)

lemma ask_votes_kept: "ok s \<Longrightarrow> ok (snd (ask_votes ask context f s))"
  by (auto simp: ask_votes_def split: prod.split dest: ask_kept)

lemma trace_kept: "ok s \<Longrightarrow> ok (snd (trace ask context fs s))"
  using judged_kept [OF chain_kept] by (simp add: trace_def Let_def case_prod_beta)

lemma calibrate_kept: "ok s \<Longrightarrow> ok (snd (calibrate ask context fs s))"
  using judged_kept [OF check_kept] by (simp add: calibrate_def Let_def case_prod_beta)

lemma vote_kept: "ok s \<Longrightarrow> ok (snd (vote ask context fs s))"
  using judged_kept [OF ask_votes_kept] by (simp add: vote_def Let_def case_prod_beta)

lemma compare_pairs_kept: "ok s \<Longrightarrow> ok (snd (compare_pairs ask state batch s))"
  by (auto simp: compare_pairs_def split: prod.split dest: ask_kept)

lemma rank_kept: "ok s \<Longrightarrow> ok (snd (rank ask fs s))"
proof -
  assume "ok s"
  then have "ok (snd (traverse (compare_pairs ask state) batches s))" for state batches
    by (rule traverse_keeps [rotated]) (rule compare_pairs_kept)
  then show ?thesis using \<open>ok s\<close>
    by (simp add: rank_def Let_def case_prod_beta split: sum.split)
qed

lemma refine_kept: "ok s \<Longrightarrow> ok (snd (refine ask context fs s))"
  by (simp add: refine_def case_prod_beta dedupe_kept trace_kept calibrate_kept vote_kept rank_kept)

end

section \<open>Without answers nothing is lost\<close>

text \<open>A service that answers no request.\<close>

definition unserved :: "(json \<Rightarrow> json \<Rightarrow> 's \<Rightarrow> momus_error) \<Rightarrow> (json \<Rightarrow> json \<Rightarrow> 's \<Rightarrow> 's) \<Rightarrow> 's service" where
  "unserved err nxt state questions s = (Inl (err state questions s), nxt state questions s)"

lemma unserved_dedupe_loop:
  "fst (dedupe_loop (unserved err nxt) reps folded fs s) = (reps @ fs, folded)"
  by (induction fs arbitrary: reps s) (simp_all add: Let_def same_root_cause_def unserved_def split: prod.split)

lemma unserved_dedupe:
  "fst (dedupe (unserved err nxt) fs s) = (concat (groups_by_file fs), 0)"
proof -
  have "fst (traverse (dedupe_file (unserved err nxt)) gs s) = map (\<lambda>g. (g, 0)) gs" for gs s
    by (induction gs arbitrary: s) (simp_all add: dedupe_file_def unserved_dedupe_loop)
  then show ?thesis by (simp add: dedupe_def case_prod_beta comp_def)
qed

lemma unserved_judged:
  "(\<And>f s. isl (fst (judge f s))) \<Longrightarrow> \<forall>(i, r) \<in> set (fst (judge_targets judge targets fs s)). isl r"
  unfolding judge_targets_def by (induction targets arbitrary: s) (simp_all add: case_prod_beta)

lemma apply_failed: "\<forall>(i, r) \<in> set results. isl r \<Longrightarrow> apply_results upd results fs = fs"
  unfolding apply_results_def by (induction results) (auto split: sum.split)

lemma unserved_refine:
  "mset (fst (fst (refine (unserved err nxt) context fs s))) = mset (filter (\<lambda>f. \<not> exonerated f) fs)"
proof -
  have tr: "fst (trace (unserved err nxt) context fs s) = fs" for fs s
    by (simp add: apply_failed [OF unserved_judged [of "chain (unserved err nxt) context"]] trace_def Let_def case_prod_beta chain_def unserved_def)
  have ca: "fst (fst (calibrate (unserved err nxt) context fs s)) = filter (\<lambda>f. \<not> exonerated f) fs" for fs s
    by (simp add: apply_failed [OF unserved_judged [of "check (unserved err nxt) context"]] calibrate_def Let_def case_prod_beta check_def unserved_def)
  have vo: "fst (vote (unserved err nxt) context fs s) = fs" for fs s
    by (simp add: apply_failed [OF unserved_judged [of "ask_votes (unserved err nxt) context"]] vote_def Let_def case_prod_beta ask_votes_def unserved_def)
  have ra: "fst (rank (unserved err nxt) fs s) = fs" for fs s
  proof (cases "min PAIRWISE_TOP_K (length fs) < 2")
    case False
    define k where "k = min PAIRWISE_TOP_K (length fs)"
    have "(0, 1) \<in> set (pairs_of k)" using False by (force simp: pairs_of_def k_def)
    then have "\<exists>b bs. chunks_of PAIRWISE_BATCH (pairs_of k) = b # bs"
      by (subst chunks_of.simps) (auto simp: PAIRWISE_BATCH_def)
    then obtain b bs where "chunks_of PAIRWISE_BATCH (pairs_of k) = b # bs" by blast
    then show ?thesis using False
      by (simp add: rank_def Let_def case_prod_beta compare_pairs_def unserved_def k_def [symmetric] traverse.simps(2))
  qed (simp add: rank_def)
  show ?thesis
    using mset_groups_by_file [of "sort_by_severity fs"]
    by (simp add: refine_def case_prod_beta tr ca vo ra unserved_dedupe sort_by_severity_def mset_filter)
qed

section \<open>Properties\<close>

text \<open>
  C8. Refinement neither invents nor silently loses a finding, whatever the service answers: the
  findings that come out are the findings that went in less as many as the counts report folded or
  exonerated, each with its location, evidence, severity and probability unchanged, and with the
  action it had, or demoted from a requested change to a comment with a taint chain of an
  exploitability below \<open>LOW_EXPLOITABILITY\<close>.
\<close>

theorem refine_conserves:
  "case refine ask context fs s of ((out, counts), _) \<Rightarrow>
     survives refined (rc_clustered counts + rc_exonerated counts) fs out"
  by (auto split: prod.split dest: refine_survives)

text \<open>
  A finding that is folded into another stays on record: what was found at which place, as a
  finding or in the \<open>related\<close> list of one, is the same before and after clustering, and the number
  of findings only falls by the number reported as folded.
\<close>

theorem dedupe_keeps_places:
  "case dedupe ask fs s of ((kept, n), _) \<Rightarrow>
     all_places kept = all_places fs \<and> length kept + n = length fs"
  by (auto split: prod.split dest: dedupe_conserves)

text \<open>
  A failed judgment never fails the review: with a service that answers no request, refinement
  returns every finding it was given (that does not already carry an exoneration), unchanged.
\<close>

theorem refine_without_service:
  "mset (fst (fst (refine (unserved err nxt) context fs s))) = mset (filter (\<lambda>f. \<not> exonerated f) fs)"
  by (rule unserved_refine)

section \<open>Bradley-Terry strengths\<close>

definition outcome_ok :: "nat \<Rightarrow> nat \<times> nat \<times> f64 \<Rightarrow> bool" where
  "outcome_ok k = (\<lambda>(i, j, p). i < k \<and> j < k \<and> i \<noteq> j \<and> in_unit p)"

definition table_ok :: "nat \<Rightarrow> f64 list list \<Rightarrow> bool" where
  "table_ok k w \<longleftrightarrow> length w = k \<and>
     (\<forall>i < k. length (w ! i) = k \<and> (\<forall>j < k. \<exists>a. w ! i ! j = Fin a \<and> 0 \<le> a))"

lemma add_win_ok:
  assumes "table_ok k w" "i < k" "j < k" "0 \<le> a"
  shows "table_ok k (add_win i j (Fin a) w)"
proof -
  obtain b where "w ! i ! j = Fin b" "0 \<le> b" using assms by (auto simp: table_ok_def)
  with assms show ?thesis
    by (auto simp: table_ok_def add_win_def nth_list_update)
qed

lemma outcomes_ok:
  "table_ok k w \<Longrightarrow> list_all (outcome_ok k) outcomes \<Longrightarrow>
     table_ok k (foldl (\<lambda>w (i, j, p). add_win j i (Fin 1 - p) (add_win i j p w)) w outcomes)"
proof (induction outcomes arbitrary: w)
  case (Cons x rest)
  obtain i j a where x: "x = (i, j, Fin a)" "i < k" "j < k" "0 \<le> a" "a \<le> 1"
    using Cons.prems(2) by (cases x) (auto simp: outcome_ok_def in_unit_iff)
  have "table_ok k (add_win j i (Fin (1 - a)) (add_win i j (Fin a) w))"
    using x Cons.prems(1) by (simp add: add_win_ok)
  then show ?case using Cons by (simp add: x)
qed simp

lemma win_table_entries:
  assumes "list_all (outcome_ok k) outcomes"
  shows "\<exists>W. \<forall>i < k. \<forall>j < k. win_table k outcomes ! i ! j = Fin (W i j) \<and> (i \<noteq> j \<longrightarrow> 0 < W i j)"
proof -
  let ?w = "foldl (\<lambda>w (i, j, p). add_win j i (Fin 1 - p) (add_win i j p w)) (replicate k (replicate k (Fin 0))) outcomes"
  have "table_ok k (replicate k (replicate k (Fin 0)))" by (simp add: table_ok_def)
  then have "table_ok k ?w" using assms by (rule outcomes_ok)
  moreover define w where "w = ?w"
  ultimately have ok: "table_ok k w" by simp
  then have len: "length w = k" "\<And>i. i < k \<Longrightarrow> length (w ! i) = k" by (simp_all add: table_ok_def)
  define A where "A i j = (case w ! i ! j of Fin a \<Rightarrow> a | _ \<Rightarrow> 0)" for i j
  have A: "w ! i ! j = Fin (A i j) \<and> 0 \<le> A i j" if "i < k" "j < k" for i j
    using ok that unfolding table_ok_def A_def by fastforce
  have table: "win_table k outcomes =
      map (\<lambda>(i, row). map (\<lambda>(j, x). if i \<noteq> j then x + PRIOR else x) (enumerate 0 row)) (enumerate 0 w)"
    by (simp add: win_table_def w_def Let_def)
  have "win_table k outcomes ! i ! j = Fin (if i \<noteq> j then A i j + 0.1 else A i j)" if "i < k" "j < k" for i j
    unfolding table using len that A [OF that] by (simp add: nth_enumerate_eq PRIOR_def)
  moreover have "0 < A i j + 0.1" if "i < k" "j < k" for i j using A [OF that] by simp
  ultimately show ?thesis by (intro exI [of _ "\<lambda>i j. if i \<noteq> j then A i j + 0.1 else A i j"]) simp
qed

text \<open>Strengths are positive and have the mean 1.\<close>

definition strengths_ok :: "nat \<Rightarrow> f64 list \<Rightarrow> bool" where
  "strengths_ok k strength \<longleftrightarrow>
     (\<exists>ss. strength = map Fin ss \<and> length ss = k \<and> list_all (\<lambda>x. 0 < x) ss \<and> sum_list ss = real k)"

lemma sum_list_pos: "xs \<noteq> [] \<Longrightarrow> list_all (\<lambda>x. 0 < x) xs \<Longrightarrow> 0 < sum_list (xs :: real list)"
proof (induction xs)
  case (Cons x xs)
  have "0 \<le> sum_list xs" using Cons.prems(2) by (intro sum_list_nonneg) (auto simp: list_all_iff less_imp_le)
  with Cons.prems(2) show ?case by simp
qed simp

lemma strength_step_ok:
  assumes k: "2 \<le> k"
    and W: "\<And>i j. i < k \<Longrightarrow> j < k \<Longrightarrow> wins ! i ! j = Fin (W i j) \<and> (i \<noteq> j \<longrightarrow> 0 < W i j)"
    and "strengths_ok k strength"
  shows "strengths_ok k (strength_step k wins strength)"
proof -
  obtain ss where ss: "strength = map Fin ss" "length ss = k" "list_all (\<lambda>x. 0 < x) ss"
    using assms(3) by (auto simp: strengths_ok_def)
  have pos: "0 < ss ! i" if "i < k" for i using ss that by (simp add: list_all_length)
  define others where "others i = filter (\<lambda>j. j \<noteq> i) [0..<k]" for i
  have in_others: "j \<in> set (others i) \<Longrightarrow> j < k \<and> j \<noteq> i" for i j by (auto simp: others_def)
  have others_ne: "others i \<noteq> []" for i
  proof -
    have "(if i = 0 then 1 else 0) \<in> set (others i)" using k by (auto simp: others_def)
    then show ?thesis by force
  qed
  define T where "T i = sum_list (map (W i) (others i))" for i
  define D where "D i = sum_list (map (\<lambda>j. (W i j + W j i) / (ss ! i + ss ! j)) (others i))" for i
  have T: "0 < T i" if "i < k" for i
    unfolding T_def by (rule sum_list_pos) (use W in_others that others_ne in \<open>auto simp: list_all_iff\<close>)
  have D: "0 < D i" if i: "i < k" for i
    unfolding D_def
  proof (rule sum_list_pos)
    have "0 < (W i j + W j i) / (ss ! i + ss ! j)" if "j \<in> set (others i)" for j
      using W [of i j] W [of j i] in_others [OF that] pos [of i] pos [of j] i by (intro divide_pos_pos add_pos_pos) auto
    then show "list_all (\<lambda>x. 0 < x) (map (\<lambda>j. (W i j + W j i) / (ss ! i + ss ! j)) (others i))"
      by (simp add: list_all_iff)
  qed (simp add: others_ne)
  have total: "f64_sum (map (\<lambda>j. wins ! i ! j) (others i)) = Fin (T i)" if "i < k" for i
  proof -
    have "map (\<lambda>j. wins ! i ! j) (others i) = map Fin (map (W i) (others i))"
      using W in_others that by auto
    then show ?thesis by (simp only: f64_sum_Fin T_def)
  qed
  have denom: "f64_sum (map (\<lambda>j. (wins ! i ! j + wins ! j ! i) / (strength ! i + strength ! j)) (others i)) = Fin (D i)"
    if "i < k" for i
  proof -
    have "(wins ! i ! j + wins ! j ! i) / (strength ! i + strength ! j) = Fin ((W i j + W j i) / (ss ! i + ss ! j))"
      if "j \<in> set (others i)" for j
      using W in_others [OF that] \<open>i < k\<close> pos [of i] pos [of j] ss(1,2) by simp
    then have "map (\<lambda>j. (wins ! i ! j + wins ! j ! i) / (strength ! i + strength ! j)) (others i)
        = map Fin (map (\<lambda>j. (W i j + W j i) / (ss ! i + ss ! j)) (others i))" by simp
    then show ?thesis by (simp only: f64_sum_Fin D_def)
  qed
  let ?next = "map (\<lambda>i. T i / D i) [0..<k]"
  have next_pos: "0 < sum_list ?next"
    by (rule sum_list_pos) (use k T D in \<open>auto simp: list_all_iff\<close>)
  have "map (\<lambda>i. f64_sum (map (\<lambda>j. wins ! i ! j) (others i)) /
      f64_sum (map (\<lambda>j. (wins ! i ! j + wins ! j ! i) / (strength ! i + strength ! j)) (others i))) [0..<k] = map Fin ?next"
    using total denom D by (auto simp: less_imp_neq [symmetric])
  then have "strength_step k wins strength = map (\<lambda>x. x / (f64_sum (map Fin ?next) / f64_of_nat k)) (map Fin ?next)"
    unfolding strength_step_def Let_def others_def by (simp only:)
  also have "\<dots> = map Fin (map (\<lambda>x. x / (sum_list ?next / real k)) ?next)"
    using k next_pos by (simp only: f64_sum_Fin) (simp add: f64_of_nat_def)
  finally have step: "strength_step k wins strength = map Fin (map (\<lambda>x. x / (sum_list ?next / real k)) ?next)" .
  have scaled: "sum_list (map (\<lambda>x. x / c) xs) = sum_list xs / c" for c and xs :: "real list"
    by (induction xs) (simp_all add: add_divide_distrib)
  have "sum_list (map (\<lambda>x. x / (sum_list ?next / real k)) ?next) = real k"
    unfolding scaled using next_pos by simp
  moreover have "list_all (\<lambda>x. 0 < x) (map (\<lambda>x. x / (sum_list ?next / real k)) ?next)"
    using next_pos T D k by (simp add: list_all_iff)
  ultimately show ?thesis unfolding strengths_ok_def step by (metis diff_zero length_map length_upt)
qed

lemma bradley_terry_ok:
  assumes "2 \<le> k" and "list_all (outcome_ok k) outcomes"
  shows "strengths_ok k (bradley_terry k outcomes)"
proof -
  obtain W where W: "\<And>i j. i < k \<Longrightarrow> j < k \<Longrightarrow>
      win_table k outcomes ! i ! j = Fin (W i j) \<and> (i \<noteq> j \<longrightarrow> 0 < W i j)"
    using win_table_entries [OF assms(2)] by blast
  have start: "strengths_ok k (replicate k (Fin 1))"
    unfolding strengths_ok_def
    by (rule exI [of _ "replicate k 1"]) (simp add: list_all_iff sum_list_replicate)
  have "strengths_ok k ((strength_step k (win_table k outcomes) ^^ n) (replicate k (Fin 1)))" for n
    by (induction n) (simp_all add: start strength_step_ok [OF assms(1) W])
  then show ?thesis unfolding bradley_terry_def .
qed

text \<open>
  The fit behind the pairwise ranking is always defined: for two findings or more and soft
  outcomes that are probabilities of distinct findings, every strength is a positive finite number
  and they sum to the number of findings, also when a finding never wins.
\<close>

theorem bradley_terry_finite:
  assumes "2 \<le> k" and "list_all (outcome_ok k) outcomes"
  shows "\<exists>ss. bradley_terry k outcomes = map Fin ss \<and> length ss = k \<and> list_all (\<lambda>x. 0 < x) ss \<and>
    sum_list ss = real k"
  using bradley_terry_ok [OF assms] by (simp add: strengths_ok_def)

lemma bradley_terry_finite_witness:
  "\<exists>ss. bradley_terry 2 [(0, 1, Fin 1)] = map Fin ss \<and> length ss = 2 \<and> list_all (\<lambda>x. 0 < x) ss \<and>
    sum_list ss = real 2"
  by (rule bradley_terry_finite) (simp_all add: outcome_ok_def in_unit_def)

end
