(* ===== verification/Buffered.thy ===== *)
theory Buffered
  imports Service
begin

text \<open>
  \<open>stream::iter(items).map(request).buffered(n)\<close>, the way every stage sends its requests: at most \<open>n\<close>
  of them are in flight, they finish in any order and are handed out in the order of the items.
  The step relation leaves open when a request starts, which one finishes next and with what.
\<close>

record ('t, 'r) Buffer =
  bf_waiting :: "'t list"
  bf_flight :: "('t \<times> 'r option) list"
  bf_emitted :: "('t \<times> 'r) list"

definition buffer_start :: "'t list \<Rightarrow> ('t, 'r) Buffer" where
  "buffer_start items = \<lparr>bf_waiting = items, bf_flight = [], bf_emitted = []\<rparr>"

inductive buffered_step :: "nat \<Rightarrow> ('t \<Rightarrow> 'r \<Rightarrow> bool) \<Rightarrow> ('t, 'r) Buffer \<Rightarrow> ('t, 'r) Buffer \<Rightarrow> bool"
  for n answers where
  start: "length (bf_flight b) < n \<Longrightarrow> bf_waiting b = x # xs \<Longrightarrow>
    buffered_step n answers b (b\<lparr>bf_waiting := xs, bf_flight := bf_flight b @ [(x, None)]\<rparr>)"
| finish: "i < length (bf_flight b) \<Longrightarrow> bf_flight b ! i = (x, None) \<Longrightarrow> answers x r \<Longrightarrow>
    buffered_step n answers b (b\<lparr>bf_flight := (bf_flight b)[i := (x, Some r)]\<rparr>)"
| emit: "bf_flight b = (x, Some r) # rest \<Longrightarrow>
    buffered_step n answers b (b\<lparr>bf_flight := rest, bf_emitted := bf_emitted b @ [(x, r)]\<rparr>)"

inductive_cases buffered_stepE: "buffered_step n answers b b'"

abbreviation buffered_run :: "nat \<Rightarrow> ('t \<Rightarrow> 'r \<Rightarrow> bool) \<Rightarrow> ('t, 'r) Buffer \<Rightarrow> ('t, 'r) Buffer \<Rightarrow> bool" where
  "buffered_run n answers \<equiv> (buffered_step n answers)\<^sup>*\<^sup>*"

text \<open>What every run keeps: the items are handed out, in flight or waiting, in their order.\<close>

definition buffer_inv :: "nat \<Rightarrow> ('t \<Rightarrow> 'r \<Rightarrow> bool) \<Rightarrow> 't list \<Rightarrow> ('t, 'r) Buffer \<Rightarrow> bool" where
  "buffer_inv n answers items b \<longleftrightarrow>
     map fst (bf_emitted b) @ map fst (bf_flight b) @ bf_waiting b = items \<and>
     length (bf_flight b) \<le> n \<and>
     list_all (\<lambda>(x, r). answers x r) (bf_emitted b) \<and>
     list_all (\<lambda>(x, r). case r of None \<Rightarrow> True | Some r' \<Rightarrow> answers x r') (bf_flight b)"

lemma buffer_inv_start: "buffer_inv n answers items (buffer_start items)"
  by (simp add: buffer_inv_def buffer_start_def)

lemma map_fst_update: "i < length xs \<Longrightarrow> fst (xs ! i) = x \<Longrightarrow> map fst (xs[i := (x, y)]) = map fst xs"
  by (metis fst_conv list_update_id map_update nth_map)

lemma buffer_inv_step:
  assumes "buffered_step n answers b b'" and "buffer_inv n answers items b"
  shows "buffer_inv n answers items b'"
  using assms
proof (cases rule: buffered_step.cases)
  case (finish i x r)
  then show ?thesis using assms(2)
    by (auto simp: buffer_inv_def map_fst_update list_all_length nth_list_update)
qed (auto simp: buffer_inv_def)

lemma buffer_inv_run:
  "buffered_run n answers b b' \<Longrightarrow> buffer_inv n answers items b \<Longrightarrow> buffer_inv n answers items b'"
  by (induction rule: rtranclp_induct) (auto intro: buffer_inv_step)

text \<open>Each item starts, finishes and is handed out once.\<close>

definition work_left :: "('t, 'r) Buffer \<Rightarrow> nat" where
  "work_left b = 3 * length (bf_waiting b) + sum_list (map (\<lambda>(_, r). if r = None then 2 else 1) (bf_flight b))"

lemma sum_list_update:
  "i < length xs \<Longrightarrow> sum_list (map f (xs[i := x])) + f (xs ! i) = sum_list (map f xs) + (f x :: nat)"
  by (induction xs arbitrary: i) (auto split: nat.split)

lemma work_left_step:
  assumes "buffered_step n answers b b'"
  shows "work_left b = Suc (work_left b')"
  using assms
proof (cases rule: buffered_step.cases)
  case (finish i x r)
  then show ?thesis
    using sum_list_update [of i "bf_flight b" "\<lambda>(_, r). if r = None then 2 else 1" "(x, Some r)"]
    by (simp add: work_left_def)
qed (auto simp: work_left_def)

lemma run_work: "(buffered_step n answers ^^ k) b b' \<Longrightarrow> work_left b = k + work_left b'"
  by (induction k arbitrary: b') (auto dest: work_left_step)

lemma never_stuck:
  assumes "0 < n" and "\<And>x. \<exists>r. answers x r" and "\<nexists>b'. buffered_step n answers b b'"
  shows "bf_waiting b = [] \<and> bf_flight b = []"
proof -
  have flight: "bf_flight b = []"
  proof (rule ccontr)
    assume "bf_flight b \<noteq> []"
    then obtain x r rest where f: "bf_flight b = (x, r) # rest" by (metis neq_Nil_conv prod.exhaust)
    show False
    proof (cases r)
      case None
      obtain a where "answers x a" using assms(2) by blast
      then have "buffered_step n answers b (b\<lparr>bf_flight := (bf_flight b)[0 := (x, Some a)]\<rparr>)"
        using f None by (intro finish) simp_all
      then show False using assms(3) by blast
    next
      case (Some a)
      then have "buffered_step n answers b (b\<lparr>bf_flight := rest, bf_emitted := bf_emitted b @ [(x, a)]\<rparr>)"
        using f by (intro emit) simp
      then show False using assms(3) by blast
    qed
  qed
  moreover have "bf_waiting b = []"
  proof (rule ccontr)
    assume "bf_waiting b \<noteq> []"
    then obtain x xs where "bf_waiting b = x # xs" by (auto simp: neq_Nil_conv)
    then have "buffered_step n answers b (b\<lparr>bf_waiting := xs, bf_flight := bf_flight b @ [(x, None)]\<rparr>)"
      using flight assms(1) by (intro start) simp_all
    then show False using assms(3) by blast
  qed
  ultimately show ?thesis by simp
qed

lemma buffered_facts:
  assumes "(buffered_step n answers ^^ k) (buffer_start items) b"
  shows "length (bf_flight b) \<le> n" and "prefix (map fst (bf_emitted b)) items"
    and "list_all (\<lambda>(x, r). answers x r) (bf_emitted b)" and "k \<le> 3 * length items"
    and "0 < n \<Longrightarrow> (\<And>x. \<exists>r. answers x r) \<Longrightarrow> \<nexists>b'. buffered_step n answers b b' \<Longrightarrow>
      map fst (bf_emitted b) = items \<and> k = 3 * length items"
proof -
  have inv: "buffer_inv n answers items b"
    using assms buffer_inv_run buffer_inv_start by (metis relpowp_imp_rtranclp)
  then show "length (bf_flight b) \<le> n" "list_all (\<lambda>(x, r). answers x r) (bf_emitted b)"
    "prefix (map fst (bf_emitted b)) items"
    by (auto simp: buffer_inv_def)
  have work: "3 * length items = k + work_left b"
    using run_work [OF assms] by (simp add: work_left_def buffer_start_def)
  then show "k \<le> 3 * length items" by simp
  assume "0 < n" "\<And>x. \<exists>r. answers x r" "\<nexists>b'. buffered_step n answers b b'"
  from never_stuck [OF this] inv work show "map fst (bf_emitted b) = items \<and> k = 3 * length items"
    by (simp add: buffer_inv_def work_left_def)
qed

lemma answered_by_function:
  "list_all (\<lambda>(x, r). r = g x) es \<Longrightarrow> es = map (\<lambda>x. (x, g x)) (map fst es)"
  by (induction es) auto



end
