(* ===== verification/Merge_Score.thy ===== *)
theory Merge_Score
  imports Report
begin

text \<open>
  The heuristic score of a review (\<open>p_revert\<close> of \<open>review/merge_confidence.rs\<close>), over exact reals.
\<close>

fun f64_exp :: "f64 \<Rightarrow> f64" where
  "f64_exp NaN = NaN"
| "f64_exp NegInf = Fin 0"
| "f64_exp PosInf = PosInf"
| "f64_exp (Fin x) = Fin (exp x)"

definition max_severity :: "Finding list \<Rightarrow> f64" where
  "max_severity findings = foldl f64_max (Fin 0) (map f_severity findings)"

definition max_test_gap :: "MatrixRow list \<Rightarrow> f64" where
  "max_test_gap matrix = foldl f64_max (Fin 0) (List.map_filter (\<lambda>row. mr_probabilities row TestGap) matrix)"

definition revert_risk :: "Finding list \<Rightarrow> MatrixRow list \<Rightarrow> f64" where
  "revert_risk findings matrix =
     (let blocking = f64_of_nat (length (filter (\<lambda>f. f_action f = RequestChanges) findings)) in
      Fin 0.55 * f64_min (Fin 0.5 * blocking) (Fin 1)
      + Fin 0.25 * (max_severity findings / SEVERITY_MAX)
      + Fin 0.10 * max_test_gap matrix
      + Fin 0.10 * f64_min (f64_of_nat (length matrix) / Fin 50) (Fin 1))"

definition p_revert :: "Finding list \<Rightarrow> MatrixRow list \<Rightarrow> f64" where
  "p_revert findings matrix = Fin 1 - f64_exp (Fin (-3) * revert_risk findings matrix)"

section \<open>The score is below one\<close>

lemma foldl_max_Fin: "foldl f64_max (Fin a) (map Fin xs) = Fin (foldl max a xs)"
  by (induction xs arbitrary: a) simp_all

lemma foldl_max_bounds:
  "list_all (\<lambda>x. 0 \<le> x \<and> x \<le> b) xs \<Longrightarrow> 0 \<le> a \<Longrightarrow> a \<le> b \<Longrightarrow> 0 \<le> foldl max a xs \<and> foldl max a xs \<le> (b :: real)"
  by (induction xs arbitrary: a) auto

lemma ranged_reals:
  "list_all (\<lambda>x. Fin 0 \<le> x \<and> x \<le> Fin b) xs \<Longrightarrow> \<exists>rs. xs = map Fin rs \<and> list_all (\<lambda>x. 0 \<le> x \<and> x \<le> b) rs"
proof (induction xs)
  case (Cons x xs)
  then obtain rs where "xs = map Fin rs" "list_all (\<lambda>x. 0 \<le> x \<and> x \<le> b) rs" by auto
  moreover obtain r where "x = Fin r" using Cons.prems by (cases x) (auto simp: less_eq_f64_def)
  ultimately show ?case using Cons.prems by (intro exI [of _ "r # rs"]) simp
qed simp

lemma max_fold_ranged:
  assumes "list_all (\<lambda>x. Fin 0 \<le> x \<and> x \<le> Fin b) xs" "0 \<le> b"
  shows "\<exists>m. foldl f64_max (Fin 0) xs = Fin m \<and> 0 \<le> m \<and> m \<le> b"
proof -
  obtain rs where rs: "xs = map Fin rs" "list_all (\<lambda>x. 0 \<le> x \<and> x \<le> b) rs" using ranged_reals [OF assms(1)] by blast
  have "foldl f64_max (Fin 0) xs = Fin (foldl max 0 rs)" unfolding rs(1) by (rule foldl_max_Fin)
  with foldl_max_bounds [OF rs(2), of 0] assms(2) show ?thesis by auto
qed

definition scored :: "Finding list \<Rightarrow> MatrixRow list \<Rightarrow> bool" where
  "scored findings matrix \<longleftrightarrow>
     list_all (\<lambda>x. Fin 0 \<le> x \<and> x \<le> Fin 3) (map f_severity findings) \<and>
     list_all (\<lambda>x. Fin 0 \<le> x \<and> x \<le> Fin 1) (List.map_filter (\<lambda>row. mr_probabilities row TestGap) matrix)"

lemma revert_risk_ranged:
  assumes "scored findings matrix"
  shows "\<exists>r. revert_risk findings matrix = Fin r \<and> 0 \<le> r \<and> r \<le> 1"
proof -
  obtain s where s: "max_severity findings = Fin s" "0 \<le> s" "s \<le> 3"
    using max_fold_ranged [of 3 "map f_severity findings"] assms by (auto simp: scored_def max_severity_def)
  obtain g where g: "max_test_gap matrix = Fin g" "0 \<le> g" "g \<le> 1"
    using max_fold_ranged [of 1] assms by (auto simp: scored_def max_test_gap_def)
  show ?thesis
    by (simp add: revert_risk_def Let_def s(1) g(1) SEVERITY_MAX_def f64_of_nat_def) (use s g in \<open>auto simp: min_def\<close>)
qed

text \<open>
  With severities and probabilities on their scales, the heuristic score is a number from zero
  to below one, at most \<open>1 - exp (-3)\<close>.
\<close>

theorem p_revert_range:
  assumes "scored findings matrix"
  shows "\<exists>p. p_revert findings matrix = Fin p \<and> 0 \<le> p \<and> p \<le> 1 - exp (-3)"
proof -
  obtain r where "revert_risk findings matrix = Fin r" "0 \<le> r" "r \<le> 1" using revert_risk_ranged [OF assms] by blast
  then show ?thesis by (simp add: p_revert_def)
qed

lemma p_revert_range_witness:
  "\<exists>p. p_revert [default_finding\<lparr>f_severity := Fin 2, f_action := RequestChanges\<rparr>] [] = Fin p \<and> 0 \<le> p \<and> p \<le> 1 - exp (-3)"
  by (rule p_revert_range) (simp add: scored_def List.map_filter_simps)

end
