(* ===== verification/Workflow.thy ===== *)
theory Workflow
  imports Refine Test_Planner Spec_Drift Selection Feedback Merge_Score
begin

text \<open>
  The staged review (\<open>run_review\<close> of \<open>review/workflow.rs\<close>) over a strategy (\<open>review/strategy.rs\<close>):
  validation of the options, the inventory, Tier 0, screening, ranking, profiles, follow-ups,
  suppression, specification checks, refinement, enrichment, test plans and the report. Each stage
  is a definition of its own; \<open>run_review\<close> composes them as the code does.

  A strategy is a record of its methods; the requests it makes change the state \<open>'s\<close> of the client.
  A stage's requests are judged in the order of the items: \<open>Buffered\<close> shows that the bounded
  concurrency of the code hands out the same results. \<open>log\<close> only writes to the terminal.
\<close>

section \<open>The strategy\<close>

record 'f Screening =
  scr_file :: 'f
  scr_probabilities :: Probabilities
  scr_dropped :: ContextDrops

record 'f Discovery =
  di_files :: "'f list"
  di_context_files :: "'f list"

record ('f, 's) ReviewStrategy =
  st_mode :: ReviewMode
  st_subject :: string
  st_path :: "'f \<Rightarrow> string"
  st_json :: "'f \<Rightarrow> json"
  st_tier_state :: "'f \<Rightarrow> json option"
  st_context_around :: "'f \<Rightarrow> nat \<Rightarrow> json"
  st_test_context :: "'f \<Rightarrow> 'f list \<Rightarrow> json"
  st_neighbor_context :: "string \<Rightarrow> 's \<Rightarrow> json"
  st_discover :: "string list \<Rightarrow> 's \<Rightarrow> 'f Discovery result \<times> 's"
  st_prepass :: "string list \<Rightarrow> 'f Discovery \<Rightarrow> 's \<Rightarrow> unit result \<times> 's"
  st_screen :: "'f \<Rightarrow> 'f list \<Rightarrow> 's \<Rightarrow> 'f Screening result \<times> 's"
  st_profile :: "'f \<Rightarrow> Probabilities \<Rightarrow> 's \<Rightarrow> FileProfile result \<times> 's"
  st_locate :: "'f Signal \<Rightarrow> 's \<Rightarrow> Finding option result \<times> 's"
  st_suggestions :: "Finding \<Rightarrow> 's \<Rightarrow> (string option \<times> string option) result \<times> 's"
  st_ask :: "'s service"
  st_budget_summary :: "'s \<Rightarrow> BudgetSummary"
  st_usage_summary :: "'s \<Rightarrow> UsageSummary"
  st_redaction_summary :: "'s \<Rightarrow> (string \<times> nat) list"
  st_model_identity :: "'s \<Rightarrow> string"
  st_index_stats :: "'s \<Rightarrow> IndexStats"

text \<open>What a run reads from its surroundings: environment variables, the report history and
  \<open>git log\<close> for the priorities, the declaration pattern, and SHA-256.\<close>

record Surroundings =
  sur_concurrency :: "string option"
  sur_context_budget :: "string option"
  sur_history :: "ReviewReport list option"
  sur_git_log :: "string option"
  sur_decl :: "bool \<Rightarrow> string \<Rightarrow> bool"
  sur_digest :: "string \<Rightarrow> 8 word list"
  sur_inventory_digest :: "json \<Rightarrow> string"

record ReviewOptions =
  ro_auxiliary :: bool
  ro_max_follow_ups :: "nat option"
  ro_follow_up_strategy :: FollowUpStrategy
  ro_threshold_overrides :: Probabilities
  ro_test_plans :: bool
  ro_specs :: "SpecInputs option"
  ro_refine :: bool
  ro_feedback :: FeedbackLog
  ro_allow_empty :: bool
  ro_tiered :: bool
  ro_shard :: "Shard option"

definition default_options :: ReviewOptions where
  "default_options = \<lparr>ro_auxiliary = False, ro_max_follow_ups = None, ro_follow_up_strategy = Probability,
     ro_threshold_overrides = Map.empty, ro_test_plans = False, ro_specs = None, ro_refine = True,
     ro_feedback = \<lparr>fl_entries = []\<rparr>, ro_allow_empty = False, ro_tiered = False, ro_shard = None\<rparr>"

section \<open>Stages that tolerate failures\<close>

definition CIRCUIT_BREAKER :: nat where "CIRCUIT_BREAKER = 5"
definition MAX_SKIP_REASON_CHARS :: nat where "MAX_SKIP_REASON_CHARS = 300"

text \<open>The text of an error (\<open>{:#}\<close>) and the shortened reason of a skipped request.\<close>

fun error_text :: "momus_error \<Rightarrow> string" where
  "error_text (Msg m) = m"
| "error_text BudgetExhausted = ''budget_exhausted: request queued for a cached rerun''"

definition skip_reason :: "momus_error \<Rightarrow> string" where
  "skip_reason e = chars_take MAX_SKIP_REASON_CHARS (error_text e)"

definition skip :: "ReviewStage \<Rightarrow> string \<Rightarrow> momus_error \<Rightarrow> SkippedFile" where
  "skip stage file e = \<lparr>sk_file = file, sk_stage = stage, sk_reason = skip_reason e\<rparr>"

definition breaker_error :: "ReviewStage \<Rightarrow> momus_error \<Rightarrow> momus_error" where
  "breaker_error stage e =
     Msg (''the first '' @ show_nat CIRCUIT_BREAKER @ '' '' @ stage_key stage @
          '' requests all failed; stopping instead of sending the rest: '' @ error_text e)"

fun tolerate_loop ::
  "ReviewStage \<Rightarrow> bool \<Rightarrow> (string \<times> 'o result) list \<Rightarrow> 'o list \<Rightarrow> nat \<Rightarrow> SkippedFile list \<Rightarrow>
    'o list result \<times> SkippedFile list" where
  "tolerate_loop stage breaker [] kept failures skipped = (Inr kept, skipped)"
| "tolerate_loop stage breaker ((file, Inr v) # rest) kept failures skipped =
     tolerate_loop stage breaker rest (kept @ [v]) failures skipped"
| "tolerate_loop stage breaker ((file, Inl e) # rest) kept failures skipped =
     (let failures' = (if e = BudgetExhausted then failures else failures + 1);
          skipped' = skipped @ [skip stage file e]
      in if breaker \<and> kept = [] \<and> CIRCUIT_BREAKER \<le> failures'
         then (Inl (breaker_error stage e), skipped')
         else tolerate_loop stage breaker rest kept failures' skipped')"

definition tolerate ::
  "ReviewStage \<Rightarrow> bool \<Rightarrow> (string \<times> 'o result) list \<Rightarrow> SkippedFile list \<Rightarrow> 'o list result \<times> SkippedFile list" where
  "tolerate stage breaker results skipped = tolerate_loop stage breaker results [] 0 skipped"

definition run_stage ::
  "('t \<Rightarrow> 's \<Rightarrow> (string \<times> 'o result) \<times> 's) \<Rightarrow> ReviewStage \<Rightarrow> 't list \<Rightarrow> SkippedFile list \<Rightarrow> 's \<Rightarrow>
    ('o list result \<times> SkippedFile list) \<times> 's" where
  "run_stage request stage items skipped s =
     (case traverse request (take CIRCUIT_BREAKER items) s of
        (probe, s1) \<Rightarrow>
          (case tolerate stage True probe skipped of
             (Inl e, skipped1) \<Rightarrow> ((Inl e, skipped1), s1)
           | (Inr kept, skipped1) \<Rightarrow>
               let rest = drop CIRCUIT_BREAKER items in
               if rest = [] then ((Inr kept, skipped1), s1)
               else case traverse request rest s1 of
                   (results, s2) \<Rightarrow>
                     (case tolerate stage False results skipped1 of
                        (Inl e, skipped2) \<Rightarrow> ((Inl e, skipped2), s2)
                      | (Inr kept2, skipped2) \<Rightarrow> ((Inr (kept @ kept2), skipped2), s2))))"

section \<open>Options\<close>

fun apply_overrides :: "(Dimension \<times> f64) list \<Rightarrow> Probabilities \<Rightarrow> Probabilities result" where
  "apply_overrides [] tuned = Inr tuned"
| "apply_overrides ((d, t) # rest) tuned =
     (if \<not> is_finite t \<or> \<not> in_unit t
      then Inl (Msg (dimension_key d @ '' threshold must be finite and from 0 to 1''))
      else apply_overrides rest (tuned(d \<mapsto> t)))"

definition check_options :: "ReviewOptions \<Rightarrow> Probabilities result" where
  "check_options opts =
     and_then (ensure (\<not> ro_auxiliary opts)
       ''local auxiliary evidence must be attached after source-review identity binding; run_review cannot consume it'') (\<lambda>_.
     and_then (ensure (\<not> (ro_shard opts \<noteq> None \<and>
         (ro_test_plans opts \<or> ro_specs opts \<noteq> None \<or> ro_follow_up_strategy opts = Voi)))
       ''test plans, spec checks and VOI require a global, unsharded review'') (\<lambda>_.
     and_then (ensure (\<not> (ro_tiered opts \<and> ro_specs opts \<noteq> None))
       ''spec checks cannot omit Tier-0 dismissed files'') (\<lambda>_.
       apply_overrides (prob_entries (ro_threshold_overrides opts)) (thresholds (ro_feedback opts)))))"

definition concurrency_from_env :: "string option \<Rightarrow> nat result" where
  "concurrency_from_env var =
     (case var of
        None \<Rightarrow> Inr CONCURRENCY
      | Some raw \<Rightarrow> if trim raw \<noteq> [] then parse_positive ''MOMUS_CONCURRENCY'' raw else Inr CONCURRENCY)"

section \<open>The inventory\<close>

definition inventory_key :: "(json \<Rightarrow> string) \<Rightarrow> ('f \<Rightarrow> string) \<Rightarrow> ('f \<Rightarrow> json) \<Rightarrow> 'f list \<Rightarrow> 'f list \<Rightarrow> string" where
  "inventory_key digest path to_json files context =
     (let sorted = (\<lambda>values. JArr (map (\<lambda>(p, v). JArr [JStr p, v])
            (sort_by (\<lambda>a b. cmp (fst a) (fst b)) (map (\<lambda>f. (path f, to_json f)) values))))
      in digest (JArr [sorted files, sorted context]))"

definition shard_metadata ::
  "Surroundings \<Rightarrow> ('f, 's) ReviewStrategy \<Rightarrow> ReviewOptions \<Rightarrow> 'f Discovery \<Rightarrow> 's \<Rightarrow> ShardMetadata option" where
  "shard_metadata sur st opts disc s =
     map_option (\<lambda>shard.
       \<lparr>sh_index = sh_number shard, sh_count = sh_total shard,
        sh_inventory_key = inventory_key (sur_inventory_digest sur) (st_path st) (st_json st)
          (di_files disc) (di_context_files disc),
        sh_expected_paths = map (st_path st) (di_files disc), sh_refine = ro_refine opts,
        sh_model = st_model_identity st s\<rparr>) (ro_shard opts)"

definition review_files ::
  "Surroundings \<Rightarrow> ('f, 's) ReviewStrategy \<Rightarrow> ReviewOptions \<Rightarrow> 'f Discovery \<Rightarrow> 's \<Rightarrow> 'f list" where
  "review_files sur st opts disc s =
     (let files = (case ro_shard opts of
            None \<Rightarrow> di_files disc
          | Some shard \<Rightarrow> filter (\<lambda>f. shard_contains (sur_digest sur) shard (st_path st f)) (di_files disc))
      in if bs_limit (st_budget_summary st s) \<noteq> None \<or> ro_tiered opts
         then prioritize (st_path st) (sur_history sur) (sur_git_log sur) files else files)"

section \<open>Tier 0\<close>

definition tier_question :: json where
  "tier_question =
     obj [(''concern'', noul
       (JStr ''Does this file contain any correctness, security, reliability, compatibility, or test-coverage concern worth a detailed review? Inspect all behavior; favor review when uncertain.'')
       (obj [(''true'', JStr ''Any plausible concern needing detailed review''),
             (''false'', JStr ''No concern warrants review'')]))]"

definition tier_answer :: "('f, 's) ReviewStrategy \<Rightarrow> 'f \<Rightarrow> 's \<Rightarrow> ('f \<times> f64 result option) \<times> 's" where
  "tier_answer st file s =
     (case st_tier_state st file of
        None \<Rightarrow> ((file, None), s)
      | Some state \<Rightarrow>
          case st_ask st state tier_question s of
            (res, s') \<Rightarrow> ((file, Some (and_then res (\<lambda>a. resp_noul a ''concern''))), s'))"

definition dismisses :: "f64 result option \<Rightarrow> bool" where
  "dismisses verdict = (case verdict of Some (Inr p) \<Rightarrow> p < Fin 0.05 | _ \<Rightarrow> False)"

definition tier_zero :: "('f, 's) ReviewStrategy \<Rightarrow> 'f list \<Rightarrow> 's \<Rightarrow> ('f list \<times> TierSummary) \<times> 's" where
  "tier_zero st files s =
     (case traverse (tier_answer st) files s of
        (answers, s') \<Rightarrow>
          ((map fst (filter (\<lambda>(_, a). \<not> dismisses a) answers),
            \<lparr>ti_screened = length (filter (\<lambda>(_, a). a \<noteq> None) answers),
             ti_dismissed = map (\<lambda>(f, _). st_path st f) (filter (\<lambda>(_, a). dismisses a) answers)\<rparr>), s'))"

section \<open>Screening and ranking\<close>

definition screen_request ::
  "('f, 's) ReviewStrategy \<Rightarrow> 'f list \<Rightarrow> 'f \<Rightarrow> 's \<Rightarrow> (string \<times> 'f Screening result) \<times> 's" where
  "screen_request st context file s =
     (case st_screen st file context s of (r, s') \<Rightarrow> ((st_path st file, r), s'))"

definition screen_stage ::
  "('f, 's) ReviewStrategy \<Rightarrow> 'f list \<Rightarrow> 'f list \<Rightarrow> 's \<Rightarrow> ('f Screening list \<times> SkippedFile list) result \<times> 's" where
  "screen_stage st context files s =
     (case run_stage (screen_request st context) Screen files [] s of
        ((Inl e, _), s') \<Rightarrow> (Inl (Msg (''Screening failed: '' @ error_text e)), s')
      | ((Inr matrix, skipped), s') \<Rightarrow>
          if matrix = [] \<and> bs_deferred (st_budget_summary st s') = 0
          then (Inl (Msg (''Screening failed for every file: '' @
                 (case skipped of [] \<Rightarrow> [] | sk # _ \<Rightarrow> sk_reason sk))), s')
          else (Inr (matrix, skipped), s'))"

definition signals_of :: "Probabilities \<Rightarrow> 'f Screening list \<Rightarrow> 'f Signal list" where
  "signals_of tuned matrix =
     concat (map (\<lambda>sc. List.map_filter (\<lambda>(d, p).
       if (case tuned d of Some t \<Rightarrow> t | None \<Rightarrow> SCREEN_THRESHOLD) \<le> p
       then Some \<lparr>sg_file = scr_file sc, sg_dimension = d, sg_probability = p\<rparr> else None)
       (prob_entries (scr_probabilities sc))) matrix)"

definition signal_cmp :: "('f \<Rightarrow> string) \<Rightarrow> 'f Signal \<Rightarrow> 'f Signal \<Rightarrow> ordering" where
  "signal_cmp path a b =
     then_cmp (then_cmp (partial_cmp_or_equal (sg_probability b) (sg_probability a))
       (cmp (path (sg_file a)) (path (sg_file b))))
       (cmp (dimension_key (sg_dimension a)) (dimension_key (sg_dimension b)))"

definition ranked_signals :: "('f \<Rightarrow> string) \<Rightarrow> Probabilities \<Rightarrow> 'f Screening list \<Rightarrow> 'f Signal list" where
  "ranked_signals path tuned matrix = sort_by (signal_cmp path) (signals_of tuned matrix)"

definition max_probability :: "'f Screening \<Rightarrow> f64" where
  "max_probability sc = foldl f64_max NegInf (prob_values (scr_probabilities sc))"

section \<open>Profiles\<close>

definition profile_candidates :: "bool \<Rightarrow> 'f Screening list \<Rightarrow> 'f Screening list" where
  "profile_candidates skip_optional matrix =
     (if skip_optional then []
      else take MAX_PROFILES
             (sort_by (\<lambda>a b. partial_cmp_or_equal (max_probability b) (max_probability a)) matrix))"

definition profile_request ::
  "('f, 's) ReviewStrategy \<Rightarrow> 'f Screening \<Rightarrow> 's \<Rightarrow> (string \<times> FileProfile result) \<times> 's" where
  "profile_request st sc s =
     (case st_profile st (scr_file sc) (scr_probabilities sc) s of (r, s') \<Rightarrow> ((st_path st (scr_file sc), r), s'))"

definition profile_stage ::
  "('f, 's) ReviewStrategy \<Rightarrow> 'f Screening list \<Rightarrow> SkippedFile list \<Rightarrow> 's \<Rightarrow>
    (FileProfile list \<times> SkippedFile list) \<times> 's" where
  "profile_stage st cands skipped s =
     (case run_stage (profile_request st) Profile cands skipped s of
        ((Inl _, skipped'), s') \<Rightarrow> (([], skipped'), s')
      | ((Inr profiles, skipped'), s') \<Rightarrow> ((profiles, skipped'), s'))"

section \<open>Follow-ups\<close>

definition follow_ups ::
  "ReviewOptions \<Rightarrow> ('f \<Rightarrow> string) \<Rightarrow> Probabilities \<Rightarrow> bool \<Rightarrow> 'f Signal list \<Rightarrow> 'f Signal list \<times> VoiSummary option" where
  "follow_ups opts path tuned skip_optional signals =
     (case ro_follow_up_strategy opts of
        Probability \<Rightarrow> (select_follow_ups signals (ro_max_follow_ups opts), None)
      | Voi \<Rightarrow> (case voi_select path signals (ro_max_follow_ups opts) tuned skip_optional of
                  (selected, plan) \<Rightarrow> (selected, Some plan)))"

definition locate_request ::
  "('f, 's) ReviewStrategy \<Rightarrow> 'f Signal \<Rightarrow> 's \<Rightarrow> (string \<times> Finding option result) \<times> 's" where
  "locate_request st signal s =
     (case st_locate st signal s of
        (r, s') \<Rightarrow> ((st_path st (sg_file signal) @ '' ['' @ dimension_key (sg_dimension signal) @ '']'', r), s'))"

definition suppress :: "string set \<Rightarrow> Finding list \<Rightarrow> Finding list" where
  "suppress hidden findings =
     filter (\<lambda>f. f_fingerprint f \<notin> hidden) (map (\<lambda>f. f\<lparr>f_fingerprint := fingerprint f\<rparr>) findings)"

section \<open>Specification checks\<close>

definition spec_stage ::
  "Surroundings \<Rightarrow> ('f, 's) ReviewStrategy \<Rightarrow> SpecInputs option \<Rightarrow> 'f list \<Rightarrow> 's \<Rightarrow> SpecSummary option \<times> 's" where
  "spec_stage sur st specs files s =
     (case specs of
        None \<Rightarrow> (None, s)
      | Some si \<Rightarrow>
          case traverse (\<lambda>file s.
                 case assess_file (sur_context_budget sur) (sur_decl sur) (st_ask st) si (st_json st file) s of
                   (Inr sc, s') \<Rightarrow> (sc, s')
                 | (Inl e, s') \<Rightarrow> (check_deferred (st_path st file) (skip_reason e), s')) files s of
            (checks, s') \<Rightarrow> (Some \<lparr>ss_documents = si_documents si, ss_checks = checks\<rparr>, s'))"

definition spec_incomplete :: "SpecSummary option \<Rightarrow> bool" where
  "spec_incomplete drift =
     (case drift of
        None \<Rightarrow> False
      | Some sm \<Rightarrow> list_ex (\<lambda>c. sc_status c = Deferred \<or> sc_status c = Uncertain) (ss_checks sm))"

section \<open>Finishing the findings\<close>

text \<open>\<open>files\<close>, the map from the path to the screened file, from the matrix.\<close>

definition file_map :: "('f \<Rightarrow> string) \<Rightarrow> 'f Screening list \<Rightarrow> string \<rightharpoonup> 'f" where
  "file_map path matrix = foldl (\<lambda>m sc. m(path (scr_file sc) \<mapsto> scr_file sc)) Map.empty matrix"

definition opt_json :: "json option \<Rightarrow> json" where
  "opt_json v = (case v of None \<Rightarrow> JNull | Some j \<Rightarrow> j)"

definition finding_context :: "('f, 's) ReviewStrategy \<Rightarrow> (string \<rightharpoonup> 'f) \<Rightarrow> 's \<Rightarrow> Finding \<Rightarrow> json" where
  "finding_context st files s f =
     obj [(''fileContext'', opt_json (map_option (\<lambda>file. st_context_around st file (f_line f)) (files (f_file f)))),
          (''neighbors'', st_neighbor_context st (f_file f) s)]"

definition finding_cmp :: "Finding \<Rightarrow> Finding \<Rightarrow> ordering" where
  "finding_cmp a b =
     then_cmp (then_cmp (then_cmp (cmp (f_file a) (f_file b)) (cmp (f_line a) (f_line b)))
       (cmp (dimension_key (f_dimension a)) (dimension_key (f_dimension b))))
       (cmp (f_mechanism a) (f_mechanism b))"

definition suggest :: "('f, 's) ReviewStrategy \<Rightarrow> Finding \<Rightarrow> 's \<Rightarrow> (string option \<times> string option) \<times> 's" where
  "suggest st f s =
     (case st_suggestions st f s of
        (Inr suggestions, s') \<Rightarrow> (suggestions, s')
      | (Inl _, s') \<Rightarrow> ((None, None), s'))"

definition enrich :: "('f, 's) ReviewStrategy \<Rightarrow> Finding list \<Rightarrow> 's \<Rightarrow> Finding list \<times> 's" where
  "enrich st findings0 s =
     (let findings = map apply_context findings0 in
      case traverse (suggest st) (take MAX_ENRICH findings) s of
        (suggestions, s') \<Rightarrow>
          (map (\<lambda>(f, fix_text, test). f\<lparr>f_fix := fix_text, f_test := test\<rparr>) (zip findings suggestions)
             @ drop (length suggestions) findings, s'))"

definition default_refine_counts :: RefineCounts where
  "default_refine_counts = \<lparr>rc_clustered = 0, rc_exonerated = 0, rc_needs_human = 0\<rparr>"

definition finish_findings ::
  "('f, 's) ReviewStrategy \<Rightarrow> (string \<rightharpoonup> 'f) \<Rightarrow> Finding list \<Rightarrow> bool \<Rightarrow> 's \<Rightarrow> (Finding list \<times> RefineCounts) \<times> 's" where
  "finish_findings st files findings0 refining s =
     (let findings = sort_by finding_cmp findings0 in
      case (if refining \<and> findings \<noteq> [] then refine (st_ask st) (finding_context st files s) findings s
            else ((sort_by_severity findings, default_refine_counts), s)) of
        ((findings1, counts), s1) \<Rightarrow>
          case enrich st findings1 s1 of (findings2, s2) \<Rightarrow> ((findings2, counts), s2))"

text \<open>\<open>left\<close> plans may still be attached.\<close>

fun attach_test_plans ::
  "Surroundings \<Rightarrow> ('f, 's) ReviewStrategy \<Rightarrow> (string \<rightharpoonup> 'f) \<Rightarrow> 'f list \<Rightarrow> nat \<Rightarrow> Finding list \<Rightarrow>
    SkippedFile list \<Rightarrow> 's \<Rightarrow> (Finding list \<times> SkippedFile list) \<times> 's" where
  "attach_test_plans sur st files tests left [] skipped s = (([], skipped), s)"
| "attach_test_plans sur st files tests left (f # fs) skipped s =
     (if left = 0 \<or> \<not> should_plan f then
        case attach_test_plans sur st files tests left fs skipped s of
          ((gs, skipped'), s') \<Rightarrow> ((f # gs, skipped'), s')
      else
        let file = files (f_file f);
            context = obj
              [(''fileContext'', opt_json (map_option (\<lambda>file. st_context_around st file (f_line f)) file)),
               (''relatedTests'', opt_json (map_option (\<lambda>file. st_test_context st file tests) file)),
               (''neighbors'', st_neighbor_context st (f_file f) s)]
        in case test_plan (sur_context_budget sur) (st_ask st) f context s of
             (res, s1) \<Rightarrow>
               let (f', skipped1) = (case res of
                     Inr p \<Rightarrow> (f\<lparr>f_test_plan := p\<rparr>, skipped)
                   | Inl e \<Rightarrow> (f, skipped @ [skip TestPlanStage (f_file f) e]))
               in case attach_test_plans sur st files tests (left - 1) fs skipped1 s1 of
                    ((gs, skipped'), s') \<Rightarrow> ((f' # gs, skipped'), s'))"

section \<open>The report\<close>

definition config_snapshot :: "ReviewOptions \<Rightarrow> Probabilities \<Rightarrow> ConfigSnapshot" where
  "config_snapshot opts tuned =
     \<lparr>cs_screen_threshold = SCREEN_THRESHOLD, cs_screen_thresholds = tuned,
      cs_severity_max = SEVERITY_MAX, cs_max_follow_ups = ro_max_follow_ups opts,
      cs_max_profiles = MAX_PROFILES, cs_follow_up_strategy = ro_follow_up_strategy opts\<rparr>"

definition scope_label :: "string list \<Rightarrow> string" where
  "scope_label scopes = join '' '' scopes"

definition empty_inventory_report ::
  "('f, 's) ReviewStrategy \<Rightarrow> ReviewOptions \<Rightarrow> string list \<Rightarrow> Probabilities \<Rightarrow> ShardMetadata option \<Rightarrow> 'f list \<Rightarrow> ReviewReport" where
  "empty_inventory_report st opts scopes tuned shard context_files =
     default_report\<lparr>r_mode := st_mode st, r_scope := scope_label scopes, r_dimensions := dimension_metadata,
       r_config := config_snapshot opts tuned, r_shard := shard, r_partial := shard \<noteq> None,
       r_spec_drift := map_option (\<lambda>si. \<lparr>ss_documents = si_documents si, ss_checks = []\<rparr>) (ro_specs opts),
       r_context_files := map (st_path st) context_files\<rparr>"

definition with_model :: "('f, 's) ReviewStrategy \<Rightarrow> 's \<Rightarrow> ShardMetadata option \<Rightarrow> ShardMetadata option" where
  "with_model st s shard = map_option (\<lambda>m. m\<lparr>sh_model := st_model_identity st s\<rparr>) shard"

definition dismissed_report ::
  "('f, 's) ReviewStrategy \<Rightarrow> ReviewOptions \<Rightarrow> string list \<Rightarrow> Probabilities \<Rightarrow> ShardMetadata option \<Rightarrow> TierSummary \<Rightarrow>
    'f list \<Rightarrow> 's \<Rightarrow> ReviewReport" where
  "dismissed_report st opts scopes tuned shard tier context_files s =
     default_report\<lparr>r_mode := st_mode st, r_scope := scope_label scopes, r_tier := tier,
       r_shard := with_model st s shard, r_usage := st_usage_summary st s, r_budget := st_budget_summary st s,
       r_dimensions := dimension_metadata, r_config := config_snapshot opts tuned,
       r_index := st_index_stats st s, r_redactions := st_redaction_summary st s,
       r_context_files := map (st_path st) context_files, r_partial := True\<rparr>"

definition total_drops :: "'f Screening list \<Rightarrow> Finding list \<Rightarrow> ContextDrops" where
  "total_drops matrix findings =
     add_drops (foldl add_drops \<lparr>cd_chars = 0, cd_items = 0\<rparr> (map scr_dropped matrix))
       (foldl add_drops \<lparr>cd_chars = 0, cd_items = 0\<rparr>
          (map tp_context_drops (List.map_filter f_test_plan findings)))"

definition matrix_rows :: "('f \<Rightarrow> string) \<Rightarrow> 'f Screening list \<Rightarrow> MatrixRow list" where
  "matrix_rows path matrix =
     map (\<lambda>sc. \<lparr>mr_file = path (scr_file sc), mr_probabilities = scr_probabilities sc\<rparr>) matrix"

text \<open>What the stages after screening hand to the report.\<close>

record Stages =
  sg_threshold_signals :: nat
  sg_followed :: nat
  sg_profiles :: "FileProfile list"
  sg_follow_up_plan :: "VoiSummary option"
  sg_located :: nat
  sg_suppressed :: nat
  sg_spec_drift :: "SpecSummary option"
  sg_counts :: RefineCounts
  sg_findings :: "Finding list"
  sg_skipped :: "SkippedFile list"

definition is_partial :: "ReviewOptions \<Rightarrow> Stages \<Rightarrow> BudgetSummary \<Rightarrow> TierSummary \<Rightarrow> bool" where
  "is_partial opts g budget tier \<longleftrightarrow>
     ro_shard opts \<noteq> None \<or> spec_incomplete (sg_spec_drift g) \<or> sg_followed g < sg_threshold_signals g \<or>
     0 < bs_deferred budget \<or> sg_skipped g \<noteq> [] \<or> ti_dismissed tier \<noteq> []"

definition workflow_counts :: "'f Screening list \<Rightarrow> Stages \<Rightarrow> WorkflowCounts" where
  "workflow_counts matrix g =
     (let drops = total_drops matrix (sg_findings g) in
      \<lparr>wc_screened_cells = length matrix * length DIMENSIONS, wc_threshold_signals = sg_threshold_signals g,
       wc_profiled_files = length (sg_profiles g), wc_followed_signals = sg_followed g,
       wc_located_findings = sg_located g,
       wc_routed_findings = length (filter (\<lambda>f. f_owner f \<noteq> None) (sg_findings g)),
       wc_suppressed_findings = sg_suppressed g, wc_clustered_findings = rc_clustered (sg_counts g),
       wc_exonerated_findings = rc_exonerated (sg_counts g),
       wc_needs_human_findings = rc_needs_human (sg_counts g),
       wc_dropped_context_chars = cd_chars drops, wc_dropped_context_items = cd_items drops\<rparr>)"

definition final_report ::
  "('f, 's) ReviewStrategy \<Rightarrow> ReviewOptions \<Rightarrow> string list \<Rightarrow> Probabilities \<Rightarrow> ShardMetadata option \<Rightarrow> TierSummary \<Rightarrow>
    'f list \<Rightarrow> 'f Screening list \<Rightarrow> Stages \<Rightarrow> 's \<Rightarrow> ReviewReport" where
  "final_report st opts scopes tuned shard tier context_files matrix g s =
     default_report\<lparr>r_mode := st_mode st, r_scope := scope_label scopes, r_dimensions := dimension_metadata,
       r_config := config_snapshot opts tuned, r_budget := st_budget_summary st s,
       r_follow_up_plan := sg_follow_up_plan g, r_spec_drift := sg_spec_drift g,
       r_shard := with_model st s shard, r_partial := is_partial opts g (st_budget_summary st s) tier,
       r_tier := tier, r_screened_files := length matrix, r_context_files := map (st_path st) context_files,
       r_matrix := matrix_rows (st_path st) matrix, r_followed_signals := sg_followed g,
       r_profiles := sg_profiles g, r_workflow := workflow_counts matrix g,
       r_usage := st_usage_summary st s, r_index := st_index_stats st s,
       r_redactions := st_redaction_summary st s, r_skipped := sg_skipped g, r_findings := sg_findings g,
       r_p_revert := (if ro_shard opts \<noteq> None then Fin 0
                      else p_revert (sg_findings g) (matrix_rows (st_path st) matrix))\<rparr>"

section \<open>The review\<close>

definition after_screening ::
  "Surroundings \<Rightarrow> ('f, 's) ReviewStrategy \<Rightarrow> ReviewOptions \<Rightarrow> Probabilities \<Rightarrow> 'f list \<Rightarrow> 'f list \<Rightarrow>
    'f Screening list \<Rightarrow> SkippedFile list \<Rightarrow> 's \<Rightarrow> Stages result \<times> 's" where
  "after_screening sur st opts tuned context_files spec_files matrix skipped s =
     (let signals = ranked_signals (st_path st) tuned matrix;
          skip_optional = (ro_follow_up_strategy opts = Voi \<and> bs_limit (st_budget_summary st s) \<noteq> None);
          files = file_map (st_path st) matrix
      in case profile_stage st (profile_candidates skip_optional matrix) skipped s of
           ((profiles, skipped1), s1) \<Rightarrow>
         case follow_ups opts (st_path st) tuned skip_optional signals of
           (followed, plan) \<Rightarrow>
         case run_stage (locate_request st) Locate followed skipped1 s1 of
           ((Inl e, _), s2) \<Rightarrow> (Inl e, s2)
         | ((Inr located, skipped2), s2) \<Rightarrow>
             let found = List.map_filter id located; shown = suppress (suppressed (ro_feedback opts)) found in
             case spec_stage sur st (ro_specs opts) spec_files s2 of
               (spec_drift, s3) \<Rightarrow>
             case (if ro_shard opts = None then finish_findings st files shown (ro_refine opts) s3
                   else ((shown, default_refine_counts), s3)) of
               ((finished, counts), s4) \<Rightarrow>
             case (if ro_test_plans opts
                   then attach_test_plans sur st files context_files MAX_TEST_PLANS finished skipped2 s4
                   else ((finished, skipped2), s4)) of
               ((findings, skipped3), s5) \<Rightarrow>
                 (Inr \<lparr>sg_threshold_signals = length signals, sg_followed = length followed,
                        sg_profiles = profiles, sg_follow_up_plan = plan, sg_located = length found,
                        sg_suppressed = length found - length shown, sg_spec_drift = spec_drift,
                        sg_counts = counts, sg_findings = findings, sg_skipped = skipped3\<rparr>, s5))"

definition review_inventory ::
  "Surroundings \<Rightarrow> ('f, 's) ReviewStrategy \<Rightarrow> ReviewOptions \<Rightarrow> string list \<Rightarrow> Probabilities \<Rightarrow> 'f Discovery \<Rightarrow>
    's \<Rightarrow> ReviewReport result \<times> 's" where
  "review_inventory sur st opts scopes tuned disc s =
     (let shard = shard_metadata sur st opts disc s;
          files = review_files sur st opts disc s;
          context_files = di_context_files disc
      in if files = [] then
           (if ro_allow_empty opts \<or> ro_shard opts \<noteq> None
            then (Inr (empty_inventory_report st opts scopes tuned shard context_files), s)
            else (Inl (Msg (''No '' @ st_subject st @ '' files found under '' @ scope_label scopes)), s))
         else
           case (if ro_tiered opts then tier_zero st files s
                 else ((files, \<lparr>ti_screened = 0, ti_dismissed = []\<rparr>), s)) of
             ((retained, tier), s1) \<Rightarrow>
               if retained = []
               then (Inr (dismissed_report st opts scopes tuned shard tier context_files s1), s1)
               else case screen_stage st context_files retained s1 of
                   (Inl e, s2) \<Rightarrow> (Inl e, s2)
                 | (Inr (matrix, skipped), s2) \<Rightarrow>
                     (case after_screening sur st opts tuned context_files files matrix skipped s2 of
                        (Inl e, s3) \<Rightarrow> (Inl e, s3)
                      | (Inr g, s3) \<Rightarrow>
                          (Inr (final_report st opts scopes tuned shard tier context_files matrix g s3), s3)))"

definition run_review ::
  "Surroundings \<Rightarrow> ('f, 's) ReviewStrategy \<Rightarrow> ReviewOptions \<Rightarrow> string list \<Rightarrow> 's \<Rightarrow> ReviewReport result \<times> 's" where
  "run_review sur st opts scopes s =
     (case and_then (check_options opts) (\<lambda>tuned.
           and_then (concurrency_from_env (sur_concurrency sur)) (\<lambda>_. Inr tuned)) of
        Inl e \<Rightarrow> (Inl e, s)
      | Inr tuned \<Rightarrow>
          (case st_discover st scopes s of
             (Inl e, s1) \<Rightarrow> (Inl e, s1)
           | (Inr disc, s1) \<Rightarrow>
               (case st_prepass st scopes disc s1 of
                  (Inl e, s2) \<Rightarrow> (Inl e, s2)
                | (Inr _, s2) \<Rightarrow> review_inventory sur st opts scopes tuned disc s2)))"

section \<open>A stage accounts for every request\<close>

fun successes :: "(string \<times> 'o result) list \<Rightarrow> 'o list" where
  "successes [] = []"
| "successes ((_, Inr v) # rest) = v # successes rest"
| "successes ((_, Inl _) # rest) = successes rest"

fun failed :: "ReviewStage \<Rightarrow> (string \<times> 'o result) list \<Rightarrow> SkippedFile list" where
  "failed stage [] = []"
| "failed stage ((_, Inr _) # rest) = failed stage rest"
| "failed stage ((file, Inl e) # rest) = skip stage file e # failed stage rest"

text \<open>A failure that is the service's: an error, but not that of the exhausted budget.\<close>

fun hard_failure :: "string \<times> 'o result \<Rightarrow> bool" where
  "hard_failure (_, Inr _) = False"
| "hard_failure (_, Inl e) = (e \<noteq> BudgetExhausted)"

definition last_error :: "(string \<times> 'o result) list \<Rightarrow> momus_error" where
  "last_error results = (case last results of (_, Inl e) \<Rightarrow> e | (_, Inr _) \<Rightarrow> BudgetExhausted)"

lemma successes_append [simp]: "successes (xs @ ys) = successes xs @ successes ys"
  by (induction xs rule: successes.induct) simp_all

lemma failed_append [simp]: "failed stage (xs @ ys) = failed stage xs @ failed stage ys"
  by (induction stage xs rule: failed.induct) simp_all

lemma accounted: "length (successes results) + length (failed stage results) = length results"
  by (induction results rule: successes.induct) simp_all

lemma tolerate_loop_through:
  "(breaker \<longrightarrow> kept \<noteq> [] \<or> \<not> list_all hard_failure results \<or> failures + length results < CIRCUIT_BREAKER) \<Longrightarrow>
   (breaker \<longrightarrow> failures + length results \<le> CIRCUIT_BREAKER) \<Longrightarrow>
     tolerate_loop stage breaker results kept failures skipped =
       (Inr (kept @ successes results), skipped @ failed stage results)"
proof (induction stage breaker results kept failures skipped rule: tolerate_loop.induct)
  case (3 stage breaker nm e rest kept failures skipped)
  let ?n = "if e = BudgetExhausted then failures else failures + 1"
  have go: "\<not> (breaker \<and> kept = [] \<and> CIRCUIT_BREAKER \<le> ?n)"
    using 3(2,3) by (cases rest) (auto split: if_splits)
  have "tolerate_loop stage breaker rest kept ?n (skipped @ [skip stage nm e]) =
      (Inr (kept @ successes rest), (skipped @ [skip stage nm e]) @ failed stage rest)"
    using 3(2,3) by (intro 3(1)) (auto simp: go split: if_splits)
  then show ?case using go by (simp add: Let_def)
next
  case (2 stage breaker nm v rest kept failures skipped)
  then show ?case by (cases breaker) simp_all
qed simp_all

lemma tolerate_loop_trips:
  "list_all hard_failure results \<Longrightarrow> results \<noteq> [] \<Longrightarrow> failures + length results = CIRCUIT_BREAKER \<Longrightarrow>
     tolerate_loop stage True results [] failures skipped =
       (Inl (breaker_error stage (last_error results)), skipped @ failed stage results)"
proof (induction results arbitrary: failures skipped)
  case (Cons x rest)
  obtain nm e where x: "x = (nm, Inl e)" "e \<noteq> BudgetExhausted"
    using Cons.prems(1) by (cases x rule: hard_failure.cases) auto
  show ?case
  proof (cases "rest = []")
    case True
    then show ?thesis using Cons.prems(3) by (simp add: x last_error_def Let_def)
  next
    case False
    then have "failures + 1 < CIRCUIT_BREAKER" using Cons.prems(3) by (cases rest) auto
    moreover have "last_error (x # rest) = last_error rest" using False by (simp add: last_error_def)
    ultimately show ?thesis using Cons.IH [of "failures + 1"] Cons.prems False by (simp add: x Let_def)
  qed
qed simp

lemma traverse_append:
  "traverse f (xs @ ys) s =
     (case traverse f xs s of (rs, s1) \<Rightarrow> case traverse f ys s1 of (rs', s2) \<Rightarrow> (rs @ rs', s2))"
  by (induction xs arbitrary: s) (simp_all add: traverse.simps(2) split: prod.split)

lemma run_stage_eq:
  "run_stage request stage items skipped s =
     (let (probe, s1) = traverse request (take CIRCUIT_BREAKER items) s;
          (results, s2) = traverse request items s
      in if CIRCUIT_BREAKER \<le> length items \<and> list_all hard_failure probe
         then ((Inl (breaker_error stage (last_error probe)), skipped @ failed stage probe), s1)
         else ((Inr (successes results), skipped @ failed stage results), s2))"
proof -
  obtain probe s1 where p: "traverse request (take CIRCUIT_BREAKER items) s = (probe, s1)" by force
  obtain rest s2 where r: "traverse request (drop CIRCUIT_BREAKER items) s1 = (rest, s2)" by force
  have all: "traverse request items s = (probe @ rest, s2)"
    using traverse_append [of request "take CIRCUIT_BREAKER items" "drop CIRCUIT_BREAKER items" s] by (simp add: p r)
  have len: "length probe = min CIRCUIT_BREAKER (length items)"
    using traverse_length [of request "take CIRCUIT_BREAKER items" s] by (simp add: p min.commute)
  show ?thesis
  proof (cases "CIRCUIT_BREAKER \<le> length items \<and> list_all hard_failure probe")
    case True
    then have "tolerate stage True probe skipped =
        (Inl (breaker_error stage (last_error probe)), skipped @ failed stage probe)"
      unfolding tolerate_def using len by (intro tolerate_loop_trips) (auto simp: CIRCUIT_BREAKER_def)
    then show ?thesis using True by (simp add: run_stage_def p all)
  next
    case False
    then have 1: "tolerate stage True probe skipped = (Inr (successes probe), skipped @ failed stage probe)"
      unfolding tolerate_def using len by (subst tolerate_loop_through) auto
    have 2: "tolerate stage False rest sk = (Inr (successes rest), sk @ failed stage rest)" for sk
      unfolding tolerate_def by (subst tolerate_loop_through) auto
    have "rest = [] \<and> s2 = s1" if "drop CIRCUIT_BREAKER items = []" using r that by simp
    then show ?thesis using False by (auto simp: run_stage_def p all r 1 2 Let_def)
  qed
qed

text \<open>
  C9. A stage loses no request: with the results of the requests in order, it returns the successes
  and records each failure as skipped; unless the first \<open>CIRCUIT_BREAKER\<close> requests all fail and not
  for want of budget. Then no further request is sent, and the stage ends with the last error, those
  failures recorded.
\<close>

theorem run_stage_reference:
  "run_stage request stage items skipped s =
     (let (probe, s1) = traverse request (take CIRCUIT_BREAKER items) s;
          (results, s2) = traverse request items s
      in if CIRCUIT_BREAKER \<le> length items \<and> list_all hard_failure probe
         then ((Inl (breaker_error stage (last_error probe)), skipped @ failed stage probe), s1)
         else ((Inr (successes results), skipped @ failed stage results), s2))"
  by (rule run_stage_eq)

section \<open>The report accounts for every finding\<close>

lemma survives_pred:
  "survives R n fs out \<Longrightarrow> (\<And>f g. R f g \<Longrightarrow> P f \<Longrightarrow> P g) \<Longrightarrow> list_all P fs \<Longrightarrow> list_all P out"
proof -
  assume "survives R n fs out" and step: "\<And>f g. R f g \<Longrightarrow> P f \<Longrightarrow> P g" and all: "list_all P fs"
  then obtain kept gone xs ys where m: "mset fs = kept + gone" "mset xs = kept" "mset ys = mset out" "list_all2 R xs ys"
    by (auto simp: survives_def rel_mset_def)
  have "set xs \<subseteq> set fs" by (metis m(1,2) set_mset_mono set_mset_mset subset_eq_diff_conv mset_subset_eq_add_left)
  then have "list_all P xs" using all by (auto simp: list_all_iff)
  with m(4) have "list_all P ys" by (induction rule: list_all2_induct) (auto intro: step)
  then show "list_all P out" using m(3) by (metis list_all_iff mset_eq_setD)
qed

lemma refine_fingerprints:
  assumes "refine ask context fs s = ((out, counts), s')"
  shows "length fs = length out + rc_clustered counts + rc_exonerated counts"
    "list_all (\<lambda>f. P (f_fingerprint f)) fs \<Longrightarrow> list_all (\<lambda>f. P (f_fingerprint f)) out"
proof -
  note sv = refine_survives [OF assms]
  show "length fs = length out + rc_clustered counts + rc_exonerated counts" using survives_length [OF sv] by simp
  have core: "f_fingerprint g = f_fingerprint f" if "refined f g" for f g
  proof -
    have "f_fingerprint (core g) = f_fingerprint (core f)" using that by (simp add: refined_def)
    then show ?thesis by (simp add: core_def)
  qed
  show "list_all (\<lambda>f. P (f_fingerprint f)) out" if "list_all (\<lambda>f. P (f_fingerprint f)) fs"
    by (rule survives_pred [OF sv _ that]) (simp add: core)
qed

lemma enrich_keeps:
  "map f_fingerprint (fst (enrich st fs s)) = map f_fingerprint fs"
proof -
  obtain sg s' where sg: "traverse (suggest st) (take MAX_ENRICH (map apply_context fs)) s = (sg, s')" by force
  have len: "length sg = min MAX_ENRICH (length fs)"
    using traverse_length [of "suggest st" "take MAX_ENRICH (map apply_context fs)" s] by (simp add: sg min.commute)
  have zipped: "length sg' \<le> length gs \<Longrightarrow> map f_fingerprint (map (\<lambda>(f, fix_text, test). f\<lparr>f_fix := fix_text, f_test := test\<rparr>) (zip gs sg')
      @ drop (length sg') gs) = map f_fingerprint gs" for gs sg'
    by (induction gs sg' rule: list_induct2') auto
  have "f_fingerprint (apply_context f) = f_fingerprint f" for f by (simp add: apply_context_def)
  then show ?thesis using zipped [of sg "map apply_context fs"] len by (simp add: enrich_def Let_def sg comp_def)
qed

lemma attach_keeps:
  "attach_test_plans sur st files tests left fs skipped s = ((gs, skipped'), s') \<Longrightarrow>
     map f_fingerprint gs = map f_fingerprint fs \<and> prefix skipped skipped'"
proof (induction fs arbitrary: left skipped s gs)
  case (Cons f fs)
  then show ?case
    by (fastforce simp: Let_def split: if_splits prod.splits sum.splits dest: append_prefixD)
qed simp

lemma finish_accounts:
  assumes "finish_findings st files fs refining s = ((out, counts), s')"
  shows "length fs = length out + rc_clustered counts + rc_exonerated counts"
    "list_all (\<lambda>f. P (f_fingerprint f)) fs \<Longrightarrow> list_all (\<lambda>f. P (f_fingerprint f)) out"
proof -
  let ?fs = "sort_by finding_cmp fs"
  obtain mid s1 where mid: "(if refining \<and> ?fs \<noteq> [] then refine (st_ask st) (finding_context st files s) ?fs s
      else ((sort_by_severity ?fs, default_refine_counts), s)) = ((mid, counts), s1)"
    and out: "out = fst (enrich st mid s1)"
    using assms by (auto simp: finish_findings_def Let_def split: prod.splits)
  have keep: "map f_fingerprint out = map f_fingerprint mid" unfolding out by (rule enrich_keeps)
  have len: "length fs = length mid + rc_clustered counts + rc_exonerated counts"
  proof (cases "refining \<and> ?fs \<noteq> []")
    case True
    then show ?thesis using mid refine_fingerprints(1) [of "st_ask st" "finding_context st files s" ?fs s mid counts s1] by simp
  next
    case False
    then show ?thesis using mid by (auto simp: default_refine_counts_def sort_by_severity_def split: if_splits)
  qed
  then show "length fs = length out + rc_clustered counts + rc_exonerated counts" using map_eq_imp_length_eq [OF keep] by simp
  assume all: "list_all (\<lambda>f. P (f_fingerprint f)) fs"
  then have "list_all (\<lambda>f. P (f_fingerprint f)) ?fs" by (simp add: list_all_iff)
  then have "list_all (\<lambda>f. P (f_fingerprint f)) mid"
    using mid refine_fingerprints(2) [of "st_ask st" "finding_context st files s" ?fs s mid counts s1 P]
    by (auto simp: sort_by_severity_def list_all_iff split: if_splits)
  then have "list_all P (map f_fingerprint mid)" by (simp add: list_all_iff)
  then show "list_all (\<lambda>f. P (f_fingerprint f)) out" unfolding keep [symmetric] by (simp add: list_all_iff)
qed

lemma suppress_keeps:
  "list_all (\<lambda>f. f_fingerprint f \<notin> hidden) (suppress hidden fs)" "length (suppress hidden fs) \<le> length fs"
  by (simp_all add: suppress_def list_all_iff)

definition stages_account :: "ReviewOptions \<Rightarrow> Stages \<Rightarrow> bool" where
  "stages_account opts g \<longleftrightarrow>
     sg_located g = length (sg_findings g) + sg_suppressed g + rc_clustered (sg_counts g) + rc_exonerated (sg_counts g) \<and>
     list_all (\<lambda>f. f_fingerprint f \<notin> suppressed (ro_feedback opts)) (sg_findings g)"

lemma after_screening_accounts:
  assumes "after_screening sur st opts tuned context_files spec_files matrix skipped s = (Inr g, s')"
  shows "stages_account opts g"
proof -
  let ?hidden = "suppressed (ro_feedback opts)" and ?files = "file_map (st_path st) matrix"
  obtain found finished counts skipped2 s3 s4 where
    finished: "(if ro_shard opts = None then finish_findings st ?files (suppress ?hidden found) (ro_refine opts) s3
        else ((suppress ?hidden found, default_refine_counts), s3)) = ((finished, counts), s4)"
    and plans: "(if ro_test_plans opts
        then attach_test_plans sur st ?files context_files MAX_TEST_PLANS finished skipped2 s4
        else ((finished, skipped2), s4)) = ((sg_findings g, sg_skipped g), s')"
    and g: "sg_located g = length found" "sg_suppressed g = length found - length (suppress ?hidden found)"
      "sg_counts g = counts"
    using assms by (auto simp: after_screening_def Let_def split: prod.splits sum.splits)
  have keep: "map f_fingerprint (sg_findings g) = map f_fingerprint finished"
    using plans attach_keeps [of sur st ?files context_files MAX_TEST_PLANS finished skipped2 s4]
    by (auto split: if_splits)
  have fin: "length (suppress ?hidden found) = length finished + rc_clustered counts + rc_exonerated counts \<and>
      list_all (\<lambda>f. f_fingerprint f \<notin> ?hidden) finished"
  proof (cases "ro_shard opts = None")
    case True
    then have "finish_findings st ?files (suppress ?hidden found) (ro_refine opts) s3 = ((finished, counts), s4)"
      using finished by simp
    from finish_accounts(1) [OF this] finish_accounts(2) [OF this, of "\<lambda>x. x \<notin> ?hidden"] suppress_keeps(1)
    show ?thesis by blast
  next
    case False
    then show ?thesis using finished suppress_keeps(1) by (auto simp: default_refine_counts_def)
  qed
  have "list_all (\<lambda>x. x \<notin> ?hidden) (map f_fingerprint finished)" using fin by (simp add: list_all_iff)
  then have "list_all (\<lambda>f. f_fingerprint f \<notin> ?hidden) (sg_findings g)"
    unfolding keep [symmetric] by (simp add: list_all_iff)
  moreover have "length (sg_findings g) = length finished" using map_eq_imp_length_eq [OF keep] .
  ultimately show ?thesis using fin g suppress_keeps(2) [of ?hidden found] by (simp add: stages_account_def)
qed

definition report_accounts :: "ReviewOptions \<Rightarrow> ReviewReport \<Rightarrow> bool" where
  "report_accounts opts r \<longleftrightarrow>
     wc_located_findings (r_workflow r) = length (r_findings r) + wc_suppressed_findings (r_workflow r)
       + wc_clustered_findings (r_workflow r) + wc_exonerated_findings (r_workflow r) \<and>
     list_all (\<lambda>f. f_fingerprint f \<notin> suppressed (ro_feedback opts)) (r_findings r) \<and>
     (r_partial r \<or>
      r_skipped r = [] \<and> bs_deferred (r_budget r) = 0 \<and> ti_dismissed (r_tier r) = [] \<and> ro_shard opts = None \<and>
      wc_threshold_signals (r_workflow r) \<le> wc_followed_signals (r_workflow r))"

lemma final_report_accounts:
  assumes "stages_account opts g"
  shows "report_accounts opts (final_report st opts scopes tuned shard tier context_files matrix g s)"
  using assms
  by (auto simp: stages_account_def report_accounts_def final_report_def workflow_counts_def is_partial_def Let_def
      default_report_def not_less)

lemma run_review_accounts:
  assumes "run_review sur st opts scopes s = (Inr r, s')"
  shows "report_accounts opts r"
proof -
  obtain tuned disc s2 where inv: "review_inventory sur st opts scopes tuned disc s2 = (Inr r, s')"
    using assms by (auto simp: run_review_def split: sum.splits prod.splits)
  have empty: "report_accounts opts (empty_inventory_report st opts scopes tuned shard cf)"
    if "shard = None \<longleftrightarrow> ro_shard opts = None" for shard and cf
    using that by (auto simp: report_accounts_def empty_inventory_report_def default_report_def default_counts_def)
  have dismissed: "report_accounts opts (dismissed_report st opts scopes tuned shard tier cf s)" for shard tier cf s
    by (simp add: report_accounts_def dismissed_report_def default_report_def default_counts_def)
  have "shard_metadata sur st opts disc s2 = None \<longleftrightarrow> ro_shard opts = None" by (simp add: shard_metadata_def)
  then show ?thesis using inv
    by (auto simp: review_inventory_def Let_def empty dismissed
        split: if_splits sum.splits prod.splits dest!: after_screening_accounts intro: final_report_accounts)
qed


section \<open>A review keeps its client in order\<close>

text \<open>What the workflow relies on: every method that makes requests leaves the client in order.\<close>

locale review_strategy = judging_service "st_ask st" ok
  for st :: "('f, 's) ReviewStrategy" and ok :: "'s \<Rightarrow> bool" +
  assumes discover_ok: "ok s \<Longrightarrow> ok (snd (st_discover st scopes s))"
    and prepass_ok: "ok s \<Longrightarrow> ok (snd (st_prepass st scopes disc s))"
    and screen_ok: "ok s \<Longrightarrow> ok (snd (st_screen st file context_files s))"
    and profile_ok: "ok s \<Longrightarrow> ok (snd (st_profile st file probabilities s))"
    and locate_ok: "ok s \<Longrightarrow> ok (snd (st_locate st signal s))"
    and suggestions_ok: "ok s \<Longrightarrow> ok (snd (st_suggestions st finding s))"
begin

lemma run_stage_kept:
  assumes "\<And>x s. ok s \<Longrightarrow> ok (snd (request x s))" and "ok s"
  shows "ok (snd (run_stage request stage items skipped s))"
proof -
  have t: "ok (snd (traverse request xs s))" for xs by (rule traverse_keeps [where ok = ok, OF assms])
  obtain probe s1 where p: "traverse request (take CIRCUIT_BREAKER items) s = (probe, s1)" by force
  obtain results s2 where r: "traverse request items s = (results, s2)" by force
  show ?thesis unfolding run_stage_eq p r
    using t [of "take CIRCUIT_BREAKER items"] t [of items] by (simp add: p r)
qed

lemma tier_zero_kept: "ok s \<Longrightarrow> ok (snd (tier_zero st files s))"
proof -
  assume "ok s"
  then have "ok (snd (traverse (tier_answer st) files s))"
    by (rule traverse_keeps [rotated])
      (auto simp: tier_answer_def case_prod_beta ask_ok split: option.split)
  then show ?thesis by (simp add: tier_zero_def case_prod_beta)
qed

lemma screen_stage_kept: "ok s \<Longrightarrow> ok (snd (screen_stage st cf files s))"
  using run_stage_kept [of "screen_request st cf" s Screen files "[]"]
  by (auto simp: screen_stage_def screen_request_def case_prod_beta screen_ok split: sum.split)

lemma profile_stage_kept: "ok s \<Longrightarrow> ok (snd (profile_stage st cands skipped s))"
  using run_stage_kept [of "profile_request st" s Profile cands skipped]
  by (auto simp: profile_stage_def profile_request_def case_prod_beta profile_ok split: sum.split)

lemma locate_stage_kept: "ok s \<Longrightarrow> ok (snd (run_stage (locate_request st) Locate signals skipped s))"
  by (rule run_stage_kept) (simp_all add: locate_request_def case_prod_beta locate_ok)

lemma spec_stage_kept: "ok s \<Longrightarrow> ok (snd (spec_stage sur st specs files s))"
proof (cases specs)
  case (Some si)
  assume "ok s"
  then have "ok (snd (traverse (\<lambda>file s.
      case assess_file (sur_context_budget sur) (sur_decl sur) (st_ask st) si (st_json st file) s of
        (Inr sc, s') \<Rightarrow> (sc, s')
      | (Inl e, s') \<Rightarrow> (check_deferred (st_path st file) (skip_reason e), s')) files s))"
    by (rule traverse_keeps [rotated]) (use assess_file_kept in \<open>auto simp: case_prod_beta split: sum.split\<close>)
  then show ?thesis by (simp add: spec_stage_def Some case_prod_beta)
qed (simp add: spec_stage_def)

lemma enrich_kept: "ok s \<Longrightarrow> ok (snd (enrich st fs s))"
proof -
  assume "ok s"
  then have "ok (snd (traverse (suggest st) xs s))" for xs
    by (rule traverse_keeps [rotated])
      (use suggestions_ok in \<open>auto simp: suggest_def case_prod_beta split: sum.split\<close>)
  then show ?thesis by (simp add: enrich_def Let_def case_prod_beta)
qed

lemma finish_findings_kept: "ok s \<Longrightarrow> ok (snd (finish_findings st files fs refining s))"
  by (simp add: finish_findings_def Let_def case_prod_beta enrich_kept refine_kept)

lemma attach_test_plans_kept: "ok s \<Longrightarrow> ok (snd (attach_test_plans sur st files tests left fs skipped s))"
proof (induction fs arbitrary: left skipped s)
  case (Cons f fs)
  then show ?case by (simp add: Let_def case_prod_beta test_plan_kept)
qed simp

lemma after_screening_kept:
  assumes "ok s"
  shows "ok (snd (after_screening sur st opts tuned cf spec_files matrix skipped s))"
proof -
  show ?thesis
    using assms unfolding after_screening_def
    by (simp add: Let_def case_prod_beta profile_stage_kept locate_stage_kept spec_stage_kept finish_findings_kept
        attach_test_plans_kept split: sum.split)
qed

lemma screened_kept:
  assumes "ok s"
  shows "ok (snd (case screen_stage st cf files s of
      (Inl e, s2) \<Rightarrow> (Inl e, s2)
    | (Inr (matrix, skipped), s2) \<Rightarrow>
        (case after_screening sur st opts tuned cf spec_files matrix skipped s2 of
           (Inl e, s3) \<Rightarrow> (Inl e, s3)
         | (Inr g, s3) \<Rightarrow> (Inr (report matrix g s3), s3))))"
proof -
  obtain r s2 where r: "screen_stage st cf files s = (r, s2)" by force
  have s2: "ok s2" using screen_stage_kept [OF assms, of cf files] by (simp add: r)
  show ?thesis
  proof (cases r)
    case (Inr ms)
    obtain matrix skipped where ms: "ms = (matrix, skipped)" by force
    obtain r3 s3 where r3: "after_screening sur st opts tuned cf spec_files matrix skipped s2 = (r3, s3)" by force
    have "ok s3" using after_screening_kept [OF s2, of sur opts tuned cf spec_files matrix skipped] by (simp add: r3)
    then show ?thesis by (simp add: r Inr ms r3 split: sum.split)
  qed (simp add: r s2)
qed

lemma review_inventory_kept:
  assumes "ok s"
  shows "ok (snd (review_inventory sur st opts scopes tuned disc s))"
proof -
  let ?files = "review_files sur st opts disc s"
  obtain retained tier s1 where t: "(if ro_tiered opts then tier_zero st ?files s
      else ((?files, \<lparr>ti_screened = 0, ti_dismissed = []\<rparr>), s)) = ((retained, tier), s1)" by (metis prod.collapse)
  have "ok s1" using t tier_zero_kept [OF assms, of ?files] assms by (auto split: if_splits)
  then show ?thesis using assms
    by (simp add: review_inventory_def Let_def t screened_kept)
qed

lemma run_review_kept: "ok s \<Longrightarrow> ok (snd (run_review sur st opts scopes s))"
  by (simp add: run_review_def case_prod_beta discover_ok prepass_ok review_inventory_kept split: sum.split)

end

end
