(* ===== verification/Imports.thy ===== *)
theory Imports
  imports Report
begin

text \<open>
  The import graph (\<open>adapters/imports.rs\<close>): candidate targets of a source file, their resolution
  against the scanned files, the undirected adjacency that gives a file its neighbors, and the
  directed edges with an evidenced line for the architecture map.

  What the three regular expressions capture (\<open>regex\<close> crate) is a parameter: the module names of
  \<open>mod\<close> declarations, the paths of \<open>use\<close> statements and the specifiers of JavaScript imports,
  each in the order of the matches.
\<close>

record ImportPatterns =
  ip_mods :: "string \<Rightarrow> string list"
  ip_uses :: "string \<Rightarrow> string list"
  ip_specifiers :: "string \<Rightarrow> string list"

section \<open>Searching in strings\<close>

text \<open>
  \<open>split_once\<close>, \<open>split\<close> and \<open>trim_start_matches\<close> with a pattern of several characters; the code
  uses them with patterns that are not empty only.
\<close>

fun split_once_str :: "string \<Rightarrow> string \<Rightarrow> (string \<times> string) option" where
  "split_once_str pat [] = None"
| "split_once_str pat (c # cs) =
     (case strip_prefix pat (c # cs) of
        Some rest \<Rightarrow> Some ([], rest)
      | None \<Rightarrow> map_option (\<lambda>(a, b). (c # a, b)) (split_once_str pat cs))"

lemma split_once_str_Some: "split_once_str pat s = Some (a, b) \<Longrightarrow> s = a @ pat @ b"
  by (induction pat s arbitrary: a rule: split_once_str.induct) (auto simp: strip_prefix_Some split: option.splits)

lemma split_once_str_shorter: "split_once_str pat s = Some (a, b) \<Longrightarrow> pat \<noteq> [] \<Longrightarrow> length b < length s"
  by (drule split_once_str_Some) simp


function split_str :: "string \<Rightarrow> string \<Rightarrow> string list" where
  "split_str pat s =
     (if pat = [] then [s]
      else case split_once_str pat s of None \<Rightarrow> [s] | Some (a, b) \<Rightarrow> a # split_str pat b)"
  by pat_completeness auto
termination
  by (relation "measure (length \<circ> snd)") (auto dest: split_once_str_shorter)

declare split_str.simps [simp del]

function trim_start_matches :: "string \<Rightarrow> string \<Rightarrow> string" where
  "trim_start_matches pat s =
     (if pat = [] then s
      else case strip_prefix pat s of None \<Rightarrow> s | Some rest \<Rightarrow> trim_start_matches pat rest)"
  by pat_completeness auto
termination
  by (relation "measure (length \<circ> snd)") (auto simp: strip_prefix_Some)

declare trim_start_matches.simps [simp del]

text \<open>The first piece of \<open>split(pat)\<close>.\<close>

definition before_str :: "string \<Rightarrow> string \<Rightarrow> string" where
  "before_str pat s = (case split_once_str pat s of None \<Rightarrow> s | Some (a, _) \<Rightarrow> a)"

section \<open>Candidates\<close>

function strip_anchors :: "string \<Rightarrow> string" where
  "strip_anchors rest =
     (case strip_prefix ''super::'' rest of
        Some stripped \<Rightarrow> strip_anchors stripped
      | None \<Rightarrow> (case strip_prefix ''self::'' rest of
                   Some stripped \<Rightarrow> strip_anchors stripped
                 | None \<Rightarrow> rest))"
  by pat_completeness auto
termination
  by (relation "measure length") (auto simp: strip_prefix_Some)

declare strip_anchors.simps [simp del]

definition rust_use_target :: "string \<Rightarrow> string option" where
  "rust_use_target path0 =
     (let path1 = takeWhile (\<lambda>c. c \<noteq> CHR ''{'') path0;
          path2 = before_str '' as '' path1;
          path = trim_start_matches ''::'' (trim path2);
          local = (case strip_prefix ''crate::'' path of
                     Some rest \<Rightarrow> Some rest
                   | None \<Rightarrow> let rest = strip_anchors path in if rest = path then None else Some rest)
      in case local of
           None \<Rightarrow> None
         | Some rest \<Rightarrow>
             let joined = join ''/'' (filter (\<lambda>s. s \<noteq> []) (split_str ''::'' rest)) in
             if joined = [] then None else Some joined)"

definition extract_rust_imports :: "ImportPatterns \<Rightarrow> string \<Rightarrow> string list" where
  "extract_rust_imports ip content =
     ip_mods ip content @ List.map_filter rust_use_target (ip_uses ip content)"

definition extract_js_imports :: "ImportPatterns \<Rightarrow> string \<Rightarrow> string list" where
  "extract_js_imports ip content =
     filter (\<lambda>s. starts_with s ''./'' \<or> starts_with s ''../'') (ip_specifiers ip content)"

definition extract_imports :: "ImportPatterns \<Rightarrow> string \<Rightarrow> string \<Rightarrow> string list" where
  "extract_imports ip path content =
     (case from_path path of
        Some Rust \<Rightarrow> extract_rust_imports ip content
      | Some JavaScript \<Rightarrow> extract_js_imports ip content
      | Some TypeScript \<Rightarrow> extract_js_imports ip content
      | _ \<Rightarrow> [])"

text \<open>A last segment loses its extension; a \<open>mod\<close> or \<open>index\<close> leaf is dropped.\<close>

definition module_segments :: "string list \<Rightarrow> string list" where
  "module_segments segments0 =
     (let segments = (if segments0 = [] then []
          else butlast segments0 @
            [case rsplit_once (CHR ''.'') (last segments0) of Some (s, _) \<Rightarrow> s | None \<Rightarrow> last segments0])
      in if segments \<noteq> [] \<and> last segments \<in> {''mod'', ''index''} then butlast segments else segments)"

definition normalize_path :: "string \<Rightarrow> string list" where
  "normalize_path path =
     module_segments (filter (\<lambda>s. s \<noteq> [] \<and> s \<noteq> ''.'')
       (split_on (CHR ''/'') (trim_start_matches ''./'' path)))"

definition candidate_segments :: "string \<Rightarrow> string list" where
  "candidate_segments candidate =
     module_segments (filter (\<lambda>s. s \<noteq> [] \<and> s \<noteq> ''.'' \<and> s \<noteq> ''..'')
       (split_on (CHR ''/'') (trim_start_matches ''./'' candidate)))"

section \<open>The resolver\<close>

record Resolver =
  rv_norm :: "string list list"
  rv_paths :: "string list"
  rv_by_last :: "string \<rightharpoonup> nat list"

text \<open>\<open>by_last\<close> of the files from index \<open>i\<close> on, added to the map.\<close>

fun index_by_last :: "nat \<Rightarrow> string list list \<Rightarrow> (string \<rightharpoonup> nat list) \<Rightarrow> (string \<rightharpoonup> nat list)" where
  "index_by_last i [] m = m"
| "index_by_last i (segments # rest) m =
     index_by_last (i + 1) rest
       (if segments = [] then m
        else m(last segments \<mapsto> (case m (last segments) of None \<Rightarrow> [] | Some is \<Rightarrow> is) @ [i]))"

definition resolver_new :: "SourceFile list \<Rightarrow> Resolver" where
  "resolver_new files =
     (let norm = map (\<lambda>f. normalize_path (sf_path f)) files in
      \<lparr>rv_norm = norm, rv_paths = map sf_path files, rv_by_last = index_by_last 0 norm Map.empty\<rparr>)"

definition suffix_matches :: "Resolver \<Rightarrow> string list \<Rightarrow> nat list" where
  "suffix_matches rv cand =
     (case rv_by_last rv (last cand) of
        None \<Rightarrow> []
      | Some is \<Rightarrow> filter (\<lambda>i. suffix cand (rv_norm rv ! i)) is)"

definition goodness :: "Resolver \<Rightarrow> nat \<Rightarrow> string list \<Rightarrow> nat \<Rightarrow> bool \<times> nat" where
  "goodness rv i importer dir_len =
     (let norm = rv_norm rv ! i in
      (0 < dir_len \<and> dir_len < length norm \<and> take dir_len norm = take dir_len importer, length norm))"

definition match_cmp :: "Resolver \<Rightarrow> string list \<Rightarrow> nat \<Rightarrow> nat \<Rightarrow> ordering" where
  "match_cmp rv importer a b =
     (let dir_len = length importer - 1;
          (ra, la) = goodness rv a importer dir_len;
          (rb, lb) = goodness rv b importer dir_len
      in then_cmp (then_cmp (cmp rb ra) (cmp lb la)) (cmp (rv_paths rv ! a) (rv_paths rv ! b)))"

text \<open>\<open>Iterator::min_by\<close>: the first of the least elements.\<close>

definition min_by :: "('a \<Rightarrow> 'a \<Rightarrow> ordering) \<Rightarrow> 'a list \<Rightarrow> 'a option" where
  "min_by c xs =
     (case xs of [] \<Rightarrow> None
      | x # ys \<Rightarrow> Some (foldl (\<lambda>best y. if c best y = Greater then y else best) x ys))"

definition resolve_import :: "Resolver \<Rightarrow> string \<Rightarrow> string list \<Rightarrow> bool \<Rightarrow> string option" where
  "resolve_import rv candidate importer rust =
     (let cand = candidate_segments candidate in
      if cand = [] then None
      else
        let found = suffix_matches rv cand;
            matches = (if found = [] \<and> rust \<and> 1 < length cand
                       then suffix_matches rv (butlast cand) else found)
        in map_option (\<lambda>i. rv_paths rv ! i) (min_by (match_cmp rv importer) matches))"

section \<open>Paths\<close>

text \<open>
  \<open>std::path\<close> on a Unix system. A path is its components, by which \<open>PathBuf\<close> compares: empty
  pieces and \<open>.\<close> are left out, except for a leading \<open>.\<close>.
\<close>

datatype Component = RootDir | CurDir | ParentDir | Normal string

definition path_components :: "string \<Rightarrow> Component list" where
  "path_components s =
     (let ps = filter (\<lambda>p. p \<noteq> []) (split_on (CHR ''/'') s) in
      (if starts_with s ''/'' then [RootDir] else if ps \<noteq> [] \<and> hd ps = ''.'' then [CurDir] else []) @
      List.map_filter (\<lambda>p. if p = ''.'' then None else if p = ''..'' then Some ParentDir else Some (Normal p)) ps)"

definition path_parent :: "Component list \<Rightarrow> Component list option" where
  "path_parent p = (if p = [] \<or> last p = RootDir then None else Some (butlast p))"

definition path_join :: "Component list \<Rightarrow> Component list \<Rightarrow> Component list" where
  "path_join p q = (if q \<noteq> [] \<and> hd q = RootDir then q else p @ filter (\<lambda>c. p = [] \<or> c \<noteq> CurDir) q)"

definition path_file_name :: "Component list \<Rightarrow> string option" where
  "path_file_name p = (if p = [] then None else case last p of Normal name \<Rightarrow> Some name | _ \<Rightarrow> None)"

text \<open>The name before its last dot and what follows it; a leading dot does not count.\<close>

definition split_name :: "string \<Rightarrow> string \<times> string option" where
  "split_name name =
     (case rsplit_once (CHR ''.'') name of
        None \<Rightarrow> (name, None)
      | Some (before, after) \<Rightarrow> if before = [] then (name, None) else (before, Some after))"

definition path_file_stem :: "Component list \<Rightarrow> string option" where
  "path_file_stem p = map_option (fst \<circ> split_name) (path_file_name p)"

definition path_extension :: "Component list \<Rightarrow> string option" where
  "path_extension p = Option.bind (path_file_name p) (snd \<circ> split_name)"

text \<open>\<open>with_extension("")\<close>; the stem of the name \<open>..x\<close> is \<open>.\<close>.\<close>

definition without_extension :: "Component list \<Rightarrow> Component list" where
  "without_extension p =
     (case path_file_stem p of None \<Rightarrow> p | Some s \<Rightarrow> path_join (butlast p) (path_components s))"

section \<open>The strict resolver\<close>

definition has_js_extension :: "Component list \<Rightarrow> bool" where
  "has_js_extension p \<longleftrightarrow>
     (case path_extension p of
        None \<Rightarrow> False
      | Some e \<Rightarrow> e \<in> {''js'', ''jsx'', ''ts'', ''tsx'', ''mjs'', ''cjs'', ''mts'', ''cts''})"

definition push_entry :: "'k \<Rightarrow> 'v \<Rightarrow> ('k \<rightharpoonup> 'v list) \<Rightarrow> 'k \<rightharpoonup> 'v list" where
  "push_entry k v m = m(k \<mapsto> (case m k of None \<Rightarrow> [] | Some vs \<Rightarrow> vs) @ [v])"

definition entries_of :: "('k \<rightharpoonup> 'v list) \<Rightarrow> 'k \<Rightarrow> 'v list" where
  "entries_of m k = (case m k of None \<Rightarrow> [] | Some vs \<Rightarrow> vs)"

record StrictResolver =
  sv_rust_paths :: "string \<rightharpoonup> string list"
  sv_js_stems :: "Component list \<rightharpoonup> string list"

definition strict_add :: "StrictResolver \<Rightarrow> SourceFile \<Rightarrow> StrictResolver" where
  "strict_add sv f =
     (let path = path_components (sf_path f) in
      if path_extension path = Some ''rs''
      then sv\<lparr>sv_rust_paths := push_entry (sf_path f) (sf_path f) (sv_rust_paths sv)\<rparr>
      else if has_js_extension path
      then sv\<lparr>sv_js_stems := push_entry (without_extension path) (sf_path f) (sv_js_stems sv)\<rparr>
      else sv)"

definition strict_resolver_new :: "SourceFile list \<Rightarrow> StrictResolver" where
  "strict_resolver_new files =
     foldl strict_add \<lparr>sv_rust_paths = Map.empty, sv_js_stems = Map.empty\<rparr> files"

definition str_components :: "Component list \<Rightarrow> string list" where
  "str_components p = map (\<lambda>c. case c of RootDir \<Rightarrow> ''/'' | CurDir \<Rightarrow> ''.'' | ParentDir \<Rightarrow> ''..'' | Normal s \<Rightarrow> s) p"

definition matching_paths :: "StrictResolver \<Rightarrow> Component list \<Rightarrow> bool \<Rightarrow> string list" where
  "matching_paths sv st rust =
     (if rust then entries_of (sv_rust_paths sv) (join ''/'' (str_components st) @ ''.rs'')
                   @ entries_of (sv_rust_paths sv) (join ''/'' (str_components st) @ ''/mod.rs'')
      else entries_of (sv_js_stems sv) st @ entries_of (sv_js_stems sv) (path_join st [Normal ''index'']))"

section \<open>Evidenced edges\<close>

text \<open>Files with syntax that a line-based scan cannot follow are left out.\<close>

definition opaque :: "SourceFile \<Rightarrow> bool" where
  "opaque f \<longleftrightarrow>
     from_path (sf_path f) \<notin> {Some Rust, Some JavaScript, Some TypeScript} \<or>
     str_contains (sf_content f) ''/*'' \<or> CHR 0x60 \<in> set (sf_content f) \<or>
     str_contains (sf_content f) (''r#'' @ [CHR 0x22]) \<or> str_contains (sf_content f) ''#[path'' \<or>
     str_contains (sf_content f) ''#[cfg''"

definition module_parent :: "Component list \<Rightarrow> Component list" where
  "module_parent path =
     (let parent = (case path_parent path of None \<Rightarrow> [] | Some p \<Rightarrow> p) in
      if path_file_name path \<in> {Some ''main.rs'', Some ''lib.rs'', Some ''mod.rs''} then parent
      else path_join parent (path_components (case path_file_stem path of None \<Rightarrow> [] | Some s \<Rightarrow> s)))"

definition rposition :: "('a \<Rightarrow> bool) \<Rightarrow> 'a list \<Rightarrow> nat option" where
  "rposition P xs = (let is = filter (\<lambda>i. P (xs ! i)) [0..<length xs] in if is = [] then None else Some (last is))"

text \<open>Where a candidate of a line points, before normalization; \<open>None\<close> abstains.\<close>

definition candidate_path :: "Component list \<Rightarrow> bool \<Rightarrow> string \<Rightarrow> string \<Rightarrow> Component list option" where
  "candidate_path path rust line candidate =
     (let parent = (case path_parent path of None \<Rightarrow> [] | Some p \<Rightarrow> p); target = path_components candidate in
      if \<not> rust then Some (path_join parent target)
      else if starts_with line ''use crate::'' then
        (case rposition (\<lambda>s. s = ''src'') (str_components parent) of
           None \<Rightarrow> None
         | Some i \<Rightarrow> Some (path_join (take (i + 1) parent) target))
      else if starts_with line ''use super::'' then
        (if str_contains line ''super::super::'' then None
         else Some (path_join (case path_parent (module_parent path) of None \<Rightarrow> [] | Some p \<Rightarrow> p) target))
      else Some (path_join (module_parent path) target))"

fun normal_parts :: "Component list \<Rightarrow> string list \<Rightarrow> string list option" where
  "normal_parts [] parts = Some parts"
| "normal_parts (Normal s # cs) parts = normal_parts cs (parts @ [s])"
| "normal_parts (CurDir # cs) parts = normal_parts cs parts"
| "normal_parts (ParentDir # cs) parts = (if parts = [] then None else normal_parts cs (butlast parts))"
| "normal_parts (RootDir # cs) parts = None"

definition strict_target :: "StrictResolver \<Rightarrow> SourceFile \<Rightarrow> bool \<Rightarrow> string \<Rightarrow> string \<Rightarrow> string option" where
  "strict_target sv f rust line candidate =
     (case Option.bind (candidate_path (path_components (sf_path f)) rust line candidate) (\<lambda>p. normal_parts p []) of
        None \<Rightarrow> None
      | Some parts \<Rightarrow>
          let p = map Normal parts;
              st = (if \<not> rust \<and> has_js_extension p then without_extension p else p);
              found = matching_paths sv st rust;
              matches = (if found = [] \<and> rust \<and> starts_with line ''use ''
                         then case path_parent st of None \<Rightarrow> found | Some parent \<Rightarrow> matching_paths sv parent True
                         else found)
          in if length matches = 1 \<and> hd matches \<noteq> sf_path f then Some (hd matches) else None)"

type_synonym edge = "string \<times> string \<times> nat"

definition is_import_line :: "string \<Rightarrow> bool" where
  "is_import_line line \<longleftrightarrow>
     list_ex (starts_with line) [''use '', ''mod '', ''pub mod '', ''import '', ''export '']"

text \<open>The lines from index \<open>i\<close> on, at brace depth \<open>depth\<close>.\<close>

fun strict_lines ::
  "ImportPatterns \<Rightarrow> StrictResolver \<Rightarrow> SourceFile \<Rightarrow> nat \<Rightarrow> int \<Rightarrow> edge list \<Rightarrow> string list \<Rightarrow> edge list" where
  "strict_lines ip sv f i depth out [] = (if depth = 0 then out else [])"
| "strict_lines ip sv f i depth out (l # ls) =
     (let line = trim l in
      if starts_with line ''//'' then strict_lines ip sv f (i + 1) depth out ls
      else
        let rust = (from_path (sf_path f) = Some Rust);
            new = (if depth = 0 \<and> is_import_line line
                   then List.map_filter
                     (\<lambda>c. map_option (\<lambda>t. (sf_path f, t, i + 1)) (strict_target sv f rust line c))
                     (extract_imports ip (sf_path f) line)
                   else []);
            depth' = depth + int (count_list line (CHR ''{'')) - int (count_list line (CHR ''}''))
        in if depth' < 0 then [] else strict_lines ip sv f (i + 1) depth' (out @ new) ls)"

definition strict_edges :: "ImportPatterns \<Rightarrow> StrictResolver \<Rightarrow> SourceFile \<Rightarrow> edge list" where
  "strict_edges ip sv f = (if opaque f then [] else strict_lines ip sv f 0 0 [] (str_lines (sf_content f)))"

section \<open>The graph\<close>

record ImportGraph =
  ig_adjacency :: "string \<rightharpoonup> string list"
  ig_edges :: "edge list"

definition edge_cmp :: "edge \<Rightarrow> edge \<Rightarrow> ordering" where
  "edge_cmp a b =
     then_cmp (then_cmp (cmp (fst a) (fst b)) (cmp (fst (snd a)) (fst (snd b)))) (cmp (snd (snd a)) (snd (snd b)))"

definition connect :: "string \<Rightarrow> string \<Rightarrow> (string \<rightharpoonup> string list) \<Rightarrow> string \<rightharpoonup> string list" where
  "connect path resolved m = push_entry resolved path (push_entry path resolved m)"

definition connect_file ::
  "Resolver \<Rightarrow> (SourceFile \<Rightarrow> string list) \<Rightarrow> (string \<rightharpoonup> string list) \<Rightarrow> SourceFile \<Rightarrow> string \<rightharpoonup> string list" where
  "connect_file rv candidates adjacency f =
     foldl (\<lambda>m target.
         case resolve_import rv target (normalize_path (sf_path f)) (from_path (sf_path f) = Some Rust) of
           None \<Rightarrow> m | Some resolved \<Rightarrow> connect (sf_path f) resolved m)
       adjacency (candidates f)"

definition from_candidates ::
  "ImportPatterns \<Rightarrow> SourceFile list \<Rightarrow> (SourceFile \<Rightarrow> string list) \<Rightarrow> ImportGraph" where
  "from_candidates ip files candidates =
     \<lparr>ig_adjacency = foldl (connect_file (resolver_new files) candidates)
        (foldl (\<lambda>m f. m(sf_path f \<mapsto> [])) Map.empty files) files,
      ig_edges = remdups_adj (sort_by edge_cmp
        (concat (map (strict_edges ip (strict_resolver_new files)) files)))\<rparr>"

definition graph_build :: "ImportPatterns \<Rightarrow> SourceFile list \<Rightarrow> ImportGraph" where
  "graph_build ip files = from_candidates ip files (\<lambda>f. extract_imports ip (sf_path f) (sf_content f))"

text \<open>Each other name once, in the order of the list.\<close>

fun unseen :: "string \<Rightarrow> string set \<Rightarrow> string list \<Rightarrow> string list" where
  "unseen path seen [] = []"
| "unseen path seen (n # ns) =
     (if n \<noteq> path \<and> n \<notin> seen then n # unseen path (insert n seen) ns else unseen path seen ns)"

definition graph_neighbors :: "ImportGraph \<Rightarrow> string \<Rightarrow> string list" where
  "graph_neighbors g path = sort_by cmp (unseen path {} (entries_of (ig_adjacency g) path))"

section \<open>The adjacency is a neighborhood\<close>

lemma entries_push [simp]:
  "entries_of (push_entry k v m) k' = (if k' = k then entries_of m k @ [v] else entries_of m k')"
  by (simp add: entries_of_def push_entry_def)

text \<open>Edges are recorded at both ends, between scanned files only.\<close>

definition neighborhood :: "string set \<Rightarrow> (string \<rightharpoonup> string list) \<Rightarrow> bool" where
  "neighborhood paths m \<longleftrightarrow>
     (\<forall>a b. b \<in> set (entries_of m a) \<longrightarrow> a \<in> set (entries_of m b) \<and> b \<in> paths)"

lemma connect_neighborhood:
  "neighborhood paths m \<Longrightarrow> path \<in> paths \<Longrightarrow> resolved \<in> paths \<Longrightarrow> neighborhood paths (connect path resolved m)"
  unfolding neighborhood_def connect_def by (auto split: if_splits)

lemma index_by_last_bound:
  "(\<And>l is. m l = Some is \<Longrightarrow> \<forall>j \<in> set is. j < n) \<Longrightarrow> n = i + length segs \<Longrightarrow>
     index_by_last i segs m l = Some is \<Longrightarrow> \<forall>j \<in> set is. j < n"
proof (induction i segs m arbitrary: "is" rule: index_by_last.induct)
  case (2 i segments rest m)
  let ?m = "if segments = [] then m
    else m(last segments \<mapsto> (case m (last segments) of None \<Rightarrow> [] | Some is \<Rightarrow> is) @ [i])"
  have "\<forall>j \<in> set is'. j < n" if "?m l' = Some is'" for l' is'
    using that 2(2,3) by (fastforce split: if_splits option.splits)
  from 2(1) [OF this] 2(3,4) show ?case by simp
qed auto

lemma min_by_fold: "foldl (\<lambda>best y. if c best y = Greater then y else best) b zs \<in> insert b (set zs)"
proof (induction zs arbitrary: b)
  case (Cons z zs)
  from Cons [of b] Cons [of z] show ?case by auto
qed simp

lemma min_by_mem: "min_by c xs = Some x \<Longrightarrow> x \<in> set xs"
  using min_by_fold [of c "hd xs" "tl xs"] by (cases xs) (auto simp: min_by_def)

lemma by_last_scanned:
  assumes "rv_by_last (resolver_new files) l = Some is" and "i \<in> set is"
  shows "i < length files"
proof -
  have "index_by_last 0 (map (\<lambda>f. normalize_path (sf_path f)) files) Map.empty l = Some is"
    using assms(1) by (simp add: resolver_new_def Let_def)
  then have "\<forall>j \<in> set is. j < length files"
    by (rule index_by_last_bound [rotated 2]) simp_all
  with assms(2) show ?thesis by blast
qed

lemma suffix_matches_scanned:
  assumes "i \<in> set (suffix_matches (resolver_new files) cand)"
  shows "i < length files"
proof -
  obtain "is" where "rv_by_last (resolver_new files) (last cand) = Some is" "i \<in> set is"
    using assms unfolding suffix_matches_def by (cases "rv_by_last (resolver_new files) (last cand)") simp_all
  then show ?thesis by (rule by_last_scanned)
qed

lemma resolve_import_scanned:
  assumes "resolve_import (resolver_new files) candidate importer rust = Some p"
  shows "p \<in> sf_path ` set files"
proof -
  obtain i ms where i: "min_by (match_cmp (resolver_new files) importer) ms = Some i" "p = rv_paths (resolver_new files) ! i"
    and ms: "ms = suffix_matches (resolver_new files) (candidate_segments candidate) \<or>
      ms = suffix_matches (resolver_new files) (butlast (candidate_segments candidate))"
    using assms unfolding resolve_import_def Let_def by (auto split: if_splits)
  have "i < length files" using min_by_mem [OF i(1)] ms suffix_matches_scanned by blast
  then show ?thesis using i(2) by (simp add: resolver_new_def Let_def)
qed

lemma connect_file_neighborhood:
  assumes "neighborhood (sf_path ` set files) m" "f \<in> set files"
  shows "neighborhood (sf_path ` set files) (connect_file (resolver_new files) candidates m f)"
proof -
  let ?step = "\<lambda>m target. case resolve_import (resolver_new files) target (normalize_path (sf_path f))
      (from_path (sf_path f) = Some Rust) of None \<Rightarrow> m | Some resolved \<Rightarrow> connect (sf_path f) resolved m"
  have step: "neighborhood (sf_path ` set files) (?step m target)" if "neighborhood (sf_path ` set files) m" for m target
    using that resolve_import_scanned [of files target] connect_neighborhood assms(2)
    by (simp split: option.split)
  have "neighborhood (sf_path ` set files) (foldl ?step m cs)" for cs
    using assms(1)
  proof (induction cs arbitrary: m)
    case (Cons c cs)
    from Cons.IH [OF step [OF Cons.prems, of c]] show ?case by simp
  qed simp
  then show ?thesis by (simp add: connect_file_def)
qed

lemma graph_neighborhood: "neighborhood (sf_path ` set files) (ig_adjacency (from_candidates ip files candidates))"
proof -
  have empty: "entries_of (foldl (\<lambda>m f. m(sf_path f \<mapsto> [])) m gs) a = []" if "\<And>a. entries_of m a = []" for m gs a
    using that by (induction gs arbitrary: m) (auto simp: entries_of_def)
  have start: "neighborhood (sf_path ` set files) (foldl (\<lambda>m f. m(sf_path f \<mapsto> [])) Map.empty files)"
    unfolding neighborhood_def by (subst empty; simp add: entries_of_def)
  have "neighborhood (sf_path ` set files) (foldl (connect_file (resolver_new files) candidates) m gs)"
    if "neighborhood (sf_path ` set files) m" "set gs \<subseteq> set files" for m gs
    using that by (induction gs arbitrary: m) (simp_all add: connect_file_neighborhood)
  from this [OF start] show ?thesis by (simp add: from_candidates_def)
qed

lemma unseen_props: "set (unseen path seen ns) = set ns - insert path seen" "distinct (unseen path seen ns)"
  by (induction path seen ns rule: unseen.induct) auto

interpretation name_order: comparator "cmp :: string \<Rightarrow> string \<Rightarrow> ordering"
  using comparator_cmp_key [of "\<lambda>x :: string. x"] by simp

lemma sort_cmp_strict: "distinct xs \<Longrightarrow> sorted_wrt (<) (sort_by cmp (xs :: string list))"
proof -
  assume d: "distinct xs"
  have "sorted_wrt (\<lambda>x y. cmp x y \<noteq> Greater) (sort_by cmp xs)" by (rule name_order.ordered_sort_by)
  then have "sorted (sort_by cmp xs)" by (simp add: not_less)
  then show ?thesis using d by (simp add: strict_sorted_iff)
qed

text \<open>
  The neighbors of a file are scanned files other than itself, each once and in ascending order,
  and being a neighbor is mutual, whatever the candidates and however they resolve.
\<close>

theorem neighbors_mutual:
  "sorted_wrt (<) (graph_neighbors (from_candidates ip files candidates) a) \<and>
   set (graph_neighbors (from_candidates ip files candidates) a) \<subseteq> sf_path ` set files - {a} \<and>
   (b \<in> set (graph_neighbors (from_candidates ip files candidates) a) \<longleftrightarrow>
    a \<in> set (graph_neighbors (from_candidates ip files candidates) b))"
  using graph_neighborhood [of files ip candidates]
  unfolding neighborhood_def graph_neighbors_def
  by (auto simp: unseen_props intro: sort_cmp_strict)

section \<open>Every edge of the architecture map has its evidence\<close>

lemma strict_resolver_scanned:
  "set (entries_of (sv_rust_paths (strict_resolver_new files)) k) \<subseteq> sf_path ` set files"
  "set (entries_of (sv_js_stems (strict_resolver_new files)) k') \<subseteq> sf_path ` set files"
proof -
  let ?within = "\<lambda>sv. \<forall>k k'. set (entries_of (sv_rust_paths sv) k) \<union> set (entries_of (sv_js_stems sv) k') \<subseteq> sf_path ` set files"
  have step: "?within (strict_add sv f)" if "?within sv" "f \<in> set files" for sv f
    using that by (auto simp: strict_add_def Let_def subset_iff split: if_splits)
  have "?within (foldl strict_add sv gs)" if "?within sv" "set gs \<subseteq> set files" for sv gs
    using that
  proof (induction gs arbitrary: sv)
    case (Cons g gs)
    then show ?case using step [of sv g] by simp
  qed simp
  from this [of "\<lparr>sv_rust_paths = Map.empty, sv_js_stems = Map.empty\<rparr>" files]
  have "?within (strict_resolver_new files)" by (simp add: strict_resolver_new_def entries_of_def)
  then show "set (entries_of (sv_rust_paths (strict_resolver_new files)) k) \<subseteq> sf_path ` set files"
    "set (entries_of (sv_js_stems (strict_resolver_new files)) k') \<subseteq> sf_path ` set files" by auto
qed

lemma strict_target_scanned:
  assumes "strict_target (strict_resolver_new files) f rust line c = Some t"
  shows "t \<in> sf_path ` set files \<and> t \<noteq> sf_path f"
proof -
  obtain ms where ms: "t = hd ms" "length ms = 1" "t \<noteq> sf_path f"
    and from_resolver: "\<exists>st r. ms = matching_paths (strict_resolver_new files) st r"
    using assms by (auto simp: strict_target_def Let_def split: option.splits if_splits)
  have "set (matching_paths (strict_resolver_new files) st r) \<subseteq> sf_path ` set files" for st r
    using strict_resolver_scanned [of files] by (auto simp: matching_paths_def)
  then show ?thesis using ms from_resolver by (metis hd_in_set length_0_conv subset_iff zero_neq_one)
qed

text \<open>
  An edge leads from a scanned file to another, and its line is a declaration of the first.
\<close>

definition edge_ok :: "SourceFile list \<Rightarrow> edge \<Rightarrow> bool" where
  "edge_ok files = (\<lambda>(a, b, n). a \<noteq> b \<and> b \<in> sf_path ` set files \<and>
     (\<exists>f \<in> set files. sf_path f = a \<and> \<not> opaque f \<and> 1 \<le> n \<and> n \<le> length (str_lines (sf_content f)) \<and>
        is_import_line (trim (str_lines (sf_content f) ! (n - 1)))))"

lemma strict_lines_ok:
  assumes "f \<in> set files" "\<not> opaque f" "ls = drop i (str_lines (sf_content f))" "list_all (edge_ok files) out"
  shows "list_all (edge_ok files) (strict_lines ip (strict_resolver_new files) f i depth out ls)"
  using assms(3,4)
proof (induction ls arbitrary: i depth out)
  case (Cons l ls)
  have i: "i < length (str_lines (sf_content f))" "str_lines (sf_content f) ! i = l" "ls = drop (Suc i) (str_lines (sf_content f))"
    using Cons.prems(1) by (metis drop_eq_Nil list.distinct(1) not_le, metis nth_via_drop, metis drop_Suc tl_drop list.sel(3))
  let ?sv = "strict_resolver_new files"
  have "edge_ok files (sf_path f, t, Suc i)" if "is_import_line (trim l)" "strict_target ?sv f rust (trim l) c = Some t" for rust c t
    using strict_target_scanned [OF that(2)] assms(1,2) i that(1) by (auto simp: edge_ok_def)
  then have "list_all (edge_ok files) (out @ (if depth = 0 \<and> is_import_line (trim l)
      then List.map_filter (\<lambda>c. map_option (\<lambda>t. (sf_path f, t, i + 1)) (strict_target ?sv f (from_path (sf_path f) = Some Rust) (trim l) c))
        (extract_imports ip (sf_path f) (trim l)) else []))"
    using Cons.prems(2) by (auto simp: list_all_iff List.map_filter_def)
  from Cons.IH [OF _ this, of "Suc i"] Cons.IH [of "Suc i" out depth] i(3) Cons.prems(2)
  show ?case by (simp add: Let_def)
qed simp

lemma graph_edges_ok: "list_all (edge_ok files) (ig_edges (from_candidates ip files candidates))"
  using strict_lines_ok [of _ files _ 0 "[]" ip 0]
  by (auto simp: from_candidates_def list_all_iff strict_edges_def split: if_splits)

text \<open>
  The architecture map claims no edge without evidence: an edge joins two different scanned
  files, and names a line of the first, a file that the line scan can follow, on which an import
  declaration stands.
\<close>

theorem edges_evidenced:
  "list_all (edge_ok files) (ig_edges (from_candidates ip files candidates))"
  by (rule graph_edges_ok)

end
