(* ===== verification/Repo_Index.thy ===== *)
theory Repo_Index
  imports Imports Regions Context
begin

text \<open>
  The incremental pre-pass (\<open>review/index.rs\<close>) and the store of its metadata
  (\<open>adapters/index_store.rs\<close>): spans, import candidates and signatures of a blob are reused by its
  address and its language; the graph and the test maps are built afresh for the tree at hand.

  Parameters: the declaration patterns, \<open>str::to_lowercase\<close>, the import patterns, and SHA-1 in
  hexadecimal. A directory is its files that deserialize; a write that fails changes nothing.
\<close>

record IndexTools =
  it_decl :: "bool \<Rightarrow> string \<Rightarrow> bool"
  it_lower :: "string \<Rightarrow> string"
  it_imports :: ImportPatterns
  it_sha1 :: "string \<Rightarrow> string"

section \<open>The store\<close>

record BlobEntry =
  be_blob :: string
  be_screen :: "RegionSpan list"
  be_locate :: "RegionSpan list"
  be_imports :: "string list"
  be_signatures :: string

record IndexStore =
  ix_files :: "string \<rightharpoonup> BlobEntry"
  ix_writable :: "string \<Rightarrow> bool"

text \<open>The directory that \<open>from_env\<close> opens, given the variable.\<close>

definition index_dir :: "string option \<Rightarrow> string" where
  "index_dir var =
     (case var of Some s \<Rightarrow> if blank s then ''reviews/index'' else s | None \<Rightarrow> ''reviews/index'')"

definition store_read :: "IndexStore \<Rightarrow> string \<Rightarrow> BlobEntry option" where
  "store_read st key = ix_files st (key @ ''.json'')"

definition store_write :: "string \<Rightarrow> BlobEntry \<Rightarrow> IndexStore \<Rightarrow> IndexStore" where
  "store_write key e st =
     (if ix_writable st (key @ ''.json'') then st\<lparr>ix_files := (ix_files st)(key @ ''.json'' \<mapsto> e)\<rparr> else st)"

section \<open>The index\<close>

record RepoIndex =
  ri_entries :: "string \<rightharpoonup> BlobEntry"
  ri_graph :: ImportGraph
  ri_tests :: "string \<rightharpoonup> SourceFile list"
  ri_changed_tests :: "string \<rightharpoonup> ChangedFile list"
  ri_stats :: IndexStats

definition blob_id :: "IndexTools \<Rightarrow> string \<Rightarrow> string" where
  "blob_id it content =
     it_sha1 it (''blob '' @ show_nat (length content) @ CHR 0x00 # content)"

text \<open>The name a language serializes as.\<close>

fun language_name :: "Language \<Rightarrow> string" where
  "language_name Python = ''python''"
| "language_name JavaScript = ''javaScript''"
| "language_name TypeScript = ''typeScript''"
| "language_name Java = ''java''"
| "language_name CSharp = ''cSharp''"
| "language_name Cpp = ''cpp''"
| "language_name CLang = ''c''"
| "language_name Go = ''go''"
| "language_name Rust = ''rust''"
| "language_name Php = ''php''"
| "language_name Ruby = ''ruby''"
| "language_name Kotlin = ''kotlin''"
| "language_name Swift = ''swift''"
| "language_name Shell = ''shell''"
| "language_name Sql = ''sql''"
| "language_name RLang = ''r''"
| "language_name Scala = ''scala''"
| "language_name Dart = ''dart''"
| "language_name Lua = ''lua''"
| "language_name PowerShell = ''powerShell''"

definition blob_key :: "string \<Rightarrow> string \<Rightarrow> string" where
  "blob_key blob path =
     ''v1-'' @ blob @ ''-'' @ (if ends_with path ''.rs'' then ''true'' else ''false'') @ ''-'' @
     (case from_path path of None \<Rightarrow> ''null'' | Some l \<Rightarrow> language_name l)"

text \<open>
  Cutting into regions returns for every positive maximum (\<open>function_regions_total\<close>), so the
  default is not reached.
\<close>

definition regions_of :: "IndexTools \<Rightarrow> string \<Rightarrow> string \<Rightarrow> nat \<Rightarrow> Region list" where
  "regions_of it content path n =
     (case function_regions (it_decl it) content path n of None \<Rightarrow> [] | Some rs \<Rightarrow> rs)"

definition compute_entry :: "IndexTools \<Rightarrow> SourceFile \<Rightarrow> BlobEntry" where
  "compute_entry it f =
     \<lparr>be_blob = blob_id it (sf_content f),
      be_screen = map span_of (regions_of it (sf_content f) (sf_path f) 160),
      be_locate = map span_of (regions_of it (sf_content f) (sf_path f) 80),
      be_imports = extract_imports (it_imports it) (sf_path f) (sf_content f),
      be_signatures = export_signatures (it_decl it) (sf_content f) (sf_path f)\<rparr>"

definition valid_entry :: "IndexTools \<Rightarrow> SourceFile \<Rightarrow> BlobEntry \<Rightarrow> bool" where
  "valid_entry it f e \<longleftrightarrow>
     be_blob e = blob_id it (sf_content f) \<and>
     materialize_regions (sf_content f) (be_screen e) 160 \<noteq> None \<and>
     materialize_regions (sf_content f) (be_locate e) 80 \<noteq> None"

definition too_large :: "SourceFile \<Rightarrow> bool" where
  "too_large f \<longleftrightarrow> 2000000 < length (sf_content f) \<or> CHR 0x00 \<in> set (sf_content f)"

type_synonym index_state = "(string \<rightharpoonup> BlobEntry) \<times> IndexStats \<times> IndexStore"

definition index_file :: "IndexTools \<Rightarrow> index_state \<Rightarrow> SourceFile \<Rightarrow> index_state" where
  "index_file it = (\<lambda>(entries, stats, st) f.
     if too_large f then (entries, stats\<lparr>is_fallbacks := is_fallbacks stats + 1\<rparr>, st)
     else
       let key = blob_key (blob_id it (sf_content f)) (sf_path f);
           cached = (case store_read st key of
                       None \<Rightarrow> None | Some e \<Rightarrow> if valid_entry it f e then Some e else None)
       in case cached of
            Some e \<Rightarrow> (entries(sf_path f \<mapsto> e), stats\<lparr>is_reused := is_reused stats + 1\<rparr>, st)
          | None \<Rightarrow>
              let e = compute_entry it f in
              (entries(sf_path f \<mapsto> e), stats\<lparr>is_computed := is_computed stats + 1\<rparr>, store_write key e st))"

definition index_build ::
  "IndexTools \<Rightarrow> SourceFile list \<Rightarrow> SourceFile list \<Rightarrow> IndexStore \<Rightarrow> RepoIndex \<times> IndexStore" where
  "index_build it files tests st0 =
     (case foldl (index_file it) (Map.empty, \<lparr>is_computed = 0, is_reused = 0, is_fallbacks = 0\<rparr>, st0) (files @ tests) of
        (entries, stats, st) \<Rightarrow>
          (\<lparr>ri_entries = entries,
            ri_graph = from_candidates (it_imports it) files
              (\<lambda>f. case entries (sf_path f) of
                     Some e \<Rightarrow> be_imports e
                   | None \<Rightarrow> extract_imports (it_imports it) (sf_path f) (sf_content f)),
            ri_tests = foldl (\<lambda>m f. m(sf_path f \<mapsto> select_related_tests (it_lower it) f tests)) Map.empty files,
            ri_changed_tests = Map.empty, ri_stats = stats\<rparr>, st))"

definition map_changed_tests :: "IndexTools \<Rightarrow> ChangedFile list \<Rightarrow> ChangedFile list \<Rightarrow> RepoIndex \<Rightarrow> RepoIndex" where
  "map_changed_tests it files tests ri =
     ri\<lparr>ri_changed_tests :=
       foldl (\<lambda>m f. m(cf_path f \<mapsto> select_related_changed_tests (it_lower it) f tests)) Map.empty files\<rparr>"

definition related_tests :: "RepoIndex \<Rightarrow> string \<Rightarrow> SourceFile list option" where
  "related_tests ri path = ri_tests ri path"

definition related_changed_tests :: "RepoIndex \<Rightarrow> string \<Rightarrow> ChangedFile list option" where
  "related_changed_tests ri path = ri_changed_tests ri path"

definition index_neighbors :: "RepoIndex \<Rightarrow> string \<Rightarrow> string list" where
  "index_neighbors ri path = graph_neighbors (ri_graph ri) path"

definition evidenced_edges :: "RepoIndex \<Rightarrow> edge list" where
  "evidenced_edges ri = ig_edges (ri_graph ri)"

definition index_signatures :: "RepoIndex \<Rightarrow> string \<Rightarrow> string" where
  "index_signatures ri path = (case ri_entries ri path of None \<Rightarrow> [] | Some e \<Rightarrow> be_signatures e)"

definition source_signatures :: "IndexTools \<Rightarrow> RepoIndex \<Rightarrow> SourceFile \<Rightarrow> string" where
  "source_signatures it ri f =
     (case ri_entries ri (sf_path f) of
        None \<Rightarrow> export_signatures (it_decl it) (sf_content f) (sf_path f)
      | Some e \<Rightarrow> be_signatures e)"

definition index_regions :: "IndexTools \<Rightarrow> RepoIndex \<Rightarrow> SourceFile \<Rightarrow> nat \<Rightarrow> Region list" where
  "index_regions it ri f n =
     (case (case ri_entries ri (sf_path f) of
              None \<Rightarrow> None
            | Some e \<Rightarrow>
                if be_blob e = blob_id it (sf_content f)
                then materialize_regions (sf_content f) (if n = 160 then be_screen e else be_locate e) n
                else None) of
        Some rs \<Rightarrow> rs
      | None \<Rightarrow> regions_of it (sf_content f) (sf_path f) n)"

section \<open>What the index answers is sound\<close>

lemma chunk_loop_total:
  assumes "0 < n"
  shows "\<exists>rs. chunk_loop n lines start stop regions = Some rs"
  using chunk_loop_chain [OF assms, of start stop lines regions]
  by (cases "start \<le> stop") (force, subst chunk_loop.simps, simp)

lemma decl_loop_total: "0 < n \<Longrightarrow> \<exists>rs. decl_loop n lines starts regions = Some rs"
proof (induction starts arbitrary: regions)
  case (Cons s starts)
  obtain rs where "chunk_loop n lines s (case starts of [] \<Rightarrow> length lines | next # _ \<Rightarrow> next) regions = Some rs"
    using chunk_loop_total [OF Cons.prems] by blast
  then show ?case using Cons.IH [OF Cons.prems, of rs] by simp
qed simp

lemma function_regions_total: "0 < n \<Longrightarrow> \<exists>rs. function_regions decl content path n = Some rs"
  using decl_loop_total [of n] by (auto simp: function_regions_def Let_def uniform_regions_def)

lemma regions_of_eq: "0 < n \<Longrightarrow> function_regions (it_decl it) content path n = Some (regions_of it content path n)"
  using function_regions_total [of n "it_decl it" content path] by (auto simp: regions_of_def)

text \<open>Regions of at most \<open>n\<close> lines that hold the non-blank lines of a text in order.\<close>

definition covers :: "string \<Rightarrow> nat \<Rightarrow> Region list \<Rightarrow> bool" where
  "covers content n rs \<longleftrightarrow>
     list_all (region_of (split_on NL content) n) rs \<and>
     filter (\<lambda>l. \<not> blank l) (concat (map (\<lambda>r. split_on NL (rg_content r)) rs))
       = filter (\<lambda>l. \<not> blank l) (split_on NL content)"

lemma materialized_covers: "materialize_regions content spans n = Some rs \<Longrightarrow> covers content n rs"
  using materialize_loop_sound [of content n 0 0 "[]" spans rs]
  by (auto simp: materialize_regions_def covers_def split: if_splits)

lemma regions_of_covers:
  assumes "0 < n" "anchored (it_decl it)" "length (split_on NL content) < usize_limit"
  shows "covers content n (regions_of it content path n)"
    and "materialize_regions content (map span_of (regions_of it content path n)) n \<noteq> None"
  using regions_restored [OF assms, of path] materialized_covers [of content _ n]
  by (auto simp: regions_of_def)

text \<open>
  Stale metadata never shows the review other code: whatever the store holds under the file's
  key, the regions that the index gives for a file are texts of this file, at the lines they claim
  and of at most the requested size, and together hold each of its non-blank lines once, in order.
\<close>

theorem index_regions_sound:
  assumes "anchored (it_decl it)" and "0 < n" and "length (split_on NL (sf_content f)) < usize_limit"
  shows "covers (sf_content f) n (index_regions it ri f n)"
  using regions_of_covers(1) [OF assms(2,1,3), of "sf_path f"] materialized_covers [of "sf_content f" _ n]
  by (auto simp: index_regions_def split: option.split)

section \<open>A second pre-pass computes nothing\<close>

definition file_key :: "IndexTools \<Rightarrow> SourceFile \<Rightarrow> string" where
  "file_key it f = blob_key (blob_id it (sf_content f)) (sf_path f)"

definition settled :: "IndexTools \<Rightarrow> IndexStore \<Rightarrow> SourceFile \<Rightarrow> bool" where
  "settled it st f \<longleftrightarrow> too_large f \<or> (\<exists>e. store_read st (file_key it f) = Some e \<and> valid_entry it f e)"

text \<open>What is assumed of SHA-1: forty digits, and no collision among the files at hand.\<close>

definition collision_free :: "IndexTools \<Rightarrow> SourceFile set \<Rightarrow> bool" where
  "collision_free it fs \<longleftrightarrow> (\<forall>s. length (it_sha1 it s) = 40) \<and>
     (\<forall>f \<in> fs. \<forall>g \<in> fs. blob_id it (sf_content f) = blob_id it (sf_content g) \<longrightarrow> sf_content f = sf_content g)"

definition indexable :: "IndexTools \<Rightarrow> IndexStore \<Rightarrow> SourceFile \<Rightarrow> bool" where
  "indexable it st f \<longleftrightarrow> ix_writable st (file_key it f @ ''.json'') \<and> length (split_on NL (sf_content f)) < usize_limit"

lemma same_key_content:
  assumes "collision_free it fs" "f \<in> fs" "g \<in> fs" "file_key it f = file_key it g"
  shows "sf_content f = sf_content g"
proof -
  have "length (blob_id it (sf_content f)) = length (blob_id it (sf_content g))"
    using assms(1) by (simp add: collision_free_def blob_id_def)
  then have "blob_id it (sf_content f) = blob_id it (sf_content g)"
    using assms(4) by (simp add: file_key_def blob_key_def)
  then show ?thesis using assms(1-3) by (simp add: collision_free_def)
qed

lemma computed_valid:
  assumes "anchored (it_decl it)" "length (split_on NL (sf_content f)) < usize_limit"
  shows "valid_entry it f (compute_entry it f)"
  using regions_of_covers(2) [OF _ assms(1,2), of 160 "sf_path f"] regions_of_covers(2) [OF _ assms(1,2), of 80 "sf_path f"]
  by (simp add: valid_entry_def compute_entry_def)

text \<open>The entries that a settled store holds for a list of files.\<close>

definition settled_entries :: "IndexTools \<Rightarrow> IndexStore \<Rightarrow> SourceFile list \<Rightarrow> string \<rightharpoonup> BlobEntry" where
  "settled_entries it st fs =
     foldl (\<lambda>m f. if too_large f then m else m(sf_path f \<mapsto> the (store_read st (file_key it f)))) Map.empty fs"

lemma index_file_settles:
  assumes "anchored (it_decl it)" "collision_free it fs" "f \<in> fs" "indexable it st f"
    and "index_file it (entries, stats, st) f = (entries', stats', st')"
  shows "settled it st' f" "ix_writable st' = ix_writable st"
    "entries' = (if too_large f then entries else entries(sf_path f \<mapsto> the (store_read st' (file_key it f))))"
    "g \<in> fs \<Longrightarrow> settled it st g \<Longrightarrow> \<not> too_large g \<Longrightarrow> settled it st' g \<and> store_read st' (file_key it g) = store_read st (file_key it g)"
    "is_computed stats' + is_reused stats' = is_computed stats + is_reused stats + of_bool (\<not> too_large f)"
    "is_fallbacks stats' = is_fallbacks stats + of_bool (too_large f)"
proof -
  have all: "settled it st' f \<and> ix_writable st' = ix_writable st \<and>
    entries' = (if too_large f then entries else entries(sf_path f \<mapsto> the (store_read st' (file_key it f)))) \<and>
    (g \<in> fs \<longrightarrow> settled it st g \<longrightarrow> \<not> too_large g \<longrightarrow> settled it st' g \<and> store_read st' (file_key it g) = store_read st (file_key it g)) \<and>
    is_computed stats' + is_reused stats' = is_computed stats + is_reused stats + of_bool (\<not> too_large f) \<and>
    is_fallbacks stats' = is_fallbacks stats + of_bool (too_large f)"
  proof (cases "too_large f")
    case True
    then show ?thesis using assms(5) by (auto simp: index_file_def settled_def)
  next
    case False
    show ?thesis
    proof (cases "\<exists>e. store_read st (file_key it f) = Some e \<and> valid_entry it f e")
      case True
      then show ?thesis using assms(5) False by (auto simp: index_file_def settled_def Let_def file_key_def)
    next
      case fresh: False
      then have st': "st' = store_write (file_key it f) (compute_entry it f) st"
        and e: "entries' = entries(sf_path f \<mapsto> compute_entry it f)" "stats' = stats\<lparr>is_computed := is_computed stats + 1\<rparr>"
        using assms(5) False by (auto simp: index_file_def Let_def file_key_def split: option.splits if_splits)
      have read: "store_read st' key = (if key = file_key it f then Some (compute_entry it f) else store_read st key)" for key
        using assms(4) by (simp add: st' store_read_def store_write_def indexable_def)
      have "file_key it g \<noteq> file_key it f" if "g \<in> fs" "settled it st g" "\<not> too_large g"
        using fresh that same_key_content [OF assms(2) that(1) assms(3)] by (auto simp: settled_def valid_entry_def)
      moreover have "valid_entry it f (compute_entry it f)" using computed_valid assms(1,4) by (simp add: indexable_def)
      moreover have "ix_writable st' = ix_writable st" by (simp add: st' store_write_def)
      ultimately show ?thesis using False e by (auto simp: settled_def read)
    qed
  qed
  then show "settled it st' f" "ix_writable st' = ix_writable st"
    "entries' = (if too_large f then entries else entries(sf_path f \<mapsto> the (store_read st' (file_key it f))))"
    "g \<in> fs \<Longrightarrow> settled it st g \<Longrightarrow> \<not> too_large g \<Longrightarrow> settled it st' g \<and> store_read st' (file_key it g) = store_read st (file_key it g)"
    "is_computed stats' + is_reused stats' = is_computed stats + is_reused stats + of_bool (\<not> too_large f)"
    "is_fallbacks stats' = is_fallbacks stats + of_bool (too_large f)"
    by simp_all
qed

lemma first_pass_settles:
  assumes "anchored (it_decl it)" "collision_free it (set fs)" "\<forall>f \<in> set fs. indexable it st0 f" "set gs \<subseteq> set fs"
    and "foldl (index_file it) (Map.empty, s0, st0) gs = (entries, stats, st)"
  shows "(\<forall>g \<in> set gs. settled it st g) \<and> ix_writable st = ix_writable st0 \<and> entries = settled_entries it st gs \<and>
    is_computed stats + is_reused stats = is_computed s0 + is_reused s0 + length (filter (\<lambda>g. \<not> too_large g) gs) \<and>
    is_fallbacks stats = is_fallbacks s0 + length (filter too_large gs)"
  using assms(4,5)
proof (induction gs arbitrary: entries stats st rule: rev_induct)
  case (snoc g gs)
  obtain m s1 st1 where step: "foldl (index_file it) (Map.empty, s0, st0) gs = (m, s1, st1)" by (cases "foldl (index_file it) (Map.empty, s0, st0) gs")
  have IH: "\<forall>g \<in> set gs. settled it st1 g" "ix_writable st1 = ix_writable st0" "m = settled_entries it st1 gs"
    "is_computed s1 + is_reused s1 = is_computed s0 + is_reused s0 + length (filter (\<lambda>g. \<not> too_large g) gs)"
    "is_fallbacks s1 = is_fallbacks s0 + length (filter too_large gs)"
    using snoc.IH [OF _ step] snoc.prems(1) by simp_all
  have last: "index_file it (m, s1, st1) g = (entries, stats, st)" using snoc.prems(2) step by simp
  have g: "g \<in> set fs" "indexable it st1 g" using snoc.prems(1) assms(3) IH(2) by (simp_all add: indexable_def)
  note f = index_file_settles [OF assms(1,2) g last]
  have same: "settled it st h \<and> (too_large h \<or> store_read st (file_key it h) = store_read st1 (file_key it h))" if "h \<in> set gs" for h
    using f(4) [of h] IH(1) that snoc.prems(1) by (cases "too_large h") (auto simp: settled_def)
  have "settled_entries it st gs = settled_entries it st1 gs"
    unfolding settled_entries_def by (rule foldl_cong) (simp_all, metis same)
  then have "entries = settled_entries it st (gs @ [g])"
    using f(3) IH(3) by (simp add: settled_entries_def)
  then show ?case using same f(1,2,5,6) IH(2,4,5) by (auto simp: of_bool_def)
qed (auto simp: settled_entries_def)

lemma settled_pass:
  assumes "\<forall>g \<in> set gs. settled it st g"
  shows "foldl (index_file it) (m, s, st) gs =
    (foldl (\<lambda>m f. if too_large f then m else m(sf_path f \<mapsto> the (store_read st (file_key it f)))) m gs,
     s\<lparr>is_reused := is_reused s + length (filter (\<lambda>g. \<not> too_large g) gs),
       is_fallbacks := is_fallbacks s + length (filter too_large gs)\<rparr>, st)"
  using assms
proof (induction gs arbitrary: m s)
  case (Cons g gs)
  have "index_file it (m, s, st) g =
    (if too_large g then (m, s\<lparr>is_fallbacks := is_fallbacks s + 1\<rparr>, st)
     else (m(sf_path g \<mapsto> the (store_read st (file_key it g))), s\<lparr>is_reused := is_reused s + 1\<rparr>, st))"
    using Cons.prems by (auto simp: index_file_def settled_def Let_def file_key_def)
  then show ?case using Cons by simp
qed simp

text \<open>
  The pre-pass is incremental: run again over the same files on the store that a first run left,
  it reuses every entry that the first run computed or reused, computes none, writes nothing, and
  builds the same index (SHA-1 having no collision among the files).
\<close>

theorem rebuild_reuses:
  assumes "anchored (it_decl it)" and "collision_free it (set (files @ tests))"
    and "\<forall>f \<in> set (files @ tests). indexable it st0 f"
  shows "case index_build it files tests st0 of (ri, st) \<Rightarrow>
    index_build it files tests st =
      (ri\<lparr>ri_stats := \<lparr>is_computed = 0, is_reused = is_computed (ri_stats ri) + is_reused (ri_stats ri),
                       is_fallbacks = is_fallbacks (ri_stats ri)\<rparr>\<rparr>, st)"
proof -
  let ?zero = "\<lparr>is_computed = 0, is_reused = 0, is_fallbacks = 0\<rparr>"
  obtain entries stats st where first: "foldl (index_file it) (Map.empty, ?zero, st0) (files @ tests) = (entries, stats, st)"
    by (cases "foldl (index_file it) (Map.empty, ?zero, st0) (files @ tests)")
  note f = first_pass_settles [OF assms(1,2,3) subset_refl first]
  have "foldl (index_file it) (Map.empty, ?zero, st) (files @ tests) =
      (entries, \<lparr>is_computed = 0, is_reused = is_computed stats + is_reused stats, is_fallbacks = is_fallbacks stats\<rparr>, st)"
    using f by (subst settled_pass) (simp_all add: settled_entries_def)
  then show ?thesis unfolding index_build_def first by simp
qed

definition example_tools :: IndexTools where
  "example_tools = \<lparr>it_decl = (\<lambda>_ l. starts_with l ''fn ''), it_lower = (\<lambda>s. s),
     it_imports = \<lparr>ip_mods = (\<lambda>_. []), ip_uses = (\<lambda>_. []), ip_specifiers = (\<lambda>_. [])\<rparr>,
     it_sha1 = (\<lambda>_. replicate 40 CHR ''0'')\<rparr>"

lemma example_anchored: "anchored (it_decl example_tools)"
  by (auto simp: anchored_def example_tools_def prefix_def less_eq_char_def)

theorem index_regions_sound_witness:
  "covers (''fn a() {'' @ NL # ''}'') 80
     (index_regions example_tools \<lparr>ri_entries = Map.empty, ri_graph = graph_build (it_imports example_tools) [],
        ri_tests = Map.empty, ri_changed_tests = Map.empty, ri_stats = \<lparr>is_computed = 0, is_reused = 0, is_fallbacks = 0\<rparr>\<rparr>
        \<lparr>sf_path = ''a.rs'', sf_content = ''fn a() {'' @ NL # ''}''\<rparr> 80)"
  using index_regions_sound [OF example_anchored, of 80 "\<lparr>sf_path = ''a.rs'', sf_content = ''fn a() {'' @ NL # ''}''\<rparr>"]
  by (simp add: usize_limit_def)

theorem rebuild_reuses_witness:
  "case index_build example_tools [\<lparr>sf_path = ''a.rs'', sf_content = ''fn a() {}''\<rparr>] []
        \<lparr>ix_files = Map.empty, ix_writable = (\<lambda>_. True)\<rparr> of (ri, st) \<Rightarrow>
     index_build example_tools [\<lparr>sf_path = ''a.rs'', sf_content = ''fn a() {}''\<rparr>] [] st =
      (ri\<lparr>ri_stats := \<lparr>is_computed = 0, is_reused = is_computed (ri_stats ri) + is_reused (ri_stats ri),
                       is_fallbacks = is_fallbacks (ri_stats ri)\<rparr>\<rparr>, st)"
  by (rule rebuild_reuses [OF example_anchored])
    (simp_all add: collision_free_def example_tools_def indexable_def usize_limit_def)

end
