(* ===== verification/Judging.thy ===== *)
theory Judging
  imports Workflow Repo_Index
begin

text \<open>
  What the judgments of the two modes share (\<open>review/meta.rs\<close> and the common steps of
  \<open>review/judgments.rs\<close> and \<open>review/codebase_judgments.rs\<close>): the probabilities of a screening, and
  the steps from selected evidence to a finding: mechanism, severity, the skeptical second pass,
  and the route.
\<close>

section \<open>Requests in sequence\<close>

text \<open>The \<open>?\<close> of the code: a request whose answer is read, and a step that needs the one before.\<close>

definition asked :: "'s service \<Rightarrow> json \<Rightarrow> json \<Rightarrow> (Response \<Rightarrow> 'a result) \<Rightarrow> 's \<Rightarrow> 'a result \<times> 's" where
  "asked ask state questions read s =
     (case ask state questions s of (res, s') \<Rightarrow> (and_then res read, s'))"

definition then_try :: "('s \<Rightarrow> 'a result \<times> 's) \<Rightarrow> ('a \<Rightarrow> 's \<Rightarrow> 'b result \<times> 's) \<Rightarrow> 's \<Rightarrow> 'b result \<times> 's" where
  "then_try m k s = (case m s of (Inl e, s') \<Rightarrow> (Inl e, s') | (Inr x, s') \<Rightarrow> k x s')"

lemma then_try_Inr:
  "then_try m k s = (Inr y, s') \<longleftrightarrow> (\<exists>x s1. m s = (Inr x, s1) \<and> k x s1 = (Inr y, s'))"
  by (auto simp: then_try_def split: prod.splits sum.splits)

lemma then_try_keeps:
  "ok s \<Longrightarrow> (\<And>s. ok s \<Longrightarrow> ok (snd (m s))) \<Longrightarrow> (\<And>x s. ok s \<Longrightarrow> ok (snd (k x s))) \<Longrightarrow> ok (snd (then_try m k s))"
  by (simp add: then_try_def case_prod_beta split: sum.split)

context judging_service
begin

lemma asked_kept: "ok s \<Longrightarrow> ok (snd (asked ask state questions read s))"
  by (simp add: asked_def case_prod_beta ask_ok)

end

section \<open>Payloads\<close>

definition changed_json :: "ChangedFile \<Rightarrow> json" where
  "changed_json f = obj [(''path'', JStr (cf_path f)), (''patch'', JStr (cf_patch f)), (''base'', JStr (cf_base f))]"

definition source_json :: "SourceFile \<Rightarrow> json" where
  "source_json f = obj [(''path'', JStr (sf_path f)), (''content'', JStr (sf_content f))]"

text \<open>\<open>serde_json::from_value::<Vec<SourceFile>>(..).unwrap_or_default()\<close>\<close>

definition source_of_json :: "json \<Rightarrow> SourceFile option" where
  "source_of_json v =
     (case (json_get ''path'' v, json_get ''content'' v) of
        (Some (JStr p), Some (JStr c)) \<Rightarrow> Some \<lparr>sf_path = p, sf_content = c\<rparr>
      | _ \<Rightarrow> None)"

fun sources_of_json :: "json \<Rightarrow> SourceFile list" where
  "sources_of_json (JArr vs) =
     (if list_all (\<lambda>v. source_of_json v \<noteq> None) vs then map (\<lambda>v. the (source_of_json v)) vs else [])"
| "sources_of_json _ = []"

lemma sources_of_json_array [simp]: "sources_of_json (JArr (map source_json fs)) = fs"
proof -
  have one: "source_of_json (source_json f) = Some f" for f
    by (cases f) (simp add: source_of_json_def source_json_def json_get_obj)
  then have "list_all (\<lambda>v. source_of_json v \<noteq> None) (map source_json fs)" by (simp add: list_all_iff)
  then show ?thesis by (simp add: one comp_def)
qed

definition probabilities_json :: "Probabilities \<Rightarrow> json" where
  "probabilities_json probs = obj (map (\<lambda>(d, p). (dimension_key d, jnum p)) (prob_entries probs))"

definition concern_json :: "Dimension \<Rightarrow> json" where
  "concern_json d =
     obj [(''dimension'', JStr (dimension_key d)), (''definition'', JStr (dimension_definition d))]"

section \<open>Screening answers\<close>

text \<open>Security is the highest of its three questions.\<close>

definition screen_probabilities :: "Response \<Rightarrow> Probabilities result" where
  "screen_probabilities r =
     and_then (resp_noul r ''security'') (\<lambda>s1.
     and_then (resp_noul r ''cryptoSecrets'') (\<lambda>s2.
     and_then (resp_noul r ''misconfig'') (\<lambda>s3.
     and_then (resp_noul r ''correctness'') (\<lambda>correctness.
     and_then (resp_noul r ''reliability'') (\<lambda>reliability.
     and_then (resp_noul r ''compatibility'') (\<lambda>compatibility.
     and_then (resp_noul r ''testGap'') (\<lambda>testgap.
       Inr [Correctness \<mapsto> correctness, Security \<mapsto> f64_max (f64_max s1 s2) s3, Reliability \<mapsto> reliability,
            Compatibility \<mapsto> compatibility, TestGap \<mapsto> testgap])))))))"

section \<open>The second, skeptical pass\<close>

definition meta_question :: "string \<Rightarrow> json" where
  "meta_question mechanism =
     JStr (''Independently of the earlier screening, does selectedEvidence concretely support that this is a '' @
       CHR 0x27 # mechanism @ CHR 0x27 # '' concern, rather than a weaker or unrelated issue?'')"

definition meta_judge :: "'s service \<Rightarrow> Dimension \<Rightarrow> string \<Rightarrow> json \<Rightarrow> 's \<Rightarrow> f64 result \<times> 's" where
  "meta_judge ask d mechanism evidence =
     asked ask
       (obj [(''suspectedConcern'', obj
                [(''dimension'', JStr (dimension_key d)), (''definition'', JStr (dimension_definition d)),
                 (''mechanism'', JStr mechanism)]),
             (''selectedEvidence'', evidence)])
       (obj [(''supported'', noul
                (obj [(''question'', meta_question mechanism), (''inspect'', JStr ''selectedEvidence'')])
                (obj [(''true'', obj [(''what'', JStr ''The evidence concretely shows the mechanism'')]),
                      (''false'', obj [(''what'', JStr ''The evidence is too weak, or supports a different or lesser issue'')])]))])
       (\<lambda>r. resp_noul r ''supported'')"

section \<open>From evidence to a finding\<close>

definition evidence_state :: "string \<Rightarrow> Dimension \<Rightarrow> json \<Rightarrow> json" where
  "evidence_state path d selected =
     obj [(''file'', JStr path), (''suspectedConcern'', concern_json d), (''selectedEvidence'', selected)]"

definition classify :: "'s service \<Rightarrow> string \<Rightarrow> Dimension \<Rightarrow> json \<Rightarrow> 's \<Rightarrow> (string \<times> f64) result \<times> 's" where
  "classify ask path d selected =
     asked ask (evidence_state path d selected)
       (obj [(''mechanism'', choice
                (JStr ''Which mechanism best describes the suspected concern supported by selectedEvidence?'')
                (mechanism_criteria path d))])
       (\<lambda>r. resp_choice r ''mechanism'')"

definition score_impact :: "'s service \<Rightarrow> string \<Rightarrow> Dimension \<Rightarrow> json \<Rightarrow> 's \<Rightarrow> (f64 \<times> f64) result \<times> 's" where
  "score_impact ask path d selected =
     asked ask (evidence_state path d selected)
       (obj [(''severity'', score
                (JStr ''Assuming selectedEvidence exhibits suspectedConcern, rate the likely production impact.'')
                (score_criteria SEVERITY_RUBRIC))])
       (\<lambda>r. resp_score r ''severity'')"

definition route_owner ::
  "'s service \<Rightarrow> string \<Rightarrow> Dimension \<Rightarrow> string \<Rightarrow> f64 \<Rightarrow> json \<Rightarrow> 's \<Rightarrow> (string option \<times> f64 option) result \<times> 's" where
  "route_owner ask path d mechanism severity selected s =
     (if ROUTE_SEVERITY \<le> severity then
        asked ask
          (obj [(''file'', JStr path),
                (''concern'', obj [(''dimension'', JStr (dimension_key d)), (''mechanism'', JStr mechanism),
                                   (''severity'', jnum severity)]),
                (''selectedEvidence'', selected)])
          (obj [(''owner'', choice (JStr ''Which reviewer is best suited to investigate this concern?'')
                   (choice_criteria OWNERS))])
          (\<lambda>r. and_then (resp_choice r ''owner'') (\<lambda>(owner, confidence). Inr (Some owner, Some confidence))) s
      else (Inr (None, None), s))"

text \<open>
  A selected piece of evidence: how it is shown to the service, where its finding points, its text,
  and what the second pass sees.
\<close>

record Evidence =
  ev_selected :: json
  ev_line :: nat
  ev_text :: string
  ev_meta :: json

definition judge_evidence ::
  "'s service \<Rightarrow> string \<Rightarrow> Dimension \<Rightarrow> f64 \<Rightarrow> f64 \<Rightarrow> Evidence \<Rightarrow> 's \<Rightarrow> Finding option result \<times> 's" where
  "judge_evidence ask path d probability confidence ev =
     then_try (classify ask path d (ev_selected ev)) (\<lambda>(mechanism, mechanism_confidence).
       if mechanism = ''noIssue'' then Pair (Inr None)
       else then_try (score_impact ask path d (ev_selected ev)) (\<lambda>(severity, severity_confidence).
         then_try (meta_judge ask d mechanism (ev_meta ev)) (\<lambda>support.
           if support < MIN_META_JUDGE_CONFIDENCE then Pair (Inr None)
           else then_try (route_owner ask path d mechanism severity (ev_selected ev)) (\<lambda>(owner, owner_confidence).
             Pair (Inr (Some (default_finding
               \<lparr>f_file := path, f_line := ev_line ev, f_dimension := d, f_probability := probability,
                f_location_confidence := confidence, f_mechanism := mechanism,
                f_mechanism_confidence := mechanism_confidence, f_severity := severity,
                f_severity_confidence := severity_confidence, f_owner := owner,
                f_owner_confidence := owner_confidence,
                f_action := (if BLOCKING_SEVERITY \<le> severity then RequestChanges else Comment),
                f_evidence := ev_text ev\<rparr>)))))))"

text \<open>
  The first step: the service picks one of the candidates by its id, or none with enough confidence.
\<close>

definition pick_evidence ::
  "'s service \<Rightarrow> json \<Rightarrow> json \<Rightarrow> ('c \<Rightarrow> string) \<Rightarrow> 'c list \<Rightarrow> 's \<Rightarrow> ('c \<times> f64) option result \<times> 's" where
  "pick_evidence ask state questions ident cands =
     asked ask state questions (\<lambda>r.
       and_then (resp_choice r ''evidence'') (\<lambda>(selected, confidence).
         if selected = ''noMatch'' \<or> confidence < MIN_LOCATION_CONFIDENCE then Inr None
         else Inr (map_option (\<lambda>c. (c, confidence)) (find (\<lambda>c. ident c = selected) cands))))"

definition pick_state :: "string \<Rightarrow> Dimension \<Rightarrow> f64 \<Rightarrow> string \<Rightarrow> json \<Rightarrow> json" where
  "pick_state path d probability key cands =
     obj [(''file'', JStr path),
          (''suspectedConcern'', obj
             [(''dimension'', JStr (dimension_key d)), (''definition'', JStr (dimension_definition d)),
              (''screeningProbability'', jnum probability)]),
          (key, cands)]"

section \<open>What a finding rests on\<close>

text \<open>
  A finding for one signal: it was located and named with the required confidence, it asks for
  changes exactly from the blocking severity on, and it has an owner exactly from the routing
  severity on. Nothing else is set yet.
\<close>

definition judged :: "string \<Rightarrow> Dimension \<Rightarrow> f64 \<Rightarrow> Finding \<Rightarrow> bool" where
  "judged path d probability f \<longleftrightarrow>
     f_file f = path \<and> f_dimension f = d \<and> f_probability f = probability \<and>
     \<not> f_location_confidence f < MIN_LOCATION_CONFIDENCE \<and> f_mechanism f \<noteq> ''noIssue'' \<and>
     (f_action f = RequestChanges \<longleftrightarrow> BLOCKING_SEVERITY \<le> f_severity f) \<and>
     (f_owner f \<noteq> None \<longleftrightarrow> ROUTE_SEVERITY \<le> f_severity f) \<and>
     (f_owner_confidence f \<noteq> None \<longleftrightarrow> ROUTE_SEVERITY \<le> f_severity f) \<and>
     f_fingerprint f = [] \<and> f_related f = [] \<and> f_rank f = None"

lemma route_owner_owned:
  "route_owner ask path d mechanism severity selected s = (Inr (owner, oc), s') \<Longrightarrow>
     (owner \<noteq> None \<longleftrightarrow> ROUTE_SEVERITY \<le> severity) \<and> (oc \<noteq> None \<longleftrightarrow> ROUTE_SEVERITY \<le> severity)"
  by (auto simp: route_owner_def asked_def and_then_eq_Inr split: if_splits prod.splits)

lemma judge_evidence_judged:
  assumes "judge_evidence ask path d probability confidence ev s = (Inr (Some f), s')"
    and "\<not> confidence < MIN_LOCATION_CONFIDENCE"
  shows "judged path d probability f \<and> f_line f = ev_line ev \<and> f_evidence f = ev_text ev"
  using assms(1)
  by (auto simp: judge_evidence_def then_try_Inr judged_def assms(2) default_finding_def
      dest!: route_owner_owned split: if_splits prod.splits)

lemma pick_evidence_candidate:
  "pick_evidence ask state questions ident cands s = (Inr (Some (c, confidence)), s') \<Longrightarrow>
     c \<in> set cands \<and> \<not> confidence < MIN_LOCATION_CONFIDENCE"
  by (auto simp: pick_evidence_def asked_def and_then_eq_Inr find_Some_iff split: prod.splits if_splits)

context judging_service
begin

lemma step_kept:
  "ok s \<Longrightarrow> ok (snd (classify ask path d selected s))"
  "ok s \<Longrightarrow> ok (snd (score_impact ask path d selected s))"
  "ok s \<Longrightarrow> ok (snd (meta_judge ask d mechanism evidence s))"
  "ok s \<Longrightarrow> ok (snd (route_owner ask path d mechanism severity selected s))"
  by (simp_all add: classify_def score_impact_def meta_judge_def route_owner_def asked_kept)

lemma judge_evidence_kept:
  assumes "ok s"
  shows "ok (snd (judge_evidence ask path d probability confidence ev s))"
proof -
  let ?sel = "ev_selected ev"
  have route: "ok (snd (then_try (route_owner ask path d m sev ?sel) (\<lambda>(owner, oc). Pair (R owner oc)) t))"
    if "ok t" for m sev R t
    using that by (rule then_try_keeps) (auto simp: step_kept split: prod.split)
  have support: "ok (snd (then_try (meta_judge ask d m (ev_meta ev)) (\<lambda>support.
      if support < MIN_META_JUDGE_CONFIDENCE then Pair (Inr None)
      else then_try (route_owner ask path d m sev ?sel) (\<lambda>(owner, oc). Pair (R owner oc))) t))"
    if "ok t" for m sev R t
    using that by (rule then_try_keeps) (simp_all add: step_kept route)
  have impact: "ok (snd (then_try (score_impact ask path d ?sel) (\<lambda>(sev, sc).
      then_try (meta_judge ask d m (ev_meta ev)) (\<lambda>support.
        if support < MIN_META_JUDGE_CONFIDENCE then Pair (Inr None)
        else then_try (route_owner ask path d m sev ?sel) (\<lambda>(owner, oc). Pair (R sev sc owner oc)))) t))"
    if "ok t" for m R t
    using that by (rule then_try_keeps) (auto simp: step_kept support split: prod.split)
  show ?thesis
    unfolding judge_evidence_def
    using assms by (rule then_try_keeps) (auto simp: step_kept impact split: prod.split)
qed

lemma pick_evidence_kept: "ok s \<Longrightarrow> ok (snd (pick_evidence ask state questions ident cands s))"
  unfolding pick_evidence_def by (rule asked_kept)

end

end
