(* ===== verification/Judgments.thy ===== *)
theory Judgments
  imports Judging
begin

text \<open>
  The judgments of the diff mode (\<open>review/judgments.rs\<close>): screening a changed file with the context
  that fits its budget, its profile, the evidence candidates of its patch, and locating a signal.
\<close>

definition CHANGE_TYPES :: "(string \<times> string) list" where
  "CHANGE_TYPES =
    [(''behavior'', ''Adds or changes runtime behavior''),
     (''interface'', ''Changes an exported API, type, protocol, or data shape''),
     (''infrastructure'', ''Changes execution, scheduling, build, or operational plumbing''),
     (''observability'', ''Changes events, logging, monitoring, or diagnostics''),
     (''refactor'', ''Restructures implementation without intending behavior changes''),
     (''routine'', ''A small routine change that fits none of the other categories'')]"

section \<open>Screening\<close>

definition screen_questions :: json where
  \<open>screen_questions =
     obj
     [(''correctness'', noul
         (obj
         [(''question'', JStr ''Does file.patch directly support that this change likely introduces incorrect runtime behavior?''),
          (''compare'', strs [''file.base'', ''file.patch'']),
          (''focus'', JStr ''Concrete behavior, state, data-flow, or async errors introduced by added or modified lines''),
          (''ignore'', strs [''Style preferences'', ''Naming concerns'', ''Unsupported speculation''])])
         (obj
         [(''true'', obj
           [(''what'', JStr ''The patch contains a realistic path to a wrong runtime result''),
            (''examples'', strs [''A condition now handles the opposite case'', ''A value is written to the wrong field''])]),
          (''false'', obj
           [(''what'', JStr ''The patch is correct, non-behavioral, or lacks direct evidence of a bug''),
            (''examples'', strs [''Formatting only'', ''A refactor that preserves data flow''])])])),
      (''security'', noul
         (obj
         [(''question'', JStr ''Does file.patch directly support that this change introduces or weakens a security boundary?''),
          (''inspect'', JStr ''file.patch''),
          (''focus'', JStr ''Authorization, injection, secret exposure, trust boundaries, and unsafe defaults'')])
         (obj
         [(''true'', obj
           [(''what'', JStr ''The patch creates a concrete path around a security control or into an unsafe sink''),
            (''examples'', strs [''An authorization check is removed'', ''Untrusted input reaches command execution''])]),
          (''false'', obj
           [(''what'', JStr ''No security boundary is weakened by the patch''),
            (''not_for'', JStr ''Code that merely uses security-related names'')])])),
      (''cryptoSecrets'', noul
         (obj
         [(''question'', JStr ''Does file.patch directly support that this change introduces or relies on a cryptographic or secret-management weakness?''),
          (''inspect'', JStr ''file.patch''),
          (''focus'', JStr ''Weak, missing, or misused cryptography; hardcoded secrets or keys; predictable randomness'')])
         (obj
         [(''true'', obj
           [(''what'', JStr ''The patch uses cryptography or secrets in a way that weakens the boundary''),
            (''examples'', strs [''A new hardcoded key or password'', ''ECB mode or a predictable IV/nonce'', ''A fast hash added where a KDF is needed''])]),
          (''false'', obj
           [(''what'', JStr ''Cryptography and secret handling appear appropriate, or the patch does none''),
            (''not_for'', JStr ''Mere use of cryptographic APIs'')])])),
      (''misconfig'', noul
         (obj
         [(''question'', JStr ''Does file.patch directly support that this change introduces a security-relevant misconfiguration?''),
          (''inspect'', JStr ''file.patch''),
          (''focus'', JStr ''Missing security headers, permissive CORS, debug or stack-trace output, directory listing, default or empty credentials, verbose errors'')])
         (obj
         [(''true'', obj
           [(''what'', JStr ''The patch creates, or fails to tighten, an avoidable exposure''),
            (''examples'', strs [''Access-Control-Allow-Origin: * added to an authenticated endpoint'', ''Debug or verbose error output left enabled'', ''A default or empty password fallback''])]),
          (''false'', obj
           [(''what'', JStr ''Security-relevant configuration appears locked down''),
            (''not_for'', JStr ''Configuration that is merely unusual or non-security'')])])),
      (''reliability'', noul
         (obj
         [(''question'', JStr ''Does file.patch directly support that this change can crash, race, leak, deadlock, or recover poorly?''),
          (''inspect'', JStr ''file.patch''),
          (''focus'', JStr ''Realistic resource, concurrency, cancellation, and failure paths'')])
         (obj
         [(''true'', obj
           [(''what'', JStr ''A changed path can lose work, leak resources, hang, crash, or leave inconsistent state''),
            (''examples'', strs [''Cleanup is skipped after failure'', ''Concurrent work updates shared state unsafely''])]),
          (''false'', obj
           [(''what'', JStr ''The patch preserves safe lifecycle and failure handling'')])])),
      (''compatibility'', noul
         (obj
         [(''question'', JStr ''Does file.patch directly support that this change can break an existing caller, format, protocol, or public behavior?''),
          (''inspect'', JStr ''file.patch''),
          (''focus'', JStr ''Externally observed contracts rather than internal implementation details'')])
         (obj
         [(''true'', obj
           [(''what'', JStr ''An existing consumer can fail because a contract changed without a safe migration''),
            (''examples'', strs [''A required field is removed'', ''A persisted value changes meaning''])]),
          (''false'', obj
           [(''what'', JStr ''The changed contract remains compatible or is entirely internal'')])])),
      (''testGap'', noul
         (obj
         [(''question'', JStr ''Does file.patch change important behavior without adequate targeted evidence in changedTests?''),
          (''compare'', strs [''file.patch'', ''changedTests'']),
          (''focus'', JStr ''New branches, boundaries, failure paths, and component interactions'')])
         (obj
         [(''true'', obj
           [(''what'', JStr ''Important changed behavior has no targeted changed test''),
            (''examples'', strs [''A new failure branch has no assertion'', ''A protocol change lacks a compatibility test''])]),
          (''false'', obj
           [(''what'', JStr ''Changed tests exercise the important behavior, or the patch is non-behavioral''),
            (''examples'', strs [''A focused regression test covers the branch'', ''Documentation-only change''])])]))]\<close>

text \<open>The request's state and what did not fit its budget: the patch first, then its base, the
  related tests, the neighbors and the signatures.\<close>

definition changed_state ::
  "ChangedFile \<Rightarrow> ChangedFile list \<Rightarrow> SourceFile list \<Rightarrow> string \<Rightarrow> ContextBudget \<Rightarrow> json \<times> ContextDrops" where
  "changed_state f tests neighbors signatures b0 =
     (let (patch, b1) = budget_take (cf_patch f) b0;
          (base, b2) = budget_take (cf_base f) b1;
          (patches, b3) = take_all (map cf_patch tests) b2;
          (contents, b4) = take_all (map sf_content neighbors) b3;
          (sigs, b5) = budget_take signatures b4
      in (obj [(''file'', changed_json \<lparr>cf_path = cf_path f, cf_patch = patch, cf_base = base\<rparr>),
               (''changedTests'', JArr (map2 (\<lambda>t p. changed_json \<lparr>cf_path = cf_path t, cf_patch = p, cf_base = []\<rparr>) tests patches)),
               (''neighbors'', JArr (map2 (\<lambda>n c. source_json \<lparr>sf_path = sf_path n, sf_content = c\<rparr>) neighbors contents)),
               (''exportSignatures'', JStr sigs)],
          bg_drops b5))"

definition screen_file_indexed ::
  "string option \<Rightarrow> (string \<Rightarrow> string) \<Rightarrow> 's service \<Rightarrow> ChangedFile \<Rightarrow> ChangedFile list \<Rightarrow> RepoIndex option \<Rightarrow> json \<Rightarrow>
    's \<Rightarrow> ChangedFile Screening result \<times> 's" where
  "screen_file_indexed env lower ask f changed_tests index neighbors s =
     (let tests = (case Option.bind index (\<lambda>ri. related_changed_tests ri (cf_path f)) of
                     Some ts \<Rightarrow> ts | None \<Rightarrow> select_related_changed_tests lower f changed_tests);
          signatures = (case index of None \<Rightarrow> [] | Some ri \<Rightarrow> index_signatures ri (cf_path f))
      in case budget_from_env env of
           Inl e \<Rightarrow> (Inl e, s)
         | Inr b \<Rightarrow>
             (case changed_state f tests (sources_of_json neighbors) signatures b of
                (state, drops) \<Rightarrow>
                  asked ask state screen_questions (\<lambda>r.
                    and_then (screen_probabilities r) (\<lambda>probs.
                      Inr \<lparr>scr_file = f, scr_probabilities = probs, scr_dropped = drops\<rparr>)) s))"

definition screen_file ::
  "string option \<Rightarrow> (string \<Rightarrow> string) \<Rightarrow> 's service \<Rightarrow> ChangedFile \<Rightarrow> ChangedFile list \<Rightarrow> 's \<Rightarrow> ChangedFile Screening result \<times> 's" where
  "screen_file env lower ask f changed_tests = screen_file_indexed env lower ask f changed_tests None (JArr [])"

section \<open>Profiles\<close>

definition profile_of_response :: "string \<Rightarrow> Response \<Rightarrow> FileProfile result" where
  "profile_of_response path r =
     and_then (resp_choice r ''category'') (\<lambda>(category, category_confidence).
     and_then (resp_score r ''reviewPriority'') (\<lambda>(priority, priority_confidence).
       Inr \<lparr>fp_file = path, fp_category = category, fp_category_confidence = category_confidence,
            fp_review_priority = priority, fp_review_priority_confidence = priority_confidence\<rparr>))"

definition profile_file :: "'s service \<Rightarrow> ChangedFile \<Rightarrow> Probabilities \<Rightarrow> 's \<Rightarrow> FileProfile result \<times> 's" where
  \<open>profile_file ask f probs =
     asked ask
       (obj [(''file'', changed_json f), (''screeningProbabilities'', probabilities_json probs)])
       (obj [(''category'', choice
                (obj [(''question'', JStr ''Which category best describes file.patch?''),
                      (''focus'', JStr ''Primary purpose of the change'')])
                (choice_criteria CHANGE_TYPES)),
             (''reviewPriority'', score
                (JStr ''Rate how closely a human should review file.patch, considering the code and screeningProbabilities.'')
                (score_criteria REVIEW_PRIORITY_RUBRIC))])
       (profile_of_response (cf_path f))\<close>

section \<open>Evidence candidates\<close>

definition MAX_EVIDENCE_LINES :: nat where "MAX_EVIDENCE_LINES = 80"

definition new_side :: "Hunk \<Rightarrow> string list" where
  "new_side h =
     map tl (filter (\<lambda>line. starts_with line '' '' \<or> starts_with line ''+'') (tl (split_on NL (h_patch h))))"

text \<open>One hunk, or its pieces at the declarations of its new side.\<close>

definition hunk_candidates :: "IndexTools \<Rightarrow> string \<Rightarrow> Hunk \<Rightarrow> Hunk list" where
  "hunk_candidates it path h =
     (if length (new_side h) \<le> MAX_EVIDENCE_LINES then [h]
      else split_hunk h
        (map (\<lambda>r. usize_sub (usize_add (h_start_line h) (rg_start_line r)) 1)
          (tl (regions_of it (join [NL] (new_side h)) path MAX_EVIDENCE_LINES))))"

definition candidate_hunks :: "IndexTools \<Rightarrow> ChangedFile \<Rightarrow> Hunk list" where
  "candidate_hunks it f =
     map (\<lambda>(i, h). h\<lparr>h_id := ''hunk_'' @ show_nat i\<rparr>)
       (enumerate 1 (concat (map (hunk_candidates it (cf_path f)) (parse_hunks (cf_patch f)))))"

section \<open>Locating a signal\<close>

definition hunk_json :: "Hunk \<Rightarrow> json" where
  "hunk_json h = obj [(''id'', JStr (h_id h)), (''startLine'', jnat (h_start_line h)), (''patch'', JStr (h_patch h))]"

definition hunk_questions :: "Hunk list \<Rightarrow> json" where
  \<open>hunk_questions hunks =
     obj [(''evidence'', choice
       (obj [(''question'', JStr ''Which candidate hunk provides the strongest direct evidence for suspectedConcern?''),
             (''fallback'', JStr ''Select noMatch when no hunk provides sufficient evidence'')])
       (obj (map (\<lambda>h. (h_id h, JStr (''Candidate beginning at changed-file line '' @ show_nat (h_start_line h)))) hunks
             @ [(''noMatch'', JStr ''No candidate hunk directly supports the suspected concern'')])))]\<close>

definition hunk_evidence :: "ChangedFile \<Rightarrow> Hunk \<Rightarrow> Evidence" where
  "hunk_evidence f h =
     \<lparr>ev_selected = hunk_json h, ev_line = first_added_line h, ev_text = h_patch h,
      ev_meta = obj [(''hunk'', hunk_json h), (''base'', JStr (cf_base f))]\<rparr>"

definition locate_signal ::
  "IndexTools \<Rightarrow> 's service \<Rightarrow> ChangedFile Signal \<Rightarrow> 's \<Rightarrow> Finding option result \<times> 's" where
  "locate_signal it ask sig s =
     (let f = sg_file sig; d = sg_dimension sig; hunks = candidate_hunks it f in
      if hunks = [] then (Inr None, s)
      else then_try
        (pick_evidence ask (pick_state (cf_path f) d (sg_probability sig) ''candidateHunks'' (JArr (map hunk_json hunks)))
           (hunk_questions hunks) h_id hunks)
        (\<lambda>picked. case picked of
             None \<Rightarrow> Pair (Inr None)
           | Some (h, confidence) \<Rightarrow>
               judge_evidence ask (cf_path f) d (sg_probability sig) confidence (hunk_evidence f h)) s)"

section \<open>Every changed line is offered as evidence\<close>

lemma new_side_eq: "new_side h = map tl (filter (\<lambda>l. first_byte l \<in> {Some (CHR '' ''), Some (CHR ''+'')}) (tl (split_on NL (h_patch h))))"
proof -
  have "(starts_with l '' '' \<or> starts_with l ''+'') = (first_byte l \<in> {Some (CHR '' ''), Some (CHR ''+'')})" for l
    by (cases l) auto
  then show ?thesis by (simp add: new_side_def)
qed

lemma split_new_side:
  assumes "length (split_on NL (h_patch h)) \<le> usize_limit"
  shows "concat (map new_side (split_hunk h cuts)) = new_side h"
proof (cases "hunk_ranges (hd (split_on NL (h_patch h)))")
  case None
  then show ?thesis by (simp add: split_hunk_def Let_def)
next
  case (Some r)
  obtain os ol ns nl where r: "r = (os, ol, ns, nl)" by (cases r)
  from split_hunk_split [OF Some [unfolded r] assms, of cuts] show ?thesis
  proof
    assume "split_of cuts (tl (split_on NL (h_patch h))) (split_hunk h cuts)"
    then have lines: "concat (map (\<lambda>h. tl (split_on NL (h_patch h))) (split_hunk h cuts))
        = filter is_body_line (tl (split_on NL (h_patch h)))" by (simp add: split_of_def)
    let ?new = "\<lambda>l. first_byte l \<in> {Some (CHR '' ''), Some (CHR ''+'')}"
    have "concat (map new_side hs) = map tl (filter ?new (concat (map (\<lambda>h. tl (split_on NL (h_patch h))) hs)))" for hs
      by (induction hs) (simp_all add: new_side_eq)
    then have "concat (map new_side (split_hunk h cuts)) = map tl (filter ?new (filter is_body_line (tl (split_on NL (h_patch h)))))"
      by (simp only: lines)
    also have "\<dots> = new_side h" unfolding new_side_eq filter_filter
      by (rule arg_cong [where f = "map tl"], rule filter_cong) (auto simp: is_body_line_def)
    finally show ?thesis .
  qed simp
qed

lemma numbered_hunks:
  "map h_id (map (\<lambda>(i, h). h\<lparr>h_id := g i\<rparr>) (enumerate n hs)) = map g [n..<n + length hs]"
  "map new_side (map (\<lambda>(i, h). h\<lparr>h_id := g i\<rparr>) (enumerate n hs)) = map new_side hs"
  by (induction hs arbitrary: n) (simp_all add: new_side_def upt_rec)

text \<open>
  The evidence candidates leave out no line of the change: together they have, in order, the
  lines of the new side of the patch's hunks, however the large ones are cut; and they are numbered
  from 1, so the id that the service selects names one of them.
\<close>

theorem candidates_complete:
  assumes "\<forall>h \<in> set (parse_hunks (cf_patch f)). length (split_on NL (h_patch h)) \<le> usize_limit"
  shows "concat (map new_side (candidate_hunks it f)) = concat (map new_side (parse_hunks (cf_patch f))) \<and>
    map h_id (candidate_hunks it f) = map (\<lambda>i. ''hunk_'' @ show_nat i) [1..<Suc (length (candidate_hunks it f))] \<and>
    distinct (map h_id (candidate_hunks it f))"
proof -
  let ?hs = "concat (map (hunk_candidates it (cf_path f)) (parse_hunks (cf_patch f)))"
  have ids: "map h_id (candidate_hunks it f) = map (\<lambda>i. ''hunk_'' @ show_nat i) [1..<Suc (length (candidate_hunks it f))]"
    unfolding candidate_hunks_def numbered_hunks(1) by simp
  have "map new_side (candidate_hunks it f) = map new_side ?hs"
    unfolding candidate_hunks_def numbered_hunks(2) ..
  moreover have "concat (map new_side (concat (map (hunk_candidates it (cf_path f)) hs))) = concat (map new_side hs)"
    if "\<forall>h \<in> set hs. length (split_on NL (h_patch h)) \<le> usize_limit" for hs
    using that by (induction hs) (simp_all add: hunk_candidates_def split_new_side)
  ultimately have "concat (map new_side (candidate_hunks it f)) = concat (map new_side (parse_hunks (cf_patch f)))"
    using assms by simp
  moreover have "distinct (map h_id (candidate_hunks it f))"
    unfolding ids by (auto simp: distinct_map inj_on_def dest: show_nat_inj)
  ultimately show ?thesis using ids by blast
qed

theorem candidates_complete_witness:
  "distinct (map h_id (candidate_hunks example_tools \<lparr>cf_path = ''a.rs'', cf_patch = h_patch example_hunk, cf_base = []\<rparr>))"
proof -
  have "parse_hunks (h_patch example_hunk) = [example_hunk]"
    by (simp add: example_hunk_def parse_hunks_def flush_def header_start_def header_token_def parse_eval show_nat_eval)
  then have "\<forall>h \<in> set (parse_hunks (cf_patch \<lparr>cf_path = ''a.rs'', cf_patch = h_patch example_hunk, cf_base = []\<rparr>)).
      length (split_on NL (h_patch h)) \<le> usize_limit"
    by (simp add: example_hunk_def usize_limit_def)
  from candidates_complete [OF this, of example_tools] show ?thesis by (elim conjE)
qed

section \<open>A finding rests on a candidate\<close>

definition hunk_grounded :: "IndexTools \<Rightarrow> ChangedFile Signal \<Rightarrow> Finding \<Rightarrow> bool" where
  "hunk_grounded it sig f \<longleftrightarrow>
     judged (cf_path (sg_file sig)) (sg_dimension sig) (sg_probability sig) f \<and>
     (\<exists>h \<in> set (candidate_hunks it (sg_file sig)). f_line f = first_added_line h \<and> f_evidence f = h_patch h)"

lemma locate_signal_grounded:
  "locate_signal it ask sig s = (Inr (Some f), s') \<Longrightarrow> hunk_grounded it sig f"
  by (auto simp: locate_signal_def Let_def then_try_Inr hunk_grounded_def hunk_evidence_def
      dest!: pick_evidence_candidate judge_evidence_judged split: if_splits option.splits) blast


context judging_service
begin

lemma change_judgments_kept:
  "ok s \<Longrightarrow> ok (snd (screen_file_indexed env lower ask f tests index neighbors s))"
  "ok s \<Longrightarrow> ok (snd (profile_file ask f probs s))"
  "ok s \<Longrightarrow> ok (snd (locate_signal it ask sig s))"
proof -
  show "ok s \<Longrightarrow> ok (snd (screen_file_indexed env lower ask f tests index neighbors s))"
    by (simp add: screen_file_indexed_def Let_def case_prod_beta asked_kept split: sum.split)
  show "ok s \<Longrightarrow> ok (snd (profile_file ask f probs s))" by (simp add: profile_file_def asked_kept)
  assume s: "ok s"
  have judge: "ok (snd ((case picked of None \<Rightarrow> Pair (Inr None)
      | Some (h, confidence) \<Rightarrow> judge_evidence ask path d p confidence (ev h)) t))" if "ok t" for picked path d p ev t
    using that by (simp add: judge_evidence_kept split: option.split prod.split)
  show "ok (snd (locate_signal it ask sig s))"
    using s by (simp add: locate_signal_def Let_def then_try_keeps [OF s pick_evidence_kept judge])
qed

end

end
