(* ===== verification/Codebase_Judgments.thy ===== *)
theory Codebase_Judgments
  imports Judgments
begin

text \<open>
  The judgments of the codebase mode (\<open>review/codebase_judgments.rs\<close>): a source file is screened
  region by region, the highest probability of each dimension counts; a signal is located in a
  region of the file.
\<close>

definition REGION_LINES :: nat where "REGION_LINES = 80"
definition SCREEN_REGION_LINES :: nat where "SCREEN_REGION_LINES = 160"
definition MAX_NEIGHBOR_LINES :: nat where "MAX_NEIGHBOR_LINES = 40"
definition MAX_NEIGHBOR_CHARS :: nat where "MAX_NEIGHBOR_CHARS = 1800"

definition FILE_ROLES :: "(string \<times> string) list" where
  "FILE_ROLES =
    [(''entrypoint'', ''Application, command, route, or public package entry point''),
     (''boundary'', ''Authentication, validation, serialization, or external-system boundary''),
     (''domain'', ''Core business rules, state transitions, or domain behavior''),
     (''persistence'', ''Database, cache, filesystem, migration, or durable state''),
     (''infrastructure'', ''Runtime, scheduling, networking, build, or operational plumbing''),
     (''utility'', ''Shared helper, adapter, formatting, or low-level utility'')]"

text \<open>A neighbor's excerpt; the limit compares bytes and keeps characters.\<close>

definition compact_neighbor :: "SourceFile \<Rightarrow> SourceFile" where
  "compact_neighbor f =
     (let content = join [NL] (take MAX_NEIGHBOR_LINES (split_on NL (sf_content f))) in
      \<lparr>sf_path = sf_path f,
       sf_content = (if MAX_NEIGHBOR_CHARS < length content then chars_take MAX_NEIGHBOR_CHARS content else content)\<rparr>)"

section \<open>Screening\<close>

definition source_screen_questions :: json where
  \<open>source_screen_questions =
     obj
     [(''correctness'', noul
         (obj
         [(''question'', JStr ''Does file.content directly support that this code contains incorrect runtime behavior?''),
          (''inspect'', JStr ''file.content''),
          (''focus'', JStr ''Concrete behavior, state, data-flow, or async errors reachable in realistic use''),
          (''ignore'', strs [''Style preferences'', ''Naming concerns'', ''Missing context with no concrete failure path''])])
         (obj
         [(''true'', obj
           [(''what'', JStr ''The source contains a realistic path to a wrong runtime result''),
            (''examples'', strs [''A condition handles the opposite case'', ''State is updated under the wrong key''])]),
          (''false'', obj
           [(''what'', JStr ''The implementation is coherent or no concrete incorrect path is supported''),
            (''not_for'', JStr ''Unusual code that is still internally consistent'')])])),
      (''security'', noul
         (obj
         [(''question'', JStr ''Does file.content directly support that this code weakens a security boundary?''),
          (''inspect'', JStr ''file.content''),
          (''focus'', JStr ''Authorization, injection, secret exposure, trust boundaries, and unsafe defaults'')])
         (obj
         [(''true'', obj
           [(''what'', JStr ''The source contains a concrete path around a control or into an unsafe sink''),
            (''examples'', strs [''A privileged action lacks authorization'', ''Untrusted input reaches command execution''])]),
          (''false'', obj
           [(''what'', JStr ''No concrete security weakness is supported by this file''),
            (''not_for'', JStr ''Code that merely handles credentials or permissions safely'')])])),
      (''cryptoSecrets'', noul
         (obj
         [(''question'', JStr ''Does file.content directly support a cryptographic or secret-management weakness?''),
          (''inspect'', JStr ''file.content''),
          (''focus'', JStr ''Weak, missing, or misused cryptography; hardcoded secrets or keys; predictable randomness'')])
         (obj
         [(''true'', obj
           [(''what'', JStr ''Cryptography or secrets are used in a way that weakens the boundary''),
            (''examples'', strs [''A hardcoded key or password in source'', ''ECB mode or a predictable IV/nonce'', ''A fast hash used instead of a password KDF''])]),
          (''false'', obj
           [(''what'', JStr ''Cryptography and secret handling appear appropriate, or the file does none''),
            (''not_for'', JStr ''Mere use of cryptographic APIs'')])])),
      (''misconfig'', noul
         (obj
         [(''question'', JStr ''Does file.content directly support a security-relevant misconfiguration?''),
          (''inspect'', JStr ''file.content''),
          (''focus'', JStr ''Missing security headers, permissive CORS, debug or stack-trace output, directory listing, default or empty credentials, verbose errors'')])
         (obj
         [(''true'', obj
           [(''what'', JStr ''A setting, or its absence, creates avoidable exposure''),
            (''examples'', strs [''Access-Control-Allow-Origin: * on an authenticated endpoint'', ''Debug or verbose error output left enabled'', ''A default or empty password fallback''])]),
          (''false'', obj
           [(''what'', JStr ''Security-relevant configuration appears locked down''),
            (''not_for'', JStr ''Configuration that is merely unusual or non-security'')])])),
      (''reliability'', noul
         (obj
         [(''question'', JStr ''Does file.content directly support that this code can crash, race, leak, deadlock, or recover poorly?''),
          (''inspect'', JStr ''file.content''),
          (''focus'', JStr ''Realistic resource, concurrency, cancellation, and failure paths'')])
         (obj
         [(''true'', obj
           [(''what'', JStr ''A reachable path can lose work, leak resources, hang, crash, or leave inconsistent state''),
            (''examples'', strs [''Cleanup is skipped after failure'', ''Concurrent work mutates shared state unsafely''])]),
          (''false'', obj
           [(''what'', JStr ''Lifecycle and failure handling appear safe, or no concrete failure path is supported'')])])),
      (''compatibility'', noul
         (obj
         [(''question'', JStr ''Does file.content directly support an internal inconsistency that can break a caller, format, protocol, or documented behavior?''),
          (''inspect'', JStr ''file.content''),
          (''focus'', JStr (''Contradictions between file.content and its callers/callees in neighbors, or visible in this source '' @ [CHR 0xE2] @ [CHR 0x80] @ [CHR 0x94] @ '' not guesses about unknown historical versions''))])
         (obj
         [(''true'', obj
           [(''what'', JStr ''The source contains conflicting contracts or a concrete caller-facing mismatch''),
            (''examples'', strs [''A parser and serializer disagree on a required field'', ''An exported type contradicts runtime behavior''])]),
          (''false'', obj
           [(''what'', JStr ''The visible contracts are internally consistent''),
            (''not_for'', JStr ''Speculation that an API may once have behaved differently'')])])),
      (''testGap'', noul
         (obj
         [(''question'', JStr ''Does file.content contain important behavior without adequate targeted evidence in relatedTests?''),
          (''compare'', strs [''file.content'', ''relatedTests'']),
          (''focus'', JStr ''Critical branches, boundaries, failure paths, and component interactions''),
          (''caution'', JStr ''A filename mismatch alone is not enough; identify behavior that specifically needs a test'')])
         (obj
         [(''true'', obj
           [(''what'', JStr ''Important behavior is present and the related tests do not exercise it''),
            (''examples'', strs [''An error-recovery branch has no assertion'', ''Authorization behavior lacks a denial test''])]),
          (''false'', obj
           [(''what'', JStr ''Related tests cover the important behavior, or this file has no behavior needing direct tests''),
            (''examples'', strs [''A focused test covers the boundary'', ''A declarative constants module''])])]))]\<close>

definition source_state ::
  "SourceFile \<Rightarrow> Region \<Rightarrow> SourceFile list \<Rightarrow> SourceFile list \<Rightarrow> string \<Rightarrow> ContextBudget \<Rightarrow> json \<times> ContextDrops" where
  "source_state f region tests neighbors signatures b0 =
     (let (content, b1) = budget_take (rg_content region) b0;
          (test_contents, b2) = take_all (map sf_content tests) b1;
          (contents, b3) = take_all (map sf_content neighbors) b2;
          (sigs, b4) = budget_take signatures b3
      in (obj [(''file'', obj [(''path'', JStr (sf_path f)), (''startLine'', jnat (rg_start_line region)),
                               (''content'', JStr content)]),
               (''relatedTests'', JArr (map2 (\<lambda>t c. source_json \<lparr>sf_path = sf_path t, sf_content = c\<rparr>) tests test_contents)),
               (''neighbors'', JArr (map2 (\<lambda>n c. source_json \<lparr>sf_path = sf_path n, sf_content = c\<rparr>) neighbors contents)),
               (''exportSignatures'', JStr sigs)],
          bg_drops b4))"

text \<open>One request per region, up to the first that fails.\<close>

fun screen_regions ::
  "string option \<Rightarrow> 's service \<Rightarrow> SourceFile \<Rightarrow> SourceFile list \<Rightarrow> SourceFile list \<Rightarrow> string \<Rightarrow> Region list \<Rightarrow>
    Probabilities list \<Rightarrow> ContextDrops \<Rightarrow> 's \<Rightarrow> (Probabilities list \<times> ContextDrops) result \<times> 's" where
  "screen_regions env ask f tests neighbors signatures [] results drops s = (Inr (results, drops), s)"
| "screen_regions env ask f tests neighbors signatures (region # rest) results drops s =
     (case budget_from_env env of
        Inl e \<Rightarrow> (Inl e, s)
      | Inr b \<Rightarrow>
          (case source_state f region tests neighbors signatures b of
             (state, new_drops) \<Rightarrow>
               (case asked ask state source_screen_questions screen_probabilities s of
                  (Inl e, s') \<Rightarrow> (Inl e, s')
                | (Inr probs, s') \<Rightarrow>
                    screen_regions env ask f tests neighbors signatures rest
                      (results @ [probs]) (add_drops drops new_drops) s')))"

text \<open>Every result has every dimension (\<open>screen_probabilities_total\<close>); the index of a missing one panics in the code.\<close>

definition max_merge :: "Probabilities list \<Rightarrow> Probabilities" where
  "max_merge results =
     (\<lambda>d. if d \<in> set DIMENSIONS then Some (foldl f64_max NegInf (map (\<lambda>r. the (r d)) results)) else None)"

definition screen_source_file_indexed ::
  "string option \<Rightarrow> IndexTools \<Rightarrow> 's service \<Rightarrow> SourceFile \<Rightarrow> SourceFile list \<Rightarrow> SourceFile list \<Rightarrow>
    RepoIndex option \<Rightarrow> 's \<Rightarrow> SourceFile Screening result \<times> 's" where
  "screen_source_file_indexed env it ask f test_files neighbors index s =
     (let tests = (case Option.bind index (\<lambda>ri. related_tests ri (sf_path f)) of
                     Some ts \<Rightarrow> ts | None \<Rightarrow> select_related_tests (it_lower it) f test_files);
          regions = (case index of None \<Rightarrow> regions_of it (sf_content f) (sf_path f) SCREEN_REGION_LINES
                                 | Some ri \<Rightarrow> index_regions it ri f SCREEN_REGION_LINES);
          signatures = (case index of None \<Rightarrow> export_signatures (it_decl it) (sf_content f) (sf_path f)
                                    | Some ri \<Rightarrow> source_signatures it ri f)
      in case screen_regions env ask f tests (map compact_neighbor neighbors) signatures regions []
                \<lparr>cd_chars = 0, cd_items = 0\<rparr> s of
           (Inl e, s') \<Rightarrow> (Inl e, s')
         | (Inr (results, drops), s') \<Rightarrow>
             (Inr \<lparr>scr_file = f, scr_probabilities = max_merge results, scr_dropped = drops\<rparr>, s'))"

definition screen_source_file ::
  "string option \<Rightarrow> IndexTools \<Rightarrow> 's service \<Rightarrow> SourceFile \<Rightarrow> SourceFile list \<Rightarrow> SourceFile list \<Rightarrow> 's \<Rightarrow>
    SourceFile Screening result \<times> 's" where
  "screen_source_file env it ask f test_files neighbors = screen_source_file_indexed env it ask f test_files neighbors None"

section \<open>Profiles\<close>

definition profile_source_file :: "'s service \<Rightarrow> SourceFile \<Rightarrow> Probabilities \<Rightarrow> 's \<Rightarrow> FileProfile result \<times> 's" where
  \<open>profile_source_file ask f probs =
     asked ask
       (obj [(''file'', source_json f), (''screeningProbabilities'', probabilities_json probs)])
       (obj [(''category'', choice
                (obj [(''question'', JStr ''Which role best describes this source file?''),
                      (''focus'', JStr ''Primary runtime responsibility'')])
                (choice_criteria FILE_ROLES)),
             (''reviewPriority'', score
                (JStr ''Rate how closely a human should review this complete file, considering its role and screeningProbabilities.'')
                (score_criteria REVIEW_PRIORITY_RUBRIC))])
       (profile_of_response (sf_path f))\<close>

section \<open>Locating a signal\<close>

definition region_json :: "Region \<Rightarrow> json" where
  "region_json r =
     obj [(''id'', JStr (rg_id r)), (''startLine'', jnat (rg_start_line r)), (''content'', JStr (rg_content r))]"

definition region_questions :: "Region list \<Rightarrow> json" where
  \<open>region_questions regions =
     obj [(''evidence'', choice
       (obj [(''question'', JStr ''Which candidate region provides the strongest direct evidence for suspectedConcern?''),
             (''fallback'', JStr ''Select noMatch when no region provides sufficient evidence'')])
       (obj (map (\<lambda>r. (rg_id r, JStr (''Source beginning at line '' @ show_nat (rg_start_line r)))) regions
             @ [(''noMatch'', JStr ''No source region directly supports the suspected concern'')])))]\<close>

definition region_evidence :: "SourceFile list \<Rightarrow> Region \<Rightarrow> Evidence" where
  "region_evidence neighbors r =
     \<lparr>ev_selected = region_json r, ev_line = rg_start_line r, ev_text = rg_content r,
      ev_meta = obj [(''region'', region_json r),
                     (''neighbors'', JArr (map (source_json \<circ> compact_neighbor) neighbors))]\<rparr>"

definition signal_regions :: "IndexTools \<Rightarrow> RepoIndex option \<Rightarrow> SourceFile \<Rightarrow> Region list" where
  "signal_regions it index f =
     (case index of None \<Rightarrow> regions_of it (sf_content f) (sf_path f) REGION_LINES
                  | Some ri \<Rightarrow> index_regions it ri f REGION_LINES)"

definition locate_source_signal_indexed ::
  "IndexTools \<Rightarrow> 's service \<Rightarrow> SourceFile Signal \<Rightarrow> SourceFile list \<Rightarrow> RepoIndex option \<Rightarrow> 's \<Rightarrow>
    Finding option result \<times> 's" where
  "locate_source_signal_indexed it ask sig neighbors index s =
     (let f = sg_file sig; d = sg_dimension sig; regions = signal_regions it index f in
      if regions = [] then (Inr None, s)
      else then_try
        (pick_evidence ask (pick_state (sf_path f) d (sg_probability sig) ''candidateRegions'' (JArr (map region_json regions)))
           (region_questions regions) rg_id regions)
        (\<lambda>picked. case picked of
             None \<Rightarrow> Pair (Inr None)
           | Some (r, confidence) \<Rightarrow>
               judge_evidence ask (sf_path f) d (sg_probability sig) confidence (region_evidence neighbors r)) s)"

definition locate_source_signal ::
  "IndexTools \<Rightarrow> 's service \<Rightarrow> SourceFile Signal \<Rightarrow> SourceFile list \<Rightarrow> 's \<Rightarrow> Finding option result \<times> 's" where
  "locate_source_signal it ask sig neighbors = locate_source_signal_indexed it ask sig neighbors None"

section \<open>What a screening covers\<close>

lemma screen_probabilities_total: "screen_probabilities r = Inr probs \<Longrightarrow> dom probs = UNIV"
proof -
  assume "screen_probabilities r = Inr probs"
  then have "probs d \<noteq> None" for d
    by (cases d) (auto simp: screen_probabilities_def and_then_eq_Inr)
  then show ?thesis by auto
qed

text \<open>
  A screening has a probability for every dimension, which is not lower than that of any region
  whose probability is a number.
\<close>

definition screened_by :: "Probabilities list \<Rightarrow> Probabilities \<Rightarrow> bool" where
  "screened_by results probs \<longleftrightarrow>
     dom probs = UNIV \<and> (\<forall>d. \<forall>r \<in> set results. the (r d) \<noteq> NaN \<longrightarrow> the (r d) \<le> the (probs d)) \<and>
     (\<forall>d. the (probs d) = NegInf \<or> the (probs d) \<in> (\<lambda>r. the (r d)) ` set results)"

lemma f64_max_le: "x \<noteq> NaN \<Longrightarrow> x \<le> f64_max x y" "y \<noteq> NaN \<Longrightarrow> y \<le> f64_max x y"
  by (cases x; cases y; simp add: f64_max_def less_eq_f64_def)+

lemma f64_le_trans: "(x :: f64) \<le> y \<Longrightarrow> y \<le> z \<Longrightarrow> x \<le> z"
  by (cases x; cases y; cases z) (auto simp: less_eq_f64_def)

lemma f64_le_not_nan: "(x :: f64) \<le> y \<Longrightarrow> y \<noteq> NaN"
  by (cases x; cases y) (auto simp: less_eq_f64_def)

lemma fold_max_upper: "a \<noteq> NaN \<Longrightarrow> a \<le> foldl f64_max a xs \<and> (\<forall>x \<in> set xs. x \<noteq> NaN \<longrightarrow> x \<le> foldl f64_max a xs)"
proof (induction xs arbitrary: a)
  case Nil
  then show ?case by (cases a) (auto simp: less_eq_f64_def)
next
  case (Cons x xs)
  have le: "a \<le> f64_max a x" "x \<noteq> NaN \<longrightarrow> x \<le> f64_max a x" using Cons.prems f64_max_le by auto
  from Cons.IH [OF f64_le_not_nan [OF le(1)]] le show ?case by (auto intro: f64_le_trans)
qed

lemma fold_max_mem: "foldl f64_max a xs \<in> insert a (set xs)"
proof (induction xs arbitrary: a)
  case (Cons x xs)
  have "f64_max a x = a \<or> f64_max a x = x" by (simp add: f64_max_def)
  with Cons [of "f64_max a x"] show ?case by auto
qed simp

lemma max_merge_screened: "screened_by results (max_merge results)"
proof -
  have all: "d \<in> set DIMENSIONS" for d by (cases d) (simp_all add: DIMENSIONS_def)
  have "the (r d) \<le> foldl f64_max NegInf (map (\<lambda>r. the (r d)) results)" if "r \<in> set results" "the (r d) \<noteq> NaN" for r d
    using fold_max_upper [of NegInf "map (\<lambda>r. the (r d)) results"] that by auto
  moreover have "foldl f64_max NegInf (map (\<lambda>r. the (r d)) results) \<in> insert NegInf ((\<lambda>r. the (r d)) ` set results)" for d
    using fold_max_mem [of NegInf "map (\<lambda>r. the (r d)) results"] by simp
  ultimately show ?thesis by (auto simp: screened_by_def max_merge_def all)
qed

text \<open>The answers that one region's screening needs, and the requests of the regions as a relation
  on the states of the client.\<close>

lemma screen_regions_results:
  "screen_regions env ask f tests neighbors sigs regions results drops s = (Inr (out, drops'), s') \<Longrightarrow>
     \<exists>new. out = results @ new \<and> length new = length regions \<and> list_all (\<lambda>probs. dom probs = UNIV) new"
proof (induction regions arbitrary: results drops s)
  case (Cons r rs)
  obtain b where b: "budget_from_env env = Inr b" using Cons.prems by (auto split: sum.splits)
  obtain state d where st: "source_state f r tests neighbors sigs b = (state, d)" by force
  obtain res s1 where a: "asked ask state source_screen_questions screen_probabilities s = (res, s1)" by force
  obtain probs where res: "res = Inr probs" using Cons.prems by (cases res) (simp_all add: b st a)
  have "screen_regions env ask f tests neighbors sigs rs (results @ [probs]) (add_drops drops d) s1 = (Inr (out, drops'), s')"
    using Cons.prems by (simp add: b st a res)
  from Cons.IH [OF this] obtain new where new: "out = (results @ [probs]) @ new" "length new = length rs"
    "list_all (\<lambda>probs. dom probs = UNIV) new" by blast
  have "dom probs = UNIV" using a res
    by (auto simp: asked_def and_then_eq_Inr dest: screen_probabilities_total split: prod.splits)
  with new show ?case by (intro exI [of _ "probs # new"]) simp
qed simp

definition region_screened :: "IndexTools \<Rightarrow> RepoIndex option \<Rightarrow> SourceFile \<Rightarrow> SourceFile Screening \<Rightarrow> bool" where
  "region_screened it index f sc \<longleftrightarrow>
     scr_file sc = f \<and>
     (\<exists>results. length results = length (case index of None \<Rightarrow> regions_of it (sf_content f) (sf_path f) SCREEN_REGION_LINES
          | Some ri \<Rightarrow> index_regions it ri f SCREEN_REGION_LINES) \<and>
        list_all (\<lambda>probs. dom probs = UNIV) results \<and> screened_by results (scr_probabilities sc))"

lemma screen_source_regions:
  assumes "screen_source_file_indexed env it ask f test_files neighbors index s = (Inr sc, s')"
  shows "region_screened it index f sc"
proof -
  obtain tests sigs results drops where
    "screen_regions env ask f tests (map compact_neighbor neighbors) sigs
       (case index of None \<Rightarrow> regions_of it (sf_content f) (sf_path f) SCREEN_REGION_LINES
          | Some ri \<Rightarrow> index_regions it ri f SCREEN_REGION_LINES) [] \<lparr>cd_chars = 0, cd_items = 0\<rparr> s = (Inr (results, drops), s')"
    and sc: "sc = \<lparr>scr_file = f, scr_probabilities = max_merge results, scr_dropped = drops\<rparr>"
    using assms unfolding screen_source_file_indexed_def Let_def by (auto split: prod.splits sum.splits)
  from screen_regions_results [OF this(1)] show ?thesis
    by (auto simp: region_screened_def sc max_merge_screened intro!: exI [of _ results])
qed

text \<open>
  Screening a source file looks at every region and forgets none: a screening that succeeds has
  one answer per region, each with all five dimensions, and its probability of a dimension is the
  highest that a region gave (so a concern in any one region is not averaged away).
\<close>

theorem screening_covers_regions:
  "case screen_source_file_indexed env it ask f test_files neighbors index s of
     (Inr sc, _) \<Rightarrow> region_screened it index f sc | (Inl _, _) \<Rightarrow> True"
  using screen_source_regions [of env it ask f test_files neighbors index s] by (auto split: prod.split sum.split)

section \<open>A finding rests on a region\<close>

definition region_grounded :: "IndexTools \<Rightarrow> RepoIndex option \<Rightarrow> SourceFile Signal \<Rightarrow> Finding \<Rightarrow> bool" where
  "region_grounded it index sig f \<longleftrightarrow>
     judged (sf_path (sg_file sig)) (sg_dimension sig) (sg_probability sig) f \<and>
     region_of (split_on NL (sf_content (sg_file sig))) REGION_LINES
       \<lparr>rg_id = [], rg_start_line = f_line f, rg_content = f_evidence f\<rparr>"

lemma signal_regions_covers:
  assumes "anchored (it_decl it)" "length (split_on NL (sf_content f)) < usize_limit"
  shows "covers (sf_content f) REGION_LINES (signal_regions it index f)"
  using assms regions_of_covers(1) [of REGION_LINES it "sf_content f" "sf_path f"]
    materialized_covers [of "sf_content f" _ REGION_LINES]
  by (auto simp: signal_regions_def index_regions_def REGION_LINES_def split: option.split)

lemma locate_source_grounded:
  assumes "anchored (it_decl it)" "length (split_on NL (sf_content (sg_file sig))) < usize_limit"
    and "locate_source_signal_indexed it ask sig neighbors index s = (Inr (Some f), s')"
  shows "region_grounded it index sig f"
proof -
  obtain r where "r \<in> set (signal_regions it index (sg_file sig))" "f_line f = rg_start_line r" "f_evidence f = rg_content r"
    and judged: "judged (sf_path (sg_file sig)) (sg_dimension sig) (sg_probability sig) f"
    using assms(3) unfolding locate_source_signal_indexed_def
    by (auto simp: Let_def then_try_Inr region_evidence_def
        dest!: pick_evidence_candidate judge_evidence_judged split: if_splits option.splits)
  moreover have "region_of lines n \<lparr>rg_id = i, rg_start_line = rg_start_line r, rg_content = rg_content r\<rparr> = region_of lines n r" for lines n i
    by (simp add: region_of_def)
  ultimately show ?thesis
    using signal_regions_covers [OF assms(1,2), of index] by (auto simp: region_grounded_def covers_def list_all_iff)
qed

text \<open>
  C19. No finding without evidence in the source: what a signal of a source file is located as quotes
  the file's own text at the line where it points, at most 80 lines of it, whatever metadata the
  index holds; it was located and named with the required confidence, and its action and owner
  follow its severity.
\<close>

theorem source_finding_grounded:
  assumes "anchored (it_decl it)" and "length (split_on NL (sf_content (sg_file sig))) < usize_limit"
  shows "case locate_source_signal_indexed it ask sig neighbors index s of
     (Inr (Some f), _) \<Rightarrow> region_grounded it index sig f | _ \<Rightarrow> True"
  using locate_source_grounded [OF assms, of ask neighbors index s]
  by (auto split: prod.split sum.split option.split)

theorem source_finding_grounded_witness:
  "\<forall>ask neighbors index (s :: nat).
    (case locate_source_signal_indexed example_tools ask
        \<lparr>sg_file = \<lparr>sf_path = ''a.rs'', sf_content = ''fn a() {}''\<rparr>, sg_dimension = Security, sg_probability = Fin 1\<rparr>
        neighbors index s of
     (Inr (Some f), _) \<Rightarrow> region_grounded example_tools index
       \<lparr>sg_file = \<lparr>sf_path = ''a.rs'', sf_content = ''fn a() {}''\<rparr>, sg_dimension = Security, sg_probability = Fin 1\<rparr> f
   | _ \<Rightarrow> True)"
  by (intro allI source_finding_grounded [OF example_anchored]) (simp add: usize_limit_def)

context judging_service
begin

lemma screen_regions_kept:
  "ok s \<Longrightarrow> ok (snd (screen_regions env ask f tests neighbors sigs regions results drops s))"
proof (induction regions arbitrary: results drops s)
  case (Cons r rs)
  have "ok (snd (asked ask state source_screen_questions screen_probabilities s))" for state
    using Cons.prems by (rule asked_kept)
  with Cons show ?case by (auto simp: case_prod_beta split: sum.split prod.splits)
qed simp

lemma source_judgments_kept:
  "ok s \<Longrightarrow> ok (snd (screen_source_file_indexed env it ask f tests neighbors index s))"
  "ok s \<Longrightarrow> ok (snd (profile_source_file ask f probs s))"
  "ok s \<Longrightarrow> ok (snd (locate_source_signal_indexed it ask sig neighbors index s))"
proof -
  show "ok s \<Longrightarrow> ok (snd (screen_source_file_indexed env it ask f tests neighbors index s))"
    by (simp add: screen_source_file_indexed_def Let_def case_prod_beta screen_regions_kept split: sum.split)
  show "ok s \<Longrightarrow> ok (snd (profile_source_file ask f probs s))" by (simp add: profile_source_file_def asked_kept)
  assume s: "ok s"
  have judge: "ok (snd ((case picked of None \<Rightarrow> Pair (Inr None)
      | Some (r, confidence) \<Rightarrow> judge_evidence ask path d p confidence (ev r)) t))" if "ok t" for picked path d p ev t
    using that by (simp add: judge_evidence_kept split: option.split prod.split)
  show "ok (snd (locate_source_signal_indexed it ask sig neighbors index s))"
    using s by (simp add: locate_source_signal_indexed_def Let_def then_try_keeps [OF s pick_evidence_kept judge])
qed

end

end
