(* ===== verification/Strategies.thy ===== *)
theory Strategies
  imports Codebase_Judgments
begin

text \<open>
  The two strategies (\<open>review/changes.rs\<close>, \<open>review/codebase.rs\<close>, and the \<open>FileEntry\<close> payloads of
  \<open>review/strategy.rs\<close>): discovery split into sources and tests, the pre-pass, and the judgments,
  over a session that holds the client, the index, the excerpts of the neighbors and the store.

  What git reports under the exclusions is a parameter: the changed files and the files of the
  repository, each with its error. A \<open>OnceLock\<close> keeps the first value that it is given.
\<close>

record 'w Session =
  se_client :: "'w Client"
  se_index :: "RepoIndex option"
  se_neighbors :: "(string \<rightharpoonup> SourceFile) option"
  se_store :: IndexStore

record GitView =
  gv_changed :: "string list \<Rightarrow> ChangedFile list result"
  gv_changed_since :: "string list \<Rightarrow> string \<Rightarrow> ChangedFile list result"
  gv_changed_at :: "string list \<Rightarrow> string \<Rightarrow> string \<Rightarrow> ChangedFile list result"
  gv_repository :: "string list \<Rightarrow> SourceFile list result"
  gv_repository_at :: "string list \<Rightarrow> string \<Rightarrow> SourceFile list result"

record StrategyEnv =
  en_tools :: IndexTools
  en_git :: GitView
  en_context_budget :: "string option"

definition once :: "'a option \<Rightarrow> 'a \<Rightarrow> 'a option" where
  "once cell v = (case cell of Some w \<Rightarrow> Some w | None \<Rightarrow> Some v)"

text \<open>A request of the session's client.\<close>

definition session_ask :: "'w Client service \<Rightarrow> 'w Session service" where
  "session_ask ask state questions s =
     (case ask state questions (se_client s) of (r, c) \<Rightarrow> (r, s\<lparr>se_client := c\<rparr>))"

section \<open>Payloads\<close>

definition CONTEXT_RADIUS :: nat where "CONTEXT_RADIUS = 60"
definition MAX_CONTEXT_PATCH_CHARS :: nat where "MAX_CONTEXT_PATCH_CHARS = 6000"

definition changed_test_context :: "StrategyEnv \<Rightarrow> ChangedFile \<Rightarrow> ChangedFile list \<Rightarrow> json" where
  "changed_test_context env f tests =
     JArr (map changed_json (select_related_changed_tests (it_lower (en_tools env)) f tests))"

definition changed_context_around :: "ChangedFile \<Rightarrow> nat \<Rightarrow> json" where
  "changed_context_around f line =
     (case window (cf_base f) (base_line (cf_patch f) line) CONTEXT_RADIUS of
        (base_start, base) \<Rightarrow>
          obj [(''path'', JStr (cf_path f)), (''patch'', JStr (chars_take MAX_CONTEXT_PATCH_CHARS (cf_patch f))),
               (''baseStartLine'', jnat base_start), (''base'', JStr base)])"

definition source_test_context :: "StrategyEnv \<Rightarrow> SourceFile \<Rightarrow> SourceFile list \<Rightarrow> json" where
  "source_test_context env f tests =
     JArr (map source_json (select_related_tests (it_lower (en_tools env)) f tests))"

definition source_tier_state :: "StrategyEnv \<Rightarrow> SourceFile \<Rightarrow> json option" where
  "source_tier_state env f =
     (case budget_from_env (en_context_budget env) of
        Inl _ \<Rightarrow> None
      | Inr b \<Rightarrow>
          (case budget_take (sf_content f) b of
             (content, b') \<Rightarrow>
               if 0 < cd_chars (bg_drops b') then None
               else Some (obj [(''file'', obj [(''path'', JStr (sf_path f)), (''content'', JStr content)])])))"

definition source_context_around :: "SourceFile \<Rightarrow> nat \<Rightarrow> json" where
  "source_context_around f line =
     (case window (sf_content f) line CONTEXT_RADIUS of
        (start_line, content) \<Rightarrow>
          obj [(''path'', JStr (sf_path f)), (''startLine'', jnat start_line), (''content'', JStr content)])"

text \<open>Source files first, test files as context, each in the order found.\<close>

definition split_tests :: "('f \<Rightarrow> string) \<Rightarrow> 'f list \<Rightarrow> 'f Discovery" where
  "split_tests path fs =
     \<lparr>di_files = filter (\<lambda>f. \<not> is_test_path (path f)) fs,
      di_context_files = filter (\<lambda>f. is_test_path (path f)) fs\<rparr>"

definition excerpts :: "SourceFile list \<Rightarrow> string \<rightharpoonup> SourceFile" where
  "excerpts fs = foldl (\<lambda>m f. m(sf_path f \<mapsto> compact_neighbor f)) Map.empty fs"

definition session_index_stats :: "'w Session \<Rightarrow> IndexStats" where
  "session_index_stats s =
     (case se_index s of None \<Rightarrow> \<lparr>is_computed = 0, is_reused = 0, is_fallbacks = 0\<rparr> | Some ri \<Rightarrow> ri_stats ri)"

text \<open>The entries of the redaction summary, a \<open>BTreeMap\<close>.\<close>

definition summary_entries :: "(string \<rightharpoonup> nat) \<Rightarrow> (string \<times> nat) list" where
  "summary_entries m = map (\<lambda>rule. (rule, the (m rule))) (sorted_list_of_set (dom m))"

section \<open>Reviewing changes\<close>

record ChangesConfig =
  ch_base :: "string option"
  ch_committed_head :: "string option"

definition changes_discover ::
  "StrategyEnv \<Rightarrow> ChangesConfig \<Rightarrow> string list \<Rightarrow> 'w Session \<Rightarrow> ChangedFile Discovery result \<times> 'w Session" where
  "changes_discover env cfg scopes s =
     (and_then
        (case ch_committed_head cfg of
           Some head \<Rightarrow>
             (case ch_base cfg of
                None \<Rightarrow> Inl (Msg ''committed-only requires a base'')
              | Some base \<Rightarrow> gv_changed_at (en_git env) scopes base head)
         | None \<Rightarrow>
             (case ch_base cfg of
                Some base \<Rightarrow> gv_changed_since (en_git env) scopes base
              | None \<Rightarrow> gv_changed (en_git env) scopes))
        (\<lambda>changed. Inr (split_tests cf_path changed)), s)"

definition changes_prepass ::
  "StrategyEnv \<Rightarrow> ChangesConfig \<Rightarrow> string list \<Rightarrow> ChangedFile Discovery \<Rightarrow> 'w Session \<Rightarrow> unit result \<times> 'w Session" where
  "changes_prepass env cfg scopes disc s =
     (case (case ch_committed_head cfg of
              Some head \<Rightarrow> gv_repository_at (en_git env) scopes head
            | None \<Rightarrow> (case gv_repository (en_git env) scopes of Inl _ \<Rightarrow> Inr [] | Inr fs \<Rightarrow> Inr fs)) of
        Inl e \<Rightarrow> (Inl e, s)
      | Inr repository \<Rightarrow>
          let tests = filter (\<lambda>f. is_test_path (sf_path f)) repository;
              files = filter (\<lambda>f. \<not> is_test_path (sf_path f)) repository
          in case index_build (en_tools env) files tests (se_store s) of
               (ri, st) \<Rightarrow>
                 let ri1 = (if files = [] \<and> di_files disc \<noteq> []
                       then ri\<lparr>ri_stats := (ri_stats ri)\<lparr>is_fallbacks := is_fallbacks (ri_stats ri) + length (di_files disc)\<rparr>\<rparr>
                       else ri);
                     ri2 = map_changed_tests (en_tools env) (di_files disc) (di_context_files disc) ri1
                 in (Inr (), s\<lparr>se_store := st, se_neighbors := once (se_neighbors s) (excerpts files),
                               se_index := once (se_index s) ri2\<rparr>))"

definition changes_neighbor_context :: "string \<Rightarrow> 'w Session \<Rightarrow> json" where
  "changes_neighbor_context path s =
     (let names = (case se_index s of None \<Rightarrow> [] | Some ri \<Rightarrow> index_neighbors ri path) in
      JArr (map source_json (List.map_filter
        (\<lambda>p. Option.bind (se_neighbors s) (\<lambda>m. m p)) (take 4 names))))"

definition changes_strategy ::
  "StrategyEnv \<Rightarrow> ChangesConfig \<Rightarrow> 'w Client service \<Rightarrow> (ChangedFile, 'w Session) ReviewStrategy" where
  "changes_strategy env cfg ask =
     \<lparr>st_mode = Changes, st_subject = ''changed source'', st_path = cf_path, st_json = changed_json,
      st_tier_state = (\<lambda>_. None), st_context_around = changed_context_around,
      st_test_context = changed_test_context env, st_neighbor_context = changes_neighbor_context,
      st_discover = changes_discover env cfg, st_prepass = changes_prepass env cfg,
      st_screen = (\<lambda>f context_files s.
        screen_file_indexed (en_context_budget env) (it_lower (en_tools env)) (session_ask ask) f context_files
          (se_index s) (changes_neighbor_context (cf_path f) s) s),
      st_profile = profile_file (session_ask ask),
      st_locate = locate_signal (en_tools env) (session_ask ask),
      st_suggestions = enrich_suggestions (session_ask ask), st_ask = session_ask ask,
      st_budget_summary = budget_summary \<circ> cl_budget \<circ> se_client,
      st_usage_summary = usage_summary \<circ> se_client,
      st_redaction_summary = summary_entries \<circ> log_summary \<circ> cl_redactions \<circ> se_client,
      st_model_identity = model_identity \<circ> se_client, st_index_stats = session_index_stats\<rparr>"

section \<open>Reviewing a code base\<close>

definition MAX_NEIGHBORS :: nat where "MAX_NEIGHBORS = 4"

definition neighbor_files :: "string \<Rightarrow> 'w Session \<Rightarrow> SourceFile list" where
  "neighbor_files path s =
     (case (se_index s, se_neighbors s) of
        (Some ri, Some m) \<Rightarrow> take MAX_NEIGHBORS (List.map_filter m (index_neighbors ri path))
      | _ \<Rightarrow> [])"

definition codebase_neighbor_context :: "string \<Rightarrow> 'w Session \<Rightarrow> json" where
  "codebase_neighbor_context path s = JArr (map (source_json \<circ> compact_neighbor) (neighbor_files path s))"

definition codebase_discover ::
  "StrategyEnv \<Rightarrow> string list \<Rightarrow> 'w Session \<Rightarrow> SourceFile Discovery result \<times> 'w Session" where
  "codebase_discover env scopes s =
     (case gv_repository (en_git env) scopes of
        Inl e \<Rightarrow> (Inl e, s)
      | Inr repository \<Rightarrow>
          let disc = split_tests sf_path repository in
          (Inr disc, s\<lparr>se_neighbors := once (se_neighbors s) (excerpts (di_files disc))\<rparr>))"

definition codebase_prepass ::
  "StrategyEnv \<Rightarrow> string list \<Rightarrow> SourceFile Discovery \<Rightarrow> 'w Session \<Rightarrow> unit result \<times> 'w Session" where
  "codebase_prepass env scopes disc s =
     (case index_build (en_tools env) (di_files disc) (di_context_files disc) (se_store s) of
        (ri, st) \<Rightarrow> (Inr (), s\<lparr>se_store := st, se_index := once (se_index s) ri\<rparr>))"

definition codebase_strategy ::
  "StrategyEnv \<Rightarrow> 'w Client service \<Rightarrow> (SourceFile, 'w Session) ReviewStrategy" where
  "codebase_strategy env ask =
     \<lparr>st_mode = Codebase, st_subject = ''codebase source'', st_path = sf_path, st_json = source_json,
      st_tier_state = source_tier_state env, st_context_around = source_context_around,
      st_test_context = source_test_context env, st_neighbor_context = codebase_neighbor_context,
      st_discover = codebase_discover env, st_prepass = codebase_prepass env,
      st_screen = (\<lambda>f context_files s.
        screen_source_file_indexed (en_context_budget env) (en_tools env) (session_ask ask) f context_files
          (neighbor_files (sf_path f) s) (se_index s) s),
      st_profile = profile_source_file (session_ask ask),
      st_locate = (\<lambda>sig s.
        locate_source_signal_indexed (en_tools env) (session_ask ask) sig (neighbor_files (sf_path (sg_file sig)) s)
          (se_index s) s),
      st_suggestions = enrich_suggestions (session_ask ask), st_ask = session_ask ask,
      st_budget_summary = budget_summary \<circ> cl_budget \<circ> se_client,
      st_usage_summary = usage_summary \<circ> se_client,
      st_redaction_summary = summary_entries \<circ> log_summary \<circ> cl_redactions \<circ> se_client,
      st_model_identity = model_identity \<circ> se_client, st_index_stats = session_index_stats\<rparr>"

section \<open>A whole review keeps its client in order\<close>

abbreviation session_ok :: "'w Session \<Rightarrow> bool" where
  "session_ok s \<equiv> client_ok (se_client s)"

lemma session_asks:
  assumes "judging_service ask ok"
  shows "judging_service (session_ask ask) (\<lambda>s. ok (se_client s))"
  using judging_service.ask_ok [OF assms]
  by unfold_locales (simp add: session_ask_def case_prod_beta)

lemma discover_prepass_client:
  "se_client (snd (changes_discover env cfg scopes s)) = se_client s"
  "se_client (snd (changes_prepass env cfg scopes disc s)) = se_client s"
  "se_client (snd (codebase_discover env scopes s')) = se_client s'"
  "se_client (snd (codebase_prepass env scopes disc' s')) = se_client s'"
  by (simp_all add: changes_discover_def changes_prepass_def codebase_discover_def codebase_prepass_def Let_def
      split: sum.split prod.split)

lemma enrich_suggestions_kept:
  assumes "judging_service ask ok" and "ok s"
  shows "ok (snd (enrich_suggestions ask f s))"
  using assms(2) judging_service.ask_ok [OF assms] by (simp add: enrich_suggestions_def case_prod_beta)

lemma changes_review_strategy:
  assumes "judging_service ask ok"
  shows "review_strategy (changes_strategy env cfg ask) (\<lambda>s. ok (se_client s))"
proof -
  note service = session_asks [OF assms]
  note kept = judging_service.change_judgments_kept [OF service] enrich_suggestions_kept [OF service]
  show ?thesis
    by (intro review_strategy.intro review_strategy_axioms.intro)
      (simp_all add: changes_strategy_def service discover_prepass_client kept)
qed

lemma codebase_review_strategy:
  assumes "judging_service ask ok"
  shows "review_strategy (codebase_strategy env ask) (\<lambda>s. ok (se_client s))"
proof -
  note service = session_asks [OF assms]
  note kept = judging_service.source_judgments_kept [OF service] enrich_suggestions_kept [OF service]
  show ?thesis
    by (intro review_strategy.intro review_strategy_axioms.intro)
      (simp_all add: codebase_strategy_def service discover_prepass_client kept)
qed

interpretation changes_review:
  review_strategy "changes_strategy env cfg (service_ask dt hasher http status_text digest)" session_ok
  for env cfg dt hasher status_text digest and http :: "json \<Rightarrow> 'w \<Rightarrow> HttpReply \<times> nat \<times> 'w"
  by (rule changes_review_strategy) (rule client_service.judging_service_axioms)

interpretation codebase_review:
  review_strategy "codebase_strategy env (service_ask dt hasher http status_text digest)" session_ok
  for env dt hasher status_text digest and http :: "json \<Rightarrow> 'w \<Rightarrow> HttpReply \<times> nat \<times> 'w"
  by (rule codebase_review_strategy) (rule client_service.judging_service_axioms)

text \<open>
  A whole review, of changes or of a code base, keeps the client in order whatever the service
  and the network do and however many requests fail: it never has more requests issued than its
  budget allows, holds no permit when it ends, and its concurrency limit stays positive, so the
  next request is not blocked.
\<close>

theorem review_keeps_client:
  fixes http :: "json \<Rightarrow> 'w \<Rightarrow> HttpReply \<times> nat \<times> 'w"
  assumes "client_ok (se_client s)"
  shows "client_ok (se_client (snd (run_review sur
      (changes_strategy env cfg (service_ask dt hasher http status_text digest)) opts scopes s))) \<and>
    client_ok (se_client (snd (run_review sur
      (codebase_strategy env (service_ask dt hasher http status_text digest)) opts scopes s)))"
  using assms by (intro conjI changes_review.run_review_kept codebase_review.run_review_kept)

theorem review_keeps_client_witness:
  "\<forall>sur env cfg opts.
    client_ok (se_client (snd (run_review sur
      (changes_strategy env cfg (service_ask example_detectors (\<lambda>_. 0) example_http show_nat (\<lambda>_. []))) opts [''src'']
      \<lparr>se_client = example_client, se_index = None, se_neighbors = None,
       se_store = \<lparr>ix_files = Map.empty, ix_writable = (\<lambda>_. True)\<rparr>\<rparr>)))"
  using review_keeps_client [of "\<lparr>se_client = example_client, se_index = None, se_neighbors = None,
       se_store = \<lparr>ix_files = Map.empty, ix_writable = (\<lambda>_. True)\<rparr>\<rparr>"] example_client_ok
  by simp

end
