(* ===== verification/Outcomes.thy ===== *)
theory Outcomes
  imports Merge_Score
begin

text \<open>
  Outcome histories and what is estimated from them (\<open>review/merge_confidence.rs\<close>): the structural
  validation of a supplied history, the chronological split into training and held-out labels, the
  estimate of a score bin with its bounds and diagnostics. Reals are exact; times are \<open>i64\<close> seconds,
  whose checked and saturating operations are written out.
\<close>

definition MIN_TRAIN :: nat where "MIN_TRAIN = 40"
definition MIN_HELD_OUT :: nat where "MIN_HELD_OUT = 20"
definition MIN_BIN :: nat where "MIN_BIN = 20"
definition BINS :: nat where "BINS = 4"
definition HEURISTIC_VERSION :: nat where "HEURISTIC_VERSION = 1"

record ObservedOutcome =
  oo_occurred :: bool
  oo_observed_at :: int
  oo_evidence :: string

record OutcomeRecord =
  or_head :: string
  or_merged_at :: int
  or_score_recorded_at :: int
  or_heuristic_score :: f64
  or_revert :: "ObservedOutcome option"
  or_incident :: "ObservedOutcome option"
  or_flake :: "ObservedOutcome option"

record OutcomeWindows =
  ow_revert_seconds :: int
  ow_incident_seconds :: int
  ow_flake_seconds :: int

definition default_windows :: OutcomeWindows where
  "default_windows =
     \<lparr>ow_revert_seconds = 30 * 86400, ow_incident_seconds = 30 * 86400, ow_flake_seconds = 7 * 86400\<rparr>"

record OutcomeHistory =
  oh_heuristic_version :: nat
  oh_repository :: string
  oh_provenance :: string
  oh_synthetic :: bool
  oh_as_of :: int
  oh_training_cutoff :: int
  oh_windows :: OutcomeWindows
  oh_records :: "OutcomeRecord list"

fun outcome_label :: "OutcomeRecord \<Rightarrow> OutcomeKind \<Rightarrow> ObservedOutcome option" where
  "outcome_label r Revert = or_revert r"
| "outcome_label r Incident = or_incident r"
| "outcome_label r Flake = or_flake r"

fun outcome_window :: "OutcomeWindows \<Rightarrow> OutcomeKind \<Rightarrow> int" where
  "outcome_window w Revert = ow_revert_seconds w"
| "outcome_window w Incident = ow_incident_seconds w"
| "outcome_window w Flake = ow_flake_seconds w"

definition KINDS :: "OutcomeKind list" where
  "KINDS = [Revert, Incident, Flake]"

section \<open>Validation\<close>

definition hex_lower :: "char \<Rightarrow> bool" where
  "hex_lower c \<longleftrightarrow> is_digit c \<or> c \<in> set ''abcdef''"

definition canonical_git_head :: "string \<Rightarrow> bool" where
  "canonical_git_head head \<longleftrightarrow>
     length head \<in> {40, 64} \<and> list_all hex_lower head \<and> list_ex (\<lambda>c. c \<noteq> CHR ''0'') head"

definition validate_label :: "OutcomeHistory \<Rightarrow> OutcomeRecord \<Rightarrow> int \<Rightarrow> ObservedOutcome \<Rightarrow> unit result" where
  "validate_label h r maturity obs =
     and_then (ensure (\<not> blank (oo_evidence obs)) ''every observed outcome requires evidence'') (\<lambda>_.
     and_then (ensure (or_merged_at r \<le> oo_observed_at obs \<and> oo_observed_at obs \<le> oh_as_of h)
         ''outcome observation is before merge or after asOf'') (\<lambda>_.
     ensure (if oo_occurred obs then oo_observed_at obs \<le> maturity else maturity \<le> oo_observed_at obs)
       ''positive labels must fall within the window; negative labels require the full window''))"

definition validate_kind :: "OutcomeHistory \<Rightarrow> OutcomeRecord \<Rightarrow> OutcomeKind \<Rightarrow> unit result" where
  "validate_kind h r k =
     (let duration = outcome_window (oh_windows h) k in
      and_then (ensure (0 < duration) ''outcome windows must be positive'') (\<lambda>_.
        case i64_checked_add (or_merged_at r) duration of
          None \<Rightarrow> Inl (Msg ''outcome window timestamp overflow'')
        | Some maturity \<Rightarrow>
            (case outcome_label r k of
               None \<Rightarrow> Inr ()
             | Some obs \<Rightarrow> validate_label h r maturity obs)))"

fun validate_records :: "OutcomeHistory \<Rightarrow> string set \<Rightarrow> OutcomeRecord list \<Rightarrow> unit result" where
  "validate_records h heads [] = Inr ()"
| "validate_records h heads (r # rs) =
     and_then (ensure (oh_synthetic h \<or> canonical_git_head (or_head r))
         ''observed history requires canonical full 40/64-character lowercase Git heads'') (\<lambda>_.
     and_then (ensure (\<not> blank (or_head r) \<and> or_head r \<notin> heads)
         ''history head is missing or duplicated'') (\<lambda>_.
     and_then (ensure (0 < or_merged_at r \<and> or_merged_at r \<le> oh_as_of h \<and>
           0 < or_score_recorded_at r \<and> or_score_recorded_at r \<le> or_merged_at r)
         ''score must be recorded before merge; merge must precede asOf'') (\<lambda>_.
     and_then (ensure (is_finite (or_heuristic_score r) \<and> in_unit (or_heuristic_score r))
         ''historical heuristic score must be finite in [0,1]'') (\<lambda>_.
     and_then (for_each (validate_kind h r) KINDS) (\<lambda>_.
     validate_records h (insert (or_head r) heads) rs)))))"

definition validate_history :: "OutcomeHistory \<Rightarrow> unit result" where
  "validate_history h =
     and_then (ensure (oh_heuristic_version h = HEURISTIC_VERSION)
         (''history heuristicVersion is unsupported; expected '' @ show_nat HEURISTIC_VERSION)) (\<lambda>_.
     and_then (ensure (\<not> blank (oh_repository h) \<and> \<not> blank (oh_provenance h))
         ''history requires repository and source provenance'') (\<lambda>_.
     and_then (ensure (0 < oh_training_cutoff h \<and> oh_training_cutoff h < oh_as_of h)
         ''history needs a positive chronological training cutoff before asOf'') (\<lambda>_.
     and_then (validate_records h {} (oh_records h)) (\<lambda>_.
     for_each (\<lambda>k. ensure (0 < outcome_window (oh_windows h) k) ''outcome windows must be positive'') KINDS))))"

section \<open>Estimates\<close>

definition latest_time :: "int option \<Rightarrow> int \<Rightarrow> int option" where
  "latest_time timestamp observed =
     Some (case timestamp of None \<Rightarrow> observed | Some current \<Rightarrow> max current observed)"

definition score_bin :: "f64 \<Rightarrow> nat" where
  "score_bin score = min (f64_to_usize (score * f64_of_nat BINS)) (BINS - 1)"

definition empirical :: "nat \<Rightarrow> nat \<Rightarrow> f64" where
  "empirical events samples = (f64_of_nat events + Fin 1) / (f64_of_nat samples + Fin 2)"

fun f64_sqrt :: "f64 \<Rightarrow> f64" where
  "f64_sqrt NaN = NaN"
| "f64_sqrt NegInf = NaN"
| "f64_sqrt PosInf = PosInf"
| "f64_sqrt (Fin x) = (if x < 0 then NaN else Fin (sqrt x))"

definition square :: "f64 \<Rightarrow> f64" where
  "square x = x * x"

definition upper_bound :: "nat \<Rightarrow> nat \<Rightarrow> f64" where
  "upper_bound events samples =
     (let n = f64_of_nat samples; p = f64_of_nat events / n; z2 = square (Fin 1.96) in
      (p + z2 / (Fin 2 * n) + Fin 1.96 * f64_sqrt ((p * (Fin 1 - p) + z2 / (Fin 4 * n)) / n)) /
      (Fin 1 + z2 / n))"

definition record_cmp :: "OutcomeRecord \<Rightarrow> OutcomeRecord \<Rightarrow> ordering" where
  "record_cmp a b = then_cmp (cmp (or_merged_at a) (or_merged_at b)) (cmp (or_head a) (or_head b))"

text \<open>What the loop over the records has counted: per bin the training samples and events, the
  held-out bins and labels, and the diagnostics.\<close>

record Tally =
  ta_counts :: "nat list"
  ta_events :: "nat list"
  ta_held_out :: "(nat \<times> f64) list"
  ta_eval :: Evaluation

definition tally_start :: Tally where
  "tally_start = \<lparr>ta_counts = replicate BINS 0, ta_events = replicate BINS 0, ta_held_out = [],
     ta_eval = default_evaluation\<rparr>"

definition add_training :: "f64 \<Rightarrow> OutcomeRecord \<Rightarrow> ObservedOutcome \<Rightarrow> Tally \<Rightarrow> Tally" where
  "add_training score r obs t =
     (let b = score_bin (or_heuristic_score r); e = ta_eval t in
      t\<lparr>ta_counts := (ta_counts t)[b := ta_counts t ! b + 1],
        ta_events := (ta_events t)[b := ta_events t ! b + of_bool (oo_occurred obs)],
        ta_eval := (if b = score_bin score
          then e\<lparr>ev_matching_bin_training_last_observed_at :=
            latest_time (ev_matching_bin_training_last_observed_at e) (oo_observed_at obs)\<rparr>
          else e)\<rparr>)"

definition add_held_out :: "f64 \<Rightarrow> OutcomeRecord \<Rightarrow> ObservedOutcome \<Rightarrow> Tally \<Rightarrow> Tally" where
  "add_held_out score r obs t =
     (let b = score_bin (or_heuristic_score r); e = ta_eval t in
      t\<lparr>ta_held_out := ta_held_out t @ [(b, if oo_occurred obs then Fin 1 else Fin 0)],
        ta_eval := (if b = score_bin score
          then e\<lparr>ev_matching_bin_held_out_last_observed_at :=
              latest_time (ev_matching_bin_held_out_last_observed_at e) (oo_observed_at obs),
            ev_matching_bin_held_out_last_merged_at :=
              latest_time (ev_matching_bin_held_out_last_merged_at e) (or_merged_at r)\<rparr>
          else e)\<rparr>)"

definition withhold :: "Tally \<Rightarrow> Tally" where
  "withhold t = t\<lparr>ta_eval := (ta_eval t)\<lparr>ev_immature_or_unavailable_labels :=
     ev_immature_or_unavailable_labels (ta_eval t) + 1\<rparr>\<rparr>"

definition tally_step :: "OutcomeHistory \<Rightarrow> f64 \<Rightarrow> OutcomeKind \<Rightarrow> Tally \<Rightarrow> OutcomeRecord \<Rightarrow> Tally" where
  "tally_step h score k t r =
     (case outcome_label r k of
        None \<Rightarrow> t\<lparr>ta_eval := (ta_eval t)\<lparr>ev_unknown_labels := ev_unknown_labels (ta_eval t) + 1\<rparr>\<rparr>
      | Some obs \<Rightarrow>
          let maturity = or_merged_at r + outcome_window (oh_windows h) k in
          if or_merged_at r < oh_training_cutoff h then
            if oh_training_cutoff h < maturity \<or> oh_training_cutoff h < oo_observed_at obs then withhold t
            else add_training score r obs t
          else if maturity \<le> oh_as_of h then add_held_out score r obs t
          else withhold t)"

definition tally :: "OutcomeHistory \<Rightarrow> f64 \<Rightarrow> OutcomeKind \<Rightarrow> Tally" where
  "tally h score k = foldl (tally_step h score k) tally_start (sort_by record_cmp (oh_records h))"

text \<open>The held-out counts per bin.\<close>

definition held_step :: "nat list \<times> nat list \<Rightarrow> nat \<times> f64 \<Rightarrow> nat list \<times> nat list" where
  "held_step = (\<lambda>(counts, events) (b, y).
     (counts[b := counts ! b + 1], events[b := events ! b + of_bool (y = Fin 1)]))"

definition held_counts :: "(nat \<times> f64) list \<Rightarrow> nat list \<times> nat list" where
  "held_counts held = foldl held_step (replicate BINS 0, replicate BINS 0) held"

definition bin_probability :: "nat list \<Rightarrow> nat list \<Rightarrow> f64 \<Rightarrow> nat \<Rightarrow> f64" where
  "bin_probability counts events baseline b =
     (if 0 < counts ! b then empirical (events ! b) (counts ! b) else baseline)"

definition brier :: "(nat \<Rightarrow> f64) \<Rightarrow> (nat \<times> f64) list \<Rightarrow> f64" where
  "brier p held = f64_sum (map (\<lambda>(b, y). square (p b - y)) held) / f64_of_nat (length held)"

definition bin_error :: "(nat \<Rightarrow> f64) \<Rightarrow> nat list \<times> nat list \<Rightarrow> nat \<Rightarrow> f64" where
  "bin_error p hc b = f64_abs (p b - f64_of_nat (snd hc ! b) / f64_of_nat (fst hc ! b))"

definition calibration_error :: "(nat \<Rightarrow> f64) \<Rightarrow> nat list \<times> nat list \<Rightarrow> nat \<Rightarrow> f64" where
  "calibration_error p hc n =
     f64_sum (map (\<lambda>b. bin_error p hc b * f64_of_nat (fst hc ! b) / f64_of_nat n)
       (filter (\<lambda>b. 0 < fst hc ! b) [0..<BINS]))"

definition unknown_estimate :: "OutcomeHistory option \<Rightarrow> OutcomeKind \<Rightarrow> OutcomeEstimate" where
  "unknown_estimate history k =
     \<lparr>oe_outcome = k, oe_window_seconds = map_option (\<lambda>h. outcome_window (oh_windows h) k) history,
      oe_status = ''unknown'', oe_probability = None, oe_upper_bound_95 = None,
      oe_held_out_upper_bound_95 = None, oe_matching_bin_samples = 0, oe_evaluation = default_evaluation,
      oe_limitations = [''Repository-local, fixed-bin empirical model; observational labels and source provenance are caller supplied. No causal guarantee or distribution-shift bound.'']\<rparr>"

definition limit :: "string \<Rightarrow> OutcomeEstimate \<Rightarrow> OutcomeEstimate" where
  "limit msg e = e\<lparr>oe_limitations := oe_limitations e @ [msg]\<rparr>"

definition counted :: "f64 \<Rightarrow> Tally \<Rightarrow> OutcomeEstimate \<Rightarrow> OutcomeEstimate" where
  "counted score t e =
     e\<lparr>oe_evaluation := (ta_eval t)\<lparr>ev_training_samples := sum_list (ta_counts t),
         ev_training_events := sum_list (ta_events t), ev_held_out_samples := length (ta_held_out t),
         ev_held_out_events := length (filter (\<lambda>(_, y). y = Fin 1) (ta_held_out t))\<rparr>,
       oe_matching_bin_samples := ta_counts t ! score_bin score\<rparr>"

definition diagnosed :: "f64 \<Rightarrow> Tally \<Rightarrow> OutcomeEstimate \<Rightarrow> OutcomeEstimate" where
  "diagnosed score t e =
     (let samples = sum_list (ta_counts t); baseline = empirical (sum_list (ta_events t)) samples;
          p = bin_probability (ta_counts t) (ta_events t) baseline; held = ta_held_out t;
          hc = held_counts held; b = score_bin score
      in e\<lparr>oe_evaluation := (oe_evaluation e)
          \<lparr>ev_brier_score := Some (brier p held), ev_baseline_brier_score := Some (brier (\<lambda>_. baseline) held),
           ev_matching_bin_held_out_samples := fst hc ! b, ev_matching_bin_held_out_events := snd hc ! b,
           ev_matching_bin_calibration_error :=
             (if 0 < fst hc ! b then Some (bin_error p hc b)
              else ev_matching_bin_calibration_error (oe_evaluation e)),
           ev_expected_calibration_error := Some (calibration_error p hc (length held))\<rparr>\<rparr>)"

definition published :: "OutcomeHistory \<Rightarrow> f64 \<Rightarrow> Tally \<Rightarrow> OutcomeEstimate \<Rightarrow> OutcomeEstimate" where
  "published h score t e =
     (let b = score_bin score; hc = held_counts (ta_held_out t);
          baseline = empirical (sum_list (ta_events t)) (sum_list (ta_counts t));
          result = limit ''Chronological held-out evaluation is descriptive; small samples, incomplete surveillance and changing review pipelines can invalidate calibration. Thresholds are engineering guardrails, not a certification.''
            (e\<lparr>oe_probability := Some (bin_probability (ta_counts t) (ta_events t) baseline b),
               oe_upper_bound_95 := Some (upper_bound (ta_events t ! b) (ta_counts t ! b)),
               oe_held_out_upper_bound_95 := Some (upper_bound (snd hc ! b) (fst hc ! b)),
               oe_status := (if oh_synthetic h then ''syntheticDemonstration'' else ''evaluatedEmpirical'')\<rparr>)
      in if oh_synthetic h
         then limit ''Synthetic fixtures demonstrate mechanics only; they provide no real-world calibration and cannot authorize automatic approval.'' result
         else result)"

definition insufficient_support :: string where
  "insufficient_support =
     ''Insufficient outcome support: need '' @ show_nat MIN_TRAIN @ '' training, '' @ show_nat MIN_HELD_OUT @
     '' held-out, '' @ show_nat MIN_BIN @ '' matching-bin labels and both training outcome classes.''"

definition estimate :: "OutcomeHistory option \<Rightarrow> f64 \<Rightarrow> OutcomeKind \<Rightarrow> OutcomeEstimate" where
  "estimate history score k =
     (case history of
        None \<Rightarrow> limit ''No outcome history supplied; absence of findings does not establish low merge risk.''
          (unknown_estimate None k)
      | Some h \<Rightarrow>
          let t = tally h score k; samples = sum_list (ta_counts t); total = sum_list (ta_events t);
              result = counted score t (unknown_estimate (Some h) k)
          in if samples = 0 \<or> ta_held_out t = []
             then limit ''No usable mature training or held-out labels; outcomes remain unknown.'' result
             else
               let result = diagnosed score t result in
               if samples < MIN_TRAIN \<or> length (ta_held_out t) < MIN_HELD_OUT \<or>
                  oe_matching_bin_samples result < MIN_BIN \<or> total = 0 \<or> total = samples
               then limit insufficient_support result
               else if fst (held_counts (ta_held_out t)) ! score_bin score < MIN_BIN
               then limit (''Current score bin needs '' @ show_nat MIN_BIN @
                      '' held-out labels; pooled evaluation is insufficient.'') result
               else published h score t result)"

section \<open>What a valid history promises\<close>

text \<open>The contract of a history in one predicate: \<open>validate_history\<close> decides it.\<close>

definition label_ok :: "OutcomeHistory \<Rightarrow> OutcomeRecord \<Rightarrow> OutcomeKind \<Rightarrow> bool" where
  "label_ok h r k \<longleftrightarrow>
     (let maturity = or_merged_at r + outcome_window (oh_windows h) k in
      0 < outcome_window (oh_windows h) k \<and> i64_ok maturity \<and>
      (case outcome_label r k of
         None \<Rightarrow> True
       | Some obs \<Rightarrow> \<not> blank (oo_evidence obs) \<and> or_merged_at r \<le> oo_observed_at obs \<and> oo_observed_at obs \<le> oh_as_of h \<and>
           (if oo_occurred obs then oo_observed_at obs \<le> maturity else maturity \<le> oo_observed_at obs)))"

definition record_ok :: "OutcomeHistory \<Rightarrow> OutcomeRecord \<Rightarrow> bool" where
  "record_ok h r \<longleftrightarrow>
     (oh_synthetic h \<or> canonical_git_head (or_head r)) \<and> \<not> blank (or_head r) \<and>
     0 < or_score_recorded_at r \<and> or_score_recorded_at r \<le> or_merged_at r \<and> or_merged_at r \<le> oh_as_of h \<and>
     in_unit (or_heuristic_score r) \<and> list_all (label_ok h r) KINDS"

definition history_ok :: "OutcomeHistory \<Rightarrow> bool" where
  "history_ok h \<longleftrightarrow>
     oh_heuristic_version h = 1 \<and> \<not> blank (oh_repository h) \<and> \<not> blank (oh_provenance h) \<and>
     0 < oh_training_cutoff h \<and> oh_training_cutoff h < oh_as_of h \<and>
     distinct (map or_head (oh_records h)) \<and> list_all (record_ok h) (oh_records h) \<and>
     list_all (\<lambda>k. 0 < outcome_window (oh_windows h) k) KINDS"

lemma in_unit_finite: "in_unit x \<Longrightarrow> is_finite x"
  by (auto simp: in_unit_iff)

lemma validate_kind_ok: "is_ok (validate_kind h r k) \<longleftrightarrow> label_ok h r k"
  by (auto simp: validate_kind_def validate_label_def label_ok_def Let_def and_then_ok i64_checked_add_def
      split: option.split)

lemma validate_records_ok:
  "is_ok (validate_records h heads rs) \<longleftrightarrow>
     distinct (map or_head rs) \<and> or_head ` set rs \<inter> heads = {} \<and> list_all (record_ok h) rs"
proof (induction rs arbitrary: heads)
  case (Cons r rs)
  show ?case
    by (auto simp: Cons.IH and_then_ok for_each_ok validate_kind_ok record_ok_def in_unit_finite)
qed simp

lemma validate_history_ok: "is_ok (validate_history h) \<longleftrightarrow> history_ok h"
  by (auto simp: validate_history_def history_ok_def and_then_ok for_each_ok validate_records_ok HEURISTIC_VERSION_def)

text \<open>
  A history is accepted exactly when it keeps its contract: every head once, every score from
  before its merge, no window that leaves \<open>i64\<close>, no observation from after the history's own time,
  a positive label only from within its window and a negative one only from a whole window of
  surveillance. Anything else is an error.
\<close>

theorem validate_history_exact: "is_ok (validate_history h) \<longleftrightarrow> history_ok h"
  by (rule validate_history_ok)

section \<open>The chronological split\<close>

text \<open>The records that train, that are held out, and those whose label is withheld.\<close>

definition trains :: "OutcomeHistory \<Rightarrow> OutcomeKind \<Rightarrow> OutcomeRecord \<Rightarrow> bool" where
  "trains h k r \<longleftrightarrow>
     (case outcome_label r k of
        None \<Rightarrow> False
      | Some obs \<Rightarrow> or_merged_at r < oh_training_cutoff h \<and> oo_observed_at obs \<le> oh_training_cutoff h \<and>
          or_merged_at r + outcome_window (oh_windows h) k \<le> oh_training_cutoff h)"

definition held_back :: "OutcomeHistory \<Rightarrow> OutcomeKind \<Rightarrow> OutcomeRecord \<Rightarrow> bool" where
  "held_back h k r \<longleftrightarrow>
     outcome_label r k \<noteq> None \<and> oh_training_cutoff h \<le> or_merged_at r \<and>
     or_merged_at r + outcome_window (oh_windows h) k \<le> oh_as_of h"

definition happened :: "OutcomeKind \<Rightarrow> OutcomeRecord \<Rightarrow> bool" where
  "happened k r \<longleftrightarrow> (case outcome_label r k of None \<Rightarrow> False | Some obs \<Rightarrow> oo_occurred obs)"

abbreviation record_bin :: "OutcomeRecord \<Rightarrow> nat" where
  "record_bin r \<equiv> score_bin (or_heuristic_score r)"

abbreviation count_of :: "('a \<Rightarrow> bool) \<Rightarrow> 'a list \<Rightarrow> nat" where
  "count_of P xs \<equiv> length (filter P xs)"

definition held_label :: "OutcomeKind \<Rightarrow> OutcomeRecord \<Rightarrow> nat \<times> f64" where
  "held_label k r = (record_bin r, if happened k r then Fin 1 else Fin 0)"

definition tally_of :: "OutcomeHistory \<Rightarrow> OutcomeKind \<Rightarrow> Tally \<Rightarrow> OutcomeRecord list \<Rightarrow> bool" where
  "tally_of h k t rs \<longleftrightarrow>
     length (ta_counts t) = BINS \<and> length (ta_events t) = BINS \<and>
     (\<forall>b < BINS. ta_counts t ! b = count_of (\<lambda>r. trains h k r \<and> record_bin r = b) rs) \<and>
     (\<forall>b < BINS. ta_events t ! b = count_of (\<lambda>r. (trains h k r \<and> happened k r) \<and> record_bin r = b) rs) \<and>
     ta_held_out t = map (held_label k) (filter (held_back h k) rs) \<and>
     ev_unknown_labels (ta_eval t) = count_of (\<lambda>r. outcome_label r k = None) rs \<and>
     ev_immature_or_unavailable_labels (ta_eval t) =
       count_of (\<lambda>r. outcome_label r k \<noteq> None \<and> \<not> trains h k r \<and> \<not> held_back h k r) rs"

lemma score_bin_bound: "score_bin s < BINS"
  by (simp add: score_bin_def BINS_def)

lemma tally_start_of: "tally_of h k tally_start []"
  by (simp add: tally_of_def tally_start_def default_evaluation_def)

lemma tally_step_of:
  assumes "tally_of h k t rs"
  shows "tally_of h k (tally_step h score k t r) (rs @ [r])"
proof (cases "outcome_label r k")
  case None
  then have "\<not> trains h k r" "\<not> held_back h k r" by (simp_all add: trains_def held_back_def)
  with None assms show ?thesis by (simp add: tally_of_def tally_step_def)
next
  case (Some obs)
  consider "trains h k r" "\<not> held_back h k r" | "\<not> trains h k r" "held_back h k r" | "\<not> trains h k r" "\<not> held_back h k r"
    using Some by (auto simp: trains_def held_back_def)
  then show ?thesis
  proof cases
    case 1
    then have "tally_step h score k t r = add_training score r obs t"
      using Some by (auto simp: tally_step_def Let_def trains_def)
    with 1 Some assms score_bin_bound [of "or_heuristic_score r"] show ?thesis
      by (auto simp: tally_of_def add_training_def Let_def nth_list_update happened_def)
  next
    case 2
    then have "tally_step h score k t r = add_held_out score r obs t"
      using Some by (auto simp: tally_step_def Let_def held_back_def)
    with 2 Some assms show ?thesis
      by (auto simp: tally_of_def add_held_out_def Let_def held_label_def happened_def)
  next
    case 3
    then have "tally_step h score k t r = withhold t"
      using Some by (auto simp: tally_step_def Let_def trains_def held_back_def)
    with 3 Some assms show ?thesis
      by (auto simp: tally_of_def withhold_def)
  qed
qed

lemma tally_fold: "tally_of h k (foldl (tally_step h score k) tally_start rs) rs"
  by (induction rs rule: rev_induct) (simp_all add: tally_start_of tally_step_of)

lemma tally_facts: "tally_of h k (tally h score k) (sort_by record_cmp (oh_records h))"
  by (simp add: tally_def tally_fold)

lemma count_sorted: "count_of P (sort_by c xs) = count_of P xs"
  by (metis mset_filter mset_sort_by size_mset)

lemma count_bins: "(\<Sum>b < BINS. count_of (\<lambda>r. P r \<and> record_bin r = b) rs) = count_of P rs"
proof (induction rs)
  case (Cons r rs)
  have "(\<Sum>b < BINS. count_of (\<lambda>r. P r \<and> record_bin r = b) (r # rs)) =
      (\<Sum>b < BINS. count_of (\<lambda>r. P r \<and> record_bin r = b) rs + (if b = record_bin r then of_bool (P r) else 0))"
    by (rule sum.cong) auto
  also have "\<dots> = count_of P rs + of_bool (P r)"
    unfolding sum.distrib Cons.IH sum.delta [OF finite_lessThan] using score_bin_bound [of "or_heuristic_score r"] by simp
  finally show ?case by simp
qed simp

lemma sum_bins:
  assumes "length xs = BINS" and "\<forall>b < BINS. xs ! b = count_of (\<lambda>r. P r \<and> record_bin r = b) rs"
  shows "sum_list xs = count_of P rs"
proof -
  have "sum_list xs = (\<Sum>b < BINS. xs ! b)"
    by (simp add: sum_list_sum_nth assms(1) atLeast0LessThan)
  also have "\<dots> = count_of P rs" using assms(2) by (simp add: count_bins)
  finally show ?thesis .
qed

text \<open>The tally of a history, over its records in any order.\<close>

lemma tally_counts:
  fixes h score k
  defines "t \<equiv> tally h score k"
  shows "b < BINS \<Longrightarrow> ta_counts t ! b = count_of (\<lambda>r. trains h k r \<and> record_bin r = b) (oh_records h)"
    and "b < BINS \<Longrightarrow> ta_events t ! b = count_of (\<lambda>r. (trains h k r \<and> happened k r) \<and> record_bin r = b) (oh_records h)"
    and "sum_list (ta_counts t) = count_of (trains h k) (oh_records h)"
    and "sum_list (ta_events t) = count_of (\<lambda>r. trains h k r \<and> happened k r) (oh_records h)"
    and "ta_held_out t = map (held_label k) (filter (held_back h k) (sort_by record_cmp (oh_records h)))"
    and "ev_unknown_labels (ta_eval t) = count_of (\<lambda>r. outcome_label r k = None) (oh_records h)"
    and "ev_immature_or_unavailable_labels (ta_eval t) =
      count_of (\<lambda>r. outcome_label r k \<noteq> None \<and> \<not> trains h k r \<and> \<not> held_back h k r) (oh_records h)"
  using tally_facts [of h k score] unfolding tally_of_def t_def
  by (simp_all add: count_sorted sum_bins)

lemma held_fold:
  assumes "\<forall>(b, y) \<in> set held. b < BINS"
  shows "length (fst (held_counts held)) = BINS \<and> length (snd (held_counts held)) = BINS \<and>
    (\<forall>b < BINS. fst (held_counts held) ! b = count_of (\<lambda>(c, y). c = b) held \<and>
      snd (held_counts held) ! b = count_of (\<lambda>(c, y). c = b \<and> y = Fin 1) held)"
  using assms
proof (induction held rule: rev_induct)
  case Nil
  then show ?case by (simp add: held_counts_def)
next
  case (snoc x held)
  obtain b y where x: "x = (b, y)" by force
  have "held_counts (held @ [x]) = held_step (held_counts held) x" by (simp add: held_counts_def)
  then show ?case using snoc by (auto simp: x held_step_def case_prod_beta nth_list_update)
qed

lemma held_bins:
  assumes "held = map (held_label k) rs" and "b < BINS"
  shows "fst (held_counts held) ! b = count_of (\<lambda>r. record_bin r = b) rs"
    and "snd (held_counts held) ! b = count_of (\<lambda>r. record_bin r = b \<and> happened k r) rs"
proof -
  have "\<forall>(b, y) \<in> set held. b < BINS" by (auto simp: assms(1) held_label_def score_bin_bound)
  from held_fold [OF this] assms(2)
  have "fst (held_counts held) ! b = count_of (\<lambda>(c, y). c = b) held"
    "snd (held_counts held) ! b = count_of (\<lambda>(c, y). c = b \<and> y = Fin 1) held" by auto
  then show "fst (held_counts held) ! b = count_of (\<lambda>r. record_bin r = b) rs"
    "snd (held_counts held) ! b = count_of (\<lambda>r. record_bin r = b \<and> happened k r) rs"
    by (auto simp: assms(1) filter_map comp_def held_label_def intro!: arg_cong [where f = length] filter_cong)
qed

lemma count_le: "count_of P xs \<le> length xs"
  by (rule length_filter_le)

lemma count_mono: "(\<And>x. P x \<Longrightarrow> Q x) \<Longrightarrow> count_of P xs \<le> count_of Q xs"
  by (induction xs) auto

lemma count_three: "count_of P xs + count_of Q xs + count_of U xs + count_of W xs = length xs"
  if "\<And>x. (of_bool (P x) :: nat) + of_bool (Q x) + of_bool (U x) + of_bool (W x) = 1"
proof (induction xs)
  case (Cons x xs)
  have "(if P x then 1 else 0 :: nat) + (if Q x then 1 else 0) + (if U x then 1 else 0) + (if W x then 1 else 0) = 1"
    using that [of x] by (simp add: of_bool_def)
  with Cons.IH show ?case by (simp split: if_splits)
qed simp

section \<open>Wilson's bound\<close>

lemma wilson_bound:
  assumes "0 < n" "e \<le> n"
  shows "\<exists>u. upper_bound e n = Fin u \<and> real e / real n \<le> u \<and> u \<le> 1"
proof -
  define N :: real where "N = real n"
  define p where "p = real e / N"
  define z :: real where "z = 1.96"
  define v where "v = (p * (1 - p) + z * z / (4 * N)) / N"
  have N: "0 < N" using assms by (simp add: N_def)
  have p: "0 \<le> p" "p \<le> 1" using assms N by (simp_all add: p_def N_def)
  have z: "0 < z" by (simp add: z_def)
  have v0: "0 \<le> v" using N p z by (simp add: v_def)
  define u where "u = (p + z * z / (2 * N) + z * sqrt v) / (1 + z * z / N)"
  have d: "0 < 1 + z * z / N" using N z by (simp add: add_pos_pos)
  have "upper_bound e n = Fin u"
    using N v0 d by (simp add: upper_bound_def Let_def f64_of_nat_def square_def u_def v_def p_def z_def N_def [symmetric])
  moreover have "real e / real n \<le> u"
  proof -
    have "p * p \<le> p" using p by (simp add: mult_left_le_one_le)
    then have "(z / (2 * N))\<^sup>2 \<le> v" using N by (simp add: v_def power2_eq_square field_simps)
    then have "z / (2 * N) \<le> sqrt v" using real_le_rsqrt by blast
    then have "z * (z / (2 * N)) \<le> z * sqrt v" by (rule mult_left_mono) (use z in simp)
    moreover have "p + p * A \<le> p + B + S" if "B \<le> S" "A = 2 * B" "0 \<le> B" for A B S :: real
      using that mult_right_mono [OF p(2), of A] by simp
    moreover have "z * z / N = 2 * (z * (z / (2 * N)))" "0 \<le> z * (z / (2 * N))" using N z by simp_all
    ultimately have "p + p * (z * z / N) \<le> p + z * (z / (2 * N)) + z * sqrt v" by blast
    then have "p * (1 + z * z / N) \<le> p + z * z / (2 * N) + z * sqrt v" by (simp add: distrib_left)
    then show ?thesis using d by (simp add: u_def p_def N_def pos_le_divide_eq)
  qed
  moreover have "u \<le> 1"
  proof -
    have "(1 - p + A / 2)\<^sup>2 = A * (p * (1 - p)) + (A / 2)\<^sup>2 + ((1 - p)\<^sup>2 + A * (1 - p)\<^sup>2)" for A :: real
      by (simp add: power2_eq_square algebra_simps)
    from this [of "z * z / N"] have "z * z / N * (p * (1 - p)) + (z * z / N / 2)\<^sup>2 \<le> (1 - p + z * z / N / 2)\<^sup>2"
      using N by simp
    moreover have "z * z * v = z * z / N * (p * (1 - p)) + (z * z / N / 2)\<^sup>2"
      using N by (simp add: v_def power2_eq_square field_simps)
    ultimately have "z * z * v \<le> (1 - p + z * z / (2 * N))\<^sup>2" by (simp add: mult.commute)
    then have "sqrt (z * z * v) \<le> 1 - p + z * z / (2 * N)"
      using p N z by (intro real_le_lsqrt) (simp_all add: v0)
    then have "z * sqrt v \<le> 1 - p + z * z / (2 * N)" using z by (simp add: real_sqrt_mult)
    moreover have "z * z / N = z * z / (2 * N) + z * z / (2 * N)" by simp
    moreover have "p + B + S \<le> 1 * (1 + A)" if "S \<le> 1 - p + B" "A = B + B" for A B S :: real
      using that by simp
    ultimately have "p + z * z / (2 * N) + z * sqrt v \<le> 1 * (1 + z * z / N)" by blast
    then show ?thesis unfolding u_def using d by (simp only: pos_divide_le_eq)
  qed
  ultimately show ?thesis by blast
qed


text \<open>
  The published bounds are bounds: for at least one sample, Wilson's upper bound is a finite
  number from the observed frequency up to one.
\<close>

theorem upper_bound_covers:
  assumes "0 < n" and "e \<le> n"
  shows "\<exists>u. upper_bound e n = Fin u \<and> real e / real n \<le> u \<and> u \<le> 1"
  by (rule wilson_bound [OF assms])

lemma upper_bound_covers_witness:
  "\<exists>u. upper_bound 3 20 = Fin u \<and> real 3 / real 20 \<le> u \<and> u \<le> 1"
  by (rule upper_bound_covers) simp_all

section \<open>What an estimate says\<close>

lemma estimate_evaluation:
  fixes h score k
  defines "t \<equiv> tally h score k" and "e \<equiv> oe_evaluation (estimate (Some h) score k)"
  shows "ev_training_samples e = sum_list (ta_counts t)" "ev_training_events e = sum_list (ta_events t)"
    "ev_held_out_samples e = length (ta_held_out t)"
    "ev_held_out_events e = count_of (\<lambda>(_, y). y = Fin 1) (ta_held_out t)"
    "ev_unknown_labels e = ev_unknown_labels (ta_eval t)"
    "ev_immature_or_unavailable_labels e = ev_immature_or_unavailable_labels (ta_eval t)"
  unfolding e_def t_def
  by (simp_all add: estimate_def Let_def limit_def counted_def diagnosed_def published_def)

lemma held_label_event [simp]: "(case held_label k r of (_, y) \<Rightarrow> y = Fin 1) \<longleftrightarrow> happened k r"
  by (simp add: held_label_def)

lemma held_events: "count_of (\<lambda>(_, y). y = Fin 1) (map (held_label k) rs) = count_of (happened k) rs"
  by (simp add: filter_map comp_def)

text \<open>
  An estimate accounts for every record of its history: each either trains, is held out, has no
  label for the outcome, or has its label withheld; it trains only if merged, matured and observed by
  the cutoff and is held out only if merged from the cutoff on and matured by the history's time; and
  the numbers of samples and events are exactly those.
\<close>

theorem estimate_accounts:
  "case oe_evaluation (estimate (Some h) score k) of e \<Rightarrow>
     ev_training_samples e = count_of (trains h k) (oh_records h) \<and>
     ev_training_events e = count_of (\<lambda>r. trains h k r \<and> happened k r) (oh_records h) \<and>
     ev_held_out_samples e = count_of (held_back h k) (oh_records h) \<and>
     ev_held_out_events e = count_of (\<lambda>r. held_back h k r \<and> happened k r) (oh_records h) \<and>
     ev_training_samples e + ev_held_out_samples e + ev_unknown_labels e + ev_immature_or_unavailable_labels e
       = length (oh_records h)"
proof -
  have "count_of (\<lambda>r. held_back h k r \<and> happened k r) (oh_records h)
      = count_of (happened k) (filter (held_back h k) (sort_by record_cmp (oh_records h)))"
    by (simp add: count_sorted conj_commute)
  moreover have "count_of (trains h k) rs + count_of (held_back h k) rs + count_of (\<lambda>r. outcome_label r k = None) rs +
      count_of (\<lambda>r. outcome_label r k \<noteq> None \<and> \<not> trains h k r \<and> \<not> held_back h k r) rs = length rs" for rs
    by (rule count_three) (auto simp: trains_def held_back_def split: option.split)
  ultimately show ?thesis
    by (simp add: estimate_evaluation tally_counts held_events count_sorted)
qed

definition supported_estimate :: "OutcomeHistory \<Rightarrow> f64 \<Rightarrow> OutcomeKind \<Rightarrow> OutcomeEstimate \<Rightarrow> bool" where
  "supported_estimate h score k e \<longleftrightarrow>
     (let train = filter (trains h k) (oh_records h); held = filter (held_back h k) (oh_records h);
          here = filter (\<lambda>r. record_bin r = score_bin score);
          bounded = (\<lambda>u rs. \<exists>x. u = Some (Fin x) \<and> real (count_of (happened k) rs) / real (length rs) \<le> x \<and> x \<le> 1)
      in 40 \<le> length train \<and> 20 \<le> length held \<and> 20 \<le> length (here train) \<and> 20 \<le> length (here held) \<and>
         0 < count_of (happened k) train \<and> count_of (happened k) train < length train \<and>
         oe_probability e =
           Some (Fin ((real (count_of (happened k) (here train)) + 1) / (real (length (here train)) + 2))) \<and>
         bounded (oe_upper_bound_95 e) (here train) \<and> bounded (oe_held_out_upper_bound_95 e) (here held) \<and>
         oe_status e = (if oh_synthetic h then ''syntheticDemonstration'' else ''evaluatedEmpirical''))"

lemma estimate_cases:
  fixes h score k
  defines "e \<equiv> estimate (Some h) score k" and "t \<equiv> tally h score k"
  shows "oe_probability e = None \<and> oe_status e = ''unknown'' \<and> oe_upper_bound_95 e = None \<and>
      oe_held_out_upper_bound_95 e = None \<or>
    MIN_TRAIN \<le> sum_list (ta_counts t) \<and> MIN_HELD_OUT \<le> length (ta_held_out t) \<and>
      MIN_BIN \<le> ta_counts t ! score_bin score \<and> MIN_BIN \<le> fst (held_counts (ta_held_out t)) ! score_bin score \<and>
      0 < sum_list (ta_events t) \<and> sum_list (ta_events t) \<noteq> sum_list (ta_counts t) \<and>
      oe_probability e = Some (empirical (ta_events t ! score_bin score) (ta_counts t ! score_bin score)) \<and>
      oe_upper_bound_95 e = Some (upper_bound (ta_events t ! score_bin score) (ta_counts t ! score_bin score)) \<and>
      oe_held_out_upper_bound_95 e = Some (upper_bound (snd (held_counts (ta_held_out t)) ! score_bin score)
        (fst (held_counts (ta_held_out t)) ! score_bin score)) \<and>
      oe_status e = (if oh_synthetic h then ''syntheticDemonstration'' else ''evaluatedEmpirical'')"
  unfolding e_def t_def
  by (auto simp: estimate_def Let_def limit_def counted_def diagnosed_def published_def unknown_estimate_def
      bin_probability_def MIN_BIN_def not_less simp del: sum_list_eq_0_iff)

lemma bounded_rate:
  "20 \<le> length rs \<Longrightarrow>
     \<exists>x. upper_bound (count_of P rs) (length rs) = Fin x \<and> real (count_of P rs) / real (length rs) \<le> x \<and> x \<le> 1"
  by (rule wilson_bound) auto

lemma estimate_supported:
  "let e = estimate (Some h) score k in
     supported_estimate h score k e \<or>
     oe_status e = ''unknown'' \<and> oe_probability e = None \<and> oe_upper_bound_95 e = None \<and>
     oe_held_out_upper_bound_95 e = None"
proof -
  let ?t = "tally h score k" and ?b = "score_bin score"
  let ?rs = "oh_records h" and ?here = "filter (\<lambda>r. record_bin r = score_bin score)"
  have b: "?b < BINS" by (rule score_bin_bound)
  let ?train = "filter (trains h k) ?rs" and ?held = "filter (held_back h k) ?rs"
  have counts: "ta_counts ?t ! ?b = length (?here ?train)"
      "ta_events ?t ! ?b = count_of (happened k) (?here ?train)"
      "sum_list (ta_counts ?t) = length ?train" "sum_list (ta_events ?t) = count_of (happened k) ?train"
      "length (ta_held_out ?t) = length ?held"
    using tally_counts [where h = h and score = score and k = k] b by (simp_all add: count_sorted conj_ac)
  have held: "fst (held_counts (ta_held_out ?t)) ! ?b = length (?here ?held)"
      "snd (held_counts (ta_held_out ?t)) ! ?b = count_of (happened k) (?here ?held)"
    using held_bins [OF tally_counts(5) b] by (simp_all add: count_sorted conj_ac)
  have "count_of (happened k) ?train \<le> length ?train" by (rule count_le)
  with estimate_cases [of h score k] bounded_rate [of "?here ?train" "happened k"]
    bounded_rate [of "?here ?held" "happened k"]
  show ?thesis
    unfolding Let_def supported_estimate_def counts held MIN_TRAIN_def MIN_HELD_OUT_def MIN_BIN_def
    by (elim disjE) (auto simp: empirical_def f64_of_nat_def)
qed

text \<open>
  C16. A probability is never published without its support: it is the smoothed frequency of the
  outcome among at least twenty merges of the candidate's score bin that trained, of at least forty
  in all with both outcomes among them, at least twenty held-out merges of the same bin stand beside
  it, and both upper bounds lie between the observed frequency and one. An estimate without such
  support stays unknown and has no number at all.
\<close>

theorem estimate_is_supported:
  "let e = estimate (Some h) score k in
     supported_estimate h score k e \<or>
     oe_status e = ''unknown'' \<and> oe_probability e = None \<and> oe_upper_bound_95 e = None \<and>
     oe_held_out_upper_bound_95 e = None"
  by (rule estimate_supported)

section \<open>Independence of the order of the records\<close>

interpretation record_order: comparator record_cmp
  unfolding record_cmp_def [abs_def] by (intro comparator_intros)

lemma sorted_records:
  assumes "distinct (map or_head rs)" and "mset rs' = mset rs"
  shows "sort_by record_cmp rs' = sort_by record_cmp rs"
proof (rule record_order.sort_by_perm_on [OF assms(2)])
  fix x y
  assume "x \<in> set rs'" "y \<in> set rs'" "record_cmp x y \<noteq> Greater" "record_cmp y x \<noteq> Greater"
  moreover have "set rs' = set rs" using assms(2) by (rule mset_eq_setD)
  ultimately show "x = y"
    using assms(1) by (auto simp: record_cmp_def distinct_map dest: inj_onD)
qed

text \<open>
  The order in which an export lists its merges does not affect what is estimated from it, not
  even in the diagnostics, whose sums are taken in the order of the merges.
\<close>

theorem estimate_order_independent:
  assumes "history_ok h" and "mset rs = mset (oh_records h)"
  shows "estimate (Some (h\<lparr>oh_records := rs\<rparr>)) score k = estimate (Some h) score k"
proof -
  have "sort_by record_cmp rs = sort_by record_cmp (oh_records h)"
    using assms by (intro sorted_records) (simp_all add: history_ok_def)
  moreover have "tally_step (h\<lparr>oh_records := rs\<rparr>) score k = tally_step h score k"
    by (intro ext) (simp add: tally_step_def Let_def split: option.split)
  ultimately have "tally (h\<lparr>oh_records := rs\<rparr>) score k = tally h score k" by (simp add: tally_def)
  moreover have "published (h\<lparr>oh_records := rs\<rparr>) = published h" by (intro ext) (simp add: published_def)
  moreover have "unknown_estimate (Some (h\<lparr>oh_records := rs\<rparr>)) k = unknown_estimate (Some h) k"
    by (simp add: unknown_estimate_def)
  ultimately show ?thesis by (simp only: estimate_def option.case)
qed

definition example_record :: "string \<Rightarrow> int \<Rightarrow> OutcomeRecord" where
  "example_record head t = \<lparr>or_head = head, or_merged_at = t, or_score_recorded_at = t, or_heuristic_score = Fin 0,
     or_revert = None, or_incident = None, or_flake = None\<rparr>"

definition example_history :: OutcomeHistory where
  "example_history = \<lparr>oh_heuristic_version = 1, oh_repository = ''o/r'', oh_provenance = ''fixture'', oh_synthetic = True,
     oh_as_of = 2000, oh_training_cutoff = 1000, oh_windows = default_windows,
     oh_records = [example_record ''a'' 100, example_record ''b'' 200]\<rparr>"

lemma example_history_ok: "history_ok example_history"
  by (simp add: history_ok_def example_history_def example_record_def record_ok_def label_ok_def KINDS_def
      default_windows_def i64_ok_def i64_max_def i64_min_def in_unit_iff Let_def)
    code_simp

lemma estimate_order_independent_witness:
  "estimate (Some (example_history\<lparr>oh_records := [example_record ''b'' 200, example_record ''a'' 100]\<rparr>)) (Fin 0) Revert
     = estimate (Some example_history) (Fin 0) Revert"
  by (rule estimate_order_independent [OF example_history_ok]) (simp add: example_history_def)

end
