(* ===== verification/Approval.thy ===== *)
theory Approval
  imports Outcomes
begin

text \<open>
  The opt-in approval decision (\<open>review/merge_confidence.rs\<close>): the limits of a policy, the evidence of
  the current head, the gates that a report, its outcome estimates and its checks must pass, and
  \<open>assess\<close>, which validates its inputs, estimates the three outcomes and decides.
\<close>

record NamedCheck =
  nc_name :: string
  nc_head :: string
  nc_status :: string
  nc_completed_at :: int
  nc_evidence :: string

record CheckEvidence =
  ce_repository :: string
  ce_head :: string
  ce_reviewed_head :: string
  ce_assessed_at :: int
  ce_review_complete :: bool
  ce_evidence_complete :: bool
  ce_supported_inputs :: bool
  ce_auxiliary_unknowns :: "string list"
  ce_checks :: "NamedCheck list"

definition default_check_evidence :: CheckEvidence where
  "default_check_evidence =
     \<lparr>ce_repository = [], ce_head = [], ce_reviewed_head = [], ce_assessed_at = 0, ce_review_complete = False,
      ce_evidence_complete = False, ce_supported_inputs = False, ce_auxiliary_unknowns = [], ce_checks = []\<rparr>"

record ApprovalPolicy =
  ap_enabled :: bool
  ap_required_checks :: "string list"
  ap_max_revert_probability :: f64
  ap_max_incident_probability :: f64
  ap_max_flake_probability :: f64
  ap_max_calibration_error :: f64
  ap_max_finding_severity :: f64
  ap_max_check_age_seconds :: int
  ap_max_history_age_seconds :: int

definition default_policy :: ApprovalPolicy where
  "default_policy =
     \<lparr>ap_enabled = False, ap_required_checks = [], ap_max_revert_probability = Fin 0.1,
      ap_max_incident_probability = Fin 0.1, ap_max_flake_probability = Fin 0.1,
      ap_max_calibration_error = Fin 0.1, ap_max_finding_severity = Fin 1.0,
      ap_max_check_age_seconds = 3600, ap_max_history_age_seconds = 30 * 86400\<rparr>"

definition validate_policy :: "ApprovalPolicy \<Rightarrow> unit result" where
  "validate_policy p =
     and_then (for_each (\<lambda>v. ensure (is_finite v \<and> in_unit v)
         ''approval probability and calibration limits must be finite in [0,1]'')
       [ap_max_revert_probability p, ap_max_incident_probability p, ap_max_flake_probability p,
        ap_max_calibration_error p]) (\<lambda>_.
     and_then (ensure (is_finite (ap_max_finding_severity p) \<and> Fin 0 \<le> ap_max_finding_severity p \<and>
           ap_max_finding_severity p \<le> SEVERITY_MAX)
         ''approval severity limit is invalid'') (\<lambda>_.
     and_then (ensure (0 < ap_max_check_age_seconds p \<and> 0 < ap_max_history_age_seconds p)
         ''approval evidence freshness limits must be positive'') (\<lambda>_.
     ensure (\<not> ap_enabled p \<or>
         ap_required_checks p \<noteq> [] \<and> list_all (\<lambda>name. \<not> blank name) (ap_required_checks p))
       ''enabled automatic approval requires named checks'')))"

section \<open>The gates\<close>

definition valid_excerpt :: "SpecEvidence \<Rightarrow> bool" where
  "valid_excerpt e \<longleftrightarrow>
     \<not> blank (se_path e) \<and> 0 < se_start_line e \<and> se_start_line e \<le> se_end_line e \<and> \<not> blank (se_text e)"

definition known_document :: "SpecDocument list \<Rightarrow> SpecEvidence \<Rightarrow> bool" where
  "known_document documents e \<longleftrightarrow>
     list_ex (\<lambda>d. sd_path d = se_path e \<and> \<not> blank (sd_content_hash d) \<and> 0 < sd_bytes d \<and> 0 < sd_candidates d) documents"

definition incomplete_check :: "ReviewReport \<Rightarrow> SpecSummary \<Rightarrow> SpecCheck \<Rightarrow> bool" where
  "incomplete_check report summary check \<longleftrightarrow>
     (if \<not> is_finite (sc_confidence check) \<or> \<not> (Fin 0.85 \<le> sc_confidence check \<and> sc_confidence check \<le> Fin 1) \<or>
         blank (sc_reason check) \<or> \<not> list_ex (\<lambda>row. mr_file row = sc_file check) (r_matrix report)
      then True
      else case sc_status check of
          NotApplicable \<Rightarrow> False
        | Matches \<Rightarrow>
            (case sc_source check of None \<Rightarrow> True
             | Some source \<Rightarrow> \<not> valid_excerpt source \<or> se_path source \<noteq> sc_file check) \<or>
            (case sc_spec check of None \<Rightarrow> True
             | Some quoted \<Rightarrow> \<not> valid_excerpt quoted \<or> \<not> known_document (ss_documents summary) quoted)
        | _ \<Rightarrow> True)"

definition incomplete_spec_evidence :: "ReviewReport \<Rightarrow> bool" where
  "incomplete_spec_evidence report \<longleftrightarrow>
     (case r_spec_drift report of
        None \<Rightarrow> False
      | Some summary \<Rightarrow>
          if ss_documents summary = [] \<or> ss_checks summary = [] then True
          else list_ex (incomplete_check report summary) (ss_checks summary))"

text \<open>\<open>matrix_files.insert(..)\<close> inside the closure of \<open>any\<close>, which stops at the first row that is at
  fault: the set of the files seen before the row.\<close>

fun faulty_matrix :: "string set \<Rightarrow> MatrixRow list \<Rightarrow> bool" where
  "faulty_matrix seen [] = False"
| "faulty_matrix seen (row # rows) =
     (if blank (mr_file row) \<or> mr_file row \<in> seen \<or>
         list_ex (\<lambda>d. mr_probabilities row d = None) DIMENSIONS
      then True else faulty_matrix (insert (mr_file row) seen) rows)"

definition reason :: "bool \<Rightarrow> string \<Rightarrow> string list" where
  "reason b msg = (if b then [msg] else [])"

definition report_reasons :: "ReviewReport \<Rightarrow> ApprovalPolicy \<Rightarrow> string list" where
  "report_reasons report policy =
     reason (r_mode report \<noteq> Changes) ''Automatic approval requires a changes review.'' @
     reason (0 < wc_suppressed_findings (r_workflow report))
       ''Suppressed findings prevent proving absence of high-risk evidence.'' @
     reason (incomplete_spec_evidence report)
       ''Specification checks indicate drift, uncertainty, deferred work or insufficient evidence.'' @
     reason (\<not> r_reviewed_clean report \<or> \<not> r_reviewed_committed report \<or>
         (case r_reviewed_base report of None \<Rightarrow> True | Some base \<Rightarrow> blank base))
       ''Review requires committed-only evidence, a clean immutable checkout and recorded merge-base identity.'' @
     reason ((case r_upgrades report of None \<Rightarrow> False | Some u \<Rightarrow> us_unknowns u \<noteq> []) \<or>
         (case r_docs_drift report of None \<Rightarrow> False | Some d \<Rightarrow> dd_unknowns d \<noteq> []))
       ''Upgrade or documentation analysis has unknown evidence.'' @
     reason (list_ex (\<lambda>d. \<not> list_ex (\<lambda>meta. dm_key meta = d) (r_dimensions report)) DIMENSIONS \<or>
         faulty_matrix {} (r_matrix report))
       ''Approval requires all review dimensions and unique evidenced file coverage.'' @
     reason (r_partial report \<or> r_skipped report \<noteq> [] \<or> 0 < bs_deferred (r_budget report) \<or>
         0 < wc_dropped_context_chars (r_workflow report) \<or> 0 < wc_dropped_context_items (r_workflow report) \<or>
         ti_dismissed (r_tier report) \<noteq> [] \<or> r_shard report \<noteq> None \<or>
         wc_followed_signals (r_workflow report) < wc_threshold_signals (r_workflow report) \<or>
         r_screened_files report = 0 \<or> length (r_matrix report) \<noteq> r_screened_files report)
       ''Review is incomplete, truncated, deferred, sharded, skipped or lacks file coverage.'' @
     reason (0 < wc_needs_human_findings (r_workflow report) \<or>
         list_ex (\<lambda>f. case f_ensemble f of None \<Rightarrow> False | Some e \<Rightarrow> en_needs_human e) (r_findings report))
       ''Findings require human judgment.'' @
     reason (list_ex (\<lambda>f. f_action f = RequestChanges \<or> BLOCKING_SEVERITY \<le> f_severity f \<or>
         ap_max_finding_severity policy \<le> f_severity f) (r_findings report))
       ''Blocking or high-risk findings prevent automatic approval.'' @
     reason (list_ex (\<lambda>f. blank (f_evidence f) \<or> blank (f_file f) \<or> f_line f = 0) (r_findings report))
       ''Finding evidence or location is missing.''"

definition history_reasons :: "OutcomeHistory option \<Rightarrow> string list" where
  "history_reasons history =
     reason (history = None) ''Observed outcome history is missing.'' @
     reason (case history of None \<Rightarrow> False | Some h \<Rightarrow> oh_synthetic h)
       ''Synthetic outcomes cannot authorize approval.''"

fun kind_debug :: "OutcomeKind \<Rightarrow> string" where
  "kind_debug Revert = ''Revert''"
| "kind_debug Incident = ''Incident''"
| "kind_debug Flake = ''Flake''"

fun max_probability_of :: "ApprovalPolicy \<Rightarrow> OutcomeKind \<Rightarrow> f64" where
  "max_probability_of p Revert = ap_max_revert_probability p"
| "max_probability_of p Incident = ap_max_incident_probability p"
| "max_probability_of p Flake = ap_max_flake_probability p"

text \<open>\<open>is_none_or(|x| x > limit)\<close>\<close>

definition none_or_above :: "f64 \<Rightarrow> f64 option \<Rightarrow> bool" where
  "none_or_above bound x \<longleftrightarrow> (case x of None \<Rightarrow> True | Some p \<Rightarrow> bound < p)"

definition outcome_reasons :: "ApprovalPolicy \<Rightarrow> OutcomeEstimate \<Rightarrow> string list" where
  "outcome_reasons policy e =
     (let bound = max_probability_of policy (oe_outcome e); ev = oe_evaluation e in
      reason (oe_status e \<noteq> ''evaluatedEmpirical'' \<or> oe_probability e = None \<or>
          none_or_above bound (oe_upper_bound_95 e) \<or> none_or_above bound (oe_held_out_upper_bound_95 e))
        (kind_debug (oe_outcome e) @ '' risk is unknown, unsupported or exceeds the probability uncertainty bound.'') @
      reason (none_or_above (ap_max_calibration_error policy) (ev_expected_calibration_error ev) \<or>
          none_or_above (ap_max_calibration_error policy) (ev_matching_bin_calibration_error ev) \<or>
          (case (ev_brier_score ev, ev_baseline_brier_score ev) of
             (Some actual, Some baseline) \<Rightarrow> baseline < actual
           | _ \<Rightarrow> True))
        (kind_debug (oe_outcome e) @ '' held-out calibration or baseline comparison is insufficient.''))"

definition identity_reasons :: "ReviewReport \<Rightarrow> OutcomeHistory option \<Rightarrow> ApprovalPolicy \<Rightarrow> CheckEvidence \<Rightarrow> string list" where
  "identity_reasons report history policy checks =
     reason (blank (ce_repository checks) \<or> blank (ce_head checks) \<or> ce_head checks \<noteq> ce_reviewed_head checks \<or>
         r_reviewed_head report \<noteq> Some (ce_head checks) \<or> ce_assessed_at checks \<le> 0)
       ''Current repository/head identity and review timestamp are missing or mismatched.'' @
     reason ((case history of None \<Rightarrow> False | Some h \<Rightarrow> \<not> oh_synthetic h) \<and> \<not> canonical_git_head (ce_head checks))
       ''Observed-history approval requires a canonical full lowercase Git candidate head.'' @
     reason (\<not> ce_review_complete checks \<or> \<not> ce_evidence_complete checks \<or> \<not> ce_supported_inputs checks \<or>
         ce_auxiliary_unknowns checks \<noteq> [])
       ''Review or auxiliary evidence is incomplete, unsupported or unknown.'' @
     reason (case history of None \<Rightarrow> False
         | Some h \<Rightarrow> oh_repository h \<noteq> ce_repository checks \<or> ce_assessed_at checks < oh_as_of h \<or>
             ap_max_history_age_seconds policy < i64_saturating_sub (ce_assessed_at checks) (oh_as_of h) \<or>
             list_ex (\<lambda>r. or_head r = ce_head checks) (oh_records h))
       ''Outcome history is stale, from another repository, future-dated or includes the candidate head.''"

definition recent :: "CheckEvidence \<Rightarrow> int option \<Rightarrow> int \<Rightarrow> bool" where
  "recent checks timestamp allowed \<longleftrightarrow>
     (case timestamp of None \<Rightarrow> False
      | Some t \<Rightarrow> 0 < t \<and> t \<le> ce_assessed_at checks \<and> i64_saturating_sub (ce_assessed_at checks) t \<le> allowed)"

definition freshness_reasons :: "ApprovalPolicy \<Rightarrow> CheckEvidence \<Rightarrow> OutcomeEstimate \<Rightarrow> string list" where
  "freshness_reasons policy checks e =
     (case oe_window_seconds e of
        None \<Rightarrow> []
      | Some duration \<Rightarrow>
          let allowance = i64_saturating_add (ap_max_history_age_seconds policy) duration; ev = oe_evaluation e in
          reason (\<not> recent checks (ev_matching_bin_training_last_observed_at ev) allowance \<or>
              \<not> recent checks (ev_matching_bin_held_out_last_observed_at ev) (ap_max_history_age_seconds policy) \<or>
              \<not> recent checks (ev_matching_bin_held_out_last_merged_at ev) allowance)
            (kind_debug (oe_outcome e) @ '' candidate-bin training/evaluation observations or held-out merge cohorts are stale or missing; a refreshed asOf cannot establish current evidence.''))"

definition bad_check :: "ApprovalPolicy \<Rightarrow> CheckEvidence \<Rightarrow> NamedCheck \<Rightarrow> bool" where
  "bad_check policy checks c \<longleftrightarrow>
     blank (nc_name c) \<or> nc_head c \<noteq> ce_head checks \<or> nc_status c \<noteq> ''passed'' \<or> blank (nc_evidence c) \<or>
     nc_completed_at c \<le> 0 \<or> ce_assessed_at checks < nc_completed_at c \<or>
     ap_max_check_age_seconds policy < i64_saturating_sub (ce_assessed_at checks) (nc_completed_at c)"

text \<open>The set of names before each check; every check's name is inserted.\<close>

fun check_reasons :: "ApprovalPolicy \<Rightarrow> CheckEvidence \<Rightarrow> string set \<Rightarrow> NamedCheck list \<Rightarrow> string list" where
  "check_reasons policy checks names [] = []"
| "check_reasons policy checks names (c # cs) =
     reason (nc_name c \<in> names \<or> bad_check policy checks c)
       (''Check '' @ [CHR 0x27] @ nc_name c @ [CHR 0x27] @
        '' is failed, pending, duplicated, stale or lacks current-head evidence.'') @
     check_reasons policy checks (insert (nc_name c) names) cs"

definition required_reasons :: "ApprovalPolicy \<Rightarrow> CheckEvidence \<Rightarrow> string list" where
  "required_reasons policy checks =
     concat (map (\<lambda>name. reason (name \<notin> set (map nc_name (ce_checks checks)))
       (''Required check '' @ [CHR 0x27] @ name @ [CHR 0x27] @ '' is missing.'')) (ap_required_checks policy))"

definition approval ::
  "ReviewReport \<Rightarrow> OutcomeHistory option \<Rightarrow> ApprovalPolicy option \<Rightarrow> CheckEvidence option \<Rightarrow> OutcomeEstimate list \<Rightarrow>
    ApprovalDecision" where
  "approval report history policy checks outcomes =
     (case policy of
        None \<Rightarrow> \<lparr>ad_enabled = False, ad_eligible = False,
          ad_reasons = [''Automatic approval is disabled; explicit enabled policy required.'']\<rparr>
      | Some p \<Rightarrow>
          if \<not> ap_enabled p
          then \<lparr>ad_enabled = False, ad_eligible = False,
            ad_reasons = [''Automatic approval is disabled; explicit enabled policy required.'']\<rparr>
          else
            let reasons = report_reasons report p @ history_reasons history @ concat (map (outcome_reasons p) outcomes)
            in case checks of
                None \<Rightarrow> \<lparr>ad_enabled = True, ad_eligible = False,
                  ad_reasons = reasons @ [''Current-head checks and completeness evidence are missing.'']\<rparr>
              | Some c \<Rightarrow>
                  let reasons = reasons @ identity_reasons report history p c @
                    concat (map (freshness_reasons p c) outcomes) @ check_reasons p c {} (ce_checks c) @
                    required_reasons p c
                  in \<lparr>ad_enabled = True, ad_eligible = (reasons = []), ad_reasons = reasons\<rparr>)"

definition validate_finding :: "Finding \<Rightarrow> unit result" where
  "validate_finding f =
     and_then (ensure (is_finite (f_severity f) \<and> Fin 0 \<le> f_severity f \<and> f_severity f \<le> SEVERITY_MAX)
         ''finding severity is invalid'') (\<lambda>_.
     ensure (list_all (\<lambda>v. is_finite v \<and> in_unit v)
         [f_probability f, f_location_confidence f, f_mechanism_confidence f, f_severity_confidence f])
       ''finding confidence is invalid'')"

definition assess ::
  "ReviewReport \<Rightarrow> OutcomeHistory option \<Rightarrow> ApprovalPolicy option \<Rightarrow> CheckEvidence option \<Rightarrow>
    MergeConfidenceSummary result" where
  "assess report history policy checks =
     and_then (case history of None \<Rightarrow> Inr () | Some h \<Rightarrow> validate_history h) (\<lambda>_.
     and_then (case policy of None \<Rightarrow> Inr () | Some p \<Rightarrow> validate_policy p) (\<lambda>_.
     and_then (for_each validate_finding (r_findings report)) (\<lambda>_.
     and_then (ensure (list_all (\<lambda>row. list_all (\<lambda>p. is_finite p \<and> in_unit p) (prob_values (mr_probabilities row)))
           (r_matrix report))
         ''review matrix probabilities are invalid'') (\<lambda>_.
     let heuristic = p_revert (r_findings report) (r_matrix report);
         outcomes = map (estimate history heuristic) KINDS
     in Inr \<lparr>ms_version = 1, ms_heuristic_version = HEURISTIC_VERSION, ms_heuristic_score = heuristic,
          ms_heuristic_label = ''Uncalibrated hand-weighted review score; not a probability.'',
          ms_repository = map_option oh_repository history, ms_provenance = map_option oh_provenance history,
          ms_synthetic = map_option oh_synthetic history,
          ms_training_cutoff = map_option oh_training_cutoff history, ms_as_of = map_option oh_as_of history,
          ms_outcomes = outcomes, ms_approval = approval report history policy checks outcomes\<rparr>))))"

section \<open>When approval is granted\<close>

lemma reason_Nil [simp]: "reason b msg = [] \<longleftrightarrow> \<not> b"
  by (simp add: reason_def)

lemma faulty_matrix_iff:
  "\<not> faulty_matrix seen rows \<longleftrightarrow>
     distinct (map mr_file rows) \<and> mr_file ` set rows \<inter> seen = {} \<and>
     list_all (\<lambda>row. \<not> blank (mr_file row) \<and> list_all (\<lambda>d. mr_probabilities row d \<noteq> None) DIMENSIONS) rows"
  by (induction rows arbitrary: seen) (auto simp: list_ex_iff list_all_iff)

lemma check_reasons_Nil:
  "check_reasons p c names cs = [] \<longleftrightarrow>
     distinct (map nc_name cs) \<and> nc_name ` set cs \<inter> names = {} \<and> list_all (\<lambda>x. \<not> bad_check p c x) cs"
  by (induction cs arbitrary: names) auto

text \<open>The whole change was reviewed, on a recorded base, and nothing about it is unknown.\<close>

definition reviewed_whole :: "ReviewReport \<Rightarrow> bool" where
  "reviewed_whole report \<longleftrightarrow>
     r_mode report = Changes \<and> r_reviewed_clean report \<and> r_reviewed_committed report \<and>
     (\<exists>base. r_reviewed_base report = Some base \<and> \<not> blank base) \<and> \<not> incomplete_spec_evidence report \<and>
     (\<forall>u. r_upgrades report = Some u \<longrightarrow> us_unknowns u = []) \<and>
     (\<forall>d. r_docs_drift report = Some d \<longrightarrow> dd_unknowns d = []) \<and>
     set DIMENSIONS \<subseteq> dm_key ` set (r_dimensions report) \<and> distinct (map mr_file (r_matrix report)) \<and>
     list_all (\<lambda>row. \<not> blank (mr_file row) \<and> list_all (\<lambda>d. mr_probabilities row d \<noteq> None) DIMENSIONS) (r_matrix report) \<and>
     \<not> r_partial report \<and> r_skipped report = [] \<and> bs_deferred (r_budget report) = 0 \<and>
     wc_dropped_context_chars (r_workflow report) = 0 \<and> wc_dropped_context_items (r_workflow report) = 0 \<and>
     ti_dismissed (r_tier report) = [] \<and> r_shard report = None \<and>
     wc_threshold_signals (r_workflow report) \<le> wc_followed_signals (r_workflow report) \<and>
     0 < r_screened_files report \<and> length (r_matrix report) = r_screened_files report"

text \<open>No finding is hidden, waits for a human, blocks, or lacks its evidence.\<close>

definition harmless :: "ApprovalPolicy \<Rightarrow> ReviewReport \<Rightarrow> bool" where
  "harmless p report \<longleftrightarrow>
     wc_suppressed_findings (r_workflow report) = 0 \<and> wc_needs_human_findings (r_workflow report) = 0 \<and>
     list_all (\<lambda>f. (\<forall>e. f_ensemble f = Some e \<longrightarrow> \<not> en_needs_human e) \<and> f_action f \<noteq> RequestChanges \<and>
         \<not> BLOCKING_SEVERITY \<le> f_severity f \<and> \<not> ap_max_finding_severity p \<le> f_severity f \<and>
         \<not> blank (f_evidence f) \<and> \<not> blank (f_file f) \<and> f_line f \<noteq> 0) (r_findings report)"

text \<open>An outcome is estimated from observed history with its support, both bounds and the calibration
  are within the policy's limits, and the evidence of the candidate's bin is recent.\<close>

definition at_most :: "f64 \<Rightarrow> f64 option \<Rightarrow> bool" where
  "at_most bound x \<longleftrightarrow> (\<exists>p. x = Some p \<and> \<not> bound < p)"

definition low_risk :: "ApprovalPolicy \<Rightarrow> CheckEvidence \<Rightarrow> OutcomeHistory \<Rightarrow> f64 \<Rightarrow> OutcomeKind \<Rightarrow> bool" where
  "low_risk p c h score k \<longleftrightarrow>
     (let e = estimate (Some h) score k; ev = oe_evaluation e;
          allowance = i64_saturating_add (ap_max_history_age_seconds p) (outcome_window (oh_windows h) k) in
      supported_estimate h score k e \<and>
      at_most (max_probability_of p k) (oe_upper_bound_95 e) \<and>
      at_most (max_probability_of p k) (oe_held_out_upper_bound_95 e) \<and>
      at_most (ap_max_calibration_error p) (ev_expected_calibration_error ev) \<and>
      at_most (ap_max_calibration_error p) (ev_matching_bin_calibration_error ev) \<and>
      (\<exists>baseline. ev_baseline_brier_score ev = Some baseline \<and> at_most baseline (ev_brier_score ev)) \<and>
      recent c (ev_matching_bin_training_last_observed_at ev) allowance \<and>
      recent c (ev_matching_bin_held_out_last_observed_at ev) (ap_max_history_age_seconds p) \<and>
      recent c (ev_matching_bin_held_out_last_merged_at ev) allowance)"

text \<open>The report, the checks and the history speak of this repository and of this head, which the
  history does not contain.\<close>

definition same_head :: "ReviewReport \<Rightarrow> OutcomeHistory \<Rightarrow> ApprovalPolicy \<Rightarrow> CheckEvidence \<Rightarrow> bool" where
  "same_head report h p c \<longleftrightarrow>
     canonical_git_head (ce_head c) \<and> \<not> blank (ce_head c) \<and> r_reviewed_head report = Some (ce_head c) \<and>
     ce_reviewed_head c = ce_head c \<and> ce_head c \<notin> or_head ` set (oh_records h) \<and>
     \<not> blank (ce_repository c) \<and> oh_repository h = ce_repository c \<and> 0 < ce_assessed_at c \<and>
     oh_as_of h \<le> ce_assessed_at c \<and>
     i64_saturating_sub (ce_assessed_at c) (oh_as_of h) \<le> ap_max_history_age_seconds p"

definition checks_pass :: "ApprovalPolicy \<Rightarrow> CheckEvidence \<Rightarrow> bool" where
  "checks_pass p c \<longleftrightarrow>
     ce_review_complete c \<and> ce_evidence_complete c \<and> ce_supported_inputs c \<and> ce_auxiliary_unknowns c = [] \<and>
     distinct (map nc_name (ce_checks c)) \<and> set (ap_required_checks p) \<subseteq> nc_name ` set (ce_checks c) \<and>
     list_all (\<lambda>x. \<not> blank (nc_name x) \<and> nc_head x = ce_head c \<and> nc_status x = ''passed'' \<and> \<not> blank (nc_evidence x) \<and>
         0 < nc_completed_at x \<and> nc_completed_at x \<le> ce_assessed_at c \<and>
         i64_saturating_sub (ce_assessed_at c) (nc_completed_at x) \<le> ap_max_check_age_seconds p) (ce_checks c)"

definition approvable ::
  "ReviewReport \<Rightarrow> OutcomeHistory option \<Rightarrow> ApprovalPolicy option \<Rightarrow> CheckEvidence option \<Rightarrow> bool" where
  "approvable report history policy checks \<longleftrightarrow>
     (case (history, policy, checks) of
        (Some h, Some p, Some c) \<Rightarrow>
          history_ok h \<and> \<not> oh_synthetic h \<and> ap_enabled p \<and> reviewed_whole report \<and> harmless p report \<and>
          (\<forall>k. low_risk p c h (p_revert (r_findings report) (r_matrix report)) k) \<and>
          same_head report h p c \<and> checks_pass p c
      | _ \<Rightarrow> False)"

lemma report_reasons_Nil: "report_reasons report p = [] \<longleftrightarrow> reviewed_whole report \<and> harmless p report"
proof -
  have dims: "\<not> list_ex (\<lambda>d. \<not> list_ex (\<lambda>meta. dm_key meta = d) (r_dimensions report)) DIMENSIONS \<longleftrightarrow>
      set DIMENSIONS \<subseteq> dm_key ` set (r_dimensions report)"
    unfolding list_ex_iff by (auto simp del: set_DIMENSIONS)
  have base: "(case r_reviewed_base report of None \<Rightarrow> True | Some base \<Rightarrow> blank base) \<longleftrightarrow>
      \<not> (\<exists>base. r_reviewed_base report = Some base \<and> \<not> blank base)"
    by (auto split: option.split)
  have unknown: "((case r_upgrades report of None \<Rightarrow> False | Some u \<Rightarrow> us_unknowns u \<noteq> []) \<or>
      (case r_docs_drift report of None \<Rightarrow> False | Some d \<Rightarrow> dd_unknowns d \<noteq> [])) \<longleftrightarrow>
      \<not> ((\<forall>u. r_upgrades report = Some u \<longrightarrow> us_unknowns u = []) \<and> (\<forall>d. r_docs_drift report = Some d \<longrightarrow> dd_unknowns d = []))"
    by (auto split: option.splits)
  have matrix: "faulty_matrix {} rows \<longleftrightarrow> \<not> (distinct (map mr_file rows) \<and>
      list_all (\<lambda>row. \<not> blank (mr_file row) \<and> list_all (\<lambda>d. mr_probabilities row d \<noteq> None) DIMENSIONS) rows)" for rows
    using faulty_matrix_iff [of "{}" rows] by auto
  have human: "(case f_ensemble f of None \<Rightarrow> False | Some e \<Rightarrow> en_needs_human e) \<longleftrightarrow>
      \<not> (\<forall>e. f_ensemble f = Some e \<longrightarrow> \<not> en_needs_human e)" for f
    by (auto split: option.split)
  show ?thesis
    unfolding report_reasons_def reviewed_whole_def harmless_def append_is_Nil_conv reason_Nil dims base unknown matrix human
      de_Morgan_disj not_not
    by (auto simp: list_ex_iff list_all_iff word_gt_0 not_less)
qed

lemma above_iff: "none_or_above bound x \<longleftrightarrow> \<not> at_most bound x"
  by (auto simp: none_or_above_def at_most_def split: option.split)

lemma estimate_outcome: "oe_outcome (estimate history score k) = k"
  by (auto simp: estimate_def Let_def limit_def counted_def diagnosed_def published_def unknown_estimate_def split: option.split)

lemma estimate_window:
  "oe_window_seconds (estimate history score k) = map_option (\<lambda>h. outcome_window (oh_windows h) k) history"
  by (auto simp: estimate_def Let_def limit_def counted_def diagnosed_def published_def unknown_estimate_def split: option.split)

lemma outcome_reasons_Nil:
  assumes "\<not> oh_synthetic h"
  shows "outcome_reasons p (estimate (Some h) score k) = [] \<and> freshness_reasons p c (estimate (Some h) score k) = []
    \<longleftrightarrow> low_risk p c h score k"
proof -
  let ?e = "estimate (Some h) score k"
  have status: "oe_status ?e = ''evaluatedEmpirical'' \<and> oe_probability ?e \<noteq> None \<longleftrightarrow> supported_estimate h score k ?e"
  proof
    assume "oe_status ?e = ''evaluatedEmpirical'' \<and> oe_probability ?e \<noteq> None"
    then show "supported_estimate h score k ?e" using estimate_supported [of h score k] by (auto simp: Let_def)
  next
    assume "supported_estimate h score k ?e"
    then show "oe_status ?e = ''evaluatedEmpirical'' \<and> oe_probability ?e \<noteq> None"
      using assms by (simp add: supported_estimate_def Let_def)
  qed
  have brier: "(case (x, y) of (Some actual, Some baseline) \<Rightarrow> baseline < actual | _ \<Rightarrow> True) \<longleftrightarrow>
      \<not> (\<exists>baseline. y = Some baseline \<and> at_most baseline x)" for x y
    by (auto simp: at_most_def split: option.split)
  show ?thesis
    unfolding low_risk_def outcome_reasons_def freshness_reasons_def Let_def estimate_outcome estimate_window
      above_iff brier option.map option.case append_is_Nil_conv reason_Nil status [symmetric]
    by (simp only: de_Morgan_disj not_not conj_assoc)
qed

lemma identity_reasons_Nil:
  assumes "\<not> oh_synthetic h"
  shows "identity_reasons report (Some h) p c = [] \<longleftrightarrow>
    same_head report h p c \<and> ce_review_complete c \<and> ce_evidence_complete c \<and> ce_supported_inputs c \<and>
    ce_auxiliary_unknowns c = []"
  using assms by (auto simp: identity_reasons_def same_head_def list_ex_iff image_iff)

lemma check_gates_Nil:
  "check_reasons p c {} (ce_checks c) = [] \<and> required_reasons p c = [] \<and> ce_review_complete c \<and>
     ce_evidence_complete c \<and> ce_supported_inputs c \<and> ce_auxiliary_unknowns c = [] \<longleftrightarrow> checks_pass p c"
proof -
  have "required_reasons p c = [] \<longleftrightarrow> set (ap_required_checks p) \<subseteq> nc_name ` set (ce_checks c)"
    by (auto simp: required_reasons_def)
  moreover have "\<not> bad_check p c x \<longleftrightarrow> \<not> blank (nc_name x) \<and> nc_head x = ce_head c \<and> nc_status x = ''passed'' \<and>
      \<not> blank (nc_evidence x) \<and> 0 < nc_completed_at x \<and> nc_completed_at x \<le> ce_assessed_at c \<and>
      i64_saturating_sub (ce_assessed_at c) (nc_completed_at x) \<le> ap_max_check_age_seconds p" for x
    by (auto simp: bad_check_def)
  ultimately show ?thesis by (auto simp: check_reasons_Nil checks_pass_def)
qed

lemma approval_eligible:
  fixes history score
  defines "outcomes \<equiv> map (estimate history score) KINDS"
  shows "ad_eligible (approval report history policy checks outcomes) \<longleftrightarrow>
    (case (history, policy, checks) of
       (Some h, Some p, Some c) \<Rightarrow>
         \<not> oh_synthetic h \<and> ap_enabled p \<and> reviewed_whole report \<and> harmless p report \<and>
         (\<forall>k. low_risk p c h score k) \<and> same_head report h p c \<and> checks_pass p c
     | _ \<Rightarrow> False)"
proof (cases "\<exists>h p c. history = Some h \<and> policy = Some p \<and> checks = Some c \<and> \<not> oh_synthetic h")
  case False
  then show ?thesis
    by (auto simp: approval_def Let_def history_reasons_def split: option.split)
next
  case True
  then obtain h p c where some: "history = Some h" "policy = Some p" "checks = Some c" "\<not> oh_synthetic h" by blast
  have "(\<forall>k. low_risk p c h score k) \<longleftrightarrow> list_all (low_risk p c h score) KINDS"
    by (auto simp: KINDS_def) (metis OutcomeKind.exhaust)
  also have "\<dots> \<longleftrightarrow> concat (map (outcome_reasons p) outcomes) = [] \<and> concat (map (freshness_reasons p c) outcomes) = []"
    using outcome_reasons_Nil [OF some(4), of p _ _ c] by (auto simp: outcomes_def some KINDS_def)
  finally have risk: "(\<forall>k. low_risk p c h score k) \<longleftrightarrow>
    concat (map (outcome_reasons p) outcomes) = [] \<and> concat (map (freshness_reasons p c) outcomes) = []" .
  show ?thesis
    using some(4) identity_reasons_Nil [OF some(4), of report p c] check_gates_Nil [of p c]
    by (auto simp: some approval_def Let_def risk report_reasons_Nil history_reasons_def simp del: concat_eq_Nil_conv)
qed

lemma assess_decides:
  "case assess report history policy checks of
     Inl _ \<Rightarrow> True
   | Inr s \<Rightarrow> ad_eligible (ms_approval s) \<longleftrightarrow> approvable report history policy checks"
proof (cases "assess report history policy checks")
  case (Inr s)
  have valid: "history_ok h" if "history = Some h" for h
    using Inr that by (auto simp: assess_def and_then_eq_Inr simp flip: validate_history_ok)
  have "ms_approval s = approval report history policy checks
      (map (estimate history (p_revert (r_findings report) (r_matrix report))) KINDS)"
    using Inr by (auto simp: assess_def and_then_eq_Inr Let_def)
  then show ?thesis
    using valid by (auto simp: Inr approval_eligible approvable_def split: option.splits)
qed simp

text \<open>
  C14. Approval is granted exactly on complete evidence: of an assessment that succeeds, the decision is
  eligible if and only if the policy is enabled, the history is valid and observed, the whole change
  was reviewed on a recorded base, no finding blocks or waits, each outcome is estimated with its
  support within the policy's limits from recent evidence, and every check, the required ones among
  them, passed on the reviewed head. No single gate can be waived.
\<close>

theorem approval_exact:
  "case assess report history policy checks of
     Inl _ \<Rightarrow> True
   | Inr s \<Rightarrow> ad_eligible (ms_approval s) \<longleftrightarrow> approvable report history policy checks"
  by (rule assess_decides)

end
