(* ===== verification/Shard_Merge.thy ===== *)
theory Shard_Merge
  imports Workflow Planner
begin

text \<open>
  Merging the reports of all shards of a scan (\<open>review/shard_merge.rs\<close>): the compatibility of their
  metadata, the assignment of every path to its shard, the sums of the counters, and the global
  refinement that runs once over all findings.

  \<open>to_value\<close> is the serialization of a \<open>ConfigSnapshot\<close>, which the code compares instead of the
  snapshots. The set of expected paths is iterated for an error message only; the order here is that
  of the metadata.
\<close>

record Validation =
  va_count :: nat
  va_key :: string
  va_expected :: "string list"
  va_refine :: bool
  va_model :: string
  va_config :: ConfigSnapshot

text \<open>A shard that has asked the service.\<close>

definition asked_model :: "ReviewReport \<Rightarrow> bool" where
  "asked_model part \<longleftrightarrow> r_matrix part \<noteq> [] \<or> 0 < ti_screened (r_tier part)"

definition pinned_model :: "ShardMetadata \<Rightarrow> ReviewReport list \<Rightarrow> string" where
  "pinned_model meta parts =
     (case Option.bind (find asked_model parts) r_shard of
        None \<Rightarrow> sh_model meta
      | Some m \<Rightarrow> sh_model m)"

definition compatible ::
  "(ConfigSnapshot \<Rightarrow> json) \<Rightarrow> ShardMetadata \<Rightarrow> json \<Rightarrow> nat set \<Rightarrow> ReviewReport \<Rightarrow> ShardMetadata \<Rightarrow> bool" where
  "compatible to_value meta config seen part m \<longleftrightarrow>
     \<not> (r_mode part \<noteq> Codebase \<or> sh_count m \<noteq> sh_count meta \<or> sh_index m = 0 \<or> sh_count m < sh_index m \<or>
        sh_index m \<in> seen \<or> sh_inventory_key m \<noteq> sh_inventory_key meta \<or> sh_refine m \<noteq> sh_refine meta \<or>
        set (sh_expected_paths m) \<noteq> set (sh_expected_paths meta) \<or> to_value (r_config part) \<noteq> config)"

fun validate_parts ::
  "(ConfigSnapshot \<Rightarrow> json) \<Rightarrow> ShardMetadata \<Rightarrow> json \<Rightarrow> string \<Rightarrow> nat set \<Rightarrow> ReviewReport list \<Rightarrow> unit result" where
  "validate_parts to_value meta config model seen [] = Inr ()"
| "validate_parts to_value meta config model seen (part # parts) =
     (case r_shard part of
        None \<Rightarrow> Inl (Msg ''non-shard report in merge'')
      | Some m \<Rightarrow>
          and_then (ensure (compatible to_value meta config seen part m)
              ''incompatible or duplicate shard report'') (\<lambda>_.
          and_then (ensure (\<not> (asked_model part \<and> sh_model m \<noteq> model))
              ''shards used different model versions'') (\<lambda>_.
          validate_parts to_value meta config model (insert (sh_index m) seen) parts)))"

definition validate_shards :: "(ConfigSnapshot \<Rightarrow> json) \<Rightarrow> ReviewReport list \<Rightarrow> Validation result" where
  "validate_shards to_value parts =
     (case parts of
        [] \<Rightarrow> Inl (Msg ''merge needs at least one partial report'')
      | first # _ \<Rightarrow>
          (case r_shard first of
             None \<Rightarrow> Inl (Msg ''merge accepts partial shard reports only'')
           | Some meta \<Rightarrow>
               and_then (ensure (\<not> (sh_count meta = 0 \<or> 256 < sh_count meta \<or> length parts \<noteq> sh_count meta))
                   (''missing shards: expected '' @ show_nat (sh_count meta) @ '', got '' @ show_nat (length parts))) (\<lambda>_.
               and_then (ensure (card (set (sh_expected_paths meta)) = length (sh_expected_paths meta))
                   ''duplicate paths in shard inventory'') (\<lambda>_.
               and_then (validate_parts to_value meta (to_value (r_config first)) (pinned_model meta parts) {} parts) (\<lambda>_.
               Inr \<lparr>va_count = sh_count meta, va_key = sh_inventory_key meta, va_expected = sh_expected_paths meta,
                 va_refine = sh_refine meta, va_model = pinned_model meta parts, va_config = r_config first\<rparr>)))))"

section \<open>Joining the parts\<close>

text \<open>\<open>!membership.contains(path) || !expected.contains(path) || !seen.insert(path)\<close> for each of the
  paths: the files seen so far.\<close>

fun claim_paths :: "(string \<Rightarrow> bool) \<Rightarrow> (string \<Rightarrow> string) \<Rightarrow> string set \<Rightarrow> string list \<Rightarrow> string set result" where
  "claim_paths assigned err seen [] = Inr seen"
| "claim_paths assigned err seen (path # paths) =
     (if \<not> assigned path \<or> path \<in> seen then Inl (Msg (err path))
      else claim_paths assigned err (insert path seen) paths)"

definition add_usage :: "UsageSummary \<Rightarrow> UsageSummary \<Rightarrow> UsageSummary" where
  "add_usage a b =
     \<lparr>ug_calls = ug_calls a + ug_calls b, ug_input_tokens = ug_input_tokens a + ug_input_tokens b,
      ug_output_tokens = ug_output_tokens a + ug_output_tokens b,
      ug_cache = \<lparr>ca_hits = ca_hits (ug_cache a) + ca_hits (ug_cache b),
                  ca_misses = ca_misses (ug_cache a) + ca_misses (ug_cache b)\<rparr>\<rparr>"

definition add_budget :: "BudgetSummary \<Rightarrow> BudgetSummary \<Rightarrow> BudgetSummary" where
  "add_budget a b = a\<lparr>bs_reserved := bs_reserved a + bs_reserved b, bs_deferred := bs_deferred a + bs_deferred b\<rparr>"

definition add_index :: "IndexStats \<Rightarrow> IndexStats \<Rightarrow> IndexStats" where
  "add_index a b =
     \<lparr>is_computed = is_computed a + is_computed b, is_reused = is_reused a + is_reused b,
      is_fallbacks = is_fallbacks a + is_fallbacks b\<rparr>"

definition add_redactions :: "(string \<times> nat) list \<Rightarrow> (string \<times> nat) list \<Rightarrow> (string \<times> nat) list" where
  "add_redactions counts found =
     foldl (\<lambda>m (rule, n). map_insert rule ((case map_of m rule of None \<Rightarrow> 0 | Some k \<Rightarrow> k) + n) m) counts found"

definition add_workflow :: "WorkflowCounts \<Rightarrow> WorkflowCounts \<Rightarrow> WorkflowCounts" where
  "add_workflow w p =
     w\<lparr>wc_screened_cells := wc_screened_cells w + wc_screened_cells p,
       wc_threshold_signals := wc_threshold_signals w + wc_threshold_signals p,
       wc_profiled_files := wc_profiled_files w + wc_profiled_files p,
       wc_followed_signals := wc_followed_signals w + wc_followed_signals p,
       wc_located_findings := wc_located_findings w + wc_located_findings p,
       wc_routed_findings := wc_routed_findings w + wc_routed_findings p,
       wc_suppressed_findings := wc_suppressed_findings w + wc_suppressed_findings p,
       wc_dropped_context_chars := wc_dropped_context_chars w + wc_dropped_context_chars p,
       wc_dropped_context_items := wc_dropped_context_items w + wc_dropped_context_items p\<rparr>"

definition absorb :: "ReviewReport \<Rightarrow> ReviewReport \<Rightarrow> ReviewReport" where
  "absorb report part =
     report\<lparr>r_partial := r_partial report \<or> r_skipped part \<noteq> [],
       r_matrix := r_matrix report @ r_matrix part, r_findings := r_findings report @ r_findings part,
       r_profiles := r_profiles report @ r_profiles part,
       r_context_files := r_context_files report @ r_context_files part,
       r_skipped := r_skipped report @ r_skipped part, r_usage := add_usage (r_usage report) (r_usage part),
       r_budget := add_budget (r_budget report) (r_budget part),
       r_index := add_index (r_index report) (r_index part),
       r_tier := \<lparr>ti_screened = ti_screened (r_tier report) + ti_screened (r_tier part),
                  ti_dismissed = ti_dismissed (r_tier report) @ ti_dismissed (r_tier part)\<rparr>,
       r_redactions := add_redactions (r_redactions report) (r_redactions part),
       r_workflow := add_workflow (r_workflow report) (r_workflow part)\<rparr>"

definition merge_part ::
  "(string \<Rightarrow> 8 word list) \<Rightarrow> Validation \<Rightarrow> ReviewReport \<times> string set \<Rightarrow> ReviewReport \<Rightarrow>
    (ReviewReport \<times> string set) result" where
  "merge_part sha256 va = (\<lambda>(report, seen) part.
     let shard = the (r_shard part);
         member = shard_contains sha256 \<lparr>sh_number = sh_index shard, sh_total = va_count va\<rparr>;
         assigned = (\<lambda>path. member path \<and> path \<in> set (va_expected va))
     in and_then (claim_paths assigned
          (\<lambda>path. ''duplicate or wrongly assigned file '' @ path @ '' in shard '' @ show_nat (sh_index shard))
          seen (map mr_file (r_matrix part))) (\<lambda>seen.
        and_then (claim_paths assigned (\<lambda>path. ''duplicate or wrongly assigned tier dismissal: '' @ path)
          seen (ti_dismissed (r_tier part))) (\<lambda>seen.
        and_then (for_each (\<lambda>sk. ensure (\<not> (sk_stage sk = Screen \<and> \<not> assigned (sk_file sk)))
          (''wrongly assigned failed screen: '' @ sk_file sk)) (r_skipped part)) (\<lambda>_.
        and_then (for_each (\<lambda>f. ensure (\<not> (\<not> member (f_file f) \<or> f_file f \<notin> seen))
          (''finding outside its shard matrix: '' @ f_file f)) (r_findings part)) (\<lambda>_.
        Inr (absorb report part, seen))))))"

fun merge_parts ::
  "(string \<Rightarrow> 8 word list) \<Rightarrow> Validation \<Rightarrow> ReviewReport \<times> string set \<Rightarrow> ReviewReport list \<Rightarrow>
    (ReviewReport \<times> string set) result" where
  "merge_parts sha256 va acc [] = Inr acc"
| "merge_parts sha256 va acc (part # parts) =
     and_then (merge_part sha256 va acc part) (\<lambda>acc. merge_parts sha256 va acc parts)"

section \<open>The global stages\<close>

definition row_probability :: "MatrixRow list \<Rightarrow> string \<Rightarrow> f64" where
  "row_probability matrix path =
     (case find (\<lambda>r. mr_file r = path) matrix of
        None \<Rightarrow> Fin 0
      | Some r \<Rightarrow> foldl f64_max (Fin 0) (prob_values (mr_probabilities r)))"

definition profile_cmp :: "MatrixRow list \<Rightarrow> FileProfile \<Rightarrow> FileProfile \<Rightarrow> ordering" where
  "profile_cmp matrix a b =
     then_cmp (total_cmp (row_probability matrix (fp_file b)) (row_probability matrix (fp_file a)))
       (cmp (fp_file a) (fp_file b))"

text \<open>\<open>sort(); dedup()\<close>\<close>

definition sorted_unique :: "string list \<Rightarrow> string list" where
  "sorted_unique xs = remdups_adj (sort_by cmp xs)"

definition ordered_report :: "ReviewReport \<Rightarrow> ReviewReport" where
  "ordered_report report =
     (let matrix = sort_by (\<lambda>a b. cmp (mr_file a) (mr_file b)) (r_matrix report);
          profiles = take MAX_PROFILES (sort_by (profile_cmp matrix) (r_profiles report));
          dismissed = sorted_unique (ti_dismissed (r_tier report))
      in report\<lparr>r_matrix := matrix, r_profiles := profiles,
           r_workflow := (r_workflow report)\<lparr>wc_profiled_files := length profiles\<rparr>,
           r_context_files := sorted_unique (r_context_files report),
           r_tier := (r_tier report)\<lparr>ti_dismissed := dismissed\<rparr>,
           r_partial := r_partial report \<or> 0 < bs_deferred (r_budget report) \<or> dismissed \<noteq> [],
           r_screened_files := length matrix,
           r_followed_signals := wc_followed_signals (r_workflow report)\<rparr>)"

definition failed_screen :: "ReviewReport \<Rightarrow> string \<Rightarrow> bool" where
  "failed_screen report path \<longleftrightarrow> list_ex (\<lambda>sk. sk_stage sk = Screen \<and> sk_file sk = path) (r_skipped report)"

definition check_complete :: "Validation \<Rightarrow> string set \<Rightarrow> ReviewReport \<Rightarrow> unit result" where
  "check_complete va seen report =
     for_each (\<lambda>path. ensure (\<not> (path \<notin> seen \<and> path \<notin> set (ti_dismissed (r_tier report)) \<and>
         \<not> failed_screen report path))
       (''shards omitted expected file '' @ path)) (va_expected va)"

definition merge_base :: "Validation \<Rightarrow> string list \<Rightarrow> ReviewReport" where
  "merge_base va scopes =
     default_report\<lparr>r_mode := Codebase, r_scope := scope_label scopes, r_config := va_config va,
       r_dimensions := dimension_metadata\<rparr>"

definition finish_merge ::
  "('f, 's) ReviewStrategy \<Rightarrow> Validation \<Rightarrow> (string \<rightharpoonup> 'f) \<Rightarrow> ReviewReport \<Rightarrow> 's \<Rightarrow> ReviewReport \<times> 's" where
  "finish_merge st va files report s =
     (case finish_findings st files (r_findings report) (va_refine va) s of
        ((findings, counts), s') \<Rightarrow>
          let budget = st_budget_summary st s' in
          (report\<lparr>r_findings := findings,
             r_workflow := (r_workflow report)
               \<lparr>wc_routed_findings := length (filter (\<lambda>f. f_owner f \<noteq> None) findings),
                wc_clustered_findings := rc_clustered counts, wc_exonerated_findings := rc_exonerated counts,
                wc_needs_human_findings := rc_needs_human counts\<rparr>,
             r_p_revert := p_revert findings (r_matrix report),
             r_usage := add_usage (r_usage report) (st_usage_summary st s'),
             r_budget := add_budget (r_budget report) budget,
             r_partial := r_partial report \<or> 0 < bs_deferred budget,
             r_redactions := add_redactions (r_redactions report) (st_redaction_summary st s')\<rparr>, s'))"

definition merge_reports ::
  "Surroundings \<Rightarrow> (ConfigSnapshot \<Rightarrow> json) \<Rightarrow> ('f, 's) ReviewStrategy \<Rightarrow> ReviewReport list \<Rightarrow> string list \<Rightarrow> 's \<Rightarrow>
    ReviewReport result \<times> 's" where
  "merge_reports sur to_value st parts scopes s =
     (case validate_shards to_value parts of
        Inl e \<Rightarrow> (Inl e, s)
      | Inr va \<Rightarrow>
          (case st_discover st scopes s of
             (Inl e, s1) \<Rightarrow> (Inl e, s1)
           | (Inr disc, s1) \<Rightarrow>
               if inventory_key (sur_inventory_digest sur) (st_path st) (st_json st) (di_files disc)
                    (di_context_files disc) \<noteq> va_key va
               then (Inl (Msg ''merge checkout differs from the scanned inventory (including dirty files/tests)''), s1)
               else if list_ex asked_model parts \<and> st_model_identity st s1 \<noteq> va_model va
               then (Inl (Msg (''merge must use the shards'' @ [CHR 0x27] @ '' pinned model and server: expected '' @ va_model va @ '', got '' @ st_model_identity st s1)), s1)
               else (case st_prepass st scopes disc s1 of
                   (Inl e, s2) \<Rightarrow> (Inl e, s2)
                 | (Inr _, s2) \<Rightarrow>
                     (case merge_parts (sur_digest sur) va (merge_base va scopes, {}) parts of
                        Inl e \<Rightarrow> (Inl e, s2)
                      | Inr (joined, seen) \<Rightarrow>
                          let report = ordered_report joined in
                          (case check_complete va seen report of
                             Inl e \<Rightarrow> (Inl e, s2)
                           | Inr _ \<Rightarrow>
                               (case finish_merge st va
                                   (map_of (rev (map (\<lambda>f. (st_path st f, f)) (di_files disc)))) report s2 of
                                  (merged, s3) \<Rightarrow> (Inr merged, s3)))))))"

section \<open>A merged scan is complete\<close>

lemma claim_paths_iff:
  "claim_paths assigned err seen paths = Inr seen' \<longleftrightarrow>
     list_all assigned paths \<and> distinct paths \<and> set paths \<inter> seen = {} \<and> seen' = seen \<union> set paths"
  by (induction paths arbitrary: seen) auto

text \<open>What has been joined: the rows, findings and skips of the parts in order, every path at most once
  and expected, and a report that is marked partial when something was skipped.\<close>

definition joined_ok :: "Validation \<Rightarrow> ReviewReport list \<Rightarrow> ReviewReport \<times> string set \<Rightarrow> bool" where
  "joined_ok va parts = (\<lambda>(report, seen).
     r_matrix report = concat (map r_matrix parts) \<and> r_findings report = concat (map r_findings parts) \<and>
     r_skipped report = concat (map r_skipped parts) \<and> (r_skipped report \<noteq> [] \<longrightarrow> r_partial report) \<and>
     ti_dismissed (r_tier report) = concat (map (ti_dismissed \<circ> r_tier) parts) \<and>
     distinct (map mr_file (r_matrix report) @ ti_dismissed (r_tier report)) \<and>
     seen = set (map mr_file (r_matrix report) @ ti_dismissed (r_tier report)) \<and> seen \<subseteq> set (va_expected va))"

lemma joined_okD:
  assumes "joined_ok va parts (report, seen)"
  shows "distinct (map mr_file (r_matrix report) @ ti_dismissed (r_tier report))"
    "seen = set (map mr_file (r_matrix report) @ ti_dismissed (r_tier report))" "seen \<subseteq> set (va_expected va)"
    "r_matrix report = concat (map r_matrix parts)" "r_findings report = concat (map r_findings parts)"
    "r_skipped report = concat (map r_skipped parts)" "r_skipped report \<noteq> [] \<longrightarrow> r_partial report"
  using assms unfolding joined_ok_def prod.case by blast+

lemma distinct_join:
  "distinct (M @ D) \<Longrightarrow> distinct m \<Longrightarrow> set m \<inter> set (M @ D) = {} \<Longrightarrow> distinct d \<Longrightarrow>
     set d \<inter> (set (M @ D) \<union> set m) = {} \<Longrightarrow> distinct ((M @ m) @ (D @ d))"
  by auto

lemma merge_part_joined:
  assumes "joined_ok va done acc" and "merge_part sha256 va acc part = Inr acc'"
  shows "joined_ok va (done @ [part]) acc'"
proof -
  obtain report seen where acc: "acc = (report, seen)" by force
  have eq: "acc' = (absorb report part, seen \<union> set (map mr_file (r_matrix part)) \<union> set (ti_dismissed (r_tier part)))"
    and paths: "distinct (map mr_file (r_matrix part))" "set (map mr_file (r_matrix part)) \<inter> seen = {}"
      "distinct (ti_dismissed (r_tier part))"
      "set (ti_dismissed (r_tier part)) \<inter> (seen \<union> set (map mr_file (r_matrix part))) = {}"
      "set (map mr_file (r_matrix part)) \<union> set (ti_dismissed (r_tier part)) \<subseteq> set (va_expected va)"
    using assms(2) by (auto simp: acc merge_part_def Let_def and_then_eq_Inr claim_paths_iff list_all_iff)
  have j: "distinct (map mr_file (r_matrix report) @ ti_dismissed (r_tier report))"
    "seen = set (map mr_file (r_matrix report) @ ti_dismissed (r_tier report))" "seen \<subseteq> set (va_expected va)"
    using joined_okD [OF assms(1) [unfolded acc]] by blast+
  have "distinct (map mr_file (r_matrix (absorb report part)) @ ti_dismissed (r_tier (absorb report part)))"
    using distinct_join [OF j(1) paths(1) _ paths(3)] paths(2,4) j(2) by (simp add: absorb_def)
  moreover have "seen \<union> set (map mr_file (r_matrix part)) \<union> set (ti_dismissed (r_tier part))
      = set (map mr_file (r_matrix (absorb report part)) @ ti_dismissed (r_tier (absorb report part)))"
    unfolding j(2) absorb_def by (simp add: image_Un Un_ac)
  moreover have "seen \<union> set (map mr_file (r_matrix part)) \<union> set (ti_dismissed (r_tier part)) \<subseteq> set (va_expected va)"
    using j(3) paths(5) by blast
  moreover have "r_matrix (absorb report part) = concat (map r_matrix (done @ [part])) \<and>
      r_findings (absorb report part) = concat (map r_findings (done @ [part])) \<and>
      r_skipped (absorb report part) = concat (map r_skipped (done @ [part])) \<and>
      (r_skipped (absorb report part) \<noteq> [] \<longrightarrow> r_partial (absorb report part)) \<and>
      ti_dismissed (r_tier (absorb report part)) = concat (map (ti_dismissed \<circ> r_tier) (done @ [part]))"
    using assms(1) by (auto simp: acc joined_ok_def absorb_def)
  ultimately show ?thesis unfolding eq joined_ok_def prod.case by blast
qed

lemma merge_parts_joined:
  "merge_parts sha256 va acc parts = Inr acc' \<Longrightarrow> joined_ok va done acc \<Longrightarrow> joined_ok va (done @ parts) acc'"
proof (induction parts arbitrary: acc "done")
  case (Cons part parts)
  then obtain acc1 where "merge_part sha256 va acc part = Inr acc1" "merge_parts sha256 va acc1 parts = Inr acc'"
    by (auto simp: and_then_eq_Inr)
  then show ?case using Cons.IH [of acc1 "done @ [part]"] merge_part_joined Cons.prems(2) by fastforce
qed simp

lemma merge_base_joined: "joined_ok va [] (merge_base va scopes, {})"
  by (simp add: joined_ok_def merge_base_def default_report_def)

lemma set_sorted_unique [simp]: "set (sorted_unique xs) = set xs"
  by (simp add: sorted_unique_def)

text \<open>What the merged report promises about the inventory of the shards.\<close>

definition merged_ok :: "Validation \<Rightarrow> ReviewReport list \<Rightarrow> ReviewReport \<Rightarrow> bool" where
  "merged_ok va parts r \<longleftrightarrow>
     mset (r_matrix r) = mset (concat (map r_matrix parts)) \<and> distinct (map mr_file (r_matrix r)) \<and>
     r_screened_files r = length (r_matrix r) \<and>
     set (map mr_file (r_matrix r)) \<inter> set (ti_dismissed (r_tier r)) = {} \<and>
     set (map mr_file (r_matrix r)) \<union> set (ti_dismissed (r_tier r)) \<subseteq> set (va_expected va) \<and>
     set (va_expected va) \<subseteq> set (map mr_file (r_matrix r)) \<union> set (ti_dismissed (r_tier r)) \<union> Collect (failed_screen r) \<and>
     (r_partial r \<or> set (map mr_file (r_matrix r)) = set (va_expected va)) \<and>
     length (concat (map r_findings parts)) = length (r_findings r) +
       wc_clustered_findings (r_workflow r) + wc_exonerated_findings (r_workflow r) \<and>
     r_shard r = None"

lemma ordered_report_fields:
  "mset (r_matrix (ordered_report r)) = mset (r_matrix r)" "set (ti_dismissed (r_tier (ordered_report r))) = set (ti_dismissed (r_tier r))"
  "r_findings (ordered_report r) = r_findings r" "r_skipped (ordered_report r) = r_skipped r"
  "r_screened_files (ordered_report r) = length (r_matrix (ordered_report r))"
  "r_partial (ordered_report r) \<longleftrightarrow> r_partial r \<or> 0 < bs_deferred (r_budget r) \<or> ti_dismissed (r_tier r) \<noteq> []"
  "r_shard (ordered_report r) = r_shard r"
proof -
  have "sorted_unique xs = [] \<longleftrightarrow> xs = []" for xs by (metis set_sorted_unique set_empty)
  then show "r_partial (ordered_report r) \<longleftrightarrow> r_partial r \<or> 0 < bs_deferred (r_budget r) \<or> ti_dismissed (r_tier r) \<noteq> []"
    by (simp add: ordered_report_def Let_def)
qed (simp_all add: ordered_report_def Let_def)

lemma absorb_shard: "merge_parts sha256 va acc parts = Inr (r, seen) \<Longrightarrow> r_shard r = r_shard (fst acc)"
proof (induction parts arbitrary: acc)
  case (Cons part parts)
  then obtain acc1 where acc1: "merge_part sha256 va acc part = Inr acc1" "merge_parts sha256 va acc1 parts = Inr (r, seen)"
    by (auto simp: and_then_eq_Inr)
  from acc1(1) have "r_shard (fst acc1) = r_shard (fst acc)"
    by (cases acc) (auto simp: merge_part_def Let_def and_then_eq_Inr absorb_def)
  with Cons.IH [OF acc1(2)] show ?case by simp
qed simp

lemma finish_merge_ok:
  assumes joined: "joined_ok va parts (joined, seen)" and shard: "r_shard joined = None"
    and complete: "check_complete va seen (ordered_report joined) = Inr u"
    and finish: "finish_merge st va files (ordered_report joined) s = (r, s')"
  shows "merged_ok va parts r"
proof -
  obtain fs counts where fs: "finish_findings st files (r_findings joined) (va_refine va) s = ((fs, counts), s')"
    using finish by (auto simp: finish_merge_def Let_def ordered_report_fields split: prod.splits)
  let ?o = "ordered_report joined"
  have r: "r_matrix r = r_matrix ?o" "r_tier r = r_tier ?o" "r_skipped r = r_skipped ?o" "r_shard r = None"
    "r_screened_files r = r_screened_files ?o" "r_findings r = fs" "r_partial ?o \<Longrightarrow> r_partial r"
    "wc_clustered_findings (r_workflow r) = rc_clustered counts"
    "wc_exonerated_findings (r_workflow r) = rc_exonerated counts"
    using finish by (auto simp: finish_merge_def Let_def ordered_report_fields fs shard)
  have files: "mset (map mr_file (r_matrix ?o)) = mset (map mr_file (r_matrix joined))"
    by (metis mset_map ordered_report_fields(1))
  have paths: "set (map mr_file (r_matrix ?o)) = set (map mr_file (r_matrix joined))"
    "distinct (map mr_file (r_matrix ?o)) \<longleftrightarrow> distinct (map mr_file (r_matrix joined))"
    using files by (metis set_mset_mset, metis mset_eq_imp_distinct_iff)
  have covered: "set (va_expected va) \<subseteq> seen \<union> set (ti_dismissed (r_tier ?o)) \<union> Collect (failed_screen ?o)"
    using complete for_each_ok [of _ "va_expected va"]
    by (force simp: check_complete_def list_all_iff dest: arg_cong [where f = isl])
  have failed: "failed_screen r = failed_screen ?o" by (simp add: failed_screen_def r fun_eq_iff)
  have whole: "set (map mr_file (r_matrix joined)) = set (va_expected va)"
    if none: "ti_dismissed (r_tier joined) = []" "r_skipped joined = []"
  proof -
    have "seen = set (map mr_file (r_matrix joined))" "seen \<subseteq> set (va_expected va)"
      using joined_okD(2,3) [OF joined] none(1) by simp_all
    moreover have "set (va_expected va) \<subseteq> seen"
      using covered none(2) by (simp add: failed_screen_def [abs_def] ordered_report_fields none(1))
    ultimately show ?thesis by blast
  qed
  have "r_partial r \<or> set (map mr_file (r_matrix joined)) = set (va_expected va)"
    using r(7) joined_okD(7) [OF joined] whole unfolding ordered_report_fields by blast
  moreover have "set (va_expected va) \<subseteq>
      set (map mr_file (r_matrix joined)) \<union> set (ti_dismissed (r_tier joined)) \<union> Collect (failed_screen ?o)"
    using covered unfolding joined_okD(2) [OF joined] ordered_report_fields by auto
  ultimately show ?thesis
    using joined_okD(1,3) [OF joined] finish_accounts(1) [OF fs]
    unfolding merged_ok_def r failed paths ordered_report_fields joined_okD(2) [OF joined]
      joined_okD(5) [OF joined, symmetric] joined_okD(4) [OF joined, symmetric]
    by auto
qed

text \<open>The parts are all the shards of one scan: every index once, one inventory, one model.\<close>

definition shard_of :: "ReviewReport \<Rightarrow> ShardMetadata" where
  "shard_of part = the (r_shard part)"

definition complete_set :: "Validation \<Rightarrow> ReviewReport list \<Rightarrow> bool" where
  "complete_set va parts \<longleftrightarrow>
     1 \<le> va_count va \<and> va_count va \<le> 256 \<and> distinct (va_expected va) \<and>
     length parts = va_count va \<and> set (map (sh_index \<circ> shard_of) parts) = {1..va_count va} \<and>
     list_all (\<lambda>part. r_shard part \<noteq> None \<and> r_mode part = Codebase \<and> sh_inventory_key (shard_of part) = va_key va \<and>
         set (sh_expected_paths (shard_of part)) = set (va_expected va) \<and> sh_refine (shard_of part) = va_refine va \<and>
         (asked_model part \<longrightarrow> sh_model (shard_of part) = va_model va)) parts"

lemma validate_parts_complete:
  "validate_parts to_value meta config model seen parts = Inr u \<Longrightarrow>
     distinct (map (sh_index \<circ> shard_of) parts) \<and> set (map (sh_index \<circ> shard_of) parts) \<inter> seen = {} \<and>
     set (map (sh_index \<circ> shard_of) parts) \<subseteq> {1..sh_count meta} \<and>
     list_all (\<lambda>part. r_shard part \<noteq> None \<and> r_mode part = Codebase \<and> sh_inventory_key (shard_of part) = sh_inventory_key meta \<and>
         set (sh_expected_paths (shard_of part)) = set (sh_expected_paths meta) \<and> sh_refine (shard_of part) = sh_refine meta \<and>
         (asked_model part \<longrightarrow> sh_model (shard_of part) = model)) parts"
proof (induction parts arbitrary: seen)
  case (Cons part parts)
  then obtain m where m: "r_shard part = Some m" "compatible to_value meta config seen part m"
    "asked_model part \<longrightarrow> sh_model m = model"
    and rest: "validate_parts to_value meta config model (insert (sh_index m) seen) parts = Inr u"
    by (auto simp: and_then_eq_Inr split: option.splits)
  have "shard_of part = m" by (simp add: shard_of_def m(1))
  with Cons.IH [OF rest] m show ?case by (auto simp: compatible_def)
qed simp

lemma validate_shards_complete:
  assumes "validate_shards to_value parts = Inr va"
  shows "complete_set va parts"
proof -
  obtain first others meta where parts: "parts = first # others" "r_shard first = Some meta"
    using assms by (auto simp: validate_shards_def split: list.splits option.splits)
  have count: "0 < sh_count meta" "sh_count meta \<le> 256" "length parts = sh_count meta"
    and expected: "card (set (sh_expected_paths meta)) = length (sh_expected_paths meta)"
    and valid: "validate_parts to_value meta (to_value (r_config first)) (pinned_model meta parts) {} parts = Inr ()"
    and va: "va = \<lparr>va_count = sh_count meta, va_key = sh_inventory_key meta, va_expected = sh_expected_paths meta,
      va_refine = sh_refine meta, va_model = pinned_model meta parts, va_config = r_config first\<rparr>"
    using assms by (auto simp: parts validate_shards_def and_then_eq_Inr)
  have all: "distinct (map (sh_index \<circ> shard_of) parts)" "set (map (sh_index \<circ> shard_of) parts) \<subseteq> {1..sh_count meta}"
    using validate_parts_complete [OF valid] by blast+
  have "set (map (sh_index \<circ> shard_of) parts) = {1..sh_count meta}"
  proof (rule card_subset_eq [OF _ all(2)])
    show "card (set (map (sh_index \<circ> shard_of) parts)) = card {1..sh_count meta}"
      using distinct_card [OF all(1)] count(3) by simp
  qed simp
  then show ?thesis
    using validate_parts_complete [OF valid] count card_distinct [OF expected]
    unfolding complete_set_def va by simp
qed

definition merged_from :: "(ConfigSnapshot \<Rightarrow> json) \<Rightarrow> ReviewReport list \<Rightarrow> ReviewReport \<Rightarrow> bool" where
  "merged_from to_value parts r \<longleftrightarrow>
     (\<exists>va. validate_shards to_value parts = Inr va \<and> complete_set va parts \<and> merged_ok va parts r)"

text \<open>
  C15. A merged scan cannot look complete when it is not: if merging succeeds, the parts were all the
  shards of one inventory, each once; every row, finding and expected path is accounted for (a path is
  screened exactly once, dismissed, or reported as a failed screen; findings are kept but for those
  counted as folded or exonerated); and a report that is not marked partial has screened every file.
\<close>

theorem merged_scan_complete:
  "case merge_reports sur to_value st parts scopes s of (Inr r, _) \<Rightarrow> merged_from to_value parts r | (Inl _, _) \<Rightarrow> True"
proof (cases "merge_reports sur to_value st parts scopes s")
  case (Pair result s')
  show ?thesis
  proof (cases result)
    case (Inr r)
    with Pair obtain va joined seen files s2 u where va: "validate_shards to_value parts = Inr va"
      and joined: "merge_parts (sur_digest sur) va (merge_base va scopes, {}) parts = Inr (joined, seen)"
      and complete: "check_complete va seen (ordered_report joined) = Inr u"
      and finish: "finish_merge st va files (ordered_report joined) s2 = (r, s')"
      by (auto simp: merge_reports_def Let_def split: sum.splits prod.splits if_splits)
    have "joined_ok va parts (joined, seen)"
      using merge_parts_joined [OF joined merge_base_joined] by simp
    moreover have "r_shard joined = None"
      using absorb_shard [OF joined] by (simp add: merge_base_def default_report_def)
    ultimately have "merged_ok va parts r" by (rule finish_merge_ok [OF _ _ complete finish])
    then show ?thesis using va validate_shards_complete [OF va] by (auto simp: Pair Inr merged_from_def)
  qed (simp add: Pair)
qed

end
