(* ===== verification/Rust_Lexing.thy ===== *)
theory Rust_Lexing
  imports Rust_Strings
begin

text \<open>
  The small recognizers of Rust text that the documentation check rests on
  (\<open>review/docs_drift.rs\<close>): blanking of comments and literals at their positions, counting the
  arguments of a call, attributes that may disable a declaration, the tokens of cleaned code, and the
  fenced examples of a Markdown document.

  \<open>char::is_alphanumeric\<close> is exact for ASCII; beyond it the Unicode tables are a parameter \<open>alnum\<close>
  of the definitions, a predicate on one character (its UTF-8 bytes).
\<close>

definition strip_suffix :: "string \<Rightarrow> string \<Rightarrow> string option" where
  "strip_suffix suf s = map_option rev (strip_prefix (rev suf) (rev s))"

definition word_char :: "(string \<Rightarrow> bool) \<Rightarrow> string \<Rightarrow> bool" where
  "word_char alnum g \<longleftrightarrow> alnum g \<or> g = ''_''"

section \<open>Blanking comments and literals\<close>

definition blank_byte :: "char \<Rightarrow> char" where
  "blank_byte c = (if c = NL then NL else CHR '' '')"

text \<open>How many bytes a block comment takes after its opener, and a string literal after its quote.\<close>

fun block_rest :: "nat \<Rightarrow> string \<Rightarrow> nat" where
  "block_rest 0 bs = 0"
| "block_rest (Suc d) [] = 0"
| "block_rest (Suc d) [a] = 1"
| "block_rest (Suc d) (a # b # bs) =
     (if a = CHR ''/'' \<and> b = CHR ''*'' then 2 + block_rest (Suc (Suc d)) bs
      else if a = CHR ''*'' \<and> b = CHR ''/'' then 2 + block_rest d bs
      else 1 + block_rest (Suc d) (b # bs))"

fun string_rest :: "bool \<Rightarrow> nat \<Rightarrow> string \<Rightarrow> nat" where
  "string_rest raw hashes [] = 0"
| "string_rest raw hashes (c # cs) =
     (if c = CHR 0x22 \<and> (\<not> raw \<or> take hashes cs = replicate hashes (CHR ''#''))
      then 1 + (if raw then hashes else 0)
      else if \<not> raw \<and> c = CHR 0x5C then (case cs of [] \<Rightarrow> 1 | _ # ds \<Rightarrow> 2 + string_rest raw hashes ds)
      else 1 + string_rest raw hashes cs)"

text \<open>The hashes directly before a quote and whether an \<open>r\<close> stands before them; the bytes before
  the quote come last one first.\<close>

definition raw_prefix :: "string \<Rightarrow> bool \<times> nat" where
  "raw_prefix before =
     (let hashes = takeWhile (\<lambda>c. c = CHR ''#'') before; rest = dropWhile (\<lambda>c. c = CHR ''#'') before
      in (rest \<noteq> [] \<and> hd rest = CHR ''r'', length hashes))"

text \<open>One step at the bytes \<open>rest\<close>: how many are consumed, and what is written for them.\<close>

definition lexical_step :: "string \<Rightarrow> string \<Rightarrow> nat \<times> string" where
  "lexical_step before rest =
     (if starts_with rest ''//'' then
        let n = length (takeWhile (\<lambda>c. c \<noteq> NL) rest) in (n, map blank_byte (take n rest))
      else if starts_with rest ''/*'' then
        let n = 2 + block_rest 1 (drop 2 rest) in (n, map blank_byte (take n rest))
      else if take 1 rest = [CHR 0x22] then
        let (raw, hashes) = raw_prefix before; n = 1 + string_rest raw hashes (drop 1 rest)
        in (n, CHR ''0'' # map blank_byte (take (n - 1) (drop 1 rest)))
      else if take 1 rest = [CHR 0x27] \<and> take 1 (drop 2 rest) = [CHR 0x27] then (3, ''0  '')
      else if starts_with rest [CHR 0x27, CHR 0x5C] \<and> take 1 (drop 3 rest) = [CHR 0x27] then (4, ''0   '')
      else (1, take 1 rest))"

lemma lexical_step_consumes: "rest \<noteq> [] \<Longrightarrow> 0 < fst (lexical_step before rest)"
  by (cases rest) (auto simp: lexical_step_def Let_def case_prod_beta)

function lexical_from :: "string \<Rightarrow> string \<Rightarrow> string" where
  "lexical_from before rest =
     (if rest = [] then []
      else case lexical_step before rest of
        (n, out) \<Rightarrow> out @ lexical_from (rev (take n rest) @ before) (drop n rest))"
  by pat_completeness auto
termination
proof (relation "measure (length \<circ> snd)")
  fix before rest n out
  assume "rest \<noteq> []" "(n, out) = lexical_step before rest"
  then show "((rev (take n rest) @ before, drop n rest), before, rest) \<in> measure (length \<circ> snd)"
    using lexical_step_consumes [of rest before] by (auto dest: sym)
qed simp

declare lexical_from.simps [simp del]

definition lexical_code :: "string \<Rightarrow> string" where
  "lexical_code txt = lexical_from [] txt"

section \<open>Calls and tokens\<close>

definition argument_count :: "string \<Rightarrow> nat option" where
  "argument_count arguments =
     (if blank arguments then Some 0
      else if list_ex (\<lambda>c. c \<in> set ''[]{}<>|;='') arguments then None
      else
        let args = split_on (CHR '','') arguments in
        if list_ex blank (take (length args - 1) args) then None
        else Some (length (filter (\<lambda>arg. \<not> blank arg) args)))"

fun split_when :: "('a \<Rightarrow> bool) \<Rightarrow> 'a list \<Rightarrow> 'a list list" where
  "split_when P [] = [[]]"
| "split_when P (x # xs) = (if P x then [] # split_when P xs else onto_first x (split_when P xs))"

definition identifiers :: "(string \<Rightarrow> bool) \<Rightarrow> string \<Rightarrow> string list" where
  "identifiers alnum clean =
     filter (\<lambda>t. t \<noteq> []) (map concat (split_when (\<lambda>g. \<not> word_char alnum g) (chars clean)))"

text \<open>\<open>line.split('=').next()\<close>, and a line of an example without the marker of hidden lines.\<close>

definition declaration_tokens :: "(string \<Rightarrow> bool) \<Rightarrow> string \<Rightarrow> string list" where
  "declaration_tokens alnum line =
     identifiers alnum (takeWhile (\<lambda>c. c \<noteq> CHR ''='')
       (trim_start (dropWhile (\<lambda>c. c = CHR ''#'') (trim_start line))))"

definition example_shadows :: "(string \<Rightarrow> string list) \<Rightarrow> (string \<Rightarrow> bool) \<Rightarrow> string \<Rightarrow> string set \<times> bool" where
  "example_shadows imports alnum clean =
     (let found = imports clean;
          declared = filter (\<lambda>tokens. take 1 tokens = [''let''] \<or> ''fn'' \<in> set tokens)
            (map (declaration_tokens alnum) (str_lines clean))
      in (set (concat (map (identifiers alnum) found)) \<union> set (concat declared),
          list_ex (\<lambda>i. CHR ''*'' \<in> set i) found))"

definition opaque_line :: "(string \<Rightarrow> bool) \<Rightarrow> string \<Rightarrow> bool" where
  "opaque_line alnum line \<longleftrightarrow>
     (let trimmed = trim_start line in
      starts_with trimmed ''pub use '' \<and> CHR ''*'' \<in> set trimmed \<or>
      starts_with trimmed ''include!'' \<or>
      \<not> list_ex is_ws (take 1 (chars line)) \<and>
        (case split_once (CHR ''!'') trimmed of
           None \<Rightarrow> False
         | Some (name, _) \<Rightarrow> name \<noteq> [] \<and> list_all (\<lambda>g. word_char alnum g \<or> g = '':'') (chars name)))"

definition has_opaque_exports :: "(string \<Rightarrow> bool) \<Rightarrow> string \<Rightarrow> bool" where
  "has_opaque_exports alnum clean \<longleftrightarrow> list_ex (opaque_line alnum) (str_lines clean)"

section \<open>Attributes that may disable a declaration\<close>

text \<open>The pieces of \<open>args\<close> at its top-level commas; \<open>None\<close> when its brackets do not close.\<close>

fun meta_parts :: "int \<Rightarrow> string \<Rightarrow> string list \<Rightarrow> string list option" where
  "meta_parts depth current [] = (if depth \<noteq> 0 then None else Some [current])"
| "meta_parts depth current (ch # gs) =
     (let depth' = (if ch \<in> {''('', ''['', ''{''} then depth + 1
                    else if ch \<in> {'')'', '']'', ''}''} then depth - 1 else depth)
      in if ch = '','' \<and> depth = 0 then map_option ((#) current) (meta_parts depth [] gs)
         else if depth' < 0 then None
         else meta_parts depth' (current @ ch) gs)"

definition meta_arguments :: "string \<Rightarrow> string list option" where
  "meta_arguments rest =
     Option.bind (Option.bind (strip_prefix ''('' (trim rest)) (strip_suffix '')'')) (\<lambda>args. meta_parts 0 [] (chars args))"

function cfg_meta_may_disable :: "(string \<Rightarrow> bool) \<Rightarrow> string \<Rightarrow> bool \<Rightarrow> nat \<Rightarrow> bool" where
  "cfg_meta_may_disable alnum body0 whole nesting =
     (if 32 \<le> nesting then True
      else
        let gs = chars (trim body0);
            word = concat (takeWhile (word_char alnum) gs); rest = concat (dropWhile (word_char alnum) gs)
        in if word = ''cfg'' then True
           else if word = ''cfg_attr'' then
             (if \<not> whole then True
              else case meta_arguments rest of
                  None \<Rightarrow> True
                | Some parts \<Rightarrow>
                    if length parts < 2 \<or> blank (hd parts) then True
                    else
                      let payloads = filter (\<lambda>part. \<not> blank part) (tl parts) in
                      payloads = [] \<or> list_ex (\<lambda>p. cfg_meta_may_disable alnum p True (nesting + 1)) payloads)
           else False)"
  by pat_completeness auto
termination
  by (relation "measure (\<lambda>(_, _, _, nesting). 32 - nesting)") auto

declare cfg_meta_may_disable.simps [simp del]

text \<open>The body of an attribute up to its closing bracket, over the characters of the remaining lines
  with their line breaks; and whether it closes.\<close>

fun attribute_body :: "int \<Rightarrow> string list \<Rightarrow> string \<times> bool" where
  "attribute_body depth [] = ([], False)"
| "attribute_body depth (ch # gs) =
     (let depth' = depth + (if ch = ''['' then 1 else 0) - (if ch = '']'' then 1 else 0)
      in if depth' = 0 then ([], True)
         else case attribute_body depth' gs of (body, whole) \<Rightarrow> (ch @ body, whole))"

definition attribute_start :: "string \<Rightarrow> (bool \<times> string) option" where
  "attribute_start line =
     (case strip_prefix ''#!['' (trim_start line) of
        Some body \<Rightarrow> Some (True, body)
      | None \<Rightarrow> map_option (Pair False) (strip_prefix ''#['' (trim_start line)))"

definition brace_change :: "string \<Rightarrow> int" where
  "brace_change line = int (count_list line (CHR ''{'')) - int (count_list line (CHR ''}''))"

definition disabling_attribute :: "(string \<Rightarrow> bool) \<Rightarrow> string \<Rightarrow> string list \<Rightarrow> bool" where
  "disabling_attribute alnum first lines =
     (case attribute_body 1 (concat (map (\<lambda>fragment. chars fragment @ [[NL]]) (first # lines))) of
        (body, whole) \<Rightarrow> cfg_meta_may_disable alnum body whole 0)"

fun conditional_from :: "(string \<Rightarrow> bool) \<Rightarrow> nat \<Rightarrow> int \<Rightarrow> string list \<Rightarrow> nat set \<times> bool" where
  "conditional_from alnum index depth [] = ({}, False)"
| "conditional_from alnum index depth (line # lines) =
     (case conditional_from alnum (index + 1) (depth + brace_change line) lines of
        (conditional, crate) \<Rightarrow>
          (case attribute_start line of
             Some (inner, first) \<Rightarrow>
               if depth = 0 \<and> disabling_attribute alnum first lines
               then (if inner then (conditional, True) else (insert index conditional, crate))
               else (conditional, crate)
           | None \<Rightarrow> (conditional, crate)))"

definition conditional_attributes :: "(string \<Rightarrow> bool) \<Rightarrow> string \<Rightarrow> nat set \<times> bool" where
  "conditional_attributes alnum clean = conditional_from alnum 0 0 (str_lines clean)"

section \<open>Fenced examples\<close>

record Fence =
  fe_marker :: string
  fe_count :: nat
  fe_rust :: bool
  fe_start :: nat
  fe_body :: string

record Examples =
  ex_out :: "(nat \<times> string) list"
  ex_fence :: "Fence option"
  ex_unknowns :: "string list"

text \<open>\<open>trimmed.trim_matches(marker)\<close>\<close>

definition trim_matches :: "string \<Rightarrow> string \<Rightarrow> string" where
  "trim_matches g s = concat (rev (dropWhile (\<lambda>x. x = g) (rev (dropWhile (\<lambda>x. x = g) (chars s)))))"

definition open_fence :: "string \<Rightarrow> nat \<Rightarrow> string \<Rightarrow> Examples \<Rightarrow> Examples" where
  "open_fence path index trimmed st =
     (let marker = (case chars trimmed of [] \<Rightarrow> [CHR 0x60] | g # _ \<Rightarrow> g);
          count = length (takeWhile (\<lambda>g. g = marker) (chars trimmed));
          language = trim (takeWhile (\<lambda>c. c \<noteq> CHR '','') (drop count trimmed));
          rust = (language = ''rust'' \<or> language = ''rs'')
      in st\<lparr>ex_unknowns := ex_unknowns st @ (if rust then [] else
             [path @ '':'' @ show_nat (index + 1) @ '': fenced example language '' @ [CHR 0x60] @ language @ [CHR 0x60] @
              '' is unsupported'']),
           ex_fence := Some \<lparr>fe_marker = marker, fe_count = count, fe_rust = rust, fe_start = index + 2, fe_body = []\<rparr>\<rparr>)"

definition example_line :: "string \<Rightarrow> Examples \<Rightarrow> nat \<times> string \<Rightarrow> Examples" where
  "example_line path st = (\<lambda>(index, line).
     let trimmed = trim_start line in
     case ex_fence st of
       Some f \<Rightarrow>
         if starts_with trimmed (concat (replicate (fe_count f) (fe_marker f))) \<and> blank (trim_matches (fe_marker f) trimmed)
         then st\<lparr>ex_out := (if fe_rust f then ex_out st @ [(fe_start f, fe_body f)] else ex_out st), ex_fence := None\<rparr>
         else st\<lparr>ex_fence := Some (f\<lparr>fe_body := fe_body f @ line @ [NL]\<rparr>)\<rparr>
     | None \<Rightarrow>
         if starts_with trimmed [CHR 0x60, CHR 0x60, CHR 0x60] \<or> starts_with trimmed ''~~~''
         then open_fence path index trimmed st else st)"

definition examples :: "string \<Rightarrow> string \<Rightarrow> string list \<Rightarrow> (nat \<times> string) list \<times> string list" where
  "examples path content unknowns =
     (let st = foldl (example_line path) \<lparr>ex_out = [], ex_fence = None, ex_unknowns = unknowns\<rparr>
            (enumerate 0 (str_lines content));
          unterminated = (if ex_fence st \<noteq> None
            then [path @ '': unterminated fenced example cannot establish drift''] else []);
          none = (if ex_out st = []
            then [path @ '': no complete Rust fenced examples; prose, inline examples and other documentation semantics remain unknown'']
            else [])
      in (ex_out st, ex_unknowns st @ unterminated @ none))"

section \<open>Positions are kept\<close>

lemma block_rest_bound: "block_rest d bs \<le> length bs"
  by (induction d bs rule: block_rest.induct) auto

lemma string_rest_bound: "string_rest raw hashes cs \<le> length cs"
proof (induction raw hashes cs rule: string_rest.induct)
  case (2 raw hashes c cs)
  have "take hashes cs = replicate hashes (CHR ''#'') \<Longrightarrow> hashes \<le> length cs"
    by (metis length_replicate length_take min.absorb_iff2 min.commute)
  with 2 show ?case by (cases cs) auto
qed simp

text \<open>A byte is kept, or replaced by a space or the marker of a literal; with \<open>b\<close>, line breaks and only
  they stay line breaks.\<close>

definition blanked :: "bool \<Rightarrow> char \<Rightarrow> char \<Rightarrow> bool" where
  "blanked b c d \<longleftrightarrow> (d = c \<or> d = CHR '' '' \<or> d = CHR ''0'') \<and> (b \<longrightarrow> (d = NL \<longleftrightarrow> c = NL))"

text \<open>No character literal (or two lifetime ticks in its place) holds a line break.\<close>

definition line_literals :: "string \<Rightarrow> bool" where
  "line_literals s \<longleftrightarrow> \<not> sublist [CHR 0x27, NL, CHR 0x27] s \<and> \<not> sublist [CHR 0x27, CHR 0x5C, NL, CHR 0x27] s"

lemma blanked_blank: "list_all2 (blanked b) s (map blank_byte s)"
  by (simp add: list_all2_map2 blanked_def blank_byte_def list_all2_refl)

lemma line_literals_drop: "line_literals s \<Longrightarrow> line_literals (drop n s)"
  unfolding line_literals_def sublist_def by (metis append_assoc append_take_drop_id)

lemma literal_at:
  assumes "b \<longrightarrow> line_literals rest"
  shows "rest = CHR 0x27 # x # CHR 0x27 # ys \<Longrightarrow> b \<longrightarrow> x \<noteq> NL"
    "rest = CHR 0x27 # CHR 0x5C # x # CHR 0x27 # ys \<Longrightarrow> b \<longrightarrow> x \<noteq> NL"
proof -
  have "sublist l (l @ ys)" for l by simp
  from this [of "[CHR 0x27, NL, CHR 0x27]"] this [of "[CHR 0x27, CHR 0x5C, NL, CHR 0x27]"] assms
  show "rest = CHR 0x27 # x # CHR 0x27 # ys \<Longrightarrow> b \<longrightarrow> x \<noteq> NL"
    "rest = CHR 0x27 # CHR 0x5C # x # CHR 0x27 # ys \<Longrightarrow> b \<longrightarrow> x \<noteq> NL"
    by (auto simp: line_literals_def)
qed

lemma take_1_drop: "take 1 (drop k xs) = [b] \<Longrightarrow> \<exists>zs ys. xs = zs @ b # ys \<and> length zs = k"
proof -
  assume t: "take 1 (drop k xs) = [b]"
  then have "drop k xs = b # tl (drop k xs)" by (cases "drop k xs") auto
  moreover have "k < length xs" using t by (metis drop_eq_Nil2 list.distinct(1) not_less take_Nil)
  ultimately show ?thesis by (metis append_take_drop_id length_take min.absorb4)
qed

lemma step_positions:
  assumes "lexical_step before rest = (n, out)" "rest \<noteq> []" "b \<longrightarrow> line_literals rest"
  shows "n \<le> length rest \<and> list_all2 (blanked b) (take n rest) out"
proof -
  have quote: "list_all2 (blanked b) (take (1 + k) rest) (CHR ''0'' # map blank_byte (take k (drop 1 rest)))"
    if "take 1 rest = [CHR 0x22]" for k
    using that by (cases rest) (auto simp: blanked_def [of b "CHR 0x22"] blanked_blank)
  have block: "starts_with rest ''/*'' \<Longrightarrow> 2 + block_rest 1 (drop 2 rest) \<le> length rest"
    using block_rest_bound [of 1 "drop 2 rest"] by (auto simp: prefix_def)
  consider "starts_with rest ''//''" | "\<not> starts_with rest ''//''" "starts_with rest ''/*''"
    | "\<not> starts_with rest ''//''" "\<not> starts_with rest ''/*''" "take 1 rest = [CHR 0x22]"
    | "take 1 rest = [CHR 0x27]" "take 1 (drop 2 rest) = [CHR 0x27]" "n = 3" "out = ''0  ''"
    | "starts_with rest [CHR 0x27, CHR 0x5C]" "take 1 (drop 3 rest) = [CHR 0x27]" "n = 4" "out = ''0   ''"
    | "n = 1" "out = take 1 rest"
    using assms(1) unfolding lexical_step_def by (auto split: if_splits)
  then show ?thesis
  proof cases
    case 1
    have "length (takeWhile (\<lambda>c. c \<noteq> NL) rest) \<le> length rest" by (rule length_takeWhile_le)
    then show ?thesis using assms 1 by (auto simp: lexical_step_def Let_def blanked_blank)
  next
    case 2
    then show ?thesis using assms block by (auto simp: lexical_step_def Let_def blanked_blank)
  next
    case 3
    obtain raw hashes where r: "raw_prefix before = (raw, hashes)" by force
    let ?k = "string_rest raw hashes (drop 1 rest)"
    have "n = 1 + ?k" "out = CHR ''0'' # map blank_byte (take ?k (drop 1 rest))"
      using assms(1) 3 by (auto simp: lexical_step_def Let_def r)
    moreover have "1 + ?k \<le> length rest"
      using string_rest_bound [of raw hashes "drop 1 rest"] assms(2) by (cases rest) auto
    ultimately show ?thesis using quote [OF 3(3), of ?k] by simp
  next
    case 4
    from take_1_drop [OF 4(2)] obtain zs ys where "rest = zs @ CHR 0x27 # ys" "length zs = 2" by blast
    with 4(1) obtain x where "rest = CHR 0x27 # x # CHR 0x27 # ys"
      by (auto simp: numeral_2_eq_2 length_Suc_conv)
    then show ?thesis using literal_at(1) [OF assms(3)] 4 by (auto simp: blanked_def)
  next
    case 5
    from take_1_drop [OF 5(2)] obtain zs ys where "rest = zs @ CHR 0x27 # ys" "length zs = 3" by blast
    with 5(1) obtain x where "rest = CHR 0x27 # CHR 0x5C # x # CHR 0x27 # ys"
      by (auto simp: numeral_3_eq_3 length_Suc_conv prefix_def)
    then show ?thesis using literal_at(2) [OF assms(3)] 5 by (auto simp: blanked_def)
  next
    case 6
    then show ?thesis using assms(2) by (cases rest) (auto simp: blanked_def)
  qed
qed

lemma lexical_from_positions:
  "b \<longrightarrow> line_literals rest \<Longrightarrow> list_all2 (blanked b) rest (lexical_from before rest)"
proof (induction before rest rule: lexical_from.induct)
  case (1 before rest)
  show ?case
  proof (cases "rest = []")
    case False
    obtain n out where st: "lexical_step before rest = (n, out)" by force
    have "list_all2 (blanked b) (drop n rest) (lexical_from (rev (take n rest) @ before) (drop n rest))"
      using "1.IH" [OF False st [symmetric]] "1.prems" line_literals_drop by blast
    then have "list_all2 (blanked b) (take n rest @ drop n rest) (out @ lexical_from (rev (take n rest) @ before) (drop n rest))"
      using step_positions [OF st False "1.prems"] by (blast intro: list_all2_appendI)
    then show ?thesis using False by (subst lexical_from.simps) (simp add: st)
  qed (simp add: lexical_from.simps)
qed

text \<open>
  Cleaned code keeps its positions: every byte stays, or becomes a space or the marker of a
  literal, so offsets into the cleaned text are offsets into the text; and its lines are the lines of
  the text, provided that no character literal holds a line break.
\<close>

theorem lexical_code_positions:
  "list_all2 (blanked (line_literals txt)) txt (lexical_code txt)"
  unfolding lexical_code_def by (rule lexical_from_positions) simp

text \<open>An escaped quote is mistaken: \<open>'\''\<close> is taken for the literal \<open>'\'\<close>, its last tick stays and
  can open a literal of its own, here \<open>','\<close>, after which the next quote opens a string.\<close>

lemma escaped_quote_mistaken:
  "lexical_code [CHR 0x27, CHR 0x5C, CHR 0x27, CHR 0x27] = [CHR ''0'', CHR '' '', CHR '' '', CHR 0x27]"
  by (simp add: lexical_code_def lexical_from.simps lexical_step_def)

end
