(* ===== verification/Docs_Drift.thy ===== *)
theory Docs_Drift
  imports Rust_Lexing Redact Imports Json
begin

text \<open>
  The comparison of Markdown examples with public Rust functions (\<open>review/docs_drift.rs\<close>): the
  current inventory with the changes laid over it, the interfaces declared in it and in the bases of
  the changes, the sources that a document names, and the verdict on each call of an example.

  The six regular expressions (\<open>regex\<close> crate) are parameters: what they capture, in the order of the
  matches.
\<close>

record RepositoryChange =
  cg_path :: string
  cg_old_path :: "string option"
  cg_base :: string
  cg_content :: "string option"

record DocCall =
  dc_start :: nat
  dc_qualified :: string
  dc_name :: string
  dc_arguments :: string

record DocPatterns =
  dp_declaration :: "string \<Rightarrow> (string \<times> string) option"
  dp_calls :: "string \<Rightarrow> DocCall list"
  dp_simple_parameter :: "string \<Rightarrow> bool"
  dp_links :: "string \<Rightarrow> string list"
  dp_source_references :: "string \<Rightarrow> string list"
  dp_imports :: "string \<Rightarrow> string list"
  dp_alnum :: "string \<Rightarrow> bool"

record Interface =
  in_name :: string
  in_arity :: "nat option"
  in_evidence :: DocsEvidence

record PreparedExample =
  pe_line :: nat
  pe_original :: string
  pe_clean :: string
  pe_shadowed :: "string set"
  pe_wildcard_import :: bool

record PreparedDocument =
  pd_path :: string
  pd_links :: "string set"
  pd_examples :: "PreparedExample list"

definition is_document :: "string \<Rightarrow> bool" where
  "is_document path \<longleftrightarrow> ends_with path ''.md'' \<or> ends_with path ''.mdx'' \<or> ends_with path ''.markdown''"

definition is_manifest :: "string \<Rightarrow> bool" where
  "is_manifest path \<longleftrightarrow> ends_with path ''Cargo.toml'' \<or> ends_with path ''Cargo.lock''"

definition docs_evidence :: "Detectors \<Rightarrow> string \<Rightarrow> nat \<Rightarrow> string \<Rightarrow> string \<Rightarrow> DocsEvidence" where
  "docs_evidence dt path line revision txt =
     \<lparr>de_path = path, de_line = line, de_revision = revision, de_text = fst (redact dt txt [])\<rparr>"

section \<open>Declared interfaces\<close>

record Extraction =
  xt_depth :: int
  xt_conditional :: bool
  xt_attribute_depth :: int
  xt_out :: "Interface list"
  xt_unknowns :: "string list"

definition parameter_arity :: "DocPatterns \<Rightarrow> string \<Rightarrow> nat option" where
  "parameter_arity dp params =
     (if blank params then Some 0
      else
        let ps = filter (\<lambda>p. \<not> blank p) (split_on (CHR '','') params) in
        if list_all (dp_simple_parameter dp) ps then Some (length ps) else None)"

definition bracket_change :: "string \<Rightarrow> int" where
  "bracket_change line = int (count_list line (CHR ''['')) - int (count_list line (CHR '']''))"

text \<open>The text of line \<open>index\<close> of the original, \<open>original.get(index).copied().unwrap_or_default()\<close>.\<close>

definition nth_line :: "string \<Rightarrow> nat \<Rightarrow> string" where
  "nth_line content index = (let ls = str_lines content in if index < length ls then ls ! index else [])"

definition interface_line ::
  "DocPatterns \<Rightarrow> Detectors \<Rightarrow> string \<Rightarrow> string \<Rightarrow> string \<Rightarrow> nat set \<Rightarrow> bool \<Rightarrow> Extraction \<Rightarrow> nat \<times> string \<Rightarrow> Extraction" where
  "interface_line dp dt path content revision conditional_lines crate_conditional st = (\<lambda>(index, line).
     let st' = (if xt_depth st \<noteq> 0 then st
       else
         let attribute = (0 < xt_attribute_depth st \<or> starts_with (trim_start line) ''#['');
             st = (if attribute then st\<lparr>xt_attribute_depth := xt_attribute_depth st + bracket_change line\<rparr> else st);
             st = (if index \<in> conditional_lines then st\<lparr>xt_conditional := True\<rparr> else st)
         in case dp_declaration dp line of
              Some (name, params) \<Rightarrow>
                (if xt_conditional st \<or> crate_conditional
                 then st\<lparr>xt_unknowns := xt_unknowns st @ [path @ '':'' @ show_nat (index + 1) @ '': conditional public interface requires build configuration evidence'']\<rparr>
                 else st\<lparr>xt_out := xt_out st @ [\<lparr>in_name = name, in_arity = parameter_arity dp params,
                        in_evidence = docs_evidence dt path (index + 1) revision (nth_line content index)\<rparr>]\<rparr>)
                \<lparr>xt_conditional := False\<rparr>
            | None \<Rightarrow>
                if starts_with line ''pub '' \<and> str_contains line ''fn ''
                then st\<lparr>xt_unknowns := xt_unknowns st @ [path @ '':'' @ show_nat (index + 1) @ '': multiline or generic public signature is unsupported''],
                        xt_conditional := False\<rparr>
                else if \<not> blank line \<and> \<not> attribute \<and> \<not> starts_with (trim_start line) ''#''
                then st\<lparr>xt_conditional := False\<rparr>
                else st)
     in st'\<lparr>xt_depth := xt_depth st' + brace_change line\<rparr>)"

definition extract_interfaces ::
  "DocPatterns \<Rightarrow> Detectors \<Rightarrow> string \<Rightarrow> string \<Rightarrow> string \<Rightarrow> string \<Rightarrow> Interface list \<times> string list" where
  "extract_interfaces dp dt path content clean revision =
     (case conditional_attributes (dp_alnum dp) clean of
        (conditional_lines, crate_conditional) \<Rightarrow>
          let st = foldl (interface_line dp dt path content revision conditional_lines crate_conditional)
                \<lparr>xt_depth = 0, xt_conditional = False, xt_attribute_depth = 0, xt_out = [], xt_unknowns = []\<rparr>
                (enumerate 0 (str_lines clean))
          in (xt_out st, xt_unknowns st))"

section \<open>Sources that a document names\<close>

text \<open>The loop over the components of a link; \<open>components.pop()?\<close> leaves the closure.\<close>

fun link_components :: "string list \<Rightarrow> string list \<Rightarrow> string list option" where
  "link_components acc [] = Some acc"
| "link_components acc (c # cs) =
     (if c = ''.'' \<or> c = [] then link_components acc cs
      else if c = ''..'' then (if acc = [] then None else link_components (butlast acc) cs)
      else link_components (acc @ [c]) cs)"

definition link_target :: "string \<Rightarrow> string \<Rightarrow> string option" where
  "link_target doc_path captured =
     (let target = takeWhile (\<lambda>c. c \<noteq> CHR ''#'') captured in
      if str_contains target ''://'' then None
      else
        let parent = (case rsplit_once (CHR ''/'') doc_path of None \<Rightarrow> [] | Some (parent, _) \<Rightarrow> parent);
            joined = (if starts_with target ''/'' then dropWhile (\<lambda>c. c = CHR ''/'') target
                      else if parent = [] then target else parent @ ''/'' @ target)
        in map_option (join ''/'') (link_components [] (split_on (CHR ''/'') joined)))"

definition source_links :: "DocPatterns \<Rightarrow> string \<Rightarrow> string \<Rightarrow> string set" where
  "source_links dp doc_path content =
     set (List.map_filter (link_target doc_path) (dp_links dp content @ dp_source_references dp content))"

text \<open>\<open>module.trim_end_matches("/mod").replace('/', "::")\<close>\<close>

definition module_of :: "string \<Rightarrow> string" where
  "module_of name =
     (if name = ''lib'' \<or> name = ''main'' then []
      else concat (map (\<lambda>c. if c = CHR ''/'' then ''::'' else [c])
        (rev (trim_start_matches (rev ''/mod'') (rev name)))))"

definition associated_source :: "string \<Rightarrow> string \<Rightarrow> string set \<Rightarrow> bool" where
  "associated_source path qualified links \<longleftrightarrow>
     (if path \<in> links \<and> qualified = [] then True
      else case Option.bind (strip_prefix ''src/'' path) (strip_suffix ''.rs'') of
          None \<Rightarrow> False
        | Some name \<Rightarrow>
            qualified = (if module_of name = [] then ''crate::'' else ''crate::'' @ module_of name @ ''::''))"

definition qualified_sources :: "string \<Rightarrow> string set" where
  "qualified_sources qualified =
     (if qualified = ''crate::'' then {''src/lib.rs'', ''src/main.rs''}
      else case Option.bind (strip_prefix ''crate::'' qualified) (strip_suffix ''::'') of
          None \<Rightarrow> {}
        | Some name \<Rightarrow>
            let m = join ''/'' (split_str ''::'' name)
            in {''src/'' @ m @ ''.rs'', ''src/'' @ m @ ''/mod.rs''})"

section \<open>The inventory\<close>

text \<open>A \<open>BTreeMap\<close> from paths to contents: entries in the order of the paths.\<close>

definition map_remove :: "string \<Rightarrow> (string \<times> 'v) list \<Rightarrow> (string \<times> 'v) list" where
  "map_remove k m = filter (\<lambda>(k', _). k' \<noteq> k) m"

definition lay_over :: "(string \<times> string) list \<Rightarrow> RepositoryChange \<Rightarrow> (string \<times> string) list" where
  "lay_over current change =
     (let current = (case cg_old_path change of None \<Rightarrow> current | Some old \<Rightarrow> map_remove old current)
      in case cg_content change of
           Some content \<Rightarrow> map_insert (cg_path change) content current
         | None \<Rightarrow> map_remove (cg_path change) current)"

definition current_files :: "RepositoryChange list \<Rightarrow> SourceFile list \<Rightarrow> (string \<times> string) list" where
  "current_files changes files =
     foldl lay_over (foldl (\<lambda>m f. map_insert (sf_path f) (sf_content f) m) [] files) changes"

definition prepare_example :: "DocPatterns \<Rightarrow> nat \<times> string \<Rightarrow> PreparedExample" where
  "prepare_example dp = (\<lambda>(line, original).
     let clean = lexical_code original; (shadowed, wildcard) = example_shadows (dp_imports dp) (dp_alnum dp) clean
     in \<lparr>pe_line = line, pe_original = original, pe_clean = clean, pe_shadowed = shadowed, pe_wildcard_import = wildcard\<rparr>)"

text \<open>Whether a path is a document to check.\<close>

definition checked_document :: "RepositoryChange list \<Rightarrow> string \<Rightarrow> bool" where
  "checked_document changes path \<longleftrightarrow>
     \<not> (\<not> is_document path \<or>
        \<not> list_ex (\<lambda>c. \<not> is_document (cg_path c)) changes \<and>
        path \<notin> set (map cg_path (filter (\<lambda>c. is_document (cg_path c)) changes)))"

definition prepare_document ::
  "DocPatterns \<Rightarrow> RepositoryChange list \<Rightarrow> PreparedDocument list \<times> string set \<times> string list \<Rightarrow> string \<times> string \<Rightarrow>
    PreparedDocument list \<times> string set \<times> string list" where
  "prepare_document dp changes = (\<lambda>(documents, relevant, unknowns) (path, content).
     if \<not> checked_document changes path then (documents, relevant, unknowns)
     else
       let links = source_links dp path content;
           (found, unknowns') = examples path content unknowns;
           exs = map (prepare_example dp) found
       in (documents @ [\<lparr>pd_path = path, pd_links = links, pd_examples = exs\<rparr>],
           relevant \<union> links \<union> \<Union> (set (map (\<lambda>ex. \<Union> (set (map (qualified_sources \<circ> dc_qualified) (dp_calls dp (pe_clean ex))))) exs)),
           unknowns'))"

definition prepare_documents ::
  "DocPatterns \<Rightarrow> RepositoryChange list \<Rightarrow> (string \<times> string) list \<Rightarrow> PreparedDocument list \<times> string set \<times> string list" where
  "prepare_documents dp changes current = foldl (prepare_document dp changes) ([], {}, []) current"

record Visible =
  vi_interfaces :: "Interface list"
  vi_identifiers :: "string set"
  vi_opaque :: bool
  vi_unknowns :: "string list"

definition visible_file :: "DocPatterns \<Rightarrow> Detectors \<Rightarrow> string set \<Rightarrow> Visible \<Rightarrow> string \<times> string \<Rightarrow> Visible" where
  "visible_file dp dt relevant v = (\<lambda>(path, content).
     if \<not> ends_with path ''.rs'' then v
     else
       let clean = lexical_code content;
           (found, unknowns) = extract_interfaces dp dt path content clean ''current''
       in \<lparr>vi_interfaces = vi_interfaces v @ found,
           vi_identifiers = vi_identifiers v \<union> set (identifiers (dp_alnum dp) clean),
           vi_opaque = (vi_opaque v \<or> has_opaque_exports (dp_alnum dp) clean),
           vi_unknowns = vi_unknowns v @ (if path \<in> relevant then unknowns else [])\<rparr>)"

definition base_path :: "RepositoryChange \<Rightarrow> string" where
  "base_path c = (case cg_old_path c of Some old \<Rightarrow> old | None \<Rightarrow> cg_path c)"

definition base_file ::
  "DocPatterns \<Rightarrow> Detectors \<Rightarrow> string set \<Rightarrow> Interface list \<times> string list \<Rightarrow> RepositoryChange \<Rightarrow> Interface list \<times> string list" where
  "base_file dp dt relevant = (\<lambda>(old, unknowns) c.
     if ends_with (cg_path c) ''.rs'' then
       let (found, more_unknowns) = extract_interfaces dp dt (base_path c) (cg_base c) (lexical_code (cg_base c)) ''base''
       in (old @ found, unknowns @ (if base_path c \<in> relevant then more_unknowns else []))
     else if \<not> is_document (cg_path c) \<and> \<not> is_manifest (cg_path c) then
       (old, unknowns @ [cg_path c @ '': documentation checks support Rust public functions only''])
     else (old, unknowns))"

section \<open>The verdict on a call\<close>

definition record_unknown :: "string \<Rightarrow> DocsEvidence \<Rightarrow> DocsEvidence option \<Rightarrow> string \<Rightarrow> DocsDriftSummary \<Rightarrow> DocsDriftSummary" where
  "record_unknown name documentation source reason summary =
     summary\<lparr>dd_unknowns := dd_unknowns summary @
         [de_path documentation @ '':'' @ show_nat (de_line documentation) @ '': '' @ reason],
       dd_checks := dd_checks summary @ [\<lparr>dk_status = ''unknown'', dk_symbol = name, dk_documentation = documentation,
         dk_source = source, dk_reason = reason\<rparr>]\<rparr>"

definition quoted_evidence :: "DocsEvidence \<Rightarrow> string" where
  "quoted_evidence e =
     de_path e @ '':'' @ show_nat (de_line e) @ '' ('' @ de_revision e @ ''): '' @ de_text e"

definition tick :: "string \<Rightarrow> string" where
  "tick s = [CHR 0x60] @ s @ [CHR 0x60]"

definition drift_finding :: "string \<Rightarrow> DocsEvidence \<Rightarrow> DocsEvidence \<Rightarrow> string \<Rightarrow> string \<Rightarrow> Finding" where
  "drift_finding name documentation source reason fix =
     default_finding\<lparr>f_file := de_path documentation, f_line := de_line documentation, f_dimension := Correctness,
       f_probability := Fin 1, f_location_confidence := Fin 1, f_mechanism := ''docsInterfaceDrift'',
       f_mechanism_confidence := Fin 1, f_severity := Fin 1, f_severity_confidence := Fin 1, f_action := Comment,
       f_evidence := quoted_evidence documentation @ [NL] @ quoted_evidence source,
       f_title := Some (''Documentation example disagrees with '' @ tick name), f_why := Some reason, f_fix := Some fix,
       f_test := Some ''Compile the corrected example against the intended crate and build configuration.''\<rparr>"

definition record_drift ::
  "string \<Rightarrow> DocsEvidence \<Rightarrow> DocsEvidence \<Rightarrow> string \<Rightarrow> string \<Rightarrow> DocsDriftSummary \<Rightarrow> DocsDriftSummary" where
  "record_drift name documentation source reason fix summary =
     summary\<lparr>dd_findings := dd_findings summary @ [drift_finding name documentation source reason fix],
       dd_checks := dd_checks summary @ [\<lparr>dk_status = ''drift'', dk_symbol = name, dk_documentation = documentation,
         dk_source = Some source, dk_reason = reason\<rparr>]\<rparr>"

definition record_consistent :: "string \<Rightarrow> DocsEvidence \<Rightarrow> DocsEvidence \<Rightarrow> DocsDriftSummary \<Rightarrow> DocsDriftSummary" where
  "record_consistent name documentation source summary =
     summary\<lparr>dd_checks := dd_checks summary @ [\<lparr>dk_status = ''consistent'', dk_symbol = name,
       dk_documentation = documentation, dk_source = Some source,
       dk_reason = ''Visible fixed argument count agrees; types and behavior were not evaluated.''\<rparr>]\<rparr>"

definition trim_end :: "string \<Rightarrow> string" where
  "trim_end s = concat (rev (dropWhile is_ws (rev (chars s))))"

text \<open>A method call or a declaration is not evidence.\<close>

definition not_a_call :: "string \<Rightarrow> DocCall \<Rightarrow> bool" where
  "not_a_call clean c \<longleftrightarrow>
     (let preceding = trim_end (take (dc_start c) clean) in ends_with preceding ''.'' \<or> ends_with preceding ''fn'')"

definition call_evidence :: "Detectors \<Rightarrow> string \<Rightarrow> PreparedExample \<Rightarrow> DocCall \<Rightarrow> DocsEvidence" where
  "call_evidence dt path ex c =
     (let offset = count_list (take (dc_start c) (pe_clean ex)) NL
      in docs_evidence dt path (pe_line ex + offset) ''current'' (nth_line (pe_original ex) offset))"

definition judge_arity :: "string \<Rightarrow> DocsEvidence \<Rightarrow> Interface \<Rightarrow> string \<Rightarrow> DocsDriftSummary \<Rightarrow> DocsDriftSummary" where
  "judge_arity name documentation api arguments summary =
     (case (in_arity api, argument_count arguments) of
        (Some expected, Some actual) \<Rightarrow>
          if expected \<noteq> actual
          then record_drift name documentation (in_evidence api)
            (''Example calls '' @ tick name @ '' with '' @ show_nat actual @ '' arguments; the current public declaration requires '' @ show_nat expected @ ''.'')
            ''Update the example arguments or the public function contract.'' summary
          else record_consistent name documentation (in_evidence api) summary
      | _ \<Rightarrow> record_unknown name documentation (Some (in_evidence api))
          ''Unsupported signature or argument syntax; argument compatibility is unknown.'' summary)"

definition judge_removed ::
  "RepositoryChange list \<Rightarrow> Visible \<Rightarrow> string \<Rightarrow> DocsEvidence \<Rightarrow> Interface \<Rightarrow> DocsDriftSummary \<Rightarrow> DocsDriftSummary" where
  "judge_removed changes v name documentation old summary =
     (case find (\<lambda>c. base_path c = de_path (in_evidence old)) changes of
        None \<Rightarrow> summary
      | Some change \<Rightarrow>
          if name \<notin> vi_identifiers v \<and> \<not> vi_opaque v
          then record_drift name documentation (in_evidence old)
            (''Example still calls '' @ tick name @ '', declared at '' @ de_path (in_evidence old) @ '':'' @
             show_nat (de_line (in_evidence old)) @ '' in base; the changed file '' @ tick (cg_path change) @ '' '' @
             (if cg_content change = None then ''was removed'' else ''no longer declares that interface'') @
             '' and no visible replacement establishes compatibility.'')
            ''Update the example to the replacement interface, or restore the documented public interface. Confirm any re-export outside the supplied inventory.''
            summary
          else record_unknown name documentation (Some (in_evidence old))
            ''The previous interface has moved, changed visibility, has another visible reference or opaque exports; replacement/re-export compatibility is unknown.''
            summary)"

definition associated :: "string \<Rightarrow> string \<Rightarrow> string set \<Rightarrow> Interface list \<Rightarrow> Interface list" where
  "associated name qualified links apis =
     filter (\<lambda>api. associated_source (de_path (in_evidence api)) qualified links) (filter (\<lambda>api. in_name api = name) apis)"

definition check_call ::
  "Detectors \<Rightarrow> RepositoryChange list \<Rightarrow> Visible \<Rightarrow> Interface list \<Rightarrow> PreparedDocument \<Rightarrow> PreparedExample \<Rightarrow>
    DocsDriftSummary \<Rightarrow> DocCall \<Rightarrow> DocsDriftSummary" where
  "check_call dt changes v old doc ex summary c =
     (if not_a_call (pe_clean ex) c then summary
      else
        let name = dc_name c; documentation = call_evidence dt (pd_path doc) ex c;
            found = associated name (dc_qualified c) (pd_links doc) (vi_interfaces v);
            previous = associated name (dc_qualified c) (pd_links doc) old
        in if dc_qualified c = [] \<and> (pe_wildcard_import ex \<or> name \<in> pe_shadowed ex)
           then record_unknown name documentation None
             ''An example-local declaration or import may shadow this name; source identity is unknown.'' summary
           else if length found = 1 then judge_arity name documentation (hd found) (dc_arguments c) summary
           else if found = [] \<and> length previous = 1 then judge_removed changes v name documentation (hd previous) summary
           else record_unknown name documentation None
             (''No unique source association and supported public declaration establishes this example'' @ [CHR 0x27] @ ''s interface; external or excluded APIs remain unknown.'')
             summary)"

definition check_example ::
  "DocPatterns \<Rightarrow> Detectors \<Rightarrow> RepositoryChange list \<Rightarrow> Visible \<Rightarrow> Interface list \<Rightarrow> PreparedDocument \<Rightarrow>
    DocsDriftSummary \<Rightarrow> PreparedExample \<Rightarrow> DocsDriftSummary" where
  "check_example dp dt changes v old doc summary ex =
     foldl (check_call dt changes v old doc ex) summary (dp_calls dp (pe_clean ex))"

definition check_document ::
  "DocPatterns \<Rightarrow> Detectors \<Rightarrow> RepositoryChange list \<Rightarrow> Visible \<Rightarrow> Interface list \<Rightarrow> DocsDriftSummary \<Rightarrow>
    PreparedDocument \<Rightarrow> DocsDriftSummary" where
  "check_document dp dt changes v old summary doc =
     foldl (check_example dp dt changes v old doc) summary (pd_examples doc)"

definition assess_docs :: "DocPatterns \<Rightarrow> Detectors \<Rightarrow> RepositoryChange list \<Rightarrow> SourceFile list \<Rightarrow> DocsDriftSummary" where
  "assess_docs dp dt changes files =
     (let current = current_files changes files;
          (documents, relevant, unknowns) = prepare_documents dp changes current;
          v = foldl (visible_file dp dt relevant)
            \<lparr>vi_interfaces = [], vi_identifiers = {}, vi_opaque = False, vi_unknowns = unknowns\<rparr> current;
          (old, unknowns') = foldl (base_file dp dt relevant) ([], vi_unknowns v) changes;
          summary = foldl (check_document dp dt changes v old)
            \<lparr>dd_findings = [], dd_unknowns = unknowns', dd_checks = []\<rparr> documents;
          none = (if documents = []
            then [''No relevant current Markdown documentation was supplied; documentation coverage is unknown.''] else []);
          no_calls = (if documents \<noteq> [] \<and> dd_checks summary = []
            then [''No supported interface calls were established in the supplied examples; documentation coverage is unknown.'']
            else [])
      in summary\<lparr>dd_unknowns := remdups_adj (sort_by cmp (dd_unknowns summary @ none @ no_calls))\<rparr>)"

section \<open>Every reported drift has its evidence\<close>

lemma foldl_keeps: "P a \<Longrightarrow> (\<And>a x. x \<in> set xs \<Longrightarrow> P a \<Longrightarrow> P (f a x)) \<Longrightarrow> P (foldl f a xs)"
  by (induction xs arbitrary: a) auto

text \<open>An interface stands at a line of its file that the declaration pattern matches.\<close>

definition declared_at :: "DocPatterns \<Rightarrow> Detectors \<Rightarrow> string \<Rightarrow> string \<Rightarrow> string \<Rightarrow> Interface \<Rightarrow> bool" where
  "declared_at dp dt path content revision api \<longleftrightarrow>
     (\<exists>i params. i < length (str_lines (lexical_code content)) \<and>
        dp_declaration dp (str_lines (lexical_code content) ! i) = Some (in_name api, params) \<and>
        in_arity api = parameter_arity dp params \<and>
        in_evidence api = docs_evidence dt path (i + 1) revision (nth_line content i))"

lemma interface_line_out:
  "xt_out (interface_line dp dt path content revision cl cc st (i, line)) = xt_out st \<or>
   (\<exists>name params. dp_declaration dp line = Some (name, params) \<and>
      xt_out (interface_line dp dt path content revision cl cc st (i, line)) = xt_out st @
        [\<lparr>in_name = name, in_arity = parameter_arity dp params,
          in_evidence = docs_evidence dt path (i + 1) revision (nth_line content i)\<rparr>])"
  by (auto simp: interface_line_def Let_def split: option.split)

lemma extract_declared:
  assumes "api \<in> set (fst (extract_interfaces dp dt path content (lexical_code content) revision))"
  shows "declared_at dp dt path content revision api"
proof -
  let ?ls = "str_lines (lexical_code content)"
  have "\<forall>api \<in> set (xt_out (foldl (interface_line dp dt path content revision cl cc) st (enumerate 0 ?ls))).
      declared_at dp dt path content revision api" if "xt_out st = []" for st cl cc
  proof (rule foldl_keeps)
    fix st :: Extraction and x
    assume x: "x \<in> set (enumerate 0 ?ls)" and ok: "\<forall>api \<in> set (xt_out st). declared_at dp dt path content revision api"
    obtain i line where i: "x = (i, line)" by force
    then have "i < length ?ls" "line = ?ls ! i" using x by (auto simp: in_set_enumerate_eq)
    then show "\<forall>api \<in> set (xt_out (interface_line dp dt path content revision cl cc st x)).
        declared_at dp dt path content revision api"
      using ok interface_line_out [of dp dt path content revision cl cc st i line]
      unfolding i by (fastforce simp: declared_at_def)
  qed (simp add: that)
  note declared = this
  obtain cl cc where cc: "conditional_attributes (dp_alnum dp) (lexical_code content) = (cl, cc)" by force
  show ?thesis using assms
    using declared [of "\<lparr>xt_depth = 0, xt_conditional = False, xt_attribute_depth = 0, xt_out = [], xt_unknowns = []\<rparr>" cl cc]
    by (simp add: extract_interfaces_def Let_def cc)
qed

text \<open>What is visible in the current Rust files, and what the bases of the changes declared.\<close>

abbreviation rust_files :: "(string \<times> string) list \<Rightarrow> (string \<times> string) list" where
  "rust_files current \<equiv> filter (\<lambda>(path, _). ends_with path ''.rs'') current"

lemma visible_facts:
  fixes dp dt relevant current v0
  defines "v \<equiv> foldl (visible_file dp dt relevant) v0 current"
  assumes "vi_interfaces v0 = []" "vi_identifiers v0 = {}" "\<not> vi_opaque v0"
  shows "\<forall>api \<in> set (vi_interfaces v). \<exists>(path, content) \<in> set (rust_files current). declared_at dp dt path content ''current'' api"
    "vi_identifiers v = (\<Union>(path, content) \<in> set (rust_files current). set (identifiers (dp_alnum dp) (lexical_code content)))"
    "vi_opaque v \<longleftrightarrow> (\<exists>(path, content) \<in> set (rust_files current). has_opaque_exports (dp_alnum dp) (lexical_code content))"
proof -
  have "(\<forall>api \<in> set (vi_interfaces v). \<exists>(path, content) \<in> set (rust_files current). declared_at dp dt path content ''current'' api) \<and>
    vi_identifiers v = (\<Union>(path, content) \<in> set (rust_files current). set (identifiers (dp_alnum dp) (lexical_code content))) \<and>
    (vi_opaque v \<longleftrightarrow> (\<exists>(path, content) \<in> set (rust_files current). has_opaque_exports (dp_alnum dp) (lexical_code content)))"
    unfolding v_def
  proof (induction current rule: rev_induct)
    case Nil
    then show ?case using assms by simp
  next
    case (snoc x xs)
    obtain path content where x: "x = (path, content)" by force
    obtain found unknowns where e: "extract_interfaces dp dt path content (lexical_code content) ''current'' = (found, unknowns)"
      by force
    then have "\<forall>api \<in> set found. declared_at dp dt path content ''current'' api"
      using extract_declared [of _ dp dt path content "''current''"] by simp
    with snoc show ?case by (auto simp: x visible_file_def Let_def e)
  qed
  then show "\<forall>api \<in> set (vi_interfaces v). \<exists>(path, content) \<in> set (rust_files current). declared_at dp dt path content ''current'' api"
    "vi_identifiers v = (\<Union>(path, content) \<in> set (rust_files current). set (identifiers (dp_alnum dp) (lexical_code content)))"
    "vi_opaque v \<longleftrightarrow> (\<exists>(path, content) \<in> set (rust_files current). has_opaque_exports (dp_alnum dp) (lexical_code content))"
    by blast+
qed

lemma base_facts:
  assumes "foldl (base_file dp dt relevant) ([], unknowns0) changes = (old, unknowns)"
  shows "\<forall>api \<in> set old. \<exists>c \<in> set changes. declared_at dp dt (base_path c) (cg_base c) ''base'' api"
proof -
  have "\<forall>api \<in> set (fst (foldl (base_file dp dt relevant) ([], unknowns0) changes)).
      \<exists>c \<in> set changes. declared_at dp dt (base_path c) (cg_base c) ''base'' api"
  proof (rule foldl_keeps [where P = "\<lambda>acc. \<forall>api \<in> set (fst acc). \<exists>c \<in> set changes. declared_at dp dt (base_path c) (cg_base c) ''base'' api"])
    fix acc :: "Interface list \<times> string list" and c
    assume "c \<in> set changes" and ok: "\<forall>api \<in> set (fst acc). \<exists>c \<in> set changes. declared_at dp dt (base_path c) (cg_base c) ''base'' api"
    moreover obtain found us where e: "extract_interfaces dp dt (base_path c) (cg_base c) (lexical_code (cg_base c)) ''base'' = (found, us)"
      by force
    then have "\<forall>api \<in> set found. declared_at dp dt (base_path c) (cg_base c) ''base'' api"
      using extract_declared [of _ dp dt "base_path c" "cg_base c" "''base''"] by simp
    ultimately show "\<forall>api \<in> set (fst (base_file dp dt relevant acc c)).
        \<exists>c \<in> set changes. declared_at dp dt (base_path c) (cg_base c) ''base'' api"
      by (cases acc) (auto simp: base_file_def Let_def e)
  qed simp
  then show ?thesis by (simp add: assms)
qed

text \<open>A finding about a call of an example: the call is unqualified by anything local, its document names
  the source, and either the one declaration that it can mean takes another number of arguments, or
  the one that the base of a change declared is gone and nothing that is visible mentions the name.\<close>

definition source_drift ::
  "DocPatterns \<Rightarrow> Detectors \<Rightarrow> RepositoryChange list \<Rightarrow> (string \<times> string) list \<Rightarrow> DocCall \<Rightarrow> Interface \<Rightarrow> bool" where
  "source_drift dp dt changes current c api \<longleftrightarrow>
     in_name api = dc_name c \<and>
     ((\<exists>(path, content) \<in> set (rust_files current). declared_at dp dt path content ''current'' api) \<and>
        (\<exists>n m. in_arity api = Some n \<and> argument_count (dc_arguments c) = Some m \<and> n \<noteq> m) \<or>
      (\<exists>change \<in> set changes. declared_at dp dt (base_path change) (cg_base change) ''base'' api) \<and>
        (\<forall>(path, content) \<in> set (rust_files current).
           dc_name c \<notin> set (identifiers (dp_alnum dp) (lexical_code content)) \<and>
           \<not> has_opaque_exports (dp_alnum dp) (lexical_code content)))"

definition grounded_drift ::
  "DocPatterns \<Rightarrow> Detectors \<Rightarrow> RepositoryChange list \<Rightarrow> (string \<times> string) list \<Rightarrow> PreparedDocument list \<Rightarrow> Finding \<Rightarrow> bool" where
  "grounded_drift dp dt changes current documents f \<longleftrightarrow>
     (\<exists>doc \<in> set documents. \<exists>ex \<in> set (pd_examples doc). \<exists>c \<in> set (dp_calls dp (pe_clean ex)). \<exists>api reason remedy.
        f = drift_finding (dc_name c) (call_evidence dt (pd_path doc) ex c) (in_evidence api) reason remedy \<and>
        \<not> not_a_call (pe_clean ex) c \<and> \<not> (dc_qualified c = [] \<and> (pe_wildcard_import ex \<or> dc_name c \<in> pe_shadowed ex)) \<and>
        associated_source (de_path (in_evidence api)) (dc_qualified c) (pd_links doc) \<and>
        source_drift dp dt changes current c api)"

lemma associated_mem:
  "api \<in> set (associated name qualified links apis) \<Longrightarrow>
     api \<in> set apis \<and> in_name api = name \<and> associated_source (de_path (in_evidence api)) qualified links"
  by (auto simp: associated_def)

lemma check_call_grounded:
  assumes now: "\<forall>api \<in> set (vi_interfaces v). \<exists>(path, content) \<in> set (rust_files current). declared_at dp dt path content ''current'' api"
    and gone: "dc_name c \<notin> vi_identifiers v \<Longrightarrow> \<not> vi_opaque v \<Longrightarrow> \<forall>(path, content) \<in> set (rust_files current).
        dc_name c \<notin> set (identifiers (dp_alnum dp) (lexical_code content)) \<and> \<not> has_opaque_exports (dp_alnum dp) (lexical_code content)"
    and base: "\<forall>api \<in> set old. \<exists>change \<in> set changes. declared_at dp dt (base_path change) (cg_base change) ''base'' api"
    and doc: "doc \<in> set documents" "ex \<in> set (pd_examples doc)" "c \<in> set (dp_calls dp (pe_clean ex))"
    and ok: "list_all (grounded_drift dp dt changes current documents) (dd_findings summary)"
  shows "list_all (grounded_drift dp dt changes current documents) (dd_findings (check_call dt changes v old doc ex summary c))"
proof -
  let ?found = "associated (dc_name c) (dc_qualified c) (pd_links doc) (vi_interfaces v)"
  let ?previous = "associated (dc_name c) (dc_qualified c) (pd_links doc) old"
  have unknown: "dd_findings (record_unknown a b d e summary) = dd_findings summary"
      "dd_findings (record_consistent a b g summary) = dd_findings summary" for a b d e g
    by (simp_all add: record_unknown_def record_consistent_def)
  have drift: "list_all (grounded_drift dp dt changes current documents)
      (dd_findings (record_drift (dc_name c) (call_evidence dt (pd_path doc) ex c) (in_evidence api) reason remedy summary))"
    if "\<not> not_a_call (pe_clean ex) c" "\<not> (dc_qualified c = [] \<and> (pe_wildcard_import ex \<or> dc_name c \<in> pe_shadowed ex))"
      "associated_source (de_path (in_evidence api)) (dc_qualified c) (pd_links doc)" "source_drift dp dt changes current c api"
    for api reason remedy
  proof -
    have "grounded_drift dp dt changes current documents
        (drift_finding (dc_name c) (call_evidence dt (pd_path doc) ex c) (in_evidence api) reason remedy)"
      unfolding grounded_drift_def using that doc by blast
    then show ?thesis using ok by (simp add: record_drift_def)
  qed
  consider "not_a_call (pe_clean ex) c \<or> dc_qualified c = [] \<and> (pe_wildcard_import ex \<or> dc_name c \<in> pe_shadowed ex)"
    | api where "\<not> not_a_call (pe_clean ex) c" "\<not> (dc_qualified c = [] \<and> (pe_wildcard_import ex \<or> dc_name c \<in> pe_shadowed ex))"
        "?found = [api]"
    | api where "\<not> not_a_call (pe_clean ex) c" "\<not> (dc_qualified c = [] \<and> (pe_wildcard_import ex \<or> dc_name c \<in> pe_shadowed ex))"
        "?found = []" "?previous = [api]"
    | "\<not> not_a_call (pe_clean ex) c" "\<not> (dc_qualified c = [] \<and> (pe_wildcard_import ex \<or> dc_name c \<in> pe_shadowed ex))"
        "length ?found \<noteq> 1" "\<not> (?found = [] \<and> length ?previous = 1)"
    by (auto simp: length_Suc_conv)
  then show ?thesis
  proof cases
    case 1
    then show ?thesis using ok by (auto simp: check_call_def Let_def unknown)
  next
    case 2
    have api: "api \<in> set (vi_interfaces v)" "in_name api = dc_name c"
        "associated_source (de_path (in_evidence api)) (dc_qualified c) (pd_links doc)"
      using associated_mem [of api "dc_name c" "dc_qualified c" "pd_links doc" "vi_interfaces v"] 2(3) by auto
    have call: "check_call dt changes v old doc ex summary c
        = judge_arity (dc_name c) (call_evidence dt (pd_path doc) ex c) api (dc_arguments c) summary"
      using 2 by (auto simp: check_call_def Let_def)
    show ?thesis
    proof (cases "\<exists>n m. in_arity api = Some n \<and> argument_count (dc_arguments c) = Some m \<and> n \<noteq> m")
      case True
      then have "source_drift dp dt changes current c api" using api(1,2) now by (auto simp: source_drift_def)
      then show ?thesis using True drift [OF 2(1,2) api(3)] by (auto simp: call judge_arity_def)
    next
      case False
      then show ?thesis using ok by (auto simp: call judge_arity_def unknown split: option.split)
    qed
  next
    case 3
    have api: "api \<in> set old" "in_name api = dc_name c"
        "associated_source (de_path (in_evidence api)) (dc_qualified c) (pd_links doc)"
      using associated_mem [of api "dc_name c" "dc_qualified c" "pd_links doc" old] 3(4) by auto
    have call: "check_call dt changes v old doc ex summary c
        = judge_removed changes v (dc_name c) (call_evidence dt (pd_path doc) ex c) api summary"
      using 3 by (auto simp: check_call_def Let_def)
    show ?thesis
    proof (cases "dc_name c \<notin> vi_identifiers v \<and> \<not> vi_opaque v")
      case True
      then have "source_drift dp dt changes current c api" using api(1,2) base gone by (auto simp: source_drift_def)
      then show ?thesis using True ok drift [OF 3(1,2) api(3)] by (auto simp: call judge_removed_def split: option.split)
    next
      case False
      then show ?thesis using ok by (auto simp: call judge_removed_def unknown split: option.split)
    qed
  next
    case 4
    then show ?thesis using ok by (auto simp: check_call_def Let_def unknown)
  qed
qed

text \<open>
  C21. Documentation drift is reported only on direct evidence: every finding is about a call in a Rust
  example of a current document that names the source, quotes the call's line and the declaration's
  line, and rests on one declaration that takes a different number of arguments, or on one that the
  base of a change declared while no current Rust file mentions the name or re-exports opaquely.
\<close>

theorem docs_drift_grounded:
  "case prepare_documents dp changes (current_files changes files) of
     (documents, _) \<Rightarrow> list_all (grounded_drift dp dt changes (current_files changes files) documents)
       (dd_findings (assess_docs dp dt changes files))"
proof -
  let ?current = "current_files changes files"
  obtain documents relevant unknowns where d: "prepare_documents dp changes ?current = (documents, relevant, unknowns)"
    using prod_cases3 by blast
  define v where "v = foldl (visible_file dp dt relevant)
      \<lparr>vi_interfaces = [], vi_identifiers = {}, vi_opaque = False, vi_unknowns = unknowns\<rparr> ?current"
  obtain old unknowns' where o: "foldl (base_file dp dt relevant) ([], vi_unknowns v) changes = (old, unknowns')" by force
  note now = visible_facts [where dp = dp and dt = dt and relevant = relevant and current = ?current
      and ?v0.0 = "\<lparr>vi_interfaces = [], vi_identifiers = {}, vi_opaque = False, vi_unknowns = unknowns\<rparr>",
      folded v_def, simplified]
  let ?ok = "\<lambda>s :: DocsDriftSummary. list_all (grounded_drift dp dt changes ?current documents) (dd_findings s)"
  have "?ok (foldl (check_document dp dt changes v old) s0 documents)" if s0: "?ok s0" for s0
  proof (rule foldl_keeps [where P = ?ok, OF s0])
    fix s doc assume doc: "doc \<in> set documents" "?ok s"
    show "?ok (check_document dp dt changes v old s doc)" unfolding check_document_def
    proof (rule foldl_keeps [where P = ?ok, OF doc(2)])
      fix s ex assume ex: "ex \<in> set (pd_examples doc)" "?ok s"
      show "?ok (check_example dp dt changes v old doc s ex)" unfolding check_example_def
      proof (rule foldl_keeps [where P = ?ok, OF ex(2)])
        fix s c assume c: "c \<in> set (dp_calls dp (pe_clean ex))" "?ok s"
        show "?ok (check_call dt changes v old doc ex s c)"
          by (rule check_call_grounded [OF _ _ base_facts [OF o] doc(1) ex(1) c]) (use now in auto)
      qed
    qed
  qed
  then show ?thesis by (simp add: d assess_docs_def Let_def v_def [symmetric] o)
qed

end
