(* ===== verification/Manifests.thy ===== *)
theory Manifests
  imports Docs_Drift
begin

text \<open>
  The dependencies that a manifest or lock file declares (\<open>review/upgrades.rs\<close>): Cargo manifests and
  lock files, npm manifests and lock files of the versions 1 to 3, and the lines where they declare
  each dependency.

  The TOML and JSON parsers, the deserialization of a Cargo lock file with the spans of its versions,
  the text of a TOML value and SHA-256 are parameters, collected in \<open>ManifestTools\<close>. A JSON number is
  its value: \<open>1\<close> and \<open>1.0\<close> are one number here.
\<close>

datatype toml =
    TString string
  | TInteger int
  | TFloat f64
  | TBoolean bool
  | TDatetime string
  | TArray "toml list"
  | TTable "(string \<times> toml) list"

fun toml_str :: "toml \<Rightarrow> string option" where
  "toml_str (TString s) = Some s"
| "toml_str _ = None"

fun toml_table :: "toml \<Rightarrow> (string \<times> toml) list option" where
  "toml_table (TTable kvs) = Some kvs"
| "toml_table _ = None"

definition toml_get :: "string \<Rightarrow> toml \<Rightarrow> toml option" where
  "toml_get k v = Option.bind (toml_table v) (\<lambda>kvs. map_of kvs k)"

fun has_nan :: "toml \<Rightarrow> bool" where
  "has_nan (TFloat x) = (x = NaN)"
| "has_nan (TArray vs) = list_ex has_nan vs"
| "has_nan (TTable kvs) = list_ex (\<lambda>kv. has_nan (snd kv)) kvs"
| "has_nan _ = False"

text \<open>The derived \<open>PartialEq\<close>: a NaN differs from itself.\<close>

definition toml_eq :: "toml option \<Rightarrow> toml option \<Rightarrow> bool" where
  "toml_eq a b \<longleftrightarrow> a = b \<and> \<not> (case a of None \<Rightarrow> False | Some v \<Rightarrow> has_nan v)"

record LockPackage =
  lp_name :: string
  lp_version :: string
  lp_version_start :: nat
  lp_source :: "string option"

record ManifestTools =
  mt_toml :: "string \<Rightarrow> toml option"
  mt_toml_text :: "toml \<Rightarrow> string"
  mt_lock :: "string \<Rightarrow> LockPackage list option"
  mt_json :: "string \<Rightarrow> json option"
  mt_sha256 :: "string \<Rightarrow> string"
  mt_lower :: "string \<Rightarrow> string"
  mt_alnum :: "string \<Rightarrow> bool"

definition MAX_DEPENDENCIES :: nat where "MAX_DEPENDENCIES = 2048"

record Dependency =
  dp_name :: string
  dp_version :: string
  dp_configuration :: string
  dp_line :: nat

type_synonym Dependencies = "(string \<times> Dependency) list"

definition filename :: "string \<Rightarrow> string" where
  "filename path = last (split_on (CHR ''/'') path)"

definition UNSUPPORTED_MANIFESTS :: "string list" where
  "UNSUPPORTED_MANIFESTS =
     [''pyproject.toml'', ''requirements.txt'', ''poetry.lock'', ''uv.lock'', ''Pipfile'', ''Pipfile.lock'', ''go.mod'',
      ''go.sum'', ''Gemfile'', ''Gemfile.lock'', ''pom.xml'', ''build.gradle'', ''build.gradle.kts'', ''yarn.lock'',
      ''pnpm-lock.yaml'', ''bun.lock'', ''bun.lockb'', ''composer.json'', ''composer.lock'', ''packages.lock.json'',
      ''Package.swift'', ''Package.resolved'', ''mix.exs'', ''mix.lock'', ''deno.json'', ''deno.jsonc'', ''deno.lock'']"

definition unsupported_manifest :: "string \<Rightarrow> bool" where
  "unsupported_manifest name \<longleftrightarrow>
     name \<in> set UNSUPPORTED_MANIFESTS \<or> ends_with name ''.csproj'' \<or>
     starts_with name ''requirements'' \<and> ends_with name ''.txt''"

section \<open>Cargo manifests\<close>

text \<open>The line that declares a dependency: the loop carries the section of the current line and the
  line of the dependency's own table.\<close>

definition assigns :: "string \<Rightarrow> string \<Rightarrow> bool" where
  "assigns key line \<longleftrightarrow>
     (case strip_prefix key line of None \<Rightarrow> False | Some rest \<Rightarrow> starts_with (trim_start rest) ''='')"

definition header_section :: "string \<Rightarrow> string option" where
  "header_section line =
     map_option (\<lambda>rest. filter (\<lambda>c. c \<noteq> CHR 0x22 \<and> c \<noteq> CHR 0x27) (takeWhile (\<lambda>c. c \<noteq> CHR '']'') rest))
       (strip_prefix ''['' line)"

fun declaration_from :: "string \<Rightarrow> string \<Rightarrow> string \<Rightarrow> nat option \<Rightarrow> (nat \<times> string) list \<Rightarrow> nat option" where
  "declaration_from scope name here anchor [] = anchor"
| "declaration_from scope name here anchor ((index, raw) # lines) =
     (let line = trim_start raw in
      case header_section line of
        Some header \<Rightarrow>
          declaration_from scope name header (if header = scope @ ''.'' @ name then Some (index + 1) else anchor) lines
      | None \<Rightarrow>
          if here = scope @ ''.'' @ name \<and> assigns ''version'' line then Some (index + 1)
          else if here = scope \<and>
            (assigns name line \<or> starts_with line (CHR 0x22 # name @ [CHR 0x22]) \<or> starts_with line (CHR 0x27 # name @ [CHR 0x27]))
          then Some (index + 1)
          else declaration_from scope name here anchor lines)"

definition cargo_declaration_line :: "string \<Rightarrow> string \<Rightarrow> string \<Rightarrow> nat option" where
  "cargo_declaration_line content scope name =
     (if str_contains content [CHR 0x22, CHR 0x22, CHR 0x22] \<or> str_contains content [CHR 0x27, CHR 0x27, CHR 0x27] then None
      else declaration_from scope name [] None (enumerate 0 (str_lines content)))"

definition settings :: "ManifestTools \<Rightarrow> (string \<times> toml) list \<Rightarrow> string list \<Rightarrow> string" where
  "settings mt detail keys =
     join '';'' (concat (map (\<lambda>key. case map_of detail key of None \<Rightarrow> [] | Some v \<Rightarrow> [key @ ''='' @ mt_toml_text mt v]) keys))"

definition unwrap_str :: "string \<Rightarrow> toml option \<Rightarrow> string" where
  "unwrap_str fallback v = (case Option.bind v toml_str of Some s \<Rightarrow> s | None \<Rightarrow> fallback)"

definition cargo_entry :: "ManifestTools \<Rightarrow> string \<Rightarrow> string \<Rightarrow> string \<Rightarrow> toml \<Rightarrow> string + Dependency" where
  "cargo_entry mt content path alias entry =
     (let line = (case cargo_declaration_line content path alias of Some l \<Rightarrow> l | None \<Rightarrow> 0) in
      case entry of
        TString version \<Rightarrow> Inr \<lparr>dp_name = alias, dp_version = version, dp_configuration = [], dp_line = line\<rparr>
      | TTable detail \<Rightarrow>
          let version = unwrap_str ''[unresolved/source/workspace dependency]'' (map_of detail ''version'');
              source = settings mt detail [''git'', ''rev'', ''tag'', ''branch'', ''path'']
          in Inr \<lparr>dp_name = unwrap_str alias (map_of detail ''package''),
               dp_version = (if source = [] then version else ''[source] '' @ version @ '' '' @ source),
               dp_configuration = settings mt detail [''optional'', ''default-features'', ''features'', ''workspace'', ''registry''],
               dp_line = line\<rparr>
      | _ \<Rightarrow> Inl (path @ ''.'' @ alias @ '' has an unsupported dependency declaration''))"

fun cargo_entries ::
  "ManifestTools \<Rightarrow> string \<Rightarrow> string \<Rightarrow> (string \<times> toml) list \<Rightarrow> Dependencies \<Rightarrow> string + Dependencies" where
  "cargo_entries mt content path [] deps = Inr deps"
| "cargo_entries mt content path ((alias, entry) # entries) deps =
     and_then (cargo_entry mt content path alias entry)
       (\<lambda>dep. cargo_entries mt content path entries (map_insert (path @ ''/'' @ alias) dep deps))"

definition dependency_table :: "string \<Rightarrow> bool" where
  "dependency_table key \<longleftrightarrow> key \<in> {''dependencies'', ''dev-dependencies'', ''build-dependencies''}"

fun cargo_tables ::
  "ManifestTools \<Rightarrow> string \<Rightarrow> string \<Rightarrow> (string \<times> toml) list \<Rightarrow> Dependencies \<Rightarrow> string + Dependencies" where
  "cargo_tables mt content scope [] deps = Inr deps"
| "cargo_tables mt content scope ((key, v) # table) deps =
     (let path = (if scope = [] then key else scope @ ''.'' @ key) in
      and_then
        (if dependency_table key then
           (case v of TTable entries \<Rightarrow> cargo_entries mt content path entries deps
            | _ \<Rightarrow> Inl (path @ '' must be a dependency table''))
         else if key \<in> {''workspace'', ''target''} \<or> scope = ''target'' then
           (case v of TTable nested \<Rightarrow> cargo_tables mt content path nested deps | _ \<Rightarrow> Inr deps)
         else Inr deps)
        (cargo_tables mt content scope table))"

definition cargo_manifest :: "ManifestTools \<Rightarrow> string \<Rightarrow> string + Dependencies" where
  "cargo_manifest mt content =
     (case mt_toml mt content of
        None \<Rightarrow> Inl ''invalid TOML''
      | Some doc \<Rightarrow>
          (case toml_table doc of
             None \<Rightarrow> Inl ''manifest must be a TOML table''
           | Some table \<Rightarrow> cargo_tables mt content [] table []))"

section \<open>Cargo lock files\<close>

definition lock_dependency :: "string \<Rightarrow> LockPackage \<Rightarrow> Dependency" where
  "lock_dependency content p =
     \<lparr>dp_name = lp_name p, dp_version = lp_version p, dp_configuration = [],
      dp_line = count_list (take (lp_version_start p) content) NL + 1\<rparr>"

text \<open>\<open>groups.entry(identity).or_default().push(x)\<close> on a \<open>BTreeMap\<close>.\<close>

definition group_push :: "string \<Rightarrow> 'v \<Rightarrow> (string \<times> 'v list) list \<Rightarrow> (string \<times> 'v list) list" where
  "group_push k x groups = map_insert k ((case map_of groups k of None \<Rightarrow> [] | Some xs \<Rightarrow> xs) @ [x]) groups"

definition lock_group :: "ManifestTools \<Rightarrow> string \<Rightarrow> (string \<times> Dependency list) list \<Rightarrow> LockPackage \<Rightarrow> (string \<times> Dependency list) list" where
  "lock_group mt content groups p =
     (case lp_source p of
        None \<Rightarrow> groups
      | Some source \<Rightarrow> group_push (lp_name p @ ''@'' @ mt_sha256 mt source) (lock_dependency content p) groups)"

definition cargo_lock :: "ManifestTools \<Rightarrow> string \<Rightarrow> string + Dependencies" where
  "cargo_lock mt content =
     (case mt_lock mt content of
        None \<Rightarrow> Inl ''invalid TOML lockfile or missing package inventory/name/version''
      | Some packages \<Rightarrow>
          Inr (foldl (\<lambda>deps (identity, found).
                 foldl (\<lambda>deps dep. map_insert (''lock/'' @ identity @ ''/'' @ dp_version dep) dep deps) deps found)
               [] (foldl (lock_group mt content) [] packages)))"

section \<open>Positions in a JSON document\<close>

text \<open>\<open>json_value_end\<close>: the scanning loop over the bytes of the window, \<open>None\<close> when it runs to the end.\<close>

fun value_stop :: "bool \<Rightarrow> bool \<Rightarrow> nat \<Rightarrow> string \<Rightarrow> nat option" where
  "value_stop quoted escaped depth [] = None"
| "value_stop quoted escaped depth (b # bs) =
     (let further = (\<lambda>q e d. map_option Suc (value_stop q e d bs)) in
      if quoted then
        (if escaped then further True False depth
         else if b = CHR 0x5C then further True True depth
         else if b = CHR 0x22 then (if depth = 0 then Some 1 else further False False depth)
         else further True False depth)
      else if b = CHR 0x22 then further True False depth
      else if b = CHR ''{'' \<or> b = CHR ''['' then further False False (depth + 1)
      else if b = CHR ''}'' \<or> b = CHR '']'' then
        (if depth = 0 then Some 0 else if depth = 1 then Some 1 else further False False (depth - 1))
      else if b = CHR '','' \<and> depth = 0 then Some 0
      else further False False depth)"

definition window :: "string \<Rightarrow> nat \<Rightarrow> nat \<Rightarrow> string" where
  "window bytes start stop = drop start (take stop bytes)"

definition json_value_end :: "string \<Rightarrow> nat \<Rightarrow> nat \<Rightarrow> nat" where
  "json_value_end bytes start stop =
     (case value_stop False False 0 (window bytes start stop) of None \<Rightarrow> stop | Some n \<Rightarrow> start + n)"

definition ascii_ws :: "char \<Rightarrow> bool" where
  "ascii_ws c \<longleftrightarrow> c \<in> {CHR 0x09, CHR 0x0A, CHR 0x0C, CHR 0x0D, CHR 0x20}"

definition skip_while :: "(char \<Rightarrow> bool) \<Rightarrow> string \<Rightarrow> nat \<Rightarrow> nat \<Rightarrow> nat" where
  "skip_while P bytes cursor stop = cursor + length (takeWhile P (window bytes cursor stop))"

definition json_key :: "ManifestTools \<Rightarrow> string \<Rightarrow> string option" where
  "json_key mt s = Option.bind (mt_json mt s) as_str"

lemma value_stop_le: "value_stop q e d bs = Some n \<Longrightarrow> n \<le> length bs"
  by (induction q e d bs arbitrary: n rule: value_stop.induct) (force simp: Let_def split: if_splits)+

lemma json_value_end_bounds:
  assumes "start \<le> stop" shows "start \<le> json_value_end bytes start stop" "json_value_end bytes start stop \<le> stop"
proof -
  have "start + n \<le> stop" if "value_stop False False 0 (window bytes start stop) = Some n" for n
    using value_stop_le [OF that] assms by (cases "n = 0") (auto simp: window_def)
  then show "start \<le> json_value_end bytes start stop" "json_value_end bytes start stop \<le> stop"
    using assms by (auto simp: json_value_end_def split: option.split)
qed

lemma json_string_end:
  assumes "start < stop" "byte_at = CHR 0x22" "take 1 (drop start bytes) = [byte_at]"
  shows "start < json_value_end bytes start stop"
proof -
  obtain rest where "drop start bytes = CHR 0x22 # rest" using assms by (cases "drop start bytes") auto
  then have "window bytes start stop = CHR 0x22 # take (stop - start - 1) rest"
    using assms by (simp add: window_def drop_take take_Cons')
  then show ?thesis using assms by (auto simp: json_value_end_def split: option.split)
qed

lemma skip_while_bounds:
  assumes "cursor \<le> stop" shows "cursor \<le> skip_while P bytes cursor stop" "skip_while P bytes cursor stop \<le> stop"
proof -
  have "length (takeWhile P (window bytes cursor stop)) \<le> stop - cursor"
    by (rule order_trans [OF length_takeWhile_le]) (simp add: window_def)
  then show "cursor \<le> skip_while P bytes cursor stop" "skip_while P bytes cursor stop \<le> stop"
    using assms by (auto simp: skip_while_def)
qed

text \<open>The members of an object from the cursor on: the start of the wanted key, and the start and end
  of its value. The outer \<open>None\<close> is the early return, at a key that does not decode or comes twice.\<close>

function find_member ::
  "ManifestTools \<Rightarrow> string \<Rightarrow> nat \<Rightarrow> string \<Rightarrow> (nat \<times> nat \<times> nat) option \<Rightarrow> nat \<Rightarrow> (nat \<times> nat \<times> nat) option option" where
  "find_member mt content stop wanted found cursor =
     (if stop \<le> cursor then Some found
      else
        let key_start = skip_while (\<lambda>c. ascii_ws c \<or> c = CHR '','') content cursor stop in
        if take 1 (drop key_start content) \<noteq> [CHR 0x22] then Some found
        else
          let key_end = json_value_end content key_start stop in
          case json_key mt (window content key_start key_end) of
            None \<Rightarrow> None
          | Some key \<Rightarrow>
              let value_start = skip_while (\<lambda>c. ascii_ws c \<or> c = CHR '':'') content key_end stop;
                  value_end = json_value_end content value_start stop
              in if key = wanted then
                   (if found \<noteq> None then None
                    else find_member mt content stop wanted (Some (key_start, value_start, value_end)) value_end)
                 else find_member mt content stop wanted found value_end)"
  by pat_completeness auto

definition member_end :: "string \<Rightarrow> nat \<Rightarrow> nat \<Rightarrow> nat" where
  "member_end content stop cursor =
     (let key_end = json_value_end content (skip_while (\<lambda>c. ascii_ws c \<or> c = CHR '','') content cursor stop) stop
      in json_value_end content (skip_while (\<lambda>c. ascii_ws c \<or> c = CHR '':'') content key_end stop) stop)"

text \<open>Every member moves the cursor on, so the loop ends on any bytes.\<close>

lemma member_progress:
  assumes "cursor < stop" "take 1 (drop (skip_while (\<lambda>c. ascii_ws c \<or> c = CHR '','') content cursor stop) content) = [CHR 0x22]"
  shows "cursor < member_end content stop cursor" "member_end content stop cursor \<le> stop"
proof -
  let ?k = "skip_while (\<lambda>c. ascii_ws c \<or> c = CHR '','') content cursor stop"
  let ?e = "json_value_end content ?k stop"
  have k: "cursor \<le> ?k" "?k \<le> stop" using assms skip_while_bounds by auto
  have e: "?k \<le> ?e" "?e \<le> stop" using json_value_end_bounds k by auto
  have "cursor < ?e"
    using json_string_end [of ?k stop _ content] assms k e by (cases "?k = stop") auto
  moreover have "?e \<le> member_end content stop cursor" "member_end content stop cursor \<le> stop"
    using e skip_while_bounds [of ?e stop] json_value_end_bounds [of _ stop] unfolding member_end_def Let_def
    by (meson order_trans)+
  ultimately show "cursor < member_end content stop cursor" "member_end content stop cursor \<le> stop" by auto
qed

termination find_member
  by (relation "measure (\<lambda>(mt, content, stop, wanted, found, cursor). stop - cursor)")
    (use member_progress in \<open>auto simp: member_end_def Let_def not_le intro!: diff_less_mono2\<close>)

declare find_member.simps [simp del]

fun locate_keys :: "ManifestTools \<Rightarrow> string \<Rightarrow> nat \<Rightarrow> nat \<Rightarrow> nat \<Rightarrow> string list \<Rightarrow> nat option" where
  "locate_keys mt content start stop anchor [] = Some anchor"
| "locate_keys mt content start stop anchor (wanted # keys) =
     (let cursor = skip_while ascii_ws content start stop in
      if take 1 (drop cursor content) \<noteq> [CHR ''{''] then None
      else case find_member mt content stop wanted None (cursor + 1) of
          Some (Some (key_start, value_start, value_end)) \<Rightarrow> locate_keys mt content value_start value_end key_start keys
        | _ \<Rightarrow> None)"

definition json_property_line :: "ManifestTools \<Rightarrow> string \<Rightarrow> string list \<Rightarrow> nat option" where
  "json_property_line mt content keys =
     (if keys = [] then None
      else map_option (\<lambda>anchor. count_list (take anchor content) NL + 1)
        (locate_keys mt content 0 (length content) 0 keys))"

section \<open>npm manifests and lock files\<close>

definition npm_alias :: "string \<Rightarrow> string \<Rightarrow> string \<times> string" where
  "npm_alias name version =
     (case Option.bind (strip_prefix ''npm:'' version) (rsplit_once (CHR ''@'')) of
        Some (actual, requirement) \<Rightarrow> if actual \<noteq> [] \<and> requirement \<noteq> [] then (actual, requirement) else (name, version)
      | None \<Rightarrow> (name, version))"

text \<open>An entry of either kind: its name and version, an alias resolved, and the line of the property.\<close>

definition npm_dependency :: "ManifestTools \<Rightarrow> string \<Rightarrow> string \<times> string \<Rightarrow> string list \<Rightarrow> Dependency" where
  "npm_dependency mt content = (\<lambda>(name, version) keys.
     \<lparr>dp_name = name, dp_version = version, dp_configuration = [],
      dp_line = (case json_property_line mt content keys of Some l \<Rightarrow> l | None \<Rightarrow> 0)\<rparr>)"

fun npm_scope :: "ManifestTools \<Rightarrow> string \<Rightarrow> string \<Rightarrow> (string \<times> json) list \<Rightarrow> Dependencies \<Rightarrow> string + Dependencies" where
  "npm_scope mt content scope [] deps = Inr deps"
| "npm_scope mt content scope ((name, v) # entries) deps =
     (case as_str v of
        None \<Rightarrow> Inl (scope @ ''.'' @ name @ '' must be a string'')
      | Some version \<Rightarrow>
          npm_scope mt content scope entries
            (map_insert (scope @ ''/'' @ name) (npm_dependency mt content (npm_alias name version) [scope, name]) deps))"

fun npm_scopes :: "ManifestTools \<Rightarrow> string \<Rightarrow> json \<Rightarrow> string list \<Rightarrow> Dependencies \<Rightarrow> string + Dependencies" where
  "npm_scopes mt content doc [] deps = Inr deps"
| "npm_scopes mt content doc (scope # scopes) deps =
     (case json_get scope doc of
        None \<Rightarrow> npm_scopes mt content doc scopes deps
      | Some v \<Rightarrow>
          (case as_object v of
             None \<Rightarrow> Inl (scope @ '' must be an object'')
           | Some entries \<Rightarrow> and_then (npm_scope mt content scope entries deps) (npm_scopes mt content doc scopes)))"

definition NPM_SCOPES :: "string list" where
  "NPM_SCOPES = [''dependencies'', ''devDependencies'', ''peerDependencies'', ''optionalDependencies'']"

definition npm_manifest :: "ManifestTools \<Rightarrow> string \<Rightarrow> string + Dependencies" where
  "npm_manifest mt content =
     (case mt_json mt content of
        None \<Rightarrow> Inl ''invalid JSON manifest''
      | Some doc \<Rightarrow>
          if as_object doc = None then Inl ''package.json must be an object''
          else npm_scopes mt content doc NPM_SCOPES [])"

text \<open>\<open>path.rsplit(p).next()\<close>: what follows the last occurrence of \<open>p\<close>.\<close>

definition after_last :: "string \<Rightarrow> string \<Rightarrow> string" where
  "after_last p s =
     (case find (\<lambda>i. prefix p (drop i s)) (rev [0..<length s]) of Some i \<Rightarrow> drop (i + length p) s | None \<Rightarrow> s)"

definition lock_entry :: "string \<Rightarrow> json \<Rightarrow> bool" where
  "lock_entry path v \<longleftrightarrow>
     path \<noteq> [] \<and> (starts_with path ''node_modules/'' \<or> str_contains path ''/node_modules/'') \<and>
     json_get ''link'' v \<noteq> Some (JBool True)"

definition lock_insert :: "ManifestTools \<Rightarrow> string \<Rightarrow> Dependencies \<Rightarrow> string \<times> json \<Rightarrow> Dependencies" where
  "lock_insert mt content deps = (\<lambda>(path, v).
     if \<not> lock_entry path v then deps
     else
       let name = (case Option.bind (json_get ''name'' v) as_str of Some n \<Rightarrow> n | None \<Rightarrow> after_last ''node_modules/'' path);
           version = (case Option.bind (json_get ''version'' v) as_str of
             Some x \<Rightarrow> x | None \<Rightarrow> ''[unresolved workspace/link dependency]'')
       in map_insert (''lock/'' @ path) (npm_dependency mt content (name, version) [''packages'', path, ''version'']) deps)"

text \<open>Lock files of version 1 nest their dependencies; \<open>keys\<close> is the path of the object read.\<close>

lemma member_size: "map_of kvs k = Some v \<Longrightarrow> size v < size (JObj kvs)"
  by (induction kvs) (auto split: if_splits)

function npm_v1 :: "ManifestTools \<Rightarrow> string \<Rightarrow> json \<Rightarrow> string \<Rightarrow> Dependencies \<Rightarrow> string list \<Rightarrow> nat \<Rightarrow> string + Dependencies"
  and npm_v1_entries ::
    "ManifestTools \<Rightarrow> string \<Rightarrow> (string \<times> json) list \<Rightarrow> string \<Rightarrow> Dependencies \<Rightarrow> string list \<Rightarrow> nat \<Rightarrow> string + Dependencies"
where
  "npm_v1 mt content v scope deps keys depth =
     (if 32 < depth \<or> MAX_DEPENDENCIES < length deps then Inl ''lock dependency nesting/count exceeds limits''
      else case v of
          JObj entries \<Rightarrow> npm_v1_entries mt content entries scope deps keys depth
        | _ \<Rightarrow> Inl ''lock dependencies must be an object'')"
| "npm_v1_entries mt content [] scope deps keys depth = Inr deps"
| "npm_v1_entries mt content ((name, v) # entries) scope deps keys depth =
     (case v of
        JObj kvs \<Rightarrow>
          (case Option.bind (map_of kvs ''version'') as_str of
             None \<Rightarrow> Inl ''lock dependency version is missing''
           | Some version \<Rightarrow>
               let path = scope @ ''/node_modules/'' @ name;
                   deps' = map_insert path (npm_dependency mt content (npm_alias name version) (keys @ [name, ''version''])) deps
               in and_then
                    (case map_of kvs ''dependencies'' of
                       None \<Rightarrow> Inr deps'
                     | Some nested \<Rightarrow> npm_v1 mt content nested path deps' (keys @ [name, ''dependencies'']) (depth + 1))
                    (\<lambda>deps''. npm_v1_entries mt content entries scope deps'' keys depth))
      | _ \<Rightarrow> Inl ''lock dependency version is missing'')"
  by pat_completeness auto

termination
proof (relation "measure (case_sum (\<lambda>(mt, content, v, _). 2 * size v + 1) (\<lambda>(mt, content, entries, _). 2 * size (JObj entries)))",
    goal_cases)
  case (3 mt content name v entries scope deps keys depth kvs version path deps' nested)
  then show ?case using member_size [of kvs "''dependencies''" nested] by simp
qed auto

declare npm_v1.simps [simp del] npm_v1_entries.simps [simp del]

definition lock_version_ok :: "json \<Rightarrow> bool" where
  "lock_version_ok doc \<longleftrightarrow>
     (case json_get ''lockfileVersion'' doc of None \<Rightarrow> True | Some v \<Rightarrow> v \<in> {JNum (Fin 1), JNum (Fin 2), JNum (Fin 3)})"

definition npm_lock :: "ManifestTools \<Rightarrow> string \<Rightarrow> string + Dependencies" where
  "npm_lock mt content =
     (case mt_json mt content of
        None \<Rightarrow> Inl ''invalid JSON lockfile''
      | Some doc \<Rightarrow>
          if \<not> lock_version_ok doc then Inl ''unsupported npm lockfileVersion (supported: 1..=3)''
          else case json_get ''packages'' doc of
              Some v \<Rightarrow>
                (case as_object v of
                   None \<Rightarrow> Inl ''lock packages must be an object''
                 | Some packages \<Rightarrow> Inr (foldl (lock_insert mt content) [] packages))
            | None \<Rightarrow>
                (case json_get ''dependencies'' doc of
                   Some entries \<Rightarrow> npm_v1 mt content entries ''lock'' [] [''dependencies''] 0
                 | None \<Rightarrow> Inl ''package-lock.json has no supported package inventory''))"

definition parse_manifest :: "ManifestTools \<Rightarrow> string \<Rightarrow> string \<Rightarrow> string + Dependencies" where
  "parse_manifest mt name content =
     (if blank content then Inr []
      else and_then
        (if name = ''Cargo.toml'' then cargo_manifest mt content
         else if name = ''Cargo.lock'' then cargo_lock mt content
         else if name = ''package.json'' then npm_manifest mt content
         else if name = ''package-lock.json'' \<or> name = ''npm-shrinkwrap.json'' then npm_lock mt content
         else Inl ''unsupported manifest'')
        (\<lambda>deps. if MAX_DEPENDENCIES < length deps then Inl (''dependency count exceeds '' @ show_nat MAX_DEPENDENCIES) else Inr deps))"

section \<open>A line cited is the line of the key\<close>

definition key_at :: "ManifestTools \<Rightarrow> string \<Rightarrow> string \<Rightarrow> nat \<Rightarrow> bool" where
  "key_at mt content key start \<longleftrightarrow>
     take 1 (drop start content) = [CHR 0x22] \<and> (\<exists>stop. json_key mt (window content start stop) = Some key)"

lemma find_member_key:
  "find_member mt content stop wanted found cursor = Some (Some (start, value_start, value_end)) \<Longrightarrow>
   found = Some (start, value_start, value_end) \<or> key_at mt content wanted start"
proof (induction mt content stop wanted found cursor rule: find_member.induct)
  case (1 mt content stop wanted found cursor)
  show ?case
    using 1(3) by (subst (asm) find_member.simps)
      (auto simp: Let_def key_at_def split: if_splits option.splits dest!: 1(1) [rotated -1] 1(2) [rotated -1])
qed

lemma locate_keys_key:
  "locate_keys mt content start stop anchor keys = Some found_at \<Longrightarrow> keys \<noteq> [] \<Longrightarrow> key_at mt content (last keys) found_at"
proof (induction keys arbitrary: start stop anchor)
  case (Cons wanted keys)
  let ?cursor = "skip_while ascii_ws content start stop"
  obtain key_start value_start value_end where
    found: "find_member mt content stop wanted None (?cursor + 1) = Some (Some (key_start, value_start, value_end))"
    and rest: "locate_keys mt content value_start value_end key_start keys = Some found_at"
    using Cons.prems(1) by (auto simp: Let_def split: if_splits option.splits)
  show ?case
  proof (cases "keys = []")
    case True
    then show ?thesis using find_member_key [OF found] rest by simp
  next
    case False
    then show ?thesis using Cons.IH [OF rest] by simp
  qed
qed simp

text \<open>
  A line cited for a property of a JSON document is the line where its key stands: a string begins
  there that decodes to the last key of the path, whatever bytes the document holds.
\<close>

theorem json_property_line_at_key:
  "case json_property_line mt content keys of
     None \<Rightarrow> True
   | Some line \<Rightarrow> \<exists>start. key_at mt content (last keys) start \<and> line = count_list (take start content) NL + 1"
  by (auto simp: json_property_line_def split: option.split dest: locate_keys_key)

end
