(* ===== verification/Upgrades.thy ===== *)
theory Upgrades
  imports Manifests Feedback
begin

text \<open>
  Dependency triage (\<open>review/upgrades.rs\<close>): the pairing of the versions of a Cargo lock file, the risk
  signal of a version change, the release notes that a change cites, and the changes, findings and
  unknowns of every manifest that a review changes.

  \<open>expect\<close> is the option type: \<open>None\<close> is a panic, and \<open>pairing_total\<close> shows that there is none.
\<close>

section \<open>Versions\<close>

text \<open>\<open>part.parse::<u64>()\<close> on ASCII digits.\<close>

definition version_part :: "string \<Rightarrow> nat option" where
  "version_part part = (if digits_val part < 2 ^ 64 then Some (digits_val part) else None)"

definition numeric_part :: "string \<Rightarrow> bool" where
  "numeric_part part \<longleftrightarrow>
     part \<noteq> [] \<and> (length part = 1 \<or> \<not> starts_with part ''0'') \<and> list_all is_digit part"

definition exact_version :: "string \<Rightarrow> string option" where
  "exact_version raw0 =
     (let raw = (case strip_prefix ''v'' (trim raw0) of Some rest \<Rightarrow> rest | None \<Rightarrow> trim raw0);
          parts = split_on (CHR ''.'') raw
      in if length parts = 3 \<and> list_all numeric_part parts then Some raw else None)"

definition strip_requirement :: "string \<Rightarrow> string" where
  "strip_requirement raw =
     (if raw \<noteq> [] \<and> hd raw \<in> {CHR ''^'', CHR ''~'', CHR ''=''} then tl raw else raw)"

definition optional_part :: "string list \<Rightarrow> nat \<Rightarrow> nat option" where
  "optional_part parts i = (if i < length parts then version_part (parts ! i) else Some 0)"

definition semver :: "string \<Rightarrow> (nat \<times> nat \<times> nat) option" where
  "semver raw =
     (let parts = split_on (CHR ''.'') (strip_requirement (trim raw)) in
      if 3 < length parts \<or> \<not> list_all numeric_part parts then None
      else case (optional_part parts 0, optional_part parts 1, optional_part parts 2) of
          (Some major, Some minor, Some patch) \<Rightarrow> Some (major, minor, patch)
        | _ \<Rightarrow> None)"

definition display_version :: "string \<Rightarrow> string" where
  "display_version raw = (if semver raw \<noteq> None then raw else ''[unresolved or unsupported requirement]'')"

fun version_less :: "nat \<times> nat \<times> nat \<Rightarrow> nat \<times> nat \<times> nat \<Rightarrow> bool" where
  "version_less (a1, a2, a3) (b1, b2, b3) \<longleftrightarrow> a1 < b1 \<or> a1 = b1 \<and> (a2 < b2 \<or> a2 = b2 \<and> a3 < b3)"

fun triple_risk :: "nat \<times> nat \<times> nat \<Rightarrow> nat \<times> nat \<times> nat \<Rightarrow> string" where
  "triple_risk (a1, a2, a3) (b1, b2, b3) =
     (if version_less (b1, b2, b3) (a1, a2, a3) then ''downgrade''
      else if a1 \<noteq> b1 then ''majorChange''
      else if a1 = 0 \<and> (a2 \<noteq> b2 \<or> a2 = 0 \<and> a3 \<noteq> b3) then ''preOneChange''
      else ''semverCompatibleSignal'')"

definition version_risk :: "string \<Rightarrow> string \<Rightarrow> string" where
  "version_risk old new =
     (case (semver old, semver new) of (Some a, Some b) \<Rightarrow> triple_risk a b | _ \<Rightarrow> ''unknown'')"

section \<open>Pairing the versions of a lock file\<close>

definition fresh_groups :: "Dependencies \<Rightarrow> Dependencies \<Rightarrow> (string \<times> string list) list" where
  "fresh_groups mine theirs =
     foldl (\<lambda>groups key. case rsplit_once (CHR ''/'') key of
         Some (identity, _) \<Rightarrow> group_push identity key groups
       | None \<Rightarrow> groups)
       [] (filter (\<lambda>key. map_of theirs key = None) (map fst mine))"

definition rename_key :: "string \<Rightarrow> string \<Rightarrow> Dependencies \<Rightarrow> Dependencies option" where
  "rename_key from_key to_key deps =
     map_option (\<lambda>dep. map_insert to_key dep (map_remove from_key deps)) (map_of deps from_key)"

type_synonym Pairing = "(Dependencies \<times> Dependencies \<times> string list) option"

definition pair_group :: "string \<Rightarrow> (string \<times> string list) list \<Rightarrow> Pairing \<Rightarrow> string \<times> string list \<Rightarrow> Pairing" where
  "pair_group path new_groups st = (\<lambda>(identity, old).
     Option.bind st (\<lambda>(before, current, unknowns).
       case map_of new_groups identity of
         None \<Rightarrow> Some (before, current, unknowns)
       | Some new \<Rightarrow>
           if length old = 1 \<and> length new = 1 then
             Option.bind (rename_key (hd old) (identity @ ''/upgrade'') before) (\<lambda>before'.
             Option.bind (rename_key (hd new) (identity @ ''/upgrade'') current) (\<lambda>current'.
               Some (before', current', unknowns)))
           else Some (before, current, unknowns @
             [path @ '': parallel resolved versions cannot be paired uniquely; additions/removals are reported without inventing upgrade pairs''])))"

definition pair_cargo_versions :: "Dependencies \<Rightarrow> Dependencies \<Rightarrow> string list \<Rightarrow> string \<Rightarrow> Pairing" where
  "pair_cargo_versions before current unknowns path =
     foldl (pair_group path (fresh_groups current before)) (Some (before, current, unknowns)) (fresh_groups before current)"

section \<open>Release notes\<close>

definition location :: "string \<Rightarrow> string \<Rightarrow> string \<Rightarrow> nat \<Rightarrow> UpgradeEvidence" where
  "location path snapshot txt line =
     (if 0 < line \<and> line \<le> length (str_lines txt)
      then \<lparr>ue_path = path, ue_line = line, ue_snapshot = snapshot, ue_text = str_lines txt ! (line - 1)\<rparr>
      else \<lparr>ue_path = path, ue_line = 0, ue_snapshot = snapshot, ue_text = []\<rparr>)"

definition heading_level :: "string \<Rightarrow> nat" where
  "heading_level line = length (takeWhile (\<lambda>c. c = CHR ''#'') (trim_start line))"

definition heading_tokens :: "ManifestTools \<Rightarrow> string \<Rightarrow> string list" where
  "heading_tokens mt line =
     map concat (split_when (\<lambda>g. \<not> (mt_alnum mt g \<or> g \<in> {''.'', ''_'', ''-'', ''/'', ''@''})) (chars line))"

definition token_version :: "string \<Rightarrow> string" where
  "token_version token = (case strip_prefix ''v'' token of Some rest \<Rightarrow> rest | None \<Rightarrow> token)"

text \<open>The lines of the section that a heading opens, at most twelve, with their offsets from it.\<close>

fun section_lines :: "nat \<Rightarrow> (nat \<times> string) list \<Rightarrow> nat list" where
  "section_lines level [] = []"
| "section_lines level ((index, body) # lines) =
     (if 0 < heading_level body \<and> heading_level body \<le> level then []
      else (if blank body then [] else [index]) @ section_lines level lines)"

definition note_file :: "ManifestTools \<Rightarrow> SourceFile \<Rightarrow> bool" where
  "note_file mt f \<longleftrightarrow>
     list_ex (\<lambda>word. str_contains (filename (mt_lower mt (sf_path f))) word) [''changelog'', ''changes'', ''release'']"

definition identity_path :: "ManifestTools \<Rightarrow> string \<Rightarrow> string \<Rightarrow> bool" where
  "identity_path mt name path \<longleftrightarrow>
     (let lower = mt_lower mt path in
      mt_lower mt name \<in> set (split_on (CHR ''/'') lower) \<or> starts_with (filename lower) (mt_lower mt name @ ''-''))"

definition note_heading :: "ManifestTools \<Rightarrow> string \<Rightarrow> string \<Rightarrow> bool \<Rightarrow> string \<Rightarrow> bool" where
  "note_heading mt name version in_path line \<longleftrightarrow>
     (let tokens = heading_tokens mt line in
      starts_with (trim_start line) ''#'' \<and> list_ex (\<lambda>t. token_version t = version) tokens \<and>
      (in_path \<or> list_ex (\<lambda>t. eq_ignore_ascii_case t name) tokens))"

definition file_notes :: "ManifestTools \<Rightarrow> string \<Rightarrow> string \<Rightarrow> SourceFile \<Rightarrow> UpgradeEvidence list" where
  "file_notes mt name version f =
     (let lines = str_lines (sf_content f); here = (\<lambda>i. location (sf_path f) ''current'' (sf_content f) (i + 1)) in
      concat (map (\<lambda>(index, line).
          if note_heading mt name version (identity_path mt name (sf_path f)) line
          then here index # map here (section_lines (heading_level line) (take 12 (drop (index + 1) (enumerate 0 lines))))
          else [])
        (enumerate 0 lines)))"

definition release_notes :: "ManifestTools \<Rightarrow> string \<Rightarrow> string \<Rightarrow> SourceFile list \<Rightarrow> UpgradeEvidence list" where
  "release_notes mt name version files = concat (map (file_notes mt name version) (filter (note_file mt) files))"

definition breaking_note :: "ManifestTools \<Rightarrow> UpgradeEvidence \<Rightarrow> bool" where
  "breaking_note mt e \<longleftrightarrow>
     (let txt = mt_lower mt (ue_text e) in
      \<not> list_ex (str_contains txt) [''no breaking'', ''not breaking'', ''non-breaking'', ''no incompatible'', ''not incompatible''] \<and>
      list_ex (str_contains txt) [''breaking'', ''removed'', ''migration required'', ''incompatible''])"

section \<open>The changes of a manifest\<close>

definition same_dependency :: "Dependency \<Rightarrow> Dependency \<Rightarrow> bool" where
  "same_dependency a b \<longleftrightarrow>
     dp_name a = dp_name b \<and> dp_version a = dp_version b \<and> dp_configuration a = dp_configuration b"

definition current_text :: "RepositoryChange \<Rightarrow> string" where
  "current_text change = (case cg_content change of Some content \<Rightarrow> content | None \<Rightarrow> [])"

definition kind_of :: "Dependency option \<Rightarrow> Dependency option \<Rightarrow> string" where
  "kind_of old new =
     (case (old, new) of (None, _) \<Rightarrow> ''added'' | (_, None) \<Rightarrow> ''removed'' | _ \<Rightarrow> ''changed'')"

definition risk_of :: "Dependency option \<Rightarrow> Dependency option \<Rightarrow> string" where
  "risk_of old new =
     (case (old, new) of
        (_, None) \<Rightarrow> ''removal''
      | (None, _) \<Rightarrow> ''newDependency''
      | (Some a, Some b) \<Rightarrow>
          if dp_version a = dp_version b \<and> dp_configuration a \<noteq> dp_configuration b then ''unknown''
          else version_risk (dp_version a) (dp_version b))"

definition change_evidence :: "RepositoryChange \<Rightarrow> Dependency option \<Rightarrow> Dependency option \<Rightarrow> UpgradeEvidence list" where
  "change_evidence change old new =
     (case old of None \<Rightarrow> [] | Some d \<Rightarrow> [location (base_path change) ''base'' (cg_base change) (dp_line d)]) @
     (case new of None \<Rightarrow> [] | Some d \<Rightarrow> [location (cg_path change) ''current'' (current_text change) (dp_line d)])"

definition change_notes :: "ManifestTools \<Rightarrow> Dependency \<Rightarrow> Dependency option \<Rightarrow> SourceFile list \<Rightarrow> UpgradeEvidence list" where
  "change_notes mt dep new files =
     (case Option.bind new (exact_version \<circ> dp_version) of
        None \<Rightarrow> []
      | Some version \<Rightarrow> release_notes mt (dp_name dep) version files)"

definition change_unknowns ::
  "RepositoryChange \<Rightarrow> string \<Rightarrow> Dependency \<Rightarrow> Dependency option \<Rightarrow> string \<Rightarrow> UpgradeEvidence list \<Rightarrow> UpgradeEvidence list \<Rightarrow> string list" where
  "change_unknowns change scope dep new risk evidence changelog =
     map (\<lambda>e. ue_path e @ '' ('' @ ue_snapshot e @ ''): '' @ dp_name dep @ '' ('' @ scope @
         '') declaration line could not be located; parsed dependency metadata is retained without an exact citation'')
       (filter (\<lambda>e. ue_line e = 0) evidence) @
     (if new \<noteq> None \<and> changelog = [] then
        [cg_path change @ '': '' @ dp_name dep @ '' ('' @ scope @
         '') has no locally matched dependency/version changelog; breaking behavior is unknown'']
      else if changelog \<noteq> [] then
        [cg_path change @ '': '' @ dp_name dep @
         '' changelog evidence covers the target release only; intervening releases and downstream usage remain unverified'']
      else []) @
     (if risk = ''unknown'' \<or> (case new of None \<Rightarrow> False | Some d \<Rightarrow> semver (dp_version d) = None) then
        [cg_path change @ '': '' @ dp_name dep @ '' ('' @ scope @
         '') version/source/configuration is unresolved, ambiguous, changed without version evidence, or non-semver; compatibility is unknown'']
      else [])"

definition cited :: "UpgradeEvidence \<Rightarrow> string" where
  "cited e =
     (if ue_line e = 0 then ue_path e @ '' ('' @ ue_snapshot e @ ''; declaration line unavailable)''
      else ue_path e @ '':'' @ show_nat (ue_line e) @ '' ('' @ ue_snapshot e @ '') '' @ ue_text e)"

definition ADVISORY :: "string set" where
  "ADVISORY = {''removal'', ''majorChange'', ''preOneChange'', ''downgrade'', ''changelogBreakingSignal''}"

definition current_line :: "UpgradeEvidence list \<Rightarrow> nat" where
  "current_line evidence = (case find (\<lambda>e. ue_snapshot e = ''current'') (rev evidence) of None \<Rightarrow> 0 | Some e \<Rightarrow> ue_line e)"

definition upgrade_finding :: "RepositoryChange \<Rightarrow> DependencyChange \<Rightarrow> Finding" where
  "upgrade_finding change item =
     (let line = current_line (dc_evidence item);
          f = default_finding\<lparr>f_file := cg_path change, f_line := line, f_dimension := Compatibility,
            f_action := Comment, f_mechanism := ''dependencyUpgrade'', f_probability := Fin 1,
            f_location_confidence := (if line = 0 then Fin 0 else Fin 1), f_mechanism_confidence := Fin 1,
            f_severity := Fin 1, f_severity_confidence := Fin 1,
            f_evidence := join [NL] (map cited (dc_evidence item @ dc_changelog item)),
            f_title := Some (''Review '' @ dc_ecosystem item @ '' dependency '' @ dc_dependency item @ '': '' @ dc_risk item),
            f_why := Some ''Visible version/removal/release-note evidence requires compatibility review; this signal does not establish a runtime defect or estimate breakage probability.'',
            f_fix := Some ''Check affected callers and all intervening upstream release notes; apply required migrations or retain the previous dependency until compatibility is verified.'',
            f_test := Some ''Build the affected packages and run API/behavior regression tests against the new resolved dependency; verify removed dependencies have no remaining consumers.''\<rparr>
      in f\<lparr>f_fingerprint := fingerprint f\<rparr>)"

definition change_item ::
  "ManifestTools \<Rightarrow> RepositoryChange \<Rightarrow> string \<Rightarrow> string \<Rightarrow> Dependency \<Rightarrow> Dependency option \<Rightarrow> Dependency option \<Rightarrow>
    SourceFile list \<Rightarrow> DependencyChange" where
  "change_item mt change ecosystem scope dep old new files =
     (let changelog = change_notes mt dep new files in
      \<lparr>dc_ecosystem = ecosystem, dc_dependency = dp_name dep, dc_scope = scope, dc_kind = kind_of old new,
       dc_risk = (if list_ex (breaking_note mt) changelog then ''changelogBreakingSignal'' else risk_of old new),
       dc_old_version = map_option (display_version \<circ> dp_version) old,
       dc_new_version = map_option (display_version \<circ> dp_version) new,
       dc_evidence = change_evidence change old new, dc_changelog = changelog\<rparr>)"

definition record_change ::
  "ManifestTools \<Rightarrow> RepositoryChange \<Rightarrow> string \<Rightarrow> SourceFile list \<Rightarrow> string \<Rightarrow> Dependency option \<Rightarrow> Dependency option \<Rightarrow>
    UpgradeSummary \<Rightarrow> UpgradeSummary" where
  "record_change mt change ecosystem files scope old new summary =
     (case (case new of Some d \<Rightarrow> Some d | None \<Rightarrow> old) of
        None \<Rightarrow> summary
      | Some dep \<Rightarrow>
          let item = change_item mt change ecosystem scope dep old new files in
          summary\<lparr>us_unknowns := us_unknowns summary @
                change_unknowns change scope dep new (risk_of old new) (dc_evidence item) (dc_changelog item),
              us_findings := us_findings summary @ (if dc_risk item \<in> ADVISORY then [upgrade_finding change item] else []),
              us_changes := us_changes summary @ [item]\<rparr>)"

definition compare_scope ::
  "ManifestTools \<Rightarrow> RepositoryChange \<Rightarrow> string \<Rightarrow> SourceFile list \<Rightarrow> Dependencies \<Rightarrow> Dependencies \<Rightarrow> UpgradeSummary \<Rightarrow> string \<Rightarrow>
    UpgradeSummary" where
  "compare_scope mt change ecosystem files before current summary scope =
     (case (map_of before scope, map_of current scope) of
        (Some a, Some b) \<Rightarrow>
          if same_dependency a b then summary
          else if dp_name a \<noteq> dp_name b then
            record_change mt change ecosystem files scope None (Some b)
              (record_change mt change ecosystem files scope (Some a) None summary)
          else record_change mt change ecosystem files scope (Some a) (Some b) summary
      | (old, new) \<Rightarrow> record_change mt change ecosystem files scope old new summary)"

definition scopes_of :: "Dependencies \<Rightarrow> Dependencies \<Rightarrow> string list" where
  "scopes_of before current = sorted_list_of_set (set (map fst before) \<union> set (map fst current))"

section \<open>The triage of a review\<close>

definition CARGO_SETTINGS :: "string list" where "CARGO_SETTINGS = [''patch'', ''replace'', ''features'']"

definition NPM_SETTINGS :: "string list" where
  "NPM_SETTINGS = [''overrides'', ''resolutions'', ''workspaces'', ''peerDependenciesMeta'']"

definition changed_setting :: "RepositoryChange \<Rightarrow> string \<Rightarrow> string \<Rightarrow> string" where
  "changed_setting change ecosystem key =
     cg_path change @ '': changed '' @ ecosystem @ '' '' @ key @
       '' resolution/configuration is not resolved by dependency triage; compatibility is unknown''"

definition unsupported_configuration :: "ManifestTools \<Rightarrow> RepositoryChange \<Rightarrow> string \<Rightarrow> string list" where
  "unsupported_configuration mt change name =
     (if name = ''Cargo.toml'' then
        let old = mt_toml mt (cg_base change); new = mt_toml mt (current_text change)
        in map (changed_setting change ''Cargo'')
          (filter (\<lambda>key. \<not> toml_eq (Option.bind old (toml_get key)) (Option.bind new (toml_get key))) CARGO_SETTINGS)
      else if name = ''package.json'' then
        let old = mt_json mt (cg_base change); new = mt_json mt (current_text change)
        in map (changed_setting change ''npm'')
          (filter (\<lambda>key. Option.bind old (json_get key) \<noteq> Option.bind new (json_get key)) NPM_SETTINGS)
      else [])"

definition ecosystem_of :: "string \<Rightarrow> string option" where
  "ecosystem_of name =
     (if name \<in> {''Cargo.toml'', ''Cargo.lock''} then Some ''cargo''
      else if name \<in> {''package.json'', ''package-lock.json'', ''npm-shrinkwrap.json''} then Some ''npm''
      else None)"

definition add_unknowns :: "string list \<Rightarrow> UpgradeSummary \<Rightarrow> UpgradeSummary" where
  "add_unknowns us summary = summary\<lparr>us_unknowns := us_unknowns summary @ us\<rparr>"

definition parse_failure :: "RepositoryChange \<Rightarrow> string \<Rightarrow> string + Dependencies \<Rightarrow> string list" where
  "parse_failure change snapshot parsed =
     (case parsed of
        Inl reason \<Rightarrow> [cg_path change @ '' ('' @ snapshot @ ''): '' @ reason @ ''; no dependency comparison was inferred'']
      | Inr _ \<Rightarrow> [])"

text \<open>The two sides of a manifest, its versions paired when it is a Cargo lock file.\<close>

definition paired_sides :: "string \<Rightarrow> RepositoryChange \<Rightarrow> Dependencies \<Rightarrow> Dependencies \<Rightarrow> Pairing" where
  "paired_sides name change before current =
     (if name = ''Cargo.lock'' then pair_cargo_versions before current [] (cg_path change) else Some (before, current, []))"

definition assess_change :: "ManifestTools \<Rightarrow> SourceFile list \<Rightarrow> UpgradeSummary \<Rightarrow> RepositoryChange \<Rightarrow> UpgradeSummary option" where
  "assess_change mt files summary change =
     (let name = filename (cg_path change) in
      case ecosystem_of name of
        None \<Rightarrow> Some (add_unknowns (if unsupported_manifest name
          then [cg_path change @ '': dependency ecosystem or lockfile is unsupported; upgrade risk is unknown''] else []) summary)
      | Some ecosystem \<Rightarrow>
          (case (parse_manifest mt name (cg_base change), parse_manifest mt name (current_text change)) of
             (Inr before, Inr current) \<Rightarrow>
               map_option (\<lambda>(before', current', us).
                   foldl (compare_scope mt change ecosystem files before' current')
                     (add_unknowns (us @ unsupported_configuration mt change name) summary) (scopes_of before' current'))
                 (paired_sides name change before current)
           | (before, current) \<Rightarrow>
               Some (add_unknowns (parse_failure change ''base'' before @ parse_failure change ''current'' current) summary)))"

fun assess_upgrades_from :: "ManifestTools \<Rightarrow> SourceFile list \<Rightarrow> UpgradeSummary \<Rightarrow> RepositoryChange list \<Rightarrow> UpgradeSummary option" where
  "assess_upgrades_from mt files summary [] = Some summary"
| "assess_upgrades_from mt files summary (change # changes) =
     Option.bind (assess_change mt files summary change) (\<lambda>s. assess_upgrades_from mt files s changes)"

definition assess_upgrades :: "ManifestTools \<Rightarrow> RepositoryChange list \<Rightarrow> SourceFile list \<Rightarrow> UpgradeSummary option" where
  "assess_upgrades mt changes files =
     map_option (\<lambda>s. s\<lparr>us_unknowns := remdups_adj (sort_by cmp (us_unknowns s))\<rparr>)
       (assess_upgrades_from mt files \<lparr>us_changes = [], us_findings = [], us_unknowns = []\<rparr> changes)"

section \<open>Pairing neither panics nor loses a dependency\<close>

lemma map_of_map_remove: "map_of (map_remove k m) = (map_of m)(k := None)"
  by (induction m) (auto simp: map_remove_def)

lemma ordered_map_remove [simp]: "ordered_map m \<Longrightarrow> ordered_map (map_remove k m)"
  by (induction m) (auto simp: map_remove_def)

lemma set_map_remove: "set (map_remove k m) = {e \<in> set m. fst e \<noteq> k}"
  by (auto simp: map_remove_def)

lemma mset_map_remove: "distinct (map fst m) \<Longrightarrow> map_of m k = Some v \<Longrightarrow> mset m = add_mset (k, v) (mset (map_remove k m))"
proof (induction m)
  case (Cons e m)
  obtain k' v' where e: "e = (k', v')" by force
  show ?case
  proof (cases "k' = k")
    case True
    then have "map_remove k m = m" using Cons.prems(1) unfolding map_remove_def
      by (force simp: e filter_id_conv image_iff)
    then show ?thesis using Cons.prems(2) True by (simp add: e map_remove_def)
  next
    case False
    then show ?thesis using Cons by (simp add: e map_remove_def)
  qed
qed simp

definition identity_of :: "string \<Rightarrow> string option" where
  "identity_of key = map_option fst (rsplit_once (CHR ''/'') key)"

definition fresh :: "Dependencies \<Rightarrow> Dependencies \<Rightarrow> string list" where
  "fresh mine theirs = filter (\<lambda>key. map_of theirs key = None) (map fst mine)"

definition fresh_of :: "Dependencies \<Rightarrow> Dependencies \<Rightarrow> string \<Rightarrow> string list" where
  "fresh_of mine theirs identity = filter (\<lambda>key. identity_of key = Some identity) (fresh mine theirs)"

lemma group_fold:
  "let groups = foldl (\<lambda>groups key. case rsplit_once (CHR ''/'') key of
         Some (identity, _) \<Rightarrow> group_push identity key groups | None \<Rightarrow> groups) [] keys
   in ordered_map groups \<and>
      map_of groups identity =
        (let ks = filter (\<lambda>key. identity_of key = Some identity) keys in if ks = [] then None else Some ks)"
proof (induction keys arbitrary: identity rule: rev_induct)
  case (snoc key keys)
  show ?case
  proof (cases "rsplit_once (CHR ''/'') key")
    case None
    then show ?thesis using snoc by (simp add: identity_of_def Let_def)
  next
    case (Some pair)
    then show ?thesis using snoc [of identity]
      by (cases pair) (auto simp: identity_of_def group_push_def Let_def split: if_splits)
  qed
qed simp

lemma fresh_groups_facts:
  "ordered_map (fresh_groups mine theirs)"
  "map_of (fresh_groups mine theirs) identity =
     (if fresh_of mine theirs identity = [] then None else Some (fresh_of mine theirs identity))"
  using group_fold [of "filter (\<lambda>key. map_of theirs key = None) (map fst mine)" identity]
  by (simp_all add: fresh_groups_def fresh_of_def fresh_def Let_def)

lemma fresh_group_mem:
  assumes "(identity, ks) \<in> set (fresh_groups mine theirs)"
  shows "ks = fresh_of mine theirs identity" "ks \<noteq> []"
proof -
  have "map_of (fresh_groups mine theirs) identity = Some ks"
    using assms fresh_groups_facts(1) [of mine theirs] by (simp add: ordered_distinct)
  then show "ks = fresh_of mine theirs identity" "ks \<noteq> []"
    by (auto simp: fresh_groups_facts(2) split: if_splits)
qed

lemma identity_of_upgrade: "identity_of (identity @ ''/upgrade'') = Some identity"
  by (simp add: identity_of_def rsplit_once_def split_once_def)

lemma fresh_of_mem: "key \<in> set (fresh_of mine theirs identity) \<Longrightarrow>
    identity_of key = Some identity \<and> key \<in> set (map fst mine) \<and> map_of theirs key = None"
  by (auto simp: fresh_of_def fresh_def)

text \<open>Renaming a key that is present: nothing panics, and the dependencies stay what they are.\<close>

lemma rename_key_facts:
  assumes "ordered_map deps" "map_of deps k = Some dep"
  obtains deps' where "rename_key k k' deps = Some deps'" "ordered_map deps'"
    "map_of deps k' = None \<or> k' = k \<Longrightarrow> mset (map snd deps') = mset (map snd deps)"
    "map_of deps' = ((map_of deps)(k := None))(k' \<mapsto> dep)"
proof -
  let ?r = "map_remove k deps"
  have "mset (map snd (map_insert k' dep ?r)) = mset (map snd deps)" if "map_of deps k' = None \<or> k' = k"
  proof -
    have new: "k' \<notin> set (map fst ?r)" using that by (auto simp: set_map_remove map_of_eq_None_iff)
    show ?thesis
      using mset_map_remove [OF ordered_distinct [OF assms(1)] assms(2)] mset_map_insert [OF new, of dep] by simp
  qed
  then show ?thesis using assms that [of "map_insert k' dep ?r"] by (auto simp: rename_key_def map_of_map_remove)
qed

definition paired_from :: "Dependencies \<Rightarrow> Dependencies \<Rightarrow> string \<Rightarrow> Dependency \<Rightarrow> bool" where
  "paired_from mine theirs key d \<longleftrightarrow>
     (\<exists>identity k k'. key = identity @ ''/upgrade'' \<and> fresh_of mine theirs identity = [k] \<and>
        fresh_of theirs mine identity = [k'] \<and> map_of mine k = Some d)"

text \<open>One side while the groups \<open>rest\<close> are still to come.\<close>

definition side_ok :: "Dependencies \<Rightarrow> Dependencies \<Rightarrow> string set \<Rightarrow> Dependencies \<Rightarrow> bool" where
  "side_ok mine theirs rest deps \<longleftrightarrow>
     ordered_map deps \<and>
     (\<forall>x. identity_of x \<in> Some ` rest \<longrightarrow> map_of deps x = map_of mine x) \<and>
     (\<forall>x d. map_of deps x = Some d \<longrightarrow> map_of mine x = Some d \<or> paired_from mine theirs x d) \<and>
     ((\<forall>x \<in> set (map fst mine). \<not> suffix ''/upgrade'' x) \<longrightarrow> mset (map snd deps) = mset (map snd mine))"

lemma side_ok_rename:
  assumes "side_ok mine theirs (insert identity rest) deps" "identity \<notin> rest"
    "fresh_of mine theirs identity = [k]" "fresh_of theirs mine identity = [k']"
  obtains deps' where "rename_key k (identity @ ''/upgrade'') deps = Some deps'" "side_ok mine theirs rest deps'"
proof -
  let ?u = "identity @ ''/upgrade''"
  have k: "identity_of k = Some identity" "k \<in> set (map fst mine)" using fresh_of_mem [of k mine theirs identity] assms(3) by auto
  have deps: "ordered_map deps" "\<And>x. identity_of x \<in> Some ` insert identity rest \<Longrightarrow> map_of deps x = map_of mine x"
    "\<And>x d. map_of deps x = Some d \<Longrightarrow> map_of mine x = Some d \<or> paired_from mine theirs x d"
    "\<forall>x \<in> set (map fst mine). \<not> suffix ''/upgrade'' x \<Longrightarrow> mset (map snd deps) = mset (map snd mine)"
    using assms(1) by (auto simp: side_ok_def)
  obtain dep where dep: "map_of mine k = Some dep" using k(2) by (metis map_of_eq_None_iff not_None_eq set_map)
  then have "map_of deps k = Some dep" using deps(2) [of k] k(1) by simp
  from rename_key_facts [OF deps(1) this, of ?u] obtain deps' where
    r: "rename_key k ?u deps = Some deps'" "ordered_map deps'"
      "map_of deps ?u = None \<or> ?u = k \<Longrightarrow> mset (map snd deps') = mset (map snd deps)"
      "map_of deps' = ((map_of deps)(k := None))(?u \<mapsto> dep)"
    by blast
  have "mset (map snd deps') = mset (map snd mine)" if clean: "\<forall>x \<in> set (map fst mine). \<not> suffix ''/upgrade'' x"
  proof -
    have "?u \<notin> set (map fst mine)" using clean by (force simp: suffix_def)
    then have "map_of deps ?u = None" using deps(2) [of ?u] by (simp add: identity_of_upgrade map_of_eq_None_iff)
    then show ?thesis using r(3) deps(4) clean by simp
  qed
  moreover have "paired_from mine theirs ?u dep" using assms(3,4) dep by (auto simp: paired_from_def)
  ultimately have "side_ok mine theirs rest deps'"
    unfolding side_ok_def using r(2) deps k(1) assms(2) by (auto simp: r(4) identity_of_upgrade)
  then show ?thesis using r(1) that by blast
qed

lemma side_ok_skip: "side_ok mine theirs (insert identity rest) deps \<Longrightarrow> side_ok mine theirs rest deps"
  by (auto simp: side_ok_def)

lemma pair_fold:
  assumes "distinct (map fst groups)" "\<forall>(identity, ks) \<in> set groups. ks = fresh_of before current identity"
    "side_ok before current (fst ` set groups) b" "side_ok current before (fst ` set groups) c"
  shows "\<exists>b' c' us'. foldl (pair_group path (fresh_groups current before)) (Some (b, c, us)) groups = Some (b', c', us') \<and>
    side_ok before current {} b' \<and> side_ok current before {} c'"
  using assms
proof (induction groups arbitrary: b c us)
  case (Cons g groups)
  obtain identity old where g: "g = (identity, old)" by force
  let ?new = "fresh_of current before identity"
  have old: "old = fresh_of before current identity" and out: "identity \<notin> fst ` set groups"
    using Cons.prems(1,2) g by auto
  note sides = Cons.prems(3,4) [unfolded g list.set image_insert fst_conv]
  have "\<exists>b1 c1 us1. pair_group path (fresh_groups current before) (Some (b, c, us)) g = Some (b1, c1, us1) \<and>
      side_ok before current (fst ` set groups) b1 \<and> side_ok current before (fst ` set groups) c1"
  proof (cases "length old = 1 \<and> length ?new = 1")
    case True
    then obtain k k' where k: "old = [k]" "?new = [k']" by (auto simp: length_Suc_conv)
    obtain b1 where b1: "rename_key k (identity @ ''/upgrade'') b = Some b1" "side_ok before current (fst ` set groups) b1"
      using side_ok_rename [OF sides(1) out _ k(2)] k(1) old by metis
    obtain c1 where c1: "rename_key k' (identity @ ''/upgrade'') c = Some c1" "side_ok current before (fst ` set groups) c1"
      using side_ok_rename [OF sides(2) out k(2)] k(1) old by metis
    show ?thesis using b1 c1 k by (simp add: pair_group_def g fresh_groups_facts(2))
  next
    case False
    then show ?thesis using side_ok_skip [OF sides(1)] side_ok_skip [OF sides(2)]
      by (auto simp: pair_group_def g fresh_groups_facts(2))
  qed
  then show ?case using Cons.IH Cons.prems(1,2) by fastforce
qed simp

lemma pairing_sides:
  assumes "ordered_map before" "ordered_map current"
  obtains b c us' where "pair_cargo_versions before current us path = Some (b, c, us')"
    "side_ok before current {} b" "side_ok current before {} c"
proof -
  let ?gs = "fresh_groups before current"
  have "distinct (map fst ?gs)" by (rule ordered_distinct [OF fresh_groups_facts(1)])
  moreover have "\<forall>(identity, ks) \<in> set ?gs. ks = fresh_of before current identity" using fresh_group_mem(1) by blast
  moreover have "side_ok before current (fst ` set ?gs) before" "side_ok current before (fst ` set ?gs) current"
    using assms by (auto simp: side_ok_def)
  ultimately show ?thesis using pair_fold [of ?gs before current before current path us] that
    unfolding pair_cargo_versions_def by blast
qed

text \<open>
  Pairing the versions of a lock file never panics, keeps the dependencies of both sides as they
  are, and pairs two different entries only when they are the one version that goes and the one that
  comes of the same package and source.
\<close>

theorem pairing_conserves:
  assumes "ordered_map before" "ordered_map current"
    and "\<forall>x \<in> set (map fst before) \<union> set (map fst current). \<not> suffix ''/upgrade'' x"
  shows "case pair_cargo_versions before current us path of
     None \<Rightarrow> False
   | Some (b, c, _) \<Rightarrow>
       mset (map snd b) = mset (map snd before) \<and> mset (map snd c) = mset (map snd current) \<and>
       (\<forall>key d e. map_of b key = Some d \<and> map_of c key = Some e \<longrightarrow>
          map_of before key = Some d \<and> map_of current key = Some e \<or>
          (\<exists>identity k k'. fresh_of before current identity = [k] \<and> fresh_of current before identity = [k'] \<and>
             map_of before k = Some d \<and> map_of current k' = Some e))"
proof -
  obtain b c us' where r: "pair_cargo_versions before current us path = Some (b, c, us')"
    "side_ok before current {} b" "side_ok current before {} c"
    using pairing_sides [OF assms(1,2)] by blast
  have msets: "mset (map snd b) = mset (map snd before)" "mset (map snd c) = mset (map snd current)"
    using r(2,3) assms(3) by (auto simp: side_ok_def)
  have old_key: "\<not> suffix ''/upgrade'' key" if "map_of before key = Some d \<or> map_of current key = Some d" for key d
    using that assms(3) by (auto dest!: map_of_SomeD) force+
  have "map_of before key = Some d \<and> map_of current key = Some e \<or>
      (\<exists>identity k k'. fresh_of before current identity = [k] \<and> fresh_of current before identity = [k'] \<and>
         map_of before k = Some d \<and> map_of current k' = Some e)"
    if "map_of b key = Some d" "map_of c key = Some e" for key d e
  proof (cases "suffix ''/upgrade'' key")
    case True
    then have "paired_from before current key d" "paired_from current before key e"
      using r(2,3) that old_key unfolding side_ok_def by blast+
    then show ?thesis by (auto simp: paired_from_def)
  next
    case False
    then have "\<not> paired_from before current key d" "\<not> paired_from current before key e"
      by (auto simp: paired_from_def suffix_def)
    then show ?thesis using r(2,3) that unfolding side_ok_def by blast
  qed
  then show ?thesis using r(1) msets by auto
qed

definition example_dependency :: "string \<Rightarrow> Dependency" where
  "example_dependency v = \<lparr>dp_name = ''serde'', dp_version = v, dp_configuration = [], dp_line = 1\<rparr>"

lemma pairing_conserves_witness:
  "case pair_cargo_versions [(''lock/serde@0/1.0.0'', example_dependency ''1.0.0'')]
       [(''lock/serde@0/2.0.0'', example_dependency ''2.0.0'')] [] ''Cargo.lock'' of
     None \<Rightarrow> False
   | Some (b, c, _) \<Rightarrow>
       mset (map snd b) = mset [example_dependency ''1.0.0''] \<and> mset (map snd c) = mset [example_dependency ''2.0.0'']"
  using pairing_conserves [of "[(''lock/serde@0/1.0.0'', example_dependency ''1.0.0'')]"
      "[(''lock/serde@0/2.0.0'', example_dependency ''2.0.0'')]" "[]" "''Cargo.lock''"]
  by (auto simp: suffix_def split: option.splits)

section \<open>The compatible signal is the caret rule\<close>

text \<open>Cargo's caret requirement of a version: at least that version, and below the next one that
  changes the leftmost non-zero part.\<close>

fun caret_limit :: "nat \<times> nat \<times> nat \<Rightarrow> nat \<times> nat \<times> nat" where
  "caret_limit (major, minor, patch) =
     (if major \<noteq> 0 then (major + 1, 0, 0) else if minor \<noteq> 0 then (0, minor + 1, 0) else (0, 0, patch + 1))"

definition caret_accepts :: "nat \<times> nat \<times> nat \<Rightarrow> nat \<times> nat \<times> nat \<Rightarrow> bool" where
  "caret_accepts required v \<longleftrightarrow> \<not> version_less v required \<and> version_less v (caret_limit required)"

lemma triple_risk_caret: "triple_risk a b = ''semverCompatibleSignal'' \<longleftrightarrow> caret_accepts a b"
  by (cases a; cases b) (auto simp: caret_accepts_def)

lemma triple_risk_downgrade: "triple_risk a b = ''downgrade'' \<longleftrightarrow> version_less b a"
  by (cases a; cases b) auto

text \<open>
  A version change is signalled compatible exactly when both versions are known and the caret
  requirement of the old version accepts the new one, a downgrade exactly when the new version is
  below the old one, and unknown exactly when one of them is not a version.
\<close>

theorem version_risk_is_caret:
  "(version_risk old new = ''semverCompatibleSignal'' \<longleftrightarrow>
      (case (semver old, semver new) of (Some a, Some b) \<Rightarrow> caret_accepts a b | _ \<Rightarrow> False)) \<and>
   (version_risk old new = ''downgrade'' \<longleftrightarrow>
      (case (semver old, semver new) of (Some a, Some b) \<Rightarrow> version_less b a | _ \<Rightarrow> False)) \<and>
   (version_risk old new = ''unknown'' \<longleftrightarrow> semver old = None \<or> semver new = None)"
proof -
  have "triple_risk a b \<noteq> ''unknown''" for a b by (cases a; cases b) auto
  then show ?thesis
    by (auto simp: version_risk_def triple_risk_caret triple_risk_downgrade split: option.splits)
qed

section \<open>Changes and findings\<close>

definition differs :: "Dependencies \<Rightarrow> Dependencies \<Rightarrow> string \<Rightarrow> bool" where
  "differs before current scope \<longleftrightarrow>
     (let identity = map_option (\<lambda>d. (dp_name d, dp_version d, dp_configuration d)) in
      identity (map_of before scope) \<noteq> identity (map_of current scope))"

lemma record_change_scopes:
  assumes "old \<noteq> None \<or> new \<noteq> None"
  shows "map dc_scope (us_changes (record_change mt change ecosystem files scope old new s)) =
    map dc_scope (us_changes s) @ [scope]"
  using assms by (auto simp: record_change_def change_item_def Let_def split: option.splits)

lemma compare_scope_scopes:
  "set (map dc_scope (us_changes (compare_scope mt change ecosystem files before current s scope))) =
   set (map dc_scope (us_changes s)) \<union> (if differs before current scope then {scope} else {})"
proof -
  have none: "us_changes (record_change mt change ecosystem files scope None None s) = us_changes s"
    by (simp add: record_change_def)
  have one: "set (map dc_scope (us_changes (record_change mt change ecosystem files scope old new s))) =
      set (map dc_scope (us_changes s)) \<union> {scope}" if "old \<noteq> None \<or> new \<noteq> None" for old new s
    unfolding record_change_scopes [OF that] by simp
  show ?thesis
  proof (cases "map_of before scope"; cases "map_of current scope")
    fix a b assume "map_of before scope = Some a" "map_of current scope = Some b"
    then show ?thesis using one [of "Some a" "Some b" s] one [of "Some a" None s]
        one [of None "Some b" "record_change mt change ecosystem files scope (Some a) None s"]
      by (auto simp only: compare_scope_def differs_def same_dependency_def Let_def option.case prod.case option.map option.inject
        prod.inject if_True if_False split: if_splits)
  qed (use one [of "map_of before scope" "map_of current scope" s] none in \<open>auto simp: compare_scope_def differs_def Let_def\<close>)
qed

lemma compare_scopes:
  "set (map dc_scope (us_changes (foldl (compare_scope mt change ecosystem files before current) s scopes))) =
   set (map dc_scope (us_changes s)) \<union> {scope \<in> set scopes. differs before current scope}"
proof (induction scopes arbitrary: s)
  case (Cons scope scopes)
  show ?case unfolding foldl_Cons Cons compare_scope_scopes by auto
qed simp

text \<open>
  Comparing the two sides of a manifest reports a change for exactly the scopes where they differ
  in presence, name, version or configuration: nothing that changed is left out, and nothing that
  only moved to another line is reported.
\<close>

theorem compared_scopes_exact:
  "set (map dc_scope (us_changes (foldl (compare_scope mt change ecosystem files before current) s (scopes_of before current)))) =
   set (map dc_scope (us_changes s)) \<union> {scope. differs before current scope}"
proof -
  have "scope \<in> set (scopes_of before current)" if "differs before current scope" for scope
  proof (rule ccontr)
    assume "scope \<notin> set (scopes_of before current)"
    then have "map_of before scope = None" "map_of current scope = None"
      by (auto simp: scopes_of_def map_of_eq_None_iff)
    then show False using that by (simp add: differs_def)
  qed
  then show ?thesis unfolding compare_scopes by auto
qed

text \<open>Evidence quotes the line of the side that it cites, or says that the line is unknown.\<close>

definition located_evidence :: "RepositoryChange \<Rightarrow> UpgradeEvidence \<Rightarrow> bool" where
  "located_evidence change e \<longleftrightarrow>
     (let path = (if ue_snapshot e = ''base'' then base_path change else cg_path change);
          lines = str_lines (if ue_snapshot e = ''base'' then cg_base change else current_text change)
      in ue_snapshot e \<in> {''base'', ''current''} \<and> ue_path e = path \<and>
         (ue_line e = 0 \<or> ue_line e \<le> length lines \<and> ue_text e = lines ! (ue_line e - 1)))"

definition upgrade_grounded :: "RepositoryChange list \<Rightarrow> DependencyChange list \<Rightarrow> Finding \<Rightarrow> bool" where
  "upgrade_grounded changes items f \<longleftrightarrow>
     (\<exists>change \<in> set changes. \<exists>item \<in> set items.
        f = upgrade_finding change item \<and> dc_risk item \<in> ADVISORY \<and>
        dc_evidence item \<noteq> [] \<and> list_all (located_evidence change) (dc_evidence item) \<and>
        (f_line f = 0 \<or> (\<exists>e \<in> set (dc_evidence item). ue_snapshot e = ''current'' \<and> ue_line e = f_line f)) \<and>
        (dc_kind item = ''removed'' \<longrightarrow> f_line f = 0))"

definition findings_grounded :: "RepositoryChange list \<Rightarrow> UpgradeSummary \<Rightarrow> bool" where
  "findings_grounded changes s \<longleftrightarrow> list_all (upgrade_grounded changes (us_changes s)) (us_findings s)"

lemma change_evidence_located: "list_all (located_evidence change) (change_evidence change old new)"
  by (auto simp: change_evidence_def located_evidence_def location_def split: option.split)

lemma current_line_cited:
  "current_line evidence = 0 \<or> (\<exists>e \<in> set evidence. ue_snapshot e = ''current'' \<and> ue_line e = current_line evidence)"
  by (auto simp: current_line_def split: option.split dest!: find_Some_iff [THEN iffD1] intro!: bexI [where x = "rev evidence ! _"])
    (metis nth_mem set_rev length_rev)

lemma upgrade_finding_line: "f_line (upgrade_finding change item) = current_line (dc_evidence item)"
  by (simp add: upgrade_finding_def Let_def)

lemma item_grounded:
  assumes "change \<in> set changes" "item = change_item mt change ecosystem scope dep old new files"
    "old \<noteq> None \<or> new \<noteq> None" "dc_risk item \<in> ADVISORY" "item \<in> set items"
  shows "upgrade_grounded changes items (upgrade_finding change item)"
proof -
  have evidence: "dc_evidence item = change_evidence change old new" and kind: "dc_kind item = kind_of old new"
    by (simp_all add: assms(2) change_item_def Let_def)
  have "dc_evidence item \<noteq> []" using assms(3) by (auto simp: evidence change_evidence_def)
  moreover have "current_line (dc_evidence item) = 0" if "kind_of old new = ''removed''"
    using that by (auto simp: evidence kind_of_def change_evidence_def current_line_def location_def split: option.splits)
  ultimately show ?thesis
    unfolding upgrade_grounded_def
    using assms(1,4,5) change_evidence_located [of change old new] current_line_cited [of "dc_evidence item"]
    by (intro bexI [of _ change] bexI [of _ item]) (auto simp: upgrade_finding_line kind evidence)
qed

lemma grounded_more: "upgrade_grounded changes items f \<Longrightarrow> upgrade_grounded changes (items @ more_items) f"
  unfolding upgrade_grounded_def by auto

lemma record_change_grounded:
  assumes "change \<in> set changes" "findings_grounded changes s"
  shows "findings_grounded changes (record_change mt change ecosystem files scope old new s)"
proof (cases "case new of Some d \<Rightarrow> Some d | None \<Rightarrow> old")
  case None
  then show ?thesis using assms by (simp add: record_change_def)
next
  case (Some dep)
  let ?item = "change_item mt change ecosystem scope dep old new files"
  have "old \<noteq> None \<or> new \<noteq> None" using Some by (auto split: option.splits)
  then have "dc_risk ?item \<in> ADVISORY \<Longrightarrow> upgrade_grounded changes (us_changes s @ [?item]) (upgrade_finding change ?item)"
    using item_grounded [OF assms(1) refl] by simp
  then show ?thesis using assms(2) grounded_more
    by (auto simp: findings_grounded_def record_change_def Let_def Some list_all_iff)
qed

lemma compare_scope_grounded:
  assumes "change \<in> set changes" "findings_grounded changes s"
  shows "findings_grounded changes (compare_scope mt change ecosystem files before current s scope)"
  using assms record_change_grounded [OF assms(1)]
  by (simp add: compare_scope_def split: option.split)

lemma add_unknowns_grounded [simp]: "findings_grounded changes (add_unknowns us s) = findings_grounded changes s"
  by (simp add: findings_grounded_def add_unknowns_def)

lemma cargo_lock_ordered: "cargo_lock mt content = Inr deps \<Longrightarrow> ordered_map deps"
proof -
  have "ordered_map (foldl (\<lambda>deps (identity, found).
      foldl (\<lambda>deps dep. map_insert (''lock/'' @ identity @ ''/'' @ dp_version dep) dep deps) deps found) [] groups)" for groups
    by (rule foldl_keeps [where P = ordered_map]) (auto intro!: foldl_keeps [where P = ordered_map])
  then show "cargo_lock mt content = Inr deps \<Longrightarrow> ordered_map deps" by (auto simp: cargo_lock_def split: option.splits)
qed

lemma lock_sides_ordered: "parse_manifest mt ''Cargo.lock'' content = Inr deps \<Longrightarrow> ordered_map deps"
  by (auto simp: parse_manifest_def and_then_eq_Inr split: if_splits dest: cargo_lock_ordered)

lemma assess_change_grounded:
  assumes "change \<in> set changes" "findings_grounded changes s"
  shows "\<exists>s'. assess_change mt files s change = Some s' \<and> findings_grounded changes s'"
proof -
  let ?name = "filename (cg_path change)"
  have pairs: "\<exists>b c us. paired_sides ?name change before current = Some (b, c, us)"
    if "parse_manifest mt ?name (cg_base change) = Inr before" "parse_manifest mt ?name (current_text change) = Inr current"
    for before current
  proof (cases "?name = ''Cargo.lock''")
    case True
    then show ?thesis
      using pairing_sides [of before current] lock_sides_ordered that unfolding paired_sides_def by metis
  qed (simp add: paired_sides_def)
  have "findings_grounded changes (foldl (compare_scope mt change ecosystem files b c) (add_unknowns us s) scopes)"
    for ecosystem b c us scopes
    by (rule foldl_keeps [where P = "findings_grounded changes"]) (use assms compare_scope_grounded in auto)
  then show ?thesis using assms(2) pairs
    by (auto simp: assess_change_def Let_def split: option.splits sum.splits) force+
qed

lemma upgrades_never_panic:
  "case assess_upgrades mt changes files of
     None \<Rightarrow> False
   | Some s \<Rightarrow> list_all (upgrade_grounded changes (us_changes s)) (us_findings s)"
proof -
  have "\<exists>s'. assess_upgrades_from mt files s rest = Some s' \<and> findings_grounded changes s'"
    if "set rest \<subseteq> set changes" "findings_grounded changes s" for s rest
    using that
  proof (induction rest arbitrary: s)
    case (Cons change rest)
    obtain s' where "assess_change mt files s change = Some s'" "findings_grounded changes s'"
      using assess_change_grounded [of change changes s mt files] Cons.prems by auto
    then show ?case using Cons by simp
  qed simp
  from this [of changes "\<lparr>us_changes = [], us_findings = [], us_unknowns = []\<rparr>"]
  show ?thesis by (auto simp: assess_upgrades_def findings_grounded_def)
qed


end
