(* ===== verification/Git_Evidence.thy ===== *)
theory Git_Evidence
  imports Language Patch Spec_Drift Docs_Drift
begin

text \<open>
  Evidence from a Git checkout (\<open>adapters/git.rs\<close>): the base of a diff, changed and repository files of
  directory scopes, the bounded inventory for the auxiliary analyses, and the committed files of a
  pinned commit with the parsing of a batch of blobs; the patterns of \<open>adapters/exclude.rs\<close>.

  A \<open>Checkout\<close> is what the code reads: the outcome of a git command in a directory, the outcome of a
  batch read, and the file system. The model reads a checkout that does not change between two
  readings, except that \<open>ck_metadata\<close>, read after the bytes of a file, may differ from what the open
  file said. An error is its message, as \<open>anyhow\<close> displays it.
\<close>

section \<open>The checkout\<close>

record GitRun =
  gr_success :: bool
  gr_status :: string
  gr_stdout :: string
  gr_stderr :: string

datatype open_error = ELOOP | ENOENT | ENXIO | ENODEV | Unexpected string

record FileStat =
  fs_is_file :: bool
  fs_dev :: nat
  fs_ino :: nat
  fs_size :: nat

record OpenFile =
  of_stat :: "FileStat option"
  of_bytes :: "string option"

record Checkout =
  ck_git :: "string \<Rightarrow> string list \<Rightarrow> GitRun option"
  ck_batch :: "string \<Rightarrow> string \<Rightarrow> GitRun option"
  ck_canonicalize :: "string \<Rightarrow> string + string"
  ck_open :: "string \<Rightarrow> open_error + OpenFile"
  ck_metadata :: "string \<Rightarrow> FileStat option"

definition with_context :: "string \<Rightarrow> string + 'a \<Rightarrow> string + 'a" where
  "with_context msg r = (case r of Inl _ \<Rightarrow> Inl msg | Inr x \<Rightarrow> Inr x)"

definition ok_or :: "string \<Rightarrow> 'a option \<Rightarrow> string + 'a" where
  "ok_or msg v = (case v of None \<Rightarrow> Inl msg | Some x \<Rightarrow> Inr x)"

definition PLAIN_DIFF :: "string list" where
  "PLAIN_DIFF = [''--no-ext-diff'', ''--no-color'', ''--no-textconv'']"

definition git :: "Checkout \<Rightarrow> string \<Rightarrow> string list \<Rightarrow> string + string" where
  "git ck cwd args =
     (case ck_git ck cwd args of
        None \<Rightarrow> Inl (''git '' @ join '' '' args @ '' failed to run'')
      | Some r \<Rightarrow>
          if \<not> gr_success r then Inl (''git '' @ join '' '' args @ '' exited '' @ gr_status r @ '': '' @ trim (gr_stderr r))
          else if valid_utf8 (gr_stdout r) then Inr (gr_stdout r)
          else Inl ''Git evidence is not valid UTF-8'')"

definition git_value :: "Checkout \<Rightarrow> string \<Rightarrow> string list \<Rightarrow> string + string" where
  "git_value ck cwd args =
     and_then (git ck cwd args) (\<lambda>out. Inr (case strip_suffix [NL] out of Some s \<Rightarrow> s | None \<Rightarrow> out))"

definition git_diff :: "Checkout \<Rightarrow> string \<Rightarrow> string \<Rightarrow> string list \<Rightarrow> string + string" where
  "git_diff ck cwd base args = git ck cwd ([''diff'', base] @ PLAIN_DIFF @ args)"

definition git_diff_at :: "Checkout \<Rightarrow> string \<Rightarrow> string \<Rightarrow> string option \<Rightarrow> string list \<Rightarrow> string + string" where
  "git_diff_at ck cwd base head args =
     (case head of
        Some h \<Rightarrow> git ck cwd ([''diff'', base, h] @ PLAIN_DIFF @ args)
      | None \<Rightarrow> git_diff ck cwd base args)"

datatype DiffBase = Commit string | EmptyTree string

fun base_rev :: "DiffBase \<Rightarrow> string" where
  "base_rev (Commit revision) = revision"
| "base_rev (EmptyTree revision) = revision"

definition diff_base :: "Checkout \<Rightarrow> string \<Rightarrow> string + DiffBase" where
  "diff_base ck repo_root =
     (if is_ok (git ck repo_root [''rev-parse'', ''--verify'', ''--quiet'', ''HEAD'']) then Inr (Commit ''HEAD'')
      else and_then (with_context ''HEAD does not resolve to a commit and is not a branch ref''
          (git_value ck repo_root [''symbolic-ref'', ''--quiet'', ''HEAD''])) (\<lambda>branch.
        if is_ok (git ck repo_root [''show-ref'', ''--verify'', ''--quiet'', branch])
        then Inl (''HEAD points to '' @ branch @ '', which exists but does not resolve to a commit'')
        else and_then (git_value ck repo_root [''hash-object'', ''-t'', ''tree'', ''--stdin'']) (\<lambda>tree. Inr (EmptyTree tree))))"

definition option_like :: "string \<Rightarrow> bool" where
  "option_like s \<longleftrightarrow> s = [] \<or> starts_with s ''-''"

definition quoted_str :: "string \<Rightarrow> string" where
  "quoted_str s = CHR 0x27 # s @ [CHR 0x27]"

definition merge_base_at :: "Checkout \<Rightarrow> string \<Rightarrow> string \<Rightarrow> string \<Rightarrow> string + DiffBase" where
  "merge_base_at ck repo_root revision head =
     (if option_like revision \<or> option_like head then Inl (''--base must name a revision, got '' @ quoted_str revision)
      else and_then (with_context (''base revision '' @ quoted_str revision @ '' not found in '' @ repo_root @
             '' (in CI, fetch it: actions/checkout with fetch-depth: 0)'')
          (git_value ck repo_root [''rev-parse'', ''--verify'', ''--quiet'', revision @ ''^{commit}''])) (\<lambda>commit.
        and_then (with_context (quoted_str revision @ '' and '' @ quoted_str head @
             '' share no history (a shallow clone lacks it: actions/checkout with fetch-depth: 0)'')
          (git_value ck repo_root [''merge-base'', commit, head])) (\<lambda>base. Inr (Commit base))))"

definition merge_base :: "Checkout \<Rightarrow> string \<Rightarrow> string \<Rightarrow> string + DiffBase" where
  "merge_base ck repo_root revision = merge_base_at ck repo_root revision ''HEAD''"

definition head_sha :: "Checkout \<Rightarrow> string \<Rightarrow> string + string" where
  "head_sha ck scope = git_value ck scope [''rev-parse'', ''HEAD'']"

definition review_base_sha :: "Checkout \<Rightarrow> string \<Rightarrow> string \<Rightarrow> string + string" where
  "review_base_sha ck scope base = and_then (merge_base ck scope base) (\<lambda>b. Inr (base_rev b))"

definition tracked_checkout_clean :: "Checkout \<Rightarrow> string \<Rightarrow> string + bool" where
  "tracked_checkout_clean ck scope =
     and_then (git ck scope [''status'', ''--porcelain'', ''--untracked-files=all'']) (\<lambda>out. Inr (out = []))"

definition repository_root :: "Checkout \<Rightarrow> string \<Rightarrow> string + string" where
  "repository_root ck scope =
     and_then (git_value ck scope [''rev-parse'', ''--show-toplevel'']) (ck_canonicalize ck)"

definition nul_lines :: "string \<Rightarrow> string list" where
  "nul_lines output = filter (\<lambda>l. l \<noteq> []) (split_on (CHR 0x00) output)"

section \<open>Guarded reads\<close>

text \<open>Absolute paths by their components, as \<open>Path::starts_with\<close> and \<open>==\<close> compare them.\<close>

definition path_parts :: "string \<Rightarrow> string list" where
  "path_parts path = filter (\<lambda>c. c \<noteq> [] \<and> c \<noteq> ''.'') (split_on (CHR ''/'') path)"

definition path_join :: "string \<Rightarrow> string \<Rightarrow> string" where
  "path_join base path =
     (if starts_with path ''/'' then path else if ends_with base ''/'' then base @ path else base @ ''/'' @ path)"

definition under :: "string \<Rightarrow> string \<Rightarrow> bool" where
  "under base path \<longleftrightarrow> prefix (path_parts base) (path_parts path)"

text \<open>\<open>usize::MAX\<close>, no limit.\<close>

definition NO_LIMIT :: nat where "NO_LIMIT = usize_limit - 1"

definition open_guarded :: "Checkout \<Rightarrow> string \<Rightarrow> string + OpenFile option" where
  "open_guarded ck absolute =
     (case ck_open ck absolute of
        Inr f \<Rightarrow> Inr (Some f)
      | Inl (Unexpected e) \<Rightarrow> Inl (''open '' @ absolute @ '' failed: '' @ e)
      | Inl _ \<Rightarrow> Inr None)"

definition assert_same_file :: "Checkout \<Rightarrow> string \<Rightarrow> FileStat \<Rightarrow> string + unit" where
  "assert_same_file ck absolute st =
     (case ck_metadata ck absolute of
        Some m \<Rightarrow>
          if fs_is_file m \<and> fs_dev m = fs_dev st \<and> fs_ino m = fs_ino st \<and> fs_size m = fs_size st then Inr ()
          else Inl (''File changed during read: '' @ absolute)
      | None \<Rightarrow> Inl (''File changed during read: '' @ absolute))"

definition read_bytes :: "Checkout \<Rightarrow> string \<Rightarrow> string \<Rightarrow> nat \<Rightarrow> FileStat \<Rightarrow> OpenFile \<Rightarrow> string + string" where
  "read_bytes ck path absolute max_bytes st f =
     and_then (ok_or (''read '' @ absolute) (of_bytes f)) (\<lambda>all.
       let bytes = take (min (max_bytes + 1) NO_LIMIT) all in
       if max_bytes < length bytes then Inl (path @ '': file grew beyond evidence byte limit'')
       else and_then (assert_same_file ck absolute st) (\<lambda>_.
         if valid_utf8 bytes then Inr bytes else Inl (absolute @ '' is not valid UTF-8'')))"

definition read_repo_file_limit :: "Checkout \<Rightarrow> string \<Rightarrow> string \<Rightarrow> nat \<Rightarrow> string + string option" where
  "read_repo_file_limit ck repo_root path max_bytes =
     (let absolute = path_join repo_root path in
      if \<not> under repo_root absolute then Inr None
      else and_then (open_guarded ck absolute) (\<lambda>opened.
        case opened of
          None \<Rightarrow> Inr None
        | Some f \<Rightarrow>
            and_then (ok_or (''fstat '' @ absolute) (of_stat f)) (\<lambda>st.
              if \<not> fs_is_file st then Inr None
              else if max_bytes < fs_size st then Inl (path @ '': file exceeds evidence byte limit '' @ show_nat max_bytes)
              else case ck_canonicalize ck absolute of
                  Inl _ \<Rightarrow> Inr None
                | Inr resolved \<Rightarrow>
                    if path_parts resolved \<noteq> path_parts absolute \<and> \<not> under repo_root resolved then Inr None
                    else and_then (read_bytes ck path absolute max_bytes st f) (\<lambda>content. Inr (Some content)))))"

definition read_repo_file :: "Checkout \<Rightarrow> string \<Rightarrow> string \<Rightarrow> string + string option" where
  "read_repo_file ck repo_root path = read_repo_file_limit ck repo_root path NO_LIMIT"

section \<open>Changed and repository files\<close>

text \<open>A path that is not UTF-8, or outside the root, counts as the whole repository.\<close>

definition relative_scope :: "string \<Rightarrow> string \<Rightarrow> string" where
  "relative_scope repo_root real_scope =
     (let rest = drop (length (path_parts repo_root)) (path_parts real_scope) in
      if under repo_root real_scope \<and> rest \<noteq> [] \<and> valid_utf8 (join ''/'' rest) then join ''/'' rest else ''.'')"

definition scope_root :: "Checkout \<Rightarrow> string \<Rightarrow> string + string \<times> string" where
  "scope_root ck scope =
     and_then (with_context (''resolve scope '' @ scope) (ck_canonicalize ck scope)) (\<lambda>real_scope.
     and_then (git_value ck real_scope [''rev-parse'', ''--show-toplevel'']) (\<lambda>top.
     and_then (with_context ''resolve repo root'' (ck_canonicalize ck top)) (\<lambda>repo_root. Inr (repo_root, real_scope))))"

text \<open>Rename records, three columns each; a later record of the same destination wins.\<close>

fun rename_records :: "string list \<Rightarrow> (string \<rightharpoonup> string) \<Rightarrow> (string \<rightharpoonup> string)" where
  "rename_records (status # old # new # others) m =
     rename_records others (if starts_with status ''R'' then m(new \<mapsto> old) else m)"
| "rename_records _ m = m"

definition base_source :: "Checkout \<Rightarrow> string \<Rightarrow> DiffBase \<Rightarrow> string set \<Rightarrow> string \<Rightarrow> string \<Rightarrow> string + string" where
  "base_source ck repo_root base additions path old_name =
     (case base of
        EmptyTree _ \<Rightarrow> Inr []
      | Commit revision \<Rightarrow>
          if path \<in> additions then Inr []
          else with_context (''unavailable base source evidence '' @ old_name)
            (git ck repo_root [''show'', revision @ '':'' @ old_name]))"

definition ensure_source_text :: "string \<Rightarrow> string \<Rightarrow> string + unit" where
  "ensure_source_text path txt = (if CHR 0x00 \<in> set txt then Inl (path @ '': binary source evidence'') else Inr ())"

definition tracked_change ::
  "Checkout \<Rightarrow> string \<Rightarrow> DiffBase \<Rightarrow> string option \<Rightarrow> (string \<rightharpoonup> string) \<Rightarrow> string set \<Rightarrow> string \<Rightarrow> string + ChangedFile" where
  "tracked_change ck repo_root base head renamed additions path =
     (let old_name = (case renamed path of Some old \<Rightarrow> old | None \<Rightarrow> path) in
      and_then (git_diff_at ck repo_root (base_rev base) head
          ([''-M'', ''--unified=3'', ''--'', path] @ (if old_name \<noteq> path then [old_name] else []))) (\<lambda>diff.
      and_then (base_source ck repo_root base additions path old_name) (\<lambda>before.
      and_then (ensure_source_text old_name before) (\<lambda>_.
        Inr \<lparr>cf_path = path, cf_patch = trim_end diff, cf_base = before\<rparr>))))"

definition untracked_change :: "Checkout \<Rightarrow> string \<Rightarrow> string \<Rightarrow> string + ChangedFile option" where
  "untracked_change ck repo_root path =
     and_then (read_repo_file ck repo_root path) (\<lambda>content.
       Inr (map_option (\<lambda>c. \<lparr>cf_path = path, cf_patch = patch_for_new_file c, cf_base = []\<rparr>) content))"

text \<open>The loop over the tracked and then the untracked paths, each path once.\<close>

fun changed_loop ::
  "(string \<Rightarrow> bool) \<Rightarrow> (string \<Rightarrow> string + ChangedFile option) \<Rightarrow> string set \<Rightarrow> string list \<Rightarrow> string + ChangedFile list" where
  "changed_loop excluded read seen [] = Inr []"
| "changed_loop excluded read seen (path # paths) =
     (if \<not> is_source_path path \<or> excluded path \<or> path \<in> seen then changed_loop excluded read seen paths
      else and_then (read path) (\<lambda>found.
        and_then (changed_loop excluded read (insert path seen) paths) (\<lambda>files.
          Inr ((case found of None \<Rightarrow> [] | Some f \<Rightarrow> [f]) @ files))))"

definition changed_files_in_scope ::
  "Checkout \<Rightarrow> (string \<Rightarrow> bool) \<Rightarrow> string option \<Rightarrow> string option \<Rightarrow> string \<Rightarrow> string + ChangedFile list" where
  "changed_files_in_scope ck excluded base head scope =
     and_then (scope_root ck scope) (\<lambda>(repo_root, real_scope).
     let rel = relative_scope repo_root real_scope;
         target = (case head of Some h \<Rightarrow> h | None \<Rightarrow> ''HEAD'')
     in and_then (case base of Some revision \<Rightarrow> merge_base_at ck repo_root revision target | None \<Rightarrow> diff_base ck repo_root) (\<lambda>from_base.
     let diff = git_diff_at ck repo_root (base_rev from_base) head in
     and_then (diff [''-M'', ''--name-status'', ''-z'', ''--diff-filter=R'', ''--'', rel]) (\<lambda>renames.
     and_then (diff [''--name-only'', ''-z'', ''--diff-filter=ACMRTUXB'', ''--'', rel]) (\<lambda>tracked.
     and_then (case base of Some _ \<Rightarrow> Inr []
       | None \<Rightarrow> git ck repo_root [''ls-files'', ''--others'', ''--exclude-standard'', ''-z'', ''--'', rel]) (\<lambda>untracked.
     and_then (diff [''-M'', ''--name-only'', ''-z'', ''--diff-filter=A'', ''--'', rel]) (\<lambda>added.
       let renamed = rename_records (nul_lines renames) Map.empty; others = nul_lines untracked in
       changed_loop excluded (\<lambda>path.
           if path \<in> set others then untracked_change ck repo_root path
           else and_then (tracked_change ck repo_root from_base head renamed (set (nul_lines added)) path) (\<lambda>f. Inr (Some f)))
         {} (nul_lines tracked @ others)))))))"

text \<open>The files of all scopes, the first of each path.\<close>

fun first_of_scopes :: "('f \<Rightarrow> string) \<Rightarrow> (string \<Rightarrow> string + 'f list) \<Rightarrow> 'f list \<Rightarrow> string list \<Rightarrow> string + 'f list" where
  "first_of_scopes path_of read files [] = Inr files"
| "first_of_scopes path_of read files (scope # scopes) =
     and_then (read scope) (\<lambda>found.
       first_of_scopes path_of read
         (foldl (\<lambda>fs f. if path_of f \<in> path_of ` set fs then fs else fs @ [f]) files found) scopes)"

definition collect_changed_files ::
  "Checkout \<Rightarrow> (string \<Rightarrow> bool) \<Rightarrow> string option \<Rightarrow> string option \<Rightarrow> string list \<Rightarrow> string + ChangedFile list" where
  "collect_changed_files ck excluded base head scopes =
     first_of_scopes cf_path (changed_files_in_scope ck excluded base head) [] scopes"

definition changed_files :: "Checkout \<Rightarrow> string list \<Rightarrow> (string \<Rightarrow> bool) \<Rightarrow> string + ChangedFile list" where
  "changed_files ck scopes excluded = collect_changed_files ck excluded None None scopes"

definition changed_files_since :: "Checkout \<Rightarrow> string list \<Rightarrow> (string \<Rightarrow> bool) \<Rightarrow> string \<Rightarrow> string + ChangedFile list" where
  "changed_files_since ck scopes excluded base = collect_changed_files ck excluded (Some base) None scopes"

fun read_source_files :: "Checkout \<Rightarrow> (string \<Rightarrow> bool) \<Rightarrow> string \<Rightarrow> string list \<Rightarrow> string + SourceFile list" where
  "read_source_files ck excluded repo_root [] = Inr []"
| "read_source_files ck excluded repo_root (path # paths) =
     (if \<not> is_source_path path \<or> excluded path then read_source_files ck excluded repo_root paths
      else and_then (read_repo_file ck repo_root path) (\<lambda>found.
        and_then (read_source_files ck excluded repo_root paths) (\<lambda>files.
          Inr ((case found of None \<Rightarrow> [] | Some c \<Rightarrow> [\<lparr>sf_path = path, sf_content = c\<rparr>]) @ files))))"

definition repository_files_in_scope :: "Checkout \<Rightarrow> (string \<Rightarrow> bool) \<Rightarrow> string \<Rightarrow> string + SourceFile list" where
  "repository_files_in_scope ck excluded scope =
     and_then (scope_root ck scope) (\<lambda>(repo_root, real_scope).
     and_then (git ck repo_root [''ls-files'', ''--cached'', ''--others'', ''--exclude-standard'', ''-z'', ''--'',
         relative_scope repo_root real_scope]) (\<lambda>paths.
       read_source_files ck excluded repo_root (nul_lines paths)))"

definition repository_files :: "Checkout \<Rightarrow> string list \<Rightarrow> (string \<Rightarrow> bool) \<Rightarrow> string + SourceFile list" where
  "repository_files ck scopes excluded = first_of_scopes sf_path (repository_files_in_scope ck excluded) [] scopes"

section \<open>Committed files\<close>

definition hex_lower_byte :: "char \<Rightarrow> bool" where
  "hex_lower_byte c \<longleftrightarrow> is_digit c \<or> (97::nat) \<le> of_char c \<and> (of_char c :: nat) \<le> 102"

fun one_checkout :: "Checkout \<Rightarrow> string \<Rightarrow> string option \<Rightarrow> string list \<Rightarrow> string + unit" where
  "one_checkout ck head identity [] = Inr ()"
| "one_checkout ck head identity (scope # scopes) =
     and_then (repository_root ck scope) (\<lambda>root_path.
       if identity \<noteq> None \<and> identity \<noteq> Some root_path then Inl ''committed source scopes must share one canonical checkout''
       else and_then
         (if identity = None then and_then (git_value ck root_path [''cat-file'', ''-t'', head])
            (\<lambda>t. if t \<noteq> ''commit'' then Inl ''pinned head must identify a commit'' else Inr ())
          else Inr ())
         (\<lambda>_. one_checkout ck head (Some root_path) scopes))"

definition validate_pinned_scopes :: "Checkout \<Rightarrow> string list \<Rightarrow> string \<Rightarrow> string + unit" where
  "validate_pinned_scopes ck scopes head =
     (if length head \<notin> {40, 64} \<or> \<not> list_all hex_lower_byte head
      then Inl ''pinned head must be a full lowercase Git commit identity''
      else one_checkout ck head None scopes)"

definition changed_files_at ::
  "Checkout \<Rightarrow> string list \<Rightarrow> (string \<Rightarrow> bool) \<Rightarrow> string \<Rightarrow> string \<Rightarrow> string + ChangedFile list" where
  "changed_files_at ck scopes excluded base head =
     and_then (validate_pinned_scopes ck scopes head) (\<lambda>_. collect_changed_files ck excluded (Some base) (Some head) scopes)"

record Blob =
  bl_path :: string
  bl_id :: string
  bl_size :: nat

record TreeWalk =
  tw_seen :: "string list"
  tw_total :: nat

definition saturating_add :: "nat \<Rightarrow> nat \<Rightarrow> nat" where
  "saturating_add a b = min (a + b) NO_LIMIT"

text \<open>A record of \<open>git ls-tree\<close>: \<open>None\<close> when it is skipped. The text of a failed \<open>parse::<usize>\<close> is the
  standard library's; one of its texts stands for all of them.\<close>

definition tree_record :: "(string \<Rightarrow> bool) \<Rightarrow> TreeWalk \<Rightarrow> string \<Rightarrow> string + (TreeWalk \<times> Blob) option" where
  "tree_record excluded w rec =
     (case split_once (CHR 0x09) rec of
        None \<Rightarrow> Inl ''invalid Git tree evidence''
      | Some (meta, path) \<Rightarrow>
          if \<not> is_source_path path \<or> excluded path \<or> path \<in> set (tw_seen w) then Inr None
          else if \<not> starts_with meta ''100644 blob '' \<and> \<not> starts_with meta ''100755 blob ''
          then Inl (path @ '': unsupported non-regular committed source context'')
          else
            let columns = split_whitespace meta in
            if length columns \<le> 2 then Inl ''missing Git blob''
            else if length columns \<le> 3 then Inl ''missing Git blob size''
            else and_then (ok_or ''invalid digit found in string'' (parse_usize (columns ! 3))) (\<lambda>size.
              let seen = tw_seen w @ [path]; total = saturating_add (tw_total w) size in
              if 10000 < length seen \<or> 10000000 < size \<or> 100000000 < total
              then Inl ''committed source context exceeds inventory limits (10,000 files, 10 MB per file, 100 MB total); complete review unavailable''
              else Inr (Some (\<lparr>tw_seen = seen, tw_total = total\<rparr>, \<lparr>bl_path = path, bl_id = columns ! 2, bl_size = size\<rparr>))))"

fun tree_records :: "(string \<Rightarrow> bool) \<Rightarrow> TreeWalk \<Rightarrow> string list \<Rightarrow> string + TreeWalk \<times> Blob list" where
  "tree_records excluded w [] = Inr (w, [])"
| "tree_records excluded w (rec # records) =
     and_then (tree_record excluded w rec) (\<lambda>found.
       case found of
         None \<Rightarrow> tree_records excluded w records
       | Some (w', b) \<Rightarrow> and_then (tree_records excluded w' records) (\<lambda>(w'', bs). Inr (w'', b # bs)))"

text \<open>The output of \<open>git cat-file --batch\<close>, one record for each blob asked for and nothing after them.\<close>

definition blob_header :: "Blob \<Rightarrow> string" where
  "blob_header b = bl_id b @ '' blob '' @ show_nat (bl_size b)"

definition blob_file :: "Blob \<Rightarrow> string \<Rightarrow> string + SourceFile \<times> string" where
  "blob_file b out =
     (if NL \<notin> set out then Inl ''missing Git batch header''
      else
        let header = takeWhile (\<lambda>c. c \<noteq> NL) out; body = drop (length header + 1) out; bytes = take (bl_size b) body in
        if \<not> valid_utf8 header then Inl ''invalid utf-8 sequence''
        else if header \<noteq> blob_header b then Inl (bl_path b @ '': Git batch blob identity/size mismatched'')
        else if length body < bl_size b then Inl ''truncated Git batch source''
        else if \<not> valid_utf8 bytes then Inl (bl_path b @ '': non-UTF-8 committed source'')
        else and_then (ensure_source_text (bl_path b) bytes) (\<lambda>_.
          if take 1 (drop (bl_size b) body) \<noteq> [NL] then Inl (bl_path b @ '': missing Git batch terminator'')
          else Inr (\<lparr>sf_path = bl_path b, sf_content = bytes\<rparr>, drop (bl_size b + 1) body)))"

fun parse_batch :: "Blob list \<Rightarrow> string \<Rightarrow> string + SourceFile list" where
  "parse_batch [] out = (if out \<noteq> [] then Inl ''unexpected trailing Git batch data'' else Inr [])"
| "parse_batch (b # blobs) out =
     and_then (blob_file b out) (\<lambda>(f, rest). and_then (parse_batch blobs rest) (\<lambda>files. Inr (f # files)))"

definition read_blob_batch :: "Checkout \<Rightarrow> string \<Rightarrow> Blob list \<Rightarrow> string + SourceFile list" where
  "read_blob_batch ck repo_root blobs =
     (case ck_batch ck repo_root (concat (map (\<lambda>b. bl_id b @ [NL]) blobs)) of
        None \<Rightarrow> Inl ''git cat-file failed to run''
      | Some r \<Rightarrow>
          if \<not> gr_success r then Inl (''Git batch source read failed: '' @ gr_stderr r)
          else parse_batch blobs (gr_stdout r))"

fun committed_files :: "Checkout \<Rightarrow> (string \<Rightarrow> bool) \<Rightarrow> string \<Rightarrow> TreeWalk \<Rightarrow> string list \<Rightarrow> string + SourceFile list" where
  "committed_files ck excluded head w [] = Inr []"
| "committed_files ck excluded head w (scope # scopes) =
     and_then (ck_canonicalize ck scope) (\<lambda>real_scope.
     and_then (repository_root ck real_scope) (\<lambda>repo_root.
     and_then (git ck repo_root [''ls-tree'', ''-r'', ''-l'', ''-z'', head, ''--'', relative_scope repo_root real_scope]) (\<lambda>tree.
     and_then (tree_records excluded w (nul_lines tree)) (\<lambda>(w', blobs).
     and_then (if blobs \<noteq> [] then read_blob_batch ck repo_root blobs else Inr []) (\<lambda>files.
     and_then (committed_files ck excluded head w' scopes) (\<lambda>rest. Inr (files @ rest)))))))"

definition repository_files_at :: "Checkout \<Rightarrow> string list \<Rightarrow> (string \<Rightarrow> bool) \<Rightarrow> string \<Rightarrow> string + SourceFile list" where
  "repository_files_at ck scopes excluded head =
     and_then (validate_pinned_scopes ck scopes head) (\<lambda>_.
       committed_files ck excluded head \<lparr>tw_seen = [], tw_total = 0\<rparr> scopes)"

section \<open>The auxiliary inventory\<close>

record RepositoryEvidence =
  re_files :: "SourceFile list"
  re_changes :: "RepositoryChange list"
  re_unknowns :: "string list"
  re_head :: string

definition EVIDENCE_NAMES :: "string list" where
  "EVIDENCE_NAMES =
     [''cargo.toml'', ''cargo.lock'', ''package.json'', ''package-lock.json'', ''npm-shrinkwrap.json'', ''yarn.lock'',
      ''pnpm-lock.yaml'', ''pyproject.toml'', ''poetry.lock'', ''uv.lock'', ''requirements.txt'', ''go.mod'', ''go.sum'',
      ''gemfile'', ''gemfile.lock'', ''composer.json'', ''composer.lock'', ''pom.xml'', ''build.gradle'', ''build.gradle.kts'',
      ''pipfile'', ''pipfile.lock'', ''bun.lock'', ''bun.lockb'', ''packages.lock.json'', ''package.swift'', ''package.resolved'',
      ''mix.exs'', ''mix.lock'', ''deno.json'', ''deno.jsonc'', ''deno.lock'']"

definition evidence_path :: "string \<Rightarrow> bool" where
  "evidence_path path \<longleftrightarrow>
     (let name = map to_ascii_lower (last (split_on (CHR ''/'') path)) in
      is_source_path path \<or>
      list_ex (ends_with name) [''.md'', ''.mdx'', ''.markdown'', ''.rst'', ''.adoc'', ''.csproj''] \<or>
      starts_with name ''requirements'' \<and> ends_with name ''.txt'' \<or>
      str_contains name ''changelog'' \<or> str_contains name ''release-notes'' \<or> name \<in> set EVIDENCE_NAMES)"

record StatusEntry =
  se_removed :: bool
  se_old_path :: "string option"
  se_added :: bool

fun status_records :: "string list \<Rightarrow> (string \<times> StatusEntry) list \<Rightarrow> string + (string \<times> StatusEntry) list" where
  "status_records [] changes = Inr changes"
| "status_records [kind] changes = Inl ''malformed Git name-status evidence''"
| "status_records (kind # path # columns) changes =
     (let entry = (\<lambda>old. \<lparr>se_removed = starts_with kind ''D'', se_old_path = old, se_added = starts_with kind ''A''\<rparr>) in
      if starts_with kind ''R'' \<or> starts_with kind ''C'' then
        (case columns of
           [] \<Rightarrow> Inl ''missing rename destination''
         | destination # columns' \<Rightarrow> status_records columns' (map_insert destination (entry (Some path)) changes))
      else status_records columns (map_insert path (entry None) changes))"

record Limits =
  lm_files :: nat
  lm_file_bytes :: nat
  lm_total_bytes :: nat

record Gathering =
  ga_evidence :: RepositoryEvidence
  ga_seen :: "string list"
  ga_total :: nat

definition note_unknown :: "string \<Rightarrow> Gathering \<Rightarrow> Gathering" where
  "note_unknown u g = g\<lparr>ga_evidence := (ga_evidence g)\<lparr>re_unknowns := re_unknowns (ga_evidence g) @ [u]\<rparr>\<rparr>"

definition unsupported_rename :: "(string \<times> StatusEntry) list \<Rightarrow> string \<Rightarrow> bool" where
  "unsupported_rename changes path \<longleftrightarrow>
     \<not> evidence_path path \<and>
     (case Option.bind (map_of changes path) se_old_path of None \<Rightarrow> False | Some old \<Rightarrow> evidence_path old)"

text \<open>The current text of a path, or why it is unknown.\<close>

definition current_evidence :: "Checkout \<Rightarrow> string \<Rightarrow> nat \<Rightarrow> StatusEntry option \<Rightarrow> string \<Rightarrow> string + string option" where
  "current_evidence ck repo_root max_bytes change path =
     (if (case change of None \<Rightarrow> False | Some c \<Rightarrow> se_removed c) then Inr None
      else case read_repo_file_limit ck repo_root path max_bytes of
          Inl e \<Rightarrow> Inl (path @ '': '' @ e)
        | Inr (Some txt) \<Rightarrow>
            if CHR 0x00 \<in> set txt then Inl (path @ '': unreadable, binary or unsafe evidence'') else Inr (Some txt)
        | Inr None \<Rightarrow> Inl (path @ '': unreadable, binary or unsafe evidence''))"

text \<open>The base text of a changed path, or why it is unknown; the outer error ends the collection.\<close>

definition base_evidence ::
  "Checkout \<Rightarrow> (string \<Rightarrow> bool) \<Rightarrow> string \<Rightarrow> string \<Rightarrow> nat \<Rightarrow> StatusEntry option \<Rightarrow> string \<Rightarrow> string + (string + string)" where
  "base_evidence ck excluded repo_root revision max_bytes change path =
     (case change of
        None \<Rightarrow> Inr (Inr [])
      | Some c \<Rightarrow>
          let old = (case se_old_path c of Some o' \<Rightarrow> o' | None \<Rightarrow> path); object = revision @ '':'' @ old in
          if excluded old then Inr (Inl (path @ '': previous path excluded''))
          else case git_value ck repo_root [''cat-file'', ''-s'', object] of
              Inr size_text \<Rightarrow>
                and_then (ok_or ''invalid digit found in string'' (parse_usize size_text)) (\<lambda>size. Inr (
                  if max_bytes < size then Inl (old @ '': base exceeds evidence byte limit'')
                  else case git ck repo_root [''show'', object] of
                      Inr txt \<Rightarrow> if CHR 0x00 \<in> set txt then Inl (old @ '': binary base evidence'') else Inr txt
                    | Inl e \<Rightarrow> Inl (old @ '': unreadable base evidence: '' @ e)))
            | Inl e \<Rightarrow>
                if se_added c then Inr (Inr []) else Inr (Inl (old @ '': unavailable base evidence: '' @ e)))"

definition saturating_mul :: "nat \<Rightarrow> nat \<Rightarrow> nat" where
  "saturating_mul a b = min (a * b) NO_LIMIT"

definition retain ::
  "nat \<Rightarrow> string list \<Rightarrow> StatusEntry option \<Rightarrow> string \<Rightarrow> string option \<Rightarrow> string \<Rightarrow> Gathering \<Rightarrow> Gathering" where
  "retain max_total untracked change path content before g =
     (let compared = change \<noteq> None \<or> (content \<noteq> None \<and> path \<in> set untracked);
          bytes = saturating_add (length before)
            (case content of None \<Rightarrow> 0 | Some txt \<Rightarrow> saturating_mul (length txt) (if compared then 2 else 1));
          ev = ga_evidence g
      in if max_total < saturating_add (ga_total g) bytes
         then note_unknown (path @ '': total evidence byte limit '' @ show_nat max_total @ '' reached'') g
         else g\<lparr>ga_total := ga_total g + bytes,
           ga_evidence := ev\<lparr>re_files := re_files ev @ (case content of None \<Rightarrow> [] | Some txt \<Rightarrow> [\<lparr>sf_path = path, sf_content = txt\<rparr>]),
             re_changes := re_changes ev @ (if compared then
               [\<lparr>cg_path = path, cg_old_path = Option.bind change se_old_path, cg_base = before, cg_content = content\<rparr>] else [])\<rparr>\<rparr>)"

definition EXCLUDED_NOTE :: string where "EXCLUDED_NOTE = ''Explicit exclusions narrowed repository evidence coverage''"

text \<open>One path of the inventory that counts; the flag is the \<open>break\<close> at the file limit.\<close>

definition gather_counted ::
  "Checkout \<Rightarrow> (string \<Rightarrow> bool) \<Rightarrow> Limits \<Rightarrow> string \<Rightarrow> string \<Rightarrow> (string \<times> StatusEntry) list \<Rightarrow> string list \<Rightarrow> string \<Rightarrow>
    Gathering \<Rightarrow> string + Gathering \<times> bool" where
  "gather_counted ck excluded lm repo_root revision changes untracked path g =
     (if excluded path then
        Inr (if EXCLUDED_NOTE \<in> set (re_unknowns (ga_evidence g)) then g else note_unknown EXCLUDED_NOTE g, False)
      else if lm_files lm < length (ga_seen g) then
        Inr (note_unknown (''evidence file count limit '' @ show_nat (lm_files lm) @ '' reached; remaining paths omitted'') g, True)
      else
        let change = map_of changes path in
        case current_evidence ck repo_root (lm_file_bytes lm) change path of
          Inl u \<Rightarrow> Inr (note_unknown u g, False)
        | Inr content \<Rightarrow>
            and_then (base_evidence ck excluded repo_root revision (lm_file_bytes lm) change path) (\<lambda>before.
              Inr (case before of
                  Inl u \<Rightarrow> note_unknown u g
                | Inr txt \<Rightarrow> retain (lm_total_bytes lm) untracked change path content txt g, False)))"

fun gather_paths ::
  "Checkout \<Rightarrow> (string \<Rightarrow> bool) \<Rightarrow> Limits \<Rightarrow> string \<Rightarrow> string \<Rightarrow> (string \<times> StatusEntry) list \<Rightarrow> string list \<Rightarrow> string list \<Rightarrow>
    Gathering \<Rightarrow> string + Gathering" where
  "gather_paths ck excluded lm repo_root revision changes untracked [] g = Inr g"
| "gather_paths ck excluded lm repo_root revision changes untracked (path # paths) g =
     (let g1 = (if unsupported_rename changes path
                then note_unknown (path @ '': evidence was renamed to an unsupported destination'') g else g) in
      if \<not> evidence_path path \<or> path \<in> set (ga_seen g1)
      then gather_paths ck excluded lm repo_root revision changes untracked paths g1
      else and_then (gather_counted ck excluded lm repo_root revision changes untracked path
          (g1\<lparr>ga_seen := ga_seen g1 @ [path]\<rparr>)) (\<lambda>(g2, stop).
        if stop then Inr g2 else gather_paths ck excluded lm repo_root revision changes untracked paths g2))"

definition gather_scope ::
  "Checkout \<Rightarrow> (string \<Rightarrow> bool) \<Rightarrow> string option \<Rightarrow> Limits \<Rightarrow> string \<Rightarrow> string option \<times> Gathering \<Rightarrow> string + string option \<times> Gathering" where
  "gather_scope ck excluded base lm scope0 = (\<lambda>(identity, g).
     and_then (ck_canonicalize ck scope0) (\<lambda>scope.
     and_then (repository_root ck scope) (\<lambda>repo_root.
     and_then (head_sha ck repo_root) (\<lambda>head.
     if identity \<noteq> None \<and> identity \<noteq> Some repo_root then Inl ''optional repository analyses require scopes from one checkout''
     else if re_head (ga_evidence g) \<noteq> [] \<and> re_head (ga_evidence g) \<noteq> head
     then Inl ''optional repository analyses require scopes from one repository head''
     else
       let rel = relative_scope repo_root scope; g0 = g\<lparr>ga_evidence := (ga_evidence g)\<lparr>re_head := head\<rparr>\<rparr> in
       and_then (case base of Some b \<Rightarrow> merge_base ck repo_root b | None \<Rightarrow> diff_base ck repo_root) (\<lambda>from_base.
       and_then (git_diff ck repo_root (base_rev from_base) [''-M'', ''--name-status'', ''-z'', ''--'', rel]) (\<lambda>status.
       and_then (status_records (nul_lines status) []) (\<lambda>changes.
       and_then (case base of Some _ \<Rightarrow> Inr []
         | None \<Rightarrow> git ck repo_root [''ls-files'', ''--others'', ''--exclude-standard'', ''-z'', ''--'', rel]) (\<lambda>others.
       and_then (git ck repo_root [''ls-files'', ''--cached'', ''-z'', ''--'', rel]) (\<lambda>cached.
         let untracked = nul_lines others;
             inventory = sorted_list_of_set (set (nul_lines cached) \<union> set untracked \<union> set (map fst changes))
         in and_then (gather_paths ck excluded lm repo_root (base_rev from_base) changes untracked inventory g0)
              (\<lambda>g'. Inr (Some repo_root, g')))))))))))"

fun gather_scopes ::
  "Checkout \<Rightarrow> (string \<Rightarrow> bool) \<Rightarrow> string option \<Rightarrow> Limits \<Rightarrow> string list \<Rightarrow> string option \<times> Gathering \<Rightarrow> string + string option \<times> Gathering" where
  "gather_scopes ck excluded base lm [] st = Inr st"
| "gather_scopes ck excluded base lm (scope # scopes) st =
     and_then (gather_scope ck excluded base lm scope st) (gather_scopes ck excluded base lm scopes)"

definition empty_gathering :: Gathering where
  "empty_gathering =
     \<lparr>ga_evidence = \<lparr>re_files = [], re_changes = [], re_unknowns = [], re_head = []\<rparr>, ga_seen = [], ga_total = 0\<rparr>"

definition repository_evidence ::
  "Checkout \<Rightarrow> string list \<Rightarrow> (string \<Rightarrow> bool) \<Rightarrow> string option \<Rightarrow> Limits \<Rightarrow> string + RepositoryEvidence" where
  "repository_evidence ck scopes excluded base lm =
     and_then (gather_scopes ck excluded base lm scopes (None, empty_gathering)) (\<lambda>(_, g). Inr (ga_evidence g))"

section \<open>A batch is read exactly\<close>

definition blob_ok :: "Blob \<Rightarrow> string \<Rightarrow> bool" where
  "blob_ok b content \<longleftrightarrow>
     NL \<notin> set (bl_id b) \<and> valid_utf8 (blob_header b) \<and>
     length content = bl_size b \<and> valid_utf8 content \<and> CHR 0x00 \<notin> set content"

definition blob_record :: "Blob \<Rightarrow> SourceFile \<Rightarrow> string" where
  "blob_record b f = blob_header b @ NL # sf_content f @ [NL]"

lemma blob_header_line: "NL \<in> set (blob_header b) \<longleftrightarrow> NL \<in> set (bl_id b)"
  using show_nat_not_sep [of NL "bl_size b"] by (auto simp: blob_header_def is_digit_def)

lemma drop_take_1: "take 1 (drop n xs) = [x] \<Longrightarrow> xs = take n xs @ x # drop (n + 1) xs"
  by (metis One_nat_def append_take_drop_id drop_drop add.commute append_Cons append_Nil)

lemma blob_file_sound:
  assumes "blob_file b out = Inr (f, rest)"
  shows "sf_path f = bl_path b" "blob_ok b (sf_content f)" "out = blob_record b f @ rest"
proof -
  define header where "header = takeWhile (\<lambda>c. c \<noteq> NL) out"
  define body where "body = drop (length header + 1) out"
  have steps: "NL \<in> set out" "valid_utf8 header" "header = blob_header b" "bl_size b \<le> length body"
    "valid_utf8 (take (bl_size b) body)" "CHR 0x00 \<notin> set (take (bl_size b) body)" "take 1 (drop (bl_size b) body) = [NL]"
    "f = \<lparr>sf_path = bl_path b, sf_content = take (bl_size b) body\<rparr>" "rest = drop (bl_size b + 1) body"
    using assms [unfolded blob_file_def Let_def, folded header_def, folded body_def]
    by (auto simp: and_then_eq_Inr ensure_source_text_def split: if_splits)
  have "out = header @ NL # body"
  proof -
    have "dropWhile (\<lambda>c. c \<noteq> NL) out \<noteq> []" using steps(1) by (auto simp: dropWhile_eq_Nil_conv)
    then have "dropWhile (\<lambda>c. c \<noteq> NL) out = NL # tl (dropWhile (\<lambda>c. c \<noteq> NL) out)"
      using hd_dropWhile [of "\<lambda>c. c \<noteq> NL" out] by (metis list.collapse)
    moreover have "body = tl (dropWhile (\<lambda>c. c \<noteq> NL) out)"
      unfolding body_def header_def by (simp add: dropWhile_eq_drop drop_Suc tl_drop)
    ultimately show ?thesis unfolding header_def by (metis takeWhile_dropWhile_id)
  qed
  moreover have "body = take (bl_size b) body @ NL # rest" using drop_take_1 [OF steps(7)] steps(9) by simp
  ultimately show "out = blob_record b f @ rest" using steps(3,8) by (simp add: blob_record_def)
  have "NL \<notin> set header" unfolding header_def by (auto dest: set_takeWhileD)
  then show "blob_ok b (sf_content f)" using steps by (simp add: blob_ok_def flip: blob_header_line)
  show "sf_path f = bl_path b" using steps(8) by simp
qed

lemma blob_file_complete:
  assumes "blob_ok b (sf_content f)" "sf_path f = bl_path b"
  shows "blob_file b (blob_record b f @ rest) = Inr (f, rest)"
proof -
  have line: "NL \<notin> set (blob_header b)" using assms(1) by (simp add: blob_ok_def blob_header_line)
  then have "takeWhile (\<lambda>c. c \<noteq> NL) (blob_header b @ NL # x) = blob_header b" for x
    by (subst takeWhile_append2) auto
  then show ?thesis using assms by (auto simp: blob_file_def blob_record_def blob_ok_def ensure_source_text_def Let_def)
qed

lemma parse_batch_iff:
  "parse_batch blobs out = Inr files \<longleftrightarrow>
   list_all2 (\<lambda>b f. sf_path f = bl_path b \<and> blob_ok b (sf_content f)) blobs files \<and>
   out = concat (map2 blob_record blobs files)"
proof (induction blobs arbitrary: out files)
  case (Cons b blobs)
  show ?case
  proof
    assume "parse_batch (b # blobs) out = Inr files"
    then obtain f rest fs where "blob_file b out = Inr (f, rest)" "parse_batch blobs rest = Inr fs" "files = f # fs"
      by (auto simp: and_then_eq_Inr)
    then show "list_all2 (\<lambda>b f. sf_path f = bl_path b \<and> blob_ok b (sf_content f)) (b # blobs) files \<and>
        out = concat (map2 blob_record (b # blobs) files)"
      using blob_file_sound Cons.IH by auto
  next
    assume "list_all2 (\<lambda>b f. sf_path f = bl_path b \<and> blob_ok b (sf_content f)) (b # blobs) files \<and>
        out = concat (map2 blob_record (b # blobs) files)"
    then obtain f fs where "files = f # fs" "sf_path f = bl_path b" "blob_ok b (sf_content f)"
      "out = blob_record b f @ concat (map2 blob_record blobs fs)"
      "list_all2 (\<lambda>b f. sf_path f = bl_path b \<and> blob_ok b (sf_content f)) blobs fs"
      by (auto simp: list_all2_Cons1)
    moreover from this have "parse_batch blobs (concat (map2 blob_record blobs fs)) = Inr fs" by (simp add: Cons.IH)
    ultimately show "parse_batch (b # blobs) out = Inr files" using blob_file_complete by simp
  qed
qed auto

text \<open>
  Reading a batch of blobs and writing it are inverse: files come out exactly when the output of
  git is the concatenation of one record per blob asked for, each with its identity, its size, that
  many bytes of text and a line break, and nothing else.
\<close>

theorem blob_batch_exact:
  "parse_batch blobs out = Inr files \<longleftrightarrow>
   list_all2 (\<lambda>b f. sf_path f = bl_path b \<and> blob_ok b (sf_content f)) blobs files \<and>
   out = concat (map2 blob_record blobs files)"
  by (rule parse_batch_iff)

section \<open>Committed files are within their bounds\<close>

definition walk_ok :: "(string \<Rightarrow> bool) \<Rightarrow> TreeWalk \<Rightarrow> bool" where
  "walk_ok excluded w \<longleftrightarrow>
     distinct (tw_seen w) \<and> length (tw_seen w) \<le> 10000 \<and> tw_total w \<le> 100000000 \<and>
     list_all (\<lambda>path. is_source_path path \<and> \<not> excluded path) (tw_seen w)"

lemma tree_record_ok:
  assumes "tree_record excluded w rec = Inr (Some (w', b))" "walk_ok excluded w"
  shows "walk_ok excluded w'" "tw_seen w' = tw_seen w @ [bl_path b]" "tw_total w' = tw_total w + bl_size b" "bl_size b \<le> 10000000"
proof -
  obtain size where s: "tw_total w' = saturating_add (tw_total w) size" "bl_size b = size" "size \<le> 10000000"
      "saturating_add (tw_total w) size \<le> 100000000" "tw_seen w' = tw_seen w @ [bl_path b]" "length (tw_seen w') \<le> 10000"
      "is_source_path (bl_path b)" "\<not> excluded (bl_path b)" "bl_path b \<notin> set (tw_seen w)"
    using assms(1) by (auto simp: tree_record_def Let_def and_then_eq_Inr split: option.splits if_splits)
  have "saturating_add (tw_total w) size = tw_total w + size"
    using s(4) by (auto simp: saturating_add_def NO_LIMIT_def usize_limit_def)
  then show "walk_ok excluded w'" "tw_seen w' = tw_seen w @ [bl_path b]" "tw_total w' = tw_total w + bl_size b"
    "bl_size b \<le> 10000000"
    using s assms(2) by (auto simp: walk_ok_def)
qed

lemma tree_records_ok:
  "tree_records excluded w records = Inr (w', blobs) \<Longrightarrow> walk_ok excluded w \<Longrightarrow>
   walk_ok excluded w' \<and> tw_seen w' = tw_seen w @ map bl_path blobs \<and>
   tw_total w' = tw_total w + sum_list (map bl_size blobs) \<and> list_all (\<lambda>b. bl_size b \<le> 10000000) blobs"
proof (induction records arbitrary: w blobs)
  case (Cons rec records)
  obtain found where f: "tree_record excluded w rec = Inr found" using Cons.prems(1) by (auto simp: and_then_eq_Inr)
  show ?case
  proof (cases found)
    case None
    then show ?thesis using Cons f by simp
  next
    case (Some p)
    obtain w1 b where p: "p = (w1, b)" by force
    obtain bs where bs: "tree_records excluded w1 records = Inr (w', bs)" "blobs = b # bs"
      using Cons.prems(1) f Some p by (auto simp: and_then_eq_Inr)
    show ?thesis
      using tree_record_ok [of excluded w rec w1 b] Cons.IH [OF bs(1)] Cons.prems(2) f Some p bs(2) by auto
  qed
qed simp

definition files_within :: "(string \<Rightarrow> bool) \<Rightarrow> SourceFile list \<Rightarrow> bool" where
  "files_within excluded files \<longleftrightarrow>
     distinct (map sf_path files) \<and> length files \<le> 10000 \<and>
     sum_list (map (\<lambda>f. length (sf_content f)) files) \<le> 100000000 \<and>
     list_all (\<lambda>f. is_source_path (sf_path f) \<and> \<not> excluded (sf_path f) \<and> length (sf_content f) \<le> 10000000 \<and>
       valid_utf8 (sf_content f) \<and> CHR 0x00 \<notin> set (sf_content f)) files"

lemma batch_files:
  assumes "list_all2 (\<lambda>b f. sf_path f = bl_path b \<and> blob_ok b (sf_content f)) blobs files"
  shows "map sf_path files = map bl_path blobs" "map (\<lambda>f. length (sf_content f)) files = map bl_size blobs"
    "list_all (\<lambda>b. bl_size b \<le> n) blobs \<Longrightarrow> list_all (\<lambda>f. length (sf_content f) \<le> n \<and> valid_utf8 (sf_content f) \<and> CHR 0x00 \<notin> set (sf_content f)) files"
  using assms by (induction rule: list_all2_induct) (auto simp: blob_ok_def)

lemma committed_files_ok:
  "committed_files ck excluded head w scopes = Inr files \<Longrightarrow> walk_ok excluded w \<Longrightarrow>
   \<exists>w'. walk_ok excluded w' \<and> tw_seen w' = tw_seen w @ map sf_path files \<and>
     tw_total w' = tw_total w + sum_list (map (\<lambda>f. length (sf_content f)) files) \<and>
     list_all (\<lambda>f. length (sf_content f) \<le> 10000000 \<and> valid_utf8 (sf_content f) \<and> CHR 0x00 \<notin> set (sf_content f)) files"
proof (induction scopes arbitrary: w files)
  case (Cons scope scopes)
  obtain repo_root tree w1 blobs fs rest where
    t: "tree_records excluded w (nul_lines tree) = Inr (w1, blobs)" and
    b: "(if blobs \<noteq> [] then read_blob_batch ck repo_root blobs else Inr []) = Inr fs" and
    r: "committed_files ck excluded head w1 scopes = Inr rest" "files = fs @ rest"
    using Cons.prems(1) by (auto simp: and_then_eq_Inr)
  have "list_all2 (\<lambda>b f. sf_path f = bl_path b \<and> blob_ok b (sf_content f)) blobs fs"
    using b parse_batch_iff by (auto simp: read_blob_batch_def split: if_splits option.splits)
  note fs = batch_files [OF this]
  note w1 = tree_records_ok [OF t Cons.prems(2)]
  obtain w' where "walk_ok excluded w'" "tw_seen w' = tw_seen w1 @ map sf_path rest"
      "tw_total w' = tw_total w1 + sum_list (map (\<lambda>f. length (sf_content f)) rest)"
      "list_all (\<lambda>f. length (sf_content f) \<le> 10000000 \<and> valid_utf8 (sf_content f) \<and> CHR 0x00 \<notin> set (sf_content f)) rest"
    using Cons.IH [OF r(1)] w1 by auto
  then show ?case using w1 fs fs(3) [of 10000000] by (intro exI [of _ w']) (simp add: r(2))
qed auto

text \<open>
  The committed files of a pinned head are complete within their bounds or an error: distinct
  supported source paths that are not excluded, at most 10,000 files, 10 MB each and 100 MB together,
  all of it text, and only for a full lowercase commit identity.
\<close>

theorem committed_files_bounded:
  "case repository_files_at ck scopes excluded head of
     Inl _ \<Rightarrow> True
   | Inr files \<Rightarrow> files_within excluded files \<and> length head \<in> {40, 64} \<and> list_all hex_lower_byte head"
proof (cases "repository_files_at ck scopes excluded head")
  case (Inr files)
  then have r: "committed_files ck excluded head \<lparr>tw_seen = [], tw_total = 0\<rparr> scopes = Inr files"
      and h: "length head \<in> {40, 64}" "list_all hex_lower_byte head"
    by (auto simp: repository_files_at_def and_then_eq_Inr validate_pinned_scopes_def split: if_splits)
  obtain w' where w: "walk_ok excluded w'" "tw_seen w' = map sf_path files"
      "tw_total w' = sum_list (map (\<lambda>f. length (sf_content f)) files)"
      "list_all (\<lambda>f. length (sf_content f) \<le> 10000000 \<and> valid_utf8 (sf_content f) \<and> CHR 0x00 \<notin> set (sf_content f)) files"
    using committed_files_ok [OF r] by (auto simp: walk_ok_def)
  have "length files = length (tw_seen w')" by (simp add: w(2))
  then have "files_within excluded files" using w unfolding files_within_def walk_ok_def by (auto simp: list_all_iff)
  then show ?thesis using Inr h by simp
qed simp

section \<open>The auxiliary inventory is bounded and discloses its gaps\<close>

definition retained :: "RepositoryEvidence \<Rightarrow> nat" where
  "retained ev =
     sum_list (map (\<lambda>f. length (sf_content f)) (re_files ev)) +
     sum_list (map (\<lambda>c. length (cg_base c) + (case cg_content c of None \<Rightarrow> 0 | Some txt \<Rightarrow> length txt)) (re_changes ev))"

definition collected :: "RepositoryEvidence \<Rightarrow> string set" where
  "collected ev = set (map sf_path (re_files ev)) \<union> set (map cg_path (re_changes ev))"

definition evidence_within :: "(string \<Rightarrow> bool) \<Rightarrow> Limits \<Rightarrow> RepositoryEvidence \<Rightarrow> bool" where
  "evidence_within excluded lm ev \<longleftrightarrow>
     distinct (map sf_path (re_files ev)) \<and> distinct (map cg_path (re_changes ev)) \<and>
     length (re_files ev) \<le> lm_files lm \<and> length (re_changes ev) \<le> lm_files lm \<and>
     list_all (\<lambda>f. evidence_path (sf_path f) \<and> \<not> excluded (sf_path f) \<and>
       length (sf_content f) \<le> lm_file_bytes lm \<and> CHR 0x00 \<notin> set (sf_content f)) (re_files ev) \<and>
     list_all (\<lambda>c. evidence_path (cg_path c) \<and> \<not> excluded (cg_path c) \<and> \<not> excluded (base_path c)) (re_changes ev) \<and>
     (lm_total_bytes lm < NO_LIMIT \<longrightarrow> retained ev \<le> lm_total_bytes lm)"

definition gathering_ok :: "(string \<Rightarrow> bool) \<Rightarrow> Limits \<Rightarrow> Gathering \<Rightarrow> bool" where
  "gathering_ok excluded lm g \<longleftrightarrow>
     evidence_within excluded lm (ga_evidence g) \<and> distinct (ga_seen g) \<and>
     collected (ga_evidence g) \<subseteq> set (ga_seen g) \<and>
     (lm_total_bytes lm < NO_LIMIT \<longrightarrow> retained (ga_evidence g) = ga_total g) \<and>
     (re_unknowns (ga_evidence g) = [] \<longrightarrow> set (ga_seen g) \<subseteq> collected (ga_evidence g))"

lemma note_unknown_fields [simp]:
  "re_files (ga_evidence (note_unknown u g)) = re_files (ga_evidence g)"
  "re_changes (ga_evidence (note_unknown u g)) = re_changes (ga_evidence g)"
  "re_unknowns (ga_evidence (note_unknown u g)) = re_unknowns (ga_evidence g) @ [u]"
  "re_head (ga_evidence (note_unknown u g)) = re_head (ga_evidence g)"
  "ga_seen (note_unknown u g) = ga_seen g" "ga_total (note_unknown u g) = ga_total g"
  by (simp_all add: note_unknown_def)

lemma noted_same: "evidence_within excluded lm (ga_evidence (note_unknown u g)) = evidence_within excluded lm (ga_evidence g)"
  "collected (ga_evidence (note_unknown u g)) = collected (ga_evidence g)"
  "retained (ga_evidence (note_unknown u g)) = retained (ga_evidence g)"
  by (simp_all add: evidence_within_def collected_def retained_def)

lemma noted_ok: "gathering_ok excluded lm g \<Longrightarrow> gathering_ok excluded lm (note_unknown u g)"
  by (simp add: gathering_ok_def noted_same)

lemma seen_noted_ok:
  assumes "gathering_ok excluded lm g" "path \<notin> set (ga_seen g)" "re_unknowns (ga_evidence g) \<noteq> []"
  shows "gathering_ok excluded lm (g\<lparr>ga_seen := ga_seen g @ [path]\<rparr>)"
  using assms by (auto simp: gathering_ok_def)

lemma skipped_ok:
  assumes "gathering_ok excluded lm g" "path \<notin> set (ga_seen g)"
  shows "gathering_ok excluded lm (note_unknown u (g\<lparr>ga_seen := ga_seen g @ [path]\<rparr>))"
  using assms by (auto simp: gathering_ok_def noted_same)

lemma saturating_exact:
  "saturating_add a b \<le> n \<Longrightarrow> n < NO_LIMIT \<Longrightarrow> saturating_add a b = a + b"
  "saturating_mul a b \<le> n \<Longrightarrow> n < NO_LIMIT \<Longrightarrow> saturating_mul a b = a * b"
  by (auto simp: saturating_add_def saturating_mul_def)

lemma read_repo_file_bound:
  "read_repo_file_limit ck repo_root path max_bytes = Inr (Some txt) \<Longrightarrow> length txt \<le> max_bytes"
  by (auto simp: read_repo_file_limit_def read_bytes_def Let_def and_then_eq_Inr split: if_splits option.splits sum.splits)

lemma retained_more:
  assumes "lm_total_bytes lm < NO_LIMIT" "t0 + bytes \<le> lm_total_bytes lm" "t0 = retained ev"
    "bytes = saturating_add (length before)
      (case content of None \<Rightarrow> 0 | Some txt \<Rightarrow> saturating_mul (length txt) (if compared then 2 else 1))"
    "ev' = ev\<lparr>re_files := re_files ev @ (case content of None \<Rightarrow> [] | Some txt \<Rightarrow> [\<lparr>sf_path = path, sf_content = txt\<rparr>]),
      re_changes := re_changes ev @ (if compared then
        [\<lparr>cg_path = path, cg_old_path = old, cg_base = before, cg_content = content\<rparr>] else [])\<rparr>"
    "\<not> compared \<Longrightarrow> before = []"
  shows "retained ev' = t0 + bytes"
proof -
  let ?now = "case content of None \<Rightarrow> 0 | Some txt \<Rightarrow> saturating_mul (length txt) (if compared then 2 else 1)"
  have b: "bytes \<le> lm_total_bytes lm" using assms(2) by simp
  then have sum: "bytes = length before + ?now" using saturating_exact(1) assms(1,4) by metis
  then have "?now \<le> lm_total_bytes lm" using b by simp
  then have "?now = (case content of None \<Rightarrow> 0 | Some txt \<Rightarrow> length txt * (if compared then 2 else 1))"
  proof (cases content)
    case (Some t)
    then show ?thesis using saturating_exact(2) [OF \<open>?now \<le> lm_total_bytes lm\<close> [unfolded Some option.case] assms(1)]
      by (simp only: Some option.case)
  qed simp
  then show ?thesis using sum assms(3,6) by (auto simp: retained_def assms(5) split: option.splits)
qed

lemma retain_ok:
  assumes g: "gathering_ok excluded lm g" "path \<notin> set (ga_seen g)" "length (ga_seen g) < lm_files lm"
    and path: "evidence_path path" "\<not> excluded path"
    and small: "\<And>txt. content = Some txt \<Longrightarrow> length txt \<le> lm_file_bytes lm \<and> CHR 0x00 \<notin> set txt"
    and old: "\<And>c. change = Some c \<Longrightarrow> \<not> excluded (case se_old_path c of Some old \<Rightarrow> old | None \<Rightarrow> path)"
    and gone: "content = None \<Longrightarrow> change \<noteq> None" and new: "change = None \<Longrightarrow> before = []"
  shows "gathering_ok excluded lm
    (retain (lm_total_bytes lm) untracked change path content before (g\<lparr>ga_seen := ga_seen g @ [path]\<rparr>))"
proof -
  define compared where "compared = (change \<noteq> None \<or> (content \<noteq> None \<and> path \<in> set untracked))"
  define bytes where "bytes = saturating_add (length before)
      (case content of None \<Rightarrow> 0 | Some txt \<Rightarrow> saturating_mul (length txt) (if compared then 2 else 1))"
  define ev where "ev = ga_evidence g"
  define ev' where "ev' = ev\<lparr>re_files := re_files ev @ (case content of None \<Rightarrow> [] | Some txt \<Rightarrow> [\<lparr>sf_path = path, sf_content = txt\<rparr>]),
      re_changes := re_changes ev @ (if compared then
        [\<lparr>cg_path = path, cg_old_path = Option.bind change se_old_path, cg_base = before, cg_content = content\<rparr>] else [])\<rparr>"
  have r: "retain (lm_total_bytes lm) untracked change path content before (g\<lparr>ga_seen := ga_seen g @ [path]\<rparr>) =
      (if lm_total_bytes lm < saturating_add (ga_total g) bytes
       then note_unknown (path @ '': total evidence byte limit '' @ show_nat (lm_total_bytes lm) @ '' reached'') (g\<lparr>ga_seen := ga_seen g @ [path]\<rparr>)
       else g\<lparr>ga_seen := ga_seen g @ [path], ga_total := ga_total g + bytes, ga_evidence := ev'\<rparr>)"
    unfolding retain_def Let_def bytes_def ev'_def ev_def compared_def by simp
  show ?thesis
  proof (cases "lm_total_bytes lm < saturating_add (ga_total g) bytes")
    case True
    then show ?thesis using skipped_ok [OF g(1,2)] by (simp add: r)
  next
    case False
    have ok: "evidence_within excluded lm ev" "distinct (ga_seen g)" "collected ev \<subseteq> set (ga_seen g)"
        "lm_total_bytes lm < NO_LIMIT \<Longrightarrow> retained ev = ga_total g" "re_unknowns ev = [] \<Longrightarrow> set (ga_seen g) \<subseteq> collected ev"
      using g(1) by (auto simp: gathering_ok_def ev_def)
    have total: "ga_total g + bytes \<le> lm_total_bytes lm \<and> retained ev' = ga_total g + bytes" if "lm_total_bytes lm < NO_LIMIT"
    proof -
      have "ga_total g + bytes \<le> lm_total_bytes lm" using False saturating_exact(1) [OF _ that] by (metis not_le_imp_less)
      then show ?thesis
        using retained_more [OF that _ ok(4) [OF that, symmetric] bytes_def ev'_def] new by (simp add: compared_def)
    qed
    have fresh: "path \<notin> set (map sf_path (re_files ev))" "path \<notin> set (map cg_path (re_changes ev))"
      using ok(3) g(2) by (auto simp: collected_def)
    have now: "collected ev' = insert path (collected ev)"
      using gone by (cases content; cases change) (auto simp: collected_def ev'_def compared_def)
    have "length (re_files ev) \<le> length (ga_seen g)" "length (re_changes ev) \<le> length (ga_seen g)"
      using ok(1-3) card_mono [of "set (ga_seen g)" "set (map sf_path (re_files ev))"]
        card_mono [of "set (ga_seen g)" "set (map cg_path (re_changes ev))"]
      by (auto simp: evidence_within_def collected_def distinct_card simp flip: set_map dest!: distinct_card)
    then have "length (re_files ev') \<le> lm_files lm" "length (re_changes ev') \<le> lm_files lm"
      using g(3) by (auto simp: ev'_def split: option.split)
    moreover have "\<not> excluded (base_path \<lparr>cg_path = path, cg_old_path = Option.bind change se_old_path, cg_base = before, cg_content = content\<rparr>)"
      using old path(2) by (auto simp: base_path_def split: option.splits bind_splits)
    ultimately have "evidence_within excluded lm ev'"
      using ok(1) fresh small path total unfolding evidence_within_def by (auto simp: ev'_def split: option.splits)
    then show ?thesis using False ok now total g(2) by (auto simp: r gathering_ok_def ev'_def)
  qed
qed

lemma retain_unknowns:
  "re_unknowns (ga_evidence g) \<noteq> [] \<Longrightarrow>
   re_unknowns (ga_evidence (retain max_total untracked change path content before g)) \<noteq> []"
  "ga_seen (retain max_total untracked change path content before g) = ga_seen g"
  by (simp_all add: retain_def Let_def)

lemma gather_counted_ok:
  assumes "gathering_ok excluded lm g" "path \<notin> set (ga_seen g)" "evidence_path path"
    "gather_counted ck excluded lm repo_root revision changes untracked path (g\<lparr>ga_seen := ga_seen g @ [path]\<rparr>) = Inr (g', stop)"
  shows "gathering_ok excluded lm g' \<and> ga_seen g' = ga_seen g @ [path] \<and>
    (stop \<or> re_unknowns (ga_evidence g) \<noteq> [] \<longrightarrow> re_unknowns (ga_evidence g') \<noteq> [])"
proof -
  let ?g = "g\<lparr>ga_seen := ga_seen g @ [path]\<rparr>" and ?change = "map_of changes path"
  note skip = skipped_ok [OF assms(1,2)]
  consider "excluded path" | "\<not> excluded path" "lm_files lm < length (ga_seen ?g)"
    | u where "\<not> excluded path" "\<not> lm_files lm < length (ga_seen ?g)"
        "current_evidence ck repo_root (lm_file_bytes lm) ?change path = Inl u"
    | content where "\<not> excluded path" "\<not> lm_files lm < length (ga_seen ?g)"
        "current_evidence ck repo_root (lm_file_bytes lm) ?change path = Inr content"
    by (cases "current_evidence ck repo_root (lm_file_bytes lm) ?change path") auto
  then show ?thesis
  proof cases
    case 1
    then have "g' = (if EXCLUDED_NOTE \<in> set (re_unknowns (ga_evidence ?g)) then ?g else note_unknown EXCLUDED_NOTE ?g)"
      using assms(4) by (simp add: gather_counted_def)
    then show ?thesis
      using skip seen_noted_ok [OF assms(1,2)] by (cases "re_unknowns (ga_evidence g) = []") auto
  next
    case 2
    then show ?thesis using assms(4) skip by (auto simp: gather_counted_def)
  next
    case 3
    then show ?thesis using assms(4) skip by (auto simp: gather_counted_def Let_def)
  next
    case 4
    obtain before where b: "base_evidence ck excluded repo_root revision (lm_file_bytes lm) ?change path = Inr before"
      and g': "g' = (case before of Inl u \<Rightarrow> note_unknown u ?g
         | Inr txt \<Rightarrow> retain (lm_total_bytes lm) untracked ?change path content txt ?g)"
      and stop: "\<not> stop"
      using assms(4) 4 by (auto simp: gather_counted_def Let_def and_then_eq_Inr)
    show ?thesis
    proof (cases before)
      case (Inl u)
      then show ?thesis using skip stop by (simp add: g')
    next
      case (Inr base)
      have "length t \<le> lm_file_bytes lm \<and> CHR 0x00 \<notin> set t" if "content = Some t" for t
        using 4(3) that read_repo_file_bound
        by (auto simp: current_evidence_def split: if_splits sum.splits option.splits)
      moreover have "\<not> excluded (case se_old_path c of Some old \<Rightarrow> old | None \<Rightarrow> path)" if "?change = Some c" for c
        using b that by (auto simp: base_evidence_def Let_def Inr split: if_splits)
      moreover have "content = None \<Longrightarrow> ?change \<noteq> None"
        using 4(3) by (auto simp: current_evidence_def split: if_splits sum.splits option.splits)
      moreover have "?change = None \<Longrightarrow> base = []" using b by (auto simp: base_evidence_def Inr)
      ultimately have "gathering_ok excluded lm (retain (lm_total_bytes lm) untracked ?change path content base ?g)"
        using retain_ok [OF assms(1,2) _ assms(3) 4(1), of content ?change base untracked] 4(2) by simp
      then show ?thesis using stop retain_unknowns(1) [of ?g] by (simp add: g' Inr retain_unknowns(2))
    qed
  qed
qed

lemma gather_paths_ok:
  "gather_paths ck excluded lm repo_root revision changes untracked paths g = Inr g' \<Longrightarrow> gathering_ok excluded lm g \<Longrightarrow>
   gathering_ok excluded lm g' \<and> set (ga_seen g) \<subseteq> set (ga_seen g') \<and>
   (re_unknowns (ga_evidence g) \<noteq> [] \<longrightarrow> re_unknowns (ga_evidence g') \<noteq> []) \<and>
   (re_unknowns (ga_evidence g') = [] \<longrightarrow> {p \<in> set paths. evidence_path p} \<subseteq> set (ga_seen g'))"
proof (induction paths arbitrary: g)
  case (Cons path paths)
  define g1 where "g1 = (if unsupported_rename changes path
      then note_unknown (path @ '': evidence was renamed to an unsupported destination'') g else g)"
  have g1: "gathering_ok excluded lm g1" "ga_seen g1 = ga_seen g"
      "re_unknowns (ga_evidence g) \<noteq> [] \<longrightarrow> re_unknowns (ga_evidence g1) \<noteq> []"
    using Cons.prems(2) noted_ok by (auto simp: g1_def)
  show ?case
  proof (cases "\<not> evidence_path path \<or> path \<in> set (ga_seen g1)")
    case True
    then have "gather_paths ck excluded lm repo_root revision changes untracked paths g1 = Inr g'"
      using Cons.prems(1) by (simp add: g1_def [symmetric] Let_def)
    then show ?thesis using Cons.IH [of g1] g1 True by auto
  next
    case False
    let ?g = "g1\<lparr>ga_seen := ga_seen g1 @ [path]\<rparr>"
    obtain g2 stop where s: "gather_counted ck excluded lm repo_root revision changes untracked path ?g = Inr (g2, stop)"
        and rest: "(if stop then Inr g2 else gather_paths ck excluded lm repo_root revision changes untracked paths g2) = Inr g'"
      using Cons.prems(1) False unfolding gather_paths.simps Let_def g1_def [symmetric] by (auto simp: and_then_eq_Inr)
    have g2: "gathering_ok excluded lm g2" "ga_seen g2 = ga_seen g1 @ [path]"
        "stop \<or> re_unknowns (ga_evidence g1) \<noteq> [] \<longrightarrow> re_unknowns (ga_evidence g2) \<noteq> []"
      using gather_counted_ok [OF g1(1) _ _ s] False by auto
    show ?thesis
    proof (cases stop)
      case True
      then show ?thesis using rest g2 g1 by auto
    next
      case stop: False
      then show ?thesis using Cons.IH [of g2] rest g2 g1 by auto
    qed
  qed
qed auto

text \<open>The paths that git tracks in a scope.\<close>

definition tracked_in :: "Checkout \<Rightarrow> string \<Rightarrow> string \<Rightarrow> bool" where
  "tracked_in ck scope0 path \<longleftrightarrow>
     (\<exists>scope repo_root cached.
        ck_canonicalize ck scope0 = Inr scope \<and> repository_root ck scope = Inr repo_root \<and>
        git ck repo_root [''ls-files'', ''--cached'', ''-z'', ''--'', relative_scope repo_root scope] = Inr cached \<and>
        path \<in> set (nul_lines cached))"

definition gaps_disclosed :: "Checkout \<Rightarrow> string list \<Rightarrow> RepositoryEvidence \<Rightarrow> bool" where
  "gaps_disclosed ck scopes ev \<longleftrightarrow>
     (re_unknowns ev = [] \<longrightarrow>
       (\<forall>scope \<in> set scopes. \<forall>path. tracked_in ck scope path \<and> evidence_path path \<longrightarrow> path \<in> collected ev))"

lemma head_kept:
  "gathering_ok excluded lm (g\<lparr>ga_evidence := (ga_evidence g)\<lparr>re_head := head\<rparr>\<rparr>) = gathering_ok excluded lm g"
  by (simp add: gathering_ok_def evidence_within_def collected_def retained_def)

lemma gather_scope_ok:
  assumes "gather_scope ck excluded base lm scope0 (identity, g) = Inr (identity', g')" "gathering_ok excluded lm g"
  shows "gathering_ok excluded lm g'" "set (ga_seen g) \<subseteq> set (ga_seen g')"
    "re_unknowns (ga_evidence g) \<noteq> [] \<Longrightarrow> re_unknowns (ga_evidence g') \<noteq> []"
    "re_unknowns (ga_evidence g') = [] \<Longrightarrow> tracked_in ck scope0 path \<Longrightarrow> evidence_path path \<Longrightarrow> path \<in> set (ga_seen g')"
proof -
  obtain scope repo_root head from_base changes untracked cached where
    at: "ck_canonicalize ck scope0 = Inr scope" "repository_root ck scope = Inr repo_root"
      "git ck repo_root [''ls-files'', ''--cached'', ''-z'', ''--'', relative_scope repo_root scope] = Inr cached"
    and run: "gather_paths ck excluded lm repo_root (base_rev from_base) changes untracked
      (sorted_list_of_set (set (nul_lines cached) \<union> set untracked \<union> set (map fst changes)))
      (g\<lparr>ga_evidence := (ga_evidence g)\<lparr>re_head := head\<rparr>\<rparr>) = Inr g'"
    using assms(1) unfolding gather_scope_def Let_def case_prod_conv and_then_eq_Inr
    by (clarsimp simp: and_then_eq_Inr split: if_splits) blast
  note ok = gather_paths_ok [OF run]
  show "gathering_ok excluded lm g'" "set (ga_seen g) \<subseteq> set (ga_seen g')"
    "re_unknowns (ga_evidence g) \<noteq> [] \<Longrightarrow> re_unknowns (ga_evidence g') \<noteq> []"
    using ok assms(2) by (auto simp: head_kept)
  assume "re_unknowns (ga_evidence g') = []" "tracked_in ck scope0 path" "evidence_path path"
  moreover from this have "path \<in> set (nul_lines cached)" using at by (auto simp: tracked_in_def)
  ultimately show "path \<in> set (ga_seen g')" using ok assms(2) by (auto simp: head_kept)
qed

lemma gather_scopes_ok:
  "gather_scopes ck excluded base lm scopes (identity, g) = Inr (identity', g') \<Longrightarrow> gathering_ok excluded lm g \<Longrightarrow>
   gathering_ok excluded lm g' \<and> set (ga_seen g) \<subseteq> set (ga_seen g') \<and>
   (re_unknowns (ga_evidence g) \<noteq> [] \<longrightarrow> re_unknowns (ga_evidence g') \<noteq> []) \<and>
   (re_unknowns (ga_evidence g') = [] \<longrightarrow>
      (\<forall>scope \<in> set scopes. \<forall>path. tracked_in ck scope path \<and> evidence_path path \<longrightarrow> path \<in> set (ga_seen g')))"
proof (induction scopes arbitrary: identity g)
  case (Cons scope scopes)
  obtain identity1 g1 where s: "gather_scope ck excluded base lm scope (identity, g) = Inr (identity1, g1)"
    and rest: "gather_scopes ck excluded base lm scopes (identity1, g1) = Inr (identity', g')"
    using Cons.prems(1) by (auto simp: and_then_eq_Inr)
  note one = gather_scope_ok [OF s Cons.prems(2)]
  note more_scopes = Cons.IH [OF rest one(1)]
  have "path \<in> set (ga_seen g')"
    if "re_unknowns (ga_evidence g') = []" "tracked_in ck scope path" "evidence_path path" for path
    using one(4) that more_scopes by blast
  then show ?case using one more_scopes by auto
qed simp


section \<open>Exclusions\<close>

text \<open>The globs of a pattern (\<open>adapters/exclude.rs\<close>); a glob set itself is a predicate on paths.\<close>

definition trim_char_end :: "char \<Rightarrow> string \<Rightarrow> string" where
  "trim_char_end c s = rev (dropWhile (\<lambda>x. x = c) (rev s))"

definition expand :: "string \<Rightarrow> string list" where
  "expand pattern =
     (let body0 = trim_char_end (CHR ''/'') pattern; body = dropWhile (\<lambda>c. c = CHR ''/'') body0;
          base = (if CHR ''/'' \<in> set body0 \<or> starts_with body ''**/'' then body else ''**/'' @ body)
      in (base @ ''/**'') # (if ends_with pattern ''/'' then [] else [base]))"

text \<open>\<open>build\<close> compiles one glob; the error of the first that fails ends the construction.\<close>

fun exclude_globs :: "(string \<Rightarrow> string + 'g) \<Rightarrow> string list \<Rightarrow> string + 'g list" where
  "exclude_globs build [] = Inr []"
| "exclude_globs build (glob # globs) =
     and_then (build glob) (\<lambda>g. and_then (exclude_globs build globs) (\<lambda>gs. Inr (g # gs)))"

fun exclude_patterns :: "(string \<Rightarrow> string + 'g) \<Rightarrow> string list \<Rightarrow> string + 'g list" where
  "exclude_patterns build [] = Inr []"
| "exclude_patterns build (raw # patterns) =
     (let pattern = trim raw in
      if pattern = [] then exclude_patterns build patterns
      else if starts_with pattern ''!'' then Inl (''negated exclude patterns are not supported: '' @ pattern)
      else and_then (exclude_globs build (expand pattern)) (\<lambda>gs.
        and_then (exclude_patterns build patterns) (\<lambda>rest. Inr (gs @ rest))))"

definition exclude_new :: "(string \<Rightarrow> string + 'g) \<Rightarrow> ('g list \<Rightarrow> string + (string \<Rightarrow> bool)) \<Rightarrow> string list \<Rightarrow> string + (string \<Rightarrow> bool)" where
  "exclude_new build compile patterns = and_then (exclude_patterns build patterns) compile"

end
