(* ===== verification/Auxiliary.thy ===== *)
theory Auxiliary
  imports Upgrades Git_Evidence Merge_Score
begin

text \<open>
  The auxiliary analyses join a report (\<open>review/auxiliary.rs\<close>): the identity of the evidence is compared
  with the reviewed head, the evidence is redacted, dependency triage and documentation drift run on
  it, and their findings are appended unless reviewers have hidden them.
\<close>

record AuxiliaryInputs =
  ai_evidence :: RepositoryEvidence
  ai_upgrades :: bool
  ai_docs_drift :: bool

definition unverified :: "ReviewReport \<Rightarrow> ReviewReport" where
  "unverified report = report\<lparr>r_partial := True, r_reviewed_clean := False, r_reviewed_committed := False\<rparr>"

definition identity_unknowns :: "string option \<Rightarrow> string \<Rightarrow> string list" where
  "identity_unknowns reviewed head =
     (case reviewed of
        Some h \<Rightarrow> if h \<noteq> head
          then [''Auxiliary evidence head differs from the source review head; combined evidence identity is unverified''] else []
      | None \<Rightarrow> [''Source review head was not captured; auxiliary evidence cannot establish source identity''])"

definition redact_file :: "Detectors \<Rightarrow> SourceFile list \<times> Redactions \<Rightarrow> SourceFile \<Rightarrow> SourceFile list \<times> Redactions" where
  "redact_file dt = (\<lambda>(files, found) f.
     case redact dt (sf_content f) found of (content, found') \<Rightarrow> (files @ [f\<lparr>sf_content := content\<rparr>], found'))"

definition redact_change ::
  "Detectors \<Rightarrow> RepositoryChange list \<times> Redactions \<Rightarrow> RepositoryChange \<Rightarrow> RepositoryChange list \<times> Redactions" where
  "redact_change dt = (\<lambda>(changes, found) c.
     case redact dt (cg_base c) found of (base, found1) \<Rightarrow>
     case cg_content c of
       None \<Rightarrow> (changes @ [c\<lparr>cg_base := base\<rparr>], found1)
     | Some current \<Rightarrow>
         (case redact dt current found1 of (content, found2) \<Rightarrow>
            (changes @ [c\<lparr>cg_base := base, cg_content := Some content\<rparr>], found2)))"

definition redact_evidence :: "Detectors \<Rightarrow> RepositoryEvidence \<Rightarrow> RepositoryEvidence" where
  "redact_evidence dt ev =
     (case foldl (redact_file dt) ([], []) (re_files ev) of (files, found) \<Rightarrow>
      case foldl (redact_change dt) ([], found) (re_changes ev) of (changes, found') \<Rightarrow>
        ev\<lparr>re_files := files, re_changes := changes,
          re_unknowns := re_unknowns ev @ (if found' \<noteq> []
            then [''Secrets were redacted before local comparison; differences within credential values cannot be assessed''] else [])\<rparr>)"

text \<open>The two analyses: what each leaves in the report, and the findings it hands over.\<close>

definition attach_upgrades ::
  "ManifestTools \<Rightarrow> RepositoryEvidence \<Rightarrow> ReviewReport \<times> Finding list \<Rightarrow> (ReviewReport \<times> Finding list) option" where
  "attach_upgrades mt ev = (\<lambda>(report, found).
     map_option (\<lambda>s0.
         let s = s0\<lparr>us_unknowns := us_unknowns s0 @ re_unknowns ev\<rparr> in
         (report\<lparr>r_partial := r_partial report \<or> us_unknowns s \<noteq> [], r_upgrades := Some (s\<lparr>us_findings := []\<rparr>)\<rparr>,
          found @ us_findings s))
       (assess_upgrades mt (re_changes ev) (re_files ev)))"

definition attach_docs_drift ::
  "DocPatterns \<Rightarrow> Detectors \<Rightarrow> RepositoryEvidence \<Rightarrow> ReviewReport \<times> Finding list \<Rightarrow> ReviewReport \<times> Finding list" where
  "attach_docs_drift dp dt ev = (\<lambda>(report, found).
     let s0 = assess_docs dp dt (re_changes ev) (re_files ev); s = s0\<lparr>dd_unknowns := dd_unknowns s0 @ re_unknowns ev\<rparr> in
     (report\<lparr>r_partial := r_partial report \<or> dd_unknowns s \<noteq> [], r_docs_drift := Some (s\<lparr>dd_findings := []\<rparr>)\<rparr>,
      found @ dd_findings s))"

definition advisory_cmp :: "Finding \<Rightarrow> Finding \<Rightarrow> ordering" where
  "advisory_cmp a b =
     then_cmp (total_cmp (f_severity b) (f_severity a)) (then_cmp (cmp (f_file a) (f_file b)) (cmp (f_line a) (f_line b)))"

definition append_finding :: "string set \<Rightarrow> ReviewReport \<Rightarrow> Finding \<Rightarrow> ReviewReport" where
  "append_finding hidden report f0 =
     (let f = f0\<lparr>f_fingerprint := fingerprint f0\<rparr> in
      if f_fingerprint f \<in> hidden
      then report\<lparr>r_workflow := (r_workflow report)\<lparr>wc_suppressed_findings := wc_suppressed_findings (r_workflow report) + 1\<rparr>\<rparr>
      else report\<lparr>r_findings := r_findings report @ [f]\<rparr>)"

definition attach ::
  "ManifestTools \<Rightarrow> DocPatterns \<Rightarrow> Detectors \<Rightarrow> ReviewReport \<Rightarrow> AuxiliaryInputs \<Rightarrow> FeedbackLog \<Rightarrow> ReviewReport option" where
  "attach mt dp dt report inputs vlog =
     (let unknown_identity = identity_unknowns (r_reviewed_head report) (re_head (ai_evidence inputs));
          ev0 = ai_evidence inputs;
          ev = redact_evidence dt (ev0\<lparr>re_unknowns := re_unknowns ev0 @ unknown_identity\<rparr>);
          report0 = (if unknown_identity \<noteq> [] then unverified report else report)
      in map_option (\<lambda>(report1, found1).
           let (report2, found2) = (if ai_docs_drift inputs then attach_docs_drift dp dt ev (report1, found1) else (report1, found1));
               report3 = foldl (append_finding (suppressed vlog)) report2 (sort_by advisory_cmp found2)
           in report3\<lparr>r_p_revert := p_revert (r_findings report3) (r_matrix report3)\<rparr>)
         (if ai_upgrades inputs then attach_upgrades mt ev (report0, []) else Some (report0, [])))"

section \<open>What joining a report keeps and adds\<close>

definition stamped :: "Finding \<Rightarrow> Finding" where
  "stamped f = f\<lparr>f_fingerprint := fingerprint f\<rparr>"

lemma append_finding_fold:
  "foldl (append_finding hidden) report fs =
   report\<lparr>r_findings := r_findings report @ filter (\<lambda>f. f_fingerprint f \<notin> hidden) (map stamped fs),
     r_workflow := (r_workflow report)\<lparr>wc_suppressed_findings := wc_suppressed_findings (r_workflow report) +
       length (filter (\<lambda>f. f_fingerprint f \<in> hidden) (map stamped fs))\<rparr>\<rparr>"
  by (induction fs arbitrary: report) (auto simp: append_finding_def Let_def stamped_def)

lemma redact_evidence_fields:
  "re_head (redact_evidence dt ev) = re_head ev" "set (re_unknowns ev) \<subseteq> set (re_unknowns (redact_evidence dt ev))"
  by (auto simp: redact_evidence_def split: prod.split)

lemma attach_upgrades_ok:
  obtains s report' found' where "attach_upgrades mt ev (report, found) = Some (report', found')"
    "found' = found @ us_findings s" "list_all (upgrade_grounded (re_changes ev) (us_changes s)) (us_findings s)"
    "report' = report\<lparr>r_partial := r_partial report \<or> us_unknowns s \<noteq> [] \<or> re_unknowns ev \<noteq> [],
       r_upgrades := Some (s\<lparr>us_unknowns := us_unknowns s @ re_unknowns ev, us_findings := []\<rparr>)\<rparr>"
  using upgrades_never_panic [where mt = mt and changes = "re_changes ev" and files = "re_files ev"]
  by (auto simp: attach_upgrades_def Let_def split: option.splits)

text \<open>Where an appended finding comes from.\<close>

definition advisory :: "DocPatterns \<Rightarrow> Detectors \<Rightarrow> RepositoryEvidence \<Rightarrow> Finding \<Rightarrow> bool" where
  "advisory dp dt ev f \<longleftrightarrow>
     (\<exists>items. upgrade_grounded (re_changes ev) items f) \<or> f \<in> set (dd_findings (assess_docs dp dt (re_changes ev) (re_files ev)))"

definition joined_soundly ::
  "DocPatterns \<Rightarrow> Detectors \<Rightarrow> ReviewReport \<Rightarrow> AuxiliaryInputs \<Rightarrow> string set \<Rightarrow> ReviewReport \<Rightarrow> bool" where
  "joined_soundly dp dt report inputs hidden r \<longleftrightarrow>
     (let ev = ai_evidence inputs; same_head = (r_reviewed_head report = Some (re_head ev)) in
      (\<exists>added ev'. r_findings r = r_findings report @ filter (\<lambda>f. f_fingerprint f \<notin> hidden) (map stamped added) \<and>
         wc_suppressed_findings (r_workflow r) =
           wc_suppressed_findings (r_workflow report) + length (filter (\<lambda>f. f_fingerprint f \<in> hidden) (map stamped added)) \<and>
         set (re_unknowns ev) \<subseteq> set (re_unknowns ev') \<and> list_all (advisory dp dt ev') added) \<and>
      r_p_revert r = p_revert (r_findings r) (r_matrix report) \<and>
      r_reviewed_head r = r_reviewed_head report \<and>
      (r_reviewed_clean r \<longrightarrow> r_reviewed_clean report \<and> same_head) \<and>
      (r_reviewed_committed r \<longrightarrow> r_reviewed_committed report \<and> same_head) \<and>
      (\<not> r_partial r \<longrightarrow> \<not> r_partial report \<and> same_head \<and>
         (ai_upgrades inputs \<or> ai_docs_drift inputs \<longrightarrow> re_unknowns ev = [])))"

lemma identity_unknowns_Nil: "identity_unknowns reviewed head = [] \<longleftrightarrow> reviewed = Some head"
  by (auto simp: identity_unknowns_def split: option.split)

lemma upgrades_step:
  obtains report1 found1 p1 ups where
    "(if ai_upgrades inputs then attach_upgrades mt ev (report0, []) else Some (report0, [])) = Some (report1, found1)"
    "list_all (advisory dp dt ev) found1"
    "report1 = report0\<lparr>r_partial := p1, r_upgrades := ups\<rparr>"
    "p1 \<or> \<not> r_partial report0 \<and> (ai_upgrades inputs \<longrightarrow> re_unknowns ev = [])"
proof (cases "ai_upgrades inputs")
  case True
  obtain s report' found' where s: "attach_upgrades mt ev (report0, []) = Some (report', found')" "found' = [] @ us_findings s"
    "list_all (upgrade_grounded (re_changes ev) (us_changes s)) (us_findings s)"
    "report' = report0\<lparr>r_partial := r_partial report0 \<or> us_unknowns s \<noteq> [] \<or> re_unknowns ev \<noteq> [],
     r_upgrades := Some (s\<lparr>us_unknowns := us_unknowns s @ re_unknowns ev, us_findings := []\<rparr>)\<rparr>"
    by (rule attach_upgrades_ok)
  show ?thesis
    by (rule that [OF _ _ s(4)]) (use s True in \<open>auto simp: advisory_def list_all_iff\<close>)
next
  case False
  then show ?thesis by (intro that [where ?report1.0 = report0 and ?found1.0 = "[]" and ?p1.0 = "r_partial report0" and ups = "r_upgrades report0"]) auto
qed

lemma docs_step:
  assumes "(if ai_docs_drift inputs then attach_docs_drift dp dt ev (report1, found1) else (report1, found1)) = (report2, found2)"
    "list_all (advisory dp dt ev) found1"
  obtains p2 ds where "list_all (advisory dp dt ev) found2" "report2 = report1\<lparr>r_partial := p2, r_docs_drift := ds\<rparr>"
    "p2 \<or> \<not> r_partial report1 \<and> (ai_docs_drift inputs \<longrightarrow> re_unknowns ev = [])"
proof (cases "ai_docs_drift inputs")
  case True
  let ?s = "assess_docs dp dt (re_changes ev) (re_files ev)"
  have "report2 = report1\<lparr>r_partial := r_partial report1 \<or> dd_unknowns ?s @ re_unknowns ev \<noteq> [],
      r_docs_drift := Some (?s\<lparr>dd_unknowns := dd_unknowns ?s @ re_unknowns ev, dd_findings := []\<rparr>)\<rparr>"
    "found2 = found1 @ dd_findings ?s"
    using assms(1) True by (auto simp: attach_docs_drift_def Let_def)
  then show ?thesis using assms(2) by (intro that) (auto simp: advisory_def list_all_iff)
next
  case False
  then show ?thesis using assms by (intro that [where ?p2.0 = "r_partial report1" and ds = "r_docs_drift report1"]) auto
qed

lemma attach_sound:
  "case attach mt dp dt report inputs vlog of
     None \<Rightarrow> False
   | Some r \<Rightarrow> joined_soundly dp dt report inputs (suppressed vlog) r"
proof -
  define ev0 where "ev0 = ai_evidence inputs"
  define unknown where "unknown = identity_unknowns (r_reviewed_head report) (re_head ev0)"
  define ev where "ev = redact_evidence dt (ev0\<lparr>re_unknowns := re_unknowns ev0 @ unknown\<rparr>)"
  define report0 where "report0 = (if unknown \<noteq> [] then unverified report else report)"
  have more_unknown: "set (re_unknowns ev0) \<subseteq> set (re_unknowns ev)"
    using redact_evidence_fields(2) [of "ev0\<lparr>re_unknowns := re_unknowns ev0 @ unknown\<rparr>" dt] by (simp add: ev_def)
  have report0: "r_findings report0 = r_findings report" "r_workflow report0 = r_workflow report" "r_matrix report0 = r_matrix report"
    "r_reviewed_head report0 = r_reviewed_head report"
    "r_reviewed_clean report0 \<Longrightarrow> r_reviewed_clean report \<and> unknown = []"
    "r_reviewed_committed report0 \<Longrightarrow> r_reviewed_committed report \<and> unknown = []"
    "\<not> r_partial report0 \<Longrightarrow> \<not> r_partial report \<and> unknown = []"
    by (auto simp: report0_def unverified_def split: if_splits)
  obtain report1 found1 p1 ups where one:
      "(if ai_upgrades inputs then attach_upgrades mt ev (report0, []) else Some (report0, [])) = Some (report1, found1)"
      "list_all (advisory dp dt ev) found1" "report1 = report0\<lparr>r_partial := p1, r_upgrades := ups\<rparr>"
      "p1 \<or> \<not> r_partial report0 \<and> (ai_upgrades inputs \<longrightarrow> re_unknowns ev = [])"
    by (rule upgrades_step [of inputs mt ev report0 dp dt]) (rule that)
  define two where "two = (if ai_docs_drift inputs then attach_docs_drift dp dt ev (report1, found1) else (report1, found1))"
  obtain report2 found2 where two: "two = (report2, found2)" by force
  obtain p2 ds where docs: "list_all (advisory dp dt ev) found2" "report2 = report1\<lparr>r_partial := p2, r_docs_drift := ds\<rparr>"
      "p2 \<or> \<not> r_partial report1 \<and> (ai_docs_drift inputs \<longrightarrow> re_unknowns ev = [])"
    by (rule docs_step [OF two [unfolded two_def] one(2)]) (rule that)
  define added where "added = sort_by advisory_cmp found2"
  define r where "r = foldl (append_finding (suppressed vlog)) report2 added"
  have result: "attach mt dp dt report inputs vlog = Some (r\<lparr>r_p_revert := p_revert (r_findings r) (r_matrix r)\<rparr>)"
    unfolding attach_def Let_def ev0_def [symmetric]
    unfolding unknown_def [symmetric]
    unfolding ev_def [symmetric] report0_def [symmetric] one(1) option.map prod.case two_def [symmetric]
    by (simp add: two r_def added_def)
  have complete_only: "\<not> p2 \<Longrightarrow> \<not> r_partial report \<and> unknown = [] \<and>
      (ai_upgrades inputs \<or> ai_docs_drift inputs \<longrightarrow> re_unknowns ev0 = [])"
    using docs(3) one(3,4) report0(7) more_unknown by auto
  have final: "r = report2\<lparr>r_findings := r_findings report @ filter (\<lambda>f. f_fingerprint f \<notin> suppressed vlog) (map stamped added),
      r_workflow := (r_workflow report)\<lparr>wc_suppressed_findings := wc_suppressed_findings (r_workflow report) +
        length (filter (\<lambda>f. f_fingerprint f \<in> suppressed vlog) (map stamped added))\<rparr>\<rparr>"
    by (simp add: r_def append_finding_fold docs(2) one(3) report0)
  have "list_all (advisory dp dt ev) added" using docs(1) by (simp add: added_def list_all_iff)
  then show ?thesis
    unfolding result option.case joined_soundly_def Let_def ev0_def [symmetric]
    using more_unknown report0(5,6) complete_only
    by (intro conjI exI [of _ added] exI [of _ ev])
      (auto simp: final docs(2) one(3) report0(3,4) unknown_def identity_unknowns_Nil)
qed


end
