(* ===== verification/Github_Client.thy ===== *)
theory Github_Client
  imports Publish Json
begin

text \<open>
  The GitHub REST client (\<open>adapters/github.rs\<close>): the pull request of the Actions event, the error of a
  reply that is not a success, the authenticated request, the pages of a list and the calls of the
  publisher. The HTTP library is a world: what it answers to a request, given all requests before it,
  so that the remote state may change between two requests in any way. A call appends to the requests
  sent. Reading JSON text into a value, into the files and into the comments of a page (the
  deserializers that serde generates), and reading a number as a \<open>u64\<close>, are parameters.
\<close>

section \<open>Reading JSON\<close>

record Serde =
  de_value :: "string \<Rightarrow> string + json"
  de_files :: "string \<Rightarrow> string + PrFile list"
  de_comments :: "string \<Rightarrow> string + IssueComment list"
  as_u64 :: "json \<Rightarrow> nat option"

text \<open>\<open>value[key]\<close>: null where there is no such key; \<open>as_array\<close>.\<close>

definition json_at :: "json \<Rightarrow> string \<Rightarrow> json" where
  "json_at v k = (case json_get k v of None \<Rightarrow> JNull | Some x \<Rightarrow> x)"

fun as_array :: "json \<Rightarrow> json list option" where
  "as_array (JArr vs) = Some vs"
| "as_array _ = None"

definition str_or_empty :: "json \<Rightarrow> string" where
  "str_or_empty v = (case as_str v of None \<Rightarrow> [] | Some s \<Rightarrow> s)"

section \<open>The pull request\<close>

record PullRequest =
  pl_repository :: string
  pl_number :: nat
  pl_head_sha :: string

definition valid_part :: "string \<Rightarrow> bool" where
  "valid_part p \<longleftrightarrow> p \<noteq> [] \<and> p \<noteq> ''.'' \<and> p \<noteq> ''..'' \<and>
     list_all (\<lambda>c. is_alnum c \<or> c = CHR ''-'' \<or> c = CHR ''_'' \<or> c = CHR ''.'') p"

definition ascii_hexdigit :: "char \<Rightarrow> bool" where
  "ascii_hexdigit c \<longleftrightarrow> is_digit c \<or> c \<in> set ''abcdefABCDEF''"

definition commit_sha :: "string \<Rightarrow> bool" where
  "commit_sha sha \<longleftrightarrow> 7 \<le> length sha \<and> list_all ascii_hexdigit sha"

definition from_event :: "Serde \<Rightarrow> string \<Rightarrow> string \<Rightarrow> string + PullRequest" where
  "from_event sd repository text =
     (case split_once (CHR ''/'') repository of
        None \<Rightarrow> Inl (''GITHUB_REPOSITORY must be owner/repo, got '' @ [CHR 0x27] @ repository @ [CHR 0x27])
      | Some (owner, repo) \<Rightarrow>
          if \<not> (valid_part owner \<and> valid_part repo)
          then Inl (''GITHUB_REPOSITORY must be owner/repo, got '' @ [CHR 0x27] @ repository @ [CHR 0x27])
          else
            case de_value sd text of
              Inl _ \<Rightarrow> Inl ''event payload is not JSON''
            | Inr event \<Rightarrow>
                let pr = json_at event ''pull_request'' in
                case as_u64 sd (json_at pr ''number'') of
                  None \<Rightarrow> Inl ''the event has no pull_request (run github-review on pull_request events)''
                | Some number \<Rightarrow>
                    case as_str (json_at (json_at pr ''head'') ''sha'') of
                      None \<Rightarrow> Inl (''the event'' @ [CHR 0x27] @ ''s pull_request.head.sha is missing or not a commit sha'')
                    | Some sha \<Rightarrow>
                        if commit_sha sha
                        then Inr \<lparr>pl_repository = repository, pl_number = number, pl_head_sha = sha\<rparr>
                        else Inl (''the event'' @ [CHR 0x27] @ ''s pull_request.head.sha is missing or not a commit sha''))"

definition pull_request_from_env ::
  "Serde \<Rightarrow> (string \<Rightarrow> string option) \<Rightarrow> (string \<Rightarrow> string + string) \<Rightarrow> string + PullRequest" where
  "pull_request_from_env sd env read_to_string =
     (case env ''GITHUB_REPOSITORY'' of
        None \<Rightarrow> Inl ''GITHUB_REPOSITORY is not set (run inside GitHub Actions)''
      | Some repository \<Rightarrow>
          case env ''GITHUB_EVENT_PATH'' of
            None \<Rightarrow> Inl ''GITHUB_EVENT_PATH is not set (run inside GitHub Actions)''
          | Some event_path \<Rightarrow>
              case read_to_string event_path of
                Inl _ \<Rightarrow> Inl (''read event payload '' @ event_path)
              | Inr event \<Rightarrow> from_event sd repository event)"

section \<open>Errors of the API\<close>

definition error_detail :: "json \<Rightarrow> string" where
  "error_detail e =
     (case e of
        JStr s \<Rightarrow> s
      | _ \<Rightarrow>
          let message = str_or_empty (json_at e ''message'');
              detail = (if message = [] then str_or_empty (json_at e ''code'') else message)
          in join '': '' (filter (\<lambda>p. p \<noteq> []) [str_or_empty (json_at e ''field''), detail]))"

definition from_body :: "Serde \<Rightarrow> nat \<Rightarrow> string \<Rightarrow> api_error" where
  "from_body sd status text =
     (case de_value sd text of
        Inl _ \<Rightarrow> ApiStatus status text []
      | Inr body \<Rightarrow>
          ApiStatus status
            (case as_str (json_at body ''message'') of Some m \<Rightarrow> m | None \<Rightarrow> text)
            (case as_array (json_at body ''errors'') of Some es \<Rightarrow> map error_detail es | None \<Rightarrow> []))"

text \<open>\<open>Display\<close>\<close>

fun show_api_error :: "api_error \<Rightarrow> string" where
  "show_api_error (ApiStatus status message errors) =
     ''GitHub API returned '' @ show_nat status @ '': '' @ message @
     (if errors = [] then [] else '' ('' @ join ''; '' errors @ '')'')"
| "show_api_error (OtherError e) = e"

section \<open>Requests\<close>

datatype http_method = GET | POST | PATCH

record Request =
  rq_method :: http_method
  rq_url :: string
  rq_query :: "(string \<times> string) list"
  rq_headers :: "(string \<times> string) list"
  rq_body :: "json option"

text \<open>A reply: its status, and its body unless reading the body fails.\<close>

record Reply =
  rp_status :: nat
  rp_text :: "string + string"

text \<open>The answer to the last of the requests sent so far, or the error of the transport.\<close>

type_synonym world = "Request list \<Rightarrow> string + Reply"

type_synonym 'a call = "Request list \<Rightarrow> (api_error + 'a) \<times> Request list"

definition lift_call :: "api_error + 'a \<Rightarrow> 'a call" where
  "lift_call r sent = (r, sent)"

definition after_call :: "'a call \<Rightarrow> ('a \<Rightarrow> 'b call) \<Rightarrow> 'b call" where
  "after_call m f sent =
     (case m sent of
        (Inl e, sent') \<Rightarrow> (Inl e, sent')
      | (Inr x, sent') \<Rightarrow> f x sent')"

definition require_call :: "bool \<Rightarrow> string \<Rightarrow> unit call" where
  "require_call b msg = lift_call (if b then Inr () else Inl (OtherError msg))"

definition of_option :: "string \<Rightarrow> 'a option \<Rightarrow> 'a call" where
  "of_option msg x = lift_call (case x of None \<Rightarrow> Inl (OtherError msg) | Some y \<Rightarrow> Inr y)"

record GitHubClient =
  gh_api_url :: string
  gh_token :: string

text \<open>\<open>api_url.trim_end_matches('/')\<close>\<close>

definition trim_slashes :: "string \<Rightarrow> string" where
  "trim_slashes s = rev (dropWhile (\<lambda>c. c = CHR ''/'') (rev s))"

text \<open>\<open>built\<close> is what building the HTTP client with its timeout and user agent gave.\<close>

definition new_client :: "string + unit \<Rightarrow> string \<Rightarrow> string \<Rightarrow> string + GitHubClient" where
  "new_client built api_url token =
     and_then built (\<lambda>_. Inr \<lparr>gh_api_url = trim_slashes api_url, gh_token = token\<rparr>)"

definition client_from_env :: "string + unit \<Rightarrow> (string \<Rightarrow> string option) \<Rightarrow> string + GitHubClient" where
  "client_from_env built env =
     (let set_var = (\<lambda>name. case env name of Some v \<Rightarrow> if blank v then None else Some v | None \<Rightarrow> None) in
      case set_var ''GITHUB_TOKEN'' of
        None \<Rightarrow> Inl ''GITHUB_TOKEN is not set (pass secrets.GITHUB_TOKEN to the step)''
      | Some token \<Rightarrow>
          new_client built (case set_var ''GITHUB_API_URL'' of Some u \<Rightarrow> u | None \<Rightarrow> ''https://api.github.com'') token)"

definition repo_url :: "GitHubClient \<Rightarrow> PullRequest \<Rightarrow> string \<Rightarrow> string" where
  "repo_url c pr path = gh_api_url c @ ''/repos/'' @ pl_repository pr @ ''/'' @ path"

definition plain_request :: "http_method \<Rightarrow> string \<Rightarrow> Request" where
  "plain_request m url = \<lparr>rq_method = m, rq_url = url, rq_query = [], rq_headers = [], rq_body = None\<rparr>"

definition authorized :: "GitHubClient \<Rightarrow> Request \<Rightarrow> Request" where
  "authorized c rq = rq\<lparr>rq_headers := rq_headers rq @
     [(''Authorization'', ''Bearer '' @ gh_token c), (''Accept'', ''application/vnd.github+json''),
      (''X-GitHub-Api-Version'', ''2022-11-28'')]\<rparr>"

definition is_success :: "nat \<Rightarrow> bool" where
  "is_success status \<longleftrightarrow> 200 \<le> status \<and> status < 300"

definition send :: "Serde \<Rightarrow> world \<Rightarrow> GitHubClient \<Rightarrow> Request \<Rightarrow> Reply call" where
  "send sd w c rq sent =
     (let sent' = sent @ [authorized c rq] in
      (case w sent' of
         Inl e \<Rightarrow> Inl (OtherError e)
       | Inr resp \<Rightarrow>
           if is_success (rp_status resp) then Inr resp
           else Inl (from_body sd (rp_status resp) (case rp_text resp of Inr t \<Rightarrow> t | Inl _ \<Rightarrow> [])),
       sent'))"

text \<open>\<open>resp.json()\<close>\<close>

definition reply_json :: "(string \<Rightarrow> string + 'a) \<Rightarrow> Reply \<Rightarrow> 'a call" where
  "reply_json de resp =
     lift_call (case and_then (rp_text resp) de of Inl e \<Rightarrow> Inl (OtherError e) | Inr v \<Rightarrow> Inr v)"

section \<open>Lists\<close>

definition PER_PAGE :: nat where "PER_PAGE = 100"
definition MAX_PAGES :: nat where "MAX_PAGES = 100"

definition page_request :: "string \<Rightarrow> nat \<Rightarrow> Request" where
  "page_request url page =
     (plain_request GET url)\<lparr>rq_query := [(''per_page'', show_nat PER_PAGE), (''page'', show_nat page)]\<rparr>"

fun get_pages ::
  "Serde \<Rightarrow> world \<Rightarrow> GitHubClient \<Rightarrow> (string \<Rightarrow> string + 'a list) \<Rightarrow> string \<Rightarrow> nat list \<Rightarrow> 'a list \<Rightarrow> 'a list call" where
  "get_pages sd w c de url [] items =
     lift_call (Inl (OtherError (url @ '' lists more than '' @ show_nat (MAX_PAGES * PER_PAGE) @
       '' items; refusing to act on a partial list'')))"
| "get_pages sd w c de url (page # pages) items =
     after_call (send sd w c (page_request url page)) (\<lambda>resp.
     after_call (reply_json de resp) (\<lambda>batch.
       if length batch < PER_PAGE then lift_call (Inr (items @ batch))
       else get_pages sd w c de url pages (items @ batch)))"

definition get_all ::
  "Serde \<Rightarrow> world \<Rightarrow> GitHubClient \<Rightarrow> (string \<Rightarrow> string + 'a list) \<Rightarrow> string \<Rightarrow> 'a list call" where
  "get_all sd w c de url = get_pages sd w c de url [1..<Suc MAX_PAGES] []"

section \<open>The calls of the publisher\<close>

definition pull_files :: "Serde \<Rightarrow> world \<Rightarrow> GitHubClient \<Rightarrow> PullRequest \<Rightarrow> PrFile list call" where
  "pull_files sd w c pr =
     get_all sd w c (de_files sd) (repo_url c pr (''pulls/'' @ show_nat (pl_number pr) @ ''/files''))"

definition review_comments :: "Serde \<Rightarrow> world \<Rightarrow> GitHubClient \<Rightarrow> PullRequest \<Rightarrow> IssueComment list call" where
  "review_comments sd w c pr =
     get_all sd w c (de_comments sd) (repo_url c pr (''pulls/'' @ show_nat (pl_number pr) @ ''/comments''))"

definition issue_comments :: "Serde \<Rightarrow> world \<Rightarrow> GitHubClient \<Rightarrow> PullRequest \<Rightarrow> IssueComment list call" where
  "issue_comments sd w c pr =
     get_all sd w c (de_comments sd) (repo_url c pr (''issues/'' @ show_nat (pl_number pr) @ ''/comments''))"

definition send_json ::
  "Serde \<Rightarrow> world \<Rightarrow> GitHubClient \<Rightarrow> http_method \<Rightarrow> string \<Rightarrow> json \<Rightarrow> unit call" where
  "send_json sd w c m url body =
     after_call (send sd w c ((plain_request m url)\<lparr>rq_body := Some body\<rparr>)) (\<lambda>_. lift_call (Inr ()))"

definition inline_json :: "InlineComment \<Rightarrow> json" where
  "inline_json ic =
     obj [(''path'', JStr (ic_path ic)), (''line'', jnat (ic_line ic)), (''side'', JStr (ic_side ic)),
          (''body'', JStr (ic_body ic))]"

definition review_json :: "NewReview \<Rightarrow> json" where
  "review_json r =
     obj [(''commit_id'', JStr (nr_commit_id r)), (''event'', JStr (nr_event r)), (''body'', JStr (nr_body r)),
          (''comments'', JArr (map inline_json (nr_comments r)))]"

definition create_review :: "Serde \<Rightarrow> world \<Rightarrow> GitHubClient \<Rightarrow> PullRequest \<Rightarrow> NewReview \<Rightarrow> unit call" where
  "create_review sd w c pr review =
     send_json sd w c POST (repo_url c pr (''pulls/'' @ show_nat (pl_number pr) @ ''/reviews'')) (review_json review)"

definition create_issue_comment :: "Serde \<Rightarrow> world \<Rightarrow> GitHubClient \<Rightarrow> PullRequest \<Rightarrow> string \<Rightarrow> unit call" where
  "create_issue_comment sd w c pr body =
     send_json sd w c POST (repo_url c pr (''issues/'' @ show_nat (pl_number pr) @ ''/comments''))
       (obj [(''body'', JStr body)])"

definition update_issue_comment :: "Serde \<Rightarrow> world \<Rightarrow> GitHubClient \<Rightarrow> PullRequest \<Rightarrow> nat \<Rightarrow> string \<Rightarrow> unit call" where
  "update_issue_comment sd w c pr comment body =
     send_json sd w c PATCH (repo_url c pr (''issues/comments/'' @ show_nat comment)) (obj [(''body'', JStr body)])"

text \<open>The client as the publisher's interface: \<open>impl GitHubApi for GitHubClient\<close>.\<close>

definition github_api :: "Serde \<Rightarrow> world \<Rightarrow> GitHubClient \<Rightarrow> PullRequest \<Rightarrow> Request list Api" where
  "github_api sd w c pr =
     \<lparr>api_pull_files = pull_files sd w c pr, api_review_comments = review_comments sd w c pr,
      api_issue_comments = issue_comments sd w c pr, api_create_review = create_review sd w c pr,
      api_update_comment = update_issue_comment sd w c pr, api_create_comment = create_issue_comment sd w c pr\<rparr>"

section \<open>Calls\<close>

named_theorems call_simps "when a call returns a value, and what it sent"

lemma lift_call_Inr [call_simps]: "lift_call r s = (Inr y, t) \<longleftrightarrow> r = Inr y \<and> t = s"
  by (auto simp: lift_call_def)

lemma after_call_Inr [call_simps]:
  "after_call m f s = (Inr y, t) \<longleftrightarrow> (\<exists>x s'. m s = (Inr x, s') \<and> f x s' = (Inr y, t))"
  by (auto simp: after_call_def split: prod.splits sum.splits)

lemma require_call_Inr [call_simps]: "require_call b msg s = (Inr u, t) \<longleftrightarrow> b \<and> t = s"
  by (auto simp: require_call_def call_simps)

lemma of_option_Inr [call_simps]: "of_option msg x s = (Inr y, t) \<longleftrightarrow> x = Some y \<and> t = s"
  by (auto simp: of_option_def call_simps split: option.splits)

lemma send_Inr [call_simps]:
  "send sd w c rq s = (Inr resp, t) \<longleftrightarrow>
     t = s @ [authorized c rq] \<and> w t = Inr resp \<and> is_success (rp_status resp)"
  by (auto simp: send_def Let_def split: sum.splits)

lemma reply_json_Inr [call_simps]:
  "reply_json de resp s = (Inr v, t) \<longleftrightarrow> and_then (rp_text resp) de = Inr v \<and> t = s"
  by (auto simp: reply_json_def call_simps split: sum.splits)

text \<open>A call that whatever it returns only reads: it sends GET requests alone, after those sent before.\<close>

definition read_only :: "'a call \<Rightarrow> bool" where
  "read_only m \<longleftrightarrow> (\<forall>s. \<exists>rqs. snd (m s) = s @ rqs \<and> list_all (\<lambda>rq. rq_method rq = GET) rqs)"

named_theorems read_only_intros "calls that only read"

lemma read_only_lift [read_only_intros]: "read_only (lift_call r)"
  by (simp add: read_only_def lift_call_def)

lemma read_only_after [read_only_intros]:
  assumes "read_only m" "\<And>x. read_only (f x)"
  shows "read_only (after_call m f)"
  unfolding read_only_def
proof
  fix s
  obtain r s' where m: "m s = (r, s')" by fastforce
  from assms(1) m obtain xs where xs: "s' = s @ xs" "list_all (\<lambda>rq. rq_method rq = GET) xs"
    unfolding read_only_def by (metis snd_conv)
  show "\<exists>rqs. snd (after_call m f s) = s @ rqs \<and> list_all (\<lambda>rq. rq_method rq = GET) rqs"
  proof (cases r)
    case (Inr x)
    from assms(2) [of x] obtain ys where "snd (f x s') = s' @ ys" "list_all (\<lambda>rq. rq_method rq = GET) ys"
      unfolding read_only_def by blast
    with xs show ?thesis by (auto simp: after_call_def m Inr)
  qed (use xs in \<open>auto simp: after_call_def m\<close>)
qed

lemma read_only_require [read_only_intros]: "read_only (require_call b msg)"
  by (simp add: require_call_def read_only_lift)

lemma read_only_of_option [read_only_intros]: "read_only (of_option msg x)"
  by (simp add: of_option_def read_only_lift)

lemma read_only_reply [read_only_intros]: "read_only (reply_json de resp)"
  by (simp add: reply_json_def read_only_lift)

lemma read_only_send [read_only_intros]: "rq_method rq = GET \<Longrightarrow> read_only (send sd w c rq)"
  by (simp add: read_only_def send_def Let_def authorized_def)

lemma page_request_get [simp]: "rq_method (page_request url p) = GET"
  by (simp add: page_request_def plain_request_def)

lemma read_only_pages: "read_only (get_pages sd w c de url pages items)"
  by (induction pages arbitrary: items) (auto intro!: read_only_intros)

lemma read_only_get_all [read_only_intros]: "read_only (get_all sd w c de url)"
  by (simp add: get_all_def read_only_pages)

lemma read_only_pull_files [read_only_intros]: "read_only (pull_files sd w c pr)"
  by (simp add: pull_files_def read_only_get_all)

lemma read_only_comments [read_only_intros]:
  "read_only (review_comments sd w c pr)" "read_only (issue_comments sd w c pr)"
  by (simp_all add: review_comments_def issue_comments_def read_only_get_all)

section \<open>A list is whole or an error\<close>

text \<open>
  The pages \<open>p\<close>, \<open>p + 1\<close>, ... of a list as the world answered them, each after the requests before
  it: every page but the last is full and the last is not, so nothing is missing between or after them.
\<close>

fun pages_received ::
  "world \<Rightarrow> GitHubClient \<Rightarrow> (string \<Rightarrow> string + 'a list) \<Rightarrow> string \<Rightarrow> nat \<Rightarrow> Request list \<Rightarrow> 'a list list \<Rightarrow> bool" where
  "pages_received w c de url p sent [] \<longleftrightarrow> False"
| "pages_received w c de url p sent (batch # batches) \<longleftrightarrow>
     (let sent' = sent @ [authorized c (page_request url p)] in
      (\<exists>resp. w sent' = Inr resp \<and> is_success (rp_status resp) \<and> and_then (rp_text resp) de = Inr batch) \<and>
      (if length batch < PER_PAGE then batches = [] else pages_received w c de url (Suc p) sent' batches))"

definition whole_list ::
  "world \<Rightarrow> GitHubClient \<Rightarrow> (string \<Rightarrow> string + 'a list) \<Rightarrow> string \<Rightarrow> Request list \<Rightarrow> 'a list \<Rightarrow> Request list \<Rightarrow> bool" where
  "whole_list w c de url sent items sent' \<longleftrightarrow>
     (\<exists>batches. length batches \<le> MAX_PAGES \<and> pages_received w c de url 1 sent batches \<and> items = concat batches \<and>
        sent' = sent @ map (\<lambda>p. authorized c (page_request url p)) [1..<Suc (length batches)])"

lemma get_pages_whole:
  "get_pages sd w c de url [p..<p + n] items sent = (Inr result, sent') \<longleftrightarrow>
     (\<exists>batches. length batches \<le> n \<and> pages_received w c de url p sent batches \<and> result = items @ concat batches \<and>
        sent' = sent @ map (\<lambda>p. authorized c (page_request url p)) [p..<p + length batches])"
  (is "?L n p items sent \<longleftrightarrow> ?R n p items sent")
proof (induction n arbitrary: p items sent)
  case 0
  show ?case by (auto simp: call_simps)
next
  case (Suc n)
  let ?sent = "sent @ [authorized c (page_request url p)]"
  let ?req = "\<lambda>p. authorized c (page_request url p)"
  have IH: "?L n (Suc p) items' s \<longleftrightarrow> ?R n (Suc p) items' s" for items' s by (rule Suc.IH)
  have upt: "[p..<p + Suc n] = p # [Suc p..<Suc p + n]"
    by (simp add: upt_rec)
  have "?L (Suc n) p items sent \<longleftrightarrow>
      (\<exists>resp batch. w ?sent = Inr resp \<and> is_success (rp_status resp) \<and> and_then (rp_text resp) de = Inr batch \<and>
        (if length batch < PER_PAGE then result = items @ batch \<and> sent' = ?sent
         else ?L n (Suc p) (items @ batch) ?sent))"
    unfolding upt get_pages.simps call_simps by (auto simp: call_simps split: if_splits)
  also have "\<dots> \<longleftrightarrow> ?R (Suc n) p items sent"
  proof
    assume "\<exists>resp batch. w ?sent = Inr resp \<and> is_success (rp_status resp) \<and> and_then (rp_text resp) de = Inr batch \<and>
        (if length batch < PER_PAGE then result = items @ batch \<and> sent' = ?sent
         else ?L n (Suc p) (items @ batch) ?sent)"
    then obtain resp batch where ok: "w ?sent = Inr resp" "is_success (rp_status resp)" "and_then (rp_text resp) de = Inr batch"
      and rest: "if length batch < PER_PAGE then result = items @ batch \<and> sent' = ?sent
         else ?L n (Suc p) (items @ batch) ?sent" by blast
    show "?R (Suc n) p items sent"
    proof (cases "length batch < PER_PAGE")
      case True
      with ok rest show ?thesis by (intro exI [of _ "[batch]"]) (auto simp: Let_def)
    next
      case False
      with rest obtain batches where b: "length batches \<le> n" "pages_received w c de url (Suc p) ?sent batches"
        "result = (items @ batch) @ concat batches" "sent' = ?sent @ map ?req [Suc p..<Suc p + length batches]"
        unfolding IH by auto
      have "map ?req [p..<p + length (batch # batches)] = ?req p # map ?req [Suc p..<Suc p + length batches]"
        by (subst upt_rec) simp
      with b ok False show ?thesis
        by (intro exI [of _ "batch # batches"]) (auto simp: Let_def)
    qed
  next
    assume "?R (Suc n) p items sent"
    then obtain bs where bs: "length bs \<le> Suc n" "pages_received w c de url p sent bs" "result = items @ concat bs"
      "sent' = sent @ map ?req [p..<p + length bs]" by blast
    then obtain batch batches where split: "bs = batch # batches" by (cases bs) auto
    have "map ?req [p..<p + length bs] = ?req p # map ?req [Suc p..<Suc p + length batches]"
      unfolding split by (subst upt_rec) simp
    with bs split obtain resp where "w ?sent = Inr resp" "is_success (rp_status resp)"
        "and_then (rp_text resp) de = Inr batch"
      and more: "if length batch < PER_PAGE then batches = [] else pages_received w c de url (Suc p) ?sent batches"
      and s: "sent' = ?sent @ map ?req [Suc p..<Suc p + length batches]"
      by (auto simp: Let_def)
    moreover have "length batches \<le> n" "result = (items @ batch) @ concat batches" using bs split by auto
    ultimately show "\<exists>resp batch. w ?sent = Inr resp \<and> is_success (rp_status resp) \<and> and_then (rp_text resp) de = Inr batch \<and>
        (if length batch < PER_PAGE then result = items @ batch \<and> sent' = ?sent
         else ?L n (Suc p) (items @ batch) ?sent)"
      unfolding IH by (intro exI conjI) (auto split: if_splits)
  qed
  finally show ?case .
qed

text \<open>
  C3. A list that the client returns is the whole list: it consists of the pages 1, 2, ... in order,
  each successfully answered, all full but the last, in at most 100 requests; and it is returned
  whenever there is such a sequence of answers. In every other case (an error, a hundred full pages)
  the call fails rather than return a part.
\<close>

theorem get_all_whole:
  "get_all sd w c de url sent = (Inr items, sent') \<longleftrightarrow> whole_list w c de url sent items sent'"
  unfolding get_all_def whole_list_def
  using get_pages_whole [of sd w c de url 1 MAX_PAGES "[]" sent items sent'] by simp

section \<open>The pull request of the event\<close>

text \<open>The repository is \<open>owner/repo\<close> with two plain names, the number and the head are the event's.\<close>

definition event_pull_request :: "Serde \<Rightarrow> string \<Rightarrow> json \<Rightarrow> PullRequest \<Rightarrow> bool" where
  "event_pull_request sd repository event pr \<longleftrightarrow>
     (\<exists>owner repo. repository = owner @ ''/'' @ repo \<and> valid_part owner \<and> valid_part repo) \<and>
     pl_repository pr = repository \<and>
     as_u64 sd (json_at (json_at event ''pull_request'') ''number'') = Some (pl_number pr) \<and>
     json_at (json_at (json_at event ''pull_request'') ''head'') ''sha'' = JStr (pl_head_sha pr) \<and>
     commit_sha (pl_head_sha pr)"

lemma as_str_Some: "as_str v = Some s \<longleftrightarrow> v = JStr s"
  by (cases v) auto

lemma valid_part_no_slash: "valid_part p \<Longrightarrow> CHR ''/'' \<notin> set p"
  by (auto simp: valid_part_def list_all_iff is_alnum_def is_letter_def is_digit_def)

lemma from_event_exact:
  "from_event sd repository text = Inr pr \<longleftrightarrow>
     (\<exists>event. de_value sd text = Inr event \<and> event_pull_request sd repository event pr)"
proof -
  have pr: "pr = \<lparr>pl_repository = r, pl_number = n, pl_head_sha = s\<rparr> \<longleftrightarrow>
      pl_repository pr = r \<and> pl_number pr = n \<and> pl_head_sha pr = s" for r n s
    by (cases pr) auto
  show ?thesis
  proof (cases "\<exists>owner repo. repository = owner @ ''/'' @ repo \<and> valid_part owner \<and> valid_part repo")
    case True
    then obtain owner repo where r: "repository = owner @ CHR ''/'' # repo" "valid_part owner" "valid_part repo" by auto
    have "split_once (CHR ''/'') repository = Some (owner, repo)"
      unfolding r using valid_part_no_slash [OF r(2)] by simp
    with True r show ?thesis
      by (auto simp: from_event_def event_pull_request_def Let_def pr as_str_Some split: option.splits sum.splits)
  next
    case False
    then have "\<not> (case split_once (CHR ''/'') repository of None \<Rightarrow> False | Some (owner, repo) \<Rightarrow> valid_part owner \<and> valid_part repo)"
      by (auto split: option.splits dest: split_once_Some)
    with False show ?thesis
      by (auto simp: from_event_def event_pull_request_def split: option.splits)
  qed
qed

end
