(* ===== verification/Approval_Client.thy ===== *)
theory Approval_Client
  imports Approval Redact Github_Client
begin

text \<open>
  The automatic approval of \<open>adapters/approval.rs\<close>: the time stamp of a check, its status, the
  evidence of the current head gathered from the API, and the approving review that is posted only
  when fresh evidence passes. The clock is a parameter (seconds since the epoch, or an error).
\<close>

section \<open>Time stamps\<close>

text \<open>\<open>text.parse::<i64>()\<close>: an optional sign, at least one digit, and no overflow.\<close>

definition parse_i64 :: "string \<Rightarrow> int option" where
  "parse_i64 s =
     (let negative = (s \<noteq> [] \<and> hd s = CHR ''-'');
          ds = (if s \<noteq> [] \<and> (hd s = CHR ''-'' \<or> hd s = CHR ''+'') then tl s else s);
          n = (if negative then - int (digits_val ds) else int (digits_val ds))
      in if ds \<noteq> [] \<and> list_all is_digit ds \<and> i64_ok n then Some n else None)"

text \<open>\<open>text[a..b]\<close> of an ASCII text.\<close>

abbreviation text_part :: "string \<Rightarrow> nat \<Rightarrow> nat \<Rightarrow> string" where
  "text_part s a b \<equiv> take (b - a) (drop a s)"

definition stamp_shape :: "string \<Rightarrow> bool" where
  "stamp_shape s \<longleftrightarrow> is_ascii s \<and> length s = 20 \<and> text_part s 4 5 = ''-'' \<and> text_part s 7 8 = ''-'' \<and>
     text_part s 10 11 = ''T'' \<and> text_part s 13 14 = '':'' \<and> text_part s 16 17 = '':'' \<and> text_part s 19 20 = ''Z''"

definition leap_year :: "int \<Rightarrow> bool" where
  "leap_year y \<longleftrightarrow> y mod 4 = 0 \<and> (y mod 100 \<noteq> 0 \<or> y mod 400 = 0)"

definition month_days :: "int \<Rightarrow> int list" where
  "month_days y = [31, if leap_year y then 29 else 28, 31, 30, 31, 30, 31, 31, 30, 31, 30, 31]"

text \<open>
  The checks of the digits and of each field; \<open>year\<close> and the month are positive where the day count
  divides, so that Rust's division and remainder are \<open>div\<close> and \<open>mod\<close> there. The remainder of a
  negative year is only compared with zero.
\<close>

definition stamp_fields_ok :: "string \<Rightarrow> int \<Rightarrow> int \<Rightarrow> int \<Rightarrow> int \<Rightarrow> int \<Rightarrow> int \<Rightarrow> bool" where
  "stamp_fields_ok s y m d h mi sec \<longleftrightarrow>
     list_all (\<lambda>(i, c). i \<in> {4, 7, 10, 13, 16, 19} \<or> is_digit c) (enumerate 0 s) \<and>
     1970 \<le> y \<and> y \<le> 9999 \<and> 1 \<le> m \<and> m \<le> 12 \<and> 1 \<le> d \<and> d \<le> month_days y ! nat (m - 1) \<and>
     h \<le> 23 \<and> mi \<le> 59 \<and> sec \<le> 59"

definition epoch_seconds :: "int \<Rightarrow> int \<Rightarrow> int \<Rightarrow> int \<Rightarrow> int \<Rightarrow> int \<Rightarrow> int" where
  "epoch_seconds y m d h mi sec =
     (let y = y - (if m \<le> 2 then 1 else 0);
          era = y div 400;
          year = y - era * 400;
          mp = m + (if m > 2 then -3 else 9);
          day = (153 * mp + 2) div 5 + d - 1;
          epoch_days = era * 146097 + year * 365 + year div 4 - year div 100 + day - 719468
      in epoch_days * 86400 + h * 3600 + mi * 60 + sec)"

definition timestamp :: "json \<Rightarrow> int" where
  "timestamp v =
     (case as_str v of
        None \<Rightarrow> 0
      | Some s \<Rightarrow>
          if \<not> stamp_shape s then 0
          else
            case (parse_i64 (text_part s 0 4), parse_i64 (text_part s 5 7), parse_i64 (text_part s 8 10),
                  parse_i64 (text_part s 11 13), parse_i64 (text_part s 14 16), parse_i64 (text_part s 17 19)) of
              (Some y, Some m, Some d, Some h, Some mi, Some sec) \<Rightarrow>
                if stamp_fields_ok s y m d h mi sec then epoch_seconds y m d h mi sec else 0
            | _ \<Rightarrow> 0)"

section \<open>Checks\<close>

definition check_status :: "string option \<Rightarrow> string option \<Rightarrow> bool \<Rightarrow> string" where
  "check_status state conclusion check_run =
     (let waiting = [Some ''queued'', Some ''in_progress'', Some ''pending''];
          final = (\<lambda>result.
            if result = Some ''success'' then ''passed''
            else if result \<in> set waiting then ''pending''
            else if result \<in> set [Some ''failure'', Some ''error'', Some ''timed_out'', Some ''cancelled'',
              Some ''action_required''] then ''failed''
            else ''unknown'')
      in if check_run then
           (if state \<in> set waiting then ''pending''
            else if state = Some ''completed'' then final conclusion
            else ''unknown'')
         else final state)"

definition named_check :: "json \<Rightarrow> bool \<Rightarrow> string \<Rightarrow> NamedCheck" where
  "named_check item check_run head =
     (let name = (case as_str (json_at item (if check_run then ''name'' else ''context'')) of
            Some n \<Rightarrow> if blank n then None else Some n | None \<Rightarrow> None)
      in \<lparr>nc_name = (case name of Some n \<Rightarrow> n
            | None \<Rightarrow> if check_run then ''<unnamed check run>'' else ''<unnamed commit status>''),
          nc_head = (if check_run then str_or_empty (json_at item ''head_sha'') else head),
          nc_status = (if name = None then ''unknown''
            else check_status (as_str (json_at item (if check_run then ''status'' else ''state'')))
              (as_str (json_at item ''conclusion'')) check_run),
          nc_completed_at = timestamp (json_at item (if check_run then ''completed_at'' else ''updated_at'')),
          nc_evidence = str_or_empty (json_at item (if check_run then ''html_url'' else ''url''))\<rparr>)"

section \<open>The evidence of the current head\<close>

definition get_value :: "Serde \<Rightarrow> world \<Rightarrow> GitHubClient \<Rightarrow> Request \<Rightarrow> json call" where
  "get_value sd w c rq = after_call (send sd w c rq) (\<lambda>resp. reply_json (de_value sd) resp)"

definition current_pull :: "Serde \<Rightarrow> world \<Rightarrow> GitHubClient \<Rightarrow> PullRequest \<Rightarrow> json call" where
  "current_pull sd w c pr =
     after_call (get_value sd w c (plain_request GET (repo_url c pr (''pulls/'' @ show_nat (pl_number pr))))) (\<lambda>current.
     after_call (require_call (as_str (json_at (json_at current ''head'') ''sha'') = Some (pl_head_sha pr))
       ''PR head changed; approval refused'') (\<lambda>_.
     after_call (require_call (json_at current ''state'' = JStr ''open'' \<and> json_at current ''draft'' = JBool False)
       ''automatic approval requires an open, non-draft PR'') (\<lambda>_.
     lift_call (Inr current))))"

definition file_unknowns :: "string set \<Rightarrow> PrFile \<Rightarrow> string list" where
  "file_unknowns covered f =
     (if (case pr_patch f of None \<Rightarrow> True | Some patch \<Rightarrow> \<not> str_contains patch ''@@ '')
      then [pr_filename f @ '': binary, absent or unsupported patch evidence''] else []) @
     (if pr_filename f \<notin> covered then [pr_filename f @ '': changed input has no complete source screen''] else [])"

definition inventory_unknowns :: "Serde \<Rightarrow> json \<Rightarrow> string \<Rightarrow> PrFile list \<Rightarrow> ReviewReport \<Rightarrow> string list" where
  "inventory_unknowns sd current merge_base files report =
     (let covered = mr_file ` set (r_matrix report) in
      (if as_u64 sd (json_at current ''changed_files'') \<noteq> Some (length files)
       then [''PR file inventory is missing or truncated''] else []) @
      (if r_reviewed_base report \<noteq> Some merge_base
       then [''Report merge base does not match current PR merge base''] else []) @
      concat (map (file_unknowns covered) files) @
      (if length files \<noteq> card covered then [''PR inventory and reviewed inventory differ''] else []))"

definition inventory_request :: "GitHubClient \<Rightarrow> PullRequest \<Rightarrow> bool \<Rightarrow> Request" where
  "inventory_request c pr check_runs =
     (plain_request GET (repo_url c pr (''commits/'' @ pl_head_sha pr @ ''/'' @
        (if check_runs then ''check-runs'' else ''status''))))
     \<lparr>rq_query := (''per_page'', ''100'') # (if check_runs then [(''filter'', ''latest'')] else [])\<rparr>"

definition check_inventory :: "Serde \<Rightarrow> world \<Rightarrow> GitHubClient \<Rightarrow> PullRequest \<Rightarrow> bool \<Rightarrow> NamedCheck list call" where
  "check_inventory sd w c pr check_runs =
     after_call (get_value sd w c (inventory_request c pr check_runs)) (\<lambda>batch.
     after_call (of_option ''missing check inventory''
       (as_array (json_at batch (if check_runs then ''check_runs'' else ''statuses'')))) (\<lambda>items.
     after_call (require_call (as_u64 sd (json_at batch ''total_count'') = Some (length items))
       ''check inventory truncated; approval refused'') (\<lambda>_.
     after_call (require_call (check_runs \<or> as_str (json_at batch ''sha'') = Some (pl_head_sha pr))
       ''status head mismatched'') (\<lambda>_.
     lift_call (Inr (map (\<lambda>item. named_check item check_runs (pl_head_sha pr)) items))))))"

text \<open>The seconds since the epoch as an \<open>i64\<close>.\<close>

definition read_clock :: "string + nat \<Rightarrow> int call" where
  "read_clock clock =
     lift_call (case clock of Inl e \<Rightarrow> Inl (OtherError e) | Inr secs \<Rightarrow> Inr (i64_of_usize secs))"

definition gathered_checks ::
  "PullRequest \<Rightarrow> ReviewReport \<Rightarrow> int \<Rightarrow> string list \<Rightarrow> NamedCheck list \<Rightarrow> CheckEvidence" where
  "gathered_checks pr report now unknowns checks =
     \<lparr>ce_repository = pl_repository pr, ce_head = pl_head_sha pr,
      ce_reviewed_head = (case r_reviewed_head report of Some h \<Rightarrow> h | None \<Rightarrow> []), ce_assessed_at = now,
      ce_review_complete = (unknowns = []), ce_evidence_complete = (unknowns = []),
      ce_supported_inputs = (unknowns = []), ce_auxiliary_unknowns = unknowns, ce_checks = checks\<rparr>"

definition approval_evidence ::
  "Serde \<Rightarrow> world \<Rightarrow> string + nat \<Rightarrow> GitHubClient \<Rightarrow> PullRequest \<Rightarrow> ReviewReport \<Rightarrow> CheckEvidence call" where
  "approval_evidence sd w clock c pr report =
     after_call (current_pull sd w c pr) (\<lambda>current.
     after_call (of_option ''PR base is missing'' (as_str (json_at (json_at current ''base'') ''sha''))) (\<lambda>base.
     after_call (get_value sd w c (plain_request GET
       (repo_url c pr (''compare/'' @ base @ ''...'' @ pl_head_sha pr)))) (\<lambda>comparison.
     after_call (of_option ''merge base unavailable''
       (as_str (json_at (json_at comparison ''merge_base_commit'') ''sha''))) (\<lambda>merge_base.
     after_call (pull_files sd w c pr) (\<lambda>files.
     let unknowns = inventory_unknowns sd current merge_base files report in
     after_call (check_inventory sd w c pr True) (\<lambda>runs.
     after_call (check_inventory sd w c pr False) (\<lambda>statuses.
     after_call (read_clock clock) (\<lambda>now.
     lift_call (Inr (gathered_checks pr report now unknowns (runs @ statuses)))))))))))"

section \<open>Approval\<close>

fun assess_error_text :: "momus_error \<Rightarrow> string" where
  "assess_error_text (Msg m) = m"
| "assess_error_text BudgetExhausted = ''budget_exhausted: request queued for a cached rerun''"

definition approving_review :: "PullRequest \<Rightarrow> NewReview" where
  "approving_review pr =
     \<lparr>nr_commit_id = pl_head_sha pr, nr_event = ''APPROVE'',
      nr_body = ''momus: explicit opt-in policy passed complete current-head review, required checks and observed-outcome evaluation.'',
      nr_comments = []\<rparr>"

definition approve_current_head ::
  "Serde \<Rightarrow> world \<Rightarrow> string + nat \<Rightarrow> GitHubClient \<Rightarrow> PullRequest \<Rightarrow> ReviewReport \<Rightarrow> ApprovalPolicy \<Rightarrow>
    OutcomeHistory option \<Rightarrow> unit call" where
  "approve_current_head sd w clock c pr report policy history =
     after_call (current_pull sd w c pr) (\<lambda>before.
     after_call (approval_evidence sd w clock c pr report) (\<lambda>checks.
     after_call (lift_call (case assess report history (Some policy) (Some checks) of
         Inl e \<Rightarrow> Inl (OtherError (assess_error_text e)) | Inr s \<Rightarrow> Inr s)) (\<lambda>assessment.
     after_call (require_call (ad_eligible (ms_approval assessment))
       (''automatic approval rejected on fresh evidence: '' @ join ''; '' (ad_reasons (ms_approval assessment)))) (\<lambda>_.
     after_call (current_pull sd w c pr) (\<lambda>after.
     after_call (require_call (json_at (json_at before ''base'') ''sha'' = json_at (json_at after ''base'') ''sha'')
       ''PR base changed during approval assessment'') (\<lambda>_.
     create_review sd w c pr (approving_review pr)))))))"

section \<open>Time stamps are the calendar's seconds\<close>

text \<open>The calendar counted year by year and month by month from 1970-01-01.\<close>

definition days_before_year :: "nat \<Rightarrow> int" where
  "days_before_year y = sum_list (map (\<lambda>k. if leap_year (int k) then 366 else 365) [1970..<y])"

definition calendar_seconds :: "nat \<Rightarrow> nat \<Rightarrow> nat \<Rightarrow> nat \<Rightarrow> nat \<Rightarrow> nat \<Rightarrow> int" where
  "calendar_seconds y m d h mi sec =
     (((days_before_year y + sum_list (take (m - 1) (month_days (int y))) + int d - 1) * 24 + int h) * 60 + int mi) * 60
       + int sec"

definition valid_time :: "nat \<Rightarrow> nat \<Rightarrow> nat \<Rightarrow> nat \<Rightarrow> nat \<Rightarrow> nat \<Rightarrow> bool" where
  "valid_time y m d h mi sec \<longleftrightarrow>
     1970 \<le> y \<and> y \<le> 9999 \<and> 1 \<le> m \<and> m \<le> 12 \<and> 1 \<le> d \<and> int d \<le> month_days (int y) ! (m - 1) \<and>
     h \<le> 23 \<and> mi \<le> 59 \<and> sec \<le> 59"

definition two_digits :: "nat \<Rightarrow> string" where
  "two_digits n = [digit_char (n div 10), digit_char (n mod 10)]"

definition rfc3339 :: "nat \<Rightarrow> nat \<Rightarrow> nat \<Rightarrow> nat \<Rightarrow> nat \<Rightarrow> nat \<Rightarrow> string" where
  "rfc3339 y m d h mi sec =
     two_digits (y div 100) @ two_digits (y mod 100) @ ''-'' @ two_digits m @ ''-'' @ two_digits d @ ''T'' @
     two_digits h @ '':'' @ two_digits mi @ '':'' @ two_digits sec @ ''Z''"

text \<open>\<open>v\<close> is the text of a valid UTC time, \<open>n\<close> seconds after the epoch.\<close>

definition stamp_of :: "json \<Rightarrow> int \<Rightarrow> bool" where
  "stamp_of v n \<longleftrightarrow>
     (\<exists>y m d h mi sec. valid_time y m d h mi sec \<and> v = JStr (rfc3339 y m d h mi sec) \<and>
        n = calendar_seconds y m d h mi sec)"

subsection \<open>The day count\<close>

definition leaps :: "nat \<Rightarrow> int" where
  "leaps y = int (y div 4) - int (y div 100) + int (y div 400)"

lemma leap_year_nat: "leap_year (int y) \<longleftrightarrow> 4 dvd y \<and> (\<not> 100 dvd y \<or> 400 dvd y)"
proof -
  have "int y mod k = 0 \<longleftrightarrow> nat k dvd y" if "k > 0" for k
    using that by (metis dvd_eq_mod_eq_0 int_dvd_int_iff int_nat_eq less_imp_le)
  from this [of 4] this [of 100] this [of 400] show ?thesis by (simp add: leap_year_def)
qed

lemma leap_count:
  fixes i j k :: int
  assumes "c \<Longrightarrow> b" "b \<Longrightarrow> a"
  shows "(i + of_bool a) - (j + of_bool b) + (k + of_bool c) = i - j + k + of_bool (a \<and> (\<not> b \<or> c))"
  using assms by (cases a; cases b; cases c) simp_all

lemma leaps_Suc: "leaps (Suc y) = leaps y + of_bool (leap_year (int (Suc y)))"
proof -
  have one: "int (Suc y div n) = int (y div n) + of_bool (n dvd Suc y)" for n
    by (simp add: div_Suc dvd_eq_mod_eq_0)
  have "100 dvd Suc y" if "400 dvd Suc y" by (rule dvd_trans [OF _ that]) simp
  moreover have "4 dvd Suc y" if "100 dvd Suc y" by (rule dvd_trans [OF _ that]) simp
  ultimately show ?thesis
    unfolding leaps_def leap_year_nat one by (rule leap_count)
qed

lemma days_before_year: "1970 \<le> y \<Longrightarrow> days_before_year y = 365 * (int y - 1970) + leaps (y - 1) - 477"
proof (induction rule: dec_induct)
  case base
  show ?case by (simp add: days_before_year_def leaps_def)
next
  case (step y)
  have "leaps y = leaps (y - 1) + of_bool (leap_year (int y))"
    using leaps_Suc [of "y - 1"] step.hyps by simp
  with step show ?case by (simp add: days_before_year_def)
qed

lemma era_count:
  fixes era r i j :: int
  shows "era * 146097 + r * 365 + i - j = 365 * (400 * era + r) + ((100 * era + i) - (4 * era + j) + era)"
  by simp

lemma era_days:
  fixes y :: nat
  defines "era \<equiv> int y div 400"
  defines "r \<equiv> int y - era * 400"
  shows "era * 146097 + r * 365 + r div 4 - r div 100 = 365 * int y + leaps y"
proof -
  have y: "int y = 400 * era + r" by (simp add: r_def)
  have "int y div 4 = (r + (100 * era) * 4) div 4" "int y div 100 = (r + (4 * era) * 100) div 100"
    unfolding y by (rule arg_cong2 [of _ _ _ _ "(div)"]; simp)+
  then have "int y div 4 = 100 * era + r div 4" "int y div 100 = 4 * era + r div 100"
    by (simp_all only: div_mult_self1 zero_neq_numeral [symmetric] not_False_eq_True)
  then have "leaps y = (100 * era + r div 4) - (4 * era + r div 100) + era"
    by (simp only: leaps_def zdiv_int of_nat_numeral era_def)
  then show ?thesis unfolding y using era_count by simp
qed

lemma month_start:
  assumes "1 \<le> m" "m \<le> 12"
  shows "(153 * (int m + (if int m > 2 then -3 else 9)) + 2) div 5 =
     sum_list (take (m - 1) (month_days y)) + (if int m \<le> 2 then 306 else - 59 - of_bool (leap_year y))"
proof -
  from assms have "m = 1 \<or> m = 2 \<or> m = 3 \<or> m = 4 \<or> m = 5 \<or> m = 6 \<or> m = 7 \<or> m = 8 \<or> m = 9 \<or> m = 10 \<or> m = 11 \<or> m = 12"
    by presburger
  then show ?thesis by (elim disjE; hypsubst; simp add: month_days_def)
qed

lemma epoch_seconds_calendar:
  assumes "valid_time y m d h mi sec"
  shows "epoch_seconds (int y) (int m) (int d) (int h) (int mi) (int sec) = calendar_seconds y m d h mi sec"
proof -
  have y: "1970 \<le> y" and m: "1 \<le> m" "m \<le> 12" using assms by (simp_all add: valid_time_def)
  define y' where "y' = (if int m \<le> 2 then y - 1 else y)"
  have shift: "int y - (if int m \<le> 2 then 1 else 0) = int y'"
    using y by (auto simp: y'_def)
  have "leaps y = leaps (y - 1) + of_bool (leap_year (int y))"
    using leaps_Suc [of "y - 1"] y by simp
  then have "365 * int y' + leaps y' = 365 * (int y - 1) + leaps (y - 1) +
      (if int m \<le> 2 then 0 else 365 + of_bool (leap_year (int y)))"
    using y by (simp add: y'_def of_nat_diff)
  then have "365 * int y' + leaps y' + (153 * (int m + (if int m > 2 then -3 else 9)) + 2) div 5 - 719468 =
      days_before_year y + sum_list (take (m - 1) (month_days (int y)))"
    unfolding month_start [OF m, of "int y"] days_before_year [OF y] by simp
  then show ?thesis
    unfolding epoch_seconds_def Let_def shift calendar_seconds_def era_days by simp
qed

subsection \<open>The text\<close>

lemma digit_back: "is_digit c \<Longrightarrow> digit_char (digit_val c) = c" "is_digit c \<Longrightarrow> digit_val c < 10"
  by (auto simp: is_digit_def digit_val_def digit_char_def)

lemma digit_sign: "is_digit c \<Longrightarrow> c \<noteq> CHR ''-''" "is_digit c \<Longrightarrow> c \<noteq> CHR ''+''"
  by (auto simp: is_digit_def)

lemma parse_two:
  assumes "is_digit c1" "is_digit c2"
  shows "parse_i64 [c1, c2] = Some (int (10 * digit_val c1 + digit_val c2))"
  using assms digit_back(2) [OF assms(1)] digit_back(2) [OF assms(2)] digit_sign [OF assms(1)]
  by (simp add: parse_i64_def digits_val_def i64_ok_def i64_min_def i64_max_def)

lemma parse_four:
  assumes "is_digit c1" "is_digit c2" "is_digit c3" "is_digit c4"
  shows "parse_i64 [c1, c2, c3, c4] =
     Some (int (100 * (10 * digit_val c1 + digit_val c2) + (10 * digit_val c3 + digit_val c4)))"
  using assms digit_back(2) [OF assms(1)] digit_back(2) [OF assms(2)] digit_back(2) [OF assms(3)] digit_back(2) [OF assms(4)]
    digit_sign [OF assms(1)]
  by (simp add: parse_i64_def digits_val_def i64_ok_def i64_min_def i64_max_def)

lemma two_digits_back:
  "is_digit c1 \<Longrightarrow> is_digit c2 \<Longrightarrow> two_digits (10 * digit_val c1 + digit_val c2) = [c1, c2]"
  using digit_back [of c1] digit_back [of c2] by (simp add: two_digits_def)

lemma two_digits_char:
  assumes "n < 100"
  obtains c1 c2 where "two_digits n = [c1, c2]" "is_digit c1" "is_digit c2" "n = 10 * digit_val c1 + digit_val c2"
proof
  show "two_digits n = [digit_char (n div 10), digit_char (n mod 10)]" by (simp add: two_digits_def)
  have "n div 10 < 10" "n mod 10 < 10" using assms by auto
  then show "is_digit (digit_char (n div 10))" "is_digit (digit_char (n mod 10))"
    "n = 10 * digit_val (digit_char (n div 10)) + digit_val (digit_char (n mod 10))"
    by (simp_all add: digit_char_props)
qed

text \<open>A text of the shape, and its fields.\<close>

definition stamp_text :: "string \<Rightarrow> string \<Rightarrow> string \<Rightarrow> string \<Rightarrow> string \<Rightarrow> string \<Rightarrow> string \<Rightarrow> string" where
  "stamp_text y1 y2 m d h mi sec =
     y1 @ y2 @ ''-'' @ m @ ''-'' @ d @ ''T'' @ h @ '':'' @ mi @ '':'' @ sec @ ''Z''"

definition digit_pair :: "string \<Rightarrow> bool" where
  "digit_pair s \<longleftrightarrow> length s = 2 \<and> list_all is_digit s"

lemma digit_pair: "digit_pair s \<longleftrightarrow> (\<exists>c1 c2. s = [c1, c2] \<and> is_digit c1 \<and> is_digit c2)"
  by (auto simp: digit_pair_def numeral_2_eq_2 length_Suc_conv)

lemma digit_ascii: "is_digit c \<Longrightarrow> (of_char c :: nat) < 128"
  by (simp add: is_digit_def)

lemma timestamp_text:
  assumes "digit_pair y1" "digit_pair y2" "digit_pair m" "digit_pair d" "digit_pair h" "digit_pair mi" "digit_pair sec"
  shows "timestamp (JStr (stamp_text y1 y2 m d h mi sec)) =
    (if valid_time (100 * digits_val y1 + digits_val y2) (digits_val m) (digits_val d) (digits_val h) (digits_val mi) (digits_val sec)
     then calendar_seconds (100 * digits_val y1 + digits_val y2) (digits_val m) (digits_val d) (digits_val h) (digits_val mi)
       (digits_val sec)
     else 0)" (is "?t = (if ?ok then ?n else 0)")
proof -
  obtain a1 a2 b1 b2 m1 m2 d1 d2 h1 h2 i1 i2 s1 s2 where
    eqs: "y1 = [a1, a2]" "y2 = [b1, b2]" "m = [m1, m2]" "d = [d1, d2]" "h = [h1, h2]" "mi = [i1, i2]" "sec = [s1, s2]"
    and digits: "is_digit a1" "is_digit a2" "is_digit b1" "is_digit b2" "is_digit m1" "is_digit m2" "is_digit d1" "is_digit d2"
      "is_digit h1" "is_digit h2" "is_digit i1" "is_digit i2" "is_digit s1" "is_digit s2"
    using assms unfolding digit_pair by metis
  let ?s = "stamp_text [a1, a2] [b1, b2] [m1, m2] [d1, d2] [h1, h2] [i1, i2] [s1, s2]"
  have s: "?s = [a1, a2, b1, b2, CHR ''-'', m1, m2, CHR ''-'', d1, d2, CHR ''T'', h1, h2, CHR '':'', i1, i2, CHR '':'', s1, s2, CHR ''Z'']"
    by (simp add: stamp_text_def eqs)
  have shape: "stamp_shape ?s"
    unfolding stamp_shape_def s using digits by (simp add: is_ascii_def digit_ascii)
  have all: "list_all (\<lambda>(i, c). i \<in> {4, 7, 10, 13, 16, 19} \<or> is_digit c) (enumerate 0 ?s)"
    unfolding s using digits by simp
  have val: "digits_val [c1, c2] = 10 * digit_val c1 + digit_val c2" for c1 c2
    by (simp add: digits_val_def)
  have parts: "text_part ?s 0 4 = [a1, a2, b1, b2]" "text_part ?s 5 7 = [m1, m2]" "text_part ?s 8 10 = [d1, d2]"
    "text_part ?s 11 13 = [h1, h2]" "text_part ?s 14 16 = [i1, i2]" "text_part ?s 17 19 = [s1, s2]"
    unfolding s by simp_all
  have ok: "stamp_fields_ok ?s (int y) (int m') (int d') (int h') (int i') (int s') \<longleftrightarrow> valid_time y m' d' h' i' s'"
    for y m' d' h' i' s'
    unfolding stamp_fields_ok_def valid_time_def using all by (auto simp: nat_diff_distrib')
  show ?thesis
    unfolding timestamp_def eqs
    by (simp only: as_str.simps option.case shape not_True_eq_False if_False parts parse_two parse_four digits prod.case ok
        epoch_seconds_calendar val cong: if_cong)
qed

lemma length_20:
  assumes "length s = 20"
  obtains a1 a2 a3 a4 x1 m1 m2 x2 d1 d2 x3 h1 h2 x4 i1 i2 x5 s1 s2 x6
  where "s = [a1, a2, a3, a4, x1, m1, m2, x2, d1, d2, x3, h1, h2, x4, i1, i2, x5, s1, s2, x6]"
  using assms by (auto simp: numeral_eq_Suc length_Suc_conv)

lemma timestamp_shaped:
  assumes "stamp_shape s" "stamp_fields_ok s y m d h mi sec"
  obtains y1 y2 m' d' h' i' s' where "s = stamp_text y1 y2 m' d' h' i' s'" "digit_pair y1" "digit_pair y2"
    "digit_pair m'" "digit_pair d'" "digit_pair h'" "digit_pair i'" "digit_pair s'"
proof -
  have "length s = 20" using assms(1) by (simp add: stamp_shape_def)
  then obtain a1 a2 a3 a4 x1 m1 m2 x2 d1 d2 x3 h1 h2 x4 i1 i2 x5 s1 s2 x6
    where s: "s = [a1, a2, a3, a4, x1, m1, m2, x2, d1, d2, x3, h1, h2, x4, i1, i2, x5, s1, s2, x6]"
    by (rule length_20)
  have x: "x1 = CHR ''-''" "x2 = CHR ''-''" "x3 = CHR ''T''" "x4 = CHR '':''" "x5 = CHR '':''" "x6 = CHR ''Z''"
    using assms(1) unfolding stamp_shape_def s by simp_all
  have digits: "is_digit a1" "is_digit a2" "is_digit a3" "is_digit a4" "is_digit m1" "is_digit m2" "is_digit d1" "is_digit d2"
      "is_digit h1" "is_digit h2" "is_digit i1" "is_digit i2" "is_digit s1" "is_digit s2"
    using assms(2) unfolding stamp_fields_ok_def s by simp_all
  show thesis
    by (rule that [of "[a1, a2]" "[a3, a4]" "[m1, m2]" "[d1, d2]" "[h1, h2]" "[i1, i2]" "[s1, s2]"])
      (simp_all add: s x digits stamp_text_def digit_pair_def)
qed

lemma digit_pair_two_digits: "digit_pair s \<Longrightarrow> two_digits (digits_val s) = s \<and> digits_val s < 100"
  by (force simp: digit_pair digits_val_def two_digits_back dest: digit_back(2))

lemma two_digits_pair: "n < 100 \<Longrightarrow> digit_pair (two_digits n) \<and> digits_val (two_digits n) = n"
  by (elim two_digits_char) (simp add: digit_pair_def digits_val_def)

lemma month_days_bound: "1 \<le> m \<Longrightarrow> m \<le> 12 \<Longrightarrow> month_days y ! (m - 1) \<le> 31"
proof -
  assume "1 \<le> m" "m \<le> 12"
  then have "month_days y ! (m - 1) \<in> set (month_days y)" by (intro nth_mem) (simp add: month_days_def)
  then show ?thesis by (auto simp: month_days_def split: if_splits)
qed

lemma rfc3339_text:
  assumes "valid_time y m d h mi sec"
  shows "timestamp (JStr (rfc3339 y m d h mi sec)) = calendar_seconds y m d h mi sec"
proof -
  have "y div 100 < 100" "y mod 100 < 100" "m < 100" "d < 100" "h < 100" "mi < 100" "sec < 100"
    using assms month_days_bound [of m "int y"] by (auto simp: valid_time_def)
  note pairs = this [THEN two_digits_pair]
  have "rfc3339 y m d h mi sec = stamp_text (two_digits (y div 100)) (two_digits (y mod 100)) (two_digits m)
      (two_digits d) (two_digits h) (two_digits mi) (two_digits sec)"
    by (simp add: rfc3339_def stamp_text_def)
  then show ?thesis
    using assms pairs by (simp add: timestamp_text)
qed

lemma timestamp_stamp:
  assumes "timestamp v \<noteq> 0"
  shows "stamp_of v (timestamp v)"
proof -
  obtain s y m d h mi sec where v: "v = JStr s" and ok: "stamp_shape s" "stamp_fields_ok s y m d h mi sec"
    using assms by (auto simp: timestamp_def as_str_Some split: option.splits if_splits)
  from ok obtain y1 y2 m' d' h' i' s' where s: "s = stamp_text y1 y2 m' d' h' i' s'"
    and pairs: "digit_pair y1" "digit_pair y2" "digit_pair m'" "digit_pair d'" "digit_pair h'" "digit_pair i'" "digit_pair s'"
    by (rule timestamp_shaped)
  let ?y = "100 * digits_val y1 + digits_val y2"
  note inverse = pairs [THEN digit_pair_two_digits]
  have t: "timestamp v = (if valid_time ?y (digits_val m') (digits_val d') (digits_val h') (digits_val i') (digits_val s')
     then calendar_seconds ?y (digits_val m') (digits_val d') (digits_val h') (digits_val i') (digits_val s') else 0)"
    unfolding v s by (rule timestamp_text [OF pairs])
  then have valid: "valid_time ?y (digits_val m') (digits_val d') (digits_val h') (digits_val i') (digits_val s')"
    using assms by (auto split: if_splits)
  have "rfc3339 ?y (digits_val m') (digits_val d') (digits_val h') (digits_val i') (digits_val s') = s"
    using inverse by (simp add: rfc3339_def s stamp_text_def)
  with t valid v show ?thesis unfolding stamp_of_def by (metis (full_types))
qed

text \<open>
  C2. The time stamp of a check is read as the calendar counts it: a text is the seconds since the
  epoch of the valid UTC time that it writes (leap years, month lengths and the ranges of all fields
  included), and every other value, whatever its shape, is the unknown time 0.
\<close>

theorem timestamp_exact: "timestamp v = n \<longleftrightarrow> stamp_of v n \<or> n = 0 \<and> (\<nexists>k. stamp_of v k)"
proof -
  have "timestamp v = k" if "stamp_of v k" for k
    using that by (auto simp: stamp_of_def rfc3339_text)
  then show ?thesis using timestamp_stamp [of v] by metis
qed

lemma timestamp_example: "timestamp (JStr ''2026-02-28T23:59:59Z'') = 1772323199"
  by (simp add: timestamp_def stamp_shape_def stamp_fields_ok_def is_ascii_def parse_i64_def is_digit_def digits_val_def
      digit_val_def i64_ok_def i64_max_def i64_min_def epoch_seconds_def month_days_def Let_def)

section \<open>What the calls return\<close>

lemma get_value_Inr [call_simps]:
  "get_value sd w c rq s = (Inr v, t) \<longleftrightarrow>
     (\<exists>resp. t = s @ [authorized c rq] \<and> w t = Inr resp \<and> is_success (rp_status resp) \<and>
        and_then (rp_text resp) (de_value sd) = Inr v)"
  by (auto simp: get_value_def call_simps)

lemma read_only_get_value [read_only_intros]: "rq_method rq = GET \<Longrightarrow> read_only (get_value sd w c rq)"
  by (auto simp: get_value_def intro!: read_only_intros)

lemma read_only_current_pull [read_only_intros]: "read_only (current_pull sd w c pr)"
  by (auto simp: current_pull_def plain_request_def intro!: read_only_intros)

lemma read_only_check_inventory [read_only_intros]: "read_only (check_inventory sd w c pr runs)"
  by (auto simp: check_inventory_def inventory_request_def plain_request_def intro!: read_only_intros)

lemma read_only_clock [read_only_intros]: "read_only (read_clock clock)"
  by (simp add: read_clock_def read_only_lift)

lemma read_clock_Inr:
  "read_clock clock s = (Inr n, t) \<longleftrightarrow> (\<exists>now. clock = Inr now \<and> n = i64_of_usize now) \<and> t = s"
  by (auto simp: read_clock_def call_simps split: sum.splits)

lemma read_only_approval_evidence: "read_only (approval_evidence sd w clock c pr report)"
  unfolding approval_evidence_def Let_def by (intro read_only_intros) (simp_all add: plain_request_def)

section \<open>When the approving review is posted\<close>

text \<open>The answer to a request sent after \<open>sent\<close>, and the requests of an approval.\<close>

definition received :: "Serde \<Rightarrow> world \<Rightarrow> GitHubClient \<Rightarrow> Request list \<Rightarrow> Request \<Rightarrow> json \<Rightarrow> bool" where
  "received sd w c sent rq v \<longleftrightarrow>
     (\<exists>resp. w (sent @ [authorized c rq]) = Inr resp \<and> is_success (rp_status resp) \<and>
        and_then (rp_text resp) (de_value sd) = Inr v)"

definition pull_request :: "GitHubClient \<Rightarrow> PullRequest \<Rightarrow> Request" where
  "pull_request c pr = plain_request GET (repo_url c pr (''pulls/'' @ show_nat (pl_number pr)))"

definition compare_request :: "GitHubClient \<Rightarrow> PullRequest \<Rightarrow> string \<Rightarrow> Request" where
  "compare_request c pr base = plain_request GET (repo_url c pr (''compare/'' @ base @ ''...'' @ pl_head_sha pr))"

definition approving_request :: "GitHubClient \<Rightarrow> PullRequest \<Rightarrow> Request" where
  "approving_request c pr =
     authorized c ((plain_request POST (repo_url c pr (''pulls/'' @ show_nat (pl_number pr) @ ''/reviews'')))
       \<lparr>rq_body := Some (review_json (approving_review pr))\<rparr>)"

text \<open>The pull request is open, is no draft and has the reviewed head.\<close>

definition unchanged_pull :: "PullRequest \<Rightarrow> json \<Rightarrow> bool" where
  "unchanged_pull pr v \<longleftrightarrow>
     json_at (json_at v ''head'') ''sha'' = JStr (pl_head_sha pr) \<and>
     json_at v ''state'' = JStr ''open'' \<and> json_at v ''draft'' = JBool False"

text \<open>The report covers the change: its base is the merge base, and every file that GitHub lists has a
  textual patch and a row of the review matrix, which has no other rows.\<close>

definition covers_change :: "Serde \<Rightarrow> json \<Rightarrow> string \<Rightarrow> PrFile list \<Rightarrow> ReviewReport \<Rightarrow> bool" where
  "covers_change sd current merge_base files report \<longleftrightarrow>
     as_u64 sd (json_at current ''changed_files'') = Some (length files) \<and>
     r_reviewed_base report = Some merge_base \<and>
     list_all (\<lambda>f. (\<exists>patch. pr_patch f = Some patch \<and> str_contains patch ''@@ '') \<and>
         pr_filename f \<in> mr_file ` set (r_matrix report)) files \<and>
     length files = card (mr_file ` set (r_matrix report))"

text \<open>The inventory of check runs, or of commit statuses, is complete and of the reviewed head.\<close>

definition complete_inventory ::
  "Serde \<Rightarrow> world \<Rightarrow> GitHubClient \<Rightarrow> PullRequest \<Rightarrow> bool \<Rightarrow> Request list \<Rightarrow> NamedCheck list \<Rightarrow> bool" where
  "complete_inventory sd w c pr check_runs sent checks \<longleftrightarrow>
     (\<exists>batch items. received sd w c sent (inventory_request c pr check_runs) batch \<and>
        json_at batch (if check_runs then ''check_runs'' else ''statuses'') = JArr items \<and>
        as_u64 sd (json_at batch ''total_count'') = Some (length items) \<and>
        (check_runs \<or> json_at batch ''sha'' = JStr (pl_head_sha pr)) \<and>
        checks = map (\<lambda>item. named_check item check_runs (pl_head_sha pr)) items)"

text \<open>
  What was observed, in the order of the requests: the unchanged pull request, twice; the merge base of
  its current base and the reviewed head; the whole list of files; both inventories of checks; the
  clock; and again the unchanged pull request, with the base of the first observation. The report
  covers the change, and with these checks the decision is that of \<open>approvable\<close>.
\<close>

definition observed_approvable ::
  "Serde \<Rightarrow> world \<Rightarrow> string + nat \<Rightarrow> GitHubClient \<Rightarrow> PullRequest \<Rightarrow> ReviewReport \<Rightarrow> ApprovalPolicy \<Rightarrow>
    OutcomeHistory option \<Rightarrow> Request list \<Rightarrow> bool" where
  "observed_approvable sd w clock c pr report policy history reads \<longleftrightarrow>
     (\<exists>before current base comparison merge_base files sent runs statuses now after.
        let p = authorized c (pull_request c pr);
            q = authorized c (compare_request c pr base);
            i = authorized c (inventory_request c pr True);
            j = authorized c (inventory_request c pr False);
            checks = gathered_checks pr report (i64_of_usize now) [] (runs @ statuses)
        in received sd w c [] (pull_request c pr) before \<and> unchanged_pull pr before \<and>
           received sd w c [p] (pull_request c pr) current \<and> unchanged_pull pr current \<and>
           json_at (json_at current ''base'') ''sha'' = JStr base \<and>
           received sd w c [p, p] (compare_request c pr base) comparison \<and>
           json_at (json_at comparison ''merge_base_commit'') ''sha'' = JStr merge_base \<and>
           whole_list w c (de_files sd) (repo_url c pr (''pulls/'' @ show_nat (pl_number pr) @ ''/files''))
             [p, p, q] files sent \<and>
           complete_inventory sd w c pr True sent runs \<and>
           complete_inventory sd w c pr False (sent @ [i]) statuses \<and>
           clock = Inr now \<and>
           covers_change sd current merge_base files report \<and>
           is_ok (assess report history (Some policy) (Some checks)) \<and>
           approvable report history (Some policy) (Some checks) \<and>
           received sd w c (sent @ [i, j]) (pull_request c pr) after \<and> unchanged_pull pr after \<and>
           json_at (json_at before ''base'') ''sha'' = json_at (json_at after ''base'') ''sha'' \<and>
           reads = sent @ [i, j, p])"

lemma current_pull_Inr:
  "current_pull sd w c pr s = (Inr v, t) \<longleftrightarrow>
     received sd w c s (pull_request c pr) v \<and> unchanged_pull pr v \<and> t = s @ [authorized c (pull_request c pr)]"
  by (auto simp: current_pull_def call_simps received_def pull_request_def unchanged_pull_def as_str_Some)

lemma as_array_Some: "as_array v = Some vs \<longleftrightarrow> v = JArr vs"
  by (cases v) auto

lemma check_inventory_Inr:
  "check_inventory sd w c pr runs s = (Inr checks, t) \<longleftrightarrow>
     complete_inventory sd w c pr runs s checks \<and> t = s @ [authorized c (inventory_request c pr runs)]"
  unfolding check_inventory_def complete_inventory_def received_def call_simps
  by (auto simp: as_str_Some as_array_Some)

lemma file_unknowns_Nil:
  "file_unknowns covered f = [] \<longleftrightarrow>
     (\<exists>patch. pr_patch f = Some patch \<and> str_contains patch ''@@ '') \<and> pr_filename f \<in> covered"
  by (auto simp: file_unknowns_def split: option.splits)

lemma inventory_unknowns_Nil:
  "inventory_unknowns sd current merge_base files report = [] \<longleftrightarrow> covers_change sd current merge_base files report"
  by (auto simp: inventory_unknowns_def covers_change_def file_unknowns_Nil list_all_iff Let_def)

lemma pull_files_Inr:
  "pull_files sd w c pr s = (Inr files, t) \<longleftrightarrow>
     whole_list w c (de_files sd) (repo_url c pr (''pulls/'' @ show_nat (pl_number pr) @ ''/files'')) s files t"
  unfolding pull_files_def get_all_def whole_list_def
  using get_pages_whole [of sd w c "de_files sd" _ 1 MAX_PAGES "[]" s files t] by simp

text \<open>Everything before the review is posted.\<close>

definition approval_gate ::
  "Serde \<Rightarrow> world \<Rightarrow> string + nat \<Rightarrow> GitHubClient \<Rightarrow> PullRequest \<Rightarrow> ReviewReport \<Rightarrow> ApprovalPolicy \<Rightarrow>
    OutcomeHistory option \<Rightarrow> unit call" where
  "approval_gate sd w clock c pr report policy history =
     after_call (current_pull sd w c pr) (\<lambda>before.
     after_call (approval_evidence sd w clock c pr report) (\<lambda>checks.
     after_call (lift_call (case assess report history (Some policy) (Some checks) of
         Inl e \<Rightarrow> Inl (OtherError (assess_error_text e)) | Inr s \<Rightarrow> Inr s)) (\<lambda>assessment.
     after_call (require_call (ad_eligible (ms_approval assessment))
       (''automatic approval rejected on fresh evidence: '' @ join ''; '' (ad_reasons (ms_approval assessment)))) (\<lambda>_.
     after_call (current_pull sd w c pr) (\<lambda>after.
     require_call (json_at (json_at before ''base'') ''sha'' = json_at (json_at after ''base'') ''sha'')
       ''PR base changed during approval assessment'')))))"

lemma after_call_assoc: "after_call (after_call m f) g = after_call m (\<lambda>x. after_call (f x) g)"
  by (auto simp: after_call_def fun_eq_iff split: prod.splits sum.splits)

lemma approve_gate:
  "approve_current_head sd w clock c pr report policy history =
     after_call (approval_gate sd w clock c pr report policy history) (\<lambda>_. create_review sd w c pr (approving_review pr))"
  by (simp add: approve_current_head_def approval_gate_def after_call_assoc)

lemma approval_gate_reads: "read_only (approval_gate sd w clock c pr report policy history)"
  unfolding approval_gate_def by (intro read_only_intros read_only_approval_evidence)

lemma create_review_sends: "snd (create_review sd w c pr (approving_review pr) s) = s @ [approving_request c pr]"
  by (simp add: create_review_def send_json_def after_call_def send_def lift_call_def Let_def approving_request_def
      split: prod.splits sum.splits)

lemma get_value_received:
  "get_value sd w c rq s = (Inr v, t) \<longleftrightarrow> received sd w c s rq v \<and> t = s @ [authorized c rq]"
  by (auto simp: get_value_Inr received_def)

lemma approval_evidence_Inr:
  "approval_evidence sd w clock c pr report s = (Inr checks, t) \<longleftrightarrow>
     (\<exists>current base comparison merge_base files sent runs statuses now.
        let p = authorized c (pull_request c pr);
            q = authorized c (compare_request c pr base);
            i = authorized c (inventory_request c pr True);
            j = authorized c (inventory_request c pr False)
        in received sd w c s (pull_request c pr) current \<and> unchanged_pull pr current \<and>
           json_at (json_at current ''base'') ''sha'' = JStr base \<and>
           received sd w c (s @ [p]) (compare_request c pr base) comparison \<and>
           json_at (json_at comparison ''merge_base_commit'') ''sha'' = JStr merge_base \<and>
           whole_list w c (de_files sd) (repo_url c pr (''pulls/'' @ show_nat (pl_number pr) @ ''/files''))
             ((s @ [p]) @ [q]) files sent \<and>
           complete_inventory sd w c pr True sent runs \<and>
           complete_inventory sd w c pr False (sent @ [i]) statuses \<and>
           clock = Inr now \<and> t = (sent @ [i]) @ [j] \<and>
           checks = gathered_checks pr report (i64_of_usize now) (inventory_unknowns sd current merge_base files report) (runs @ statuses))"
  unfolding approval_evidence_def Let_def compare_request_def [symmetric] after_call_Inr of_option_Inr lift_call_Inr
    current_pull_Inr check_inventory_Inr pull_files_Inr as_str_Some get_value_received read_clock_Inr sum.inject
  apply (rule iffI)
   apply (elim exE conjE, hypsubst, intro exI conjI)
             apply (assumption | rule refl | erule sym)+
  apply (elim exE conjE, hypsubst, intro exI conjI)
                      apply (assumption | rule refl | erule sym)+
  done

lemma eligible_iff:
  "(\<exists>a. assess report history policy checks = Inr a \<and> ad_eligible (ms_approval a)) \<longleftrightarrow>
     is_ok (assess report history policy checks) \<and> approvable report history policy checks"
  using assess_decides [of report history policy checks] by (auto split: sum.splits)

lemma approvable_known:
  "approvable report history (Some p) (Some (gathered_checks pr report now unknowns checks)) \<Longrightarrow> unknowns = []"
  by (auto simp: approvable_def checks_pass_def gathered_checks_def split: option.splits)

lemma decision_Inr:
  "after_call (lift_call (case r of Inl e \<Rightarrow> Inl (f e) | Inr a \<Rightarrow> Inr a)) (\<lambda>a.
     after_call (require_call (eligible a) (msg a)) (\<lambda>_. k)) s = (Inr u, t) \<longleftrightarrow>
   (\<exists>a. r = Inr a \<and> eligible a) \<and> k s = (Inr u, t)"
  by (cases r) (auto simp: call_simps)

lemma approval_gate_Inr:
  "approval_gate sd w clock c pr report policy history [] = (Inr u, reads) \<longleftrightarrow>
     observed_approvable sd w clock c pr report policy history reads"
proof
  show "observed_approvable sd w clock c pr report policy history reads"
    if gate: "approval_gate sd w clock c pr report policy history [] = (Inr u, reads)"
  proof -
    obtain before checks after s where before: "received sd w c [] (pull_request c pr) before" "unchanged_pull pr before"
      and evidence: "approval_evidence sd w clock c pr report [authorized c (pull_request c pr)] = (Inr checks, s)"
      and decision: "is_ok (assess report history (Some policy) (Some checks))"
        "approvable report history (Some policy) (Some checks)"
      and after: "received sd w c s (pull_request c pr) after" "unchanged_pull pr after"
        "json_at (json_at before ''base'') ''sha'' = json_at (json_at after ''base'') ''sha''"
        "reads = s @ [authorized c (pull_request c pr)]"
      using gate unfolding approval_gate_def after_call_Inr [of "current_pull sd w c pr"]
        after_call_Inr [of "approval_evidence sd w clock c pr report"] decision_Inr eligible_iff current_pull_Inr require_call_Inr
      by auto
    show ?thesis
      using before evidence decision after
      unfolding approval_evidence_Inr observed_approvable_def Let_def
      apply (elim exE conjE)
      apply (hypsubst, frule approvable_known)
      apply (simp only: inventory_unknowns_Nil append_assoc append_Cons append_Nil)
      apply (intro exI conjI)
                          apply (assumption | rule refl)+
      done
  qed
next
  show "approval_gate sd w clock c pr report policy history [] = (Inr u, reads)"
    if observed: "observed_approvable sd w clock c pr report policy history reads"
  proof -
    from observed obtain before current base comparison merge_base files sent runs statuses now after
      where "received sd w c [] (pull_request c pr) before" "unchanged_pull pr before"
      and gathered: "received sd w c [authorized c (pull_request c pr)] (pull_request c pr) current" "unchanged_pull pr current"
        "json_at (json_at current ''base'') ''sha'' = JStr base"
        "received sd w c ([authorized c (pull_request c pr)] @ [authorized c (pull_request c pr)]) (compare_request c pr base)
           comparison"
        "json_at (json_at comparison ''merge_base_commit'') ''sha'' = JStr merge_base"
        "whole_list w c (de_files sd) (repo_url c pr (''pulls/'' @ show_nat (pl_number pr) @ ''/files''))
           (([authorized c (pull_request c pr)] @ [authorized c (pull_request c pr)]) @ [authorized c (compare_request c pr base)])
           files sent"
        "complete_inventory sd w c pr True sent runs"
        "complete_inventory sd w c pr False (sent @ [authorized c (inventory_request c pr True)]) statuses"
        "clock = Inr now"
      and known: "inventory_unknowns sd current merge_base files report = []"
      and decided:
        "is_ok (assess report history (Some policy) (Some (gathered_checks pr report (i64_of_usize now) [] (runs @ statuses))))"
        "approvable report history (Some policy) (Some (gathered_checks pr report (i64_of_usize now) [] (runs @ statuses)))"
        "received sd w c ((sent @ [authorized c (inventory_request c pr True)]) @ [authorized c (inventory_request c pr False)])
           (pull_request c pr) after"
        "unchanged_pull pr after" "json_at (json_at before ''base'') ''sha'' = json_at (json_at after ''base'') ''sha''"
        "reads = ((sent @ [authorized c (inventory_request c pr True)]) @ [authorized c (inventory_request c pr False)]) @
           [authorized c (pull_request c pr)]"
      unfolding observed_approvable_def Let_def inventory_unknowns_Nil by auto
    moreover have "approval_evidence sd w clock c pr report [authorized c (pull_request c pr)] =
        (Inr (gathered_checks pr report (i64_of_usize now) [] (runs @ statuses)),
         (sent @ [authorized c (inventory_request c pr True)]) @ [authorized c (inventory_request c pr False)])"
      unfolding approval_evidence_Inr Let_def
      apply (intro exI conjI)
                apply (rule gathered refl)+
      apply (simp only: known)
      done
    ultimately show ?thesis
      unfolding approval_gate_def after_call_Inr [of "current_pull sd w c pr"]
        after_call_Inr [of "approval_evidence sd w clock c pr report"] decision_Inr eligible_iff current_pull_Inr require_call_Inr
      by auto
  qed
qed

text \<open>
  C1. Approval is bound to what was observed: the only request of an approval run that is not a read is
  the approving review of exactly the reviewed commit, and it is sent exactly when the pull request was
  open, no draft and at the reviewed head at every observation and its base never changed, the report
  covers every file of the whole list and the current merge base, both inventories of checks are
  complete, and the decision on that evidence is eligible. Any error, change or gap sends nothing.
\<close>

theorem approval_posted_exactly:
  "filter (\<lambda>rq. rq_method rq \<noteq> GET) (snd (approve_current_head sd w clock c pr report policy history [])) =
     (if \<exists>reads. observed_approvable sd w clock c pr report policy history reads
      then [approving_request c pr] else [])"
proof -
  obtain r reads where gate: "approval_gate sd w clock c pr report policy history [] = (r, reads)" by fastforce
  have "\<exists>rqs. reads = [] @ rqs \<and> list_all (\<lambda>rq. rq_method rq = GET) rqs"
    using approval_gate_reads [of sd w clock c pr report policy history] gate
    unfolding read_only_def by (metis snd_conv)
  then have none: "filter (\<lambda>rq. rq_method rq \<noteq> GET) reads = []"
    by (auto simp: list_all_iff)
  have post: "rq_method (approving_request c pr) = POST"
    by (simp add: approving_request_def authorized_def plain_request_def)
  show ?thesis
  proof (cases r)
    case (Inl e)
    have "\<nexists>reads. observed_approvable sd w clock c pr report policy history reads"
      unfolding approval_gate_Inr [of _ _ _ _ _ _ _ _ "()", symmetric] gate Inl by simp
    then show ?thesis using none by (simp add: approve_gate after_call_def gate Inl)
  next
    case (Inr u)
    have "observed_approvable sd w clock c pr report policy history reads"
      using gate unfolding Inr approval_gate_Inr .
    then have "\<exists>reads. observed_approvable sd w clock c pr report policy history reads" ..
    then show ?thesis using none post by (simp add: approve_gate after_call_def gate Inr create_review_sends)
  qed
qed

end
