(* ===== verification/Stores.thy ===== *)
theory Stores
  imports Feedback Review_Text Rust_Lexing
begin

text \<open>
  The saved report, the history of reports and the feedback log (\<open>adapters/report_store.rs\<close>,
  \<open>adapters/feedback_store.rs\<close>) on a file system: a map from paths to contents, which this process
  alone changes. What the system answers to each call of a write is a parameter, and every state of
  the file system that a write passes through is recorded. JSON (de)serialization, the clock and the
  times of the files are parameters. A path has no \<open>.\<close> component.
\<close>

type_synonym files = "string \<rightharpoonup> string"

section \<open>Dates\<close>

definition civil_from_days :: "int \<Rightarrow> int \<times> int \<times> int" where
  "civil_from_days days =
     (let z = days + 719468;
          era = (if z \<ge> 0 then z else z - 146096) div 146097;
          doe = z - era * 146097;
          yoe = (doe - doe div 1460 + doe div 36524 - doe div 146096) div 365;
          y = yoe + era * 400;
          doy = doe - (365 * yoe + yoe div 4 - yoe div 100);
          mp = (5 * doy + 2) div 153;
          d = doy - (153 * mp + 2) div 5 + 1;
          m = (if mp < 10 then mp + 3 else mp - 9)
      in (if m \<le> 2 then y + 1 else y, m, d))"

text \<open>\<open>iso8601\<close> of a time \<open>secs\<close> seconds after the epoch (0 for a time before it).\<close>

definition padded :: "nat \<Rightarrow> int \<Rightarrow> string" where
  "padded width n = pad_zeros width (show_nat (nat n))"

definition iso8601 :: "nat \<Rightarrow> string" where
  "iso8601 secs =
     (let secs = i64_of_usize secs; days = secs div 86400; rest = secs mod 86400;
          h = rest div 3600; m = (rest mod 3600) div 60; s = rest mod 60;
          (y, mo, d) = civil_from_days days
      in padded 4 y @ ''-'' @ padded 2 mo @ ''-'' @ padded 2 d @ ''T'' @ padded 2 h @ '':'' @ padded 2 m @ '':'' @
         padded 2 s @ ''Z'')"

section \<open>Writing a file\<close>

text \<open>
  What the system answers in one round of the loop: the clock, an error of creating the temporary
  file although it does not exist, an error of the write after some bytes, an error of the rename, and
  whether the temporary file can be removed.
\<close>

record Attempt =
  at_nanos :: nat
  at_open :: "string option"
  at_write :: "(nat \<times> string) option"
  at_rename :: "string option"
  at_remove :: bool

definition unique_suffix :: "nat \<Rightarrow> nat \<Rightarrow> u64 \<Rightarrow> string \<times> u64" where
  "unique_suffix pid nanos counter =
     (show_nat pid @ ''.'' @ show_nat nanos @ ''.'' @ show_nat (unat counter), counter + 1)"

definition temp_path :: "string \<Rightarrow> string \<Rightarrow> string" where
  "temp_path path suf = path @ ''.'' @ suf @ ''.tmp''"

definition remove_temp :: "Attempt \<Rightarrow> string \<Rightarrow> files \<Rightarrow> files" where
  "remove_temp a temp fs = (if at_remove a then fs(temp := None) else fs)"

text \<open>The result, the files, the counter, and every state of the files on the way.\<close>

fun write_attempts ::
  "nat \<Rightarrow> string \<Rightarrow> string \<Rightarrow> Attempt list \<Rightarrow> u64 \<Rightarrow> files \<Rightarrow> (string + unit) \<times> files \<times> u64 \<times> files list" where
  "write_attempts pid path data [] counter fs =
     (Inl ''Could not save file: temp file collisions'', fs, counter, [])"
| "write_attempts pid path data (a # as) counter fs =
     (let (suf, counter) = unique_suffix pid (at_nanos a) counter;
          temp = temp_path path suf
      in if fs temp \<noteq> None then write_attempts pid path data as counter fs
         else case at_open a of
           Some e \<Rightarrow> (Inl (''atomic write: '' @ e), remove_temp a temp fs, counter, [remove_temp a temp fs])
         | None \<Rightarrow>
             (case at_write a of
               Some (n, e) \<Rightarrow>
                 let partial = fs(temp \<mapsto> take n data)
                 in (Inl (''atomic write: '' @ e), remove_temp a temp partial, counter,
                     map (\<lambda>k. fs(temp \<mapsto> take k data)) [0..<Suc n] @ [remove_temp a temp partial])
             | None \<Rightarrow>
                 let written = fs(temp \<mapsto> data);
                     growing = map (\<lambda>k. fs(temp \<mapsto> take k data)) [0..<Suc (length data)]
                 in (case at_rename a of
                      None \<Rightarrow> (Inr (), fs(path \<mapsto> data), counter, growing @ [fs(path \<mapsto> data)])
                    | Some e \<Rightarrow> (Inl (''atomic write: '' @ e), remove_temp a temp written, counter,
                        growing @ [remove_temp a temp written]))))"

definition trim_slashes_end :: "string \<Rightarrow> string" where
  "trim_slashes_end s = rev (dropWhile (\<lambda>c. c = CHR ''/'') (rev s))"

text \<open>\<open>path.parent()\<close>, and the directory to create: none for a bare name.\<close>

definition parent_dir :: "string \<Rightarrow> string option" where
  "parent_dir path =
     (case trim_slashes_end path of
        [] \<Rightarrow> None
      | p \<Rightarrow> (case rsplit_once (CHR ''/'') p of
            None \<Rightarrow> Some []
          | Some (d, _) \<Rightarrow> Some (if trim_slashes_end d = [] then ''/'' else trim_slashes_end d)))"

text \<open>The system while a file is written: the error of creating a directory, and ten rounds.\<close>

record System =
  sy_pid :: nat
  sy_mkdir :: "string \<Rightarrow> string option"
  sy_attempt :: "nat \<Rightarrow> Attempt"

definition write_atomic ::
  "System \<Rightarrow> string \<Rightarrow> string \<Rightarrow> u64 \<Rightarrow> files \<Rightarrow> (string + unit) \<times> files \<times> u64 \<times> files list" where
  "write_atomic sy path data counter fs =
     (case (case parent_dir path of
              Some d \<Rightarrow> if d = [] then None else sy_mkdir sy d
            | None \<Rightarrow> None) of
        Some e \<Rightarrow> (Inl e, fs, counter, [])
      | None \<Rightarrow> write_attempts (sy_pid sy) path data (map (sy_attempt sy) [0..<10]) counter fs)"

section \<open>Reports and history\<close>

text \<open>serde: text of a value (with an error of its own), and reading it back.\<close>

record Codec =
  co_report :: "ReviewReport \<Rightarrow> string + string"
  co_read_report :: "string \<Rightarrow> string + ReviewReport"
  co_log :: "FeedbackLog \<Rightarrow> string + string"
  co_read_log :: "string \<Rightarrow> string + FeedbackLog"

text \<open>Why a file cannot be read: there is none, or another error.\<close>

datatype read_error = NotFound | ReadError string

record Reading =
  rd_denied :: "string \<Rightarrow> string option"
  rd_mtime :: "string \<Rightarrow> nat option"

definition read_to_string :: "Reading \<Rightarrow> files \<Rightarrow> string \<Rightarrow> read_error + string" where
  "read_to_string rd fs path =
     (case fs path of
        None \<Rightarrow> Inl NotFound
      | Some text \<Rightarrow> (case rd_denied rd path of Some e \<Rightarrow> Inl (ReadError e) | None \<Rightarrow> Inr text))"

datatype StoredReport = StoredOk string ReviewReport | StoredEmpty | StoredError string

definition env_path :: "(string \<Rightarrow> string option) \<Rightarrow> string \<Rightarrow> string \<Rightarrow> string" where
  "env_path env name default_path =
     (case env name of Some p \<Rightarrow> if blank p then default_path else p | None \<Rightarrow> default_path)"

definition report_path :: "(string \<Rightarrow> string option) \<Rightarrow> string" where
  "report_path env = env_path env ''MOMUS_REPORT'' ''reviews/latest.json''"

text \<open>The times of files are in nanoseconds after the epoch.\<close>

definition read_report :: "Codec \<Rightarrow> Reading \<Rightarrow> files \<Rightarrow> string \<Rightarrow> StoredReport" where
  "read_report co rd fs path =
     (case read_to_string rd fs path of
        Inl _ \<Rightarrow> StoredEmpty
      | Inr text \<Rightarrow>
          (case co_read_report co text of
             Inl _ \<Rightarrow> StoredError ''Report is not review output''
           | Inr report \<Rightarrow>
               StoredOk (case rd_mtime rd path of Some t \<Rightarrow> iso8601 (t div 1000000000) | None \<Rightarrow> []) report))"

text \<open>\<open>save_report\<close> and \<open>save_json\<close>: pretty JSON and a newline.\<close>

definition save_text ::
  "System \<Rightarrow> string + string \<Rightarrow> string \<Rightarrow> u64 \<Rightarrow> files \<Rightarrow> (string + unit) \<times> files \<times> u64 \<times> files list" where
  "save_text sy pretty path counter fs =
     (case pretty of
        Inl e \<Rightarrow> (Inl e, fs, counter, [])
      | Inr text \<Rightarrow> write_atomic sy path (text @ [NL]) counter fs)"

definition save_report ::
  "System \<Rightarrow> Codec \<Rightarrow> ReviewReport \<Rightarrow> string \<Rightarrow> u64 \<Rightarrow> files \<Rightarrow> (string + unit) \<times> files \<times> u64 \<times> files list" where
  "save_report sy co report path counter fs = save_text sy (co_report co report) path counter fs"

definition history_dir :: string where
  "history_dir = ''reviews/history''"

definition path_join :: "string \<Rightarrow> string \<Rightarrow> string" where
  "path_join dir name =
     (if prefix ''/'' name \<or> dir = [] then name
      else if last dir = CHR ''/'' then dir @ name else dir @ ''/'' @ name)"

fun mode_key :: "ReviewMode \<Rightarrow> string" where
  "mode_key Changes = ''changes''"
| "mode_key Codebase = ''codebase''"

text \<open>\<open>removal\<close> is the error of removing a file that exists.\<close>

definition save_history_in ::
  "System \<Rightarrow> Codec \<Rightarrow> Reading \<Rightarrow> (string \<Rightarrow> string option) \<Rightarrow> string \<Rightarrow> ReviewReport \<Rightarrow> string \<Rightarrow> u64 \<Rightarrow> files \<Rightarrow>
    (string + string) \<times> files \<times> u64 \<times> files list" where
  "save_history_in sy co rd removal dir report sha counter fs =
     (let path = path_join dir (sha @ ''.'' @ mode_key (r_mode report) @ ''.json'');
          (r, fs, counter, seen) = save_report sy co report path counter fs
      in case r of
           Inl e \<Rightarrow> (Inl e, fs, counter, seen)
         | Inr _ \<Rightarrow>
             let legacy = path_join dir (sha @ ''.json'')
             in case read_report co rd fs legacy of
                  StoredOk _ old \<Rightarrow>
                    if r_mode old = r_mode report
                    then (case removal legacy of
                            Some e \<Rightarrow> (Inl (''remove legacy history '' @ legacy @ '': '' @ e), fs, counter, seen)
                          | None \<Rightarrow> (Inr path, fs(legacy := None), counter, seen @ [fs(legacy := None)]))
                    else (Inr path, fs, counter, seen)
                | _ \<Rightarrow> (Inr path, fs, counter, seen))"

definition save_history where
  "save_history sy co rd removal report sha counter fs =
     save_history_in sy co rd removal history_dir report sha counter fs"

definition history_sha :: "string \<Rightarrow> string" where
  "history_sha stem =
     (case strip_suffix ''.changes'' stem of
        Some s \<Rightarrow> s
      | None \<Rightarrow> (case strip_suffix ''.codebase'' stem of Some s \<Rightarrow> s | None \<Rightarrow> stem))"

record HistoryEntry =
  he_sha :: string
  he_saved_at :: string
  he_saved_nanos :: nat
  he_report :: ReviewReport

text \<open>\<open>path.extension()\<close> and \<open>path.file_stem()\<close> of a file name: a leading dot starts no extension.\<close>

definition name_stem :: "string \<Rightarrow> string \<times> string option" where
  "name_stem name =
     (case rsplit_once (CHR ''.'') name of
        None \<Rightarrow> (name, None)
      | Some (stem, e) \<Rightarrow> if stem = [] then (name, None) else (stem, Some e))"

text \<open>The names of a directory in the order it lists them, or the error of listing it.\<close>

definition history_entry :: "Codec \<Rightarrow> Reading \<Rightarrow> files \<Rightarrow> string \<Rightarrow> string \<Rightarrow> HistoryEntry list" where
  "history_entry co rd fs dir name =
     (let path = path_join dir name; (stem, extension) = name_stem name in
      if extension \<noteq> Some ''json'' then []
      else case read_report co rd fs path of
             StoredOk saved_at report \<Rightarrow>
               [\<lparr>he_sha = history_sha stem, he_saved_at = saved_at,
                 he_saved_nanos = (case rd_mtime rd path of Some t \<Rightarrow> t | None \<Rightarrow> 0), he_report = report\<rparr>]
           | _ \<Rightarrow> [])"

definition read_history_in ::
  "Codec \<Rightarrow> Reading \<Rightarrow> files \<Rightarrow> (string \<Rightarrow> read_error + string list) \<Rightarrow> string \<Rightarrow> string + HistoryEntry list" where
  "read_history_in co rd fs listing dir =
     (case listing dir of
        Inl NotFound \<Rightarrow> Inr []
      | Inl (ReadError e) \<Rightarrow> Inl (''read history: '' @ e)
      | Inr names \<Rightarrow> Inr (concat (map (history_entry co rd fs dir) names)))"

definition read_history where
  "read_history co rd fs listing = read_history_in co rd fs listing history_dir"

section \<open>The feedback log\<close>

definition feedback_path :: "(string \<Rightarrow> string option) \<Rightarrow> string" where
  "feedback_path env = env_path env ''MOMUS_FEEDBACK'' ''reviews/feedback.json''"

definition read_feedback :: "Codec \<Rightarrow> Reading \<Rightarrow> files \<Rightarrow> string \<Rightarrow> string + FeedbackLog" where
  "read_feedback co rd fs path =
     (case read_to_string rd fs path of
        Inr text \<Rightarrow>
          (case co_read_log co text of
             Inl e \<Rightarrow> Inl (path @ '' is not a feedback log: '' @ e)
           | Inr vlog \<Rightarrow> Inr vlog)
      | Inl NotFound \<Rightarrow> Inr \<lparr>fl_entries = []\<rparr>
      | Inl (ReadError e) \<Rightarrow> Inl (''read '' @ path @ '': '' @ e))"

text \<open>The lock makes an append one step; \<open>poisoned\<close> says that a holder of it has panicked.\<close>

definition append_feedback ::
  "System \<Rightarrow> Codec \<Rightarrow> Reading \<Rightarrow> bool \<Rightarrow> nat \<Rightarrow> string \<Rightarrow> FeedbackEntry \<Rightarrow> u64 \<Rightarrow> files \<Rightarrow>
    (string + FeedbackLog) \<times> files \<times> u64 \<times> files list" where
  "append_feedback sy co rd poisoned now path entry counter fs =
     (if poisoned then (Inl ''feedback lock poisoned'', fs, counter, [])
      else case read_feedback co rd fs path of
             Inl e \<Rightarrow> (Inl e, fs, counter, [])
           | Inr vlog \<Rightarrow>
               let vlog = \<lparr>fl_entries = fl_entries vlog @ [entry\<lparr>fe_at := iso8601 now\<rparr>]\<rparr>;
                   (r, fs, counter, seen) = save_text sy (co_log co vlog) path counter fs
               in (case r of Inl e \<Rightarrow> Inl e | Inr _ \<Rightarrow> Inr vlog, fs, counter, seen))"

section \<open>A write is atomic\<close>

text \<open>A state in which the file is as before or already new, and no other file that existed is touched.\<close>

definition old_or_new :: "string \<Rightarrow> string \<Rightarrow> files \<Rightarrow> files \<Rightarrow> bool" where
  "old_or_new path data fs s \<longleftrightarrow>
     (s path = fs path \<or> s path = Some data) \<and> (\<forall>p. p \<noteq> path \<and> fs p \<noteq> None \<longrightarrow> s p = fs p)"

text \<open>Every state on the way and the last one are such; success leaves the new file and nothing else,
  failure leaves the old file.\<close>

fun atomic_replace :: "string \<Rightarrow> string \<Rightarrow> files \<Rightarrow> (string + unit) \<times> files \<times> u64 \<times> files list \<Rightarrow> bool" where
  "atomic_replace path data fs (r, fs', counter, seen) \<longleftrightarrow>
     list_all (old_or_new path data fs) seen \<and> old_or_new path data fs fs' \<and>
     (case r of Inr _ \<Rightarrow> fs' = fs(path \<mapsto> data) | Inl _ \<Rightarrow> fs' path = fs path)"

lemma temp_path_other: "temp_path path suf \<noteq> path"
  by (simp add: temp_path_def)

lemma old_or_new_start [simp]: "old_or_new path data fs fs"
  by (simp add: old_or_new_def)

lemma old_or_new_temp:
  assumes "fs temp = None" "temp \<noteq> path"
  shows "old_or_new path data fs (fs(temp := c))" "(fs(temp := c)) path = fs path"
  using assms by (auto simp: old_or_new_def)

lemma old_or_new_done: "old_or_new path data fs (fs(path \<mapsto> data))"
  by (simp add: old_or_new_def)

lemma write_attempts_atomic: "atomic_replace path data fs (write_attempts pid path data as counter fs)"
proof (induction as arbitrary: counter)
  case (Cons a as)
  obtain suf counter' where suf: "unique_suffix pid (at_nanos a) counter = (suf, counter')" by fastforce
  define temp where "temp = temp_path path suf"
  show ?case
  proof (cases "fs temp = None")
    case False
    then show ?thesis using Cons.IH [of counter'] by (simp add: suf temp_def Let_def)
  next
    case True
    have other: "temp \<noteq> path" by (simp add: temp_def temp_path_other)
    note temps = old_or_new_temp [of fs temp, OF True other]
    have removed: "old_or_new path data fs (remove_temp a temp (fs(temp := c)))"
        "remove_temp a temp (fs(temp := c)) path = fs path" for c
      using temps by (simp_all add: remove_temp_def)
    have unwritten: "old_or_new path data fs (remove_temp a temp fs)" "remove_temp a temp fs path = fs path"
      using removed [of None] True by (simp_all add: fun_upd_idem)
    have run: "write_attempts pid path data (a # as) counter fs =
        (case at_open a of
           Some e \<Rightarrow> (Inl (''atomic write: '' @ e), remove_temp a temp fs, counter', [remove_temp a temp fs])
         | None \<Rightarrow>
             (case at_write a of
               Some (n, e) \<Rightarrow>
                 (Inl (''atomic write: '' @ e), remove_temp a temp (fs(temp \<mapsto> take n data)), counter',
                     map (\<lambda>k. fs(temp \<mapsto> take k data)) [0..<Suc n] @ [remove_temp a temp (fs(temp \<mapsto> take n data))])
             | None \<Rightarrow>
                 (case at_rename a of
                      None \<Rightarrow> (Inr (), fs(path \<mapsto> data), counter',
                        map (\<lambda>k. fs(temp \<mapsto> take k data)) [0..<Suc (length data)] @ [fs(path \<mapsto> data)])
                    | Some e \<Rightarrow> (Inl (''atomic write: '' @ e), remove_temp a temp (fs(temp \<mapsto> data)), counter',
                        map (\<lambda>k. fs(temp \<mapsto> take k data)) [0..<Suc (length data)] @
                          [remove_temp a temp (fs(temp \<mapsto> data))]))))"
      unfolding write_attempts.simps suf Let_def prod.case temp_def [symmetric] using True by simp
    have growing: "list_all (old_or_new path data fs) (map (\<lambda>k. fs(temp \<mapsto> take k data)) ks)" for ks
      by (simp add: list_all_iff temps(1))
    show ?thesis
      unfolding run using growing removed unwritten
      by (auto simp del: map_append upt_Suc split: option.split simp: old_or_new_done)
  qed
qed simp

lemma write_atomic_replaces: "atomic_replace path data fs (write_atomic sy path data counter fs)"
  using write_attempts_atomic [of path data fs "sy_pid sy" "map (sy_attempt sy) [0..<10]" counter]
  by (cases "case parent_dir path of Some d \<Rightarrow> if d = [] then None else sy_mkdir sy d | None \<Rightarrow> None")
    (simp_all add: write_atomic_def)

text \<open>
  C31. A saved file is replaced atomically: whatever the system answers to the calls (no space, a partial
  write, a failed rename, a temporary file that cannot be removed or that exists already), in every
  state on the way the file is the old one or the complete new one and no other file changes; success
  leaves exactly the new file with no temporary one, failure leaves the old file.
\<close>

theorem atomic_save: "atomic_replace path data fs (write_atomic sy path data counter fs)"
  by (rule write_atomic_replaces)

section \<open>What is saved is read back\<close>

lemma write_atomic_done:
  "write_atomic sy path data counter fs = (Inr u, fs', counter', seen) \<Longrightarrow> fs' = fs(path \<mapsto> data)"
  using write_atomic_replaces [of path data fs sy counter] by simp

lemma save_text_done:
  assumes "save_text sy pretty path counter fs = (Inr u, fs', counter', seen)"
  obtains body where "pretty = Inr body" "fs' = fs(path \<mapsto> body @ [NL])"
  using assms write_atomic_done by (auto simp: save_text_def split: sum.splits)

lemma append_feedback_done:
  assumes "append_feedback sy co rd poisoned now path entry counter fs = (Inr vlog, fs', counter', seen)"
  obtains old body where "read_feedback co rd fs path = Inr old"
    "vlog = \<lparr>fl_entries = fl_entries old @ [entry\<lparr>fe_at := iso8601 now\<rparr>]\<rparr>"
    "co_log co vlog = Inr body" "fs' = fs(path \<mapsto> body @ [NL])"
proof -
  obtain old where old: "read_feedback co rd fs path = Inr old"
    using assms by (cases "read_feedback co rd fs path") (auto simp: append_feedback_def split: if_splits)
  let ?new = "\<lparr>fl_entries = fl_entries old @ [entry\<lparr>fe_at := iso8601 now\<rparr>]\<rparr>"
  obtain u where "save_text sy (co_log co ?new) path counter fs = (Inr u, fs', counter', seen)" and new: "vlog = ?new"
    using assms by (auto simp: append_feedback_def old Let_def split: if_splits prod.splits sum.splits)
  then show thesis using old by (elim save_text_done) (auto intro: that)
qed


definition example_vote :: FeedbackEntry where
  "example_vote = \<lparr>fe_fingerprint = ''00ff'', fe_file = ''a.rs'', fe_line = 3, fe_dimension = Security,
     fe_mechanism = ''xss'', fe_probability = Fin 0.8, fe_vote = Down, fe_suppress = True, fe_at = []\<rparr>"

definition example_log :: FeedbackLog where
  "example_log = \<lparr>fl_entries = [example_vote\<lparr>fe_at := iso8601 0\<rparr>]\<rparr>"

definition example_codec :: Codec where
  "example_codec = \<lparr>co_report = (\<lambda>_. Inl []), co_read_report = (\<lambda>_. Inl []),
     co_log = (\<lambda>l. if l = example_log then Inr ''log'' else Inl []),
     co_read_log = (\<lambda>t. if t = ''log'' @ [NL] then Inr example_log else Inl [])\<rparr>"

definition example_system :: System where
  "example_system = \<lparr>sy_pid = 7, sy_mkdir = (\<lambda>_. None),
     sy_attempt = (\<lambda>_. \<lparr>at_nanos = 5, at_open = None, at_write = None, at_rename = None, at_remove = True\<rparr>)\<rparr>"

lemma example_append:
  "\<exists>counter' seen. append_feedback example_system example_codec \<lparr>rd_denied = (\<lambda>_. None), rd_mtime = (\<lambda>_. None)\<rparr> False 0 ''f''
     example_vote 0 Map.empty = (Inr example_log, [''f'' \<mapsto> ''log'' @ [NL]], counter', seen)"
proof -
  have "map (sy_attempt example_system) [0..<10] =
      sy_attempt example_system 0 # map (sy_attempt example_system) [1..<10]"
    by (simp add: upt_rec)
  then show ?thesis
    by (simp add: append_feedback_def read_feedback_def read_to_string_def save_text_def write_atomic_def parent_dir_def
        trim_slashes_end_def rsplit_once_def split_once_def example_codec_def example_log_def Let_def unique_suffix_def
        example_system_def)
qed


section \<open>The history of a commit\<close>

text \<open>Saving touches the entry of this commit and mode and its legacy entry only; every other file that
  existed stays as it was, whatever fails.\<close>

lemma save_history_keeps:
  assumes "p \<noteq> path_join dir (sha @ ''.'' @ mode_key (r_mode report) @ ''.json'')" "p \<noteq> path_join dir (sha @ ''.json'')"
    and "fs p \<noteq> None" "save_history_in sy co rd removal dir report sha counter fs = (r, fs', counter', seen)"
  shows "fs' p = fs p"
proof -
  let ?path = "path_join dir (sha @ ''.'' @ mode_key (r_mode report) @ ''.json'')"
  obtain r1 fs1 c1 s1 where save: "save_report sy co report ?path counter fs = (r1, fs1, c1, s1)"
    by (metis prod_cases4)
  have "fs1 p = fs p"
  proof (cases "co_report co report")
    case (Inr body)
    have "old_or_new ?path (body @ [NL]) fs fs1"
      using write_atomic_replaces [of ?path "body @ [NL]" fs sy counter] save
      by (auto simp: save_report_def save_text_def Inr)
    then show ?thesis using assms by (simp add: old_or_new_def)
  qed (use save in \<open>simp add: save_report_def save_text_def\<close>)
  then show ?thesis
    using assms(2,4) unfolding save_history_in_def Let_def save prod.case
    by (auto split: sum.splits StoredReport.splits if_splits option.splits)
qed

end
