(* ===== verification/Dates.thy ===== *)
theory Dates
  imports Stores Approval_Client
begin

text \<open>
  The two date conversions of the program are inverse: \<open>civil_from_days\<close> and \<open>iso8601\<close> of
  \<open>adapters/report_store.rs\<close>, by which saved files and votes are stamped, and \<open>timestamp\<close> of
  \<open>adapters/approval.rs\<close>, which reads the stamps of checks.
\<close>

section \<open>The year of a day\<close>

text \<open>
  A day of the 400-year era is day \<open>D\<close> (from March 1) of the year \<open>100 c + 4 q + r\<close> of the era; only a
  year that ends in a leap day has a day 365.
\<close>

definition era_day :: "int \<Rightarrow> int \<Rightarrow> int \<Rightarrow> int \<Rightarrow> int \<Rightarrow> bool" where
  "era_day c q r D doe \<longleftrightarrow>
     0 \<le> c \<and> c \<le> 3 \<and> 0 \<le> q \<and> q \<le> 24 \<and> 0 \<le> r \<and> r \<le> 3 \<and> 0 \<le> D \<and> D \<le> 365 \<and>
     (D = 365 \<longrightarrow> r = 3 \<and> (q \<noteq> 24 \<or> c = 3)) \<and> doe = 36524 * c + 1461 * q + 365 * r + D"

lemma capped_div:
  fixes x b n :: int
  assumes "0 \<le> x" "0 < b" "x \<le> b * (n + 1)" "0 \<le> n"
  shows "\<exists>k s. x = b * k + s \<and> 0 \<le> k \<and> k \<le> n \<and> 0 \<le> s \<and> s \<le> b \<and> (s = b \<longrightarrow> k = n)"
proof -
  have x: "x = b * (x div b) + x mod b" by simp
  have bounds: "0 \<le> x div b" "0 \<le> x mod b" "x mod b < b"
    using assms by (simp_all add: pos_imp_zdiv_nonneg_iff)
  show ?thesis
  proof (cases "x div b \<le> n")
    case True
    with x bounds show ?thesis by (intro exI [of _ "x div b"] exI [of _ "x mod b"]) simp
  next
    case False
    then have "b * (n + 1) \<le> b * (x div b)" using assms by (intro mult_left_mono) simp_all
    moreover have "b * (x div b) \<le> x" using x bounds(2) by linarith
    ultimately have "x = b * n + b" using assms(3) by (simp add: algebra_simps)
    then show ?thesis using assms by (intro exI [of _ n] exI [of _ b]) simp
  qed
qed

lemma era_day_exists:
  assumes "0 \<le> doe" "doe \<le> 146096"
  obtains c q r D where "era_day c q r D doe"
proof -
  have "\<exists>c s. doe = 36524 * c + s \<and> 0 \<le> c \<and> c \<le> 3 \<and> 0 \<le> s \<and> s \<le> 36524 \<and> (s = 36524 \<longrightarrow> c = 3)"
    by (rule capped_div) (use assms in simp_all)
  then obtain c s where c: "doe = 36524 * c + s" "0 \<le> c" "c \<le> 3" "0 \<le> s" "s \<le> 36524" "s = 36524 \<longrightarrow> c = 3"
    by blast
  have "\<exists>q t. s = 1461 * q + t \<and> 0 \<le> q \<and> q \<le> 24 \<and> 0 \<le> t \<and> t \<le> 1461 \<and> (t = 1461 \<longrightarrow> q = 24)"
    by (rule capped_div) (use c in simp_all)
  then obtain q t where q: "s = 1461 * q + t" "0 \<le> q" "q \<le> 24" "0 \<le> t" "t \<le> 1461" "t = 1461 \<longrightarrow> q = 24"
    by blast
  have t: "t \<le> 1460" using c q by (cases "t = 1461") auto
  have "\<exists>r D. t = 365 * r + D \<and> 0 \<le> r \<and> r \<le> 3 \<and> 0 \<le> D \<and> D \<le> 365 \<and> (D = 365 \<longrightarrow> r = 3)"
    by (rule capped_div) (use q t in simp_all)
  then obtain r D where r: "t = 365 * r + D" "0 \<le> r" "r \<le> 3" "0 \<le> D" "D \<le> 365" "D = 365 \<longrightarrow> r = 3"
    by blast
  have "q \<noteq> 24 \<or> c = 3" if "D = 365"
    using that c q r by (cases "s = 36524") auto
  with c q r show thesis by (intro that [of c q r D]) (auto simp: era_day_def)
qed

lemma era_day_year:
  assumes "era_day c q r D doe"
  shows "(doe - doe div 1460 + doe div 36524 - doe div 146096) div 365 = 100 * c + 4 * q + r"
    "(100 * c + 4 * q + r) div 4 = 25 * c + q" "(100 * c + 4 * q + r) div 100 = c"
proof -
  have b: "0 \<le> c" "c \<le> 3" "0 \<le> q" "q \<le> 24" "0 \<le> r" "r \<le> 3" "0 \<le> D" "D \<le> 365"
    and last: "D = 365 \<Longrightarrow> r = 3 \<and> (q \<noteq> 24 \<or> c = 3)" and doe: "doe = 36524 * c + 1461 * q + 365 * r + D"
    using assms by (auto simp: era_day_def)
  define e :: int where "e = (if 24 * c + q + 365 * r + D < 1460 then 0 else 1)"
  define l :: int where "l = (if doe = 146096 then 1 else 0)"
  have d1: "doe div 1460 = 25 * c + q + e"
  proof (rule int_div_pos_eq)
    show "doe = 1460 * (25 * c + q + e) + (24 * c + q + 365 * r + D - 1460 * e)" using doe by (simp add: algebra_simps)
    show "0 \<le> 24 * c + q + 365 * r + D - 1460 * e" "24 * c + q + 365 * r + D - 1460 * e < 1460"
      using b by (auto simp: e_def)
  qed
  have top: "doe \<le> 146096" using doe b last by (cases "D = 365") auto
  have d2: "doe div 36524 = c + l"
  proof (rule int_div_pos_eq)
    show "doe = 36524 * (c + l) + (1461 * q + 365 * r + D - 36524 * l)" using doe by (simp add: algebra_simps)
    show "0 \<le> 1461 * q + 365 * r + D - 36524 * l" using doe b by (auto simp: l_def)
    show "1461 * q + 365 * r + D - 36524 * l < 36524"
      using doe b last by (cases "D = 365"; cases "q = 24") (auto simp: l_def)
  qed
  have d3: "doe div 146096 = l"
    by (rule int_div_pos_eq [where r = "doe - 146096 * l"]) (use doe b top in \<open>auto simp: l_def\<close>)
  have y4: "(100 * c + 4 * q + r) div 4 = 25 * c + q"
    by (rule int_div_pos_eq [where r = r]) (use b in auto)
  have y100: "(100 * c + 4 * q + r) div 100 = c"
    by (rule int_div_pos_eq [where r = "4 * q + r"]) (use b in auto)
  have "(doe - doe div 1460 + doe div 36524 - doe div 146096) div 365 = 100 * c + 4 * q + r"
  proof (rule int_div_pos_eq)
    show "doe - doe div 1460 + doe div 36524 - doe div 146096 = 365 * (100 * c + 4 * q + r) + (D - e)"
      unfolding d1 d2 d3 using doe by (simp add: algebra_simps)
    show "0 \<le> D - e" "D - e < 365" using b last by (cases "D = 365"; auto simp: e_def)+
  qed
  with y4 y100 show "(doe - doe div 1460 + doe div 36524 - doe div 146096) div 365 = 100 * c + 4 * q + r"
    "(100 * c + 4 * q + r) div 4 = 25 * c + q" "(100 * c + 4 * q + r) div 100 = c" by blast+
qed

section \<open>The month and the day\<close>

lemma month_of_day:
  fixes D :: int
  defines "mp \<equiv> (5 * D + 2) div 153"
  defines "d \<equiv> D - (153 * mp + 2) div 5 + 1"
  defines "m \<equiv> if mp < 10 then mp + 3 else mp - 9"
  assumes D: "0 \<le> D" "D \<le> 365" "D = 365 \<longrightarrow> leap_year y"
  shows "mp = m + (if m > 2 then -3 else 9)" "m \<le> 2 \<longleftrightarrow> 306 \<le> D" "1 \<le> m \<and> m \<le> 12" "1 \<le> d"
    "d \<le> month_days y ! nat (m - 1)"
proof -
  have split: "5 * D + 2 = 153 * mp + (5 * D + 2) mod 153" by (simp add: mp_def)
  have rest: "0 \<le> (5 * D + 2) mod 153" "(5 * D + 2) mod 153 \<le> 152" by simp_all
  have lo: "153 * mp \<le> 5 * D + 2" and hi: "5 * D \<le> 153 * mp + 150" using split rest by linarith+
  have "0 \<le> mp" "mp \<le> 11" using lo hi D(1,2) by linarith+
  then have k: "mp = 0 \<or> mp = 1 \<or> mp = 2 \<or> mp = 3 \<or> mp = 4 \<or> mp = 5 \<or> mp = 6 \<or> mp = 7 \<or> mp = 8 \<or> mp = 9 \<or> mp = 10 \<or> mp = 11"
    by presburger
  show "mp = m + (if m > 2 then -3 else 9)" using \<open>0 \<le> mp\<close> \<open>mp \<le> 11\<close> by (auto simp: m_def)
  show "1 \<le> m \<and> m \<le> 12" using \<open>0 \<le> mp\<close> \<open>mp \<le> 11\<close> by (auto simp: m_def)
  show "m \<le> 2 \<longleftrightarrow> 306 \<le> D" using k lo hi by (elim disjE) (simp_all add: m_def)
  show "1 \<le> d" unfolding d_def using k lo hi by (elim disjE) simp_all
  show "d \<le> month_days y ! nat (m - 1)"
    unfolding d_def m_def using k lo hi D by (elim disjE) (auto simp: month_days_def)
qed

section \<open>The date of a day\<close>

lemma civil_from_days_date:
  assumes "0 \<le> days" "days < 2932897"
  obtains y m d where "civil_from_days days = (y, m, d)" "1970 \<le> y" "y \<le> 9999" "1 \<le> m" "m \<le> 12" "1 \<le> d"
    "d \<le> month_days y ! nat (m - 1)"
    "\<forall>h mi sec. epoch_seconds y m d h mi sec = days * 86400 + h * 3600 + mi * 60 + sec"
proof -
  define z where "z = days + 719468"
  define era where "era = z div 146097"
  define doe where "doe = z - era * 146097"
  have z: "719468 \<le> z" "z < 3652365" using assms by (simp_all add: z_def)
  have doe_mod: "doe = z mod 146097" unfolding doe_def era_def by (simp add: minus_div_mult_eq_mod)
  then have doe: "0 \<le> doe" "doe \<le> 146096" "z = era * 146097 + doe" by (simp_all add: doe_def)
  have era: "4 \<le> era" "era \<le> 24" using z doe by linarith+
  from doe(1,2) obtain c q r D where day: "era_day c q r D doe" by (rule era_day_exists)
  then have b: "0 \<le> c" "c \<le> 3" "0 \<le> q" "q \<le> 24" "0 \<le> r" "r \<le> 3" "0 \<le> D" "D \<le> 365"
    and last: "D = 365 \<longrightarrow> r = 3 \<and> (q \<noteq> 24 \<or> c = 3)" and sum: "doe = 36524 * c + 1461 * q + 365 * r + D"
    by (auto simp: era_day_def)
  define year where "year = 100 * c + 4 * q + r"
  note parts = era_day_year [OF day, folded year_def]
  define mp where "mp = (5 * D + 2) div 153"
  define d where "d = D - (153 * mp + 2) div 5 + 1"
  define m where "m = (if mp < 10 then mp + 3 else mp - 9)"
  define y where "y = (if m \<le> 2 then year + era * 400 + 1 else year + era * 400)"
  have leap: "D = 365 \<longrightarrow> leap_year y"
  proof
    assume D: "D = 365"
    have "m \<le> 2" by (simp add: m_def mp_def D)
    then have y: "y = 400 * era + 100 * c + 4 * q + 4" using last D by (simp add: y_def year_def)
    have "y = 4 * (100 * era + 25 * c + q + 1)" using y by simp
    then have "y mod 4 = 0" by simp
    moreover have "y mod 400 = 0" if hundred: "y mod 100 = 0"
    proof -
      have "y mod 100 = (4 * q + 4 + (4 * era + c) * 100) mod 100" using y by (simp add: algebra_simps)
      also have "\<dots> = (4 * q + 4) mod 100" by (rule mod_mult_self1)
      finally have none: "(4 * q + 4) mod 100 = 0" using hundred by (simp only:)
      have "\<not> 4 * q + 4 < 100"
      proof
        assume "4 * q + 4 < 100"
        then have "(4 * q + 4) mod 100 = 4 * q + 4" using b(3) by (intro mod_pos_pos_trivial) simp_all
        then show False using none b(3) by linarith
      qed
      then have "q = 24" using b(4) by simp
      then have "y = 400 * (era + 1)" using last D y by simp
      then show ?thesis by simp
    qed
    ultimately show "leap_year y" by (auto simp: leap_year_def)
  qed
  note month = month_of_day [OF b(7,8) leap, folded mp_def, folded d_def, folded m_def]
  have doy: "doe - (365 * year + year div 4 - year div 100) = D"
    unfolding parts using sum by (simp add: year_def)
  have civil: "civil_from_days days = (y, m, d)"
    unfolding civil_from_days_def Let_def z_def [symmetric]
    using z by (simp only: era_def [symmetric] doe_def [symmetric] parts(1) doy mp_def [symmetric] d_def [symmetric]
        m_def [symmetric] y_def [symmetric] if_P [OF order_trans [OF zero_le_numeral z(1)]])
  have y0: "y - (if m \<le> 2 then 1 else 0) = year + era * 400" by (simp add: y_def)
  have year: "0 \<le> year" "year \<le> 399" using b by (simp_all add: year_def)
  have div: "(year + era * 400) div 400 = era" using year by simp
  have "epoch_seconds y m d h mi sec = days * 86400 + h * 3600 + mi * 60 + sec" for h mi sec
  proof -
    have "era * 146097 + year * 365 + year div 4 - year div 100 + ((153 * mp + 2) div 5 + d - 1) - 719468 = days"
      unfolding parts(2,3) d_def using sum doe(3) by (simp add: year_def z_def)
    then show ?thesis
      unfolding epoch_seconds_def Let_def y0 div month(1) [symmetric] by simp
  qed
  moreover have "1970 \<le> y"
  proof (rule ccontr)
    assume "\<not> 1970 \<le> y"
    then have y: "year + era * 400 + (if m \<le> 2 then 1 else 0) \<le> 1969" by (simp add: y_def split: if_splits)
    then have four: "era = 4" using era year by (simp split: if_splits)
    then have d4: "135080 \<le> doe" using z doe(3) by simp
    have "year \<le> 369" using y four by (simp split: if_splits)
    then consider "year = 369" | "year \<le> 368" by linarith
    then show False
    proof cases
      case 1
      then have "\<not> m \<le> 2" using y four by auto
      then have "D < 306" using month(2) by simp
      moreover have "c = 3" using 1 b unfolding year_def by linarith
      moreover from this have "q = 17" using 1 b unfolding year_def by linarith
      ultimately show False using d4 sum 1 by (simp add: year_def)
    next
      case 2
      then show False using d4 sum b unfolding year_def by linarith
    qed
  qed
  moreover have "y \<le> 9999"
  proof (rule ccontr)
    assume "\<not> y \<le> 9999"
    then have y: "10000 \<le> year + era * 400 + (if m \<le> 2 then 1 else 0)" by (simp add: y_def split: if_splits)
    then have last: "era = 24" "year = 399" "m \<le> 2" using era year by (simp_all split: if_splits)
    then have "c = 3" "q = 24" "r = 3" using b unfolding year_def by linarith+
    then show False using sum z doe(3) last month(2) by simp
  qed
  ultimately show thesis using that civil month(3-5) by blast
qed

section \<open>Stamps are read back\<close>

lemma padded_two:
  assumes "0 \<le> n" "n < 100"
  shows "padded 2 n = two_digits (nat n)"
proof -
  have n: "nat n < 100" using assms by simp
  show ?thesis
  proof (cases "nat n < 10")
    case True
    then have "show_nat (nat n) = [digit_char (nat n)]" by (subst show_nat.simps) simp
    moreover have "digit_char 0 = CHR ''0''" by (simp add: digit_char_eval)
    ultimately show ?thesis using True by (simp add: padded_def pad_zeros_def two_digits_def)
  next
    case False
    then have "show_nat (nat n) = [digit_char (nat n div 10), digit_char (nat n mod 10)]"
      using n by (subst show_nat.simps, subst show_nat.simps) simp
    then show ?thesis by (simp add: padded_def pad_zeros_def two_digits_def)
  qed
qed

lemma padded_four:
  assumes "1000 \<le> n" "n \<le> 9999"
  shows "padded 4 n = two_digits (nat n div 100) @ two_digits (nat n mod 100)"
proof -
  define k where "k = nat n"
  have k: "1000 \<le> k" "k \<le> 9999" using assms by (simp_all add: k_def)
  have "show_nat k = [digit_char (k div 1000), digit_char (k div 100 mod 10), digit_char (k div 10 mod 10), digit_char (k mod 10)]"
  proof -
    have "show_nat k = show_nat (k div 10) @ [digit_char (k mod 10)]" using k by (subst show_nat.simps) simp
    moreover have "show_nat (k div 10) = show_nat (k div 100) @ [digit_char (k div 10 mod 10)]"
      using k by (subst show_nat.simps) (simp add: div_mult2_eq [symmetric])
    moreover have "show_nat (k div 100) = show_nat (k div 1000) @ [digit_char (k div 100 mod 10)]"
      using k by (subst show_nat.simps) (simp add: div_mult2_eq [symmetric])
    moreover have "show_nat (k div 1000) = [digit_char (k div 1000)]" using k by (subst show_nat.simps) simp
    ultimately show ?thesis by simp
  qed
  moreover have "k mod 100 = 10 * (k div 10 mod 10) + k mod 10"
    using mod_mult2_eq [of k 10 10] by simp
  then have "k mod 100 div 10 = k div 10 mod 10" "k mod 100 mod 10 = k mod 10" by simp_all
  moreover have "k div 100 div 10 = k div 1000" by (simp add: div_mult2_eq [symmetric])
  ultimately show ?thesis
    by (simp add: padded_def pad_zeros_def two_digits_def k_def [symmetric])
qed

lemma iso8601_rfc3339:
  assumes "secs < 253402300800"
  obtains y m d h mi sec where "iso8601 secs = rfc3339 y m d h mi sec" "valid_time y m d h mi sec"
    "calendar_seconds y m d h mi sec = int secs"
proof -
  define n where "n = int secs"
  have n: "0 \<le> n" "n < 253402300800" using assms by (simp_all add: n_def)
  have wrap: "i64_of_usize secs = n" using n by (simp add: i64_of_usize_def n_def i64_wrap_exact)
  define days rest where "days = n div 86400" and "rest = n mod 86400"
  have split: "n = days * 86400 + rest" "0 \<le> rest" "rest < 86400" by (simp_all add: days_def rest_def)
  have "0 \<le> days" "days < 2932897" using n split by linarith+
  then obtain y m d where civil: "civil_from_days days = (y, m, d)" and y: "1970 \<le> y" "y \<le> 9999" and m: "1 \<le> m" "m \<le> 12"
    and d: "1 \<le> d" "d \<le> month_days y ! nat (m - 1)"
    and epoch: "\<forall>h mi sec. epoch_seconds y m d h mi sec = days * 86400 + h * 3600 + mi * 60 + sec"
    by (rule civil_from_days_date)
  define h mi sec where "h = rest div 3600" and "mi = (rest mod 3600) div 60" and "sec = rest mod 60"
  have hms: "0 \<le> h" "h \<le> 23" "0 \<le> mi" "mi \<le> 59" "0 \<le> sec" "sec \<le> 59" "rest = h * 3600 + mi * 60 + sec"
  proof -
    have hour: "rest = h * 3600 + rest mod 3600" by (simp add: h_def)
    have minute: "rest mod 3600 = mi * 60 + rest mod 3600 mod 60" by (simp add: mi_def)
    have second: "rest mod 3600 mod 60 = sec" by (simp add: sec_def mod_mod_cancel)
    have r: "0 \<le> rest mod 3600" "rest mod 3600 < 3600" "0 \<le> sec" "sec < 60" by (simp_all add: sec_def)
    show "rest = h * 3600 + mi * 60 + sec" using hour minute second by linarith
    show "0 \<le> h" "h \<le> 23" using hour r split(2,3) by linarith+
    show "0 \<le> mi" "mi \<le> 59" using minute second r by linarith+
    show "0 \<le> sec" "sec \<le> 59" using r by linarith+
  qed
  have days_max: "month_days y ! nat (m - 1) \<le> 31"
    using month_days_bound [of "nat m" y] m by (simp add: nat_diff_distrib')
  have valid: "valid_time (nat y) (nat m) (nat d) (nat h) (nat mi) (nat sec)"
    unfolding valid_time_def using y m d hms(1-6) by (auto simp: nat_diff_distrib' le_nat_iff nat_le_iff)
  have "iso8601 secs = rfc3339 (nat y) (nat m) (nat d) (nat h) (nat mi) (nat sec)"
    unfolding iso8601_def Let_def wrap days_def [symmetric] rest_def [symmetric] civil prod.case h_def [symmetric]
      mi_def [symmetric] sec_def [symmetric] rfc3339_def
    using y m d hms days_max by (simp add: padded_two padded_four)
  moreover have "calendar_seconds (nat y) (nat m) (nat d) (nat h) (nat mi) (nat sec) = int secs"
  proof -
    have "calendar_seconds (nat y) (nat m) (nat d) (nat h) (nat mi) (nat sec) = epoch_seconds y m d h mi sec"
      using epoch_seconds_calendar [OF valid] y m d hms by simp
    also have "\<dots> = int secs" using epoch hms(7) split(1) by (simp add: n_def)
    finally show ?thesis .
  qed
  ultimately show thesis using that valid by blast
qed

text \<open>
  C33. A stamp that \<open>iso8601\<close> writes is read back by \<open>timestamp\<close> as the same second, for every time
  from the epoch to the end of the year 9999: \<open>civil_from_days\<close> and the day count of \<open>timestamp\<close> are
  inverse, over leap years, centuries and 400-year eras.
\<close>

theorem iso8601_read_back:
  assumes "secs < 253402300800"
  shows "timestamp (JStr (iso8601 secs)) = int secs"
  using assms by (elim iso8601_rfc3339) (simp add: rfc3339_text)

theorem iso8601_read_back_witness: "timestamp (JStr (iso8601 951782399)) = 951782399"
  using iso8601_read_back [of 951782399] by simp

end
