(* ===== verification/Sarif.thy ===== *)
theory Sarif
  imports Explain
begin

text \<open>
  The SARIF log of a report (\<open>adapters/sarif.rs\<close>): one result for each finding, one rule for each pair
  of dimension and mechanism.
\<close>

definition sarif_level :: "Finding \<Rightarrow> string" where
  "sarif_level f =
     (if f_action f = RequestChanges then ''error'' else if f_owner f \<noteq> None then ''warning'' else ''note'')"

fun sarif_dimension_label :: "Dimension \<Rightarrow> string" where
  "sarif_dimension_label Correctness = ''Correctness''"
| "sarif_dimension_label Security = ''Security''"
| "sarif_dimension_label Reliability = ''Reliability''"
| "sarif_dimension_label Compatibility = ''Compatibility''"
| "sarif_dimension_label TestGap = ''Test gap''"

definition finding_title :: "Finding \<Rightarrow> string" where
  "finding_title f =
     (case f_title f of Some t \<Rightarrow> t
      | None \<Rightarrow> sarif_dimension_label (f_dimension f) @ '': '' @ f_mechanism f)"

definition rule_help_text :: "Finding \<Rightarrow> string" where
  "rule_help_text f =
     (case mechanism_description (f_dimension f) (from_path (f_file f)) (f_mechanism f) of Some t \<Rightarrow> t | None \<Rightarrow> [])"

definition rule_id :: "Finding \<Rightarrow> string" where
  "rule_id f = dimension_key (f_dimension f) @ ''/'' @ f_mechanism f"

definition has_rule :: "string \<Rightarrow> json \<Rightarrow> bool" where
  "has_rule key rule \<longleftrightarrow> json_get ''id'' rule = Some (JStr key)"

definition sarif_rule :: "Finding \<Rightarrow> json" where
  "sarif_rule f =
     obj [(''id'', JStr (rule_id f)),
          (''shortDescription'', obj [(''text'', JStr (case mechanism_title (f_dimension f) (f_mechanism f) of
             Some t \<Rightarrow> t | None \<Rightarrow> f_mechanism f))]),
          (''help'', obj [(''text'', JStr (rule_help_text f))])]"

text \<open>\<open>value[key] = v\<close> on an object.\<close>

fun json_put :: "string \<Rightarrow> json \<Rightarrow> json \<Rightarrow> json" where
  "json_put k v (JObj kvs) = JObj (map_insert k v kvs)"
| "json_put k v j = j"

definition sarif_location :: "Finding \<Rightarrow> json" where
  "sarif_location f =
     (let location = obj [(''artifactLocation'', obj [(''uri'', JStr (f_file f))])]
      in if f_line f \<noteq> 0 then json_put ''region'' (obj [(''startLine'', jnat (f_line f))]) location else location)"

definition sarif_result :: "Finding \<Rightarrow> json" where
  "sarif_result f =
     (let result = obj [(''ruleId'', JStr (rule_id f)), (''level'', JStr (sarif_level f)),
            (''message'', obj [(''text'', JStr (finding_title f))]),
            (''locations'', JArr [obj [(''physicalLocation'', sarif_location f)]])];
          result = (if f_fingerprint f \<noteq> []
            then json_put ''partialFingerprints'' (obj [(''momus/v1'', JStr (f_fingerprint f))]) result else result);
          needs_human = (case f_ensemble f of Some e \<Rightarrow> en_needs_human e | None \<Rightarrow> False)
      in if f_rank f \<noteq> None \<or> needs_human
         then json_put ''properties''
           (obj [(''rank'', case f_rank f of Some n \<Rightarrow> jnat n | None \<Rightarrow> JNull), (''needsHuman'', JBool needs_human)]) result
         else result)"

definition sarif_step :: "json list \<times> json list \<Rightarrow> Finding \<Rightarrow> json list \<times> json list" where
  "sarif_step acc f =
     (let (rules, results) = acc
      in (if list_ex (has_rule (rule_id f)) rules then rules else rules @ [sarif_rule f], results @ [sarif_result f]))"

definition sarif_log :: "json list \<Rightarrow> json list \<Rightarrow> json" where
  "sarif_log rules results =
     obj [(''version'', JStr ''2.1.0''), (''$schema'', JStr ''https://json.schemastore.org/sarif-2.1.0.json''),
          (''runs'', JArr [obj [
             (''tool'', obj [(''driver'', obj [
                (''name'', JStr ''momus-review''),
                (''informationUri'', JStr ''https://github.com/brianluby/momus-review''),
                (''rules'', JArr rules)])]),
             (''results'', JArr results)]])]"

definition to_sarif :: "ReviewReport \<Rightarrow> json" where
  "to_sarif report = (let (rules, results) = foldl sarif_step ([], []) (r_findings report) in sarif_log rules results)"

section \<open>Every result has exactly one rule\<close>

text \<open>The log of one finding: its rule, level and message, its file, its line exactly when it has one,
  and its fingerprint exactly when it has one.\<close>

definition describes :: "Finding \<Rightarrow> json \<Rightarrow> bool" where
  "describes f result \<longleftrightarrow>
     json_get ''ruleId'' result = Some (JStr (rule_id f)) \<and>
     json_get ''level'' result = Some (JStr (sarif_level f)) \<and>
     json_get ''message'' result = Some (obj [(''text'', JStr (finding_title f))]) \<and>
     (\<exists>location. json_get ''locations'' result = Some (JArr [obj [(''physicalLocation'', location)]]) \<and>
        json_get ''artifactLocation'' location = Some (obj [(''uri'', JStr (f_file f))]) \<and>
        json_get ''region'' location =
          (if f_line f = 0 then None else Some (obj [(''startLine'', jnat (f_line f))]))) \<and>
     json_get ''partialFingerprints'' result =
       (if f_fingerprint f = [] then None else Some (obj [(''momus/v1'', JStr (f_fingerprint f))]))"

lemma location_parts:
  "json_get ''artifactLocation'' (sarif_location f) = Some (obj [(''uri'', JStr (f_file f))])"
  "json_get ''region'' (sarif_location f) = (if f_line f = 0 then None else Some (obj [(''startLine'', jnat (f_line f))]))"
  by (simp_all add: sarif_location_def Let_def obj_def map_extend_def del: map_insert.simps)

lemma result_describes: "describes f (sarif_result f)"
proof -
  have location: "\<exists>l. sarif_location f = l \<and> json_get ''artifactLocation'' l = Some (obj [(''uri'', JStr (f_file f))]) \<and>
      json_get ''region'' l = (if f_line f = 0 then None else Some (obj [(''startLine'', jnat (f_line f))]))"
    using location_parts [of f] by simp
  show ?thesis
    unfolding describes_def sarif_result_def Let_def obj_def [of "_ # _ # _"] map_extend_def
    using location by (auto simp del: map_insert.simps)
qed

lemma has_rule_own [simp]: "has_rule key (sarif_rule f) \<longleftrightarrow> key = rule_id f"
  by (auto simp: has_rule_def sarif_rule_def json_get_obj)

lemma sarif_step_pair:
  "sarif_step (rules, results) f =
     (if list_ex (has_rule (rule_id f)) rules then rules else rules @ [sarif_rule f], results @ [sarif_result f])"
  by (simp add: sarif_step_def)

lemma sarif_fold:
  "\<exists>creators. set creators \<subseteq> set fs \<and> distinct (map rule_id creators) \<and> rule_id ` set creators = rule_id ` set fs \<and>
     foldl sarif_step ([], []) fs = (map sarif_rule creators, map sarif_result fs)"
proof (induction fs rule: rev_induct)
  case (snoc f fs)
  then obtain creators where IH: "set creators \<subseteq> set fs" "distinct (map rule_id creators)"
      "rule_id ` set creators = rule_id ` set fs"
      "foldl sarif_step ([], []) fs = (map sarif_rule creators, map sarif_result fs)" by blast
  have known: "list_ex (has_rule (rule_id f)) (map sarif_rule creators) \<longleftrightarrow> rule_id f \<in> rule_id ` set fs"
    unfolding IH(3) [symmetric] by (auto simp: list_ex_iff)
  show ?case
  proof (cases "rule_id f \<in> rule_id ` set fs")
    case True
    with IH known show ?thesis by (intro exI [of _ creators]) (auto simp: sarif_step_pair)
  next
    case False
    with IH known show ?thesis by (intro exI [of _ "creators @ [f]"]) (auto simp: sarif_step_pair)
  qed
qed simp

text \<open>
  C36. The SARIF log has one result for each finding, in their order, with its rule, level and message,
  its file, its line exactly when it has one and its fingerprint exactly when it has one; the rules are
  those of findings of the report, and the rule of every result is declared exactly once.
\<close>

theorem sarif_complete:
  "\<exists>creators results.
     to_sarif report = sarif_log (map sarif_rule creators) results \<and>
     list_all2 describes (r_findings report) results \<and>
     set creators \<subseteq> set (r_findings report) \<and> distinct (map rule_id creators) \<and>
     rule_id ` set creators = rule_id ` set (r_findings report)"
proof -
  obtain creators where "set creators \<subseteq> set (r_findings report)" "distinct (map rule_id creators)"
      "rule_id ` set creators = rule_id ` set (r_findings report)"
      "foldl sarif_step ([], []) (r_findings report) = (map sarif_rule creators, map sarif_result (r_findings report))"
    using sarif_fold [of "r_findings report"] by blast
  moreover have "list_all2 describes (r_findings report) (map sarif_result (r_findings report))"
    by (simp add: list_all2_conv_all_nth result_describes)
  ultimately show ?thesis unfolding to_sarif_def by auto
qed

end
