(* ===== verification/Evaluation.thy ===== *)
theory Evaluation
  imports Json Policy Report
begin

text \<open>
  The evaluation tool (\<open>bin/momus-eval.rs\<close>): how many of a benchmark's categories the security
  findings of a report touch, and how many findings lie on files known to be vulnerable. The output is
  a list of lines; the debug format of a list of strings and the reading of both files are parameters.
\<close>

record KnownVulnerable =
  kv_file :: string
  kv_categories :: "string list"

text \<open>\<open>categories\<close> is a \<open>BTreeMap\<close>: sorted by name, each name once.\<close>

record GroundTruth =
  gt_categories :: "(string \<times> nat) list"
  gt_known_vulnerable :: "KnownVulnerable list"

definition category_table :: "(string \<times> string list) list" where
  "category_table =
     [(''brokenAccessControl'', [''Broken Access Control'']), (''pathTraversal'', [''Broken Access Control'']),
      (''brokenAuthentication'', [''Broken Authentication'']),
      (''sqlInjection'', [''Injection'']), (''noSqlInjection'', [''Injection'']), (''commandInjection'', [''Injection'']),
      (''xss'', [''XSS'']), (''xxe'', [''XXE'']), (''ssrf'', [''Broken Access Control'']),
      (''insecureDeserialization'', [''Insecure Deserialization'']),
      (''cryptographicFailure'', [''Cryptographic Issues'']),
      (''sensitiveDataExposure'', [''Sensitive Data Exposure'']),
      (''securityMisconfiguration'', [''Security Misconfiguration'']),
      (''prototypePollution'', [''Injection'']), (''dynamicCodeExecution'', [''Injection'']),
      (''unsafeReflection'', [''Injection'']), (''formatString'', [''Injection'']), (''unquotedExpansion'', [''Injection'']),
      (''assertForValidation'', [''Improper Input Validation'']),
      (''fileInclusion'', [''Broken Access Control'']), (''massAssignment'', [''Broken Access Control'']),
      (''unescapedTemplate'', [''XSS'']), (''overbroadGrant'', [''Security Misconfiguration'']),
      (''bufferOverflow'', [''Miscellaneous'']), (''useAfterFree'', [''Miscellaneous'']), (''outOfBoundsAccess'', [''Miscellaneous'']),
      (''authorization'', [''Broken Access Control'', ''Broken Authentication'', ''Unvalidated Redirects'']),
      (''injection'', [''Injection'', ''XSS'', ''XXE'', ''Insecure Deserialization'']),
      (''exposure'', [''Sensitive Data Exposure'', ''Observability Failures'']),
      (''unsafeDefault'', [''Security Misconfiguration'']),
      (''other'', [''Miscellaneous''])]"

definition mechanism_categories :: "string \<Rightarrow> string list" where
  "mechanism_categories m = (case map_of category_table m of Some cs \<Rightarrow> cs | None \<Rightarrow> [])"

definition matches_curated_file :: "string \<Rightarrow> string \<Rightarrow> bool" where
  "matches_curated_file path pre \<longleftrightarrow>
     path = pre \<or> (case strip_prefix pre path of Some rest \<Rightarrow> prefix ''/'' rest | None \<Rightarrow> False)"

definition security_findings :: "ReviewReport \<Rightarrow> Finding list" where
  "security_findings report = filter (\<lambda>f. f_dimension f = Security) (r_findings report)"

text \<open>\<open>*touched.entry(c).or_insert(0) += 1\<close>\<close>

definition touch :: "(string \<times> nat) list \<Rightarrow> string \<Rightarrow> (string \<times> nat) list" where
  "touch m c = map_insert c ((case map_of m c of Some n \<Rightarrow> n | None \<Rightarrow> 0) + 1) m"

definition touched :: "Finding list \<Rightarrow> (string \<times> nat) list" where
  "touched fs = foldl (\<lambda>m f. foldl touch m (mechanism_categories (f_mechanism f))) [] fs"

definition covered :: "GroundTruth \<Rightarrow> Finding list \<Rightarrow> nat" where
  "covered gt fs = length (filter (\<lambda>(c, _). map_of (touched fs) c \<noteq> None) (gt_categories gt))"

definition category_line :: "Finding list \<Rightarrow> string \<times> nat \<Rightarrow> string" where
  "category_line fs entry =
     (let (cat, count) = entry; ours = (case map_of (touched fs) cat of Some n \<Rightarrow> n | None \<Rightarrow> 0)
      in ''  '' @ (if ours > 0 then [CHR 0xE2, CHR 0x9C, CHR 0x93] else [CHR 0xE2, CHR 0x9C, CHR 0x97]) @ '' '' @ cat @
         '': '' @ show_nat ours @ '' findings vs '' @ show_nat count @ '' challenges'')"

definition coverage_lines :: "GroundTruth \<Rightarrow> Finding list \<Rightarrow> string list" where
  "coverage_lines gt fs =
     [''== category coverage =='',
      ''categories touched: '' @ show_nat (covered gt fs) @ ''/'' @ show_nat (length (gt_categories gt))] @
     map (category_line fs) (gt_categories gt)"

text \<open>The counts \<open>on_file\<close> and \<open>category_matched\<close>, and the lines of the findings whose category differs.\<close>

definition corroborate ::
  "(string list \<Rightarrow> string) \<Rightarrow> GroundTruth \<Rightarrow> nat \<times> nat \<times> string list \<Rightarrow> Finding \<Rightarrow> nat \<times> nat \<times> string list" where
  "corroborate debug gt acc f =
     (let (on_file, matched, differs) = acc
      in case find (\<lambda>kv. matches_curated_file (f_file f) (kv_file kv)) (gt_known_vulnerable gt) of
           None \<Rightarrow> acc
         | Some kv \<Rightarrow>
             if list_ex (\<lambda>c. c \<in> set (mechanism_categories (f_mechanism f))) (kv_categories kv)
             then (on_file + 1, matched + 1, differs)
             else (on_file + 1, matched,
               differs @ [f_file f @ '': '' @ f_mechanism f @ '' (table expects '' @ debug (kv_categories kv) @ '')'']))"

definition found_files :: "GroundTruth \<Rightarrow> Finding list \<Rightarrow> nat" where
  "found_files gt fs =
     length (filter (\<lambda>kv. list_ex (\<lambda>f. matches_curated_file (f_file f) (kv_file kv)) fs) (gt_known_vulnerable gt))"

definition corroboration_lines :: "(string list \<Rightarrow> string) \<Rightarrow> GroundTruth \<Rightarrow> Finding list \<Rightarrow> string list" where
  "corroboration_lines debug gt fs =
     (if gt_known_vulnerable gt = [] then []
      else let (on_file, matched, differs) = foldl (corroborate debug gt) (0, 0, []) fs
           in [[], ''== curated corroboration rate =='',
               ''known-vulnerable files hit by a finding: '' @ show_nat (found_files gt fs) @ ''/'' @
                 show_nat (length (gt_known_vulnerable gt)),
               ''security findings on a known-vulnerable file: '' @ show_nat on_file @ ''/'' @ show_nat (length fs),
               ''  category-matched: '' @ show_nat matched @ ''  |  differs (finer label): '' @ show_nat (length differs)] @
              map (\<lambda>m. ''    ~ '' @ m) differs)"

datatype eval_exit = Usage string | Failed string | Printed "string list"

definition eval_main ::
  "(string list \<Rightarrow> string) \<Rightarrow> (string \<Rightarrow> string + ReviewReport) \<Rightarrow> (string \<Rightarrow> string + GroundTruth) \<Rightarrow> string list \<Rightarrow> eval_exit" where
  "eval_main debug read_report read_truth args =
     (case args of
        [_, report_path, truth_path] \<Rightarrow>
          (case read_report report_path of
             Inl e \<Rightarrow> Failed e
           | Inr report \<Rightarrow>
               case read_truth truth_path of
                 Inl e \<Rightarrow> Failed e
               | Inr gt \<Rightarrow>
                   let security = security_findings report
                   in Printed (coverage_lines gt security @ corroboration_lines debug gt security))
      | _ \<Rightarrow> Usage ''usage: momus-eval <report.json> <ground-truth.json>'')"

section \<open>What is counted\<close>

text \<open>How often a category is indicated: once for each finding and each time its mechanism lists it.\<close>

definition indications :: "string \<Rightarrow> Finding list \<Rightarrow> nat" where
  "indications c fs = sum_list (map (\<lambda>f. count_list (mechanism_categories (f_mechanism f)) c) fs)"

definition tally_of :: "(string \<Rightarrow> nat) \<Rightarrow> (string \<times> nat) list \<Rightarrow> bool" where
  "tally_of n m \<longleftrightarrow> (\<forall>c. map_of m c = (if n c = 0 then None else Some (n c)))"

lemma touch_tally: "tally_of n m \<Longrightarrow> tally_of (\<lambda>c. n c + count_list cs c) (foldl touch m cs)"
proof (induction cs arbitrary: n m)
  case (Cons c cs)
  have "tally_of (\<lambda>x. n x + (if c = x then 1 else 0)) (touch m c)"
    using Cons.prems by (auto simp: tally_of_def touch_def)
  from Cons.IH [OF this] have "tally_of (\<lambda>x. n x + (if c = x then 1 else 0) + count_list cs x) (foldl touch m (c # cs))"
    by simp
  moreover have "(\<lambda>x. n x + (if c = x then 1 else 0) + count_list cs x) = (\<lambda>x. n x + count_list (c # cs) x)"
    by auto
  ultimately show ?case by (simp only:)
qed simp

lemma touched_tally: "tally_of (\<lambda>c. indications c fs) (touched fs)"
proof -
  have "tally_of (\<lambda>c. n c + indications c fs)
      (foldl (\<lambda>m f. foldl touch m (mechanism_categories (f_mechanism f))) m fs)" if "tally_of n m" for n m
    using that
  proof (induction fs arbitrary: n m)
    case (Cons f fs)
    from Cons.IH [OF touch_tally [OF Cons.prems, of "mechanism_categories (f_mechanism f)"]]
    show ?case by (simp add: indications_def add.assoc)
  qed (simp add: indications_def)
  from this [of "\<lambda>_. 0" "[]"] show ?thesis by (simp add: touched_def tally_of_def)
qed

lemma covered_exact:
  "covered gt fs = length (filter (\<lambda>(c, _). indications c fs \<noteq> 0) (gt_categories gt))"
  using touched_tally [of fs] unfolding covered_def tally_of_def by (intro arg_cong [where f = length] filter_cong) (auto split: if_splits)

lemma corroborate_counts:
  "foldl (corroborate debug gt) (i, j, ds) fs = (on_file, matched, differs) \<Longrightarrow>
     on_file = i + length (filter (\<lambda>f. list_ex (\<lambda>kv. matches_curated_file (f_file f) (kv_file kv)) (gt_known_vulnerable gt)) fs) \<and>
     on_file + j + length ds = i + matched + length differs"
proof (induction fs arbitrary: i j ds)
  case (Cons f fs)
  show ?case
  proof (cases "find (\<lambda>kv. matches_curated_file (f_file f) (kv_file kv)) (gt_known_vulnerable gt)")
    case None
    then have "\<not> list_ex (\<lambda>kv. matches_curated_file (f_file f) (kv_file kv)) (gt_known_vulnerable gt)"
      by (auto simp: list_ex_iff find_None_iff)
    with None Cons show ?thesis by (simp add: corroborate_def)
  next
    case (Some kv)
    then have "list_ex (\<lambda>kv. matches_curated_file (f_file f) (kv_file kv)) (gt_known_vulnerable gt)"
      by (auto simp: list_ex_iff find_Some_iff)
    then have known: "length (filter (\<lambda>f. list_ex (\<lambda>kv. matches_curated_file (f_file f) (kv_file kv)) (gt_known_vulnerable gt))
        (f # fs)) = Suc (length (filter (\<lambda>f. list_ex (\<lambda>kv. matches_curated_file (f_file f) (kv_file kv))
        (gt_known_vulnerable gt)) fs))" by simp
    show ?thesis
    proof (cases "list_ex (\<lambda>c. c \<in> set (mechanism_categories (f_mechanism f))) (kv_categories kv)")
      case True
      then have "corroborate debug gt (i, j, ds) f = (i + 1, j + 1, ds)" by (simp add: corroborate_def Some)
      then have "foldl (corroborate debug gt) (i + 1, j + 1, ds) fs = (on_file, matched, differs)"
        using Cons.prems by simp
      from Cons.IH [OF this] show ?thesis unfolding known by simp
    next
      case False
      then obtain line where "corroborate debug gt (i, j, ds) f = (i + 1, j, ds @ [line])" by (simp add: corroborate_def Some)
      then have "foldl (corroborate debug gt) (i + 1, j, ds @ [line]) fs = (on_file, matched, differs)"
        using Cons.prems by simp
      from Cons.IH [OF this] show ?thesis unfolding known by simp
    qed
  qed
qed simp

text \<open>The keys of the table, and the rows of the vocabularies.\<close>

lemma category_keys:
  "map fst category_table =
     [''brokenAccessControl'', ''pathTraversal'', ''brokenAuthentication'', ''sqlInjection'', ''noSqlInjection'',
      ''commandInjection'', ''xss'', ''xxe'', ''ssrf'', ''insecureDeserialization'', ''cryptographicFailure'',
      ''sensitiveDataExposure'', ''securityMisconfiguration'', ''prototypePollution'', ''dynamicCodeExecution'',
      ''unsafeReflection'', ''formatString'', ''unquotedExpansion'', ''assertForValidation'', ''fileInclusion'',
      ''massAssignment'', ''unescapedTemplate'', ''overbroadGrant'', ''bufferOverflow'', ''useAfterFree'',
      ''outOfBoundsAccess'', ''authorization'', ''injection'', ''exposure'', ''unsafeDefault'', ''other'']"
  by (simp add: category_table_def)

lemma counted_key: "key \<in> set (map fst category_table) \<Longrightarrow> mechanism_categories key \<noteq> []"
proof -
  assume "key \<in> set (map fst category_table)"
  then obtain cs where cs: "map_of category_table key = Some cs"
    by (metis list.set_map map_of_eq_None_iff not_None_eq)
  have "list_all (\<lambda>(_, cs). cs \<noteq> []) category_table" by (simp add: category_table_def)
  then have "cs \<noteq> []" using map_of_SomeD [OF cs] by (auto simp: list_all_iff)
  then show ?thesis by (simp add: mechanism_categories_def cs)
qed

definition row_counted :: "LanguageMechanismRow \<Rightarrow> bool" where
  "row_counted = (\<lambda>(l, d, es). d = Security \<longrightarrow> list_all (\<lambda>k. k \<in> set (map fst category_table)) (map fst es))"

lemma rows_counted:
  "list_all row_counted mechanism_rows_rust_to_java"
  "list_all row_counted mechanism_rows_csharp_to_go"
  "list_all row_counted mechanism_rows_php_to_shell"
  "list_all row_counted mechanism_rows_sql_to_powershell"
  unfolding mechanism_rows_rust_to_java_def mechanism_rows_csharp_to_go_def
    mechanism_rows_php_to_shell_def mechanism_rows_sql_to_powershell_def
  by (simp_all only: list.pred_inject row_counted_def prod.case category_keys, simp_all)

lemma language_counted: "set (map fst (language_mechanisms Security l)) \<subseteq> set (map fst category_table)"
proof (cases "find (\<lambda>(l', dimension, _). l' = l \<and> dimension = Security) LANGUAGE_MECHANISMS")
  case (Some r)
  then have r: "r \<in> set LANGUAGE_MECHANISMS" "case r of (l', d', _) \<Rightarrow> l' = l \<and> d' = Security"
    unfolding find_Some_iff by (metis nth_mem)+
  then have "row_counted r" using rows_counted by (auto simp: LANGUAGE_MECHANISMS_def list_all_iff)
  with Some r show ?thesis
    by (cases r) (auto simp: language_mechanisms_def row_counted_def list_all_iff)
qed (simp add: language_mechanisms_def)

lemma generic_counted: "set (map fst (mechanisms Security)) \<subseteq> insert ''noIssue'' (set (map fst category_table))"
  unfolding generic_keys category_keys by simp

text \<open>
  The evaluator counts every class of security finding that the reviewer can report: each mechanism
  of the security vocabulary of any language, except the sentinel for no issue, indicates at least one
  category of the benchmark.
\<close>

theorem every_security_mechanism_counted:
  "list_all (\<lambda>(key, _). key = ''noIssue'' \<or> mechanism_categories key \<noteq> []) (mechanisms_for Security language)"
proof -
  have "set (map fst (mechanisms_for Security language)) \<subseteq>
      set (map fst (mechanisms Security)) \<union> (\<Union>l. set (map fst (language_mechanisms Security l)))"
    unfolding mechanisms_for_eq generic_sentinels [of Security] by (auto split: option.splits)
  also have "\<dots> \<subseteq> insert ''noIssue'' (set (map fst category_table))"
    using generic_counted language_counted by blast
  finally have keys: "set (map fst (mechanisms_for Security language)) \<subseteq> insert ''noIssue'' (set (map fst category_table))" .
  show ?thesis
    unfolding list_all_iff using keys counted_key by force
qed

end
