(* ===== verification/Tour.thy ===== *)
theory Tour
  imports Repo_Index Codebase_Judgments Redact Git_Evidence
begin

text \<open>
  Repository tours (\<open>review/tour.rs\<close>): a stop for every source file of a bounded inventory, the
  directories, the import edges that the index has evidence for, and the disclosed gaps.
\<close>

record Reference =
  rf_path :: string
  rf_line :: nat
  rf_text :: string

record TourStop =
  ts_role :: string
  ts_explanation :: string
  ts_reference :: Reference
  ts_public_surface :: string

record Relationship =
  rl_source :: Reference
  rl_target :: Reference
  rl_kind :: string

record TourComponent =
  tc_path :: string
  tc_files :: nat
  tc_roles :: "string list"
  tc_reference :: Reference

record Tour =
  to_head :: string
  to_basis :: string
  to_stops :: "TourStop list"
  to_components :: "TourComponent list"
  to_relationships :: "Relationship list"
  to_unknowns :: "string list"
  to_partial :: bool

definition nth_line :: "string \<Rightarrow> nat \<Rightarrow> string" where
  "nth_line content line =
     (let ls = str_lines content; i = line - 1 in if i < length ls then ls ! i else [])"

definition reference :: "SourceFile \<Rightarrow> nat \<Rightarrow> Reference" where
  "reference f line =
     \<lparr>rf_path = sf_path f, rf_line = line, rf_text = chars_take 240 (nth_line (sf_content f) line)\<rparr>"

definition ENTRY_STARTS :: "string list" where
  "ENTRY_STARTS = [''fn main('', ''async fn main('', ''func main('', ''if __name__ =='', ''app.listen('', ''createServer('']"

definition tour_role :: "SourceFile \<Rightarrow> string \<times> nat \<times> string" where
  "tour_role f =
     (let path = map to_ascii_lower (sf_path f)
      in case position (\<lambda>s. list_ex (starts_with (trim_start s)) ENTRY_STARTS) (str_lines (sf_content f)) of
           Some line \<Rightarrow> (''entrypoint'', line + 1,
             ''Runtime entry declaration; follow its imports to the components it assembles.'')
         | None \<Rightarrow>
             if path \<in> set [''lib.rs'', ''index.ts'', ''index.js'', ''__init__.py''] \<or>
                list_ex (ends_with path) [''/lib.rs'', ''/__init__.py'', ''/index.ts'', ''/index.js'']
             then (''entrypoint'', 1,
               ''Conventional package entry path; exported signatures describe the visible package surface.'')
             else
               let role =
                 (if list_ex (str_contains path) [''/domain/'', ''/models/''] then ''domain''
                  else if list_ex (str_contains path) [''/auth/'', ''/api/'', ''/routes/'', ''/validation/''] then ''boundary''
                  else if list_ex (str_contains path) [''/storage/'', ''/database/'', ''/migrations/'', ''/cache/''] then ''persistence''
                  else if list_ex (str_contains path) [''/runtime/'', ''/cli/'', ''/config/''] then ''infrastructure''
                  else ''utility'')
               in (role, 1, case find (\<lambda>(r, _). r = role) FILE_ROLES of Some (_, e) \<Rightarrow> e | None \<Rightarrow> ''Unclassified component''))"

definition tour_stop :: "RepoIndex \<Rightarrow> SourceFile \<Rightarrow> TourStop" where
  "tour_stop ri f =
     (let (role, line, explanation) = tour_role f
      in \<lparr>ts_role = role,
          ts_explanation = explanation @ '' Role inferred from source/path; verify runtime behavior.'',
          ts_reference = reference f line, ts_public_surface = chars_take 1000 (index_signatures ri (sf_path f))\<rparr>)"

text \<open>The stops are sorted by the key (not an entry point, path).\<close>

definition stop_cmp :: "TourStop \<Rightarrow> TourStop \<Rightarrow> ordering" where
  "stop_cmp a b =
     then_cmp (cmp (ts_role a \<noteq> ''entrypoint'') (ts_role b \<noteq> ''entrypoint''))
       (cmp (rf_path (ts_reference a)) (rf_path (ts_reference b)))"

text \<open>The file that a path names: the last one of the list with it.\<close>

definition file_at :: "SourceFile list \<Rightarrow> string \<rightharpoonup> SourceFile" where
  "file_at fs = map_of (rev (map (\<lambda>f. (sf_path f, f)) fs))"

definition edge_relationship :: "SourceFile list \<Rightarrow> edge \<Rightarrow> Relationship option" where
  "edge_relationship fs e =
     (case e of (source, target, line) \<Rightarrow>
        (case (file_at fs source, file_at fs target) of
           (Some s, Some t) \<Rightarrow>
             Some \<lparr>rl_source = reference s line, rl_target = reference t 1, rl_kind = ''resolved import''\<rparr>
         | _ \<Rightarrow> None))"

text \<open>The directory of a file of the inventory, whose path is relative; \<open>.\<close> for the top.\<close>

definition component_path :: "string \<Rightarrow> string" where
  "component_path path =
     (case rsplit_once (CHR ''/'') path of
        Some (dir, _) \<Rightarrow> if dir = [] then ''.'' else dir
      | None \<Rightarrow> ''.'')"

definition push_stop :: "(string \<times> TourStop list) list \<Rightarrow> TourStop \<Rightarrow> (string \<times> TourStop list) list" where
  "push_stop groups stop =
     (let dir = component_path (rf_path (ts_reference stop))
      in map_insert dir ((case map_of groups dir of Some ss \<Rightarrow> ss | None \<Rightarrow> []) @ [stop]) groups)"

definition tour_component :: "string \<times> TourStop list \<Rightarrow> TourComponent" where
  "tour_component = (\<lambda>(path, stops).
     \<lparr>tc_path = path, tc_files = length stops, tc_roles = sorted_list_of_set (set (map ts_role stops)),
      tc_reference = ts_reference (hd stops)\<rparr>)"

definition redact_source :: "Detectors \<Rightarrow> SourceFile list \<Rightarrow> Redactions \<Rightarrow> SourceFile list" where
  "redact_source dt fs found =
     rev (fst (foldl (\<lambda>(out, found) f. case redact dt (sf_content f) found of
        (content, found') \<Rightarrow> (f\<lparr>sf_content := content\<rparr> # out, found')) ([], found) fs))"

definition INDEX_GAP :: "nat \<Rightarrow> string" where
  "INDEX_GAP n = show_nat n @ '' source/test file(s) lack index metadata (size limit or unsupported content); their public declarations are unknown''"

definition tour_build :: "Detectors \<Rightarrow> IndexTools \<Rightarrow> RepositoryEvidence \<Rightarrow> IndexStore \<Rightarrow> Tour" where
  "tour_build dt it evidence store =
     (let sources = filter (\<lambda>f. is_source_path (sf_path f)) (redact_source dt (re_files evidence) []);
          tests = filter (\<lambda>f. is_test_path (sf_path f)) sources;
          files = filter (\<lambda>f. \<not> is_test_path (sf_path f)) sources;
          ri = fst (index_build it files tests store);
          unknowns = re_unknowns evidence @
            (if is_fallbacks (ri_stats ri) > 0 then [INDEX_GAP (is_fallbacks (ri_stats ri))] else []);
          stops = sort_by stop_cmp (map (tour_stop ri) files);
          unknowns = unknowns @ (if list_ex (\<lambda>s. ts_role s = ''entrypoint'') stops then []
            else [''No evidenced conventional entry point; custom framework/bootstrap behavior is unknown'']);
          relationships = List.map_filter (edge_relationship files) (evidenced_edges ri);
          partial = (unknowns \<noteq> [] \<or> relationships = []);
          unknowns = unknowns @ [if relationships = []
            then ''No corroborated internal import edges; external imports, dynamic loading and unsupported syntax remain unknown''
            else ''Map includes only corroborated static internal imports; dynamic calls and external dependency behavior remain unknown''];
          components = map tour_component (foldl push_stop [] stops)
      in \<lparr>to_head = re_head evidence,
          to_basis = ''Working-tree RepoIndex static import resolution and heuristic file-role classification'',
          to_stops = stops, to_components = components, to_relationships = relationships, to_unknowns = unknowns,
          to_partial = partial\<rparr>)"

section \<open>Markdown\<close>

text \<open>The characters that are replaced are ASCII.\<close>

definition clean :: "string \<Rightarrow> string" where
  "clean s = map (\<lambda>c. if c \<in> {NL, CR, CHR 0x60, CHR ''['', CHR '']'', CHR ''<'', CHR ''>''} then CHR '' '' else c) s"

definition component_line :: "TourComponent \<Rightarrow> string" where
  "component_line c =
     ''- '' @ clean (tc_path c) @ '': '' @ show_nat (tc_files c) @ '' files; '' @ clean (join '', '' (tc_roles c)) @
     ''. Source '' @ clean (rf_path (tc_reference c)) @ '':'' @ show_nat (rf_line (tc_reference c)) @ [NL]"

definition stop_lines :: "TourStop \<Rightarrow> string" where
  "stop_lines s =
     ''- **'' @ clean (ts_role s) @ ''** '' @ [CHR 0xE2, CHR 0x80, CHR 0x94] @ '' '' @ clean (rf_path (ts_reference s)) @ '':'' @
     show_nat (rf_line (ts_reference s)) @ '': '' @ clean (ts_explanation s) @ [NL] @ ''  '' @
     clean (rf_text (ts_reference s)) @ [NL] @
     (if ts_public_surface s = [] then [] else ''  Public declarations: '' @ clean (ts_public_surface s) @ [NL])"

definition edge_line :: "Relationship \<Rightarrow> string" where
  "edge_line e =
     ''- '' @ clean (rf_path (rl_source e)) @ '':'' @ show_nat (rf_line (rl_source e)) @ '' '' @
     [CHR 0xE2, CHR 0x86, CHR 0x92] @ '' '' @ clean (rf_path (rl_target e)) @ '':'' @ show_nat (rf_line (rl_target e)) @
     '' ('' @ clean (rl_kind e) @ '')'' @ [NL]"

definition tour_markdown :: "Tour \<Rightarrow> string" where
  "tour_markdown t =
     ''# Repository tour'' @ [NL, NL] @ ''Source: '' @ clean (to_head t) @ [NL, NL] @ clean (to_basis t) @ [NL, NL] @
     ''## Major component directories'' @ [NL, NL] @ ''Path groups and inferred roles (not runtime boundaries):'' @ [NL, NL] @
     concat (map component_line (to_components t)) @
     [NL] @ ''## Tour stops'' @ [NL, NL] @ concat (map stop_lines (to_stops t)) @
     [NL] @ ''## Architecture map'' @ [NL, NL] @
     ''Directed static import edges (runtime call relationships are unknown):'' @ [NL, NL] @
     concat (map edge_line (to_relationships t)) @
     [NL] @ ''## Evidence limits'' @ [NL, NL] @
     concat (map (\<lambda>u. ''- '' @ clean u @ [NL]) (to_unknowns t))"

section \<open>What a tour shows\<close>

text \<open>The files that are toured: the redacted source files of the inventory that are no tests.\<close>

definition tour_files :: "Detectors \<Rightarrow> RepositoryEvidence \<Rightarrow> SourceFile list" where
  "tour_files dt evidence =
     filter (\<lambda>f. is_source_path (sf_path f) \<and> \<not> is_test_path (sf_path f)) (redact_source dt (re_files evidence) [])"

text \<open>A reference quotes the beginning of its line of a toured file.\<close>

definition quotes :: "SourceFile list \<Rightarrow> Reference \<Rightarrow> bool" where
  "quotes files r \<longleftrightarrow>
     (\<exists>f \<in> set files. rf_path r = sf_path f \<and> rf_text r = chars_take 240 (nth_line (sf_content f) (rf_line r)))"

definition stop_path :: "TourStop \<Rightarrow> string" where
  "stop_path s = rf_path (ts_reference s)"

text \<open>
  Every toured file has one stop, entry points first; a component counts the stops of its directory;
  a relationship is an edge with evidence at the cited line; every reference is a quotation; the
  unknowns of the inventory are kept, and a tour with a gap is partial.
\<close>

definition stops_sound :: "SourceFile list \<Rightarrow> TourStop list \<Rightarrow> bool" where
  "stops_sound files stops \<longleftrightarrow>
     mset (map stop_path stops) = mset (map sf_path files) \<and> ordered_by stop_cmp stops \<and>
     list_all (\<lambda>s. quotes files (ts_reference s)) stops"

definition components_sound :: "SourceFile list \<Rightarrow> TourStop list \<Rightarrow> TourComponent list \<Rightarrow> bool" where
  "components_sound files stops components \<longleftrightarrow>
     distinct (map tc_path components) \<and>
     set (map tc_path components) = set (map (component_path \<circ> stop_path) stops) \<and>
     list_all (\<lambda>c. tc_files c = length (filter (\<lambda>s. component_path (stop_path s) = tc_path c) stops) \<and>
       set (tc_roles c) = ts_role ` {s \<in> set stops. component_path (stop_path s) = tc_path c} \<and>
       quotes files (tc_reference c)) components"

definition relationship_sound :: "SourceFile list \<Rightarrow> Relationship \<Rightarrow> bool" where
  "relationship_sound files r \<longleftrightarrow>
     edge_ok files (rf_path (rl_source r), rf_path (rl_target r), rf_line (rl_source r)) \<and>
     quotes files (rl_source r) \<and> quotes files (rl_target r)"

definition tour_sound :: "SourceFile list \<Rightarrow> RepositoryEvidence \<Rightarrow> Tour \<Rightarrow> bool" where
  "tour_sound files evidence t \<longleftrightarrow>
     stops_sound files (to_stops t) \<and> components_sound files (to_stops t) (to_components t) \<and>
     list_all (relationship_sound files) (to_relationships t) \<and>
     prefix (re_unknowns evidence) (to_unknowns t) \<and>
     (re_unknowns evidence \<noteq> [] \<or> to_relationships t = [] \<or> \<not> list_ex (\<lambda>s. ts_role s = ''entrypoint'') (to_stops t)
       \<longrightarrow> to_partial t)"

interpretation stop_order: comparator stop_cmp
  unfolding stop_cmp_def by (intro comparator_intros)

lemma stop_reference: "ts_reference (tour_stop ri f) = reference f (rf_line (ts_reference (tour_stop ri f)))"
  by (simp add: tour_stop_def reference_def split: prod.splits)

lemma quotes_reference: "f \<in> set files \<Longrightarrow> quotes files (reference f n)"
  by (auto simp: quotes_def reference_def)

lemma stops_of_files: "stops_sound files (sort_by stop_cmp (map (tour_stop ri) files))"
proof -
  have path: "stop_path (tour_stop ri f) = sf_path f" for f
    by (simp add: stop_path_def tour_stop_def reference_def split: prod.splits)
  have "quotes files (ts_reference (tour_stop ri f))" if "f \<in> set files" for f
    using quotes_reference [OF that] stop_reference by metis
  then show ?thesis
    by (auto simp: stops_sound_def list_all_iff stop_order.ordered_sort_by path multiset.map_comp comp_def)
qed

lemma push_stop_groups:
  assumes "\<And>d. map_of groups d = (let ss = filter (\<lambda>s. component_path (stop_path s) = d) stops in if ss = [] then None else Some ss)"
  shows "map_of (push_stop groups stop) d =
    (let ss = filter (\<lambda>s. component_path (stop_path s) = d) (stops @ [stop]) in if ss = [] then None else Some ss)"
  using assms by (auto simp: push_stop_def Let_def stop_path_def)

lemma groups_of_stops:
  "map_of (foldl push_stop [] stops) d =
     (let ss = filter (\<lambda>s. component_path (stop_path s) = d) stops in if ss = [] then None else Some ss)"
proof (induction stops arbitrary: d rule: rev_induct)
  case (snoc s stops)
  show ?case using push_stop_groups [of "foldl push_stop [] stops" stops s d, OF snoc] by simp
qed simp

lemma groups_ordered: "ordered_map (foldl push_stop [] stops)"
  by (induction stops rule: rev_induct) (simp_all add: push_stop_def Let_def)

lemma components_of_stops:
  assumes "stops_sound files stops"
  shows "components_sound files stops (map tour_component (foldl push_stop [] stops))"
proof -
  let ?groups = "foldl push_stop [] stops"
  have dist: "distinct (map fst ?groups)" by (rule ordered_distinct [OF groups_ordered])
  have paths: "map tc_path (map tour_component ?groups) = map fst ?groups"
    by (simp add: tour_component_def case_prod_beta)
  have group: "ss = filter (\<lambda>s. component_path (stop_path s) = d) stops \<and> ss \<noteq> []" if "(d, ss) \<in> set ?groups" for d ss
    using groups_of_stops [of stops d] dist that by (auto simp: map_of_is_SomeI Let_def split: if_splits)
  have "set (map fst ?groups) = set (map (component_path \<circ> stop_path) stops)"
  proof -
    have "map_of ?groups d \<noteq> None \<longleftrightarrow> (\<exists>s \<in> set stops. component_path (stop_path s) = d)" for d
      unfolding groups_of_stops by (auto simp: Let_def filter_empty_conv)
    then have "d \<in> set (map fst ?groups) \<longleftrightarrow> d \<in> set (map (component_path \<circ> stop_path) stops)" for d
      by (auto simp: map_of_eq_None_iff)
    then show ?thesis by blast
  qed
  moreover have "quotes files (ts_reference (hd ss))" if "(d, ss) \<in> set ?groups" for d ss
  proof -
    have "hd ss \<in> set stops" using group [OF that] by (metis (lifting) filter_is_subset hd_in_set subsetD)
    then show ?thesis using assms by (simp add: stops_sound_def list_all_iff)
  qed
  moreover have "tc_files c = length (filter (\<lambda>s. component_path (stop_path s) = tc_path c) stops) \<and>
      set (tc_roles c) = ts_role ` {s \<in> set stops. component_path (stop_path s) = tc_path c} \<and>
      quotes files (tc_reference c)" if c: "c \<in> set (map tour_component ?groups)" for c
  proof -
    obtain d ss where ss: "(d, ss) \<in> set ?groups" and cd: "c = tour_component (d, ss)" using c by auto
    have eq: "ss = filter (\<lambda>s. component_path (stop_path s) = d) stops" using group [OF ss] ..
    have "set ss = {s \<in> set stops. component_path (stop_path s) = d}" unfolding eq by simp
    then show ?thesis using calculation(2) [OF ss] eq by (simp add: cd tour_component_def)
  qed
  ultimately show ?thesis
    unfolding components_sound_def paths list_all_iff using dist by simp
qed

lemma file_at_Some: "file_at files path = Some f \<Longrightarrow> f \<in> set files \<and> sf_path f = path"
  unfolding file_at_def by (auto dest: map_of_SomeD)

lemma relationships_sound:
  assumes "list_all (edge_ok files) edges"
  shows "list_all (relationship_sound files) (List.map_filter (edge_relationship files) edges)"
  using assms
  by (auto simp: list_all_iff List.map_filter_def edge_relationship_def relationship_sound_def reference_def quotes_def
      dest!: file_at_Some split: option.splits prod.splits)

lemma index_edges_ok: "list_all (edge_ok files) (evidenced_edges (fst (index_build it files tests store)))"
  by (simp add: evidenced_edges_def index_build_def graph_edges_ok split: prod.splits)

text \<open>
  C34. A tour shows the inventory and nothing else: one stop for each source file, entry points first,
  each quoting its redacted line; directories with the number and roles of their stops; only import
  edges whose cited line is an import declaration of a scanned file; and it is partial whenever the
  inventory has an unknown, no entry point was found or no edge has evidence.
\<close>

theorem tour_grounded: "tour_sound (tour_files dt evidence) evidence (tour_build dt it evidence store)"
proof -
  let ?sources = "filter (\<lambda>f. is_source_path (sf_path f)) (redact_source dt (re_files evidence) [])"
  let ?files = "filter (\<lambda>f. \<not> is_test_path (sf_path f)) ?sources"
  have files: "tour_files dt evidence = ?files"
    by (simp add: tour_files_def conj_commute)
  show ?thesis
    unfolding tour_sound_def files tour_build_def Let_def
    using stops_of_files [of "?files"] components_of_stops [OF stops_of_files [of "?files"]]
      relationships_sound [OF index_edges_ok]
    by (auto simp: list_ex_iff)
qed

end
