(* ===== verification/Dashboard.thy ===== *)
theory Dashboard
  imports Stores Json
begin

text \<open>
  The loopback dashboard (\<open>dashboard/mod.rs\<close>): the host and origin checks, the routes, the saved
  review, the history with its hotspots, and the recording of votes. The web framework is a parameter
  where it decides: which headers are present and readable as text, and what the JSON extractor makes
  of a body. The three static assets are parameters.
  The headers and the status texts that the framework adds by itself, and its dropping of the body of
  an answer to HEAD, are not modelled.
\<close>

section \<open>Requests and responses\<close>

record FeedbackRequest =
  fq_fingerprint :: string
  fq_vote :: Vote
  fq_suppress :: bool

text \<open>
  A header is absent, present without being text, or a text; the body is the vote that the JSON extractor
  reads or the status with which it rejects the request.
\<close>

record HttpRequest =
  hq_method :: string
  hq_path :: string
  hq_header :: "string \<Rightarrow> string option option"
  hq_vote :: "nat + FeedbackRequest"

datatype body = JsonBody json | TextBody string | AssetBody string string | NoBody

record Response =
  hr_status :: nat
  hr_headers :: "(string \<times> string) list"
  hr_body :: body

definition respond :: "nat \<Rightarrow> body \<Rightarrow> Response" where
  "respond status b = \<lparr>hr_status = status, hr_headers = [], hr_body = b\<rparr>"

section \<open>Checks\<close>

definition this_host :: "nat \<Rightarrow> string list" where
  "this_host port = [''127.0.0.1:'' @ show_nat port, ''localhost:'' @ show_nat port]"

text \<open>A header that is text is ASCII, so that lower case is ASCII lower case.\<close>

definition allowed_host :: "nat \<Rightarrow> HttpRequest \<Rightarrow> bool" where
  "allowed_host port rq \<longleftrightarrow>
     map to_ascii_lower (trim (case hq_header rq ''host'' of Some (Some h) \<Rightarrow> h | _ \<Rightarrow> [])) \<in> set (this_host port)"

definition host_check :: "nat \<Rightarrow> HttpRequest \<Rightarrow> 's \<Rightarrow> ('s \<Rightarrow> Response \<times> 's) \<Rightarrow> Response \<times> 's" where
  "host_check port rq s next_layer =
     (if allowed_host port rq then next_layer s else (respond 403 (TextBody ''Forbidden''), s))"

definition CONTENT_POLICY :: string where
  "CONTENT_POLICY =
     ''default-src '' @ [CHR 0x27] @ ''self'' @ [CHR 0x27] @ ''; img-src '' @ [CHR 0x27] @ ''self'' @ [CHR 0x27] @
     '' data:; frame-ancestors '' @ [CHR 0x27] @ ''none'' @ [CHR 0x27]"

definition security_headers :: "Response \<Rightarrow> Response" where
  "security_headers r =
     (let kept = filter (\<lambda>(k, _). k \<notin> {''cache-control'', ''x-content-type-options'', ''content-security-policy''}) (hr_headers r)
      in r\<lparr>hr_headers := kept @ [(''cache-control'', ''no-store''), (''x-content-type-options'', ''nosniff''),
       (''content-security-policy'', CONTENT_POLICY)]\<rparr>)"

definition same_origin :: "nat \<Rightarrow> HttpRequest \<Rightarrow> bool" where
  "same_origin port rq \<longleftrightarrow>
     (case hq_header rq ''origin'' of
        None \<Rightarrow> True
      | Some readable \<Rightarrow>
          let origin = map to_ascii_lower (trim (case readable of Some o' \<Rightarrow> o' | None \<Rightarrow> []))
          in origin = ''http://127.0.0.1:'' @ show_nat port \<or> origin = ''http://localhost:'' @ show_nat port)"

definition valid_vote :: "FeedbackRequest \<Rightarrow> bool" where
  "valid_vote q \<longleftrightarrow> \<not> (fq_suppress q \<and> fq_vote q = Up)"

definition feedback_entry :: "ReviewReport \<Rightarrow> FeedbackRequest \<Rightarrow> FeedbackEntry option" where
  "feedback_entry report q =
     (if fq_fingerprint q = [] then None
      else map_option (\<lambda>f.
          \<lparr>fe_fingerprint = f_fingerprint f, fe_file = f_file f, fe_line = f_line f, fe_dimension = f_dimension f,
           fe_mechanism = f_mechanism f, fe_probability = f_probability f, fe_vote = fq_vote q,
           fe_suppress = fq_suppress q, fe_at = []\<rparr>)
        (find (\<lambda>f. f_fingerprint f = fq_fingerprint q) (r_findings report)))"

section \<open>What is shown\<close>

fun vote_name :: "Vote \<Rightarrow> string" where
  "vote_name Up = ''up''"
| "vote_name Down = ''down''"

definition votes_body :: "FeedbackLog \<Rightarrow> json" where
  "votes_body vlog =
     obj [(''votes'', obj (map (\<lambda>e. (fe_fingerprint e,
       obj [(''vote'', JStr (vote_name (fe_vote e))), (''suppress'', JBool (fe_suppress e))])) (latest vlog)))]"

definition review_body :: "(ReviewReport \<Rightarrow> json) \<Rightarrow> string \<Rightarrow> StoredReport \<Rightarrow> json" where
  "review_body report_json source stored =
     (case stored of
        StoredOk saved_at report \<Rightarrow>
          obj [(''source'', JStr source), (''status'', JStr ''ok''), (''savedAt'', JStr saved_at), (''report'', report_json report)]
      | StoredEmpty \<Rightarrow> obj [(''source'', JStr source), (''status'', JStr ''empty'')]
      | StoredError message \<Rightarrow>
          obj [(''source'', JStr source), (''status'', JStr ''error''), (''message'', JStr message)])"

definition history_value :: "HistoryEntry \<Rightarrow> json" where
  "history_value e =
     (let fs = r_findings (he_report e) in
      obj [(''sha'', JStr (he_sha e)), (''mode'', JStr (mode_key (r_mode (he_report e)))), (''savedAt'', JStr (he_saved_at e)),
           (''findings'', jnat (length fs)),
           (''blocking'', jnat (length (filter (\<lambda>f. f_action f = RequestChanges) fs))),
           (''maxSeverity'', jnum (foldl f64_max (Fin 0) (map f_severity fs)))])"

record Hotspot =
  hs_findings :: nat
  hs_latest_findings :: nat
  hs_blocking :: nat
  hs_max_severity :: f64

definition no_hotspot :: Hotspot where
  "no_hotspot = \<lparr>hs_findings = 0, hs_latest_findings = 0, hs_blocking = 0, hs_max_severity = Fin 0\<rparr>"

text \<open>One finding: the count of the entry for its file, and its hotspot.\<close>

definition count_finding ::
  "(string \<times> nat) list \<times> (string \<times> Hotspot) list \<Rightarrow> Finding \<Rightarrow> (string \<times> nat) list \<times> (string \<times> Hotspot) list" where
  "count_finding acc f =
     (let (current, by_file) = acc;
          slot = (case map_of by_file (f_file f) of Some h \<Rightarrow> h | None \<Rightarrow> no_hotspot);
          slot = slot\<lparr>hs_findings := hs_findings slot + 1\<rparr>;
          slot = (if f_action f = RequestChanges then slot\<lparr>hs_blocking := hs_blocking slot + 1\<rparr> else slot);
          slot = (if hs_max_severity slot < f_severity f then slot\<lparr>hs_max_severity := f_severity f\<rparr> else slot)
      in (map_insert (f_file f) ((case map_of current (f_file f) of Some n \<Rightarrow> n | None \<Rightarrow> 0) + 1) current,
          map_insert (f_file f) slot by_file))"

definition latest_word :: "(string \<times> Hotspot) list \<Rightarrow> string \<times> nat \<Rightarrow> (string \<times> Hotspot) list" where
  "latest_word by_file entry =
     (case map_of by_file (fst entry) of
        Some slot \<Rightarrow> map_insert (fst entry) (slot\<lparr>hs_latest_findings := snd entry\<rparr>) by_file
      | None \<Rightarrow> by_file)"

definition hotspot_entry :: "(string \<times> Hotspot) list \<Rightarrow> HistoryEntry \<Rightarrow> (string \<times> Hotspot) list" where
  "hotspot_entry by_file e =
     (let screened = foldl (\<lambda>m row. map_insert (mr_file row) 0 m) [] (r_matrix (he_report e));
          (current, by_file) = foldl count_finding (screened, by_file) (r_findings (he_report e))
      in foldl latest_word by_file current)"

definition hotspot_map :: "HistoryEntry list \<Rightarrow> (string \<times> Hotspot) list" where
  "hotspot_map entries = foldl hotspot_entry [] entries"

definition hotspots :: "HistoryEntry list \<Rightarrow> json list" where
  "hotspots entries =
     (let ranked = sort_by (\<lambda>a b. cmp (hs_findings (snd b)) (hs_findings (snd a))) (hotspot_map entries)
      in map (\<lambda>(file, h). obj [(''file'', JStr file), (''findings'', jnat (hs_findings h)),
           (''latestFindings'', jnat (hs_latest_findings h)), (''blocking'', jnat (hs_blocking h)),
           (''maxSeverity'', jnum (hs_max_severity h))]) (take 15 ranked))"

definition history_body :: "HistoryEntry list \<Rightarrow> json" where
  "history_body unsorted =
     (let entries = sort_by (\<lambda>a b. cmp (he_saved_nanos a) (he_saved_nanos b)) unsorted
      in obj [(''entries'', JArr (map history_value entries)), (''hotspots'', JArr (hotspots entries))])"

section \<open>Handling a request\<close>

text \<open>What the server finds around it: the environment, the disk, serde, the lock and the clock.\<close>

record Surroundings =
  su_env :: "string \<Rightarrow> string option"
  su_system :: System
  su_codec :: Codec
  su_reading :: Reading
  su_listing :: "string \<Rightarrow> read_error + string list"
  su_report_json :: "ReviewReport \<Rightarrow> json"
  su_poisoned :: bool
  su_now :: nat
  su_index_html :: string
  su_style_css :: string
  su_app_js :: string

text \<open>The state of the process: the files and the counter of temporary names.\<close>

type_synonym dash_state = "files \<times> u64"

definition api_review :: "Surroundings \<Rightarrow> dash_state \<Rightarrow> Response \<times> dash_state" where
  "api_review su s =
     (let path = report_path (su_env su)
      in (respond 200 (JsonBody (review_body (su_report_json su) path
            (read_report (su_codec su) (su_reading su) (fst s) path))), s))"

definition api_history :: "Surroundings \<Rightarrow> dash_state \<Rightarrow> Response \<times> dash_state" where
  "api_history su s =
     (case read_history (su_codec su) (su_reading su) (fst s) (su_listing su) of
        Inl _ \<Rightarrow> (respond 500 NoBody, s)
      | Inr entries \<Rightarrow> (respond 200 (JsonBody (history_body entries)), s))"

definition api_feedback :: "Surroundings \<Rightarrow> dash_state \<Rightarrow> Response \<times> dash_state" where
  "api_feedback su s =
     (case read_feedback (su_codec su) (su_reading su) (fst s) (feedback_path (su_env su)) of
        Inl _ \<Rightarrow> (respond 500 NoBody, s)
      | Inr vlog \<Rightarrow> (respond 200 (JsonBody (votes_body vlog)), s))"

definition post_feedback :: "Surroundings \<Rightarrow> nat \<Rightarrow> HttpRequest \<Rightarrow> dash_state \<Rightarrow> Response \<times> dash_state" where
  "post_feedback su port rq s =
     (case hq_vote rq of
        Inl status \<Rightarrow> (respond status NoBody, s)
      | Inr q \<Rightarrow>
          if \<not> same_origin port rq then (respond 403 (TextBody ''Cross-origin feedback refused''), s)
          else if \<not> valid_vote q then (respond 422 (TextBody ''Only a down vote can suppress a finding''), s)
          else
            (case read_report (su_codec su) (su_reading su) (fst s) (report_path (su_env su)) of
               StoredOk _ report \<Rightarrow>
                 (case feedback_entry report q of
                    None \<Rightarrow> (respond 404 (TextBody ''Unknown finding''), s)
                  | Some entry \<Rightarrow>
                      (case append_feedback (su_system su) (su_codec su) (su_reading su) (su_poisoned su) (su_now su)
                              (feedback_path (su_env su)) entry (snd s) (fst s) of
                         (Inl _, fs, counter, _) \<Rightarrow> (respond 500 (TextBody ''Could not save feedback''), (fs, counter))
                       | (Inr vlog, fs, counter, _) \<Rightarrow> (respond 200 (JsonBody (votes_body vlog)), (fs, counter))))
             | _ \<Rightarrow> (respond 409 (TextBody ''No saved report''), s)))"

text \<open>A route for GET also answers HEAD; another method of a known path is not allowed.\<close>

definition route :: "Surroundings \<Rightarrow> nat \<Rightarrow> HttpRequest \<Rightarrow> dash_state \<Rightarrow> Response \<times> dash_state" where
  "route su port rq s =
     (let reads = (hq_method rq \<in> {''GET'', ''HEAD''}); forbidden = (respond 405 NoBody, s) in
      if hq_path rq = ''/api/review'' then (if reads then api_review su s else forbidden)
      else if hq_path rq = ''/api/history'' then (if reads then api_history su s else forbidden)
      else if hq_path rq = ''/api/feedback'' then
        (if reads then api_feedback su s
         else if hq_method rq = ''POST'' then post_feedback su port rq s else forbidden)
      else if hq_path rq = ''/'' then
        (if reads then (respond 200 (AssetBody ''text/html; charset=utf-8'' (su_index_html su)), s) else forbidden)
      else if hq_path rq = ''/style.css'' then
        (if reads then (respond 200 (AssetBody ''text/css; charset=utf-8'' (su_style_css su)), s) else forbidden)
      else if hq_path rq = ''/app.js'' then
        (if reads then (respond 200 (AssetBody ''text/javascript; charset=utf-8'' (su_app_js su)), s) else forbidden)
      else (respond 404 (TextBody ''Not found''), s))"

definition serve_request :: "Surroundings \<Rightarrow> nat \<Rightarrow> HttpRequest \<Rightarrow> dash_state \<Rightarrow> Response \<times> dash_state" where
  "serve_request su port rq s =
     (case host_check port rq s (route su port rq) of (r, s') \<Rightarrow> (security_headers r, s'))"

section \<open>Who can record a vote\<close>

text \<open>The entry is the report's finding; only the verdict comes from the request.\<close>

definition vote_on :: "Finding \<Rightarrow> FeedbackRequest \<Rightarrow> nat \<Rightarrow> FeedbackEntry" where
  "vote_on f q now =
     \<lparr>fe_fingerprint = f_fingerprint f, fe_file = f_file f, fe_line = f_line f, fe_dimension = f_dimension f,
      fe_mechanism = f_mechanism f, fe_probability = f_probability f, fe_vote = fq_vote q,
      fe_suppress = fq_suppress q, fe_at = iso8601 now\<rparr>"

text \<open>
  A vote is recorded: a POST to this host, from this dashboard or no browser, that does not hide a
  finding by an up vote, on a finding of the saved report with this fingerprint; the log gets the
  entry after all it had, and nothing else of the disk changes.
\<close>

definition vote_recorded ::
  "Surroundings \<Rightarrow> nat \<Rightarrow> HttpRequest \<Rightarrow> files \<Rightarrow> Response \<Rightarrow> files \<Rightarrow> bool" where
  "vote_recorded su port rq fs r fs' \<longleftrightarrow>
     hr_status r = 200 \<and> allowed_host port rq \<and> same_origin port rq \<and> hq_method rq = ''POST'' \<and>
     hq_path rq = ''/api/feedback'' \<and>
     (\<exists>q saved_at report f old body.
        hq_vote rq = Inr q \<and> (fq_suppress q \<longrightarrow> fq_vote q = Down) \<and>
        read_report (su_codec su) (su_reading su) fs (report_path (su_env su)) = StoredOk saved_at report \<and>
        f \<in> set (r_findings report) \<and> f_fingerprint f = fq_fingerprint q \<and> fq_fingerprint q \<noteq> [] \<and>
        read_feedback (su_codec su) (su_reading su) fs (feedback_path (su_env su)) = Inr old \<and>
        co_log (su_codec su) \<lparr>fl_entries = fl_entries old @ [vote_on f q (su_now su)]\<rparr> = Inr body \<and>
        fs' = fs(feedback_path (su_env su) \<mapsto> body @ [NL]))"

text \<open>Nothing that existed changes; a failed write may leave its temporary file.\<close>

definition nothing_changed :: "files \<Rightarrow> files \<Rightarrow> bool" where
  "nothing_changed fs fs' \<longleftrightarrow> (\<forall>p. fs p \<noteq> None \<longrightarrow> fs' p = fs p)"

text \<open>The three headers that every response carries.\<close>

definition hardened :: "Response \<Rightarrow> bool" where
  "hardened r \<longleftrightarrow>
     map_of (hr_headers r) ''cache-control'' = Some ''no-store'' \<and>
     map_of (hr_headers r) ''x-content-type-options'' = Some ''nosniff'' \<and>
     map_of (hr_headers r) ''content-security-policy'' = Some CONTENT_POLICY"

lemma headers_hardened: "hardened (security_headers r)"
proof -
  define kept where "kept = filter (\<lambda>(k, _). k \<notin> {''cache-control'', ''x-content-type-options'', ''content-security-policy''})
    (hr_headers r)"
  have none: "map_of kept k = None" if "k \<in> {''cache-control'', ''x-content-type-options'', ''content-security-policy''}" for k
    using that by (auto simp: map_of_eq_None_iff kept_def)
  have "hr_headers (security_headers r) = kept @ [(''cache-control'', ''no-store''), (''x-content-type-options'', ''nosniff''),
       (''content-security-policy'', CONTENT_POLICY)]"
    by (simp add: security_headers_def kept_def Let_def)
  then show ?thesis
    using none [of "''cache-control''"] none [of "''x-content-type-options''"] none [of "''content-security-policy''"]
    by (simp add: hardened_def map_add_def)
qed

lemma append_feedback_failed:
  assumes "append_feedback sy co rd poisoned now path entry counter fs = (Inl e, fs', counter', seen)"
  shows "nothing_changed fs fs'"
proof (cases "poisoned \<or> isl (read_feedback co rd fs path)")
  case True
  then show ?thesis using assms by (auto simp: append_feedback_def nothing_changed_def split: sum.splits if_splits)
next
  case False
  then obtain old where old: "read_feedback co rd fs path = Inr old" "\<not> poisoned" by (auto simp: isl_def split: sum.splits)
     (metis isl_def sum.exhaust_sel)
  let ?new = "\<lparr>fl_entries = fl_entries old @ [entry\<lparr>fe_at := iso8601 now\<rparr>]\<rparr>"
  obtain r c s where save: "save_text sy (co_log co ?new) path counter fs = (r, fs', c, s)" and "isl r"
    using assms old by (auto simp: append_feedback_def Let_def split: prod.splits sum.splits)
  then show ?thesis
  proof (cases "co_log co ?new")
    case (Inr body)
    have "atomic_replace path (body @ [NL]) fs (r, fs', c, s)"
      using write_atomic_replaces [of path "body @ [NL]" fs sy counter] save by (simp add: save_text_def Inr)
    then show ?thesis using \<open>isl r\<close> by (cases r) (auto simp: old_or_new_def nothing_changed_def)
  qed (simp add: save_text_def nothing_changed_def)
qed

lemma post_feedback_checked:
  assumes "allowed_host port rq" "hq_method rq = ''POST''" "hq_path rq = ''/api/feedback''"
    and run: "post_feedback su port rq (fs, c) = (r, (fs', c'))"
  shows "vote_recorded su port rq fs r fs' \<or> nothing_changed fs fs'"
proof (cases "hq_vote rq")
  case (Inr q)
  show ?thesis
  proof (cases "\<exists>saved_at report entry. same_origin port rq \<and> valid_vote q \<and>
      read_report (su_codec su) (su_reading su) fs (report_path (su_env su)) = StoredOk saved_at report \<and>
      feedback_entry report q = Some entry")
    case False
    then show ?thesis using run
      by (auto simp: post_feedback_def Inr respond_def nothing_changed_def split: if_splits StoredReport.splits option.splits)
  next
    case True
    then obtain saved_at report entry where ok: "same_origin port rq" "valid_vote q"
      "read_report (su_codec su) (su_reading su) fs (report_path (su_env su)) = StoredOk saved_at report"
      and entry: "feedback_entry report q = Some entry" by blast
    obtain res fs1 c1 seen where app: "append_feedback (su_system su) (su_codec su) (su_reading su) (su_poisoned su) (su_now su)
        (feedback_path (su_env su)) entry c fs = (res, fs1, c1, seen)" by (metis prod_cases4)
    show ?thesis
    proof (cases res)
      case (Inl e)
      then show ?thesis using run app append_feedback_failed [of _ _ _ _ _ _ entry c fs e]
        by (auto simp: post_feedback_def Inr ok entry respond_def)
    next
      case res: (Inr vlog)
      then have out: "fs' = fs1" "hr_status r = 200" using run app by (auto simp: post_feedback_def Inr ok entry respond_def)
      obtain f where f: "f \<in> set (r_findings report)" "f_fingerprint f = fq_fingerprint q" "fq_fingerprint q \<noteq> []"
        "entry\<lparr>fe_at := iso8601 (su_now su)\<rparr> = vote_on f q (su_now su)"
      proof -
        obtain g where g: "find (\<lambda>f. f_fingerprint f = fq_fingerprint q) (r_findings report) = Some g"
          "fq_fingerprint q \<noteq> []" "entry\<lparr>fe_at := iso8601 (su_now su)\<rparr> = vote_on g q (su_now su)"
          using entry by (auto simp: feedback_entry_def vote_on_def split: if_splits)
        then have "g \<in> set (r_findings report)" "f_fingerprint g = fq_fingerprint q"
          by (auto simp: find_Some_iff)
        with g show thesis by (intro that [of g])
      qed
      obtain old body where "read_feedback (su_codec su) (su_reading su) fs (feedback_path (su_env su)) = Inr old"
        "vlog = \<lparr>fl_entries = fl_entries old @ [vote_on f q (su_now su)]\<rparr>"
        "co_log (su_codec su) vlog = Inr body" "fs1 = fs(feedback_path (su_env su) \<mapsto> body @ [NL])"
        using app unfolding res f(4) [symmetric] by (rule append_feedback_done)
      then have "vote_recorded su port rq fs r fs'"
        unfolding vote_recorded_def using assms(1-3) ok f Inr out
        by (intro conjI exI [of _ q] exI [of _ saved_at] exI [of _ report] exI [of _ f] exI [of _ old] exI [of _ body])
          (auto simp: valid_vote_def intro: Vote.exhaust)
      then show ?thesis ..
    qed
  qed
qed (use run in \<open>simp add: post_feedback_def nothing_changed_def\<close>)

text \<open>Every response is hardened; another host is refused; and the files that existed are unchanged unless
  a vote was recorded.\<close>

fun guarded :: "Surroundings \<Rightarrow> nat \<Rightarrow> HttpRequest \<Rightarrow> files \<Rightarrow> Response \<times> dash_state \<Rightarrow> bool" where
  "guarded su port rq fs (r, fs', c') \<longleftrightarrow>
     hardened r \<and> (allowed_host port rq \<or> hr_status r = 403) \<and>
     (vote_recorded su port rq fs r fs' \<or> nothing_changed fs fs')"

lemma route_guarded:
  assumes "allowed_host port rq" "route su port rq (fs, c) = (r, (fs', c'))"
  shows "vote_recorded su port rq fs r fs' \<or> nothing_changed fs fs'"
proof (cases "hq_method rq = ''POST'' \<and> hq_path rq = ''/api/feedback''")
  case True
  then have "post_feedback su port rq (fs, c) = (r, (fs', c'))" using assms(2) by (simp add: route_def)
  then show ?thesis using post_feedback_checked assms(1) True by blast
next
  case False
  then have "fs' = fs"
    using assms(2) by (auto simp: route_def Let_def api_review_def api_history_def api_feedback_def split: if_splits sum.splits)
  then show ?thesis by (simp add: nothing_changed_def)
qed

lemma vote_recorded_headers: "vote_recorded su port rq fs (security_headers r) fs' \<longleftrightarrow> vote_recorded su port rq fs r fs'"
  by (simp add: vote_recorded_def security_headers_def Let_def)

text \<open>
  C30. The dashboard writes nothing but checked votes: whatever is requested and whatever the disk
  answers, the files that existed are unchanged, unless the request is a POST from this dashboard's own
  host and origin (or no browser) that votes on a finding of the saved report and does not hide it by an
  up vote; then the log gets exactly that finding's entry after its old ones. A foreign host is refused,
  and every response carries the three security headers.
\<close>

theorem dashboard_guarded: "guarded su port rq fs (serve_request su port rq (fs, c))"
proof (cases "allowed_host port rq")
  case True
  obtain r fs' c' where run: "route su port rq (fs, c) = (r, (fs', c'))" by (metis prod_cases3)
  show ?thesis
    using route_guarded [OF True run] headers_hardened [of r] True
    by (simp add: serve_request_def host_check_def run vote_recorded_headers)
next
  case False
  have "hr_status (security_headers (respond 403 b)) = 403" for b
    by (simp add: security_headers_def respond_def Let_def)
  then show ?thesis using False headers_hardened
    by (simp add: serve_request_def host_check_def nothing_changed_def)
qed

section \<open>Hotspots\<close>

definition findings_in :: "HistoryEntry \<Rightarrow> string \<Rightarrow> nat" where
  "findings_in e file = length (filter (\<lambda>f. f_file f = file) (r_findings (he_report e)))"

text \<open>The reviews that speak of a file: they screened it, or have a finding in it.\<close>

definition speaks_of :: "HistoryEntry \<Rightarrow> string \<Rightarrow> bool" where
  "speaks_of e file \<longleftrightarrow> file \<in> mr_file ` set (r_matrix (he_report e)) \<or> findings_in e file \<noteq> 0"

definition total_findings :: "HistoryEntry list \<Rightarrow> string \<Rightarrow> nat" where
  "total_findings entries file = sum_list (map (\<lambda>e. findings_in e file) entries)"

text \<open>The findings of the latest review that speaks of the file.\<close>

definition latest_findings :: "HistoryEntry list \<Rightarrow> string \<Rightarrow> nat" where
  "latest_findings entries file =
     (case filter (\<lambda>e. speaks_of e file) entries of [] \<Rightarrow> 0 | es \<Rightarrow> findings_in (last es) file)"

definition hotspot_counts :: "Hotspot \<Rightarrow> nat \<times> nat" where
  "hotspot_counts h = (hs_findings h, hs_latest_findings h)"

definition counted :: "nat \<Rightarrow> nat option \<Rightarrow> nat option" where
  "counted n old = (if n = 0 then old else Some ((case old of Some k \<Rightarrow> k | None \<Rightarrow> 0) + n))"

definition tally :: "nat option \<Rightarrow> nat" where
  "tally n = (case n of Some k \<Rightarrow> k | None \<Rightarrow> 0)"

lemma tally_simps [simp]: "tally None = 0" "tally (Some k) = k"
  by (simp_all add: tally_def)

lemma counted_tally: "counted n old = (if n = 0 then old else Some (tally old + n))"
  by (simp add: counted_def tally_def)

definition seen :: "(Hotspot \<Rightarrow> nat) \<Rightarrow> (string \<times> Hotspot) list \<Rightarrow> string \<Rightarrow> nat option" where
  "seen field by_file x = map_option field (map_of by_file x)"

lemma count_finding_maps:
  assumes "count_finding (current, by_file) f = (current', by_file')"
  shows "map_of current' = (map_of current)(f_file f \<mapsto> tally (map_of current (f_file f)) + 1)"
    "seen hs_findings by_file' = (seen hs_findings by_file)(f_file f \<mapsto> tally (seen hs_findings by_file (f_file f)) + 1)"
    "seen hs_latest_findings by_file' =
       (seen hs_latest_findings by_file)(f_file f \<mapsto> tally (seen hs_latest_findings by_file (f_file f)))"
    "ordered_map current \<Longrightarrow> ordered_map current'"
  using assms
  by (auto simp: count_finding_def Let_def tally_def seen_def no_hotspot_def fun_eq_iff split: option.splits if_splits)

lemma count_finding_fold:
  assumes "foldl count_finding (current, by_file) fs = (current', by_file')"
  defines "n \<equiv> \<lambda>x. length (filter (\<lambda>f. f_file f = x) fs)"
  shows "map_of current' x = counted (n x) (map_of current x) \<and>
    seen hs_findings by_file' x = counted (n x) (seen hs_findings by_file x) \<and>
    seen hs_latest_findings by_file' x =
       (if n x = 0 then seen hs_latest_findings by_file x else Some (tally (seen hs_latest_findings by_file x))) \<and>
    (ordered_map current \<longrightarrow> ordered_map current')"
  using assms(1) unfolding n_def
proof (induction fs arbitrary: current by_file)
  case (Cons f fs)
  obtain current1 by1 where step: "count_finding (current, by_file) f = (current1, by1)" by fastforce
  note maps = count_finding_maps [OF step]
  have "foldl count_finding (current1, by1) fs = (current', by_file')" using Cons.prems step by simp
  from Cons.IH [OF this] maps(4) show ?case by (auto simp: maps(1-3) counted_tally)
qed (simp add: counted_def)

lemma latest_word_seen:
  "seen hs_findings (latest_word by_file (k, n)) = seen hs_findings by_file"
  "seen hs_latest_findings (latest_word by_file (k, n)) =
     (if map_of by_file k = None then seen hs_latest_findings by_file
      else (seen hs_latest_findings by_file)(k \<mapsto> n))"
  "(map_of (latest_word by_file (k, n)) x = None) = (map_of by_file x = None)"
  by (auto simp: latest_word_def seen_def fun_eq_iff split: option.splits)

lemma latest_word_fold:
  assumes "distinct (map fst current)"
  shows "seen hs_findings (foldl latest_word by_file current) x = seen hs_findings by_file x \<and>
    seen hs_latest_findings (foldl latest_word by_file current) x =
      (if map_of by_file x = None then None
       else case map_of current x of Some n \<Rightarrow> Some n | None \<Rightarrow> seen hs_latest_findings by_file x)"
  using assms
proof (induction current arbitrary: by_file)
  case Nil
  then show ?case by (simp add: seen_def)
next
  case (Cons entry current)
  obtain k n where entry: "entry = (k, n)" by (cases entry)
  from Cons.prems have fresh: "map_of current k = None" by (auto simp: entry map_of_eq_None_iff)
  show ?case using Cons.IH [of "latest_word by_file entry"] Cons.prems fresh
    by (auto simp: entry latest_word_seen split: option.splits)
qed

lemma screened_files:
  "ordered_map m \<Longrightarrow> ordered_map (foldl (\<lambda>m row. map_insert (mr_file row) (0::nat) m) m rows) \<and>
     map_of (foldl (\<lambda>m row. map_insert (mr_file row) (0::nat) m) m rows) x =
       (if x \<in> mr_file ` set rows then Some 0 else map_of m x)"
  by (induction rows arbitrary: m) auto

lemma hotspot_entry_seen:
  "seen hs_findings (hotspot_entry by_file e) x = counted (findings_in e x) (seen hs_findings by_file x)"
  "seen hs_latest_findings (hotspot_entry by_file e) x =
     (if seen hs_findings (hotspot_entry by_file e) x = None then None
      else if speaks_of e x then Some (findings_in e x) else seen hs_latest_findings by_file x)"
proof -
  let ?rows = "r_matrix (he_report e)"
  obtain current by1 where counted_fs: "foldl count_finding
      (foldl (\<lambda>m row. map_insert (mr_file row) 0 m) [] ?rows, by_file) (r_findings (he_report e)) = (current, by1)"
    by fastforce
  have entry: "hotspot_entry by_file e = foldl latest_word by1 current"
    by (simp add: hotspot_entry_def counted_fs)
  note start = screened_files [of "[]" ?rows]
  note counts = count_finding_fold [OF counted_fs, of x, folded findings_in_def]
  have "distinct (map fst current)" using counts start by (auto intro!: ordered_distinct)
  note word = latest_word_fold [OF this, of by1 x]
  show "seen hs_findings (hotspot_entry by_file e) x = counted (findings_in e x) (seen hs_findings by_file x)"
    using word counts by (simp add: entry)
  show "seen hs_latest_findings (hotspot_entry by_file e) x =
     (if seen hs_findings (hotspot_entry by_file e) x = None then None
      else if speaks_of e x then Some (findings_in e x) else seen hs_latest_findings by_file x)"
    using word counts start
    by (cases "map_of by_file x"; cases "map_of by1 x")
       (auto simp: entry speaks_of_def counted_tally seen_def split: option.splits if_splits)
qed

lemma findings_speak: "findings_in e x \<noteq> 0 \<Longrightarrow> speaks_of e x"
  by (simp add: speaks_of_def)

lemma latest_findings_step:
  "latest_findings (entries @ [e]) x = (if speaks_of e x then findings_in e x else latest_findings entries x)"
  by (cases "filter (\<lambda>e. speaks_of e x) entries") (auto simp: latest_findings_def)

lemma hotspot_map_seen:
  "seen hs_findings (hotspot_map entries) x =
     (if total_findings entries x = 0 then None else Some (total_findings entries x)) \<and>
   seen hs_latest_findings (hotspot_map entries) x =
     (if total_findings entries x = 0 then None else Some (latest_findings entries x))"
proof (induction entries rule: rev_induct)
  case Nil
  then show ?case by (simp add: hotspot_map_def total_findings_def seen_def)
next
  case (snoc e entries)
  have step: "hotspot_map (entries @ [e]) = hotspot_entry (hotspot_map entries) e" by (simp add: hotspot_map_def)
  show ?case
    using snoc.IH findings_speak [of e x]
    by (simp add: step hotspot_entry_seen counted_tally total_findings_def latest_findings_step del: neq0_conv)
qed

lemma hotspot_map_counts:
  "map_option hotspot_counts (map_of (hotspot_map entries) x) =
     (if total_findings entries x = 0 then None else Some (total_findings entries x, latest_findings entries x))"
  using hotspot_map_seen [of entries x]
  by (cases "map_of (hotspot_map entries) x") (auto simp: seen_def hotspot_counts_def split: if_splits)

text \<open>
  C35. The file hotspots of the history, over the saved reviews in order: a file is listed exactly when
  some review had a finding in it, with the number of findings over all reviews; its open findings
  are those of the latest review that screened the file or had a finding in it, so that a review of
  other files does not make them look resolved.
\<close>

theorem hotspots_keep_open_findings:
  "map_option hotspot_counts (map_of (hotspot_map entries) x) =
     (if total_findings entries x = 0 then None else Some (total_findings entries x, latest_findings entries x))"
  by (rule hotspot_map_counts)

end
