(* ===== verification/Client_Setup.thy ===== *)
theory Client_Setup
  imports Service Stores
begin

text \<open>
  How a client comes to be (\<open>TypeSafeClient\<close> of \<open>review/typesafe.rs\<close>, \<open>ResultCache\<close> of
  \<open>adapters/cache.rs\<close>, \<open>client\<close> of \<open>cli/mod.rs\<close>): from the environment, with the switches of the
  command line. Building the HTTP client is a parameter that may fail; what a cache directory holds is
  a parameter too, since opening it does no I/O.
\<close>

section \<open>The cache\<close>

record Storage =
  sg_files :: "string \<Rightarrow> string \<rightharpoonup> json"
  sg_writable :: "string \<Rightarrow> bool"

definition cache_open :: "Storage \<Rightarrow> string \<Rightarrow> ResultCache" where
  "cache_open sg dir =
     \<lparr>rc_dir = Some dir, rc_aliases = Map.empty, rc_files = sg_files sg dir, rc_writable = sg_writable sg dir\<rparr>"

definition cache_disabled :: ResultCache where
  "cache_disabled = \<lparr>rc_dir = None, rc_aliases = Map.empty, rc_files = Map.empty, rc_writable = False\<rparr>"

definition cache_from_env :: "Storage \<Rightarrow> (string \<Rightarrow> string option) \<Rightarrow> ResultCache" where
  "cache_from_env sg env = cache_open sg (env_path env ''MOMUS_CACHE_DIR'' ''reviews/cache'')"

section \<open>The client\<close>

definition from_config :: "unit result \<Rightarrow> nat \<Rightarrow> 'w \<Rightarrow> ClientConfig \<Rightarrow> 'w Client result" where
  "from_config built now w cfg =
     and_then built (\<lambda>_.
       Inr \<lparr>cl_base_url = cc_base_url cfg, cl_model = cc_model cfg, cl_redact = cc_redact cfg,
            cl_usage = \<lparr>um_calls = 0, um_input_tokens = 0, um_output_tokens = 0\<rparr>,
            cl_cache = cache_disabled, cl_limiter = limiter_new CONCURRENCY now, cl_budget = budget_new None,
            cl_hits = 0, cl_misses = 0, cl_redactions = (\<lambda>_. {}), cl_now = now, cl_world = w\<rparr>)"

definition with_budget :: "u64 option \<Rightarrow> 'w Client \<Rightarrow> 'w Client" where
  "with_budget limit c = c\<lparr>cl_budget := budget_new limit\<rparr>"

definition with_concurrency_cap :: "nat \<Rightarrow> 'w Client \<Rightarrow> 'w Client" where
  "with_concurrency_cap cap c = c\<lparr>cl_limiter := limiter_new cap (cl_now c)\<rparr>"

definition with_cache :: "ResultCache \<Rightarrow> 'w Client \<Rightarrow> 'w Client" where
  "with_cache cache c = c\<lparr>cl_cache := cache\<rparr>"

definition without_cache :: "'w Client \<Rightarrow> 'w Client" where
  "without_cache c = with_cache cache_disabled c"

definition without_redaction :: "'w Client \<Rightarrow> 'w Client" where
  "without_redaction c = c\<lparr>cl_redact := False\<rparr>"

definition concurrency_cap :: "(string \<Rightarrow> string option) \<Rightarrow> nat result" where
  "concurrency_cap env =
     (case env ''MOMUS_CONCURRENCY'' of
        Some s \<Rightarrow> if blank s then Inr CONCURRENCY else parse_positive ''MOMUS_CONCURRENCY'' s
      | None \<Rightarrow> Inr CONCURRENCY)"

definition service_from_env ::
  "(string \<Rightarrow> bool) \<Rightarrow> Storage \<Rightarrow> (string \<Rightarrow> string option) \<Rightarrow> unit result \<Rightarrow> nat \<Rightarrow> 'w \<Rightarrow> 'w Client result" where
  "service_from_env is_loopback sg env built now w =
     and_then (from_lookup is_loopback env) (\<lambda>cfg.
     and_then (from_config built now w cfg) (\<lambda>c.
     and_then (concurrency_cap env) (\<lambda>cap.
       Inr (with_concurrency_cap cap (with_cache (cache_from_env sg env) c)))))"

text \<open>\<open>client\<close> of the command line.\<close>

definition cli_client ::
  "(string \<Rightarrow> bool) \<Rightarrow> Storage \<Rightarrow> (string \<Rightarrow> string option) \<Rightarrow> unit result \<Rightarrow> nat \<Rightarrow> 'w \<Rightarrow> bool \<Rightarrow> bool \<Rightarrow> 'w Client result" where
  "cli_client is_loopback sg env built now w no_redact no_cache =
     and_then (service_from_env is_loopback sg env built now w) (\<lambda>c.
       let c = (if no_redact then without_redaction c else c)
       in Inr (if no_cache then without_cache c else c))"

section \<open>A new client is in order\<close>

lemma limiter_new_ok: "l_active (limiter_new cap now) = 0" "1 \<le> l_limit (limiter_new cap now)" "1 \<le> l_cap (limiter_new cap now)"
  by (simp_all add: limiter_new_def)

lemma budget_new_ok: "budget_ok (budget_new limit)"
  by (simp add: budget_ok_def budget_new_def split: option.split)

text \<open>A client as it comes from the environment and the switches.\<close>

definition fresh_client :: "bool \<Rightarrow> bool \<Rightarrow> 'w Client \<Rightarrow> bool" where
  "fresh_client no_redact no_cache c \<longleftrightarrow>
     client_ok c \<and> (no_redact \<longrightarrow> \<not> cl_redact c) \<and> (no_cache \<longleftrightarrow> \<not> cache_enabled (cl_cache c)) \<and>
     um_calls (cl_usage c) = 0 \<and> cb_reserved (cl_budget c) = 0"

lemma service_fresh:
  "service_from_env is_loopback sg env built now w = Inr c \<Longrightarrow> fresh_client False False c"
  by (auto simp: service_from_env_def from_config_def and_then_eq_Inr fresh_client_def client_ok_def limiter_new_def
      with_concurrency_cap_def with_cache_def cache_from_env_def cache_open_def cache_enabled_def budget_new_def budget_ok_def)

lemma fresh_without_redaction: "fresh_client False no_cache c \<Longrightarrow> fresh_client True no_cache (without_redaction c)"
  by (simp add: fresh_client_def without_redaction_def client_ok_def)

lemma fresh_without_cache: "fresh_client no_redact False c \<Longrightarrow> fresh_client no_redact True (without_cache c)"
  by (simp add: fresh_client_def without_cache_def with_cache_def cache_disabled_def cache_enabled_def client_ok_def)

lemma cli_client_fresh:
  assumes "cli_client is_loopback sg env built now w no_redact no_cache = Inr c"
  shows "fresh_client no_redact no_cache c"
proof -
  obtain c' where c': "fresh_client False False c'"
    and c: "c = (let c = (if no_redact then without_redaction c' else c') in if no_cache then without_cache c else c)"
    using assms by (auto simp: cli_client_def and_then_eq_Inr Let_def dest!: service_fresh)
  have "fresh_client no_redact False (if no_redact then without_redaction c' else c')"
    using c' fresh_without_redaction [OF c'] by simp
  from this fresh_without_cache [OF this] show ?thesis by (simp add: c Let_def)
qed

lemma fresh_with_budget: "fresh_client no_redact no_cache c \<Longrightarrow> client_ok (with_budget limit c)"
  by (simp add: fresh_client_def client_ok_def with_budget_def budget_new_ok)

text \<open>
  Secrets are redacted unless the user says otherwise: a client sends texts verbatim only after
  \<open>--no-redact\<close> or an explicit off switch in the environment, and it asks a server that is not local
  only with a key.
\<close>

lemma parse_switch_off:
  "parse_switch name raw = Inr False \<Longrightarrow> map to_ascii_lower (trim raw) \<in> {''0'', ''false'', ''off'', ''no''}"
proof -
  have off: "(if on then Inr True else if off then Inr False else Inl e) = (Inr False :: bool result) \<Longrightarrow> off" for on off e
    by (simp split: if_splits)
  show "parse_switch name raw = Inr False \<Longrightarrow> map to_ascii_lower (trim raw) \<in> {''0'', ''false'', ''off'', ''no''}"
    unfolding parse_switch_def Let_def by (rule off)
qed

lemma if_Inl_eq: "((if b then Inl e else r) = Inr x) = (\<not> b \<and> r = Inr x)"
  by simp

lemma config_redacts:
  assumes "from_lookup is_loopback env = Inr cfg" "\<not> cc_redact cfg"
  shows "\<exists>raw. env ''MOMUS_REDACT'' = Some raw \<and> parse_switch ''MOMUS_REDACT'' raw = Inr False"
proof -
  have "(case (case env ''MOMUS_REDACT'' of Some s \<Rightarrow> if blank s then None else Some s | None \<Rightarrow> None) of
      Some raw \<Rightarrow> parse_switch ''MOMUS_REDACT'' raw | None \<Rightarrow> Inr True) = Inr (cc_redact cfg)"
    using assms(1) unfolding from_lookup_def Let_def if_Inl_eq and_then_eq_Inr sum.inject
    by (elim conjE exE) (hypsubst, simp only: ClientConfig.select_convs)
  then show ?thesis using assms(2) by (cases "env ''MOMUS_REDACT''") (simp_all split: if_splits)
qed

lemma service_redacts:
  "service_from_env is_loopback sg env built now w = Inr c \<Longrightarrow>
     \<exists>cfg. from_lookup is_loopback env = Inr cfg \<and> cl_redact c = cc_redact cfg"
  by (auto simp: service_from_env_def from_config_def and_then_eq_Inr with_concurrency_cap_def with_cache_def)

lemma cli_client_redacts:
  assumes "cli_client is_loopback sg env built now w no_redact no_cache = Inr c" "\<not> cl_redact c"
  shows "no_redact \<or> (\<exists>raw. env ''MOMUS_REDACT'' = Some raw \<and> map to_ascii_lower (trim raw) \<in> {''0'', ''false'', ''off'', ''no''})"
proof (cases no_redact)
  case False
  from assms(1) False obtain c' where c': "service_from_env is_loopback sg env built now w = Inr c'" "cl_redact c = cl_redact c'"
    by (auto simp: cli_client_def and_then_eq_Inr Let_def without_cache_def with_cache_def split: if_splits)
  from service_redacts [OF c'(1)] show ?thesis using config_redacts parse_switch_off assms(2) c'(2) by metis
qed simp

end
