(* ===== verification/Cli_Publish.thy ===== *)
theory Cli_Publish
  imports Approval_Client Client_Setup
begin

text \<open>
  The command \<open>github-review\<close> (\<open>cli/mod.rs\<close>): the saved report is published to its pull request through
  the client of \<open>Github_Client\<close>, and, on an opt-in policy, the approval is decided on the evidence of
  the current head and posted. The state is the files and the requests sent. The answers of the file
  system to the plain writes, the readers of the evidence files and the JSON printer are parameters;
  what is logged is not modelled.
\<close>

datatype exit = Done | Blocked | Failed string | Panicked

text \<open>
  A file of evidence: the error of opening it, the error of reading it, or its bytes; a plain write: the
  error of opening the file, or that of writing after some bytes. \<open>rn_write n\<close> answers the write \<open>n\<close>.
\<close>

record Run =
  rn_env :: "string \<Rightarrow> string option"
  rn_codec :: Codec
  rn_reading :: Reading
  rn_detectors :: Detectors
  rn_report_value :: "ReviewReport \<Rightarrow> string + json"
  rn_pretty :: "json \<Rightarrow> string + string"
  rn_evidence :: "string \<Rightarrow> string + (string + string)"
  rn_policy :: "string \<Rightarrow> string + ApprovalPolicy"
  rn_history :: "string \<Rightarrow> string + OutcomeHistory"
  rn_checks :: "string \<Rightarrow> string + CheckEvidence"
  rn_event :: "string \<Rightarrow> string + string"
  rn_write :: "nat \<Rightarrow> string option \<times> (nat \<times> string) option"

section \<open>Evidence files and artifacts\<close>

definition EVIDENCE_LIMIT :: nat where "EVIDENCE_LIMIT = 20000000"

definition load_json :: "Run \<Rightarrow> (string \<Rightarrow> string + 'a) \<Rightarrow> string \<Rightarrow> string + 'a" where
  "load_json rn parse path =
     (case rn_evidence rn path of
        Inl _ \<Rightarrow> Inl (''open JSON evidence '' @ path)
      | Inr (Inl _) \<Rightarrow> Inl (''read JSON evidence '' @ path)
      | Inr (Inr content) \<Rightarrow>
          let bytes = take (EVIDENCE_LIMIT + 1) content
          in if length bytes > EVIDENCE_LIMIT then Inl (''JSON evidence '' @ path @ '' exceeds 20 MB limit'')
             else (case parse bytes of Inl _ \<Rightarrow> Inl (''parse JSON evidence '' @ path) | Inr v \<Rightarrow> Inr v))"

text \<open>\<open>path.map(load_json).transpose()\<close>\<close>

definition load_optional :: "Run \<Rightarrow> (string \<Rightarrow> string + 'a) \<Rightarrow> string option \<Rightarrow> string + 'a option" where
  "load_optional rn parse path =
     (case path of None \<Rightarrow> Inr None | Some p \<Rightarrow> and_then (load_json rn parse p) (\<lambda>v. Inr (Some v)))"

definition sanitized_text :: "Run \<Rightarrow> ReviewReport \<Rightarrow> string + string" where
  "sanitized_text rn report =
     and_then (rn_report_value rn report) (\<lambda>v. rn_pretty rn (fst (redact_value (rn_detectors rn) v [])))"

definition plain_write ::
  "string option \<times> (nat \<times> string) option \<Rightarrow> string \<Rightarrow> string \<Rightarrow> files \<Rightarrow> (string + unit) \<times> files" where
  "plain_write reply path content fs =
     (case reply of
        (Some e, _) \<Rightarrow> (Inl e, fs)
      | (None, Some (n, e)) \<Rightarrow> (Inl e, fs(path \<mapsto> take n content))
      | (None, None) \<Rightarrow> (Inr (), fs(path \<mapsto> content)))"

text \<open>The write \<open>n\<close> of the sanitized report, to the path if there is one.\<close>

definition write_sanitized_report ::
  "Run \<Rightarrow> nat \<Rightarrow> ReviewReport \<Rightarrow> string option \<Rightarrow> files \<Rightarrow> (string + unit) \<times> files" where
  "write_sanitized_report rn n report path fs =
     (case path of
        None \<Rightarrow> (Inr (), fs)
      | Some p \<Rightarrow>
          (case sanitized_text rn report of
             Inl e \<Rightarrow> (Inl e, fs)
           | Inr content \<Rightarrow> plain_write (rn_write rn n) p content fs))"

section \<open>The approval\<close>

text \<open>The policy, its history and the decision on the evidence of the current head.\<close>

type_synonym approval_run = "ApprovalDecision \<times> ApprovalPolicy \<times> OutcomeHistory option"

definition prepare_approval ::
  "Run \<Rightarrow> Serde \<Rightarrow> world \<Rightarrow> string + nat \<Rightarrow> GitHubClient \<Rightarrow> PullRequest \<Rightarrow> string option \<Rightarrow> string option \<Rightarrow> ReviewReport \<Rightarrow>
    (ReviewReport \<times> approval_run option) call" where
  "prepare_approval rn sd w clock c pr policy_path history_path report =
     (case policy_path of
        None \<Rightarrow> lift_call (Inr (report, None))
      | Some p \<Rightarrow>
          let files = and_then (load_json rn (rn_policy rn) p) (\<lambda>policy.
                and_then (load_optional rn (rn_history rn) history_path) (\<lambda>history. Inr (policy, history)))
          in after_call (lift_call (case files of Inl e \<Rightarrow> Inl (OtherError e) | Inr v \<Rightarrow> Inr v)) (\<lambda>(policy, history).
             after_call (approval_evidence sd w clock c pr report) (\<lambda>checks.
             after_call (lift_call (case assess report history (Some policy) (Some checks) of
                 Inl e \<Rightarrow> Inl (OtherError (assess_error_text e)) | Inr s \<Rightarrow> Inr s)) (\<lambda>summary.
               lift_call (Inr (report\<lparr>r_merge_confidence := Some summary\<rparr>, Some (ms_approval summary, policy, history)))))))"

definition withhold :: "string \<Rightarrow> ReviewReport \<Rightarrow> ReviewReport" where
  "withhold why report =
     report\<lparr>r_merge_confidence := map_option (\<lambda>s. s\<lparr>ms_approval := (ms_approval s)\<lparr>ad_eligible := False,
        ad_reasons := ad_reasons (ms_approval s) @ [why]\<rparr>\<rparr>) (r_merge_confidence report)\<rparr>"

text \<open>After the publication: the report, the error of an approval that was not confirmed, and the requests.\<close>

definition settle_approval ::
  "Serde \<Rightarrow> world \<Rightarrow> string + nat \<Rightarrow> GitHubClient \<Rightarrow> PullRequest \<Rightarrow> bool \<Rightarrow> bool \<Rightarrow> approval_run \<Rightarrow> ReviewReport \<Rightarrow>
    Request list \<Rightarrow> (ReviewReport \<times> api_error option) \<times> Request list" where
  "settle_approval sd w clock c pr dry_run rejected run report sent =
     (case run of (decision, policy, history) \<Rightarrow>
        if ad_eligible decision \<and> \<not> rejected then
          (if dry_run then ((report, None), sent)
           else case approve_current_head sd w clock c pr report policy history sent of
                  (Inr _, sent) \<Rightarrow> ((report, None), sent)
                | (Inl e, sent) \<Rightarrow>
                    ((withhold (''Final approval publication was not confirmed: '' @ show_api_error e) report, Some e), sent))
        else if rejected then
          ((withhold ''GitHub rejected the review submission; automatic approval was withheld.'' report, None), sent)
        else ((report, None), sent))"

section \<open>The command\<close>

definition blocking_report :: "ReviewReport \<Rightarrow> bool" where
  "blocking_report report \<longleftrightarrow> list_ex (\<lambda>f. f_action f = RequestChanges) (r_findings report)"

definition preview :: "PublishOutcome \<Rightarrow> json" where
  "preview outcome =
     obj [(''review'', case out_review outcome of None \<Rightarrow> JNull | Some r \<Rightarrow> review_json r),
          (''summary'', JStr (out_summary outcome))]"

text \<open>The exit and what is printed.\<close>

definition finish_publication ::
  "Run \<Rightarrow> PublishOptions \<Rightarrow> bool \<Rightarrow> ReviewReport \<Rightarrow> PublishOutcome \<Rightarrow> api_error option \<Rightarrow> exit \<times> string list" where
  "finish_publication rn options fail_on_blocking report outcome unconfirmed =
     (case (if op_dry_run options then and_then (rn_pretty rn (preview outcome)) (\<lambda>t. Inr [t]) else Inr []) of
        Inl e \<Rightarrow> (Failed e, [])
      | Inr out \<Rightarrow>
          (case unconfirmed of
             Some _ \<Rightarrow> Failed ''review publication completed; automatic approval was not confirmed''
           | None \<Rightarrow> if fail_on_blocking \<and> blocking_report report then Blocked else Done, out))"

definition comment_text :: "Run \<Rightarrow> string \<Rightarrow> string" where
  "comment_text rn t = fst (redact (rn_detectors rn) t [])"

definition publish_report ::
  "Run \<Rightarrow> Serde \<Rightarrow> world \<Rightarrow> (nat \<Rightarrow> string + nat) \<Rightarrow> GitHubClient \<Rightarrow> PullRequest \<Rightarrow> string option \<Rightarrow> PublishOptions \<Rightarrow> bool \<Rightarrow>
    string option \<Rightarrow> string option \<Rightarrow> ReviewReport \<Rightarrow> files \<Rightarrow> (exit \<times> string list) \<times> files \<times> Request list" where
  "publish_report rn sd w clock c pr sanitized options fail_on_blocking policy_path history_path report fs =
     (case prepare_approval rn sd w (clock 0) c pr policy_path history_path report [] of
        (Inl e, sent) \<Rightarrow> ((Failed (show_api_error e), []), fs, sent)
      | (Inr (report, opted), sent) \<Rightarrow>
          (case (if opted = None then (Inr (), fs) else write_sanitized_report rn 1 report sanitized fs) of
             (Inl e, fs) \<Rightarrow> ((Failed e, []), fs, sent)
           | (Inr _, fs) \<Rightarrow>
               (case publish (comment_text rn) (github_api sd w c pr) (pl_head_sha pr) report options sent of
                  (Inl e, sent) \<Rightarrow> ((Failed (show_api_error e), []), fs, sent)
                | (Inr outcome, sent) \<Rightarrow>
                    (case (case opted of
                             None \<Rightarrow> ((report, None), sent)
                           | Some run \<Rightarrow> settle_approval sd w (clock 1) c pr (op_dry_run options)
                               (out_review_rejected outcome) run report sent) of
                       ((report, unconfirmed), sent) \<Rightarrow>
                         (case (if opted = None then (Inr (), fs) else write_sanitized_report rn 2 report sanitized fs) of
                            (Inl e, fs) \<Rightarrow> ((Failed e, []), fs, sent)
                          | (Inr _, fs) \<Rightarrow>
                              (finish_publication rn options fail_on_blocking report outcome unconfirmed, fs, sent))))))"

definition github_review ::
  "Run \<Rightarrow> Serde \<Rightarrow> world \<Rightarrow> (nat \<Rightarrow> string + nat) \<Rightarrow> string + unit \<Rightarrow> string option \<Rightarrow> string option \<Rightarrow> PublishOptions \<Rightarrow> bool \<Rightarrow>
    string option \<Rightarrow> string option \<Rightarrow> files \<Rightarrow> (exit \<times> string list) \<times> files \<times> Request list" where
  "github_review rn sd w clock built report_arg sanitized options fail_on_blocking policy_path history_path fs =
     (let path = (case report_arg of Some p \<Rightarrow> p | None \<Rightarrow> report_path (rn_env rn))
      in case read_report (rn_codec rn) (rn_reading rn) fs path of
           StoredEmpty \<Rightarrow>
             ((Failed (''no report at '' @ path @ '' (run '' @ [CHR 0x60] @ ''momus review'' @ [CHR 0x60] @ '' first)''), []), fs, [])
         | StoredError e \<Rightarrow> ((Failed (path @ '': '' @ e), []), fs, [])
         | StoredOk _ report \<Rightarrow>
             if r_shard report \<noteq> None
             then ((Failed ''partial shard reports must be merged before publication'', []), fs, [])
             else
               (case write_sanitized_report rn 0 report sanitized fs of
                  (Inl e, fs) \<Rightarrow> ((Failed e, []), fs, [])
                | (Inr _, fs) \<Rightarrow>
                    (case and_then (pull_request_from_env sd (rn_env rn) (rn_event rn)) (\<lambda>pr.
                          and_then (client_from_env built (rn_env rn)) (\<lambda>c. Inr (pr, c))) of
                       Inl e \<Rightarrow> ((Failed e, []), fs, [])
                     | Inr (pr, c) \<Rightarrow>
                         publish_report rn sd w clock c pr sanitized options fail_on_blocking policy_path history_path
                           report fs)))"

section \<open>What is sent\<close>

text \<open>All requests that a call sends, whatever it returns, have a property.\<close>

definition sends :: "(Request \<Rightarrow> bool) \<Rightarrow> 'a call \<Rightarrow> bool" where
  "sends P m \<longleftrightarrow> (\<forall>s. \<exists>rqs. snd (m s) = s @ rqs \<and> list_all P rqs)"

lemma read_only_sends:
  assumes "read_only m" "\<And>rq. rq_method rq = GET \<Longrightarrow> P rq"
  shows "sends P m"
  unfolding sends_def
proof
  fix s
  obtain rqs where "snd (m s) = s @ rqs" "list_all (\<lambda>rq. rq_method rq = GET) rqs"
    using assms(1) unfolding read_only_def by blast
  then show "\<exists>rqs. snd (m s) = s @ rqs \<and> list_all P rqs" using assms(2) by (auto simp: list_all_iff)
qed

lemma send_json_sends: "P (authorized c ((plain_request m url)\<lparr>rq_body := Some body\<rparr>)) \<Longrightarrow> sends P (send_json sd w c m url body)"
  by (auto simp: sends_def send_json_def after_call_def Github_Client.send_def lift_call_def Let_def split: prod.splits sum.splits)

lemma sends_trans:
  "sends P m \<Longrightarrow> \<exists>rqs. s = sent @ rqs \<and> list_all P rqs \<Longrightarrow> \<exists>rqs. snd (m s) = sent @ rqs \<and> list_all P rqs"
  unfolding sends_def by (metis append.assoc list_all_append)

text \<open>A review that comments or requests changes on the reviewed head; the summary comment.\<close>

definition comment_review :: "GitHubClient \<Rightarrow> PullRequest \<Rightarrow> Request \<Rightarrow> bool" where
  "comment_review c pr rq \<longleftrightarrow>
     (\<exists>r. nr_commit_id r = pl_head_sha pr \<and> nr_event r \<in> {''COMMENT'', ''REQUEST_CHANGES''} \<and>
        rq = authorized c ((plain_request POST (repo_url c pr (''pulls/'' @ show_nat (pl_number pr) @ ''/reviews'')))
          \<lparr>rq_body := Some (review_json r)\<rparr>))"

definition summary_write :: "GitHubClient \<Rightarrow> PullRequest \<Rightarrow> Request \<Rightarrow> bool" where
  "summary_write c pr rq \<longleftrightarrow>
     (\<exists>t m url. (m = POST \<and> url = repo_url c pr (''issues/'' @ show_nat (pl_number pr) @ ''/comments'') \<or>
         m = PATCH \<and> (\<exists>i. url = repo_url c pr (''issues/comments/'' @ show_nat i))) \<and>
        rq = authorized c ((plain_request m url)\<lparr>rq_body := Some (obj [(''body'', JStr t)])\<rparr>))"

definition publishing :: "GitHubClient \<Rightarrow> PullRequest \<Rightarrow> bool \<Rightarrow> Request \<Rightarrow> bool" where
  "publishing c pr dry_run rq \<longleftrightarrow>
     rq_method rq = GET \<or> \<not> dry_run \<and> (comment_review c pr rq \<or> summary_write c pr rq)"

lemma publishing_writes:
  "sends (publishing c pr False) (create_review sd w c pr (new_review (pl_head_sha pr) options p))"
  "sends (publishing c pr False) (update_issue_comment sd w c pr i t)"
  "sends (publishing c pr False) (create_issue_comment sd w c pr t)"
proof -
  show "sends (publishing c pr False) (create_review sd w c pr (new_review (pl_head_sha pr) options p))"
    unfolding create_review_def
    by (intro send_json_sends)
      (auto simp: publishing_def comment_review_def new_review_def Let_def
        intro!: exI [of _ "new_review (pl_head_sha pr) options p"])
  show "sends (publishing c pr False) (update_issue_comment sd w c pr i t)"
    unfolding update_issue_comment_def
    by (intro send_json_sends) (unfold publishing_def summary_write_def, blast)
  show "sends (publishing c pr False) (create_issue_comment sd w c pr t)"
    unfolding create_issue_comment_def
    by (intro send_json_sends) (unfold publishing_def summary_write_def, blast)
qed

lemma publish_sends: "sends (publishing c pr (op_dry_run options)) (publish red (github_api sd w c pr) (pl_head_sha pr) report options)"
  unfolding sends_def
proof
  let ?P = "publishing c pr (op_dry_run options)" and ?api = "github_api sd w c pr"
  have reads: "sends ?P m" if "read_only m" for m :: "'b call"
    by (rule read_only_sends [OF that]) (simp add: publishing_def)
  fix s
  show "\<exists>rqs. snd (publish red ?api (pl_head_sha pr) report options s) = s @ rqs \<and> list_all ?P rqs"
  proof (rule publish_steps)
    show "\<exists>rqs. s = s @ rqs \<and> list_all ?P rqs" by simp
  next
    fix t assume t: "\<exists>rqs. t = s @ rqs \<and> list_all ?P rqs"
    show "\<exists>rqs. snd (api_pull_files ?api t) = s @ rqs \<and> list_all ?P rqs"
      "\<exists>rqs. snd (api_review_comments ?api t) = s @ rqs \<and> list_all ?P rqs"
      "\<exists>rqs. snd (api_issue_comments ?api t) = s @ rqs \<and> list_all ?P rqs"
      unfolding github_api_def Api.select_convs
      by (rule sends_trans [OF _ t], rule read_only_sends,
          (rule read_only_pull_files read_only_comments), simp add: publishing_def)+
    assume wet: "\<not> op_dry_run options"
    then have P: "?P = publishing c pr False" by simp
    show "\<exists>rqs. snd (api_create_review ?api (new_review (pl_head_sha pr) options p) t) = s @ rqs \<and> list_all ?P rqs"
      "\<exists>rqs. snd (api_update_comment ?api i b t) = s @ rqs \<and> list_all ?P rqs"
      "\<exists>rqs. snd (api_create_comment ?api b t) = s @ rqs \<and> list_all ?P rqs" for p i b
      unfolding P github_api_def Api.select_convs
      by (rule sends_trans [OF _ t [unfolded P]], rule publishing_writes)+
  qed
qed

section \<open>When the approval is sent\<close>

lemma approving_distinct: "\<not> publishing c pr dry_run (approving_request c pr)"
proof -
  have event: "json_get ''event'' (review_json r) = Some (JStr (nr_event r))" for r
    by (simp add: review_json_def json_get_obj)
  have approve: "json_get ''event'' (review_json (approving_review pr)) = Some (JStr ''APPROVE'')"
    unfolding event by (simp add: approving_review_def)
  have "nr_event r \<notin> {''COMMENT'', ''REQUEST_CHANGES''}" if "review_json (approving_review pr) = review_json r" for r
    using event [of r] approve unfolding that by auto
  moreover have "review_json (approving_review pr) \<noteq> obj [(''body'', JStr t)]" for t
    using approve by (auto simp: json_get_obj)
  ultimately show ?thesis
    unfolding publishing_def comment_review_def summary_write_def approving_request_def
    by (auto simp: authorized_def plain_request_def)
qed

lemma prepare_reads: "read_only (prepare_approval rn sd w clock c pr policy_path history_path report)"
  unfolding prepare_approval_def Let_def
  by (auto split: option.split prod.split intro!: read_only_intros read_only_approval_evidence)

lemma error_lifted: "((case r of Inl e \<Rightarrow> Inl (f e) | Inr v \<Rightarrow> Inr v) = Inr x) = (r = Inr x)"
  by (cases r) simp_all

lemma prepare_opted:
  "prepare_approval rn sd w clock c pr policy_path history_path report s = (Inr (report', opted), t) \<Longrightarrow>
     r_findings report' = r_findings report \<and>
     (case opted of None \<Rightarrow> True
      | Some (decision, policy, history) \<Rightarrow> \<exists>p. policy_path = Some p \<and> load_json rn (rn_policy rn) p = Inr policy)"
  by (cases policy_path)
    (auto simp: prepare_approval_def Let_def call_simps and_then_eq_Inr error_lifted)

text \<open>Either an approval only reads, or its gate was passed on fresh evidence and its review comes last.\<close>

definition gated_approval ::
  "Serde \<Rightarrow> world \<Rightarrow> string + nat \<Rightarrow> GitHubClient \<Rightarrow> PullRequest \<Rightarrow> ApprovalPolicy \<Rightarrow> Request list \<Rightarrow> bool" where
  "gated_approval sd w clock c pr policy sent \<longleftrightarrow>
     (\<exists>report history before reads.
        approval_gate sd w clock c pr report policy history before = (Inr (), reads) \<and> sent = reads @ [approving_request c pr])"

lemma approve_sends:
  assumes "approve_current_head sd w clock c pr report policy history s = (r, t)"
  obtains (reads) rqs where "t = s @ rqs" "list_all (\<lambda>rq. rq_method rq = GET) rqs"
  | (approved) rqs where "t = s @ rqs @ [approving_request c pr]" "list_all (\<lambda>rq. rq_method rq = GET) rqs"
      "gated_approval sd w clock c pr policy t"
proof -
  obtain g u where gate: "approval_gate sd w clock c pr report policy history s = (g, u)" by fastforce
  obtain rqs where rqs: "u = s @ rqs" "list_all (\<lambda>rq. rq_method rq = GET) rqs"
    using approval_gate_reads gate unfolding read_only_def by (metis snd_conv)
  show thesis
  proof (cases g)
    case (Inl e)
    with gate assms have "t = u" by (simp add: approve_gate after_call_def)
    with rqs reads show thesis by blast
  next
    case (Inr v)
    then have "t = snd (create_review sd w c pr (approving_review pr) u)"
      using gate assms by (simp add: approve_gate after_call_def)
    then have t: "t = u @ [approving_request c pr]" by (simp add: create_review_sends)
    then have "gated_approval sd w clock c pr policy t"
      using gate Inr unfolding gated_approval_def by (cases v) blast
    with t rqs approved show thesis by simp
  qed
qed

text \<open>
  Every request reads, or publishes outside a dry run; an approval is sent at most once, as the last
  request, on a loaded opt-in policy, and after its gate was passed on fresh evidence.
\<close>

definition sent_safely ::
  "Run \<Rightarrow> Serde \<Rightarrow> world \<Rightarrow> string + nat \<Rightarrow> GitHubClient \<Rightarrow> PullRequest \<Rightarrow> bool \<Rightarrow> string option \<Rightarrow> Request list \<Rightarrow> bool" where
  "sent_safely rn sd w clock c pr dry_run policy_path sent \<longleftrightarrow>
     list_all (publishing c pr dry_run) sent \<and> approving_request c pr \<notin> set sent \<or>
     (\<exists>rqs p policy. sent = rqs @ [approving_request c pr] \<and> list_all (publishing c pr dry_run) rqs \<and>
        approving_request c pr \<notin> set rqs \<and> \<not> dry_run \<and> policy_path = Some p \<and>
        load_json rn (rn_policy rn) p = Inr policy \<and> gated_approval sd w clock c pr policy sent)"

lemma publishing_safely:
  "list_all (publishing c pr dry_run) sent \<Longrightarrow> sent_safely rn sd w clock c pr dry_run policy_path sent"
  using approving_distinct by (auto simp: sent_safely_def list_all_iff)

lemma reads_publish: "list_all (\<lambda>rq. rq_method rq = GET) rqs \<Longrightarrow> list_all (publishing c pr dry_run) rqs"
  by (auto simp: list_all_iff publishing_def)

lemma settle_safely:
  assumes settle: "settle_approval sd w clock c pr dry_run rejected (decision, policy, history) report s = ((report', e), t)"
    and s: "list_all (publishing c pr dry_run) s"
    and policy: "policy_path = Some p" "load_json rn (rn_policy rn) p = Inr policy"
  shows "sent_safely rn sd w clock c pr dry_run policy_path t \<and> r_findings report' = r_findings report"
proof (cases "ad_eligible decision \<and> \<not> rejected \<and> \<not> dry_run")
  case False
  then have "t = s \<and> r_findings report' = r_findings report"
    using settle by (auto simp: settle_approval_def withhold_def split: if_splits)
  with publishing_safely [OF s] show ?thesis by simp
next
  case True
  obtain r u where approve: "approve_current_head sd w clock c pr report policy history s = (r, u)" by fastforce
  have out: "t = u" "r_findings report' = r_findings report"
    using settle True approve by (auto simp: settle_approval_def withhold_def split: sum.splits)
  show ?thesis
  proof (rule approve_sends [OF approve])
    fix rqs assume "u = s @ rqs" "list_all (\<lambda>rq. rq_method rq = GET) rqs"
    with s out show ?thesis by (simp add: publishing_safely reads_publish)
  next
    fix rqs assume rqs: "u = s @ rqs @ [approving_request c pr]" "list_all (\<lambda>rq. rq_method rq = GET) rqs"
      "gated_approval sd w clock c pr policy u"
    have "list_all (publishing c pr dry_run) (s @ rqs)" using s reads_publish [OF rqs(2)] by simp
    moreover from this have "approving_request c pr \<notin> set (s @ rqs)"
      using approving_distinct by (auto simp: list_all_iff)
    ultimately have "sent_safely rn sd w clock c pr dry_run policy_path u"
      unfolding sent_safely_def using True rqs policy by (intro disjI2 exI [of _ "s @ rqs"] exI [of _ p] exI [of _ policy]) simp
    with out show ?thesis by simp
  qed
qed

text \<open>On the disk only the sanitized report changes, to the beginning of a redacted text.\<close>

definition only_sanitized :: "Run \<Rightarrow> string option \<Rightarrow> files \<Rightarrow> files \<Rightarrow> bool" where
  "only_sanitized rn sanitized fs fs' \<longleftrightarrow>
     (\<forall>p. fs' p = fs p \<or> sanitized = Some p \<and>
        (\<exists>report content n. sanitized_text rn report = Inr content \<and> fs' p = Some (take n content)))"

lemma only_sanitized_refl [simp]: "only_sanitized rn sanitized fs fs"
  by (simp add: only_sanitized_def)

lemma only_sanitized_trans:
  "only_sanitized rn sanitized a b \<Longrightarrow> only_sanitized rn sanitized b c \<Longrightarrow> only_sanitized rn sanitized a c"
  unfolding only_sanitized_def by metis

lemma write_sanitized_only:
  assumes "write_sanitized_report rn n report sanitized fs = (r, fs')"
  shows "only_sanitized rn sanitized fs fs'"
proof (cases sanitized)
  case None
  with assms show ?thesis by (simp add: write_sanitized_report_def)
next
  case (Some p)
  show ?thesis
  proof (cases "sanitized_text rn report")
    case (Inl e)
    with Some assms show ?thesis by (simp add: write_sanitized_report_def)
  next
    case (Inr content)
    obtain a b where answer: "rn_write rn n = (a, b)" by fastforce
    have "fs' = fs \<or> (\<exists>k. fs' = fs(p \<mapsto> take k content))"
      using assms Some Inr answer take_all [of content "length content"]
      by (auto simp: write_sanitized_report_def plain_write_def split: option.splits) (metis take_all order_refl)
    then show ?thesis unfolding only_sanitized_def Some using Inr by (metis fun_upd_apply)
  qed
qed

lemma if_written:
  "(if b then (Inr (), fs) else write_sanitized_report rn n report sanitized fs) = (r, fs') \<Longrightarrow> only_sanitized rn sanitized fs fs'"
  using write_sanitized_only by (cases b) auto

text \<open>The exit: a run that does not fail published the saved report, and blocks exactly when asked to.\<close>

definition exit_contract :: "bool \<Rightarrow> ReviewReport \<Rightarrow> exit \<Rightarrow> bool" where
  "exit_contract fail_on_blocking report e \<longleftrightarrow>
     (e = Blocked \<longrightarrow> fail_on_blocking \<and> blocking_report report) \<and>
     (e = Done \<longrightarrow> \<not> (fail_on_blocking \<and> blocking_report report))"

lemma exit_contract_failed [simp]: "exit_contract fail_on_blocking report (Failed e)"
  by (simp add: exit_contract_def)

lemma finish_exit:
  "r_findings report' = r_findings report \<Longrightarrow>
     exit_contract fail_on_blocking report (fst (finish_publication rn options fail_on_blocking report' outcome unconfirmed))"
  by (auto simp: finish_publication_def exit_contract_def blocking_report_def split: sum.splits option.splits)

lemma publish_report_safely:
  assumes "publish_report rn sd w clock c pr sanitized options fail_on_blocking policy_path history_path report fs = ((e, out), fs', sent)"
  shows "sent_safely rn sd w (clock 1) c pr (op_dry_run options) policy_path sent \<and>
    only_sanitized rn sanitized fs fs' \<and> exit_contract fail_on_blocking report e"
proof -
  let ?P = "publishing c pr (op_dry_run options)"
  obtain a s1 where prep: "prepare_approval rn sd w (clock 0) c pr policy_path history_path report [] = (a, s1)" by fastforce
  have s1: "list_all ?P s1"
    using prepare_reads [of rn sd w "clock 0" c pr policy_path history_path report] prep reads_publish
    unfolding read_only_def by (metis append_Nil snd_conv)
  show ?thesis
  proof (cases a)
    case (Inl x)
    then show ?thesis using assms prep s1 by (auto simp: publish_report_def publishing_safely)
  next
    case (Inr x)
    obtain report1 opted where x: "x = (report1, opted)" by fastforce
    have report1: "r_findings report1 = r_findings report"
      using prepare_opted prep Inr x by (metis (no_types, lifting))
    obtain b fs1 where art: "(if opted = None then (Inr (), fs) else write_sanitized_report rn 1 report1 sanitized fs) = (b, fs1)"
      by fastforce
    note fs1 = if_written [OF art]
    show ?thesis
    proof (cases b)
      case (Inl m)
      then show ?thesis using assms prep Inr x art s1 fs1 by (auto simp: publish_report_def publishing_safely split del: if_split)
    next
      case b: (Inr m)
      obtain o1 s2 where pub: "publish (comment_text rn) (github_api sd w c pr) (pl_head_sha pr) report1 options s1 = (o1, s2)"
        by fastforce
      have s2: "list_all ?P s2"
        using publish_sends [of c pr options "comment_text rn" sd w report1] s1 pub
        unfolding sends_def by (metis list_all_append snd_conv)
      show ?thesis
      proof (cases o1)
        case (Inl m)
        then show ?thesis using assms prep Inr x art b pub s2 fs1
          by (auto simp: publish_report_def publishing_safely split del: if_split)
      next
        case o1: (Inr outcome)
        obtain report2 un s3 where settle: "(case opted of None \<Rightarrow> ((report1, None), s2)
            | Some run \<Rightarrow> settle_approval sd w (clock 1) c pr (op_dry_run options) (out_review_rejected outcome) run report1 s2) =
            ((report2, un), s3)" by (metis prod.exhaust)
        have safe: "sent_safely rn sd w (clock 1) c pr (op_dry_run options) policy_path s3 \<and> r_findings report2 = r_findings report1"
        proof (cases opted)
          case None
          with settle s2 show ?thesis by (simp add: publishing_safely)
        next
          case (Some run)
          obtain decision policy history where run: "run = (decision, policy, history)" by (cases run)
          obtain p where "policy_path = Some p" "load_json rn (rn_policy rn) p = Inr policy"
            using prepare_opted [OF prep [unfolded Inr x]] Some run by auto
          then show ?thesis using settle_safely [OF _ s2] settle Some run by auto
        qed
        obtain d fs2 where art2: "(if opted = None then (Inr (), fs1) else write_sanitized_report rn 2 report2 sanitized fs1) = (d, fs2)"
          by fastforce
        have "fs' = fs2 \<and> sent = s3 \<and> (\<exists>m. e = Failed m) \<or>
            fs' = fs2 \<and> sent = s3 \<and> e = fst (finish_publication rn options fail_on_blocking report2 outcome un)"
          using assms prep Inr x art b pub o1 settle art2
          by (cases d) (auto simp: publish_report_def split del: if_split)
        then show ?thesis
          using safe only_sanitized_trans [OF fs1 if_written [OF art2]] finish_exit [of report2 report] report1 by auto
      qed
    qed
  qed
qed

text \<open>What a run of the command may do; it failed without a request unless the environment names a pull
  request and a client.\<close>

fun published_safely ::
  "Run \<Rightarrow> Serde \<Rightarrow> world \<Rightarrow> (nat \<Rightarrow> string + nat) \<Rightarrow> string + unit \<Rightarrow> string option \<Rightarrow> string option \<Rightarrow> PublishOptions \<Rightarrow> bool \<Rightarrow>
    string option \<Rightarrow> files \<Rightarrow> (exit \<times> string list) \<times> files \<times> Request list \<Rightarrow> bool" where
  "published_safely rn sd w clock built report_arg sanitized options fail_on_blocking policy_path fs ((e, out), fs', sent) \<longleftrightarrow>
     only_sanitized rn sanitized fs fs' \<and>
     ((\<exists>m. e = Failed m) \<and> sent = [] \<or>
      (\<exists>path saved_at report pr c.
         path = (case report_arg of Some p \<Rightarrow> p | None \<Rightarrow> report_path (rn_env rn)) \<and>
         read_report (rn_codec rn) (rn_reading rn) fs path = StoredOk saved_at report \<and> r_shard report = None \<and>
         pull_request_from_env sd (rn_env rn) (rn_event rn) = Inr pr \<and> client_from_env built (rn_env rn) = Inr c \<and>
         sent_safely rn sd w (clock 1) c pr (op_dry_run options) policy_path sent \<and>
         exit_contract fail_on_blocking report e))"

lemma github_review_safely:
  "published_safely rn sd w clock built report_arg sanitized options fail_on_blocking policy_path fs
     (github_review rn sd w clock built report_arg sanitized options fail_on_blocking policy_path history_path fs)"
proof -
  let ?path = "case report_arg of Some p \<Rightarrow> p | None \<Rightarrow> report_path (rn_env rn)"
  obtain e out fs' sent where run: "github_review rn sd w clock built report_arg sanitized options fail_on_blocking
      policy_path history_path fs = ((e, out), fs', sent)" by (metis prod.exhaust)
  show ?thesis
  proof (cases "\<exists>saved_at report. read_report (rn_codec rn) (rn_reading rn) fs ?path = StoredOk saved_at report \<and> r_shard report = None")
    case False
    then show ?thesis using run by (auto simp: github_review_def Let_def split: StoredReport.splits if_splits)
  next
    case True
    then obtain saved_at report where report: "read_report (rn_codec rn) (rn_reading rn) fs ?path = StoredOk saved_at report"
      "r_shard report = None" by blast
    obtain a fs1 where art: "write_sanitized_report rn 0 report sanitized fs = (a, fs1)" by fastforce
    note fs1 = write_sanitized_only [OF art]
    show ?thesis
    proof (cases "\<exists>m pr c. a = Inr m \<and> pull_request_from_env sd (rn_env rn) (rn_event rn) = Inr pr \<and> client_from_env built (rn_env rn) = Inr c")
      case False
      then have "(\<exists>m. e = Failed m) \<and> fs' = fs1 \<and> sent = []"
        using run report art by (auto simp: github_review_def and_then_def Let_def split: sum.splits)
      with fs1 run show ?thesis by simp
    next
      case True
      then obtain m pr c where ok: "a = Inr m" "pull_request_from_env sd (rn_env rn) (rn_event rn) = Inr pr"
        "client_from_env built (rn_env rn) = Inr c" by blast
      then have "publish_report rn sd w clock c pr sanitized options fail_on_blocking policy_path history_path report fs1 =
          ((e, out), fs', sent)"
        using run report art by (simp add: github_review_def and_then_def Let_def)
      from publish_report_safely [OF this] only_sanitized_trans [OF fs1] show ?thesis
        using run report ok by (auto simp del: fun_upd_apply)
    qed
  qed
qed

text \<open>
  C25. \<open>github-review\<close>, whatever GitHub answers and however it changes between the requests: every
  request reads, or comments the reviewed head or writes the summary outside a dry run; an approval is
  sent at most once, as the last request, never in a dry run, only on a loaded opt-in policy and after
  the gate on fresh evidence was passed. A partial shard is not published. On the disk only the
  sanitized report is written, with redacted text. The exit is the blocking one exactly when asked to and
  the saved report blocks.
\<close>

theorem github_review_safe:
  "published_safely rn sd w clock built report_arg sanitized options fail_on_blocking policy_path fs
     (github_review rn sd w clock built report_arg sanitized options fail_on_blocking policy_path history_path fs)"
  by (rule github_review_safely)

end
