(* ===== verification/Cli.thy ===== *)
theory Cli
  imports Cli_Publish Strategies Shard_Merge Auxiliary Sarif Tour
begin

text \<open>
  The commands (\<open>cli/mod.rs\<close>): the options of a run, the identity of what was reviewed, the files that a
  finished run leaves, and the commands that put the components together. What surrounds the process is
  the record \<open>Host\<close>: the readers and printers of JSON, the answers of git before and after the run, of
  the file system to each write, of the clocks, and the environment. The command line parser and what is
  logged are not modelled.
\<close>

section \<open>The host\<close>

record 'w Host =
  ho_run :: Run
  ho_before :: Checkout
  ho_after :: Checkout
  ho_saved :: Checkout
  ho_system :: "nat \<Rightarrow> System"
  ho_removal :: "string \<Rightarrow> string option"
  ho_absolute :: "string \<Rightarrow> string + string"
  ho_exclude :: "string list \<Rightarrow> string + (string \<Rightarrow> bool)"
  ho_spec_stat :: "string \<Rightarrow> bool result"
  ho_spec_read :: "string \<Rightarrow> nat \<Rightarrow> (bool \<times> string) result"
  ho_spec_digest :: "string \<Rightarrow> string"
  ho_elapsed :: nat
  ho_manifests :: ManifestTools
  ho_patterns :: DocPatterns
  ho_surroundings :: Surroundings
  ho_tools :: IndexTools
  ho_index :: IndexStore
  ho_context_budget :: "string option"
  ho_ask :: "'w Client service"
  ho_loopback :: "string \<Rightarrow> bool"
  ho_storage :: Storage
  ho_built :: "unit result"
  ho_now :: nat
  ho_world :: 'w
  ho_config_value :: "ConfigSnapshot \<Rightarrow> json"
  ho_summary_value :: "MergeConfidenceSummary \<Rightarrow> string + json"
  ho_tour_value :: "Tour \<Rightarrow> string + json"
  ho_tour_back :: "json \<Rightarrow> string + Tour"
  ho_not_found :: string
  ho_serde :: Serde
  ho_github :: world
  ho_github_clock :: "nat \<Rightarrow> string + nat"
  ho_github_built :: "string + unit"
  ho_serve :: "nat \<Rightarrow> exit"

definition ok_value :: "string + 'a \<Rightarrow> 'a option" where
  "ok_value r = (case r of Inl _ \<Rightarrow> None | Inr x \<Rightarrow> Some x)"

definition of_git :: "string + 'a \<Rightarrow> 'a result" where
  "of_git r = (case r of Inl e \<Rightarrow> Inl (Msg e) | Inr x \<Rightarrow> Inr x)"

definition as_text :: "'a result \<Rightarrow> string + 'a" where
  "as_text r = (case r of Inl e \<Rightarrow> Inl (error_text e) | Inr x \<Rightarrow> Inr x)"

text \<open>\<open>map(f).collect::<Result<Vec<_>>>()\<close>\<close>

fun try_map :: "('a \<Rightarrow> string + 'b) \<Rightarrow> 'a list \<Rightarrow> string + 'b list" where
  "try_map f [] = Inr []"
| "try_map f (x # xs) = and_then (f x) (\<lambda>y. and_then (try_map f xs) (\<lambda>ys. Inr (y # ys)))"

section \<open>Options\<close>

record RobustnessArgs =
  ra_test_plans :: bool
  ra_spec :: "string list"
  ra_follow_up_strategy :: FollowUpStrategy
  ra_threshold :: "(Dimension \<times> f64) list"

fun add_overrides :: "(Dimension \<times> f64) list \<Rightarrow> Probabilities \<Rightarrow> string + Probabilities" where
  "add_overrides [] overrides = Inr overrides"
| "add_overrides ((d, t) # rest) overrides =
     (if overrides d \<noteq> None then Inl (''duplicate threshold override for '' @ dimension_key d)
      else add_overrides rest (overrides(d \<mapsto> t)))"

definition robustness_apply ::
  "(string list \<Rightarrow> SpecInputs result) \<Rightarrow> RobustnessArgs \<Rightarrow> ReviewOptions \<Rightarrow> string + ReviewOptions" where
  "robustness_apply load args opts =
     (if ro_shard opts \<noteq> None \<and> (ra_test_plans args \<or> ra_spec args \<noteq> [] \<or> ra_follow_up_strategy args \<noteq> Probability)
      then Inl ''--shard cannot use --test-plans, --spec or VOI: these require a global review''
      else if ro_tiered opts \<and> ra_spec args \<noteq> []
      then Inl ''--spec cannot use --tiered: dismissed files would escape requirement checks''
      else
        and_then (add_overrides (ra_threshold args) (ro_threshold_overrides opts)) (\<lambda>overrides.
          let opts = opts\<lparr>ro_threshold_overrides := overrides, ro_test_plans := ra_test_plans args,
                ro_follow_up_strategy := ra_follow_up_strategy args\<rparr>
          in if ra_spec args = [] then Inr opts
             else and_then (as_text (load (ra_spec args))) (\<lambda>specs. Inr (opts\<lparr>ro_specs := Some specs\<rparr>))))"

text \<open>\<open>options\<close>: an unreadable feedback log is ignored.\<close>

definition cli_options :: "Run \<Rightarrow> files \<Rightarrow> nat option \<Rightarrow> bool \<Rightarrow> bool \<Rightarrow> bool \<Rightarrow> ReviewOptions" where
  "cli_options rn fs max_follow_ups no_refine allow_empty tiered =
     (let feedback = (case read_feedback (rn_codec rn) (rn_reading rn) fs (feedback_path (rn_env rn)) of
            Inr vlog \<Rightarrow> vlog | Inl _ \<Rightarrow> \<lparr>fl_entries = []\<rparr>)
      in Workflow.default_options\<lparr>ro_max_follow_ups := max_follow_ups, ro_refine := \<not> no_refine, ro_feedback := feedback,
           ro_allow_empty := allow_empty, ro_tiered := tiered\<rparr>)"

definition load_specs_of :: "'w Host \<Rightarrow> string list \<Rightarrow> SpecInputs result" where
  "load_specs_of ho = load_specs (ho_spec_stat ho) (ho_spec_read ho) (ho_spec_digest ho)"

section \<open>What a finished run leaves\<close>

definition attach_default_merge_outcomes :: "ReviewReport \<Rightarrow> ReviewReport" where
  "attach_default_merge_outcomes report =
     (case assess report None None None of
        Inr assessed \<Rightarrow> report\<lparr>r_merge_confidence := Some assessed\<rparr>
      | Inl _ \<Rightarrow> report\<lparr>r_partial := True, r_merge_confidence := None\<rparr>)"

text \<open>The files and the counter of temporary names; what is printed.\<close>

type_synonym disk = "files \<times> u64"

definition exit_of :: "bool \<Rightarrow> ReviewReport \<Rightarrow> exit" where
  "exit_of fail_on_blocking report = (if fail_on_blocking \<and> blocking_report report then Blocked else Done)"

text \<open>The history is best effort: its write is kept whatever it returns.\<close>

definition persist_history :: "'w Host \<Rightarrow> ReviewReport \<Rightarrow> string \<Rightarrow> disk \<Rightarrow> disk" where
  "persist_history ho report scope d =
     (case head_sha (ho_saved ho) scope of
        Inl _ \<Rightarrow> d
      | Inr sha \<Rightarrow>
          (case save_history (ho_system ho 2) (rn_codec (ho_run ho)) (rn_reading (ho_run ho)) (ho_removal ho) report sha
                  (snd d) (fst d) of (_, fs, counter, _) \<Rightarrow> (fs, counter)))"

definition persist_sarif :: "'w Host \<Rightarrow> ReviewReport \<Rightarrow> string option \<Rightarrow> disk \<Rightarrow> (string + unit) \<times> disk" where
  "persist_sarif ho report sarif d =
     (case sarif of
        None \<Rightarrow> (Inr (), d)
      | Some path \<Rightarrow>
          (case save_text (ho_system ho 1) (rn_pretty (ho_run ho) (to_sarif report)) path (snd d) (fst d) of
             (r, fs, counter, _) \<Rightarrow> (r, (fs, counter))))"

definition print_report :: "'w Host \<Rightarrow> ReviewReport \<Rightarrow> exit \<Rightarrow> exit \<times> string list" where
  "print_report ho report e =
     (case co_report (rn_codec (ho_run ho)) report of Inl m \<Rightarrow> (Failed m, []) | Inr t \<Rightarrow> (e, [t]))"

definition persist_report ::
  "'w Host \<Rightarrow> ReviewReport \<Rightarrow> string list \<Rightarrow> string option \<Rightarrow> bool \<Rightarrow> disk \<Rightarrow> (exit \<times> string list) \<times> disk" where
  "persist_report ho report scopes sarif fail_on_blocking d =
     (case save_report (ho_system ho 0) (rn_codec (ho_run ho)) report (report_path (rn_env (ho_run ho))) (snd d) (fst d) of
        (Inl e, fs, counter, _) \<Rightarrow> ((Failed e, []), (fs, counter))
      | (Inr _, fs, counter, _) \<Rightarrow>
          if r_shard report \<noteq> None then (print_report ho report Done, (fs, counter))
          else
            (case persist_sarif ho report sarif (fs, counter) of
               (Inl e, d) \<Rightarrow> ((Failed e, []), d)
             | (Inr _, d) \<Rightarrow>
                 (case scopes of
                    [] \<Rightarrow> ((Panicked, []), d)
                  | scope # _ \<Rightarrow>
                      (print_report ho report (exit_of fail_on_blocking report), persist_history ho report scope d))))"

section \<open>Running a review\<close>

record ReviewIdentity =
  id_base :: "string option"
  id_committed_head :: "string option"

definition head_of :: "Checkout \<Rightarrow> string \<Rightarrow> string option" where
  "head_of ck scope = ok_value (head_sha ck scope)"

definition clean_at :: "Checkout \<Rightarrow> string \<Rightarrow> bool" where
  "clean_at ck scope \<longleftrightarrow> ok_value (tracked_checkout_clean ck scope) = Some True"

definition same_checkout :: "Checkout \<Rightarrow> string list \<Rightarrow> bool" where
  "same_checkout ck scopes =
     (case map (\<lambda>s. ok_value (repository_root ck s)) scopes of
        [] \<Rightarrow> False
      | first # rest \<Rightarrow> first \<noteq> None \<and> list_all (\<lambda>r. r = first) (first # rest))"

text \<open>The head that the review is of, and whether the checkout is clean at it before the review.\<close>

definition actual_head :: "Checkout \<Rightarrow> string list \<Rightarrow> string option" where
  "actual_head ck scopes = (case scopes of [] \<Rightarrow> None | s # _ \<Rightarrow> head_of ck s)"

definition identified_head :: "Checkout \<Rightarrow> string list \<Rightarrow> ReviewIdentity \<Rightarrow> string option" where
  "identified_head ck scopes identity =
     (case id_committed_head identity of Some h \<Rightarrow> Some h | None \<Rightarrow> actual_head ck scopes)"

definition clean_before :: "Checkout \<Rightarrow> string list \<Rightarrow> ReviewIdentity \<Rightarrow> bool" where
  "clean_before ck scopes identity \<longleftrightarrow>
     identified_head ck scopes identity \<noteq> None \<and> actual_head ck scopes = identified_head ck scopes identity \<and>
     same_checkout ck scopes \<and> list_all (clean_at ck) scopes"

definition bind_identity :: "Checkout \<Rightarrow> Checkout \<Rightarrow> string list \<Rightarrow> ReviewIdentity \<Rightarrow> ReviewReport \<Rightarrow> ReviewReport" where
  "bind_identity before after scopes identity report =
     (let head = identified_head before scopes identity;
          clean = clean_before before scopes identity;
          still = (clean \<and> list_all (\<lambda>s. clean_at after s \<and> head_of after s = head) scopes);
          report = report\<lparr>r_reviewed_head := head, r_reviewed_base := id_base identity,
            r_reviewed_committed := (id_committed_head identity \<noteq> None), r_reviewed_clean := still\<rparr>
      in if \<not> still \<and> clean then report\<lparr>r_partial := True\<rparr> else report)"

text \<open>\<open>as_millis().min(u64::MAX) as u64\<close>\<close>

definition wall_time :: "nat \<Rightarrow> u64" where
  "wall_time millis = of_nat (min millis (2 ^ 64 - 1))"

definition complete_report ::
  "'w Host \<Rightarrow> string list \<Rightarrow> ReviewIdentity \<Rightarrow> AuxiliaryInputs option \<Rightarrow> FeedbackLog \<Rightarrow> ReviewReport \<Rightarrow> ReviewReport option" where
  "complete_report ho scopes identity auxiliary feedback report =
     (let report = bind_identity (ho_before ho) (ho_after ho) scopes identity report
      in map_option (\<lambda>report. (attach_default_merge_outcomes report)\<lparr>r_wall_time_ms := wall_time (ho_elapsed ho)\<rparr>)
           (case auxiliary of
              None \<Rightarrow> Some report
            | Some inputs \<Rightarrow>
                attach (ho_manifests ho) (ho_patterns ho) (rn_detectors (ho_run ho)) report inputs feedback))"

definition run_mode ::
  "'w Host \<Rightarrow> ('f, 's) ReviewStrategy \<Rightarrow> string list \<Rightarrow> bool \<Rightarrow> ReviewOptions \<Rightarrow> AuxiliaryInputs option \<Rightarrow> string option \<Rightarrow>
    string option \<Rightarrow> ReviewIdentity \<Rightarrow> 's \<Rightarrow> disk \<Rightarrow> (exit \<times> string list) \<times> disk \<times> 's" where
  "run_mode ho st paths fail_on_blocking opts auxiliary sarif sanitized identity s d =
     (case try_map (ho_absolute ho) paths of
        Inl e \<Rightarrow> ((Failed e, []), d, s)
      | Inr scopes \<Rightarrow>
          (case run_review (ho_surroundings ho) st (opts\<lparr>ro_auxiliary := False\<rparr>) scopes s of
             (Inl e, s) \<Rightarrow> ((Failed (error_text e), []), d, s)
           | (Inr report, s) \<Rightarrow>
               (case complete_report ho scopes identity auxiliary (ro_feedback opts) report of
                  None \<Rightarrow> ((Panicked, []), d, s)
                | Some report \<Rightarrow>
                    (case write_sanitized_report (ho_run ho) 0 report sanitized (fst d) of
                       (Inl e, fs) \<Rightarrow> ((Failed e, []), (fs, snd d), s)
                     | (Inr _, fs) \<Rightarrow>
                         (case persist_report ho report scopes sarif fail_on_blocking (fs, snd d) of
                            (out, d) \<Rightarrow> (out, d, s))))))"

section \<open>Commands\<close>

record ReviewArgs =
  rv_committed_only :: bool
  rv_upgrade_triage :: bool
  rv_docs_drift :: bool
  rv_paths :: "string list"
  rv_fail_on_blocking :: bool
  rv_exclude :: "string list"
  rv_allow_empty :: bool
  rv_base :: "string option"
  rv_follow_ups :: "nat option"
  rv_sarif :: "string option"
  rv_no_refine :: bool
  rv_no_redact :: bool
  rv_no_cache :: bool
  rv_budget :: "u64 option"
  rv_robustness :: RobustnessArgs

record ScanArgs =
  sn_paths :: "string list"
  sn_fail_on_blocking :: bool
  sn_exclude :: "string list"
  sn_follow_ups :: "nat option"
  sn_sarif :: "string option"
  sn_no_refine :: bool
  sn_no_redact :: bool
  sn_no_cache :: bool
  sn_budget :: "u64 option"
  sn_tiered :: bool
  sn_sanitized_report :: "string option"
  sn_shard :: "Shard option"
  sn_robustness :: RobustnessArgs

text \<open>What a strategy sees of git under the exclusions.\<close>

definition git_view :: "Checkout \<Rightarrow> (string \<Rightarrow> bool) \<Rightarrow> GitView" where
  "git_view ck excluded =
     \<lparr>gv_changed = (\<lambda>scopes. of_git (changed_files ck scopes excluded)),
      gv_changed_since = (\<lambda>scopes base. of_git (changed_files_since ck scopes excluded base)),
      gv_changed_at = (\<lambda>scopes base head. of_git (changed_files_at ck scopes excluded base head)),
      gv_repository = (\<lambda>scopes. of_git (repository_files ck scopes excluded)),
      gv_repository_at = (\<lambda>scopes head. of_git (repository_files_at ck scopes excluded head))\<rparr>"

definition strategy_env :: "'w Host \<Rightarrow> (string \<Rightarrow> bool) \<Rightarrow> StrategyEnv" where
  "strategy_env ho excluded =
     \<lparr>en_tools = ho_tools ho, en_git = git_view (ho_before ho) excluded, en_context_budget = ho_context_budget ho\<rparr>"

text \<open>The state of a new strategy: its client with the budget, no index yet.\<close>

definition new_session :: "'w Host \<Rightarrow> bool \<Rightarrow> bool \<Rightarrow> u64 option \<Rightarrow> string + 'w Session" where
  "new_session ho no_redact no_cache budget =
     as_text (and_then (cli_client (ho_loopback ho) (ho_storage ho) (rn_env (ho_run ho)) (ho_built ho) (ho_now ho)
         (ho_world ho) no_redact no_cache) (\<lambda>c.
       Inr \<lparr>se_client = with_budget budget c, se_index = None, se_neighbors = None, se_store = ho_index ho\<rparr>))"

definition REVIEW_LIMITS :: Limits where
  "REVIEW_LIMITS = \<lparr>lm_files = 500, lm_file_bytes = 1000000, lm_total_bytes = 8000000\<rparr>"

definition review_auxiliary :: "'w Host \<Rightarrow> ReviewArgs \<Rightarrow> string + AuxiliaryInputs option" where
  "review_auxiliary ho a =
     (if rv_upgrade_triage a \<or> rv_docs_drift a then
        and_then (ho_exclude ho (rv_exclude a)) (\<lambda>excluded.
        and_then (repository_evidence (ho_before ho) (rv_paths a) excluded (rv_base a) REVIEW_LIMITS) (\<lambda>evidence.
          Inr (Some \<lparr>ai_evidence = evidence, ai_upgrades = rv_upgrade_triage a, ai_docs_drift = rv_docs_drift a\<rparr>)))
      else Inr None)"

definition canonical_root :: "Checkout \<Rightarrow> string \<Rightarrow> string + string" where
  "canonical_root ck scope = and_then (repository_root ck scope) (ck_canonicalize ck)"

definition committed_head :: "Checkout \<Rightarrow> string list \<Rightarrow> string + string" where
  "committed_head ck paths =
     (case paths of
        [] \<Rightarrow> Inl ''committed review requires a scope''
      | first # _ \<Rightarrow>
          and_then (canonical_root ck first) (\<lambda>root.
          and_then (try_map (\<lambda>path. and_then (canonical_root ck path) (\<lambda>r.
              if r = root then Inr () else Inl ''committed-only scopes must share one canonical checkout'')) paths) (\<lambda>_.
            head_sha ck first)))"

definition reviewed_base :: "Checkout \<Rightarrow> string list \<Rightarrow> string option \<Rightarrow> string + string option" where
  "reviewed_base ck paths base =
     (case (paths, base) of
        (p # _, Some b) \<Rightarrow> and_then (review_base_sha ck p b) (\<lambda>sha. Inr (Some sha))
      | _ \<Rightarrow> Inr None)"

text \<open>Everything that the command decides before the review.\<close>

record 'w Prepared =
  pp_options :: ReviewOptions
  pp_auxiliary :: "AuxiliaryInputs option"
  pp_session :: "'w Session"
  pp_excluded :: "string \<Rightarrow> bool"
  pp_identity :: ReviewIdentity

definition prepare_review :: "'w Host \<Rightarrow> ReviewArgs \<Rightarrow> files \<Rightarrow> string + 'w Prepared" where
  "prepare_review ho a fs =
     (if rv_committed_only a \<and> (rv_upgrade_triage a \<or> rv_docs_drift a)
      then Inl ''--committed-only cannot combine --upgrade-triage or --docs-drift; run worktree analyses separately from the committed-only approval review''
      else
        and_then (robustness_apply (load_specs_of ho) (rv_robustness a)
          (cli_options (ho_run ho) fs (rv_follow_ups a) (rv_no_refine a)
            (rv_allow_empty a \<or> rv_upgrade_triage a \<or> rv_docs_drift a) False)) (\<lambda>opts.
        and_then (review_auxiliary ho a) (\<lambda>auxiliary.
        and_then (new_session ho (rv_no_redact a) (rv_no_cache a) (rv_budget a)) (\<lambda>session.
        and_then (ho_exclude ho (rv_exclude a)) (\<lambda>excluded.
        and_then (if rv_committed_only a
            then and_then (committed_head (ho_before ho) (rv_paths a)) (\<lambda>h. Inr (Some h)) else Inr None) (\<lambda>head.
        and_then (reviewed_base (ho_before ho) (rv_paths a) (rv_base a)) (\<lambda>base.
          Inr \<lparr>pp_options = opts, pp_auxiliary = auxiliary, pp_session = session, pp_excluded = excluded,
               pp_identity = \<lparr>id_base = base, id_committed_head = head\<rparr>\<rparr>)))))))"

definition run_review_command ::
  "'w Host \<Rightarrow> ReviewArgs \<Rightarrow> disk \<Rightarrow> (exit \<times> string list) \<times> disk \<times> 'w Session option" where
  "run_review_command ho a d =
     (case prepare_review ho a (fst d) of
        Inl e \<Rightarrow> ((Failed e, []), d, None)
      | Inr p \<Rightarrow>
          (case run_mode ho
              (changes_strategy (strategy_env ho (pp_excluded p))
                \<lparr>ch_base = rv_base a, ch_committed_head = id_committed_head (pp_identity p)\<rparr> (ho_ask ho))
              (rv_paths a) (rv_fail_on_blocking a) (pp_options p) (pp_auxiliary p) (rv_sarif a) None (pp_identity p)
              (pp_session p) d of
             (out, d, s) \<Rightarrow> (out, d, Some s)))"

definition run_scan_command ::
  "'w Host \<Rightarrow> ScanArgs \<Rightarrow> disk \<Rightarrow> (exit \<times> string list) \<times> disk \<times> 'w Session option" where
  "run_scan_command ho a d =
     (if sn_shard a \<noteq> None \<and> sn_follow_ups a \<noteq> None
      then ((Failed ''--shard cannot use --follow-ups: a per-shard cap changes global selection'', []), d, None)
      else
        (case and_then (robustness_apply (load_specs_of ho) (sn_robustness a)
                ((cli_options (ho_run ho) (fst d) (sn_follow_ups a) (sn_no_refine a) False (sn_tiered a))
                  \<lparr>ro_shard := sn_shard a\<rparr>)) (\<lambda>opts.
              and_then (new_session ho (sn_no_redact a) (sn_no_cache a) (sn_budget a)) (\<lambda>session.
              and_then (ho_exclude ho (sn_exclude a)) (\<lambda>excluded. Inr (opts, session, excluded)))) of
           Inl e \<Rightarrow> ((Failed e, []), d, None)
         | Inr (opts, session, excluded) \<Rightarrow>
             (case run_mode ho (codebase_strategy (strategy_env ho excluded) (ho_ask ho)) (sn_paths a)
                 (sn_fail_on_blocking a) opts None (sn_sarif a) (sn_sanitized_report a)
                 \<lparr>id_base = None, id_committed_head = None\<rparr> session d of
                (out, d, s) \<Rightarrow> (out, d, Some s))))"

record MergeArgs =
  mg_reports :: "string list"
  mg_scope :: "string list"
  mg_sarif :: "string option"
  mg_fail_on_blocking :: bool
  mg_no_cache :: bool
  mg_no_redact :: bool
  mg_exclude :: "string list"

definition read_part :: "'w Host \<Rightarrow> files \<Rightarrow> string \<Rightarrow> string + ReviewReport" where
  "read_part ho fs path =
     (case read_to_string (rn_reading (ho_run ho)) fs path of
        Inl NotFound \<Rightarrow> Inl (ho_not_found ho)
      | Inl (ReadError e) \<Rightarrow> Inl e
      | Inr content \<Rightarrow> co_read_report (rn_codec (ho_run ho)) content)"

definition run_merge_command ::
  "'w Host \<Rightarrow> MergeArgs \<Rightarrow> disk \<Rightarrow> (exit \<times> string list) \<times> disk \<times> 'w Session option" where
  "run_merge_command ho a d =
     (case and_then (try_map (read_part ho (fst d)) (mg_reports a)) (\<lambda>parts.
           and_then (try_map (ho_absolute ho) (mg_scope a)) (\<lambda>scopes.
           and_then (new_session ho (mg_no_redact a) (mg_no_cache a) None) (\<lambda>session.
           and_then (ho_exclude ho (mg_exclude a)) (\<lambda>excluded. Inr (parts, scopes, session, excluded))))) of
        Inl e \<Rightarrow> ((Failed e, []), d, None)
      | Inr (parts, scopes, session, excluded) \<Rightarrow>
          (case merge_reports (ho_surroundings ho) (ho_config_value ho)
              (codebase_strategy (strategy_env ho excluded) (ho_ask ho)) parts scopes session of
             (Inl e, s) \<Rightarrow> ((Failed (error_text e), []), d, Some s)
           | (Inr report, s) \<Rightarrow>
               (case persist_report ho
                   ((attach_default_merge_outcomes report)\<lparr>r_wall_time_ms := wall_time (ho_elapsed ho)\<rparr>)
                   scopes (mg_sarif a) (mg_fail_on_blocking a) d of
                  (out, d) \<Rightarrow> (out, d, Some s))))"

record ConfidenceArgs =
  cf_report :: string
  cf_history :: "string option"
  cf_policy :: "string option"
  cf_checks :: "string option"

definition exit_with :: "string + string \<Rightarrow> exit \<times> string list" where
  "exit_with r = (case r of Inl e \<Rightarrow> (Failed e, []) | Inr t \<Rightarrow> (Done, [t]))"

text \<open>What is printed of a value: its redacted form.\<close>

definition redacted :: "Run \<Rightarrow> json \<Rightarrow> json" where
  "redacted rn v = fst (redact_value (rn_detectors rn) v [])"

definition run_confidence :: "'w Host \<Rightarrow> ConfidenceArgs \<Rightarrow> exit \<times> string list" where
  "run_confidence ho a =
     (let rn = ho_run ho in
      exit_with (
        and_then (load_json rn (co_read_report (rn_codec rn)) (cf_report a)) (\<lambda>report.
        and_then (load_optional rn (rn_history rn) (cf_history a)) (\<lambda>history.
        and_then (load_optional rn (rn_policy rn) (cf_policy a)) (\<lambda>policy.
        and_then (load_optional rn (rn_checks rn) (cf_checks a)) (\<lambda>checks.
        and_then (as_text (assess report history policy checks)) (\<lambda>assessed.
        and_then (ho_summary_value ho assessed) (\<lambda>v. rn_pretty rn (redacted rn v)))))))))"

record TourArgs =
  ta_paths :: "string list"
  ta_exclude :: "string list"
  ta_limits :: Limits
  ta_markdown :: bool

definition BASELINE_GAP :: string where
  "BASELINE_GAP = ''Tour describes uncommitted or untracked working-tree evidence; head identifies the checkout baseline, not an immutable tour snapshot''"

definition tour_evidence :: "'w Host \<Rightarrow> TourArgs \<Rightarrow> string + RepositoryEvidence" where
  "tour_evidence ho a =
     (let initial_head = actual_head (ho_before ho) (ta_paths a);
          clean = (initial_head \<noteq> None \<and> list_all (clean_at (ho_before ho)) (ta_paths a))
      in and_then (ho_exclude ho (ta_exclude a)) (\<lambda>excluded.
         and_then (repository_evidence (ho_before ho) (ta_paths a) excluded None (ta_limits a)) (\<lambda>evidence.
           Inr (if \<not> clean \<or>
                   list_ex (\<lambda>path. \<not> clean_at (ho_after ho) path \<or> head_of (ho_after ho) path \<noteq> initial_head) (ta_paths a)
                then evidence\<lparr>re_unknowns := re_unknowns evidence @ [BASELINE_GAP]\<rparr> else evidence))))"

definition run_tour :: "'w Host \<Rightarrow> TourArgs \<Rightarrow> exit \<times> string list" where
  "run_tour ho a =
     (let rn = ho_run ho in
      exit_with (
        and_then (tour_evidence ho a) (\<lambda>evidence.
        and_then (ho_tour_value ho (tour_build (rn_detectors rn) (ho_tools ho) evidence (ho_index ho))) (\<lambda>v.
          if ta_markdown a then and_then (ho_tour_back ho (redacted rn v)) (\<lambda>t. Inr (tour_markdown t))
          else rn_pretty rn (redacted rn v)))))"

datatype EventArg = ArgComment | ArgRequestChanges

fun review_event :: "EventArg \<Rightarrow> ReviewEvent" where
  "review_event ArgComment = CommentEvent"
| "review_event ArgRequestChanges = RequestChangesEvent"

record GithubReviewArgs =
  ga_auto_approve_policy :: "string option"
  ga_history :: "string option"
  ga_report :: "string option"
  ga_max_comments :: nat
  ga_event :: EventArg
  ga_fail_on_blocking :: bool
  ga_dry_run :: bool
  ga_sanitized_report :: "string option"

datatype Command =
    ConfidenceCommand ConfidenceArgs | TourCommand TourArgs | ReviewCommand ReviewArgs | ScanCommand ScanArgs
  | MergeCommand MergeArgs | GithubReviewCommand GithubReviewArgs | DashboardCommand nat

text \<open>The exit and the output, the disk, and the requests sent to GitHub.\<close>

fun run_command :: "'w Host \<Rightarrow> Command \<Rightarrow> disk \<Rightarrow> (exit \<times> string list) \<times> disk \<times> Request list" where
  "run_command ho (ConfidenceCommand a) d = (run_confidence ho a, d, [])"
| "run_command ho (TourCommand a) d = (run_tour ho a, d, [])"
| "run_command ho (ReviewCommand a) d = (case run_review_command ho a d of (out, d, _) \<Rightarrow> (out, d, []))"
| "run_command ho (ScanCommand a) d = (case run_scan_command ho a d of (out, d, _) \<Rightarrow> (out, d, []))"
| "run_command ho (MergeCommand a) d = (case run_merge_command ho a d of (out, d, _) \<Rightarrow> (out, d, []))"
| "run_command ho (GithubReviewCommand a) d =
     (case github_review (ho_run ho) (ho_serde ho) (ho_github ho) (ho_github_clock ho) (ho_github_built ho) (ga_report a)
         (ga_sanitized_report a)
         \<lparr>op_max_comments = ga_max_comments a, op_event = review_event (ga_event a), op_dry_run = ga_dry_run a\<rparr>
         (ga_fail_on_blocking a) (ga_auto_approve_policy a) (ga_history a) (fst d) of
        (out, fs, sent) \<Rightarrow> (out, (fs, snd d), sent))"
| "run_command ho (DashboardCommand port) d = ((ho_serve ho port, []), d, [])"

section \<open>The budget of a command\<close>

definition within_budget :: "u64 option \<Rightarrow> 'w Client \<Rightarrow> bool" where
  "within_budget granted c \<longleftrightarrow> client_ok c \<and> cb_limit (cl_budget c) = granted"

interpretation budgeted_service: judging_service "service_ask dt hasher http status_text digest" "within_budget granted"
  for dt hasher status_text digest granted and http :: "json \<Rightarrow> 'w \<Rightarrow> HttpReply \<times> nat \<times> 'w"
proof
  fix c :: "'w Client" and state questions
  assume c: "within_budget granted c"
  then have "client_ok c" by (simp add: within_budget_def)
  from system_one_ok [OF this, of dt hasher http status_text digest state questions] c
  show "within_budget granted (snd (service_ask dt hasher http status_text digest state questions c))"
    by (auto simp: service_ask_def within_budget_def same_client_def)
qed

abbreviation session_within :: "u64 option \<Rightarrow> 'w Session \<Rightarrow> bool" where
  "session_within granted s \<equiv> within_budget granted (se_client s)"

interpretation budgeted_changes:
  review_strategy "changes_strategy env cfg (service_ask dt hasher http status_text digest)" "session_within granted"
  for env cfg dt hasher status_text digest granted and http :: "json \<Rightarrow> 'w \<Rightarrow> HttpReply \<times> nat \<times> 'w"
  by (rule changes_review_strategy) (rule budgeted_service.judging_service_axioms)

interpretation budgeted_codebase:
  review_strategy "codebase_strategy env (service_ask dt hasher http status_text digest)" "session_within granted"
  for env dt hasher status_text digest granted and http :: "json \<Rightarrow> 'w \<Rightarrow> HttpReply \<times> nat \<times> 'w"
  by (rule codebase_review_strategy) (rule budgeted_service.judging_service_axioms)

lemma run_mode_session:
  "snd (snd (run_mode ho st paths fail_on_blocking opts auxiliary sarif sanitized identity s d)) =
     (case try_map (ho_absolute ho) paths of
        Inl _ \<Rightarrow> s
      | Inr scopes \<Rightarrow> snd (run_review (ho_surroundings ho) st (opts\<lparr>ro_auxiliary := False\<rparr>) scopes s))"
  by (auto simp: run_mode_def split: sum.splits prod.splits option.splits)

lemma new_session_within: "new_session ho no_redact no_cache granted = Inr s \<Longrightarrow> session_within granted s"
  by (auto simp: new_session_def as_text_def and_then_eq_Inr within_budget_def with_budget_def client_ok_def budget_new_def
      budget_ok_def dest!: cli_client_fresh split: sum.splits option.splits) (auto simp: fresh_client_def client_ok_def)

text \<open>What a command may have spent when it ends: at most its budget, if it has one, and no permit is held.\<close>

definition budget_kept :: "u64 option \<Rightarrow> 'w Session option \<Rightarrow> bool" where
  "budget_kept granted session \<longleftrightarrow>
     (case session of
        None \<Rightarrow> True
      | Some s \<Rightarrow>
          (case granted of None \<Rightarrow> True | Some n \<Rightarrow> cb_reserved (cl_budget (se_client s)) \<le> n) \<and>
          cb_limit (cl_budget (se_client s)) = granted \<and> l_active (cl_limiter (se_client s)) = 0)"

lemma within_kept: "session_within granted s \<Longrightarrow> budget_kept granted (Some s)"
  by (auto simp: budget_kept_def within_budget_def client_ok_def budget_ok_def split: option.splits)

lemma run_mode_within:
  assumes "review_strategy st (session_within granted)" "session_within granted s"
  shows "budget_kept granted (Some (snd (snd (run_mode ho st paths fail_on_blocking opts auxiliary sarif sanitized identity s d))))"
  using assms(2) review_strategy.run_review_kept [OF assms] by (intro within_kept) (simp add: run_mode_session split: sum.split)

lemma prepared_within: "prepare_review ho a fs = Inr p \<Longrightarrow> session_within (rv_budget a) (pp_session p)"
  by (auto simp: prepare_review_def and_then_eq_Inr new_session_within split: if_splits)

lemma review_command_budget:
  fixes http :: "json \<Rightarrow> 'w \<Rightarrow> HttpReply \<times> nat \<times> 'w" and ho :: "'w Host"
  assumes "ho_ask ho = service_ask dt hasher http status_text digest"
  shows "budget_kept (rv_budget a) (snd (snd (run_review_command ho a d)))"
proof (cases "prepare_review ho a (fst d)")
  case (Inl e)
  then show ?thesis by (simp add: run_review_command_def budget_kept_def)
next
  case (Inr p)
  show ?thesis
    using run_mode_within [OF budgeted_changes.review_strategy_axioms prepared_within [OF Inr]]
    by (simp add: run_review_command_def Inr assms case_prod_beta)
qed

lemma scan_command_budget:
  fixes http :: "json \<Rightarrow> 'w \<Rightarrow> HttpReply \<times> nat \<times> 'w" and ho :: "'w Host"
  assumes "ho_ask ho = service_ask dt hasher http status_text digest"
  shows "budget_kept (sn_budget a) (snd (snd (run_scan_command ho a d)))"
proof (cases "snd (snd (run_scan_command ho a d)) = None")
  case True
  then show ?thesis by (simp add: budget_kept_def)
next
  case False
  then obtain opts session excluded where
    prepared: "and_then (robustness_apply (load_specs_of ho) (sn_robustness a)
        ((cli_options (ho_run ho) (fst d) (sn_follow_ups a) (sn_no_refine a) False (sn_tiered a))\<lparr>ro_shard := sn_shard a\<rparr>))
      (\<lambda>opts. and_then (new_session ho (sn_no_redact a) (sn_no_cache a) (sn_budget a)) (\<lambda>session.
         and_then (ho_exclude ho (sn_exclude a)) (\<lambda>excluded. Inr (opts, session, excluded)))) = Inr (opts, session, excluded)"
    and allowed: "\<not> (sn_shard a \<noteq> None \<and> sn_follow_ups a \<noteq> None)"
    by (auto simp: run_scan_command_def split: sum.splits if_splits prod.splits)
  then have within: "session_within (sn_budget a) session" by (auto simp: and_then_eq_Inr new_session_within)
  show ?thesis
    using run_mode_within [OF budgeted_codebase.review_strategy_axioms within]
    unfolding run_scan_command_def prepared using allowed by (cases d) (auto simp: assms case_prod_beta)
qed

text \<open>
  C27. A call budget binds the whole command: however \<open>review\<close> or \<open>scan\<close> is called and whatever the
  service, git and the disk answer, when the command ends its client has reserved at most \<open>--budget\<close>
  HTTP attempts, the ceiling is still the one that was given, and no permit is held.
\<close>

theorem command_budget:
  fixes http :: "json \<Rightarrow> 'w \<Rightarrow> HttpReply \<times> nat \<times> 'w" and ho :: "'w Host"
  shows "budget_kept (rv_budget a)
      (snd (snd (run_review_command (ho\<lparr>ho_ask := service_ask dt hasher http status_text digest\<rparr>) a d))) \<and>
    budget_kept (sn_budget b)
      (snd (snd (run_scan_command (ho\<lparr>ho_ask := service_ask dt hasher http status_text digest\<rparr>) b d)))"
  by (intro conjI review_command_budget scan_command_budget) simp_all

section \<open>Accepted options run\<close>

lemma probability_overrides:
  "list_all (\<lambda>(d, t). is_finite t \<and> in_unit t) ts \<Longrightarrow> is_ok (apply_overrides ts tuned)"
  by (induction ts arbitrary: tuned) auto

lemma add_overrides_sound:
  "add_overrides ts m = Inr m' \<Longrightarrow> (\<And>d t. (d, t) \<in> set ts \<Longrightarrow> P t) \<Longrightarrow> (\<And>d t. m d = Some t \<Longrightarrow> P t) \<Longrightarrow> m' d = Some t \<Longrightarrow> P t"
proof (induction ts arbitrary: m)
  case (Cons x ts)
  obtain e u where x: "x = (e, u)" by (cases x)
  from Cons.prems(1) have "add_overrides ts (m(e \<mapsto> u)) = Inr m'" by (simp add: x split: if_splits)
  from Cons.IH [OF this _ _ Cons.prems(4)] Cons.prems(2,3) show ?case by (fastforce simp: x split: if_splits)
qed simp

lemma parsed_threshold: "parse_threshold raw = Inr (d, t) \<Longrightarrow> is_finite t \<and> in_unit t"
  by (auto simp: parse_threshold_def split: option.splits if_splits prod.splits)

lemma robustness_applied:
  assumes "robustness_apply load args opts = Inr opts'"
  obtains overrides specs where "add_overrides (ra_threshold args) (ro_threshold_overrides opts) = Inr overrides"
    "opts' = opts\<lparr>ro_threshold_overrides := overrides, ro_test_plans := ra_test_plans args,
       ro_follow_up_strategy := ra_follow_up_strategy args, ro_specs := specs\<rparr>"
    "specs = (if ra_spec args = [] then ro_specs opts else specs)"
    "\<not> (ro_shard opts \<noteq> None \<and> (ra_test_plans args \<or> ra_spec args \<noteq> [] \<or> ra_follow_up_strategy args \<noteq> Probability))"
    "\<not> (ro_tiered opts \<and> ra_spec args \<noteq> [])"
proof -
  from assms obtain overrides where guards:
    "\<not> (ro_shard opts \<noteq> None \<and> (ra_test_plans args \<or> ra_spec args \<noteq> [] \<or> ra_follow_up_strategy args \<noteq> Probability))"
    "\<not> (ro_tiered opts \<and> ra_spec args \<noteq> [])" "add_overrides (ra_threshold args) (ro_threshold_overrides opts) = Inr overrides"
    and rest: "(let opts = opts\<lparr>ro_threshold_overrides := overrides, ro_test_plans := ra_test_plans args,
                ro_follow_up_strategy := ra_follow_up_strategy args\<rparr>
          in if ra_spec args = [] then Inr opts
             else and_then (as_text (load (ra_spec args))) (\<lambda>specs. Inr (opts\<lparr>ro_specs := Some specs\<rparr>))) = Inr opts'"
    unfolding robustness_apply_def if_Inl_eq and_then_eq_Inr by blast
  show thesis
  proof (cases "ra_spec args = []")
    case True
    with rest have "opts' = opts\<lparr>ro_threshold_overrides := overrides, ro_test_plans := ra_test_plans args,
       ro_follow_up_strategy := ra_follow_up_strategy args, ro_specs := ro_specs opts\<rparr>"
      by (cases opts) (auto simp: Let_def)
    then show thesis by (intro that [of overrides "ro_specs opts"] guards) simp_all
  next
    case False
    with rest obtain v where "opts' = opts\<lparr>ro_threshold_overrides := overrides, ro_test_plans := ra_test_plans args,
       ro_follow_up_strategy := ra_follow_up_strategy args, ro_specs := Some v\<rparr>"
      by (auto simp: Let_def and_then_eq_Inr)
    with False show thesis by (intro that [of overrides "Some v"] guards) simp_all
  qed
qed

lemma ensured: "b \<Longrightarrow> and_then (ensure b msg) f = f ()"
  by (simp add: ensure_def)

lemma accepted_options:
  assumes "list_all (\<lambda>(d, t). \<exists>raw. parse_threshold raw = Inr (d, t)) (ra_threshold args)"
    and "ro_threshold_overrides opts = Map.empty" "ro_specs opts = None"
    and accepted: "robustness_apply load args opts = Inr opts'"
  shows "is_ok (check_options (opts'\<lparr>ro_auxiliary := False\<rparr>))"
proof -
  obtain overrides specs where overrides: "add_overrides (ra_threshold args) Map.empty = Inr overrides"
    and opts': "opts' = opts\<lparr>ro_threshold_overrides := overrides, ro_test_plans := ra_test_plans args,
       ro_follow_up_strategy := ra_follow_up_strategy args, ro_specs := specs\<rparr>"
    and specs: "ra_spec args = [] \<Longrightarrow> specs = None"
    and guards: "\<not> (ro_shard opts \<noteq> None \<and> (ra_test_plans args \<or> ra_spec args \<noteq> [] \<or> ra_follow_up_strategy args \<noteq> Probability))"
      "\<not> (ro_tiered opts \<and> ra_spec args \<noteq> [])"
    by (rule robustness_applied [OF accepted]) (auto simp: assms(2,3) split: if_splits)
  have "is_finite t \<and> in_unit t" if "overrides d = Some t" for d t
  proof (rule add_overrides_sound [OF overrides, where P = "\<lambda>t. is_finite t \<and> in_unit t"])
    show "overrides d = Some t" by (rule that)
    fix d t assume "(d, t) \<in> set (ra_threshold args)"
    with assms(1) obtain raw where "parse_threshold raw = Inr (d, t)" by (auto simp: list_all_iff)
    then show "is_finite t \<and> in_unit t" by (rule parsed_threshold)
  qed simp
  then have valid: "list_all (\<lambda>(d, t). is_finite t \<and> in_unit t) (prob_entries overrides)"
    by (auto simp: list_all_iff set_prob_entries)
  have "ro_shard opts = None \<or> \<not> ra_test_plans args \<and> specs = None \<and> ra_follow_up_strategy args \<noteq> Voi"
    "\<not> ro_tiered opts \<or> specs = None"
    using guards specs by (cases "ra_follow_up_strategy args"; auto)+
  then show ?thesis
    unfolding check_options_def opts'
    by (subst ensured, simp, subst ensured, force, subst ensured, force) (simp add: probability_overrides [OF valid])
qed

text \<open>Whatever options the commands accept, the review does not refuse.\<close>

definition options_checked :: "string + ReviewOptions \<Rightarrow> bool" where
  "options_checked r = (case r of Inl _ \<Rightarrow> True | Inr opts \<Rightarrow> is_ok (check_options (opts\<lparr>ro_auxiliary := False\<rparr>)))"

text \<open>
  C29. The option guards of the command line imply those of the review: with thresholds as the parser
  yields them, options that a command accepts pass every check at the start of \<open>run_review\<close>, with
  any feedback log, for a review and for a scan with its shard and its tier, so that no run that was
  started fails there after the specifications were loaded.
\<close>

theorem accepted_options_run:
  assumes "list_all (\<lambda>(d, t). \<exists>raw. parse_threshold raw = Inr (d, t)) (ra_threshold args)"
  shows "options_checked (robustness_apply load args
    ((cli_options rn fs max_follow_ups no_refine allow_empty tiered)\<lparr>ro_shard := shard\<rparr>))"
proof (cases "robustness_apply load args ((cli_options rn fs max_follow_ups no_refine allow_empty tiered)\<lparr>ro_shard := shard\<rparr>)")
  case (Inr opts)
  have "is_ok (check_options (opts\<lparr>ro_auxiliary := False\<rparr>))"
    by (rule accepted_options [OF assms _ _ Inr]) (simp_all add: cli_options_def Workflow.default_options_def Let_def)
  with Inr show ?thesis by (simp add: options_checked_def)
qed (simp add: options_checked_def)

theorem accepted_options_run_witness:
  "\<forall>load rn fs shard. options_checked (robustness_apply load
     \<lparr>ra_test_plans = False, ra_spec = [], ra_follow_up_strategy = Voi, ra_threshold = [(Security, Fin 1)]\<rparr>
     ((cli_options rn fs None False False True)\<lparr>ro_shard := shard\<rparr>))"
proof -
  have "parse_threshold ''security=1'' = Inr (Security, Fin 1)"
    by code_simp
  then show ?thesis by (intro allI accepted_options_run) auto
qed

section \<open>What an approval rests on\<close>

text \<open>
  The review was of a committed head; before it, all scopes lay in one checkout that was clean at this
  head, and after it every scope still was.
\<close>

definition pinned :: "'w Host \<Rightarrow> string list \<Rightarrow> ReviewIdentity \<Rightarrow> ReviewReport \<Rightarrow> bool" where
  "pinned ho scopes identity report \<longleftrightarrow>
     (\<exists>head. id_committed_head identity = Some head \<and> r_reviewed_head report = Some head \<and>
        scopes \<noteq> [] \<and> head_of (ho_before ho) (hd scopes) = Some head \<and> same_checkout (ho_before ho) scopes \<and>
        list_all (\<lambda>s. clean_at (ho_before ho) s \<and> clean_at (ho_after ho) s \<and> head_of (ho_after ho) s = Some head) scopes)"

definition approvals_pinned :: "'w Host \<Rightarrow> string list \<Rightarrow> ReviewIdentity \<Rightarrow> ReviewReport option \<Rightarrow> bool" where
  "approvals_pinned ho scopes identity result \<longleftrightarrow>
     (case result of
        None \<Rightarrow> False
      | Some report \<Rightarrow> \<forall>history policy checks. approvable report history policy checks \<longrightarrow> pinned ho scopes identity report)"

lemma bind_fields:
  "r_reviewed_clean (bind_identity before after scopes identity report) =
     (clean_before before scopes identity \<and>
      list_all (\<lambda>s. clean_at after s \<and> head_of after s = identified_head before scopes identity) scopes)"
  "r_reviewed_committed (bind_identity before after scopes identity report) = (id_committed_head identity \<noteq> None)"
  "r_reviewed_head (bind_identity before after scopes identity report) = identified_head before scopes identity"
  by (simp_all add: bind_identity_def Let_def)

lemma bound_identity:
  assumes "r_reviewed_clean (bind_identity (ho_before ho) (ho_after ho) scopes identity report)"
    and "r_reviewed_committed (bind_identity (ho_before ho) (ho_after ho) scopes identity report)"
    and "r_reviewed_head report' = r_reviewed_head (bind_identity (ho_before ho) (ho_after ho) scopes identity report)"
  shows "pinned ho scopes identity report'"
proof -
  from assms(2) obtain head where head: "id_committed_head identity = Some head" by (auto simp: bind_fields)
  then have identified: "identified_head (ho_before ho) scopes identity = Some head" by (simp add: identified_head_def)
  from assms(1) have before: "actual_head (ho_before ho) scopes = Some head" "same_checkout (ho_before ho) scopes"
      "list_all (clean_at (ho_before ho)) scopes"
    and after: "list_all (\<lambda>s. clean_at (ho_after ho) s \<and> head_of (ho_after ho) s = Some head) scopes"
    by (simp_all add: bind_fields clean_before_def identified)
  from before(1) have "scopes \<noteq> []" "head_of (ho_before ho) (hd scopes) = Some head"
    by (cases scopes; simp add: actual_head_def)+
  with head identified before after assms(3) show ?thesis
    unfolding pinned_def by (intro exI [of _ head]) (simp add: bind_fields list_all_iff)
qed

lemma default_outcomes_kept:
  "r_reviewed_clean (attach_default_merge_outcomes report) = r_reviewed_clean report"
  "r_reviewed_committed (attach_default_merge_outcomes report) = r_reviewed_committed report"
  "r_reviewed_head (attach_default_merge_outcomes report) = r_reviewed_head report"
  by (simp_all add: attach_default_merge_outcomes_def split: sum.split)

lemma approvable_identity: "approvable report history policy checks \<Longrightarrow> r_reviewed_clean report \<and> r_reviewed_committed report"
  by (auto simp: approvable_def reviewed_whole_def split: option.splits)

lemma complete_report_identity:
  obtains final where "complete_report ho scopes identity auxiliary feedback report = Some final"
    "r_reviewed_clean final \<Longrightarrow> r_reviewed_clean (bind_identity (ho_before ho) (ho_after ho) scopes identity report)"
    "r_reviewed_committed final \<Longrightarrow> r_reviewed_committed (bind_identity (ho_before ho) (ho_after ho) scopes identity report)"
    "r_reviewed_head final = r_reviewed_head (bind_identity (ho_before ho) (ho_after ho) scopes identity report)"
proof (cases auxiliary)
  case None
  then have "complete_report ho scopes identity auxiliary feedback report =
      Some ((attach_default_merge_outcomes (bind_identity (ho_before ho) (ho_after ho) scopes identity report))
        \<lparr>r_wall_time_ms := wall_time (ho_elapsed ho)\<rparr>)"
    by (simp add: complete_report_def Let_def)
  then show ?thesis by (rule that) (simp_all add: default_outcomes_kept)
next
  case (Some inputs)
  let ?bound = "bind_identity (ho_before ho) (ho_after ho) scopes identity report"
  obtain joined where joined: "attach (ho_manifests ho) (ho_patterns ho) (rn_detectors (ho_run ho)) ?bound inputs feedback = Some joined"
    "joined_soundly (ho_patterns ho) (rn_detectors (ho_run ho)) ?bound inputs (suppressed feedback) joined"
    using attach_sound [where mt = "ho_manifests ho" and dp = "ho_patterns ho" and dt = "rn_detectors (ho_run ho)"
        and report = ?bound and inputs = inputs and vlog = feedback]
    by (auto split: option.splits)
  then have completed: "complete_report ho scopes identity auxiliary feedback report =
      Some ((attach_default_merge_outcomes joined)\<lparr>r_wall_time_ms := wall_time (ho_elapsed ho)\<rparr>)"
    by (simp add: complete_report_def Let_def Some)
  have "r_reviewed_clean joined \<longrightarrow> r_reviewed_clean ?bound" "r_reviewed_committed joined \<longrightarrow> r_reviewed_committed ?bound"
    "r_reviewed_head joined = r_reviewed_head ?bound"
    using joined(2) by (simp_all add: joined_soundly_def Let_def)
  then show ?thesis by (intro that [OF completed]) (simp_all add: default_outcomes_kept)
qed

text \<open>
  C26. A report that can be approved under any policy is of one immutable tree: it comes from a review
  of a committed head, all scopes lay in one checkout that was clean at that head when the review
  began, and every scope was clean at the same head when it ended, whatever the auxiliary analyses
  added. Completing a report never panics.
\<close>

theorem approvable_report_pinned:
  "approvals_pinned ho scopes identity (complete_report ho scopes identity auxiliary feedback report)"
  by (rule complete_report_identity [of ho scopes identity auxiliary feedback report])
    (use approvable_identity bound_identity in \<open>simp add: approvals_pinned_def; blast\<close>)

section \<open>What a finished run changes\<close>

text \<open>The files that a finished run may replace.\<close>

definition history_files :: "'w Host \<Rightarrow> ReviewReport \<Rightarrow> string list \<Rightarrow> string set" where
  "history_files ho report scopes =
     (case scopes of
        [] \<Rightarrow> {}
      | scope # _ \<Rightarrow>
          (case head_sha (ho_saved ho) scope of
             Inl _ \<Rightarrow> {}
           | Inr sha \<Rightarrow> {Stores.path_join history_dir (sha @ ''.'' @ mode_key (r_mode report) @ ''.json''),
                        Stores.path_join history_dir (sha @ ''.json'')}))"

definition later_files :: "'w Host \<Rightarrow> ReviewReport \<Rightarrow> string list \<Rightarrow> string option \<Rightarrow> string set" where
  "later_files ho report scopes sarif =
     (if r_shard report \<noteq> None then {} else set_option sarif \<union> history_files ho report scopes)"

text \<open>
  Other files that existed stay; a run that ends well has printed the report and saved it, and blocks
  exactly when asked to and the report, if it is no shard, has a blocking finding.
\<close>

fun persisted ::
  "'w Host \<Rightarrow> ReviewReport \<Rightarrow> string list \<Rightarrow> string option \<Rightarrow> bool \<Rightarrow> files \<Rightarrow> (exit \<times> string list) \<times> disk \<Rightarrow> bool" where
  "persisted ho report scopes sarif fail_on_blocking fs ((e, out), (fs', counter)) \<longleftrightarrow>
     (let saved = report_path (rn_env (ho_run ho)); later = later_files ho report scopes sarif in
      (\<forall>p. fs p \<noteq> None \<and> p \<noteq> saved \<and> p \<notin> later \<longrightarrow> fs' p = fs p) \<and>
      (e = Done \<or> e = Blocked \<longrightarrow>
         (\<exists>content. co_report (rn_codec (ho_run ho)) report = Inr content \<and> out = [content] \<and>
            (saved \<notin> later \<longrightarrow> fs' saved = Some (content @ [NL]))) \<and>
         (e = Blocked \<longleftrightarrow> r_shard report = None \<and> fail_on_blocking \<and> blocking_report report)))"

lemma save_text_keeps:
  assumes "save_text sy pretty path counter fs = (r, fs', counter', seen)" "p \<noteq> path" "fs p \<noteq> None"
  shows "fs' p = fs p"
proof (cases pretty)
  case (Inl e)
  with assms(1) show ?thesis by (simp add: save_text_def)
next
  case (Inr body)
  then have "old_or_new path (body @ [NL]) fs fs'"
    using write_atomic_replaces [of path "body @ [NL]" fs sy counter] assms(1) by (simp add: save_text_def)
  with assms show ?thesis by (simp add: old_or_new_def)
qed

lemma save_report_outcome:
  assumes "save_report sy co report path counter fs = (r, fs', counter', seen)"
  shows "p \<noteq> path \<Longrightarrow> fs p \<noteq> None \<Longrightarrow> fs' p = fs p"
    "r = Inr u \<Longrightarrow> \<exists>content. co_report co report = Inr content \<and> fs' = fs(path \<mapsto> content @ [NL])"
  using assms save_text_keeps save_text_done unfolding save_report_def by metis+

lemma persist_sarif_keeps:
  assumes "persist_sarif ho report sarif d = (r, d')" "p \<notin> set_option sarif" "fst d p \<noteq> None"
  shows "fst d' p = fst d p"
proof (cases sarif)
  case (Some path)
  obtain x fs counter seen where saved: "save_text (ho_system ho 1) (rn_pretty (ho_run ho) (to_sarif report)) path (snd d) (fst d) =
      (x, fs, counter, seen)" by (metis prod_cases4)
  have "fs p = fst d p" using save_text_keeps [OF saved] assms(2,3) Some by simp
  then show ?thesis using assms(1) Some saved by (auto simp: persist_sarif_def)
qed (use assms in \<open>simp add: persist_sarif_def\<close>)

lemma persist_history_keeps:
  assumes "p \<notin> history_files ho report (scope # scopes)" "fst d p \<noteq> None"
  shows "fst (persist_history ho report scope d) p = fst d p"
proof (cases "head_sha (ho_saved ho) scope")
  case (Inr sha)
  obtain x fs counter seen where saved: "save_history (ho_system ho 2) (rn_codec (ho_run ho)) (rn_reading (ho_run ho)) (ho_removal ho)
      report sha (snd d) (fst d) = (x, fs, counter, seen)" by (metis prod_cases4)
  have "fs p = fst d p"
    using save_history_keeps [OF _ _ assms(2) saved [unfolded save_history_def]] assms(1) Inr by (simp add: history_files_def)
  then show ?thesis by (simp add: persist_history_def Inr saved)
qed (simp add: persist_history_def)

lemma print_report_exit:
  "print_report ho report e = (e', out) \<Longrightarrow>
     (\<exists>m. e' = Failed m) \<or> e' = e \<and> (\<exists>content. co_report (rn_codec (ho_run ho)) report = Inr content \<and> out = [content])"
  by (auto simp: print_report_def split: sum.splits)

lemma persist_report_persists:
  "persisted ho report scopes sarif fail_on_blocking fs (persist_report ho report scopes sarif fail_on_blocking (fs, counter))"
proof -
  let ?saved = "report_path (rn_env (ho_run ho))" and ?later = "later_files ho report scopes sarif"
  obtain e out fs' c' where run: "persist_report ho report scopes sarif fail_on_blocking (fs, counter) = ((e, out), (fs', c'))"
    by (metis prod.exhaust)
  obtain r fs1 c1 seen where saving: "save_report (ho_system ho 0) (rn_codec (ho_run ho)) report ?saved counter fs = (r, fs1, c1, seen)"
    by (metis prod_cases4)
  have keep1: "fs1 p = fs p" if "p \<noteq> ?saved" "fs p \<noteq> None" for p by (rule save_report_outcome(1) [OF saving that])
  show ?thesis
  proof (cases r)
    case (Inl m)
    then show ?thesis unfolding run using run saving keep1 by (auto simp: persist_report_def Let_def)
  next
    case (Inr u)
    then obtain content where content: "co_report (rn_codec (ho_run ho)) report = Inr content" "fs1 = fs(?saved \<mapsto> content @ [NL])"
      using save_report_outcome(2) [OF saving] by blast
    show ?thesis
    proof (cases "r_shard report = None")
      case False
      then have "fs' = fs1" "(e, out) = print_report ho report Done" using run saving Inr by (auto simp: persist_report_def)
      with False content show ?thesis unfolding run by (auto simp: print_report_def Let_def)
    next
      case True
      obtain x d where sarif: "persist_sarif ho report sarif (fs1, c1) = (x, d)" by (metis prod.exhaust)
      have keep2: "fst d p = fs1 p" if "p \<notin> ?later" "fs1 p \<noteq> None" for p
        using persist_sarif_keeps [OF sarif] that True by (simp add: later_files_def)
      show ?thesis
      proof (cases "x = Inr () \<and> scopes \<noteq> []")
        case False
        then have "fs' = fst d" "e \<noteq> Done" "e \<noteq> Blocked"
          using run saving Inr True sarif by (auto simp: persist_report_def split: sum.splits list.splits)
        then show ?thesis unfolding run using keep1 keep2 content(2) by (auto simp: Let_def)
      next
        case ok: True
        then obtain scope rest where scopes: "scopes = scope # rest" by (cases scopes) auto
        have finished: "fs' = fst (persist_history ho report scope d)" "(e, out) = print_report ho report (exit_of fail_on_blocking report)"
          using run saving Inr True sarif ok by (auto simp: persist_report_def scopes)
        have keep3: "fs' p = fst d p" if "p \<notin> ?later" "fst d p \<noteq> None" for p
          using persist_history_keeps [of p ho report scope rest d] that True unfolding finished(1) by (simp add: later_files_def scopes)
        have keep: "fs' p = fs1 p" if "p \<notin> ?later" "fs1 p \<noteq> None" for p
          using keep2 [OF that] keep3 [of p] that by simp
        have printed: "out = [content]" "e = exit_of fail_on_blocking report"
          using finished(2) content(1) by (simp_all add: print_report_def)
        have "fs' p = fs p" if "fs p \<noteq> None" "p \<noteq> ?saved" "p \<notin> ?later" for p
          using keep [OF that(3)] that content(2) by simp
        moreover have "fs' ?saved = Some (content @ [NL])" if "?saved \<notin> ?later"
          using keep [OF that] content(2) by simp
        ultimately show ?thesis unfolding run using printed content(1) True by (auto simp: exit_of_def Let_def)
      qed
    qed
  qed
qed

text \<open>
  C28. What a finished run leaves, whatever the disk answers: every file that existed is as it was, except
  the report, and for a whole run (no shard) the SARIF log and the history entry of this commit; a run
  that ends well has printed its report and saved it complete, whatever became of the history; it blocks
  exactly when this was asked for and a whole report has a blocking finding.
\<close>

theorem finished_run_persists:
  "persisted ho report scopes sarif fail_on_blocking fs (persist_report ho report scopes sarif fail_on_blocking (fs, counter))"
  by (rule persist_report_persists)

end
